(* ===== verification/Proxy_Prelude.thy ===== *)
theory Proxy_Prelude
  imports Main "HOL-Library.Word" "HOL-Library.Char_ord" "HOL-Library.List_Lexorder"
    "HOL-Library.AList" "HOL-Library.Sublist"
begin

text \<open>
  Shared types and lemmas of the development.

  \<^item> Instants (\<open>time.Time\<close>, always read through \<open>UTC()\<close>) are integers: nanoseconds since Go's
    zero time, so \<open>IsZero\<close> is equality with 0, \<open>After\<close> and \<open>Before\<close> are the order of \<open>int\<close> and
    \<open>Truncate\<close> is \<open>t - t mod d\<close>. A \<open>time.Duration\<close> is a signed 64-bit number of nanoseconds;
    \<open>wrap64\<close> writes its wrap-around out and \<open>time_sub\<close> is the saturating \<open>Time.Sub\<close>.
  \<^item> Go strings are byte strings (\<open>string\<close>), compared byte by byte; \<open>trim_space\<close> is
    \<open>strings.TrimSpace\<close> with the UTF-8 encodings of every Unicode space.
  \<^item> Go maps and SQL tables are association lists with distinct keys (\<open>HOL-Library.AList\<close>); the
    order of the list is the order in which an iteration happens to visit the entries.
  \<^item> \<open>scan\<close> is the loop "keep the best entry seen so far"; the locale \<open>scan_order\<close> proves once
    that its result does not depend on the order of the iteration.
\<close>

named_theorems go_string \<open>facts about the byte-string functions of the Go library\<close>
named_theorems go_time \<open>facts about instants and durations\<close>

section \<open>Instants and durations\<close>

type_synonym time = int
type_synonym duration = int

definition is_zero_time :: "time \<Rightarrow> bool" where
  [simp]: "is_zero_time t \<longleftrightarrow> t = 0"

definition second :: duration where [go_time]: "second = 1000000000"
definition minute :: duration where [go_time]: "minute = 60000000000"
definition hour :: duration where [go_time]: "hour = 3600000000000"

definition max_int64 :: int where [go_time]: "max_int64 = 9223372036854775807"
definition min_int64 :: int where [go_time]: "min_int64 = -9223372036854775808"

text \<open>The value of a signed 64-bit expression whose exact value is \<open>x\<close>.\<close>

definition wrap64 :: "int \<Rightarrow> int" where
  "wrap64 x = (x + 9223372036854775808) mod 18446744073709551616 - 9223372036854775808"

lemma wrap64_id: "min_int64 \<le> x \<Longrightarrow> x \<le> max_int64 \<Longrightarrow> wrap64 x = x"
  by (simp add: wrap64_def go_time)

lemma wrap64_range: "min_int64 \<le> wrap64 x" "wrap64 x \<le> max_int64"
  by (simp_all add: wrap64_def go_time)

text \<open>\<open>Time.Sub\<close> saturates at the bounds of \<open>Duration\<close>.\<close>

definition time_sub :: "time \<Rightarrow> time \<Rightarrow> duration" where
  "time_sub t u = max min_int64 (min max_int64 (t - u))"

lemma time_sub_neg_iff: "time_sub t u < 0 \<longleftrightarrow> t < u"
  by (auto simp: time_sub_def go_time)

lemma time_sub_le_iff: "0 \<le> d \<Longrightarrow> d < max_int64 \<Longrightarrow> time_sub t u \<le> d \<longleftrightarrow> t \<le> u + d"
  by (auto simp: time_sub_def go_time)

definition time_truncate :: "time \<Rightarrow> duration \<Rightarrow> time" where
  "time_truncate t d = (if d \<le> 0 then t else t - t mod d)"

lemma time_truncate_le: "time_truncate t d \<le> t"
  by (simp add: time_truncate_def)

lemma time_truncate_gt: "0 < d \<Longrightarrow> t < time_truncate t d + d"
  by (simp add: time_truncate_def)

lemma time_truncate_idem: "time_truncate (time_truncate t d) d = time_truncate t d"
  by (simp add: time_truncate_def minus_mod_eq_mult_div)

lemma time_truncate_mono:
  assumes "t \<le> u" shows "time_truncate t d \<le> time_truncate u d"
proof (cases "d \<le> 0")
  case False
  then have "d * (t div d) \<le> d * (u div d)"
    using assms by (simp add: zdiv_mono1)
  with False show ?thesis
    by (simp add: time_truncate_def minus_mod_eq_mult_div)
qed (use assms in \<open>simp add: time_truncate_def\<close>)

section \<open>Byte strings\<close>

text \<open>
  \<open>trim_seqs es s\<close> removes leading occurrences of the non-empty sequences \<open>es\<close>.
\<close>

function trim_seqs :: "string list \<Rightarrow> string \<Rightarrow> string" where
  "trim_seqs es s =
     (case find (\<lambda>e. e \<noteq> [] \<and> prefix e s) es of
        None \<Rightarrow> s
      | Some e \<Rightarrow> trim_seqs es (drop (length e) s))"
  by pat_completeness auto
termination
  by (relation "measure (\<lambda>(es, s). length s)")
    (auto simp: find_Some_iff intro!: diff_less dest: nth_mem)

declare trim_seqs.simps [simp del]

text \<open>The UTF-8 encodings of the code points for which \<open>unicode.IsSpace\<close> holds.\<close>

definition space_runes :: "string list" where
  "space_runes =
     [[CHR 0x20], [CHR 0x09], [CHR 0x0A], [CHR 0x0B], [CHR 0x0C], [CHR 0x0D],
      [CHR 0xC2, CHR 0x85], [CHR 0xC2, CHR 0xA0], [CHR 0xE1, CHR 0x9A, CHR 0x80],
      [CHR 0xE2, CHR 0x80, CHR 0x80], [CHR 0xE2, CHR 0x80, CHR 0x81], [CHR 0xE2, CHR 0x80, CHR 0x82],
      [CHR 0xE2, CHR 0x80, CHR 0x83], [CHR 0xE2, CHR 0x80, CHR 0x84], [CHR 0xE2, CHR 0x80, CHR 0x85],
      [CHR 0xE2, CHR 0x80, CHR 0x86], [CHR 0xE2, CHR 0x80, CHR 0x87], [CHR 0xE2, CHR 0x80, CHR 0x88],
      [CHR 0xE2, CHR 0x80, CHR 0x89], [CHR 0xE2, CHR 0x80, CHR 0x8A], [CHR 0xE2, CHR 0x80, CHR 0xA8],
      [CHR 0xE2, CHR 0x80, CHR 0xA9], [CHR 0xE2, CHR 0x80, CHR 0xAF], [CHR 0xE2, CHR 0x81, CHR 0x9F],
      [CHR 0xE3, CHR 0x80, CHR 0x80]]"

definition trim_left :: "string \<Rightarrow> string" where
  "trim_left s = trim_seqs space_runes s"

definition trim_right :: "string \<Rightarrow> string" where
  "trim_right s = rev (trim_seqs (map rev space_runes) (rev s))"

definition trim_space :: "string \<Rightarrow> string" where
  "trim_space s = trim_right (trim_left s)"


definition no_lead :: "string list \<Rightarrow> string \<Rightarrow> bool" where
  "no_lead es s \<longleftrightarrow> (\<forall>e\<in>set es. e \<noteq> [] \<longrightarrow> \<not> prefix e s)"

lemma find_lead_None: "find (\<lambda>e. e \<noteq> [] \<and> prefix e s) es = None \<longleftrightarrow> no_lead es s"
  by (auto simp: find_None_iff no_lead_def)

lemma trim_seqs_id: "no_lead es s \<Longrightarrow> trim_seqs es s = s"
  by (subst trim_seqs.simps) (simp add: find_lead_None [symmetric])

lemma trim_seqs_no_lead: "no_lead es (trim_seqs es s)"
proof (induction es s rule: trim_seqs.induct)
  case (1 es s)
  show ?case
  proof (cases "find (\<lambda>e. e \<noteq> [] \<and> prefix e s) es")
    case None
    then have "no_lead es s" by (simp only: find_lead_None)
    then show ?thesis by (simp add: trim_seqs_id)
  next
    case (Some e)
    with 1 [OF Some] show ?thesis by (subst trim_seqs.simps) simp
  qed
qed

lemma trim_seqs_suffix: "suffix (trim_seqs es s) s"
proof (induction es s rule: trim_seqs.induct)
  case (1 es s)
  show ?case
  proof (cases "find (\<lambda>e. e \<noteq> [] \<and> prefix e s) es")
    case None
    then show ?thesis by (subst trim_seqs.simps) simp
  next
    case (Some e)
    with 1 [OF Some] show ?thesis
      by (subst trim_seqs.simps) (auto intro: suffix_order.trans suffix_drop)
  qed
qed

lemma no_lead_prefix: "no_lead es s \<Longrightarrow> prefix p s \<Longrightarrow> no_lead es p"
  by (auto simp: no_lead_def dest: prefix_order.trans)

lemma trim_right_prefix: "prefix (trim_right s) s"
  using trim_seqs_suffix [of "map rev space_runes" "rev s"]
  by (simp add: trim_right_def suffix_to_prefix)

lemma trim_right_idem: "trim_right (trim_right s) = trim_right s"
  by (simp add: trim_right_def trim_seqs_id trim_seqs_no_lead)

lemma trim_left_no_lead: "no_lead space_runes s \<Longrightarrow> trim_left s = s"
  by (simp add: trim_left_def trim_seqs_id)

lemma trim_space_idem [go_string, simp]: "trim_space (trim_space s) = trim_space s"
proof -
  have "no_lead space_runes (trim_space s)"
    unfolding trim_space_def
    by (rule no_lead_prefix [OF _ trim_right_prefix]) (simp add: trim_left_def trim_seqs_no_lead)
  then show ?thesis
    by (simp add: trim_space_def trim_left_no_lead trim_right_idem)
qed

lemma set_trim_space: "set (trim_space s) \<subseteq> set s"
proof -
  have "set (trim_right (trim_left s)) \<subseteq> set (trim_left s)"
    by (rule set_mono_prefix [OF trim_right_prefix])
  also have "\<dots> \<subseteq> set s"
    unfolding trim_left_def by (rule set_mono_suffix [OF trim_seqs_suffix])
  finally show ?thesis by (simp add: trim_space_def)
qed

lemma length_trim_space: "length (trim_space s) \<le> length s"
proof -
  have "length (trim_right (trim_left s)) \<le> length (trim_left s)"
    by (rule prefix_length_le [OF trim_right_prefix])
  also have "\<dots> \<le> length s"
    unfolding trim_left_def by (rule suffix_length_le [OF trim_seqs_suffix])
  finally show ?thesis by (simp add: trim_space_def)
qed

text \<open>A string that starts and ends with an ASCII character other than a space is kept as it is.\<close>

definition plain_char :: "char \<Rightarrow> bool" where
  "plain_char c \<longleftrightarrow> 0x20 < (of_char c :: nat) \<and> (of_char c :: nat) < 0x80"

lemma space_runes_ends:
  "e \<in> set space_runes \<Longrightarrow> e \<noteq> [] \<and> \<not> plain_char (hd e) \<and> \<not> plain_char (last e)"
  unfolding space_runes_def plain_char_def by auto

lemma trim_space_plain [go_string]:
  assumes "s \<noteq> []" "plain_char (hd s)" "plain_char (last s)"
  shows "trim_space s = s"
proof -
  have "no_lead space_runes s"
    using assms space_runes_ends by (fastforce simp: no_lead_def prefix_def)
  moreover have "no_lead (map rev space_runes) (rev s)"
    using assms space_runes_ends
    by (fastforce simp: no_lead_def prefix_def hd_rev [symmetric] hd_append)
  ultimately show ?thesis
    by (simp add: trim_space_def trim_left_no_lead trim_right_def trim_seqs_id)
qed

lemma trim_space_Nil [go_string, simp]: "trim_space [] = []"
  using length_trim_space [of "[]"] by simp

text \<open>The fields of a byte: ASCII case mapping and the character classes the code tests.\<close>

definition is_lower :: "char \<Rightarrow> bool" where "is_lower c \<longleftrightarrow> CHR ''a'' \<le> c \<and> c \<le> CHR ''z''"
definition is_upper :: "char \<Rightarrow> bool" where "is_upper c \<longleftrightarrow> CHR ''A'' \<le> c \<and> c \<le> CHR ''Z''"
definition is_digit :: "char \<Rightarrow> bool" where "is_digit c \<longleftrightarrow> CHR ''0'' \<le> c \<and> c \<le> CHR ''9''"

definition is_alnum :: "char \<Rightarrow> bool" where
  "is_alnum c \<longleftrightarrow> is_lower c \<or> is_upper c \<or> is_digit c"

text \<open>\<open>firstNonEmptyString\<close>\<close>

fun firstNonEmptyString :: "string list \<Rightarrow> string" where
  "firstNonEmptyString [] = []"
| "firstNonEmptyString (v # vs) = (if v \<noteq> [] then v else firstNonEmptyString vs)"

section \<open>Lists, association lists\<close>

text \<open>
  The loop that appends the normal form of each element unless it is rejected or already
  present (\<open>normalizeStrings\<close>, \<open>normalizeSessionAffinityDigests\<close>, \<open>digestSessionAffinitySignals\<close>).
\<close>

fun collect_new :: "('a \<Rightarrow> 'b option) \<Rightarrow> 'b list \<Rightarrow> 'a list \<Rightarrow> 'b list" where
  "collect_new f acc [] = acc"
| "collect_new f acc (x # xs) =
     (case f x of
        None \<Rightarrow> collect_new f acc xs
      | Some y \<Rightarrow> if y \<in> set acc then collect_new f acc xs else collect_new f (acc @ [y]) xs)"

lemma distinct_collect_new: "distinct acc \<Longrightarrow> distinct (collect_new f acc xs)"
  by (induction xs arbitrary: acc) (auto split: option.split)

lemma set_collect_new: "set (collect_new f acc xs) = set acc \<union> {y. \<exists>x\<in>set xs. f x = Some y}"
  by (induction xs arbitrary: acc) (auto split: option.split)

lemma collect_new_id:
  assumes "\<And>x. x \<in> set xs \<Longrightarrow> f x = Some x" "distinct (acc @ xs)"
  shows "collect_new f acc xs = acc @ xs"
  using assms by (induction xs arbitrary: acc) auto

lemma collect_new_idem:
  assumes "\<And>x y. f x = Some y \<Longrightarrow> f y = Some y"
  shows "collect_new f [] (collect_new f [] xs) = collect_new f [] xs"
  using collect_new_id [of "collect_new f [] xs" f "[]"] assms
  by (auto simp: set_collect_new distinct_collect_new)

text \<open>Tables: keys of an updated or filtered association list stay distinct.\<close>

abbreviation keys_distinct :: "('k \<times> 'v) list \<Rightarrow> bool" where
  "keys_distinct m \<equiv> distinct (map fst m)"

lemma keys_distinct_filter [simp]: "keys_distinct m \<Longrightarrow> keys_distinct (filter P m)"
  by (induction m) auto

lemma map_of_filter_keys:
  "keys_distinct m \<Longrightarrow>
   map_of (filter P m) k = (case map_of m k of None \<Rightarrow> None | Some v \<Rightarrow> if P (k, v) then Some v else None)"
  by (induction m) (auto split: option.splits dest: map_of_SomeD simp: rev_image_eqI)

section \<open>Scanning for the best entry\<close>

fun scan :: "('a \<Rightarrow> 'a \<Rightarrow> bool) \<Rightarrow> 'a option \<Rightarrow> 'a list \<Rightarrow> 'a option" where
  "scan better w [] = w"
| "scan better None (x # xs) = scan better (Some x) xs"
| "scan better (Some w) (x # xs) = scan better (Some (if better x w then x else w)) xs"

lemma scan_Some: "scan better (Some w) xs \<noteq> None"
  by (induction xs arbitrary: w) auto

lemma scan_None_iff [simp]: "scan better None xs = None \<longleftrightarrow> xs = []"
  by (cases xs) (simp_all add: scan_Some)

lemma scan_mem: "scan better w xs = Some v \<Longrightarrow> v \<in> set xs \<or> w = Some v"
  by (induction better w xs rule: scan.induct) (auto split: if_splits)

text \<open>
  The contract of a preference: a strict order that decides between any two entries with
  different keys. Its clients scan a Go map, whose iteration order is not determined.
\<close>

locale scan_order =
  fixes better :: "'a \<Rightarrow> 'a \<Rightarrow> bool" and key :: "'a \<Rightarrow> 'k"
  assumes better_irrefl: "\<not> better x x"
    and better_trans: "better x y \<Longrightarrow> better y z \<Longrightarrow> better x z"
    and better_total: "key x \<noteq> key y \<Longrightarrow> better x y \<or> better y x"
begin

lemma scan_least:
  assumes "scan better w xs = Some v" "inj_on key (set xs \<union> set_option w)"
  shows "\<forall>x\<in>set xs \<union> set_option w. x = v \<or> better v x"
  using assms
proof (induction xs arbitrary: w)
  case (Cons x xs)
  show ?case
  proof (cases w)
    case None
    with Cons.IH [of "Some x"] Cons.prems show ?thesis by simp
  next
    case (Some u)
    let ?u = "if better x u then x else u"
    have inj: "inj_on key (set xs \<union> set_option (Some ?u))"
      using Cons.prems(2) unfolding Some by (rule inj_on_subset) auto
    have best: "\<forall>y\<in>set xs \<union> {?u}. y = v \<or> better v y"
      using Cons.IH [OF _ inj] Cons.prems(1) Some by simp
    have "x = u \<or> better x u \<or> better u x"
      using better_total [of x u] Cons.prems(2) Some by (auto simp: inj_on_def)
    then show ?thesis
      using best Some by (auto split: if_splits intro: better_trans)
  qed
qed auto

lemma scan_unique:
  assumes inj: "inj_on key (set xs)" and same: "set xs = set ys"
  shows "scan better None xs = scan better None ys"
proof (cases "xs = []")
  case False
  with same have "ys \<noteq> []" by auto
  with False obtain v w where v: "scan better None xs = Some v" and w: "scan better None ys = Some w"
    by (metis not_None_eq scan_None_iff)
  have "v = w \<or> better v w" "w = v \<or> better w v"
    using scan_least [OF v] scan_least [OF w] scan_mem [OF v] scan_mem [OF w] inj same by auto
  then show ?thesis
    using v w better_irrefl better_trans by metis
qed (use same in simp)

end

end
