(* ===== verification/Storage_Failure.thy ===== *)
theory Storage_Failure
  imports Proxy_Prelude
begin

text \<open>
  The storage-failure latch (\<open>storage_failure.go\<close>) and the response writer that consults it
  (\<open>storage_response_writer.go\<close>).

  Errors are values of \<open>go_err\<close>; \<open>err_is\<close> is \<open>errors.Is\<close> over the wrapping the package does with
  \<open>%w\<close>. The latch is shared by every goroutine of the process: each operation below is one atomic
  step (the code runs it under the latch's mutex or \<open>sync.Once\<close>), and a run is any interleaving of
  reports with the operations of one response writer. \<open>wire\<close> is what the writer passed to the
  underlying \<open>http.ResponseWriter\<close>, in order.
\<close>

section \<open>Errors\<close>

datatype go_err =
    ErrInvalidInput
  | ErrDuplicateUserName
  | ErrUserNotFound
  | ErrInvalidAPIKey
  | ErrDisabledCredential
  | ErrStorageFailure
  | ErrNoRows
  | ErrTxDone
  | ErrCanceled
  | ErrDeadlineExceeded
  | ErrNotSupported
  | PlainError string
  | StorageError string go_err
  | WrapInvalidInput go_err

text \<open>
  \<open>StorageError op e\<close> is \<open>fmt.Errorf("%w: %s: %w", ErrStorageFailure, op, e)\<close>;
  \<open>WrapInvalidInput e\<close> is \<open>fmt.Errorf("%w: %v", ErrInvalidInput, e)\<close>, which does not wrap \<open>e\<close>.
\<close>

fun err_is :: "go_err \<Rightarrow> go_err \<Rightarrow> bool" where
  "err_is (StorageError op e) target =
     (StorageError op e = target \<or> target = ErrStorageFailure \<or> err_is e target)"
| "err_is (WrapInvalidInput e) target = (WrapInvalidInput e = target \<or> target = ErrInvalidInput)"
| "err_is e target = (e = target)"

definition expectedStoreError :: "go_err \<Rightarrow> bool" where
  "expectedStoreError e \<longleftrightarrow>
     err_is e ErrInvalidInput \<or>
     err_is e ErrDuplicateUserName \<or>
     err_is e ErrUserNotFound \<or>
     err_is e ErrInvalidAPIKey \<or>
     err_is e ErrDisabledCredential \<or>
     err_is e ErrNoRows \<or>
     err_is e ErrTxDone \<or>
     err_is e ErrCanceled \<or>
     err_is e ErrDeadlineExceeded"

lemma expected_sentinels [simp]:
  "expectedStoreError ErrInvalidInput" "expectedStoreError ErrDuplicateUserName"
  "expectedStoreError ErrUserNotFound" "expectedStoreError ErrInvalidAPIKey"
  "expectedStoreError ErrDisabledCredential" "expectedStoreError ErrNoRows"
  "expectedStoreError ErrTxDone" "expectedStoreError ErrCanceled"
  "expectedStoreError ErrDeadlineExceeded" "expectedStoreError (WrapInvalidInput e)"
  "\<not> expectedStoreError ErrStorageFailure" "\<not> expectedStoreError (PlainError s)"
  by (simp_all add: expectedStoreError_def)

section \<open>The failure latch\<close>

text \<open>
  \<open>reported\<close> is the state of the \<open>sync.Once\<close>, \<open>chan\<close> the contents of the channel of capacity 1,
  \<open>on_reports\<close> the number of calls of \<open>onReport\<close> (which cancels the server context).
\<close>

record failure_state =
  reported :: bool
  failure_err :: "go_err option"
  failure_chan :: "go_err list"
  on_reports :: nat

definition newStorageFailureState :: failure_state where
  "newStorageFailureState = \<lparr>reported = False, failure_err = None, failure_chan = [], on_reports = 0\<rparr>"

definition failure_current :: "failure_state \<Rightarrow> go_err option" where
  "failure_current s = failure_err s"

definition failure_report :: "go_err option \<Rightarrow> failure_state \<Rightarrow> go_err option \<times> failure_state" where
  "failure_report err s =
     (case err of
        None \<Rightarrow> (None, s)
      | Some e \<Rightarrow>
          let s' = (if reported s then s
                    else s\<lparr>reported := True, failure_err := Some e,
                           on_reports := on_reports s + 1, failure_chan := failure_chan s @ [e]\<rparr>)
          in (failure_current s', s'))"

definition failure_commit :: "('a \<Rightarrow> 'a) \<Rightarrow> failure_state \<Rightarrow> 'a \<Rightarrow> go_err option \<times> 'a" where
  "failure_commit action s x =
     (case failure_err s of Some e \<Rightarrow> (Some e, x) | None \<Rightarrow> (None, action x))"

definition databaseError :: "string \<Rightarrow> go_err option \<Rightarrow> failure_state \<Rightarrow> go_err option \<times> failure_state" where
  "databaseError operation err s =
     (case err of
        None \<Rightarrow> (None, s)
      | Some e \<Rightarrow>
          if expectedStoreError e then (Some e, s)
          else (case failure_current s of
                  Some current \<Rightarrow> (Some current, s)
                | None \<Rightarrow> failure_report (Some (StorageError operation e)) s))"

text \<open>The state between operations: what the \<open>sync.Once\<close> and the stored error say of each other.\<close>

definition latch_inv :: "failure_state \<Rightarrow> bool" where
  "latch_inv s \<longleftrightarrow>
     (reported s \<longleftrightarrow> failure_err s \<noteq> None) \<and>
     on_reports s = (if reported s then 1 else 0) \<and>
     failure_chan s = (case failure_err s of None \<Rightarrow> [] | Some e \<Rightarrow> [e])"

lemma latch_inv_new [simp]: "latch_inv newStorageFailureState"
  by (simp add: latch_inv_def newStorageFailureState_def)

lemma latch_inv_report [simp]: "latch_inv s \<Longrightarrow> latch_inv (snd (failure_report err s))"
  by (auto simp: latch_inv_def failure_report_def Let_def split: option.splits)

lemma latch_inv_databaseError [simp]: "latch_inv s \<Longrightarrow> latch_inv (snd (databaseError op err s))"
  by (simp add: databaseError_def split: option.split)

text \<open>
  The interface the rest of the process relies on: a cell that takes the first error and keeps it.
\<close>

locale failure_latch =
  fixes current :: "'s \<Rightarrow> go_err option"
    and record_err :: "go_err \<Rightarrow> 's \<Rightarrow> 's"
    and invar :: "'s \<Rightarrow> bool"
  assumes takes_first: "invar s \<Longrightarrow> current s = None \<Longrightarrow> current (record_err e s) = Some e"
    and keeps: "invar s \<Longrightarrow> current s = Some f \<Longrightarrow> record_err e s = s"
    and invar_record: "invar s \<Longrightarrow> invar (record_err e s)"
begin

lemma invar_run: "invar s \<Longrightarrow> invar (fold record_err es s)"
  by (induction es arbitrary: s) (auto intro: invar_record)

lemma keeps_run: "invar s \<Longrightarrow> current s = Some f \<Longrightarrow> fold record_err es s = s"
  by (induction es) (simp_all add: keeps)

lemma first_wins: "invar s \<Longrightarrow> current s = None \<Longrightarrow> current (fold record_err (e # es) s) = Some e"
  by (simp add: takes_first invar_record keeps_run)

end

interpretation latch: failure_latch failure_current "\<lambda>e s. snd (failure_report (Some e) s)" latch_inv
proof unfold_locales
  fix s e f
  assume s: "latch_inv s"
  show "failure_current s = None \<Longrightarrow> failure_current (snd (failure_report (Some e) s)) = Some e"
    using s by (auto simp: failure_report_def failure_current_def latch_inv_def)
  show "failure_current s = Some f \<Longrightarrow> snd (failure_report (Some e) s) = s"
    using s by (auto simp: failure_report_def failure_current_def latch_inv_def)
  show "latch_inv (snd (failure_report (Some e) s))"
    using s by simp
qed

section \<open>The response writer\<close>

datatype wire_event =
    WireHeader int
  | WireBody string
  | WireDelHeaders
  | WireFlush
  | WireHijack
  | WirePush string

text \<open>What the underlying writer can do, and how its calls end.\<close>

datatype flush_cap = HasFlushError "go_err option" | HasFlush | NoFlush

record writer =
  wire :: "wire_event list"
  committed :: bool
  blocked :: bool
  fatal_err :: "go_err option"

record writer_caps =
  flusher :: flush_cap
  hijacker :: "go_err option option"
  pusher :: "go_err option option"

definition newStorageResponseWriter :: writer where
  "newStorageResponseWriter = \<lparr>wire = [], committed = False, blocked = False, fatal_err = None\<rparr>"

definition emit :: "wire_event list \<Rightarrow> writer \<Rightarrow> writer" where
  "emit evs w = w\<lparr>wire := wire w @ evs\<rparr>"

text \<open>\<open>writeError(w, 500, "internal server error")\<close> on the underlying writer.\<close>

definition error_body :: string where
  "error_body =
     ''{\"error\":{\"message\":\"internal server error\",\"type\":\"Internal Server Error\"}}'' @ [CHR 0x0A]"

definition writeFatalLocked :: "go_err \<Rightarrow> writer \<Rightarrow> writer" where
  "writeFatalLocked err w =
     (emit [WireDelHeaders, WireHeader 500, WireBody error_body] w)
       \<lparr>committed := True, blocked := True, fatal_err := Some err\<rparr>"

definition writeHeaderLocked :: "failure_state \<Rightarrow> int \<Rightarrow> writer \<Rightarrow> writer" where
  "writeHeaderLocked f status w =
     (if committed w then w
      else
        let (err, w') =
          (if status < 400 then failure_commit (emit [WireHeader status]) f w
           else (None, emit [WireHeader status] w))
        in (case err of
              Some e \<Rightarrow> writeFatalLocked e w'
            | None \<Rightarrow> if 200 \<le> status \<or> status = 101 then w'\<lparr>committed := True\<rparr> else w'))"

definition ensure_header :: "failure_state \<Rightarrow> writer \<Rightarrow> writer" where
  "ensure_header f w = (if \<not> committed w then writeHeaderLocked f 200 w else w)"

definition WriteHeader :: "failure_state \<Rightarrow> int \<Rightarrow> writer \<Rightarrow> writer" where
  "WriteHeader f status w = writeHeaderLocked f status w"

definition Write :: "failure_state \<Rightarrow> string \<Rightarrow> writer \<Rightarrow> int \<times> writer" where
  "Write f data w =
     (let w' = ensure_header f w in
      if blocked w' then (int (length data), w')
      else (int (length data), emit [WireBody data] w'))"

definition FlushError :: "failure_state \<Rightarrow> writer_caps \<Rightarrow> writer \<Rightarrow> go_err option \<times> writer" where
  "FlushError f caps w =
     (let w' = ensure_header f w in
      case flusher caps of
        HasFlushError r \<Rightarrow> (r, emit [WireFlush] w')
      | HasFlush \<Rightarrow> (None, emit [WireFlush] w')
      | NoFlush \<Rightarrow> (Some ErrNotSupported, w'))"

definition Hijack :: "failure_state \<Rightarrow> writer_caps \<Rightarrow> writer \<Rightarrow> go_err option \<times> writer" where
  "Hijack f caps w =
     (if blocked w then (fatal_err w, w)
      else (case hijacker caps of
              None \<Rightarrow> (Some ErrNotSupported, w)
            | Some result \<Rightarrow>
                if committed w then (result, emit [WireHijack] w)
                else (case failure_commit (emit [WireHijack]) f w of
                        (Some e, w') \<Rightarrow> (Some e, writeFatalLocked e w')
                      | (None, w') \<Rightarrow>
                          (result, if result = None then w'\<lparr>committed := True\<rparr> else w'))))"

definition Push :: "failure_state \<Rightarrow> writer_caps \<Rightarrow> string \<Rightarrow> writer \<Rightarrow> go_err option \<times> writer" where
  "Push f caps target w =
     (case pusher caps of
        None \<Rightarrow> (Some ErrNotSupported, w)
      | Some result \<Rightarrow>
          (case failure_commit (emit [WirePush target]) f w of
             (Some e, w') \<Rightarrow> (Some e, w')
           | (None, w') \<Rightarrow> (result, w')))"

definition ReadFrom :: "failure_state \<Rightarrow> string \<Rightarrow> writer \<Rightarrow> go_err option \<times> writer" where
  "ReadFrom f src w =
     (let w' = ensure_header f w in
      if blocked w' then (fatal_err w', w')
      else (None, emit [WireBody src] w'))"

text \<open>Interleavings of one writer's calls with reports from anywhere in the process.\<close>

datatype writer_op =
    OpReport go_err
  | OpWriteHeader int
  | OpWrite string
  | OpFlush
  | OpHijack
  | OpPush string
  | OpReadFrom string

fun writer_step :: "writer_caps \<Rightarrow> writer_op \<Rightarrow> failure_state \<times> writer \<Rightarrow> failure_state \<times> writer" where
  "writer_step caps (OpReport e) (f, w) = (snd (failure_report (Some e) f), w)"
| "writer_step caps (OpWriteHeader s) (f, w) = (f, WriteHeader f s w)"
| "writer_step caps (OpWrite d) (f, w) = (f, snd (Write f d w))"
| "writer_step caps OpFlush (f, w) = (f, snd (FlushError f caps w))"
| "writer_step caps OpHijack (f, w) = (f, snd (Hijack f caps w))"
| "writer_step caps (OpPush t) (f, w) = (f, snd (Push f caps t w))"
| "writer_step caps (OpReadFrom d) (f, w) = (f, snd (ReadFrom f d w))"

definition writer_run :: "writer_caps \<Rightarrow> writer_op list \<Rightarrow> failure_state \<times> writer \<Rightarrow> failure_state \<times> writer" where
  "writer_run caps ops s = fold (writer_step caps) ops s"


subsection \<open>What one operation can put on the wire\<close>

definition final_header :: "wire_event \<Rightarrow> bool" where
  "final_header ev \<longleftrightarrow> (\<exists>s. ev = WireHeader s \<and> (200 \<le> s \<or> s = 101))"

definition success_event :: "wire_event \<Rightarrow> bool" where
  "success_event ev \<longleftrightarrow> (\<exists>s. ev = WireHeader s \<and> s < 400) \<or> (\<exists>t. ev = WirePush t)"

lemma event_kinds [simp]:
  "final_header (WireHeader s) \<longleftrightarrow> 200 \<le> s \<or> s = 101"
  "\<not> final_header (WireBody d)" "\<not> final_header WireDelHeaders" "\<not> final_header WireFlush"
  "\<not> final_header WireHijack" "\<not> final_header (WirePush t)"
  "success_event (WireHeader s) \<longleftrightarrow> s < 400" "success_event (WirePush t)"
  "\<not> success_event (WireBody d)" "\<not> success_event WireDelHeaders" "\<not> success_event WireFlush"
  "\<not> success_event WireHijack"
  by (auto simp: final_header_def success_event_def)

lemmas writer_defs =
  WriteHeader_def Write_def FlushError_def Hijack_def Push_def ReadFrom_def ensure_header_def
  writeHeaderLocked_def writeFatalLocked_def failure_commit_def emit_def Let_def

lemmas writer_splits = option.splits if_splits flush_cap.splits prod.splits

text \<open>
  The invariant of a writer against the shared latch: a blocked writer has answered with the fatal
  error; an uncommitted one has written no final header, no body and was not hijacked.
\<close>

definition writer_inv :: "failure_state \<times> writer \<Rightarrow> bool" where
  "writer_inv s \<longleftrightarrow>
     (case s of (f, w) \<Rightarrow>
        latch_inv f \<and>
        (blocked w \<longrightarrow> committed w \<and> failure_err f \<noteq> None \<and> fatal_err w \<noteq> None) \<and>
        length (filter final_header (wire w)) \<le> (if committed w then 1 else 0) \<and>
        (\<not> committed w \<longrightarrow> (\<forall>d. WireBody d \<notin> set (wire w))))"

lemma writer_inv_new: "writer_inv (newStorageFailureState, newStorageResponseWriter)"
  by (simp add: writer_inv_def newStorageResponseWriter_def)

lemma report_keeps_some: "failure_err f \<noteq> None \<Longrightarrow> latch_inv f \<Longrightarrow> snd (failure_report (Some e) f) = f"
  using latch.keeps by (auto simp: failure_current_def)

lemma writer_inv_step:
  assumes "writer_inv (f, w)"
  shows "writer_inv (writer_step caps op (f, w))"
proof (cases op)
  case (OpReport e)
  then show ?thesis
    using assms report_keeps_some [of f e] by (auto simp: writer_inv_def)
qed (use assms in \<open>auto simp: writer_inv_def writer_defs split: writer_splits\<close>)

lemma writer_inv_run: "writer_inv s \<Longrightarrow> writer_inv (writer_run caps ops s)"
  unfolding writer_run_def
proof (induction ops arbitrary: s)
  case (Cons op ops)
  obtain f w where s: "s = (f, w)" by (cases s)
  show ?case
    using Cons.IH [OF writer_inv_step [OF Cons.prems [unfolded s], of caps op]] by (simp add: s)
qed simp

text \<open>While the latch holds an error, no operation puts a success on the wire.\<close>

definition successes :: "writer \<Rightarrow> wire_event list" where
  "successes w = filter success_event (wire w)"

lemmas success_defs = successes_def writer_defs

lemma ensure_header_failed:
  assumes "failure_err f = Some e"
  shows "successes (ensure_header f w) = successes w" "\<not> committed w \<Longrightarrow> blocked (ensure_header f w)"
    "committed w \<Longrightarrow> ensure_header f w = w"
  using assms by (simp_all add: success_defs)

lemma successes_emit [simp]: "successes (emit evs w) = successes w @ filter success_event evs"
  by (simp add: successes_def emit_def)

lemma step_failed:
  assumes "failure_err f = Some e" "latch_inv f"
  shows "fst (writer_step caps op (f, w)) = f"
    and "successes (snd (writer_step caps op (f, w))) = successes w"
proof -
  have keep: "snd (failure_report (Some e') f) = f" for e'
    using latch.keeps [OF assms(2)] assms(1) by (simp add: failure_current_def)
  show "fst (writer_step caps op (f, w)) = f"
    by (cases op) (simp_all add: keep)
  show "successes (snd (writer_step caps op (f, w))) = successes w"
  proof (cases op)
    case (OpWriteHeader s)
    then show ?thesis using assms(1) by (simp add: success_defs)
  next
    case OpHijack
    then show ?thesis using assms(1) by (simp add: success_defs split: option.split)
  next
    case (OpPush t)
    then show ?thesis using assms(1) by (simp add: Push_def failure_commit_def split: option.split)
  qed (simp_all add: Write_def FlushError_def ReadFrom_def Let_def ensure_header_failed [OF assms(1)]
        split: flush_cap.split)
qed

lemma run_failed:
  assumes "failure_err f = Some e" "latch_inv f"
  shows "fst (writer_run caps ops (f, w)) = f \<and> successes (snd (writer_run caps ops (f, w))) = successes w"
  unfolding writer_run_def
proof (induction ops arbitrary: w)
  case (Cons op ops)
  obtain f' w' where step: "writer_step caps op (f, w) = (f', w')" by fastforce
  then have "f' = f" "successes w' = successes w"
    using step_failed [OF assms, of caps op w] by simp_all
  then show ?case using Cons.IH [of w'] step by simp
qed simp

section \<open>Properties\<close>



text \<open>
  whatever a handler calls and whatever the rest of the process reports meanwhile, a fresh
  response writer sends at most one final status line; it blocks only after a recorded failure, and
  no body byte precedes its status line.
\<close>

theorem one_final_header:
  "let (f, w) = writer_run caps ops (newStorageFailureState, newStorageResponseWriter)
   in length (filter final_header (wire w)) \<le> 1 \<and>
      (blocked w \<longrightarrow> failure_err f \<noteq> None) \<and>
      ((\<exists>d. WireBody d \<in> set (wire w)) \<longrightarrow> committed w)"
proof -
  obtain f w where r: "writer_run caps ops (newStorageFailureState, newStorageResponseWriter) = (f, w)"
    by fastforce
  have "writer_inv (f, w)"
    using writer_inv_run [OF writer_inv_new, of caps ops] by (simp add: r)
  then show ?thesis
    by (auto simp: r writer_inv_def split: if_splits)
qed

theorem one_final_header_witness:
  "length (filter final_header (wire (snd (writer_run \<lparr>flusher = NoFlush, hijacker = None, pusher = None\<rparr>
       [OpWriteHeader 103, OpWrite ''a'', OpReport ErrStorageFailure, OpWriteHeader 500]
       (newStorageFailureState, newStorageResponseWriter))))) = 1"
  using one_final_header [of "\<lparr>flusher = NoFlush, hijacker = None, pusher = None\<rparr>"
      "[OpWriteHeader 103, OpWrite ''a'', OpReport ErrStorageFailure, OpWriteHeader 500]"]
  by (simp add: writer_run_def writer_defs newStorageResponseWriter_def newStorageFailureState_def)

text \<open>
  of any sequence of reported errors the first is the one every later call sees; \<open>onReport\<close>
  has run exactly once and exactly that error waits in the channel of capacity 1.
\<close>

theorem first_failure_wins:
  "let s = fold (\<lambda>e s. snd (failure_report (Some e) s)) (e # es) newStorageFailureState
   in failure_current s = Some e \<and> on_reports s = 1 \<and> failure_chan s = [e]"
proof -
  let ?s = "fold (\<lambda>e s. snd (failure_report (Some e) s)) (e # es) newStorageFailureState"
  have cur: "failure_current ?s = Some e"
    by (rule latch.first_wins) (simp, simp add: failure_current_def newStorageFailureState_def)
  have "latch_inv ?s" by (rule latch.invar_run) simp
  with cur show ?thesis
    by (auto simp: latch_inv_def failure_current_def Let_def)
qed

text \<open>
  \<open>databaseError\<close> hands every expected domain error through untouched and never trips the latch
  with it; any other error trips it, and the caller gets an error that is \<open>ErrStorageFailure\<close>
  whenever the latch was set by the store.
\<close>

theorem databaseError_classifies:
  "(expectedStoreError e \<longrightarrow> databaseError op (Some e) s = (Some e, s)) \<and>
   (\<not> expectedStoreError e \<longrightarrow> latch_inv s \<longrightarrow>
     (case databaseError op (Some e) s of (r, s') \<Rightarrow>
        failure_err s' \<noteq> None \<and> r = failure_err s' \<and>
        (failure_err s = None \<longrightarrow> (\<exists>f. r = Some f \<and> err_is f ErrStorageFailure \<and> err_is f e))))"
  by (auto simp: databaseError_def failure_report_def failure_current_def latch_inv_def Let_def
      split: option.splits) (cases e; simp)

theorem databaseError_classifies_witness:
  "databaseError ''create user'' (Some ErrDuplicateUserName) newStorageFailureState
     = (Some ErrDuplicateUserName, newStorageFailureState) \<and>
   fst (databaseError ''create user'' (Some (PlainError ''disk'')) newStorageFailureState)
     = Some (StorageError ''create user'' (PlainError ''disk''))"
  using databaseError_classifies [of ErrDuplicateUserName "''create user''" newStorageFailureState]
    databaseError_classifies [of "PlainError ''disk''" "''create user''" newStorageFailureState]
  by (simp add: databaseError_def failure_report_def failure_current_def newStorageFailureState_def)

end
