(* ===== verification/Db_Time.thy ===== *)
theory Db_Time
  imports Proxy_Prelude
begin

text \<open>
  Timestamps in SQLite (\<open>formatDBTime\<close>, \<open>parseDBTime\<close> of \<open>user_store.go\<close>). Every time column is
  the text \<open>t.UTC().Format(time.RFC3339Nano)\<close>, and the SQL of the proxy compares such columns as
  text (\<open>expires_at <= ?\<close>, \<open>expires_at > ?\<close>, \<open>bucket_start >= ?\<close>). The civil calendar, the layout with
  its trimmed fraction and the byte order of the texts are written out, so that what those
  comparisons compute is a theorem and not an assumption: they agree with the order of time
  between instants of different seconds, and within one second they need not.
\<close>

section \<open>The civil calendar\<close>

text \<open>Days before the year \<open>q + 1\<close>, counted from 0001-01-01.\<close>

definition days_before :: "int \<Rightarrow> int" where
  "days_before q = 365 * q + q div 4 - q div 100 + q div 400"

definition years_before :: "int \<Rightarrow> int" where
  "years_before d = (let q = (400 * d) div 146097 in if days_before (q + 1) \<le> d then q + 1 else q)"

definition leap_year :: "int \<Rightarrow> bool" where
  "leap_year y \<longleftrightarrow> y mod 4 = 0 \<and> (y mod 100 \<noteq> 0 \<or> y mod 400 = 0)"

text \<open>The days of the year before the months February to December.\<close>

definition month_starts :: "bool \<Rightarrow> int list" where
  "month_starts leap =
     (if leap then [31, 60, 91, 121, 152, 182, 213, 244, 274, 305, 335]
      else [31, 59, 90, 120, 151, 181, 212, 243, 273, 304, 334])"

definition month_index :: "bool \<Rightarrow> int \<Rightarrow> nat" where
  "month_index leap yday = length (filter (\<lambda>s. s \<le> yday) (month_starts leap))"

definition month_start :: "bool \<Rightarrow> nat \<Rightarrow> int" where
  "month_start leap m = (0 # month_starts leap) ! m"

lemma div_window: "0 < (k::int) \<Longrightarrow> k * (x div k) \<le> x \<and> x < k * (x div k) + k"
  using mult_div_mod_eq [of k x] pos_mod_sign [of k x] pos_mod_bound [of k x] by linarith

lemma div_step:
  assumes "0 < (k::int)"
  shows "(q + 1) div k = q div k + (if (q + 1) mod k = 0 then 1 else 0)"
proof (cases "q mod k = k - 1")
  case True
  then have "q + 1 = k * (q div k + 1)"
    using mult_div_mod_eq [of k q] unfolding distrib_left by linarith
  then show ?thesis using assms by simp
next
  case False
  have r: "0 \<le> q mod k" "q mod k < k" using assms by simp_all
  have q: "q + 1 = k * (q div k) + (q mod k + 1)"
    using mult_div_mod_eq [of k q] by simp
  have "0 \<le> q mod k + 1" "q mod k + 1 < k" using r False by linarith+
  then have "(q + 1) div k = q div k" "(q + 1) mod k = q mod k + 1"
    by (rule int_div_pos_eq [OF q], rule int_mod_pos_eq [OF q])
  then show ?thesis using r by simp
qed

lemma mod_of_multiple: "y mod m = (0::int) \<Longrightarrow> k dvd m \<Longrightarrow> y mod k = 0"
  by (metis dvd_trans mod_0_imp_dvd mod_eq_0_iff_dvd)

lemma leap_days:
  "(b \<longrightarrow> a) \<Longrightarrow> (c \<longrightarrow> b) \<Longrightarrow>
   365 + (if a then 1 else 0) - (if b then 1 else 0) + (if c then 1 else (0::int))
     = (if a \<and> (\<not> b \<or> c) then 366 else 365)"
  by (cases a; cases b; cases c) simp_all

lemma days_before_leap:
  "days_before (q + 1) - days_before q = (if leap_year (q + 1) then 366 else 365)"
proof -
  define y where y: "y = q + 1"
  define P where P: "P k \<longleftrightarrow> y mod k = 0" for k
  have "P 100 \<longrightarrow> P 4" "P 400 \<longrightarrow> P 100"
    unfolding P by (rule impI, erule mod_of_multiple; simp)+
  note leap_days [OF this]
  moreover have "y div k = q div k + (if P k then 1 else 0)" if "0 < k" for k
    unfolding y P by (rule div_step [OF that])
  then have "days_before y - days_before q
      = 365 + (if P 4 then 1 else 0) - (if P 100 then 1 else 0) + (if P 400 then 1 else 0)"
    unfolding days_before_def by (simp add: y)
  ultimately have "days_before y - days_before q = (if P 4 \<and> (\<not> P 100 \<or> P 400) then 366 else 365)"
    by (rule trans [rotated])
  then show ?thesis by (simp only: y leap_year_def P)
qed

lemma days_before_approx:
  "146097 * q - 699 \<le> 400 * days_before q" "400 * days_before q \<le> 146097 * q + 396"
proof -
  define a where a: "a = q div 4"
  define b where b: "b = q div 100"
  define c where c: "c = q div 400"
  have "4 * a \<le> q" "q < 4 * a + 4" "100 * b \<le> q" "q < 100 * b + 100" "400 * c \<le> q" "q < 400 * c + 400"
    unfolding a b c using div_window [of 4 q] div_window [of 100 q] div_window [of 400 q] by auto
  moreover have "days_before q = 365 * q + a - b + c"
    unfolding days_before_def a b c ..
  ultimately show "146097 * q - 699 \<le> 400 * days_before q" "400 * days_before q \<le> 146097 * q + 396"
    by linarith+
qed

lemma days_before_step: "365 \<le> days_before (q + 1) - days_before q"
  by (simp add: days_before_leap)

lemma days_before_mono: "q \<le> r \<Longrightarrow> days_before q \<le> days_before r"
proof (induction r rule: int_ge_induct)
  case (step i)
  then show ?case using days_before_step [of i] by linarith
qed simp

lemma years_before_bounds: "days_before (years_before d) \<le> d" "d < days_before (years_before d + 1)"
proof -
  define q where "q = (400 * d) div 146097"
  have q: "146097 * q \<le> 400 * d" "400 * d < 146097 * q + 146097"
    unfolding q_def using div_window [of 146097 "400 * d"] by simp_all
  have lo: "days_before q \<le> d"
    using q days_before_approx [of q] by linarith
  have hi: "d < days_before (q + 1) + 365"
    using q days_before_approx(1) [of "q + 1"] unfolding distrib_left by linarith
  show "days_before (years_before d) \<le> d" "d < days_before (years_before d + 1)"
    using lo hi days_before_step [of "q + 1"]
    by (auto simp: years_before_def Let_def q_def [symmetric])
qed

lemma days_before_unique:
  assumes "days_before q \<le> d" "d < days_before (q + 1)"
  shows "years_before d = q"
proof (rule ccontr)
  assume "years_before d \<noteq> q"
  then consider "q + 1 \<le> years_before d" | "years_before d + 1 \<le> q" by linarith
  then show False
    using years_before_bounds [of d] assms days_before_mono by cases fastforce+
qed


text \<open>The day of the year, the month (0 to 11) and the day of the month (from 0).\<close>

definition year_day :: "int \<Rightarrow> int" where
  "year_day d = d - days_before (years_before d)"

definition day_leap :: "int \<Rightarrow> bool" where
  "day_leap d \<longleftrightarrow> leap_year (years_before d + 1)"

lemma year_day_bounds: "0 \<le> year_day d" "year_day d < (if day_leap d then 366 else 365)"
  using years_before_bounds [of d] days_before_leap [of "years_before d"]
  by (simp_all add: year_day_def day_leap_def)

lemma month_bounds:
  assumes "0 \<le> n" "n < (if leap then 366 else 365)"
  shows "month_index leap n < 12" "month_start leap (month_index leap n) \<le> n"
    "n < month_start leap (month_index leap n) + 31"
  using assms by (cases leap; auto simp: month_index_def month_starts_def month_start_def)+

lemma filter_le_mono: "n \<le> n' \<Longrightarrow> length (filter (\<lambda>s. s \<le> (n::int)) xs) \<le> length (filter (\<lambda>s. s \<le> n') xs)"
  by (induction xs) auto

lemma month_mono: "n \<le> n' \<Longrightarrow> month_index leap n \<le> month_index leap n'"
  unfolding month_index_def by (rule filter_le_mono)

section \<open>Decimal fields and byte order\<close>

definition digit_char :: "int \<Rightarrow> char" where
  "digit_char n = char_of (48 + nat n)"

definition digit_value :: "char \<Rightarrow> int" where
  "digit_value c = int (of_char c) - 48"

lemma digit_value_char: "0 \<le> n \<Longrightarrow> n < 10 \<Longrightarrow> digit_value (digit_char n) = n"
  by (simp add: digit_char_def digit_value_def of_char_of)

lemma digit_char_less: "0 \<le> n \<Longrightarrow> n < m \<Longrightarrow> m < 10 \<Longrightarrow> digit_char n < digit_char m"
  by (simp add: digit_char_def less_char_def of_char_of)

fun pad :: "nat \<Rightarrow> int \<Rightarrow> string" where
  "pad 0 n = []"
| "pad (Suc w) n = pad w (n div 10) @ [digit_char (n mod 10)]"

definition unpad :: "string \<Rightarrow> int" where
  "unpad s = foldl (\<lambda>a c. 10 * a + digit_value c) 0 s"

lemma length_pad [simp]: "length (pad w n) = w"
  by (induction w arbitrary: n) auto

lemma unpad_pad: "0 \<le> n \<Longrightarrow> n < 10 ^ w \<Longrightarrow> unpad (pad w n) = n"
proof (induction w arbitrary: n)
  case (Suc w)
  have "n div 10 < 10 ^ w" "0 \<le> n div 10" using Suc.prems by (simp_all add: div_less_iff_less_mult)
  then have "unpad (pad w (n div 10)) = n div 10" by (intro Suc.IH)
  then show ?case by (simp add: unpad_def digit_value_char)
qed (simp add: unpad_def)

lemma lex_append:
  "length (a :: string) = length b \<Longrightarrow> a @ x < b @ y \<longleftrightarrow> a < b \<or> a = b \<and> x < y"
  by (induction a b rule: list_induct2) auto

lemma pad_less: "0 \<le> n \<Longrightarrow> n < m \<Longrightarrow> m < 10 ^ w \<Longrightarrow> pad w n < pad w m"
proof (induction w arbitrary: n m)
  case (Suc w)
  have *: "m div 10 < 10 ^ w" using Suc.prems by (simp add: div_less_iff_less_mult)
  consider "n div 10 < m div 10" | "n div 10 = m div 10" "n mod 10 < m mod 10"
    using Suc.prems by (metis div_mult_mod_eq linorder_neqE not_less_iff_gr_or_eq zdiv_mono1
        zero_less_numeral less_le add_less_cancel_left)
  then show ?case
  proof cases
    case 1
    with Suc.IH [of "n div 10" "m div 10"] Suc.prems * show ?thesis by (simp add: lex_append)
  next
    case 2
    then show ?thesis by (simp add: lex_append digit_char_less)
  qed
qed simp


section \<open>The text of an instant\<close>

definition seconds_of :: "time \<Rightarrow> int" where "seconds_of t = t div second"
definition nanos_of :: "time \<Rightarrow> int" where "nanos_of t = t mod second"

definition date_text :: "int \<Rightarrow> string" where
  "date_text s =
     (let d = s div 86400; r = s mod 86400; m = month_index (day_leap d) (year_day d) in
      pad 4 (years_before d + 1) @ ''-'' @
      pad 2 (int m + 1) @ ''-'' @
      pad 2 (year_day d - month_start (day_leap d) m + 1) @ ''T'' @
      pad 2 (r div 3600) @ '':'' @
      pad 2 (r div 60 mod 60) @ '':'' @
      pad 2 (r mod 60))"

text \<open>The layout's \<open>.999999999\<close>: nine digits without trailing zeros, nothing at all for zero.\<close>

definition fraction_text :: "int \<Rightarrow> string" where
  "fraction_text n =
     (if n = 0 then []
      else CHR ''.'' # rev (dropWhile (\<lambda>c. c = CHR ''0'') (rev (pad 9 n))))"

text \<open>The digits of a year above 9999 that come before its last four.\<close>

function decimal :: "int \<Rightarrow> string" where
  "decimal n = (if n < 10 then [digit_char n] else decimal (n div 10) @ [digit_char (n mod 10)])"
  by pat_completeness auto
termination by (relation "measure nat") auto

declare decimal.simps [simp del]

definition year_prefix :: "int \<Rightarrow> string" where
  "year_prefix y = (if y < 10000 then [] else decimal (y div 10000))"

definition formatDBTime :: "time \<Rightarrow> string" where
  "formatDBTime t =
     year_prefix (years_before (seconds_of t div 86400) + 1) @
     date_text (seconds_of t) @ fraction_text (nanos_of t) @ ''Z''"

text \<open>
  \<open>parseDBTime\<close> on the texts \<open>formatDBTime\<close> writes; anything of another shape is an error.
\<close>

definition parse_date :: "string \<Rightarrow> int" where
  "parse_date s =
     (let y = unpad (take 4 s); m = nat (unpad (take 2 (drop 5 s)) - 1);
          d = unpad (take 2 (drop 8 s)) - 1;
          day = days_before (y - 1) + month_start (leap_year y) m + d in
      86400 * day + 3600 * unpad (take 2 (drop 11 s)) + 60 * unpad (take 2 (drop 14 s))
        + unpad (take 2 (drop 17 s)))"

definition parse_fraction :: "string \<Rightarrow> int option" where
  "parse_fraction s =
     (case s of
        [] \<Rightarrow> Some 0
      | c # ds \<Rightarrow> if c = CHR ''.'' \<and> ds \<noteq> [] \<and> length ds \<le> 9 \<and> list_all is_digit ds
                 then Some (unpad (ds @ replicate (9 - length ds) (CHR ''0''))) else None)"

definition parseDBTime :: "string \<Rightarrow> time option" where
  "parseDBTime s =
     (if length s < 20 \<or> last s \<noteq> CHR ''Z'' then None
      else case parse_fraction (butlast (drop 19 s)) of
             None \<Rightarrow> None
           | Some n \<Rightarrow> Some (second * parse_date s + n))"

text \<open>The last second the four-digit year of the layout can write.\<close>

definition max_db_seconds :: int where
  "max_db_seconds = 315537897600"

definition db_representable :: "time \<Rightarrow> bool" where
  "db_representable t \<longleftrightarrow> 0 \<le> t \<and> seconds_of t < max_db_seconds"


lemma years_before_range:
  assumes "0 \<le> d" "d < 3652059" shows "0 \<le> years_before d" "years_before d < 9999"
proof -
  have z: "days_before 0 = 0" "days_before 9999 = 3652059" by (simp_all add: days_before_def)
  show "0 \<le> years_before d"
    using years_before_bounds(2) [of d] days_before_mono [of "years_before d + 1" 0] z assms by linarith
  show "years_before d < 9999"
    using years_before_bounds(1) [of d] days_before_mono [of 9999 "years_before d"] z assms by linarith
qed

text \<open>Bounds of the six fields of the layout.\<close>

lemma date_fields:
  assumes "0 \<le> s" "s < max_db_seconds"
  defines "d \<equiv> s div 86400"
  defines "m \<equiv> month_index (day_leap d) (year_day d)"
  shows "0 \<le> years_before d" "years_before d + 1 < 10 ^ 4" "m < 12"
    "0 \<le> year_day d - month_start (day_leap d) m" "year_day d - month_start (day_leap d) m < 31"
    "0 \<le> s mod 86400" "s mod 86400 < 86400"
proof -
  have d: "0 \<le> d" "d < 3652059"
    using assms(1,2) unfolding d_def max_db_seconds_def by (simp_all add: div_less_iff_less_mult)
  show "0 \<le> years_before d" "years_before d + 1 < 10 ^ 4"
    using years_before_range [OF d] by simp_all
  show "m < 12" "0 \<le> year_day d - month_start (day_leap d) m"
    "year_day d - month_start (day_leap d) m < 31"
    using month_bounds [OF year_day_bounds, of d] unfolding m_def by simp_all
qed simp_all

lemma length_date_text [simp]: "length (date_text s) = 19"
  by (simp add: date_text_def Let_def)

lemma day_fields: "0 \<le> r \<Longrightarrow> r < 86400 \<Longrightarrow>
    0 \<le> r div 3600 \<and> r div 3600 < 24 \<and> 0 \<le> r div 60 mod 60 \<and> r div 60 mod 60 < 60
    \<and> 0 \<le> r mod 60 \<and> r mod 60 < (60::int)
    \<and> 3600 * (r div 3600) + 60 * (r div 60 mod 60) + r mod 60 = r"
proof -
  assume r: "0 \<le> r" "r < 86400"
  have "r div 60 div 60 = r div 3600" by (simp add: div_mult2_eq [symmetric])
  then have "60 * (r div 3600) + r div 60 mod 60 = r div 60"
    using mult_div_mod_eq [of 60 "r div 60"] by simp
  then have "3600 * (r div 3600) + 60 * (r div 60 mod 60) = 60 * (r div 60)" by simp
  with mult_div_mod_eq [of 60 r] have "3600 * (r div 3600) + 60 * (r div 60 mod 60) + r mod 60 = r"
    by linarith
  moreover have "r div 3600 < 24" using r by (simp add: div_less_iff_less_mult)
  ultimately show ?thesis using r by (simp add: pos_imp_zdiv_nonneg_iff)
qed

lemma parse_date_text:
  assumes "0 \<le> s" "s < max_db_seconds"
  shows "parse_date (date_text s @ x) = s"
proof -
  define d where "d = s div 86400"
  define r where "r = s mod 86400"
  define m where "m = month_index (day_leap d) (year_day d)"
  note f = date_fields [OF assms, folded d_def, folded m_def]
  have r: "0 \<le> r" "r < 86400" "s = 86400 * d + r" by (simp_all add: r_def d_def)
  note g = day_fields [OF r(1,2)]
  have "date_text s = pad 4 (years_before d + 1) @ ''-'' @ pad 2 (int m + 1) @ ''-'' @
      pad 2 (year_day d - month_start (day_leap d) m + 1) @ ''T'' @ pad 2 (r div 3600) @ '':'' @
      pad 2 (r div 60 mod 60) @ '':'' @ pad 2 (r mod 60)"
    by (simp add: date_text_def Let_def d_def r_def m_def)
  moreover have "unpad (pad 4 (years_before d + 1)) = years_before d + 1"
    "unpad (pad 2 (int m + 1)) = int m + 1"
    "unpad (pad 2 (year_day d - month_start (day_leap d) m + 1)) = year_day d - month_start (day_leap d) m + 1"
    "unpad (pad 2 (r div 3600)) = r div 3600" "unpad (pad 2 (r div 60 mod 60)) = r div 60 mod 60"
    "unpad (pad 2 (r mod 60)) = r mod 60"
    using f g by (simp_all add: unpad_pad)
  ultimately show ?thesis
    using g r(3) unfolding parse_date_def Let_def
    by (simp add: day_leap_def [symmetric] year_day_def)
qed


lemma digit_char_zero: "digit_char 0 = CHR ''0''"
  by code_simp

lemma pad_zero: "pad w 0 = replicate w (CHR ''0'')"
  by (induction w) (simp_all add: digit_char_zero replicate_append_same)

lemma pad_digits: "0 \<le> n \<Longrightarrow> list_all is_digit (pad w n)"
proof (induction w arbitrary: n)
  case (Suc w)
  have "is_digit (digit_char (n mod 10))"
    by (simp add: is_digit_def digit_char_def less_eq_char_def of_char_of)
  then show ?case using Suc by (simp add: pos_imp_zdiv_nonneg_iff)
qed simp

lemma strip_zeros:
  "\<exists>k. xs = rev (dropWhile (\<lambda>c. c = z) (rev xs)) @ replicate k z"
proof -
  have "takeWhile (\<lambda>c. c = z) (rev xs) = replicate (length (takeWhile (\<lambda>c. c = z) (rev xs))) z"
    by (rule replicate_length_same [symmetric]) (auto dest: set_takeWhileD)
  then have "rev xs = replicate (length (takeWhile (\<lambda>c. c = z) (rev xs))) z @ dropWhile (\<lambda>c. c = z) (rev xs)"
    by (metis takeWhile_dropWhile_id)
  then have "xs = rev (dropWhile (\<lambda>c. c = z) (rev xs)) @ replicate (length (takeWhile (\<lambda>c. c = z) (rev xs))) z"
    by (metis rev_append rev_replicate rev_rev_ident)
  then show ?thesis ..
qed

lemma parse_fraction_text:
  assumes "0 \<le> n" "n < second"
  shows "parse_fraction (fraction_text n) = Some n"
proof (cases "n = 0")
  case False
  define ds where ds: "ds = rev (dropWhile (\<lambda>c. c = CHR ''0'') (rev (pad 9 n)))"
  obtain k where k: "pad 9 n = ds @ replicate k (CHR ''0'')"
    using strip_zeros [of "pad 9 n" "CHR ''0''"] unfolding ds [symmetric] by (elim exE)
  then have len: "length ds + k = 9"
    using length_pad [of 9 n] by simp
  have val: "unpad (pad 9 n) = n"
    using assms by (simp add: unpad_pad second_def)
  have "ds \<noteq> []"
  proof
    assume "ds = []"
    with k len have "pad 9 n = pad 9 0" by (simp add: pad_zero)
    then have "unpad (pad 9 n) = unpad (pad 9 0)" by simp
    with val False show False by (simp add: unpad_pad)
  qed
  moreover have "list_all is_digit ds"
    using pad_digits [OF assms(1), of 9] unfolding k by simp
  moreover have "unpad (ds @ replicate (9 - length ds) (CHR ''0'')) = n"
    using val len unfolding k by (metis add_diff_cancel_left')
  ultimately show ?thesis
    using False len unfolding fraction_text_def parse_fraction_def ds [symmetric] by simp
qed (simp add: fraction_text_def parse_fraction_def)

lemma seconds_nanos: "second * seconds_of t + nanos_of t = t" "0 \<le> nanos_of t" "nanos_of t < second"
  by (simp_all add: seconds_of_def nanos_of_def second_def)

lemma seconds_of_nonneg: "0 \<le> t \<Longrightarrow> 0 \<le> seconds_of t"
  by (simp add: seconds_of_def second_def pos_imp_zdiv_nonneg_iff)

lemma formatDBTime_representable:
  assumes "db_representable t"
  shows "formatDBTime t = date_text (seconds_of t) @ fraction_text (nanos_of t) @ ''Z''"
proof -
  have "years_before (seconds_of t div 86400) + 1 < 10 ^ 4"
    using assms by (intro date_fields(2)) (auto simp: db_representable_def seconds_of_nonneg)
  then show ?thesis by (simp add: formatDBTime_def year_prefix_def)
qed

lemma formatDBTime_roundtrip:
  assumes "db_representable t" shows "parseDBTime (formatDBTime t) = Some t"
proof -
  have "0 \<le> seconds_of t" "seconds_of t < max_db_seconds"
    using assms by (auto simp: db_representable_def seconds_of_nonneg)
  then show ?thesis
    unfolding parseDBTime_def formatDBTime_representable [OF assms]
    using parse_fraction_text [OF seconds_nanos(2,3), of t] seconds_nanos(1) [of t]
    by (simp add: butlast_append parse_date_text)
qed

lemma formatDBTime_inj:
  "db_representable t \<Longrightarrow> db_representable u \<Longrightarrow> formatDBTime t = formatDBTime u \<longleftrightarrow> t = u"
  using formatDBTime_roundtrip by (metis option.inject)

section \<open>The byte order of the texts\<close>

lemma fields_less:
  assumes "0 \<le> a" "a' < 10 ^ w" "0 \<le> b" "b' < 10 ^ 2" "0 \<le> c" "c' < 10 ^ 2"
    and "a < a' \<or> a = a' \<and> (b < b' \<or> b = b' \<and> c < c')"
  shows "pad w a @ x @ pad 2 b @ y @ pad 2 c @ z < pad w a' @ x @ pad 2 b' @ y @ pad 2 c' @ z'"
  using assms(7)
proof (elim disjE conjE)
  assume "a < a'" with assms show ?thesis by (simp add: lex_append pad_less)
next
  assume "a = a'" "b < b'" with assms show ?thesis by (simp add: lex_append pad_less)
next
  assume "a = a'" "b = b'" "c < c'" with assms show ?thesis by (simp add: lex_append pad_less)
qed

lemma day_text_less:
  assumes "0 \<le> r" "r < r'" "r' < 86400"
  shows "pad 2 (r div 3600) @ '':'' @ pad 2 (r div 60 mod 60) @ '':'' @ pad 2 (r mod 60)
       < pad 2 (r' div 3600) @ '':'' @ pad 2 (r' div 60 mod 60) @ '':'' @ pad 2 (r' mod 60)"
proof -
  define h i j where hij: "h = r div 3600" "i = r div 60 mod 60" "j = r mod 60"
  define h' i' j' where hij': "h' = r' div 3600" "i' = r' div 60 mod 60" "j' = r' mod 60"
  have "h \<le> h'" unfolding hij hij' using assms by (intro zdiv_mono1) auto
  moreover have "0 \<le> h" "0 \<le> i" "i < 60" "0 \<le> j" "j < 60" "3600 * h + 60 * i + j = r"
    using day_fields [of r] assms unfolding hij by auto
  moreover have "h' < 24" "0 \<le> i'" "i' < 60" "0 \<le> j'" "j' < 60" "3600 * h' + 60 * i' + j' = r'"
    using day_fields [of r'] assms unfolding hij' by auto
  ultimately have "pad 2 h @ '':'' @ pad 2 i @ '':'' @ pad 2 j @ [] < pad 2 h' @ '':'' @ pad 2 i' @ '':'' @ pad 2 j' @ []"
    using assms(2) by (intro fields_less) (simp_all, linarith?)
  then show ?thesis by (simp add: hij hij')
qed

lemma date_text_less:
  assumes "0 \<le> s" "s < s'" "s' < max_db_seconds"
  shows "date_text s < date_text s'"
proof -
  define d d' where dd: "d = s div 86400" "d' = s' div 86400"
  define y y' where yy: "y = years_before d" "y' = years_before d'"
  define m m' where mm: "m = month_index (day_leap d) (year_day d)" "m' = month_index (day_leap d') (year_day d')"
  define e e' where ee: "e = year_day d - month_start (day_leap d) m" "e' = year_day d' - month_start (day_leap d') m'"
  note fold = dd [symmetric] mm [symmetric] yy [symmetric] ee [symmetric]
  have f: "0 \<le> y" "0 \<le> e" and f': "y' + 1 < 10 ^ 4" "m' < 12" "e' < 31"
    using date_fields [of s] date_fields [of s'] assms unfolding fold by simp_all
  show ?thesis
  proof (cases "d = d'")
    case True
    then have "s mod 86400 < s' mod 86400"
      using assms mult_div_mod_eq [of 86400 s] mult_div_mod_eq [of 86400 s'] unfolding dd by linarith
    then show ?thesis
      using day_text_less [of "s mod 86400" "s' mod 86400"] True
      unfolding date_text_def Let_def dd [symmetric] by (simp add: lex_append)
  next
    case False
    then have lt: "d < d'"
      using zdiv_mono1 [of s s' 86400] assms unfolding dd by simp
    have le: "y \<le> y'"
      using years_before_bounds [of d] years_before_bounds [of d'] days_before_mono [of "y' + 1" y] lt
      unfolding fold by linarith
    have "y < y' \<or> y = y' \<and> (m < m' \<or> m = m' \<and> e < e')"
    proof (cases "y = y'")
      case True
      then have "day_leap d = day_leap d'" "year_day d < year_day d'"
        using lt unfolding day_leap_def year_day_def yy [symmetric] by simp_all
      moreover from this have "m \<le> m'"
        unfolding mm by (simp add: month_mono)
      ultimately show ?thesis using True unfolding ee by auto
    qed (use le in simp)
    then show ?thesis
      unfolding date_text_def Let_def fold
      by (intro fields_less) (use f f' in \<open>simp_all, linarith?\<close>)
  qed
qed

text \<open>Texts of different seconds are ordered as the instants are.\<close>

lemma formatDBTime_less:
  assumes "db_representable t" "db_representable u" "seconds_of t < seconds_of u"
  shows "formatDBTime t < formatDBTime u"
  using assms date_text_less [of "seconds_of t" "seconds_of u"]
  by (simp add: formatDBTime_representable lex_append db_representable_def seconds_of_nonneg)

text \<open>The comparisons of the SQL: text columns against a bound text.\<close>

definition db_le :: "time \<Rightarrow> time \<Rightarrow> bool" where
  "db_le t u \<longleftrightarrow> formatDBTime t \<le> formatDBTime u"

definition db_less :: "time \<Rightarrow> time \<Rightarrow> bool" where
  "db_less t u \<longleftrightarrow> formatDBTime t < formatDBTime u"

lemma db_less_le: "db_less t u \<longleftrightarrow> \<not> db_le u t"
  by (auto simp: db_le_def db_less_def)

lemma seconds_of_mono: "t \<le> u \<Longrightarrow> seconds_of t \<le> seconds_of u"
  by (simp add: seconds_of_def second_def zdiv_mono1)

lemma db_le_within_a_second:
  assumes "db_representable t" "db_representable u" "db_le t u"
  shows "t < u + second"
proof -
  have "\<not> seconds_of u < seconds_of t"
    using formatDBTime_less [OF assms(2,1)] assms(3) by (auto simp: db_le_def)
  then have "second * seconds_of t \<le> second * seconds_of u"
    by (simp add: second_def)
  then show ?thesis
    using seconds_nanos [of t] seconds_nanos [of u] by linarith
qed

lemma db_le_whole_seconds:
  assumes "db_representable t" "db_representable u" "nanos_of t = 0" "nanos_of u = 0"
  shows "db_le t u \<longleftrightarrow> t \<le> u"
proof -
  have eq: "t = second * seconds_of t" "u = second * seconds_of u"
    using seconds_nanos(1) [of t] seconds_nanos(1) [of u] assms(3,4) by simp_all
  have iff: "t \<le> u \<longleftrightarrow> seconds_of t \<le> seconds_of u"
    by (subst eq(1), subst eq(2)) (simp add: second_def)
  consider "seconds_of t < seconds_of u" | "t = u" | "seconds_of u < seconds_of t"
    using eq by fastforce
  then show ?thesis
    using formatDBTime_less [OF assms(1,2)] formatDBTime_less [OF assms(2,1)] iff
    by cases (auto simp: db_le_def)
qed

text \<open>
  Within one second the order of the texts is not the order of time: a whole second is written
  without a fraction, so its text ends in \<open>Z\<close> where every later instant of that second has a
  smaller \<open>.\<close>.
\<close>

lemma fraction_before_whole:
  assumes "nanos_of t \<noteq> 0"
  shows "formatDBTime t < formatDBTime (t - nanos_of t)" "t - nanos_of t < t"
proof -
  have n: "0 < nanos_of t" "nanos_of t < second"
    using assms pos_mod_sign [of second t] pos_mod_bound [of second t] by (auto simp: nanos_of_def second_def)
  then show "t - nanos_of t < t" by simp
  have "seconds_of (t - nanos_of t) = seconds_of t" "nanos_of (t - nanos_of t) = 0"
    by (simp_all add: seconds_of_def nanos_of_def second_def minus_mod_eq_mult_div)
  moreover have "fraction_text (nanos_of t) @ ''Z'' < fraction_text 0 @ ''Z''"
    using assms by (simp add: fraction_text_def)
  ultimately show "formatDBTime t < formatDBTime (t - nanos_of t)"
    by (simp add: formatDBTime_def lex_append)
qed


text \<open>A year above 9999 is written with more than four digits, and such a text does not parse.\<close>

definition date_char :: "char \<Rightarrow> bool" where
  "date_char c \<longleftrightarrow> (\<exists>n. c = digit_char (n mod 10)) \<or> c \<in> set ''-T:''"

lemma date_char_not_dot: "date_char c \<Longrightarrow> c \<noteq> CHR ''.''"
proof -
  have "digit_char (n mod 10) \<noteq> CHR ''.''" for n
  proof
    assume a: "digit_char (n mod 10) = CHR ''.''"
    have "digit_value (digit_char (n mod 10)) = n mod 10" by (rule digit_value_char) simp_all
    with a show False using pos_mod_sign [of 10 n] by (simp add: digit_value_def)
  qed
  moreover assume "date_char c"
  ultimately show "c \<noteq> CHR ''.''"
    unfolding date_char_def by (elim disjE exE, simp) auto
qed

lemma pad_chars: "c \<in> set (pad w n) \<Longrightarrow> date_char c"
  by (induction w arbitrary: n) (auto simp: date_char_def)

lemma decimal_chars: "0 \<le> n \<Longrightarrow> decimal n \<noteq> [] \<and> (\<forall>c\<in>set (decimal n). date_char c)"
proof (induction n rule: decimal.induct)
  case (1 n)
  show ?case
  proof (cases "n < 10")
    case True
    with "1.prems" have "digit_char n = digit_char (n mod 10)" by simp
    with True show ?thesis by (subst (1 2) decimal.simps) (auto simp: date_char_def)
  next
    case False
    with 1 have "\<forall>c\<in>set (decimal (n div 10)). date_char c" by simp
    with False show ?thesis by (subst (1 2) decimal.simps) (auto simp: date_char_def)
  qed
qed

lemma date_text_chars: "c \<in> set (date_text s) \<Longrightarrow> date_char c"
  by (auto simp: date_text_def Let_def dest: pad_chars) (simp_all add: date_char_def)

lemma wide_year_unparsable:
  assumes "0 \<le> t" "\<not> db_representable t"
  shows "parseDBTime (formatDBTime t) = None"
proof -
  let ?d = "seconds_of t div 86400"
  define p where "p = year_prefix (years_before ?d + 1)"
  have "max_db_seconds \<le> seconds_of t" using assms by (simp add: db_representable_def)
  then have "3652059 \<le> ?d" by (simp add: max_db_seconds_def zdiv_mono1 [of 315537897600 _ 86400, simplified])
  moreover have "days_before 9999 = 3652059" by (simp add: days_before_def)
  ultimately have "\<not> years_before ?d + 1 \<le> 9999"
    using years_before_bounds(2) [of ?d] days_before_mono [of "years_before ?d + 1" 9999] by linarith
  then have big: "10000 \<le> years_before ?d + 1" by simp
  then have p: "p \<noteq> []" "\<forall>c\<in>set p. date_char c"
    using decimal_chars [of "(years_before ?d + 1) div 10000"] by (auto simp: p_def year_prefix_def)
  define body where "body = p @ date_text (seconds_of t)"
  have body: "\<forall>c\<in>set body. date_char c" using p(2) date_text_chars by (auto simp: body_def)
  have len: "19 < length body" using p(1) by (cases p) (simp_all add: body_def)
  define rest where "rest = fraction_text (nanos_of t)"
  have whole: "formatDBTime t = body @ rest @ ''Z''"
    by (simp add: formatDBTime_def body_def p_def rest_def)
  have "drop 19 (body @ rest @ ''Z'') = body ! 19 # drop 20 body @ rest @ ''Z''"
    using len by (simp add: Cons_nth_drop_Suc [symmetric])
  then have "butlast (drop 19 (formatDBTime t)) = body ! 19 # drop 20 body @ rest"
    by (simp add: whole butlast_append)
  moreover have "body ! 19 \<noteq> CHR ''.''" using body len date_char_not_dot nth_mem by blast
  ultimately show ?thesis
    by (simp add: parseDBTime_def parse_fraction_def)
qed

end
