(* ===== verification/Store.thy ===== *)
theory Store
  imports Storage_Failure Db_Time
begin

text \<open>
  The SQLite store behind \<open>UserStore\<close>: the five tables of \<open>migrate\<close> (\<open>user_store.go\<close>) and the way
  every operation of the package reaches them.

  A table is an association list from its primary key to a row; \<open>AList.update\<close> is an upsert and
  \<open>filter\<close> a \<open>DELETE \<dots> WHERE\<close>. Columns hold what the code stores, so instants are texts written by
  \<open>formatDBTime\<close>. The database is single-connection, so a statement is one atomic step. \<open>faults\<close>
  is the script of the environment: each statement, \<open>BeginTx\<close>, \<open>Commit\<close>, \<open>rows.Err\<close> or \<open>rows.Close\<close>
  takes the next entry and fails with it when it is an error; when the script is used up, they
  succeed. A failed statement changes no table and a failed transaction restores the tables it
  started from (\<open>rollbackUnlessCommitted\<close>). The clock stands still during one operation.
\<close>

section \<open>Tables\<close>

record user_row =
  ur_name :: string
  ur_enabled :: bool
  ur_created_at :: string
  ur_updated_at :: string

record key_row =
  kr_user_id :: string
  kr_key_hash :: string
  kr_key_prefix :: string
  kr_masked_key :: string
  kr_enabled :: bool
  kr_created_at :: string
  kr_rotated_at :: "string option"
  kr_last_used_at :: "string option"

record bucket_key =
  bk_start :: string
  bk_user_id :: string
  bk_api_key_id :: string
  bk_model :: string
  bk_effort :: string
  bk_tier :: string
  bk_auth_id :: string

record usage_counters =
  RequestCount :: int
  FailedRequestCount :: int
  InputTokens :: int
  OutputTokens :: int
  ReasoningTokens :: int
  CachedInputTokens :: int
  CacheReadTokens :: int
  CacheCreationTokens :: int
  TotalTokens :: int

record bucket_row =
  br_key_hash :: string
  br_masked_key :: string
  br_counters :: usage_counters
  br_updated_at :: string

record affinity_row =
  ar_binding_digest :: string
  ar_tenant_scope :: string
  ar_auth_id :: string
  ar_created_at :: string
  ar_updated_at :: string
  ar_expires_at :: string

record health_row =
  hr_kind :: string
  hr_reason :: string
  hr_retry_at :: "string option"
  hr_fingerprint :: string
  hr_status_code :: int
  hr_error_code :: string
  hr_updated_at :: string

record tables =
  users :: "(string \<times> user_row) list"
  api_keys :: "(string \<times> key_row) list"
  usage_buckets :: "(bucket_key \<times> bucket_row) list"
  affinity :: "(string \<times> affinity_row) list"
  health :: "(string \<times> health_row) list"

record user_store =
  db :: tables
  faults :: "go_err option list"
  failures :: failure_state
  clock :: time
  nextAffinityCleanupAt :: time

definition empty_tables :: tables where
  "empty_tables = \<lparr>users = [], api_keys = [], usage_buckets = [], affinity = [], health = []\<rparr>"

definition new_store :: "time \<Rightarrow> user_store" where
  "new_store t = \<lparr>db = empty_tables, faults = [], failures = newStorageFailureState, clock = t,
     nextAffinityCleanupAt = 0\<rparr>"

section \<open>Statements\<close>

type_synonym 'a outcome = "(go_err + 'a) \<times> user_store"

definition checkReady :: "user_store \<Rightarrow> go_err option" where
  "checkReady s = failure_current (failures s)"

definition store_error :: "string \<Rightarrow> go_err \<Rightarrow> user_store \<Rightarrow> 'a outcome" where
  "store_error operation e s =
     (case databaseError operation (Some e) (failures s) of
        (Some r, f) \<Rightarrow> (Inl r, s\<lparr>failures := f\<rparr>)
      | (None, f) \<Rightarrow> (Inl e, s\<lparr>failures := f\<rparr>))"

text \<open>\<open>ready s k\<close> is the guard every operation starts with.\<close>

definition ready :: "user_store \<Rightarrow> (user_store \<Rightarrow> 'a outcome) \<Rightarrow> 'a outcome" where
  "ready s k = (case checkReady s of Some e \<Rightarrow> (Inl e, s) | None \<Rightarrow> k s)"

definition next_fault :: "user_store \<Rightarrow> go_err option \<times> user_store" where
  "next_fault s =
     (case faults s of [] \<Rightarrow> (None, s) | r # rest \<Rightarrow> (r, s\<lparr>faults := rest\<rparr>))"

text \<open>
  \<open>sql base operation mapped s k\<close>: one call of the database; on failure the (mapped) error goes
  through \<open>databaseError\<close> and the tables become those of \<open>base\<close> (of the start of the transaction).
\<close>

definition sql :: "tables \<Rightarrow> string \<Rightarrow> user_store \<Rightarrow> (user_store \<Rightarrow> 'a outcome) \<Rightarrow> 'a outcome" where
  "sql base operation s k =
     (case next_fault s of
        (Some e, s') \<Rightarrow> store_error operation e (s'\<lparr>db := base\<rparr>)
      | (None, s') \<Rightarrow> k s')"

definition with_db :: "(tables \<Rightarrow> tables) \<Rightarrow> user_store \<Rightarrow> user_store" where
  "with_db f s = s\<lparr>db := f (db s)\<rparr>"

lemma with_db_simps [simp]:
  "db (with_db f s) = f (db s)" "faults (with_db f s) = faults s"
  "failures (with_db f s) = failures s" "clock (with_db f s) = clock s"
  "nextAffinityCleanupAt (with_db f s) = nextAffinityCleanupAt s"
  by (simp_all add: with_db_def)

definition CheckHealth :: "user_store \<Rightarrow> unit outcome" where
  "CheckHealth s = ready s (\<lambda>s. sql (db s) ''check storage health'' s (\<lambda>s. (Inr (), s)))"

section \<open>Rules\<close>

text \<open>A fault-free, unlatched store runs straight through its statements.\<close>

definition healthy_store :: "user_store \<Rightarrow> bool" where
  "healthy_store s \<longleftrightarrow> faults s = [] \<and> failures s = newStorageFailureState"

lemma healthy_new [simp]: "healthy_store (new_store t)"
  by (simp add: healthy_store_def new_store_def)

lemma healthy_ready [simp]: "healthy_store s \<Longrightarrow> ready s k = k s"
  by (simp add: ready_def checkReady_def healthy_store_def failure_current_def newStorageFailureState_def)

lemma healthy_sql [simp]: "healthy_store s \<Longrightarrow> sql base op s k = k s"
  by (simp add: sql_def next_fault_def healthy_store_def)

lemma healthy_with_db [simp]: "healthy_store (with_db f s) = healthy_store s"
  by (simp add: healthy_store_def)

lemma store_error_simps [simp]:
  "db (snd (store_error op e s)) = db s" "faults (snd (store_error op e s)) = faults s"
  "clock (snd (store_error op e s)) = clock s"
  "nextAffinityCleanupAt (snd (store_error op e s)) = nextAffinityCleanupAt s"
  by (simp_all add: store_error_def split: prod.split option.split)

lemma store_error_Inl: "\<exists>e'. fst (store_error op e s) = Inl e'"
  by (simp add: store_error_def split: prod.split option.split)

lemma store_error_not_Inr [simp]: "fst (store_error op e s) \<noteq> Inr x" "store_error op e s \<noteq> (Inr x, s')"
  by (auto simp: store_error_def split: prod.split option.split)

lemma store_error_latch: "latch_inv (failures s) \<Longrightarrow> latch_inv (failures (snd (store_error op e s)))"
  using latch_inv_databaseError [of "failures s" op "Some e"]
  by (cases "databaseError op (Some e) (failures s)") (simp add: store_error_def split: option.split)

lemma latched_ready: "checkReady s = Some e \<Longrightarrow> ready s k = (Inl e, s)"
  by (simp add: ready_def)

lemma next_fault_keeps:
  "next_fault s = (r, s') \<Longrightarrow> db s' = db s \<and> failures s' = failures s \<and> clock s' = clock s \<and>
     nextAffinityCleanupAt s' = nextAffinityCleanupAt s"
  by (auto simp: next_fault_def split: list.splits)

text \<open>
  \<open>keeps_on_error base m\<close>: when \<open>m\<close> ends in an error, the tables are \<open>base\<close>; the contract every
  transaction of the store meets.
\<close>

definition keeps_on_error :: "tables \<Rightarrow> 'a outcome \<Rightarrow> bool" where
  "keeps_on_error base m \<longleftrightarrow> (\<forall>e s'. m = (Inl e, s') \<longrightarrow> db s' = base)"

lemma keeps_on_errorD: "keeps_on_error base m \<Longrightarrow> m = (Inl e, s') \<Longrightarrow> db s' = base"
  by (simp add: keeps_on_error_def)

lemma keeps_store_error [simp]: "db s = base \<Longrightarrow> keeps_on_error base (store_error op e s)"
  by (cases "databaseError op (Some e) (failures s)")
    (auto simp: keeps_on_error_def store_error_def split: option.splits)

lemma keeps_Inr [simp]: "keeps_on_error base (Inr x, s)"
  by (simp add: keeps_on_error_def)

lemma keeps_Inl [simp]: "keeps_on_error base (Inl e, s) \<longleftrightarrow> db s = base"
  by (simp add: keeps_on_error_def)

lemma keeps_sql:
  assumes "\<And>s'. db s' = db s \<Longrightarrow> clock s' = clock s \<Longrightarrow> keeps_on_error base (k s')"
  shows "keeps_on_error base (sql base op s k)"
proof -
  obtain r s' where f: "next_fault s = (r, s')" by fastforce
  show ?thesis
  proof (cases r)
    case None
    with f next_fault_keeps [OF f] assms [of s'] show ?thesis by (simp add: sql_def)
  qed (simp add: sql_def f)
qed

lemma keeps_ready:
  assumes "db s = base" "keeps_on_error base (k s)"
  shows "keeps_on_error base (ready s k)"
  using assms by (simp add: ready_def split: option.split)

end
