(* ===== verification/Json_Values.thy ===== *)
theory Json_Values
  imports Proxy_Prelude Complex_Main
begin

text \<open>
  Decoded JSON (\<open>map[string]any\<close>) and the typed readers of \<open>auth.go\<close>, and the record \<open>go_lib\<close> of
  the library functions whose values the code only passes on: \<open>json.Unmarshal\<close> on an object,
  \<open>json.MarshalIndent\<close>, \<open>base64.RawURLEncoding\<close>, \<open>http.ParseTime\<close>, \<open>json.NewDecoder(_).Decode\<close> on an error body, \<open>time.Parse(time.RFC3339, _)\<close> and the hexadecimal SHA-256 digest.
  They are arguments of the definitions that use them. An object is an association list; a
  decoded number is a rational (\<open>float64\<close>), or its text (\<open>json.Number\<close>) for a decoder that asked for it.
\<close>

datatype json =
    JNull
  | JBool bool
  | JNum rat
  | JNumber string
  | JStr string
  | JArr "json list"
  | JObj "(string \<times> json) list"

type_synonym json_map = "(string \<times> json) list"

record go_lib =
  unmarshal_object :: "string \<Rightarrow> json_map option"
  marshal_object :: "json_map \<Rightarrow> string"
  base64_raw_url :: "string \<Rightarrow> string option"
  parse_rfc3339 :: "string \<Rightarrow> time option"
  parse_http_time :: "string \<Rightarrow> time option"
  decode_error_object :: "string \<Rightarrow> json_map option"
  sha256_hex :: "string \<Rightarrow> string"

definition mapField :: "json_map \<Rightarrow> string \<Rightarrow> json_map option" where
  "mapField meta k = (case map_of meta k of Some (JObj m) \<Rightarrow> Some m | _ \<Rightarrow> None)"

fun stringField :: "json_map \<Rightarrow> string list \<Rightarrow> string" where
  "stringField meta [] = []"
| "stringField meta (k # ks) =
     (case map_of meta k of
        Some (JStr v) \<Rightarrow> if trim_space v \<noteq> [] then trim_space v else stringField meta ks
      | _ \<Rightarrow> stringField meta ks)"

definition boolField :: "json_map \<Rightarrow> string \<Rightarrow> bool" where
  "boolField meta k = (case map_of meta k of Some (JBool b) \<Rightarrow> b | _ \<Rightarrow> False)"

text \<open>\<open>time.Unix(int64(v), 0)\<close> for a positive \<open>float64\<close>.\<close>

definition unix_epoch :: time where
  "unix_epoch = 62135596800 * second"

definition unix_time :: "rat \<Rightarrow> time" where
  "unix_time v = unix_epoch + \<lfloor>v\<rfloor> * second"

fun timeField :: "go_lib \<Rightarrow> json_map \<Rightarrow> string list \<Rightarrow> time" where
  "timeField lib meta [] = 0"
| "timeField lib meta (k # ks) =
     (case map_of meta k of
        Some (JStr v) \<Rightarrow>
          if trim_space v = [] then timeField lib meta ks
          else (case parse_rfc3339 lib (trim_space v) of
                  Some t \<Rightarrow> t
                | None \<Rightarrow> timeField lib meta ks)
      | Some (JNum v) \<Rightarrow> if 0 < v then unix_time v else timeField lib meta ks
      | _ \<Rightarrow> timeField lib meta ks)"

lemma stringField_trimmed [simp]: "trim_space (stringField meta ks) = stringField meta ks"
  by (induction ks) (auto split: option.split json.split)

lemma stringField_hit:
  "map_of meta k = Some (JStr v) \<Longrightarrow> trim_space v = v \<Longrightarrow> v \<noteq> [] \<Longrightarrow> stringField meta (k # ks) = v"
  by simp

declare stringField.simps [simp del] timeField.simps [simp del]

lemma map_of_delete [simp]: "map_of (AList.delete k m) j = (if j = k then None else map_of m j)"
  by (simp add: delete_conv')

lemma map_of_update [simp]: "map_of (AList.update k v m) j = (if j = k then Some v else map_of m j)"
  by (simp add: update_conv')

lemma mapField_update [simp]:
  "mapField (AList.update k v m) j =
     (if j = k then (case v of JObj o' \<Rightarrow> Some o' | _ \<Rightarrow> None) else mapField m j)"
  by (simp add: mapField_def)

lemma mapField_delete [simp]: "mapField (AList.delete k m) j = (if j = k then None else mapField m j)"
  by (simp add: mapField_def)

end
