(* ===== verification/Auth_Files.thy ===== *)
theory Auth_Files
  imports Storage_Failure Db_Time Json_Values
begin

text \<open>
  The credentials and the directory they live in (\<open>auth.go\<close>): the record \<open>Auth\<close>, reading an auth
  file, the metadata that \<open>Save\<close> writes, grouping the files of one account, and \<open>reconcile\<close>, which
  compares two scans of the directory and keeps an account whose file stopped parsing for a grace
  period. A scan is the sequence of entries \<open>filepath.WalkDir\<close> visits, each with what reading it
  returns; a Go map of auths is an association list.
\<close>

section \<open>Credentials\<close>

record Auth =
  auth_ID :: string
  Path :: string
  Email :: string
  AccountID :: string
  AccessToken :: string
  RefreshToken :: string
  IDToken :: string
  ExpiresAt :: time
  Metadata :: json_map
  Disabled :: bool
  SourcePaths :: "string list"
  codexCLI :: bool
  relativePath :: string
  sourceIDs :: "string list"

definition Expired :: "Auth \<Rightarrow> time \<Rightarrow> bool" where
  "Expired a now = (if is_zero_time (ExpiresAt a) then False else \<not> ExpiresAt a > now + 5 * minute)"

definition Identified :: "Auth \<Rightarrow> bool" where
  "Identified a \<longleftrightarrow> trim_space (AccountID a) \<noteq> []"

definition ManageableAccountID :: "Auth \<Rightarrow> string option" where
  "ManageableAccountID a = (if Identified a then Some (AccountID a) else None)"

definition SourceCount :: "Auth \<Rightarrow> int" where
  "SourceCount a = int (length (SourcePaths a))"

definition LastRefreshAt :: "go_lib \<Rightarrow> Auth \<Rightarrow> time" where
  "LastRefreshAt lib a =
     timeField lib (Metadata a) [''last_refresh'', ''last_refresh_at'', ''lastRefreshAt'']"

subsection \<open>Stable identifiers\<close>

text \<open>\<open>filepath.Clean\<close> on a slash-separated path: resolve empty, dot and dot-dot elements.\<close>

fun split_slash :: "string \<Rightarrow> string \<Rightarrow> string list" where
  "split_slash acc [] = [rev acc]"
| "split_slash acc (c # cs) = (if c = CHR ''/'' then rev acc # split_slash [] cs else split_slash (c # acc) cs)"

fun clean_elems :: "bool \<Rightarrow> string list \<Rightarrow> string list \<Rightarrow> string list" where
  "clean_elems rooted acc [] = rev acc"
| "clean_elems rooted acc (e # es) =
     (if e = [] \<or> e = ''.'' then clean_elems rooted acc es
      else if e = ''..'' then
        (case acc of
           [] \<Rightarrow> if rooted then clean_elems rooted [] es else clean_elems rooted [e] es
         | a # as \<Rightarrow> if a = ''..'' then clean_elems rooted (e # acc) es else clean_elems rooted as es)
      else clean_elems rooted (e # acc) es)"

fun join_slash :: "string list \<Rightarrow> string" where
  "join_slash [] = []"
| "join_slash [e] = e"
| "join_slash (e # es) = e @ CHR ''/'' # join_slash es"

definition clean_path :: "string \<Rightarrow> string" where
  "clean_path p =
     (let rooted = (p \<noteq> [] \<and> hd p = CHR ''/'');
          body = join_slash (clean_elems rooted [] (split_slash [] p))
      in if rooted then CHR ''/'' # body else if body = [] then ''.'' else body)"

definition normalizedAuthPath :: "string \<Rightarrow> string" where
  "normalizedAuthPath path =
     (let p = clean_path (trim_space path) in if prefix ''./'' p then drop 2 p else p)"

definition stableAuthID :: "string \<Rightarrow> string \<Rightarrow> string" where
  "stableAuthID accountID relative =
     (if trim_space accountID \<noteq> [] then ''account:'' @ trim_space accountID
      else ''path:'' @ normalizedAuthPath relative)"

subsection \<open>Tokens\<close>

text \<open>\<open>strings.Split(token, ".")\<close>\<close>

fun split_dots :: "string \<Rightarrow> string \<Rightarrow> string list" where
  "split_dots acc [] = [rev acc]"
| "split_dots acc (c # cs) = (if c = CHR ''.'' then rev acc # split_dots [] cs else split_dots (c # acc) cs)"

definition decodeJWTClaims :: "go_lib \<Rightarrow> string \<Rightarrow> json_map option" where
  "decodeJWTClaims lib token =
     (case split_dots [] token of
        [p0, p1, p2] \<Rightarrow>
          if p0 = [] \<or> p1 = [] \<or> p2 = [] then None
          else (case base64_raw_url lib p1 of
                  None \<Rightarrow> None
                | Some payload \<Rightarrow> unmarshal_object lib payload)
      | _ \<Rightarrow> None)"

record identityClaims =
  claim_AccountID :: string
  claim_Email :: string

definition tokenIdentityClaims :: "go_lib \<Rightarrow> string \<Rightarrow> identityClaims" where
  "tokenIdentityClaims lib token =
     (case decodeJWTClaims lib token of
        None \<Rightarrow> \<lparr>claim_AccountID = [], claim_Email = []\<rparr>
      | Some claims \<Rightarrow>
          let account = stringField claims [''account_id'', ''accountID'', ''chatgpt_account_id''];
              email0 = stringField claims [''email''];
              email = (case mapField claims ''https://api.openai.com/profile'' of
                         Some profile \<Rightarrow> if email0 = [] then stringField profile [''email''] else email0
                       | None \<Rightarrow> email0)
          in (case mapField claims ''https://api.openai.com/auth'' of
                None \<Rightarrow> \<lparr>claim_AccountID = account, claim_Email = email\<rparr>
              | Some authClaims \<Rightarrow>
                  \<lparr>claim_AccountID =
                     (if account = []
                      then stringField authClaims [''chatgpt_account_id'', ''account_id'', ''accountID'']
                      else account),
                   claim_Email = (if email = [] then stringField authClaims [''email''] else email)\<rparr>))"

definition tokenExpiry :: "go_lib \<Rightarrow> string \<Rightarrow> time" where
  "tokenExpiry lib token =
     (case decodeJWTClaims lib token of
        None \<Rightarrow> 0
      | Some claims \<Rightarrow>
          (case map_of claims ''exp'' of
             Some (JNum expiry) \<Rightarrow> if expiry \<le> 0 then 0 else unix_time expiry
           | _ \<Rightarrow> 0))"

definition ReparseIdentity :: "go_lib \<Rightarrow> Auth \<Rightarrow> Auth" where
  "ReparseIdentity lib a =
     (let idc = tokenIdentityClaims lib (IDToken a);
          acc = tokenIdentityClaims lib (AccessToken a);
          a1 = (if claim_AccountID acc \<noteq> [] then a\<lparr>AccountID := claim_AccountID acc\<rparr>
                else if claim_AccountID idc \<noteq> [] then a\<lparr>AccountID := claim_AccountID idc\<rparr> else a);
          a2 = (if claim_Email acc \<noteq> [] then a1\<lparr>Email := claim_Email acc\<rparr>
                else if claim_Email idc \<noteq> [] then a1\<lparr>Email := claim_Email idc\<rparr> else a1)
      in a2\<lparr>auth_ID := stableAuthID (AccountID a2) (relativePath a2)\<rparr>)"

section \<open>Reading and writing a file\<close>

text \<open>
  \<open>readAuthFile\<close> on the bytes of a file: the two kinds of failure, \<open>ReadSkip\<close> for a file that is not
  a codex credential, or the auth. \<open>relative\<close> is \<open>normalizedRelativeAuthPath(baseDir, path)\<close>.
\<close>

datatype auth_read = ReadFailed | ParseFailed | ReadSkip | ReadAuth Auth

definition ascii_lower :: "char \<Rightarrow> char" where
  "ascii_lower c = (if is_upper c then char_of (of_char c + 32 :: nat) else c)"

definition equal_fold :: "string \<Rightarrow> string \<Rightarrow> bool" where
  "equal_fold s t \<longleftrightarrow> map ascii_lower s = map ascii_lower t"

definition access_keys :: "string list" where "access_keys = [''access_token'', ''accessToken'']"
definition refresh_keys :: "string list" where "refresh_keys = [''refresh_token'', ''refreshToken'']"
definition id_keys :: "string list" where "id_keys = [''id_token'', ''idToken'']"
definition account_keys :: "string list" where "account_keys = [''account_id'', ''accountID'']"

definition expiry_keys :: "string list" where
  "expiry_keys = [''expired'', ''expire'', ''expires_at'', ''expiresAt'', ''expiry'', ''expires'']"

text \<open>A field of the file, with the one inside \<open>tokens\<close> as its fallback.\<close>

definition token_field :: "json_map \<Rightarrow> json_map option \<Rightarrow> string list \<Rightarrow> string" where
  "token_field meta tokens ks =
     (case tokens of
        None \<Rightarrow> stringField meta ks
      | Some ts \<Rightarrow> if stringField meta ks = [] then stringField ts ks else stringField meta ks)"

definition parsed_auth :: "go_lib \<Rightarrow> string \<Rightarrow> string \<Rightarrow> json_map \<Rightarrow> Auth" where
  "parsed_auth lib path relative meta =
     (let tokens = mapField meta ''tokens'';
          access = token_field meta tokens access_keys;
          idt = token_field meta tokens id_keys;
          account0 = token_field meta tokens account_keys;
          expires0 = timeField lib meta expiry_keys;
          expires = (if is_zero_time expires0 then tokenExpiry lib access else expires0);
          email0 = stringField meta [''email''];
          idc = tokenIdentityClaims lib idt;
          acc = tokenIdentityClaims lib access;
          account = (if account0 = [] then
                       (if claim_AccountID idc \<noteq> [] then claim_AccountID idc else claim_AccountID acc)
                     else account0);
          email = (if email0 = [] then
                     (if claim_Email idc \<noteq> [] then claim_Email idc else claim_Email acc)
                   else email0)
      in \<lparr>auth_ID = stableAuthID account relative, Path = path, Email = email,
          AccountID = account, AccessToken = access,
          RefreshToken = token_field meta tokens refresh_keys, IDToken = idt,
          ExpiresAt = expires, Metadata = meta, Disabled = boolField meta ''disabled'',
          SourcePaths = [path], codexCLI = (tokens \<noteq> None), relativePath = relative,
          sourceIDs = [relative]\<rparr>)"

definition auth_of_meta :: "go_lib \<Rightarrow> string \<Rightarrow> string \<Rightarrow> json_map \<Rightarrow> auth_read" where
  "auth_of_meta lib path relative meta =
     (let provider = (case map_of meta ''type'' of Some (JStr v) \<Rightarrow> v | _ \<Rightarrow> []);
          tokens = mapField meta ''tokens'';
          a = parsed_auth lib path relative meta
      in if trim_space provider \<noteq> [] \<and> \<not> equal_fold (trim_space provider) ''codex'' then ReadSkip
         else if trim_space provider = [] \<and> tokens = None then ReadSkip
         else if AccessToken a = [] \<and> RefreshToken a = [] then ReadSkip
         else ReadAuth a)"

definition readAuthFile :: "go_lib \<Rightarrow> string \<Rightarrow> string \<Rightarrow> (go_err + string) \<Rightarrow> auth_read" where
  "readAuthFile lib path relative content =
     (case content of
        Inl e \<Rightarrow> ReadFailed
      | Inr raw \<Rightarrow>
          if trim_space raw = [] then ParseFailed
          else (case unmarshal_object lib raw of
                  None \<Rightarrow> ParseFailed
                | Some meta \<Rightarrow> auth_of_meta lib path relative meta))"

text \<open>\<open>time.RFC3339\<close> writes no fraction.\<close>

definition format_rfc3339 :: "time \<Rightarrow> string" where
  "format_rfc3339 t = formatDBTime (t - t mod second)"

definition set_if :: "bool \<Rightarrow> string \<Rightarrow> string \<Rightarrow> json_map \<Rightarrow> json_map" where
  "set_if c k v m = (if c then AList.update k (JStr v) m else m)"

definition set_or_delete :: "string \<Rightarrow> string \<Rightarrow> json_map \<Rightarrow> json_map" where
  "set_or_delete k v m = (if v \<noteq> [] then AList.update k (JStr v) m else AList.delete k m)"

text \<open>The object \<open>Save\<close> marshals (and keeps as \<open>Metadata\<close>).\<close>

definition saved_tokens :: "Auth \<Rightarrow> json_map \<Rightarrow> json_map" where
  "saved_tokens a tokens =
     set_or_delete ''account_id'' (AccountID a)
      (AList.delete ''accountID''
        (set_if (IDToken a \<noteq> []) ''id_token'' (IDToken a)
          (AList.update ''refresh_token'' (JStr (RefreshToken a))
            (AList.update ''access_token'' (JStr (AccessToken a)) tokens))))"

definition saved_metadata :: "Auth \<Rightarrow> json_map" where
  "saved_metadata a =
     (let data = AList.update ''disabled'' (JBool (Disabled a)) (Metadata a) in
      if codexCLI a \<or> mapField data ''tokens'' \<noteq> None then
        let data = fold AList.delete
                     (access_keys @ refresh_keys @ id_keys @ account_keys) data;
            tokens = (case mapField data ''tokens'' of None \<Rightarrow> [] | Some m \<Rightarrow> m)
        in AList.update ''tokens'' (JObj (saved_tokens a tokens)) data
      else
        let data = AList.update ''type'' (JStr ''codex'') data;
            data = AList.update ''access_token'' (JStr (AccessToken a)) data;
            data = AList.update ''refresh_token'' (JStr (RefreshToken a)) data;
            data = set_if (IDToken a \<noteq> []) ''id_token'' (IDToken a) data;
            data = AList.delete ''accountID'' data;
            data = set_or_delete ''account_id'' (AccountID a) data;
            data = set_or_delete ''email'' (Email a) data
        in set_if (\<not> is_zero_time (ExpiresAt a)) ''expired'' (format_rfc3339 (ExpiresAt a)) data)"

section \<open>Grouping the files of an account\<close>

type_synonym authFileEntry = "string \<times> Auth"

definition group_auth :: "authFileEntry list \<Rightarrow> Auth" where
  "group_auth grp =
     (let representative = (case find (\<lambda>e. \<not> Disabled (snd e)) grp of Some e \<Rightarrow> e | None \<Rightarrow> hd grp)
      in (snd representative)
           \<lparr>Disabled := list_all (\<lambda>e. Disabled (snd e)) grp,
            SourcePaths := map (\<lambda>e. Path (snd e)) grp,
            sourceIDs := map fst grp\<rparr>)"

definition groupAuthFiles :: "authFileEntry list \<Rightarrow> Auth list" where
  "groupAuthFiles entries =
     (let es = sort_key fst entries;
          ids = sort (remdups (map (\<lambda>e. auth_ID (snd e)) es))
      in map (\<lambda>i. group_auth (filter (\<lambda>e. auth_ID (snd e) = i) es)) ids)"

section \<open>Changes between two scans\<close>

datatype AuthChangeKind = AuthAdded | AuthUpdated | AuthRemoved

record AuthChange =
  change_Kind :: AuthChangeKind
  change_ID :: string
  change_AccountID :: string
  change_Identified :: bool
  CredentialsChanged :: bool
  MetadataChanged :: bool
  EligibilityChanged :: bool
  SourcesChanged :: bool

definition newAuthChange :: "AuthChangeKind \<Rightarrow> Auth \<Rightarrow> AuthChange" where
  "newAuthChange kind a =
     \<lparr>change_Kind = kind, change_ID = auth_ID a, change_AccountID = AccountID a,
      change_Identified = Identified a, CredentialsChanged = False, MetadataChanged = False,
      EligibilityChanged = False, SourcesChanged = False\<rparr>"

definition authCredentialsChanged :: "Auth \<Rightarrow> Auth \<Rightarrow> bool" where
  "authCredentialsChanged before after \<longleftrightarrow>
     AccessToken before \<noteq> AccessToken after \<or> RefreshToken before \<noteq> RefreshToken after \<or>
     IDToken before \<noteq> IDToken after \<or> ExpiresAt before \<noteq> ExpiresAt after"

definition auth_change :: "bool \<Rightarrow> Auth option \<Rightarrow> Auth option \<Rightarrow> AuthChange list" where
  "auth_change initialized before after =
     (case (before, after) of
        (None, None) \<Rightarrow> []
      | (None, Some b) \<Rightarrow> if initialized then [newAuthChange AuthAdded b] else []
      | (Some a, None) \<Rightarrow> [newAuthChange AuthRemoved a]
      | (Some a, Some b) \<Rightarrow>
          let change = (newAuthChange AuthUpdated b)
                \<lparr>CredentialsChanged := authCredentialsChanged a b,
                 MetadataChanged := (Email a \<noteq> Email b),
                 EligibilityChanged := (Disabled a \<noteq> Disabled b),
                 SourcesChanged := (sourceIDs a \<noteq> sourceIDs b)\<rparr>
          in if CredentialsChanged change \<or> MetadataChanged change \<or> EligibilityChanged change
               \<or> SourcesChanged change then [change] else [])"

definition reconcileAuthChanges ::
  "(string \<times> Auth) list \<Rightarrow> (string \<times> Auth) list \<Rightarrow> bool \<Rightarrow> AuthChange list" where
  "reconcileAuthChanges previous current initialized =
     (let ids = sort (map fst previous @ filter (\<lambda>i. i \<notin> set (map fst previous)) (map fst current))
      in concat (map (\<lambda>i. auth_change initialized (map_of previous i) (map_of current i)) ids))"

section \<open>Scanning the directory\<close>

datatype AuthFileProblemKind = AuthFileReadProblem | AuthFileParseProblem

record AuthFileProblem =
  problem_Path :: string
  problem_Kind :: AuthFileProblemKind
  GraceUntil :: time
  Excluded :: bool

record authFileState =
  state_auth :: Auth
  parseErrorSince :: time

record FileAuthStore =
  store_files :: "(string \<times> authFileState) list"
  store_auths :: "(string \<times> Auth) list"
  initialized :: bool

record AuthReconcileResult =
  Auths :: "Auth list"
  Active :: "Auth list"
  Changes :: "AuthChange list"
  FileProblems :: "AuthFileProblem list"

definition NewFileAuthStore :: FileAuthStore where
  "NewFileAuthStore = \<lparr>store_files = [], store_auths = [], initialized = False\<rparr>"

record walk_entry =
  we_path :: string
  we_relative :: string
  we_is_dir :: bool
  we_content :: "go_err + string"

datatype walk_end = WalkDone | WalkNotExist | WalkFailed go_err

definition is_auth_file :: "walk_entry \<Rightarrow> bool" where
  "is_auth_file w \<longleftrightarrow>
     \<not> we_is_dir w \<and> suffix ''.json'' (map ascii_lower (last (split_slash [] (we_path w))))"

definition parse_error_grace :: "duration \<Rightarrow> duration" where
  "parse_error_grace configured =
     (let g = (if configured = 0 then 5 * second else configured) in if g < 0 then 0 else g)"

type_synonym walk_acc = "(string \<times> authFileState) list \<times> authFileEntry list \<times> AuthFileProblem list"

definition excluded_problem :: "string \<Rightarrow> AuthFileProblemKind \<Rightarrow> AuthFileProblem" where
  "excluded_problem relative kind =
     \<lparr>problem_Path = relative, problem_Kind = kind, GraceUntil = 0, Excluded = True\<rparr>"

definition walk_file ::
  "go_lib \<Rightarrow> time \<Rightarrow> duration \<Rightarrow> (string \<times> authFileState) list \<Rightarrow> walk_entry \<Rightarrow> walk_acc \<Rightarrow> walk_acc" where
  "walk_file lib now grace previous_files w acc =
     (case acc of (files, entries, problems) \<Rightarrow>
        if \<not> is_auth_file w then acc
        else
          let relative = we_relative w in
          (case readAuthFile lib (we_path w) relative (we_content w) of
             ReadFailed \<Rightarrow> (files, entries, problems @ [excluded_problem relative AuthFileReadProblem])
           | ParseFailed \<Rightarrow>
               (case map_of previous_files relative of
                  None \<Rightarrow> (files, entries, problems @ [excluded_problem relative AuthFileParseProblem])
                | Some previous0 \<Rightarrow>
                    let previous = (if is_zero_time (parseErrorSince previous0)
                                    then previous0\<lparr>parseErrorSince := now\<rparr> else previous0);
                        excluded = (\<not> now < parseErrorSince previous + grace);
                        problem = \<lparr>problem_Path = relative, problem_Kind = AuthFileParseProblem,
                                   GraceUntil = parseErrorSince previous + grace, Excluded = excluded\<rparr>
                    in (AList.update relative previous files,
                        (if excluded then entries else entries @ [(relative, state_auth previous)]),
                        problems @ [problem]))
           | ReadSkip \<Rightarrow> acc
           | ReadAuth a0 \<Rightarrow>
               let a = a0\<lparr>relativePath := relative, SourcePaths := [we_path w], sourceIDs := [relative]\<rparr>
               in (AList.update relative \<lparr>state_auth = a, parseErrorSince = 0\<rparr> files,
                   entries @ [(relative, a)], problems)))"

definition reconcile ::
  "go_lib \<Rightarrow> time \<Rightarrow> duration \<Rightarrow> walk_entry list \<Rightarrow> walk_end \<Rightarrow> FileAuthStore
    \<Rightarrow> (go_err + AuthReconcileResult) \<times> FileAuthStore" where
  "reconcile lib now configured_grace walked ending s =
     (case ending of
        WalkFailed e \<Rightarrow> (Inl e, s)
      | _ \<Rightarrow>
          let grace = parse_error_grace configured_grace;
              (files, entries, problems) =
                fold (walk_file lib now grace (store_files s)) walked ([], [], []);
              logical = groupAuthFiles entries;
              nextAuths = map (\<lambda>a. (auth_ID a, a)) logical;
              changes = reconcileAuthChanges (store_auths s) nextAuths (initialized s)
          in (Inr \<lparr>Auths = logical, Active = filter (\<lambda>a. \<not> Disabled a) logical,
                  Changes = changes, FileProblems = problems\<rparr>,
              \<lparr>store_files = files, store_auths = nextAuths, initialized = True\<rparr>))"

section \<open>Lemmas\<close>

lemma filter_id_ne: "i \<in> set (map (\<lambda>e. auth_ID (snd e)) es) \<Longrightarrow> filter (\<lambda>e. auth_ID (snd e) = i) es \<noteq> []"
  by (auto simp: filter_empty_conv)

lemma find_mem: "find P xs = Some x \<Longrightarrow> x \<in> set xs \<and> P x"
  by (induction xs) (auto split: if_splits)

lemma group_auth_ID:
  assumes "g \<noteq> []" "\<forall>e\<in>set g. auth_ID (snd e) = i"
  shows "auth_ID (group_auth g) = i"
  using assms by (auto simp: group_auth_def Let_def hd_in_set split: option.split dest!: find_mem)

lemma group_ids [simp]:
  "map auth_ID (groupAuthFiles entries) = sort (remdups (map (\<lambda>e. auth_ID (snd e)) (sort_key fst entries)))"
proof -
  let ?es = "sort_key fst entries"
  have "auth_ID (group_auth (filter (\<lambda>e. auth_ID (snd e) = i) ?es)) = i"
    if "i \<in> set (map (\<lambda>e. auth_ID (snd e)) ?es)" for i
    by (rule group_auth_ID) (use that filter_id_ne [of i ?es] in auto)
  then show ?thesis
    by (auto simp: groupAuthFiles_def Let_def comp_def intro!: map_idI)
qed

lemma map_of_keyed: "map_of (map (\<lambda>a. (k a, a)) xs) i = find (\<lambda>a. k a = i) xs"
  by (induction xs) auto

lemma auth_change_same [simp]: "auth_change ini (Some a) (Some a) = []"
  by (simp add: auth_change_def authCredentialsChanged_def Let_def)

lemma reconcile_same: "reconcileAuthChanges m m ini = []"
proof -
  have "auth_change ini (map_of m i) (map_of m i) = []" for i
    by (cases "map_of m i") (simp_all, simp add: auth_change_def)
  then show ?thesis by (simp add: reconcileAuthChanges_def)
qed

text \<open>What one visited file contributes, apart from the accumulator.\<close>

definition file_state ::
  "go_lib \<Rightarrow> time \<Rightarrow> (string \<times> authFileState) list \<Rightarrow> walk_entry \<Rightarrow> authFileState option" where
  "file_state lib now pf w =
     (if \<not> is_auth_file w then None
      else (case readAuthFile lib (we_path w) (we_relative w) (we_content w) of
              ReadFailed \<Rightarrow> None
            | ParseFailed \<Rightarrow>
                map_option (\<lambda>p. if is_zero_time (parseErrorSince p) then p\<lparr>parseErrorSince := now\<rparr> else p)
                  (map_of pf (we_relative w))
            | ReadSkip \<Rightarrow> None
            | ReadAuth a0 \<Rightarrow>
                Some \<lparr>state_auth = a0\<lparr>relativePath := we_relative w, SourcePaths := [we_path w],
                                     sourceIDs := [we_relative w]\<rparr>,
                      parseErrorSince = 0\<rparr>))"

definition file_entry ::
  "go_lib \<Rightarrow> time \<Rightarrow> duration \<Rightarrow> (string \<times> authFileState) list \<Rightarrow> walk_entry \<Rightarrow> authFileEntry list" where
  "file_entry lib now grace pf w =
     (case file_state lib now pf w of
        None \<Rightarrow> []
      | Some st \<Rightarrow>
          if readAuthFile lib (we_path w) (we_relative w) (we_content w) = ParseFailed \<and>
             \<not> now < parseErrorSince st + grace
          then [] else [(we_relative w, state_auth st)])"

lemma walk_file_parts:
  "\<exists>ps'. walk_file lib now grace pf w (files, entries, ps) =
     (case file_state lib now pf w of None \<Rightarrow> files | Some st \<Rightarrow> AList.update (we_relative w) st files,
      entries @ file_entry lib now grace pf w, ps')"
  by (simp add: walk_file_def file_state_def file_entry_def Let_def split: auth_read.split option.split)

lemma walk_fold:
  assumes "fold (walk_file lib now grace pf) ws (files, entries, ps) = (files', entries', ps')"
    and "distinct (map we_relative ws)"
  shows "entries' = entries @ concat (map (file_entry lib now grace pf) ws) \<and>
    (\<forall>r. r \<notin> we_relative ` set ws \<longrightarrow> map_of files' r = map_of files r) \<and>
    (\<forall>w\<in>set ws. map_of files' (we_relative w) =
       (case file_state lib now pf w of None \<Rightarrow> map_of files (we_relative w) | Some st \<Rightarrow> Some st))"
  using assms
proof (induction ws arbitrary: files entries ps)
  case (Cons w ws)
  let ?f = "case file_state lib now pf w of None \<Rightarrow> files | Some st \<Rightarrow> AList.update (we_relative w) st files"
  obtain ps1 where step: "walk_file lib now grace pf w (files, entries, ps) =
      (?f, entries @ file_entry lib now grace pf w, ps1)"
    using walk_file_parts by blast
  have run: "fold (walk_file lib now grace pf) ws
      (?f, entries @ file_entry lib now grace pf w, ps1) = (files', entries', ps')"
    using Cons.prems by (simp add: step)
  have dist: "distinct (map we_relative ws)" and new: "we_relative w \<notin> we_relative ` set ws"
    using Cons.prems by simp_all
  have IH: "entries' = entries @ file_entry lib now grace pf w @ concat (map (file_entry lib now grace pf) ws)"
    "\<And>r. r \<notin> we_relative ` set ws \<Longrightarrow> map_of files' r = map_of ?f r"
    "\<And>v. v \<in> set ws \<Longrightarrow> map_of files' (we_relative v) =
       (case file_state lib now pf v of None \<Rightarrow> map_of ?f (we_relative v) | Some st \<Rightarrow> Some st)"
    using Cons.IH [OF run dist] by (simp_all add: ball_conj_distrib)
  have f: "map_of ?f r = (if r = we_relative w
      then (case file_state lib now pf w of None \<Rightarrow> map_of files r | Some st \<Rightarrow> Some st)
      else map_of files r)" for r
    by (simp split: option.split)
  show ?case
  proof (intro conjI allI ballI impI)
    fix v assume "v \<in> set (w # ws)"
    then consider "v = w" | "v \<in> set ws" "we_relative v \<noteq> we_relative w"
      using new by (cases "v = w") (auto simp: image_iff)
    then show "map_of files' (we_relative v) =
        (case file_state lib now pf v of None \<Rightarrow> map_of files (we_relative v) | Some st \<Rightarrow> Some st)"
    proof cases
      case 1 with IH(2) [OF new] f [of "we_relative w"] show ?thesis by (simp split: option.splits)
    next
      case 2 with IH(3) [OF 2(1)] f [of "we_relative v"] 2 show ?thesis by (simp split: option.splits)
    qed
  next
    fix r assume "r \<notin> we_relative ` set (w # ws)"
    with IH(2) [of r] f [of r] show "map_of files' r = map_of files r" by simp
  qed (simp add: IH(1))
qed simp

lemma file_entry_rel: "e \<in> set (file_entry lib now grace pf w) \<Longrightarrow> fst e = we_relative w"
  by (auto simp: file_entry_def split: option.splits if_splits)

lemma group_auth_simps [simp]:
  "Disabled (group_auth g) = list_all (\<lambda>e. Disabled (snd e)) g"
  "SourcePaths (group_auth g) = map (\<lambda>e. Path (snd e)) g"
  "sourceIDs (group_auth g) = map fst g"
  by (simp_all add: group_auth_def Let_def)

lemma group_auth_from:
  assumes "g \<noteq> []"
  shows "\<exists>e\<in>set g. AccessToken (group_auth g) = AccessToken (snd e) \<and>
     RefreshToken (group_auth g) = RefreshToken (snd e) \<and> AccountID (group_auth g) = AccountID (snd e) \<and>
     (Disabled (snd e) \<longrightarrow> Disabled (group_auth g))"
proof (cases "find (\<lambda>e. \<not> Disabled (snd e)) g")
  case None
  then have "list_all (\<lambda>e. Disabled (snd e)) g"
    by (auto simp: find_None_iff list_all_iff)
  then show ?thesis
    using None assms by (intro bexI [of _ "hd g"]) (simp_all add: group_auth_def)
next
  case (Some e)
  then show ?thesis
    using find_mem [OF Some] by (intro bexI [of _ e]) (simp_all add: group_auth_def)
qed

lemma groupAuthFiles_in:
  assumes "x \<in> set (groupAuthFiles entries)"
  obtains g where "g \<noteq> []" "x = group_auth g" "sorted (map fst g)"
    "\<And>e. e \<in> set g \<longleftrightarrow> e \<in> set entries \<and> auth_ID (snd e) = auth_ID x"
proof -
  let ?es = "sort_key fst entries"
  obtain i where i: "i \<in> set (map (\<lambda>e. auth_ID (snd e)) ?es)"
    "x = group_auth (filter (\<lambda>e. auth_ID (snd e) = i) ?es)"
    using assms by (auto simp: groupAuthFiles_def Let_def)
  have ne: "filter (\<lambda>e. auth_ID (snd e) = i) ?es \<noteq> []" by (rule filter_id_ne [OF i(1)])
  have "auth_ID x = i" unfolding i(2) by (rule group_auth_ID [OF ne]) simp
  with that [OF ne i(2)] show thesis by (simp add: sorted_filter)
qed

lemma group_sources:
  "r \<in> fst ` set entries \<longleftrightarrow> (\<exists>x\<in>set (groupAuthFiles entries). r \<in> set (sourceIDs x))"
proof
  assume "r \<in> fst ` set entries"
  then obtain e where e: "e \<in> set entries" "fst e = r" by auto
  let ?x = "group_auth (filter (\<lambda>e'. auth_ID (snd e') = auth_ID (snd e)) (sort_key fst entries))"
  have "?x \<in> set (groupAuthFiles entries)"
    using e by (auto simp: groupAuthFiles_def Let_def)
  moreover have "r \<in> set (sourceIDs ?x)" using e by auto
  ultimately show "\<exists>x\<in>set (groupAuthFiles entries). r \<in> set (sourceIDs x)" by blast
next
  assume "\<exists>x\<in>set (groupAuthFiles entries). r \<in> set (sourceIDs x)"
  then show "r \<in> fst ` set entries"
    by (force elim!: groupAuthFiles_in)
qed

lemma reconcile_parts:
  assumes "reconcile lib now g ws WalkDone s = (Inr r, s')" "distinct (map we_relative ws)"
  shows "Auths r = groupAuthFiles (concat (map (file_entry lib now (parse_error_grace g) (store_files s)) ws))"
    and "Active r = filter (\<lambda>a. \<not> Disabled a) (Auths r)"
    and "Changes r = reconcileAuthChanges (store_auths s) (map (\<lambda>a. (auth_ID a, a)) (Auths r)) (initialized s)"
    and "store_auths s' = map (\<lambda>a. (auth_ID a, a)) (Auths r)"
    and "\<And>w. w \<in> set ws \<Longrightarrow> map_of (store_files s') (we_relative w) = file_state lib now (store_files s) w"
proof -
  obtain files entries ps where run:
    "fold (walk_file lib now (parse_error_grace g) (store_files s)) ws ([], [], []) = (files, entries, ps)"
    by (metis prod_cases3)
  note parts = walk_fold [OF run assms(2)]
  have r: "r = \<lparr>Auths = groupAuthFiles entries,
      Active = filter (\<lambda>a. \<not> Disabled a) (groupAuthFiles entries),
      Changes = reconcileAuthChanges (store_auths s) (map (\<lambda>a. (auth_ID a, a)) (groupAuthFiles entries))
                  (initialized s),
      FileProblems = ps\<rparr>"
    and s': "s' = \<lparr>store_files = files, store_auths = map (\<lambda>a. (auth_ID a, a)) (groupAuthFiles entries),
      initialized = True\<rparr>"
    using assms(1) by (simp_all add: reconcile_def run Let_def)
  show "Auths r = groupAuthFiles (concat (map (file_entry lib now (parse_error_grace g) (store_files s)) ws))"
    using parts by (simp add: r)
  show "map_of (store_files s') (we_relative w) = file_state lib now (store_files s) w" if "w \<in> set ws" for w
    using parts that by (simp add: s' split: option.splits)
qed (use assms in \<open>simp_all add: reconcile_def Let_def split: prod.splits, auto\<close>)

lemma reconcile_done: "\<exists>r s'. reconcile lib now g ws WalkDone s = (Inr r, s')"
  by (simp add: reconcile_def Let_def split: prod.split)

text \<open>A file that parsed once and now does not, scanned any number of times.\<close>

definition failing :: "go_lib \<Rightarrow> walk_entry \<Rightarrow> bool" where
  "failing lib w \<longleftrightarrow> is_auth_file w \<and> readAuthFile lib (we_path w) (we_relative w) (we_content w) = ParseFailed"

lemma failing_state:
  "failing lib w \<Longrightarrow> file_state lib now pf w =
     map_option (\<lambda>p. if parseErrorSince p = 0 then p\<lparr>parseErrorSince := now\<rparr> else p) (map_of pf (we_relative w))"
  by (simp add: failing_def file_state_def)

definition scans ::
  "go_lib \<Rightarrow> duration \<Rightarrow> (time \<times> walk_entry list) list \<Rightarrow> FileAuthStore \<Rightarrow> FileAuthStore" where
  "scans lib g = fold (\<lambda>(t, ws) s. snd (reconcile lib t g ws WalkDone s))"

lemma scans_failing:
  assumes "\<forall>(t, ws)\<in>set runs. w \<in> set ws \<and> distinct (map we_relative ws)" "failing lib w"
    and "map_of (store_files s) (we_relative w) = Some st" "parseErrorSince st \<noteq> 0"
  shows "map_of (store_files (scans lib g runs s)) (we_relative w) = Some st"
  using assms
proof (induction runs arbitrary: s)
  case (Cons run runs)
  obtain t ws where run: "run = (t, ws)" by fastforce
  obtain r s' where step: "reconcile lib t g ws WalkDone s = (Inr r, s')" using reconcile_done by blast
  have "map_of (store_files s') (we_relative w) = Some st"
    using reconcile_parts(5) [OF step, of w] Cons.prems by (simp add: run failing_state)
  with Cons.IH [of s'] Cons.prems show ?case
    by (simp add: scans_def run step)
qed (simp add: scans_def)

lemma entry_of_failing:
  assumes "failing lib w" "w \<in> set ws" "distinct (map we_relative ws)"
    and "map_of pf (we_relative w) = Some st"
  shows "we_relative w \<in> fst ` set (concat (map (file_entry lib now grace pf) ws)) \<longleftrightarrow>
    now < (if parseErrorSince st = 0 then now else parseErrorSince st) + grace"
proof -
  let ?e = "file_entry lib now grace pf"
  have uniq: "v = w" if "v \<in> set ws" "e \<in> set (?e v)" "fst e = we_relative w" for v e
    using that assms(2,3) file_entry_rel [of e] by (auto simp: distinct_map inj_on_def)
  have "we_relative w \<in> fst ` set (concat (map ?e ws)) \<longleftrightarrow> ?e w \<noteq> []"
  proof
    assume "we_relative w \<in> fst ` set (concat (map ?e ws))"
    then obtain v e where "v \<in> set ws" "e \<in> set (?e v)" "fst e = we_relative w" by auto
    with uniq [of v e] show "?e w \<noteq> []" by auto
  next
    assume "?e w \<noteq> []"
    then obtain e where e: "e \<in> set (?e w)" by (meson last_in_set)
    then show "we_relative w \<in> fst ` set (concat (map ?e ws))"
      using file_entry_rel [OF e] assms(2) by (auto simp: image_iff intro!: bexI [of _ e])
  qed
  also have "\<dots> \<longleftrightarrow> now < (if parseErrorSince st = 0 then now else parseErrorSince st) + grace"
    using assms(1,4) by (simp add: file_entry_def failing_state failing_def)
  finally show ?thesis .
qed

text \<open>
  The text of an instant survives \<open>strings.TrimSpace\<close>.
\<close>

lemma plain_digit: "plain_char (digit_char (n mod 10))"
proof -
  have "nat (n mod 10) < 10" by (simp add: nat_less_iff)
  then show ?thesis by (simp add: plain_char_def digit_char_def)
qed

lemma pad4: "pad 4 n = digit_char (n div 10 div 10 div 10 mod 10) # digit_char (n div 10 div 10 mod 10) #
    digit_char (n div 10 mod 10) # digit_char (n mod 10) # []"
  by (simp add: eval_nat_numeral)

lemma plain_decimal: "0 \<le> n \<Longrightarrow> decimal n \<noteq> [] \<and> plain_char (hd (decimal n))"
proof (induction n rule: decimal.induct)
  case (1 n)
  show ?case
  proof (cases "n < 10")
    case True
    with "1.prems" plain_digit [of n] show ?thesis by (subst (1 2) decimal.simps) simp
  next
    case False
    with 1 have "decimal (n div 10) \<noteq> [] \<and> plain_char (hd (decimal (n div 10)))" by simp
    with False show ?thesis by (subst (1 2) decimal.simps) simp
  qed
qed

lemma trim_space_formatDBTime [simp]: "trim_space (formatDBTime t) = formatDBTime t" "formatDBTime t \<noteq> []"
proof -
  show ne: "formatDBTime t \<noteq> []" by (simp add: formatDBTime_def)
  have date: "date_text s \<noteq> []" "plain_char (hd (date_text s))" for s
    unfolding date_text_def Let_def pad4 append.simps list.sel by (simp, rule plain_digit)
  have prefix: "year_prefix y = [] \<or> plain_char (hd (year_prefix y)) \<and> year_prefix y \<noteq> []" for y
    using plain_decimal [of "y div 10000"] by (auto simp: year_prefix_def)
  show "trim_space (formatDBTime t) = formatDBTime t"
  proof (rule trim_space_plain [OF ne])
    show "plain_char (hd (formatDBTime t))"
      using prefix [of "years_before (seconds_of t div 86400) + 1"] date by (auto simp: formatDBTime_def)
    show "plain_char (last (formatDBTime t))"
      by (simp add: formatDBTime_def plain_char_def)
  qed
qed

lemma token_field_trimmed [simp]: "trim_space (token_field meta tokens ks) = token_field meta tokens ks"
  by (simp add: token_field_def split: option.split)

lemma claims_trimmed [simp]: "trim_space (claim_AccountID (tokenIdentityClaims lib tok)) = claim_AccountID (tokenIdentityClaims lib tok)"
  by (simp add: tokenIdentityClaims_def Let_def split: option.split)

lemma parsed_auth_simps [simp]:
  "Metadata (parsed_auth lib path relative meta) = meta"
  "codexCLI (parsed_auth lib path relative meta) \<longleftrightarrow> mapField meta ''tokens'' \<noteq> None"
  "AccessToken (parsed_auth lib path relative meta) = token_field meta (mapField meta ''tokens'') access_keys"
  "RefreshToken (parsed_auth lib path relative meta) = token_field meta (mapField meta ''tokens'') refresh_keys"
  "IDToken (parsed_auth lib path relative meta) = token_field meta (mapField meta ''tokens'') id_keys"
  "Disabled (parsed_auth lib path relative meta) = boolField meta ''disabled''"
  "auth_ID (parsed_auth lib path relative meta) = stableAuthID (AccountID (parsed_auth lib path relative meta)) relative"
  by (simp_all add: parsed_auth_def Let_def)

lemma parsed_auth_account:
  "token_field meta (mapField meta ''tokens'') account_keys \<noteq> [] \<Longrightarrow>
     AccountID (parsed_auth lib path relative meta) = token_field meta (mapField meta ''tokens'') account_keys"
  "trim_space (AccountID (parsed_auth lib path relative meta)) = AccountID (parsed_auth lib path relative meta)"
  by (simp_all add: parsed_auth_def Let_def)

lemma parsed_auth_expiry:
  "timeField lib meta expiry_keys \<noteq> 0 \<Longrightarrow>
     ExpiresAt (parsed_auth lib path relative meta) = timeField lib meta expiry_keys"
  by (simp add: parsed_auth_def Let_def)

definition provider_ok :: "json_map \<Rightarrow> bool" where
  "provider_ok meta \<longleftrightarrow>
     (let provider = trim_space (case map_of meta ''type'' of Some (JStr v) \<Rightarrow> v | _ \<Rightarrow> [])
      in equal_fold provider ''codex'' \<or> provider = [] \<and> mapField meta ''tokens'' \<noteq> None)"

lemma auth_of_meta_iff:
  "auth_of_meta lib path relative meta = ReadAuth a \<longleftrightarrow>
     provider_ok meta \<and> a = parsed_auth lib path relative meta \<and> (AccessToken a \<noteq> [] \<or> RefreshToken a \<noteq> [])"
  by (auto simp: auth_of_meta_def provider_ok_def Let_def equal_fold_def)

text \<open>
  \<open>Save\<close>: the file written for a credential that was read from \<open>meta\<close> and then refreshed.
\<close>

definition refreshed :: "Auth \<Rightarrow> string \<Rightarrow> string \<Rightarrow> string \<Rightarrow> time \<Rightarrow> bool \<Rightarrow> Auth" where
  "refreshed a tok rt it ex d =
     a\<lparr>AccessToken := tok, RefreshToken := rt, IDToken := it, ExpiresAt := ex, Disabled := d\<rparr>"

definition token_text :: "string \<Rightarrow> bool" where
  "token_text s \<longleftrightarrow> s \<noteq> [] \<and> trim_space s = s"

lemma map_of_fold_delete: "map_of (fold AList.delete ks m) j = (if j \<in> set ks then None else map_of m j)"
  by (induction ks arbitrary: m) auto

lemma map_of_saved:
  "map_of (set_if c k v m) j = (if c \<and> j = k then Some (JStr v) else map_of m j)"
  "map_of (set_or_delete k v m) j =
     (if j = k then (if v \<noteq> [] then Some (JStr v) else None) else map_of m j)"
  by (simp_all add: set_if_def set_or_delete_def)

lemmas saved_simps =
  mapField_def map_of_fold_delete map_of_saved refreshed_def boolField_def
  access_keys_def refresh_keys_def id_keys_def account_keys_def

lemma stringField_first:
  "map_of m k = Some (JStr v) \<Longrightarrow> token_text v \<Longrightarrow> stringField m (k # ks) = v"
  by (simp add: stringField_hit token_text_def)

lemma stringField_none: "\<forall>k\<in>set ks. map_of m k = None \<Longrightarrow> stringField m ks = []"
  by (induction ks) (simp_all add: stringField.simps)

lemma timeField_cong:
  "(\<And>k. k \<in> set ks \<Longrightarrow> map_of m k = map_of m' k) \<Longrightarrow> timeField lib m ks = timeField lib m' ks"
  by (induction ks) (auto simp: timeField.simps split: option.split json.split)

lemma refreshed_simps [simp]:
  "AccessToken (refreshed a tok rt it ex d) = tok" "RefreshToken (refreshed a tok rt it ex d) = rt"
  "IDToken (refreshed a tok rt it ex d) = it" "ExpiresAt (refreshed a tok rt it ex d) = ex"
  "Disabled (refreshed a tok rt it ex d) = d" "Metadata (refreshed a tok rt it ex d) = Metadata a"
  "codexCLI (refreshed a tok rt it ex d) = codexCLI a" "AccountID (refreshed a tok rt it ex d) = AccountID a"
  "Email (refreshed a tok rt it ex d) = Email a"
  by (simp_all add: refreshed_def)

lemma saved_metadata_cli:
  assumes "codexCLI b"
  shows "saved_metadata b =
    (let data = fold AList.delete (access_keys @ refresh_keys @ id_keys @ account_keys)
                  (AList.update ''disabled'' (JBool (Disabled b)) (Metadata b))
     in AList.update ''tokens''
          (JObj (saved_tokens b (case mapField data ''tokens'' of None \<Rightarrow> [] | Some m \<Rightarrow> m))) data)"
  using assms unfolding saved_metadata_def Let_def by simp

lemma saved_cli:
  fixes a :: Auth and tok rt it :: string and ex :: time and d :: bool
  assumes "codexCLI a"
  defines "m \<equiv> saved_metadata (refreshed a tok rt it ex d)"
  defines "ts \<equiv> saved_tokens (refreshed a tok rt it ex d)
      (case mapField (Metadata a) ''tokens'' of None \<Rightarrow> [] | Some ts \<Rightarrow> ts)"
  shows "map_of m k =
     (if k = ''tokens'' then Some (JObj ts)
      else if k \<in> set (access_keys @ refresh_keys @ id_keys @ account_keys) then None
      else if k = ''disabled'' then Some (JBool d) else map_of (Metadata a) k)"
proof -
  have "mapField (fold AList.delete (access_keys @ refresh_keys @ id_keys @ account_keys)
      (AList.update ''disabled'' (JBool d) (Metadata a))) ''tokens'' = mapField (Metadata a) ''tokens''"
    unfolding mapField_def map_of_fold_delete by (simp add: saved_simps)
  with saved_metadata_cli [of "refreshed a tok rt it ex d"] assms(1)
  have "m = AList.update ''tokens'' (JObj ts)
      (fold AList.delete (access_keys @ refresh_keys @ id_keys @ account_keys)
            (AList.update ''disabled'' (JBool d) (Metadata a)))"
    by (simp only: m_def ts_def refreshed_simps Let_def)
  then show ?thesis
    by (simp only: map_of_update map_of_fold_delete)
qed

lemma saved_cli_tokens:
  "map_of (saved_tokens (refreshed a tok rt it ex d) toks) ''access_token'' = Some (JStr tok)"
  "map_of (saved_tokens (refreshed a tok rt it ex d) toks) ''refresh_token'' = Some (JStr rt)"
  "it \<noteq> [] \<Longrightarrow> map_of (saved_tokens (refreshed a tok rt it ex d) toks) ''id_token'' = Some (JStr it)"
  "AccountID a \<noteq> [] \<Longrightarrow>
     map_of (saved_tokens (refreshed a tok rt it ex d) toks) ''account_id'' = Some (JStr (AccountID a))"
  by (simp_all add: saved_tokens_def map_of_saved refreshed_def)

lemma saved_cli_fields:
  fixes lib :: go_lib and a :: Auth and tok rt it :: string and ex :: time and d :: bool
  assumes "codexCLI a" "token_text tok" "token_text rt" "token_text it" "token_text (AccountID a)"
  defines "m \<equiv> saved_metadata (refreshed a tok rt it ex d)"
  shows "mapField m ''tokens'' \<noteq> None"
    and "token_field m (mapField m ''tokens'') access_keys = tok"
    and "token_field m (mapField m ''tokens'') refresh_keys = rt"
    and "token_field m (mapField m ''tokens'') id_keys = it"
    and "token_field m (mapField m ''tokens'') account_keys = AccountID a"
    and "boolField m ''disabled'' = d" "map_of m ''type'' = map_of (Metadata a) ''type''"
    and "timeField lib m expiry_keys = timeField lib (Metadata a) expiry_keys"
proof -
  define ts where "ts = saved_tokens (refreshed a tok rt it ex d)
      (case mapField (Metadata a) ''tokens'' of None \<Rightarrow> [] | Some ts \<Rightarrow> ts)"
  note look = saved_cli [OF assms(1), where tok = tok and rt = rt and it = it and ex = ex and d = d,
      folded m_def ts_def]
  have ts: "mapField m ''tokens'' = Some ts"
    by (simp add: mapField_def look)
  have none: "stringField m access_keys = []" "stringField m refresh_keys = []"
    "stringField m id_keys = []" "stringField m account_keys = []"
    by (rule stringField_none; simp add: look saved_simps)+
  note inner = saved_cli_tokens [where a = a and tok = tok and rt = rt and it = it and ex = ex and d = d and
      toks = "case mapField (Metadata a) ''tokens'' of None \<Rightarrow> [] | Some ts \<Rightarrow> ts", folded ts_def]
  show "mapField m ''tokens'' \<noteq> None" by (simp add: ts)
  show "token_field m (mapField m ''tokens'') access_keys = tok"
    unfolding token_field_def ts none
    by (simp add: access_keys_def stringField_first [OF inner(1) assms(2)])
  show "token_field m (mapField m ''tokens'') refresh_keys = rt"
    unfolding token_field_def ts none
    by (simp add: refresh_keys_def stringField_first [OF inner(2) assms(3)])
  show "token_field m (mapField m ''tokens'') id_keys = it"
    unfolding token_field_def ts none using assms(4)
    by (simp add: id_keys_def stringField_first [OF inner(3) assms(4)] token_text_def)
  show "token_field m (mapField m ''tokens'') account_keys = AccountID a"
    unfolding token_field_def ts none using assms(5)
    by (simp add: account_keys_def stringField_first [OF inner(4) assms(5)] token_text_def)
  show "boolField m ''disabled'' = d" "map_of m ''type'' = map_of (Metadata a) ''type''"
    by (simp_all add: boolField_def look saved_simps)
  show "timeField lib m expiry_keys = timeField lib (Metadata a) expiry_keys"
    by (rule timeField_cong) (auto simp: look saved_simps expiry_keys_def)
qed

lemma saved_flat_fields:
  fixes a :: Auth and tok rt it :: string and ex :: time and d :: bool
  assumes "\<not> codexCLI a" "mapField (Metadata a) ''tokens'' = None"
    "token_text tok" "token_text rt" "token_text it" "token_text (AccountID a)"
  defines "m \<equiv> saved_metadata (refreshed a tok rt it ex d)"
  shows "mapField m ''tokens'' = None" "stringField m access_keys = tok"
      "stringField m refresh_keys = rt" "stringField m id_keys = it"
      "stringField m account_keys = AccountID a"
    and "boolField m ''disabled'' = d" "map_of m ''type'' = Some (JStr ''codex'')"
    and "ex \<noteq> 0 \<Longrightarrow> map_of m ''expired'' = Some (JStr (format_rfc3339 ex))"
proof -
  have look: "map_of m k =
     (if k = ''expired'' \<and> ex \<noteq> 0 then Some (JStr (format_rfc3339 ex))
      else if k = ''email'' then (if Email a \<noteq> [] then Some (JStr (Email a)) else None)
      else if k = ''account_id'' then Some (JStr (AccountID a))
      else if k = ''accountID'' then None
      else if k = ''id_token'' then Some (JStr it)
      else if k = ''refresh_token'' then Some (JStr rt)
      else if k = ''access_token'' then Some (JStr tok)
      else if k = ''type'' then Some (JStr ''codex'')
      else if k = ''disabled'' then Some (JBool d) else map_of (Metadata a) k)" for k
    using assms(1,2,5,6)
    by (simp add: m_def saved_metadata_def Let_def map_of_saved refreshed_def token_text_def)
  show "mapField m ''tokens'' = None"
    using assms(2) by (simp add: mapField_def look)
  show "stringField m access_keys = tok" "stringField m refresh_keys = rt"
      "stringField m id_keys = it" "stringField m account_keys = AccountID a"
    using assms(3-6)
    by (simp_all add: access_keys_def refresh_keys_def id_keys_def account_keys_def stringField_first look)
  show "boolField m ''disabled'' = d" "map_of m ''type'' = Some (JStr ''codex'')"
    "ex \<noteq> 0 \<Longrightarrow> map_of m ''expired'' = Some (JStr (format_rfc3339 ex))"
    by (simp_all add: boolField_def look)
qed

text \<open>What \<open>json.MarshalIndent\<close> promises to \<open>json.Unmarshal\<close>.\<close>

definition codec_ok :: "go_lib \<Rightarrow> json_map \<Rightarrow> bool" where
  "codec_ok lib m \<longleftrightarrow> unmarshal_object lib (marshal_object lib m) = Some m \<and>
     trim_space (marshal_object lib m) \<noteq> []"

lemma read_saved:
  "codec_ok lib m \<Longrightarrow> readAuthFile lib p rel (Inr (marshal_object lib m)) = auth_of_meta lib p rel m"
  by (simp add: codec_ok_def readAuthFile_def)

section \<open>Concrete data for the witnesses\<close>

definition demo_lib :: go_lib where
  "demo_lib = \<lparr>unmarshal_object = (\<lambda>raw. if raw = ''{1}'' then Some [] else None),
     marshal_object = (\<lambda>m. ''{1}''), base64_raw_url = (\<lambda>s. None), parse_rfc3339 = (\<lambda>s. None),
     parse_http_time = (\<lambda>s. None), decode_error_object = (\<lambda>s. None),
     sha256_hex = (\<lambda>s. replicate 64 (CHR ''a''))\<rparr>"

definition demo_auth :: "string \<Rightarrow> string \<Rightarrow> bool \<Rightarrow> Auth" where
  "demo_auth account path d =
     \<lparr>auth_ID = stableAuthID account path, Path = path, Email = [], AccountID = account,
      AccessToken = ''at'', RefreshToken = ''rt'', IDToken = [], ExpiresAt = 0, Metadata = [],
      Disabled = d, SourcePaths = [path], codexCLI = False, relativePath = path, sourceIDs = [path]\<rparr>"

definition demo_broken :: walk_entry where
  "demo_broken = \<lparr>we_path = ''a.json'', we_relative = ''a.json'', we_is_dir = False, we_content = Inr ''{''\<rparr>"

section \<open>Properties\<close>

text \<open>
  grouping yields one auth per account, in strictly increasing id order and for exactly the ids
  of the files; an account is disabled exactly when every file of it is, its sources are its files
  in path order, and its tokens come from one of its files, an enabled one when there is one.
\<close>

theorem groupAuthFiles_spec:
  "sorted_wrt (<) (map auth_ID (groupAuthFiles entries)) \<and>
   auth_ID ` set (groupAuthFiles entries) = (\<lambda>e. auth_ID (snd e)) ` set entries \<and>
   (\<forall>x\<in>set (groupAuthFiles entries).
      (Disabled x \<longleftrightarrow> (\<forall>e\<in>set entries. auth_ID (snd e) = auth_ID x \<longrightarrow> Disabled (snd e))) \<and>
      sorted (sourceIDs x) \<and>
      set (sourceIDs x) = fst ` {e \<in> set entries. auth_ID (snd e) = auth_ID x} \<and>
      (\<exists>e\<in>set entries. auth_ID (snd e) = auth_ID x \<and> AccessToken x = AccessToken (snd e) \<and>
         RefreshToken x = RefreshToken (snd e) \<and> (Disabled (snd e) \<longrightarrow> Disabled x)))"
proof (intro conjI ballI)
  show "sorted_wrt (<) (map auth_ID (groupAuthFiles entries))"
    by (simp add: strict_sorted_iff)
  show "auth_ID ` set (groupAuthFiles entries) = (\<lambda>e. auth_ID (snd e)) ` set entries"
    using group_ids [of entries] by (metis set_map set_remdups set_sort image_set)
next
  fix x assume "x \<in> set (groupAuthFiles entries)"
  then obtain g where g: "g \<noteq> []" "x = group_auth g" "sorted (map fst g)"
    and mem: "\<And>e. e \<in> set g \<longleftrightarrow> e \<in> set entries \<and> auth_ID (snd e) = auth_ID x"
    by (rule groupAuthFiles_in) blast
  show "Disabled x \<longleftrightarrow> (\<forall>e\<in>set entries. auth_ID (snd e) = auth_ID x \<longrightarrow> Disabled (snd e))"
    using mem by (simp add: g(2) list_all_iff) blast
  show "sorted (sourceIDs x)"
    using g(3) by (simp add: g(2))
  show "set (sourceIDs x) = fst ` {e \<in> set entries. auth_ID (snd e) = auth_ID x}"
    using mem by (simp add: g(2)) blast
  show "\<exists>e\<in>set entries. auth_ID (snd e) = auth_ID x \<and> AccessToken x = AccessToken (snd e) \<and>
         RefreshToken x = RefreshToken (snd e) \<and> (Disabled (snd e) \<longrightarrow> Disabled x)"
    using group_auth_from [OF g(1)] mem unfolding g(2) [symmetric] by blast
qed

theorem groupAuthFiles_spec_witness:
  "let es = [(''b.json'', demo_auth ''1'' ''b.json'' False), (''a.json'', demo_auth ''1'' ''a.json'' True)]
   in auth_ID ` set (groupAuthFiles es) = {''account:1''} \<and> (\<forall>x\<in>set (groupAuthFiles es). \<not> Disabled x)"
proof -
  have ID: "stableAuthID ''1'' p = ''account:1''" for p
    by (simp add: stableAuthID_def trim_space_plain plain_char_def)
  define es where
    "es = [(''b.json'', demo_auth ''1'' ''b.json'' False), (''a.json'', demo_auth ''1'' ''a.json'' True)]"
  have es: "(\<lambda>e. auth_ID (snd e)) ` set es = {''account:1''}" "\<exists>e\<in>set es. \<not> Disabled (snd e)"
    "\<forall>e\<in>set es. auth_ID (snd e) = ''account:1''"
    by (simp_all add: es_def demo_auth_def ID)
  have ids: "auth_ID ` set (groupAuthFiles es) = {''account:1''}"
    and dis: "\<forall>x\<in>set (groupAuthFiles es).
      Disabled x \<longleftrightarrow> (\<forall>e\<in>set es. auth_ID (snd e) = auth_ID x \<longrightarrow> Disabled (snd e))"
    using groupAuthFiles_spec [of es] es(1) by auto
  have "\<not> Disabled x" if "x \<in> set (groupAuthFiles es)" for x
    using that ids dis es(2,3) by (metis image_eqI singletonD)
  with ids show ?thesis by (simp add: es_def Let_def)
qed

text \<open>
  a rescan of an unchanged directory at the same instant reports no change and the same active
  accounts, whatever parses, fails or is being tolerated.
\<close>

theorem rescan_is_quiet:
  assumes "distinct (map we_relative ws)"
    and "reconcile lib now g ws WalkDone s = (Inr r, s')"
    and "reconcile lib now g ws WalkDone s' = (Inr r', s'')"
  shows "Changes r' = [] \<and> Auths r' = Auths r \<and> Active r' = Active r"
proof -
  note one = reconcile_parts [OF assms(2,1)] and two = reconcile_parts [OF assms(3,1)]
  have st: "file_state lib now (store_files s') w = file_state lib now (store_files s) w" if "w \<in> set ws" for w
    using one(5) [OF that]
    by (cases "map_of (store_files s) (we_relative w)") (auto simp: file_state_def split: auth_read.splits)
  have "map (file_entry lib now gr (store_files s')) ws = map (file_entry lib now gr (store_files s)) ws" for gr
    by (simp add: file_entry_def st)
  with one(1) two(1) have same: "Auths r' = Auths r" by simp
  then show ?thesis
    using one(2,4) two(2,3) by (simp add: reconcile_same)
qed

theorem rescan_is_quiet_witness:
  "\<exists>r s' r' s''. reconcile demo_lib 7 0 [demo_broken] WalkDone NewFileAuthStore = (Inr r, s') \<and>
     reconcile demo_lib 7 0 [demo_broken] WalkDone s' = (Inr r', s'') \<and> Changes r' = []"
proof -
  obtain r s' where one: "reconcile demo_lib 7 0 [demo_broken] WalkDone NewFileAuthStore = (Inr r, s')"
    using reconcile_done by blast
  obtain r' s'' where two: "reconcile demo_lib 7 0 [demo_broken] WalkDone s' = (Inr r', s'')"
    using reconcile_done by blast
  show ?thesis
    using rescan_is_quiet [OF _ one two] one two by fastforce
qed

text \<open>
  C38: the grace period. A file that parsed before and fails to parse at scan time \<open>t0\<close>, and at every
  later scan, keeps contributing its account at scan time \<open>t\<close> exactly while \<open>t\<close> is before \<open>t0\<close> plus
  the grace period, however many scans lie between.
\<close>

theorem parse_error_grace_window:
  assumes "failing lib w" "t0 \<noteq> 0"
    and "map_of (store_files s) (we_relative w) = Some \<lparr>state_auth = a, parseErrorSince = 0\<rparr>"
    and "\<forall>(u, ws)\<in>set ((t0, ws0) # runs). w \<in> set ws \<and> distinct (map we_relative ws)"
    and "w \<in> set ws" "distinct (map we_relative ws)"
    and "reconcile lib t g ws WalkDone (scans lib g ((t0, ws0) # runs) s) = (Inr r, s')"
  shows "(\<exists>x\<in>set (Auths r). we_relative w \<in> set (sourceIDs x)) \<longleftrightarrow> t < t0 + parse_error_grace g"
proof -
  let ?st = "\<lparr>state_auth = a, parseErrorSince = t0\<rparr>"
  obtain r0 s0 where first: "reconcile lib t0 g ws0 WalkDone s = (Inr r0, s0)" using reconcile_done by blast
  have "map_of (store_files s0) (we_relative w) = Some ?st"
    using reconcile_parts(5) [OF first, of w] assms(1,3,4) by (simp add: failing_state)
  then have "map_of (store_files (scans lib g runs s0)) (we_relative w) = Some ?st"
    by (rule scans_failing [rotated 2]) (use assms in auto)
  then have st: "map_of (store_files (scans lib g ((t0, ws0) # runs) s)) (we_relative w) = Some ?st"
    by (simp add: scans_def first)
  show ?thesis
    using entry_of_failing [OF assms(1,5,6) st, of t "parse_error_grace g"] assms(2)
    unfolding reconcile_parts(1) [OF assms(7,6)] group_sources [symmetric] by simp
qed


theorem parse_error_grace_window_witness:
  "\<exists>r s'. reconcile demo_lib 9 3 [demo_broken] WalkDone
      (scans demo_lib 3 [(7, [demo_broken])]
        \<lparr>store_files = [(''a.json'', \<lparr>state_auth = demo_auth ''1'' ''a.json'' False, parseErrorSince = 0\<rparr>)],
         store_auths = [], initialized = True\<rparr>) = (Inr r, s') \<and>
     (\<exists>x\<in>set (Auths r). ''a.json'' \<in> set (sourceIDs x))"
proof -
  let ?s = "\<lparr>store_files = [(''a.json'', \<lparr>state_auth = demo_auth ''1'' ''a.json'' False, parseErrorSince = 0\<rparr>)],
         store_auths = [], initialized = True\<rparr>"
  obtain r s' where last: "reconcile demo_lib 9 3 [demo_broken] WalkDone (scans demo_lib 3 [(7, [demo_broken])] ?s) = (Inr r, s')"
    using reconcile_done by blast
  have "trim_space ''{'' = ''{''" by (rule trim_space_plain) (simp_all add: plain_char_def)
  then have fail: "failing demo_lib demo_broken"
    by (simp add: failing_def demo_broken_def demo_lib_def readAuthFile_def is_auth_file_def
        ascii_lower_def is_upper_def suffix_to_prefix)
  have "(\<exists>x\<in>set (Auths r). we_relative demo_broken \<in> set (sourceIDs x)) \<longleftrightarrow> (9::int) < 7 + parse_error_grace 3"
    by (rule parse_error_grace_window [OF fail, of 7 ?s "demo_auth ''1'' ''a.json'' False" "[demo_broken]" "[]" "[demo_broken]" 9 3 r s'])
      (use last in \<open>simp_all add: demo_broken_def\<close>)
  with last show ?thesis by (auto simp: parse_error_grace_def demo_broken_def)
qed


definition demo_codec :: "json_map \<Rightarrow> go_lib" where
  "demo_codec m = \<lparr>unmarshal_object = (\<lambda>raw. Some m), marshal_object = (\<lambda>m. ''{}''),
     base64_raw_url = (\<lambda>s. None), parse_rfc3339 = (\<lambda>s. Some (5 * second)),
     parse_http_time = (\<lambda>s. None), decode_error_object = (\<lambda>s. None), sha256_hex = id\<rparr>"

lemma demo_codec_ok: "codec_ok (demo_codec m) m"
  using trim_space_plain [of "''{}''"] by (simp add: codec_ok_def demo_codec_def plain_char_def)

lemma trim_plain_demo [simp]:
  "trim_space ''codex'' = ''codex''" "trim_space ''a'' = ''a''" "trim_space ''x'' = ''x''"
  "trim_space ''T'' = ''T''" "trim_space ''R'' = ''R''" "trim_space ''I'' = ''I''"
  by (rule trim_space_plain; simp add: plain_char_def)+

lemma demo_codec_claims [simp]:
  "tokenIdentityClaims (demo_codec m) tok = \<lparr>claim_AccountID = [], claim_Email = []\<rparr>"
  by (simp add: tokenIdentityClaims_def decodeJWTClaims_def demo_codec_def split: list.split)


text \<open>
  in the \<open>tokens\<close> file format the new expiry is not written: when the file carries a top-level
  expiry, the credential read back after a refresh has that old expiry, whatever the new one is.
\<close>

theorem cli_save_keeps_old_expiry:
  assumes "codec_ok lib (saved_metadata (refreshed a tok rt it ex d))" "auth_of_meta lib p rel meta = ReadAuth a"
    and "token_text tok" "token_text rt" "token_text it" "AccountID a \<noteq> []"
    and "codexCLI a" "timeField lib meta expiry_keys = old" "old \<noteq> 0"
  shows "\<exists>b. readAuthFile lib p rel
        (Inr (marshal_object lib (saved_metadata (refreshed a tok rt it ex d)))) = ReadAuth b \<and>
     AccessToken b = tok \<and> ExpiresAt b = old"
proof -
  have a: "a = parsed_auth lib p rel meta" "provider_ok meta" using assms(2) by (simp_all add: auth_of_meta_iff)
  have acct: "token_text (AccountID a)" using assms(6) parsed_auth_account(2) by (simp add: token_text_def a(1))
  let ?m = "saved_metadata (refreshed a tok rt it ex d)"
  note cli = saved_cli_fields [OF assms(7,3-5) acct, where ex = ex and d = d]
  have "provider_ok ?m" using a(2) cli(1,7) by (auto simp: provider_ok_def a(1) Let_def)
  moreover have "timeField lib ?m expiry_keys = old" using cli(8) assms(8) by (simp add: a(1))
  ultimately show ?thesis
    using cli assms(3,9) parsed_auth_expiry [of lib ?m]
    by (intro exI [of _ "parsed_auth lib p rel ?m"])
      (simp add: read_saved [OF assms(1)] auth_of_meta_iff token_text_def)
qed

theorem cli_save_keeps_old_expiry_witness:
  "let meta = [(''tokens'', JObj [(''access_token'', JStr ''a''), (''account_id'', JStr ''x'')]), (''expired'', JNum 10)];
       m = [(''tokens'', JObj [(''access_token'', JStr ''T''), (''account_id'', JStr ''x''),
                              (''refresh_token'', JStr ''R''), (''id_token'', JStr ''I'')]),
            (''expired'', JNum 10), (''disabled'', JBool False)];
       a = parsed_auth (demo_codec m) ''f'' ''f'' meta
   in saved_metadata (refreshed a ''T'' ''R'' ''I'' (unix_time 3600) False) = m \<and>
      (\<exists>b. readAuthFile (demo_codec m) ''f'' ''f'' (Inr ''{}'') = ReadAuth b \<and> ExpiresAt b = unix_time 10)"
proof -
  define meta where "meta = [(''tokens'', JObj [(''access_token'', JStr ''a''), (''account_id'', JStr ''x'')]), (''expired'', JNum 10)]"
  define m where "m = [(''tokens'', JObj [(''access_token'', JStr ''T''), (''account_id'', JStr ''x''),
                              (''refresh_token'', JStr ''R''), (''id_token'', JStr ''I'')]),
            (''expired'', JNum 10), (''disabled'', JBool False)]"
  define a where "a = parsed_auth (demo_codec m) ''f'' ''f'' meta"
  have fields: "AccountID a = ''x''" "Metadata a = meta" "codexCLI a" "AccessToken a = ''a''"
    by (simp_all add: a_def parsed_auth_def Let_def meta_def token_field_def mapField_def stringField.simps
        access_keys_def account_keys_def refresh_keys_def id_keys_def)
  have saved: "saved_metadata (refreshed a ''T'' ''R'' ''I'' (unix_time 3600) False) = m"
    by (simp add: saved_metadata_cli Let_def fields m_def meta_def mapField_def set_if_def set_or_delete_def
        saved_tokens_def access_keys_def account_keys_def refresh_keys_def id_keys_def)
  have read: "auth_of_meta (demo_codec m) ''f'' ''f'' meta = ReadAuth a"
    using fields(4) unfolding auth_of_meta_iff a_def [symmetric]
    by (simp add: provider_ok_def meta_def mapField_def)
  have old: "timeField (demo_codec m) meta expiry_keys = unix_time 10" "unix_time 10 \<noteq> 0"
    by (simp_all add: meta_def expiry_keys_def timeField.simps unix_time_def unix_epoch_def second_def)
  have "\<exists>b. readAuthFile (demo_codec m) ''f'' ''f''
        (Inr (marshal_object (demo_codec m) (saved_metadata (refreshed a ''T'' ''R'' ''I'' (unix_time 3600) False)))) = ReadAuth b \<and>
     AccessToken b = ''T'' \<and> ExpiresAt b = unix_time 10"
    by (rule cli_save_keeps_old_expiry [OF _ read]) (simp_all add: saved demo_codec_ok token_text_def fields old)
  then show ?thesis
    using saved
    unfolding Let_def m_def [symmetric] meta_def [symmetric] a_def [symmetric]
    by (auto simp: demo_codec_def)
qed

end
