(* ===== verification/Health_Store.thy ===== *)
theory Health_Store
  imports Store Auth_Files
begin

text \<open>
  The persistent half of the credential health state (\<open>auth_health.go\<close>): the kinds and the texts
  that may be stored, and the four operations on the table \<open>auth_health_states\<close>.
\<close>

section \<open>States\<close>

type_synonym AuthHealthKind = string

definition AuthHealthQuota :: AuthHealthKind where "AuthHealthQuota = ''quota''"
definition AuthHealthInvalidGrant :: AuthHealthKind where "AuthHealthInvalidGrant = ''invalid_grant''"
definition AuthHealthUnauthorized :: AuthHealthKind where "AuthHealthUnauthorized = ''unauthorized''"
definition AuthHealthCredentialInvalid :: AuthHealthKind where "AuthHealthCredentialInvalid = ''credential_invalid''"
definition AuthHealthTransient :: AuthHealthKind where "AuthHealthTransient = ''transient''"
definition AuthHealthModelUnsupported :: AuthHealthKind where "AuthHealthModelUnsupported = ''model_not_supported''"

lemmas kind_defs =
  AuthHealthQuota_def AuthHealthInvalidGrant_def AuthHealthUnauthorized_def
  AuthHealthCredentialInvalid_def AuthHealthTransient_def AuthHealthModelUnsupported_def

lemma kinds_distinct [simp]:
  "AuthHealthQuota \<noteq> AuthHealthInvalidGrant" "AuthHealthQuota \<noteq> AuthHealthUnauthorized"
  "AuthHealthQuota \<noteq> AuthHealthCredentialInvalid" "AuthHealthQuota \<noteq> AuthHealthTransient"
  "AuthHealthInvalidGrant \<noteq> AuthHealthQuota" "AuthHealthUnauthorized \<noteq> AuthHealthQuota"
  "AuthHealthCredentialInvalid \<noteq> AuthHealthQuota" "AuthHealthTransient \<noteq> AuthHealthQuota"
  "AuthHealthTransient \<noteq> AuthHealthInvalidGrant" "AuthHealthTransient \<noteq> AuthHealthUnauthorized"
  "AuthHealthTransient \<noteq> AuthHealthCredentialInvalid"
  "AuthHealthCredentialInvalid \<noteq> AuthHealthInvalidGrant" "AuthHealthCredentialInvalid \<noteq> AuthHealthUnauthorized"
  "AuthHealthInvalidGrant \<noteq> AuthHealthTransient" "AuthHealthUnauthorized \<noteq> AuthHealthTransient"
  by (simp_all add: kind_defs)

record AuthHealthState =
  Kind :: AuthHealthKind
  Reason :: string
  RetryAt :: time
  Authoritative :: bool
  CredentialFingerprint :: string
  StatusCode :: int
  ErrorCode :: string
  UpdatedAt :: time

record PersistedAuthHealthState =
  p_AuthID :: string
  p_Kind :: AuthHealthKind
  p_Reason :: string
  p_RetryAt :: time
  p_CredentialFingerprint :: string
  p_StatusCode :: int
  p_ErrorCode :: string
  p_UpdatedAt :: time

definition persistedAuthHealthKind :: "AuthHealthKind \<Rightarrow> bool" where
  "persistedAuthHealthKind k \<longleftrightarrow> k \<in> set [AuthHealthQuota, AuthHealthInvalidGrant, AuthHealthUnauthorized]"

definition credentialHealthKind :: "AuthHealthKind \<Rightarrow> bool" where
  "credentialHealthKind k \<longleftrightarrow>
     k = AuthHealthInvalidGrant \<or> k = AuthHealthUnauthorized \<or> k = AuthHealthCredentialInvalid"

definition safeHealthCode :: "string \<Rightarrow> string" where
  "safeHealthCode code0 =
     (let code = trim_space code0 in
      if length code > 64 then []
      else if list_all (\<lambda>c. is_alnum c \<or> c = CHR ''_'' \<or> c = CHR ''-'' \<or> c = CHR ''.'') code then code
      else [])"

definition safeHealthText :: "string \<Rightarrow> string" where
  "safeHealthText v = (let value = trim_space v in if length value > 128 then take 128 value else value)"

definition authHealthStatesEqual :: "AuthHealthState \<Rightarrow> AuthHealthState \<Rightarrow> bool" where
  "authHealthStatesEqual a b \<longleftrightarrow>
     Kind a = Kind b \<and> Reason a = Reason b \<and> RetryAt a = RetryAt b \<and>
     Authoritative a = Authoritative b \<and> CredentialFingerprint a = CredentialFingerprint b \<and>
     StatusCode a = StatusCode b \<and> ErrorCode a = ErrorCode b"

text \<open>The credential an exclusion or a credential failure belongs to.\<close>

definition authCredentialFingerprint :: "go_lib \<Rightarrow> Auth \<Rightarrow> string" where
  "authCredentialFingerprint lib a =
     sha256_hex lib (AccessToken a @ [CHR 0x00] @ RefreshToken a @ [CHR 0x00] @ IDToken a)"

definition normalizeStrings :: "string list \<Rightarrow> string list" where
  "normalizeStrings vs = collect_new (\<lambda>v. if trim_space v = [] then None else Some (trim_space v)) [] vs"

section \<open>Operations on the table\<close>

definition row_of_state :: "PersistedAuthHealthState \<Rightarrow> time \<Rightarrow> health_row" where
  "row_of_state st now =
     \<lparr>hr_kind = p_Kind st, hr_reason = safeHealthText (p_Reason st),
      hr_retry_at = (if is_zero_time (p_RetryAt st) then None else Some (formatDBTime (p_RetryAt st))),
      hr_fingerprint = trim_space (p_CredentialFingerprint st), hr_status_code = p_StatusCode st,
      hr_error_code = safeHealthCode (p_ErrorCode st),
      hr_updated_at = formatDBTime (if is_zero_time (p_UpdatedAt st) then now else p_UpdatedAt st)\<rparr>"

definition update_health :: "((string \<times> health_row) list \<Rightarrow> (string \<times> health_row) list) \<Rightarrow> user_store \<Rightarrow> user_store" where
  "update_health f = with_db (\<lambda>d. d\<lparr>health := f (health d)\<rparr>)"

definition SaveAuthHealthState :: "PersistedAuthHealthState \<Rightarrow> user_store \<Rightarrow> unit outcome" where
  "SaveAuthHealthState st s = ready s (\<lambda>s.
     let authID = trim_space (p_AuthID st) in
     if authID = [] \<or> \<not> persistedAuthHealthKind (p_Kind st) then (Inl ErrInvalidInput, s)
     else if p_Kind st = AuthHealthQuota \<and> is_zero_time (p_RetryAt st) then (Inl ErrInvalidInput, s)
     else sql (db s) ''save auth health state'' s (\<lambda>s.
       (Inr (), update_health (AList.update authID (row_of_state st (clock s))) s)))"

definition parse_optional :: "string option \<Rightarrow> time option" where
  "parse_optional t = (case t of None \<Rightarrow> Some 0 | Some x \<Rightarrow> parseDBTime x)"

fun scan_health_rows ::
  "(string \<times> health_row) list \<Rightarrow> PersistedAuthHealthState list \<Rightarrow> user_store
    \<Rightarrow> PersistedAuthHealthState list outcome" where
  "scan_health_rows [] states s = sql (db s) ''read auth health states'' s (\<lambda>s. (Inr states, s))"
| "scan_health_rows ((authID, row) # rows) states s =
     (case parse_optional (hr_retry_at row) of
        None \<Rightarrow> store_error ''parse auth health retry time'' (PlainError ''parse database time'') s
      | Some retry \<Rightarrow>
          (case parseDBTime (hr_updated_at row) of
             None \<Rightarrow> store_error ''parse auth health update time'' (PlainError ''parse database time'') s
           | Some updated \<Rightarrow>
               scan_health_rows rows
                 (states @ [\<lparr>p_AuthID = authID, p_Kind = hr_kind row, p_Reason = hr_reason row,
                            p_RetryAt = retry, p_CredentialFingerprint = hr_fingerprint row,
                            p_StatusCode = hr_status_code row, p_ErrorCode = hr_error_code row,
                            p_UpdatedAt = updated\<rparr>]) s))"

definition LoadAuthHealthStates :: "user_store \<Rightarrow> PersistedAuthHealthState list outcome" where
  "LoadAuthHealthStates s = ready s (\<lambda>s. sql (db s) ''load auth health states'' s (\<lambda>s.
     scan_health_rows (sort_key fst (health (db s))) [] s))"

definition DeleteAuthHealthState :: "string \<Rightarrow> user_store \<Rightarrow> unit outcome" where
  "DeleteAuthHealthState authID0 s = ready s (\<lambda>s.
     let authID = trim_space authID0 in
     if authID = [] then (Inl ErrInvalidInput, s)
     else sql (db s) ''delete auth health state'' s (\<lambda>s.
       (Inr (), update_health (AList.delete authID) s)))"

definition DeleteAuthHealthExceptAuthIDs :: "string list \<Rightarrow> user_store \<Rightarrow> unit outcome" where
  "DeleteAuthHealthExceptAuthIDs authIDs0 s = ready s (\<lambda>s.
     let authIDs = normalizeStrings authIDs0 in
     sql (db s) ''delete unavailable auth health states'' s (\<lambda>s.
       (Inr (), update_health
          (filter (\<lambda>r. if authIDs \<noteq> [] then fst r \<in> set authIDs else False)) s)))"

section \<open>Lemmas\<close>

lemma safeHealthCode_idem [simp]: "safeHealthCode (safeHealthCode c) = safeHealthCode c"
  by (simp add: safeHealthCode_def Let_def)

lemma update_health_simps [simp]:
  "health (db (update_health f s)) = f (health (db s))" "clock (update_health f s) = clock s"
  "failures (update_health f s) = failures s" "faults (update_health f s) = faults s"
  by (simp_all add: update_health_def)

lemma set_normalizeStrings: "set (normalizeStrings vs) = {t. t \<noteq> [] \<and> t \<in> trim_space ` set vs}"
  by (auto simp: normalizeStrings_def set_collect_new)

text \<open>Stable ids carry no surrounding space.\<close>

definition plain_id :: "string \<Rightarrow> bool" where
  "plain_id i \<longleftrightarrow> i \<noteq> [] \<and> trim_space i = i"

lemma plain_id_simps [simp]: "plain_id i \<Longrightarrow> trim_space i = i" "plain_id i \<Longrightarrow> i \<noteq> []"
  by (simp_all add: plain_id_def)

text \<open>
  \<open>health_outcome m s f\<close>: the outcome of an operation that either fails and leaves the table of \<open>s\<close>
  as it was, or succeeds and applies \<open>f\<close> to it; the clock stands still.
\<close>

definition health_outcome ::
  "'a outcome \<Rightarrow> user_store \<Rightarrow> ((string \<times> health_row) list \<Rightarrow> (string \<times> health_row) list) \<Rightarrow> bool" where
  "health_outcome m s f \<longleftrightarrow>
     (case m of
        (Inl e, s') \<Rightarrow> health (db s') = health (db s) \<and> clock s' = clock s
      | (Inr x, s') \<Rightarrow> health (db s') = f (health (db s)) \<and> clock s' = clock s)"

lemma outcome_store_error:
  "health (db s') = health (db s) \<Longrightarrow> clock s' = clock s \<Longrightarrow> health_outcome (store_error op e s') s f"
  by (cases "databaseError op (Some e) (failures s')")
    (auto simp: health_outcome_def store_error_def split: option.split)

lemma outcome_ready:
  "health_outcome (k s) s f \<Longrightarrow> health_outcome (ready s k) s f"
  by (simp add: ready_def health_outcome_def split: option.split)

lemma outcome_sql:
  assumes "\<And>s'. db s' = db s \<Longrightarrow> clock s' = clock s \<Longrightarrow> health_outcome (k s') s f"
  shows "health_outcome (sql (db s) op s k) s f"
proof -
  obtain r s' where f: "next_fault s = (r, s')" by fastforce
  show ?thesis
  proof (cases r)
    case None
    with f next_fault_keeps [OF f] assms [of s'] show ?thesis by (simp add: sql_def)
  next
    case (Some e)
    with f next_fault_keeps [OF f] show ?thesis
      by (simp add: sql_def outcome_store_error)
  qed
qed

lemma outcome_Inr: "health (db s') = f (health (db s)) \<Longrightarrow> clock s' = clock s \<Longrightarrow> health_outcome (Inr x, s') s f"
  by (simp add: health_outcome_def)

lemma outcome_Inl: "health_outcome (Inl e, s) s f"
  by (simp add: health_outcome_def)

lemma outcome_Save:
  "health_outcome (SaveAuthHealthState st s) s (AList.update (trim_space (p_AuthID st)) (row_of_state st (clock s)))"
  unfolding SaveAuthHealthState_def Let_def
  by (intro outcome_ready) (auto intro!: outcome_sql outcome_Inr outcome_Inl)

lemma outcome_Delete:
  "health_outcome (DeleteAuthHealthState i s) s (AList.delete (trim_space i))"
  unfolding DeleteAuthHealthState_def Let_def
  by (intro outcome_ready) (auto intro!: outcome_sql outcome_Inr outcome_Inl)

lemma outcome_DeleteExcept:
  "health_outcome (DeleteAuthHealthExceptAuthIDs ids s) s (filter (\<lambda>r. fst r \<in> set (normalizeStrings ids)))"
  unfolding DeleteAuthHealthExceptAuthIDs_def Let_def
  by (intro outcome_ready outcome_sql outcome_Inr) (auto intro!: filter_cong)

lemma Delete_ok_id: "DeleteAuthHealthState i s = (Inr x, s') \<Longrightarrow> trim_space i \<noteq> []"
  by (auto simp: DeleteAuthHealthState_def ready_def Let_def split: option.splits if_splits)

lemma Save_ok_kind:
  "SaveAuthHealthState st s = (Inr x, s') \<Longrightarrow> persistedAuthHealthKind (p_Kind st)"
  by (auto simp: SaveAuthHealthState_def ready_def Let_def split: option.splits if_splits)

end
