(* ===== verification/Auth_Health.thy ===== *)
theory Auth_Health
  imports Health_Store
begin

text \<open>
  The health registry (\<open>authHealthRegistry\<close> in \<open>auth_health.go\<close>): per credential a health state, the
  models it was found not to support (at most 64, the oldest evicted), and a counter of recoveries.
  Every operation runs under the registry's mutex, so a history is a sequence of operations on the
  pair of registry and store; each may meet a failing statement of the store. A Go map is an
  association list whose order is the order an iteration visits. Log lines are not modelled.
\<close>

section \<open>The registry\<close>

record authModelExclusion =
  x_Fingerprint :: string
  x_Reason :: string
  x_StatusCode :: int
  x_ErrorCode :: string
  x_UpdatedAt :: time

record authModelHealthState =
  mh_Model :: string
  mh_Reason :: string
  mh_StatusCode :: int
  mh_ErrorCode :: string
  mh_UpdatedAt :: time

type_synonym exclusions = "(string \<times> authModelExclusion) list"

record authHealthRegistry =
  states :: "(string \<times> AuthHealthState) list"
  modelExclusions :: "(string \<times> exclusions) list"
  healthyEpochs :: "(string \<times> 64 word) list"

definition newAuthHealthRegistry :: authHealthRegistry where
  "newAuthHealthRegistry = \<lparr>states = [], modelExclusions = [], healthyEpochs = []\<rparr>"

type_synonym health_sys = "authHealthRegistry \<times> user_store"

definition maxModelIdentifierBytes :: nat where "maxModelIdentifierBytes = 128"
definition maxModelExclusionsPerAuth :: nat where "maxModelExclusionsPerAuth = 64"

text \<open>\<open>strings.Trim(model, " ")\<close>\<close>

definition trim_blanks :: "string \<Rightarrow> string" where
  "trim_blanks s = rev (dropWhile (\<lambda>c. c = CHR '' '') (rev (dropWhile (\<lambda>c. c = CHR '' '') s)))"

definition model_char :: "char \<Rightarrow> bool" where
  "model_char c \<longleftrightarrow> is_alnum c \<or> c \<in> set ''-_./:@''"

definition normalizeModelIdentifier :: "string \<Rightarrow> string option" where
  "normalizeModelIdentifier model0 =
     (let model = trim_blanks model0 in
      if model = [] \<or> length model > maxModelIdentifierBytes then None
      else if list_all model_char model then Some model else None)"

definition older_exclusion :: "string \<times> authModelExclusion \<Rightarrow> string \<times> authModelExclusion \<Rightarrow> bool" where
  "older_exclusion a b \<longleftrightarrow>
     x_UpdatedAt (snd a) < x_UpdatedAt (snd b) \<or> x_UpdatedAt (snd a) = x_UpdatedAt (snd b) \<and> fst a < fst b"

definition oldestModelExclusion :: "exclusions \<Rightarrow> string" where
  "oldestModelExclusion xs = (case scan older_exclusion None xs of None \<Rightarrow> [] | Some e \<Rightarrow> fst e)"

interpretation oldest: scan_order older_exclusion fst
  by unfold_locales (auto simp: older_exclusion_def)

definition exclusions_of :: "authHealthRegistry \<Rightarrow> string \<Rightarrow> exclusions" where
  "exclusions_of r authID = (case map_of (modelExclusions r) authID of None \<Rightarrow> [] | Some xs \<Rightarrow> xs)"

definition bump_epoch :: "string \<Rightarrow> authHealthRegistry \<Rightarrow> authHealthRegistry" where
  "bump_epoch i r =
     r\<lparr>healthyEpochs := AList.update i ((case map_of (healthyEpochs r) i of None \<Rightarrow> 0 | Some n \<Rightarrow> n) + 1)
                         (healthyEpochs r)\<rparr>"

definition delete_state :: "string \<Rightarrow> authHealthRegistry \<Rightarrow> authHealthRegistry" where
  "delete_state i r = r\<lparr>states := AList.delete i (states r)\<rparr>"

text \<open>Remove the row of a state when its kind is persisted, and go on unless that fails.\<close>

definition forget_row :: "AuthHealthState \<Rightarrow> string \<Rightarrow> user_store \<Rightarrow> go_err option \<times> user_store" where
  "forget_row st i s =
     (if persistedAuthHealthKind (Kind st)
      then (case DeleteAuthHealthState i s of (Inl e, s') \<Rightarrow> (Some e, s') | (Inr _, s') \<Rightarrow> (None, s'))
      else (None, s))"

section \<open>Marking\<close>

definition preserveExistingHealthState :: "AuthHealthState \<Rightarrow> AuthHealthState \<Rightarrow> time \<Rightarrow> bool" where
  "preserveExistingHealthState existing incoming now =
     (if \<not> is_zero_time (RetryAt existing) \<and> \<not> RetryAt existing > now then False
      else
        let weaker = (Kind incoming = AuthHealthTransient \<or> Kind incoming = AuthHealthCredentialInvalid \<or>
                      Kind incoming = AuthHealthQuota \<and> \<not> Authoritative incoming)
        in if \<not> weaker then False
           else credentialHealthKind (Kind existing) \<or>
                Kind existing = AuthHealthQuota \<and> Authoritative existing)"

definition persist_state :: "AuthHealthState \<Rightarrow> bool" where
  "persist_state st \<longleftrightarrow>
     Kind st = AuthHealthQuota \<and> Authoritative st \<and> \<not> is_zero_time (RetryAt st) \<or>
     Kind st = AuthHealthInvalidGrant \<or> Kind st = AuthHealthUnauthorized"

definition persisted_of :: "string \<Rightarrow> AuthHealthState \<Rightarrow> PersistedAuthHealthState" where
  "persisted_of i st =
     \<lparr>p_AuthID = i, p_Kind = Kind st, p_Reason = Reason st, p_RetryAt = RetryAt st,
      p_CredentialFingerprint = CredentialFingerprint st, p_StatusCode = StatusCode st,
      p_ErrorCode = ErrorCode st, p_UpdatedAt = UpdatedAt st\<rparr>"

definition incoming_state :: "go_lib \<Rightarrow> Auth \<Rightarrow> AuthHealthState \<Rightarrow> time \<Rightarrow> AuthHealthState" where
  "incoming_state lib a st0 now =
     (let st = st0\<lparr>Reason := safeHealthText (Reason st0), ErrorCode := safeHealthCode (ErrorCode st0),
                   UpdatedAt := now\<rparr>
      in if credentialHealthKind (Kind st)
         then st\<lparr>CredentialFingerprint := authCredentialFingerprint lib a\<rparr> else st)"

definition MarkUnavailable ::
  "go_lib \<Rightarrow> Auth \<Rightarrow> AuthHealthState \<Rightarrow> health_sys \<Rightarrow> go_err option \<times> health_sys" where
  "MarkUnavailable lib a st0 sys =
     (case sys of (r, s) \<Rightarrow>
      if trim_space (auth_ID a) = [] then (Some ErrInvalidInput, r, s)
      else
        let now = clock s; st = incoming_state lib a st0 now; i = auth_ID a in
        if (case map_of (states r) i of
              Some previous \<Rightarrow> preserveExistingHealthState previous st now
            | None \<Rightarrow> False)
        then (None, r, s)
        else
          (case (if persist_state st then SaveAuthHealthState (persisted_of i st) s
                 else DeleteAuthHealthState i s) of
             (Inl e, s') \<Rightarrow> (Some e, r, s')
           | (Inr _, s') \<Rightarrow> (None, r\<lparr>states := AList.update i st (states r)\<rparr>, s')))"

definition clear_exclusion :: "string \<Rightarrow> string \<Rightarrow> authHealthRegistry \<Rightarrow> authHealthRegistry" where
  "clear_exclusion i model0 r =
     (case normalizeModelIdentifier model0 of
        None \<Rightarrow> r
      | Some model \<Rightarrow>
          (case map_of (modelExclusions r) i of
             None \<Rightarrow> r
           | Some xs \<Rightarrow>
               let xs' = AList.delete model xs in
               r\<lparr>modelExclusions :=
                   (if xs' = [] then AList.delete i (modelExclusions r)
                    else AList.update i xs' (modelExclusions r))\<rparr>))"

definition markHealthyLocked ::
  "Auth \<Rightarrow> string \<Rightarrow> health_sys \<Rightarrow> (go_err + bool) \<times> health_sys" where
  "markHealthyLocked a model0 sys =
     (case sys of (r, s) \<Rightarrow>
      let i = auth_ID a;
          had = map_of (states r) i;
          preserveQuota = (case had of
              Some st \<Rightarrow> Kind st = AuthHealthQuota \<and> Authoritative st \<and> RetryAt st > clock s
            | None \<Rightarrow> False)
      in (case (case had of
                  Some st \<Rightarrow> if \<not> preserveQuota then forget_row st i s else (None, s)
                | None \<Rightarrow> (None, s)) of
            (Some e, s') \<Rightarrow> (Inl e, r, s')
          | (None, s') \<Rightarrow>
              let r1 = (if \<not> preserveQuota then delete_state i r else r);
                  r2 = clear_exclusion i model0 r1
              in (Inr (had \<noteq> None \<and> \<not> preserveQuota), r2, s')))"

definition MarkHealthy :: "Auth \<Rightarrow> string \<Rightarrow> health_sys \<Rightarrow> go_err option \<times> health_sys" where
  "MarkHealthy a model sys =
     (if trim_space (auth_ID a) = [] then (Some ErrInvalidInput, sys)
      else (case markHealthyLocked a model sys of
              (Inl e, r, s) \<Rightarrow> (Some e, r, s)
            | (Inr _, r, s) \<Rightarrow> (None, bump_epoch (auth_ID a) r, s)))"

definition MarkCredentialHealthy :: "Auth \<Rightarrow> health_sys \<Rightarrow> go_err option \<times> health_sys" where
  "MarkCredentialHealthy a sys =
     (case sys of (r, s) \<Rightarrow>
      if trim_space (auth_ID a) = [] then (Some ErrInvalidInput, r, s)
      else (case map_of (states r) (auth_ID a) of
              None \<Rightarrow> (None, r, s)
            | Some st \<Rightarrow>
                if \<not> credentialHealthKind (Kind st) then (None, r, s)
                else (case forget_row st (auth_ID a) s of
                        (Some e, s') \<Rightarrow> (Some e, r, s')
                      | (None, s') \<Rightarrow> (None, bump_epoch (auth_ID a) (delete_state (auth_ID a) r), s'))))"

definition ClearCooldown :: "Auth \<Rightarrow> health_sys \<Rightarrow> (go_err + bool) \<times> health_sys" where
  "ClearCooldown a sys =
     (case sys of (r, s) \<Rightarrow>
      if trim_space (auth_ID a) = [] then (Inl ErrInvalidInput, r, s)
      else (case map_of (states r) (auth_ID a) of
              None \<Rightarrow> (Inr False, r, s)
            | Some st \<Rightarrow>
                if is_zero_time (RetryAt st) \<or> Kind st \<noteq> AuthHealthQuota \<and> Kind st \<noteq> AuthHealthTransient
                then (Inr False, r, s)
                else (case forget_row st (auth_ID a) s of
                        (Some e, s') \<Rightarrow> (Inl e, r, s')
                      | (None, s') \<Rightarrow> (Inr True, bump_epoch (auth_ID a) (delete_state (auth_ID a) r), s'))))"

definition add_exclusion :: "string \<Rightarrow> authModelExclusion \<Rightarrow> exclusions \<Rightarrow> exclusions" where
  "add_exclusion model x xs =
     (let existed = map_of xs model \<noteq> None;
          kept = (if \<not> existed \<and> length xs \<ge> maxModelExclusionsPerAuth
                  then AList.delete (oldestModelExclusion xs) xs else xs)
      in AList.update model x kept)"

definition MarkModelUnsupported ::
  "go_lib \<Rightarrow> Auth \<Rightarrow> string \<Rightarrow> int \<Rightarrow> string \<Rightarrow> health_sys \<Rightarrow> go_err option \<times> health_sys" where
  "MarkModelUnsupported lib a model0 failure_status failure_code sys =
     (if trim_space (auth_ID a) = [] then (Some ErrInvalidInput, sys)
      else (case normalizeModelIdentifier model0 of
              None \<Rightarrow> (Some ErrInvalidInput, sys)
            | Some model \<Rightarrow>
                let x = \<lparr>x_Fingerprint = authCredentialFingerprint lib a, x_Reason = ''model_not_supported'',
                         x_StatusCode = failure_status, x_ErrorCode = failure_code,
                         x_UpdatedAt = clock (snd sys)\<rparr>
                in (case markHealthyLocked a [] sys of
                      (Inl e, r, s) \<Rightarrow> (Some e, r, s)
                    | (Inr _, r, s) \<Rightarrow>
                        (None,
                         r\<lparr>modelExclusions :=
                             AList.update (auth_ID a) (add_exclusion model x (exclusions_of r (auth_ID a)))
                               (modelExclusions r)\<rparr>, s))))"

section \<open>Queries\<close>

definition State :: "authHealthRegistry \<Rightarrow> string \<Rightarrow> string \<Rightarrow> AuthHealthState option" where
  "State r authID0 model0 =
     (let authID = trim_space authID0 in
      case (case normalizeModelIdentifier model0 of
              None \<Rightarrow> None
            | Some model \<Rightarrow> map_of (exclusions_of r authID) model) of
        Some x \<Rightarrow> Some \<lparr>Kind = AuthHealthModelUnsupported, Reason = x_Reason x, RetryAt = 0,
                       Authoritative = False, CredentialFingerprint = [], StatusCode = x_StatusCode x,
                       ErrorCode = x_ErrorCode x, UpdatedAt = x_UpdatedAt x\<rparr>
      | None \<Rightarrow> map_of (states r) authID)"

definition Snapshot :: "authHealthRegistry \<Rightarrow> string \<Rightarrow> AuthHealthState option \<times> authModelHealthState list" where
  "Snapshot r authID0 =
     (let authID = trim_space authID0 in
      (map_of (states r) authID,
       sort_key mh_Model (map (\<lambda>(m, x). \<lparr>mh_Model = m, mh_Reason = x_Reason x, mh_StatusCode = x_StatusCode x,
           mh_ErrorCode = x_ErrorCode x, mh_UpdatedAt = x_UpdatedAt x\<rparr>) (exclusions_of r authID))))"

definition Blocked :: "authHealthRegistry \<Rightarrow> time \<Rightarrow> Auth \<Rightarrow> string \<Rightarrow> AuthHealthState option" where
  "Blocked r now a model =
     (case State r (auth_ID a) model of
        None \<Rightarrow> None
      | Some st \<Rightarrow> if \<not> is_zero_time (RetryAt st) \<and> \<not> RetryAt st > now then None else Some st)"

definition NearestCooldown :: "authHealthRegistry \<Rightarrow> time \<Rightarrow> Auth list \<Rightarrow> string \<Rightarrow> time \<times> bool" where
  "NearestCooldown r now auths model =
     (let nearest = fold (\<lambda>a nearest.
            (case Blocked r now a model of
               None \<Rightarrow> nearest
             | Some st \<Rightarrow>
                 if is_zero_time (RetryAt st) \<or> \<not> RetryAt st > now then nearest
                 else if is_zero_time nearest \<or> RetryAt st < nearest then RetryAt st else nearest)) auths 0
      in (nearest, \<not> is_zero_time nearest))"

definition HealthyEpoch :: "authHealthRegistry \<Rightarrow> string \<Rightarrow> 64 word" where
  "HealthyEpoch r authID = (case map_of (healthyEpochs r) (trim_space authID) of None \<Rightarrow> 0 | Some n \<Rightarrow> n)"

section \<open>Expiry, directory changes, restart\<close>

fun prune_states :: "(string \<times> AuthHealthState) list \<Rightarrow> health_sys \<Rightarrow> go_err option \<times> health_sys" where
  "prune_states [] sys = (None, sys)"
| "prune_states ((i, st) # rest) (r, s) =
     (if is_zero_time (RetryAt st) \<or> RetryAt st > clock s then prune_states rest (r, s)
      else (case forget_row st i s of
              (Some e, s') \<Rightarrow> (Some e, r, s')
            | (None, s') \<Rightarrow> prune_states rest (delete_state i r, s')))"

definition PruneExpired :: "health_sys \<Rightarrow> go_err option \<times> health_sys" where
  "PruneExpired sys = prune_states (states (fst sys)) sys"

definition authsByStableID :: "Auth list \<Rightarrow> (string \<times> Auth) list" where
  "authsByStableID auths = fold (\<lambda>a m. AList.update (auth_ID a) a m) auths []"

definition stableAuthIDs :: "Auth list \<Rightarrow> string list" where
  "stableAuthIDs auths = map auth_ID auths"

definition delete_auth :: "string \<Rightarrow> authHealthRegistry \<Rightarrow> authHealthRegistry" where
  "delete_auth i r =
     r\<lparr>states := AList.delete i (states r), modelExclusions := AList.delete i (modelExclusions r),
       healthyEpochs := AList.delete i (healthyEpochs r)\<rparr>"

definition drop_stale_exclusions :: "string \<Rightarrow> string \<Rightarrow> authHealthRegistry \<Rightarrow> authHealthRegistry" where
  "drop_stale_exclusions i fingerprint r =
     (case map_of (modelExclusions r) i of
        None \<Rightarrow> r
      | Some xs \<Rightarrow>
          if xs = [] then r
          else
            let xs' = filter (\<lambda>e. x_Fingerprint (snd e) = fingerprint) xs in
            r\<lparr>modelExclusions :=
                (if xs' = [] then AList.delete i (modelExclusions r)
                 else AList.update i xs' (modelExclusions r))\<rparr>)"

definition reconcile_change ::
  "go_lib \<Rightarrow> (string \<times> Auth) list \<Rightarrow> AuthChange \<Rightarrow> health_sys \<Rightarrow> go_err option \<times> health_sys" where
  "reconcile_change lib byID c sys =
     (case sys of (r, s) \<Rightarrow>
      let i = change_ID c in
      (case change_Kind c of
         AuthAdded \<Rightarrow> (None, r, s)
       | AuthRemoved \<Rightarrow>
           (case (case map_of (states r) i of Some st \<Rightarrow> forget_row st i s | None \<Rightarrow> (None, s)) of
              (Some e, s') \<Rightarrow> (Some e, r, s')
            | (None, s') \<Rightarrow> (None, delete_auth i r, s'))
       | AuthUpdated \<Rightarrow>
           (case map_of byID i of
              None \<Rightarrow> (None, r, s)
            | Some a \<Rightarrow>
                let fp = authCredentialFingerprint lib a;
                    stale = (case map_of (states r) i of
                        Some st \<Rightarrow> if credentialHealthKind (Kind st) \<and> CredentialFingerprint st \<noteq> fp
                                  then Some st else None
                      | None \<Rightarrow> None)
                in (case (case stale of Some st \<Rightarrow> forget_row st i s | None \<Rightarrow> (None, s)) of
                      (Some e, s') \<Rightarrow> (Some e, r, s')
                    | (None, s') \<Rightarrow>
                        let r1 = (if stale \<noteq> None then delete_state i r else r);
                            r2 = drop_stale_exclusions i fp r1
                        in (None, (if CredentialsChanged c then bump_epoch i r2 else r2), s')))))"

fun reconcile_changes ::
  "go_lib \<Rightarrow> (string \<times> Auth) list \<Rightarrow> AuthChange list \<Rightarrow> health_sys \<Rightarrow> go_err option \<times> health_sys" where
  "reconcile_changes lib byID [] sys = PruneExpired sys"
| "reconcile_changes lib byID (c # cs) sys =
     (case reconcile_change lib byID c sys of
        (Some e, sys') \<Rightarrow> (Some e, sys')
      | (None, sys') \<Rightarrow> reconcile_changes lib byID cs sys')"

definition Reconcile :: "go_lib \<Rightarrow> AuthReconcileResult \<Rightarrow> health_sys \<Rightarrow> go_err option \<times> health_sys" where
  "Reconcile lib result sys = reconcile_changes lib (authsByStableID (Auths result)) (Changes result) sys"

definition restore_keeps :: "go_lib \<Rightarrow> (string \<times> Auth) list \<Rightarrow> time \<Rightarrow> PersistedAuthHealthState \<Rightarrow> bool" where
  "restore_keeps lib byID now row \<longleftrightarrow>
     (case map_of byID (p_AuthID row) of
        None \<Rightarrow> False
      | Some a \<Rightarrow>
          \<not> ((\<not> is_zero_time (p_RetryAt row) \<and> \<not> p_RetryAt row > now) \<or>
             credentialHealthKind (p_Kind row) \<and>
               p_CredentialFingerprint row \<noteq> authCredentialFingerprint lib a))"

definition state_of_row :: "PersistedAuthHealthState \<Rightarrow> AuthHealthState" where
  "state_of_row row =
     \<lparr>Kind = p_Kind row, Reason = p_Reason row, RetryAt = p_RetryAt row,
      Authoritative = (p_Kind row = AuthHealthQuota),
      CredentialFingerprint = p_CredentialFingerprint row, StatusCode = p_StatusCode row,
      ErrorCode = p_ErrorCode row, UpdatedAt = p_UpdatedAt row\<rparr>"

fun restore_rows ::
  "go_lib \<Rightarrow> (string \<times> Auth) list \<Rightarrow> time \<Rightarrow> PersistedAuthHealthState list \<Rightarrow> (string \<times> AuthHealthState) list
    \<Rightarrow> user_store \<Rightarrow> ((string \<times> AuthHealthState) list) outcome" where
  "restore_rows lib byID now [] acc s = (Inr acc, s)"
| "restore_rows lib byID now (row # rows) acc s =
     (if restore_keeps lib byID now row
      then restore_rows lib byID now rows (AList.update (p_AuthID row) (state_of_row row) acc) s
      else (case DeleteAuthHealthState (p_AuthID row) s of
              (Inl e, s') \<Rightarrow> (Inl e, s')
            | (Inr _, s') \<Rightarrow> restore_rows lib byID now rows acc s'))"

definition Restore :: "go_lib \<Rightarrow> Auth list \<Rightarrow> health_sys \<Rightarrow> go_err option \<times> health_sys" where
  "Restore lib auths sys =
     (case sys of (r, s) \<Rightarrow>
      (case DeleteAuthHealthExceptAuthIDs (stableAuthIDs auths) s of
         (Inl e, s1) \<Rightarrow> (Some e, r, s1)
       | (Inr _, s1) \<Rightarrow>
           (case LoadAuthHealthStates s1 of
              (Inl e, s2) \<Rightarrow> (Some e, r, s2)
            | (Inr rows, s2) \<Rightarrow>
                (case restore_rows lib (authsByStableID auths) (clock s2) rows [] s2 of
                   (Inl e, s3) \<Rightarrow> (Some e, r, s3)
                 | (Inr sts, s3) \<Rightarrow>
                     (None, \<lparr>states = sts, modelExclusions = [], healthyEpochs = []\<rparr>, s3)))))"

section \<open>Memory and disk\<close>

text \<open>
  The contract between a map in memory and its copy in the store: a successful call changes one key,
  a failed one nothing. \<open>row\<close> says what the copy of a value is, \<open>None\<close> when it is kept in memory only.
\<close>

definition mirrors :: "('s \<Rightarrow> 'k \<Rightarrow> 'r option) \<Rightarrow> ('v \<Rightarrow> 'r option) \<Rightarrow> ('k \<Rightarrow> 'v option) \<Rightarrow> 's \<Rightarrow> bool" where
  "mirrors lookup row cache s \<longleftrightarrow> (\<forall>k. lookup s k = Option.bind (cache k) row)"

locale write_through =
  fixes lookup :: "'s \<Rightarrow> 'k \<Rightarrow> 'r option"
    and save :: "'k \<Rightarrow> 'v \<Rightarrow> 's \<Rightarrow> bool \<times> 's"
    and remove :: "'k \<Rightarrow> 's \<Rightarrow> bool \<times> 's"
    and row :: "'v \<Rightarrow> 'r option"
    and good :: "'k \<Rightarrow> bool"
    and fits :: "'v \<Rightarrow> 's \<Rightarrow> bool"
  assumes save_ok: "good k \<Longrightarrow> fits v s \<Longrightarrow> save k v s = (True, s') \<Longrightarrow> lookup s' = (lookup s)(k := row v)"
    and save_fail: "save k v s = (False, s') \<Longrightarrow> lookup s' = lookup s"
    and remove_ok: "good k \<Longrightarrow> remove k s = (True, s') \<Longrightarrow> lookup s' = (lookup s)(k := None)"
    and remove_fail: "remove k s = (False, s') \<Longrightarrow> lookup s' = lookup s"
begin

lemma mirror_save:
  "mirrors lookup row cache s \<Longrightarrow> good k \<Longrightarrow> fits v s \<Longrightarrow> save k v s = (True, s') \<Longrightarrow>
     mirrors lookup row (cache(k \<mapsto> v)) s'"
  by (simp add: mirrors_def save_ok)

lemma mirror_memory:
  "mirrors lookup row cache s \<Longrightarrow> good k \<Longrightarrow> row v = None \<Longrightarrow> remove k s = (True, s') \<Longrightarrow>
     mirrors lookup row (cache(k \<mapsto> v)) s'"
  by (simp add: mirrors_def remove_ok)

lemma mirror_remove:
  "mirrors lookup row cache s \<Longrightarrow> good k \<Longrightarrow> remove k s = (True, s') \<Longrightarrow>
     mirrors lookup row (cache(k := None)) s'"
  by (simp add: mirrors_def remove_ok)

lemma mirror_forget:
  "mirrors lookup row cache s \<Longrightarrow> Option.bind (cache k) row = None \<Longrightarrow>
     mirrors lookup row (cache(k := None)) s"
  by (auto simp: mirrors_def)

lemma mirror_fail:
  "mirrors lookup row cache s \<Longrightarrow> save k v s = (False, s') \<or> remove k s = (False, s') \<Longrightarrow>
     mirrors lookup row cache s'"
  using save_fail remove_fail by (auto simp: mirrors_def)

end

definition health_lookup :: "user_store \<Rightarrow> string \<Rightarrow> health_row option" where
  "health_lookup s = map_of (health (db s))"

definition succeeded :: "'a outcome \<Rightarrow> bool \<times> user_store" where
  "succeeded m = (case m of (Inl e, s) \<Rightarrow> (False, s) | (Inr x, s) \<Rightarrow> (True, s))"

definition disk_row :: "AuthHealthState \<Rightarrow> health_row option" where
  "disk_row st = (if persist_state st then Some (row_of_state (persisted_of [] st) 0) else None)"

lemma succeeded_simps:
  "succeeded m = (True, s') \<longleftrightarrow> (\<exists>x. m = (Inr x, s'))" "succeeded m = (False, s') \<longleftrightarrow> (\<exists>e. m = (Inl e, s'))"
  by (auto simp: succeeded_def split: prod.splits sum.splits)

lemma row_of_persisted:
  "UpdatedAt st = now \<Longrightarrow> row_of_state (persisted_of i st) now = row_of_state (persisted_of [] st) 0"
  by (simp add: row_of_state_def persisted_of_def)

interpretation health_mirror: write_through health_lookup
  "\<lambda>i st s. succeeded (SaveAuthHealthState (persisted_of i st) s)"
  "\<lambda>i s. succeeded (DeleteAuthHealthState i s)" disk_row plain_id
  "\<lambda>st s. persist_state st \<and> UpdatedAt st = clock s"
proof
  fix k v s s'
  show "plain_id k \<Longrightarrow> persist_state v \<and> UpdatedAt v = clock s \<Longrightarrow>
      succeeded (SaveAuthHealthState (persisted_of k v) s) = (True, s') \<Longrightarrow>
      health_lookup s' = (health_lookup s)(k := disk_row v)"
    using outcome_Save [of "persisted_of k v" s]
    by (auto simp: succeeded_simps health_outcome_def health_lookup_def disk_row_def row_of_persisted
        persisted_of_def [of k] update_conv') (simp add: persisted_of_def row_of_state_def)
  show "succeeded (SaveAuthHealthState (persisted_of k v) s) = (False, s') \<Longrightarrow> health_lookup s' = health_lookup s"
    using outcome_Save [of "persisted_of k v" s]
    by (auto simp: succeeded_simps health_outcome_def health_lookup_def)
  show "plain_id k \<Longrightarrow> succeeded (DeleteAuthHealthState k s) = (True, s') \<Longrightarrow>
      health_lookup s' = (health_lookup s)(k := None)"
    using outcome_Delete [of k s]
    by (auto simp: succeeded_simps health_outcome_def health_lookup_def delete_conv')
  show "succeeded (DeleteAuthHealthState k s) = (False, s') \<Longrightarrow> health_lookup s' = health_lookup s"
    using outcome_Delete [of k s]
    by (auto simp: succeeded_simps health_outcome_def health_lookup_def)
qed

text \<open>The registry and the table agree: exactly the durable states are on disk, as they are in memory.\<close>

definition agree :: "health_sys \<Rightarrow> bool" where
  "agree sys \<longleftrightarrow> (case sys of (r, s) \<Rightarrow>
     mirrors health_lookup disk_row (map_of (states r)) s \<and> (\<forall>i\<in>fst ` set (states r). plain_id i))"

lemma agree_cong: "agree (r, s) \<Longrightarrow> states r' = states r \<Longrightarrow> agree (r', s)"
  by (simp add: agree_def)

lemma states_simps [simp]:
  "states (bump_epoch i r) = states r" "states (clear_exclusion i m r) = states r" "states (delete_state i r) = AList.delete i (states r)"
  "states (drop_stale_exclusions i fp r) = states r" "states (delete_auth i r) = AList.delete i (states r)"
  by (simp_all add: bump_epoch_def clear_exclusion_def delete_state_def drop_stale_exclusions_def delete_auth_def Let_def
      split: option.split)

lemma agree_state_id: "agree (r, s) \<Longrightarrow> map_of (states r) i = Some st \<Longrightarrow> plain_id i"
  by (force simp: agree_def dest: map_of_SomeD)

lemma persist_kind: "persist_state st \<Longrightarrow> persistedAuthHealthKind (Kind st)"
  by (auto simp: persist_state_def persistedAuthHealthKind_def)

lemma agree_forget:
  assumes "agree (r, s)" "map_of (states r) i = Some st" "forget_row st i s = (res, s')"
  shows "agree (if res = None then delete_state i r else r, s')" "clock s' = clock s"
proof -
  have i: "plain_id i" by (rule agree_state_id [OF assms(1,2)])
  have m: "mirrors health_lookup disk_row (map_of (states r)) s" using assms(1) by (simp add: agree_def)
  have del: "map_of (AList.delete i (states r)) = (map_of (states r))(i := None)" by (rule delete_conv')
  show "clock s' = clock s"
    using assms(3) outcome_Delete [of i s]
    by (auto simp: forget_row_def health_outcome_def split: if_splits prod.splits sum.splits)
  have "mirrors health_lookup disk_row (map_of (states (if res = None then delete_state i r else r))) s'"
  proof (cases "persistedAuthHealthKind (Kind st)")
    case False
    then have "disk_row st = None" using persist_kind by (auto simp: disk_row_def)
    with health_mirror.mirror_forget [OF m, of i] False assms(2,3) show ?thesis
      by (auto simp: forget_row_def del)
  next
    case True
    show ?thesis
    proof (cases res)
      case None
      then have "succeeded (DeleteAuthHealthState i s) = (True, s')"
        using assms(3) True by (auto simp: forget_row_def succeeded_simps split: prod.splits sum.splits)
      with health_mirror.mirror_remove [OF m i] None show ?thesis by (simp add: del)
    next
      case (Some e)
      then have "succeeded (DeleteAuthHealthState i s) = (False, s')"
        using assms(3) True by (auto simp: forget_row_def succeeded_simps split: prod.splits sum.splits)
      with health_mirror.mirror_fail [OF m, of i] Some show ?thesis by auto
    qed
  qed
  then show "agree (if res = None then delete_state i r else r, s')"
    using assms(1) by (auto simp: agree_def AList.delete_eq)
qed


lemma keys_update: "\<forall>x\<in>set al. P (fst x) \<Longrightarrow> P k \<Longrightarrow> \<forall>x\<in>set (AList.update k v al). P (fst x)"
  by (induction al) auto

lemma agree_MarkUnavailable:
  assumes "agree (r, s)" "plain_id (auth_ID a)" "MarkUnavailable lib a st0 (r, s) = (res, r', s')"
  shows "agree (r', s')"
proof -
  define st where "st = incoming_state lib a st0 (clock s)"
  let ?i = "auth_ID a"
  have m: "mirrors health_lookup disk_row (map_of (states r)) s" and ids: "\<forall>i\<in>fst ` set (states r). plain_id i"
    using assms(1) by (simp_all add: agree_def)
  have at: "UpdatedAt st = clock s" by (simp add: st_def incoming_state_def Let_def)
  define m1 where "m1 = (if persist_state st then SaveAuthHealthState (persisted_of ?i st) s
                 else DeleteAuthHealthState ?i s)"
  consider (skip) "r' = r" "s' = s"
    | (fail) e where "m1 = (Inl e, s')" "r' = r"
    | (ok) x where "m1 = (Inr x, s')" "r' = r\<lparr>states := AList.update ?i st (states r)\<rparr>"
    using assms(3) unfolding MarkUnavailable_def Let_def st_def m1_def
    by (auto split: if_splits prod.splits sum.splits)
  then show ?thesis
  proof cases
    case skip with assms(1) show ?thesis by simp
  next
    case (fail e)
    then have "succeeded (SaveAuthHealthState (persisted_of ?i st) s) = (False, s') \<or>
        succeeded (DeleteAuthHealthState ?i s) = (False, s')"
      by (auto simp: m1_def succeeded_simps split: if_splits)
    then have "mirrors health_lookup disk_row (map_of (states r)) s'"
      by (rule health_mirror.mirror_fail [OF m])
    with fail(2) ids show ?thesis by (simp add: agree_def)
  next
    case (ok x)
    have "mirrors health_lookup disk_row ((map_of (states r))(?i \<mapsto> st)) s'"
    proof (cases "persist_state st")
      case True
      then show ?thesis
        using health_mirror.mirror_save [OF m assms(2)] ok(1) at by (auto simp: m1_def succeeded_simps)
    next
      case False
      then have "disk_row st = None" by (simp add: disk_row_def)
      then show ?thesis
        using health_mirror.mirror_memory [OF m assms(2)] ok(1) False by (auto simp: m1_def succeeded_simps)
    qed
    then show ?thesis
      using ids assms(2) by (simp add: agree_def ok(2) update_conv' keys_update)
  qed
qed

lemma agree_markHealthyLocked:
  assumes "agree (r, s)" "markHealthyLocked a model (r, s) = (res, r', s')"
  shows "agree (r', s')" "clock s' = clock s"
proof -
  let ?i = "auth_ID a"
  define keep where "keep = (case map_of (states r) ?i of
              Some st \<Rightarrow> Kind st = AuthHealthQuota \<and> Authoritative st \<and> RetryAt st > clock s
            | None \<Rightarrow> False)"
  define f where "f = (case map_of (states r) ?i of
      Some st \<Rightarrow> if \<not> keep then forget_row st ?i s else (None, s) | None \<Rightarrow> (None, s))"
  obtain e s1 where f1: "f = (e, s1)" by fastforce
  have base: "agree (if e = None \<and> \<not> keep then delete_state ?i r else r, s1) \<and> clock s1 = clock s"
  proof (cases "map_of (states r) ?i")
    case None
    then have "AList.delete ?i (states r) = states r"
      by (simp add: map_of_eq_None_iff)
    with None f1 assms(1) show ?thesis
      using agree_cong [OF assms(1), of "delete_state ?i r"] by (auto simp: f_def)
  next
    case (Some st)
    with f1 agree_forget [OF assms(1) Some, of e s1] assms(1) show ?thesis
      by (auto simp: f_def split: if_splits)
  qed
  have "s' = s1 \<and> states r' = states (if e = None \<and> \<not> keep then delete_state ?i r else r)"
    using assms(2) f1 unfolding markHealthyLocked_def f_def keep_def
    by (auto simp: Let_def split: option.splits if_splits)
  with base show "agree (r', s')" "clock s' = clock s"
    using agree_cong by auto
qed

lemma agree_prune:
  assumes "agree (r, s)" "set sts \<subseteq> set (states r)" "keys_distinct (states r)" "distinct (map fst sts)"
    and "prune_states sts (r, s) = (res, r', s')"
  shows "agree (r', s')"
  using assms
proof (induction sts arbitrary: r s)
  case (Cons e sts)
  obtain i st where e: "e = (i, st)" by fastforce
  show ?case
  proof (cases "is_zero_time (RetryAt st) \<or> RetryAt st > clock s")
    case True
    with Cons e show ?thesis by auto
  next
    case False
    have st: "map_of (states r) i = Some st" using Cons.prems(2,3) e by simp
    obtain q s1 where f: "forget_row st i s = (q, s1)" by fastforce
    note a = agree_forget [OF Cons.prems(1) st f]
    show ?thesis
    proof (cases q)
      case None
      have "set sts \<subseteq> set (states (delete_state i r))"
        using Cons.prems(2,4) e by (force simp: AList.delete_eq)
      then show ?thesis
        using Cons.IH [of "delete_state i r" s1] a(1) None Cons.prems e False f
        by (simp add: distinct_delete)
    qed (use a(1) Cons.prems(5) e False f in simp)
  qed
qed simp


text \<open>A history of the registry: its operations in any order, directory changes and the passing of time.\<close>

datatype health_op =
    HMarkUnavailable Auth AuthHealthState
  | HMarkHealthy Auth string
  | HMarkCredentialHealthy Auth
  | HClearCooldown Auth
  | HMarkModelUnsupported Auth string int string
  | HPruneExpired
  | HReconcile AuthReconcileResult
  | HAdvance time

fun health_step :: "go_lib \<Rightarrow> health_op \<Rightarrow> health_sys \<Rightarrow> health_sys" where
  "health_step lib (HMarkUnavailable a st) sys = snd (MarkUnavailable lib a st sys)"
| "health_step lib (HMarkHealthy a m) sys = snd (MarkHealthy a m sys)"
| "health_step lib (HMarkCredentialHealthy a) sys = snd (MarkCredentialHealthy a sys)"
| "health_step lib (HClearCooldown a) sys = snd (ClearCooldown a sys)"
| "health_step lib (HMarkModelUnsupported a m st c) sys = snd (MarkModelUnsupported lib a m st c sys)"
| "health_step lib HPruneExpired sys = snd (PruneExpired sys)"
| "health_step lib (HReconcile result) sys = snd (Reconcile lib result sys)"
| "health_step lib (HAdvance t) (r, s) = (r, s\<lparr>clock := t\<rparr>)"

definition health_run :: "go_lib \<Rightarrow> health_op list \<Rightarrow> health_sys \<Rightarrow> health_sys" where
  "health_run lib ops sys = fold (health_step lib) ops sys"

text \<open>The ids an operation is called with are stable ids, which carry no surrounding space.\<close>

fun op_ids :: "health_op \<Rightarrow> string list" where
  "op_ids (HMarkUnavailable a st) = [auth_ID a]"
| "op_ids (HMarkHealthy a m) = [auth_ID a]"
| "op_ids (HMarkCredentialHealthy a) = [auth_ID a]"
| "op_ids (HClearCooldown a) = [auth_ID a]"
| "op_ids (HMarkModelUnsupported a m st c) = [auth_ID a]"
| "op_ids HPruneExpired = []"
| "op_ids (HReconcile result) = []"
| "op_ids (HAdvance t) = []"

definition health_inv :: "health_sys \<Rightarrow> bool" where
  "health_inv sys \<longleftrightarrow> agree sys \<and> keys_distinct (states (fst sys))"

lemma inv_forget:
  assumes "health_inv (r, s)" "map_of (states r) i = Some st" "forget_row st i s = (res, s')"
  shows "health_inv (if res = None then delete_state i r else r, s')" "health_inv (r, s') \<or> res = None"
  using agree_forget [OF _ assms(2,3)] assms(1) by (auto simp: health_inv_def distinct_delete split: if_splits)

lemma inv_cong: "health_inv (r, s) \<Longrightarrow> states r' = states r \<Longrightarrow> health_inv (r', s)"
  using agree_cong [of r s r'] by (simp add: health_inv_def)

lemma states_MarkHealthy_distinct:
  assumes "keys_distinct (states r)" "markHealthyLocked a model (r, s) = (res, r', s')"
  shows "keys_distinct (states r')"
proof -
  have "states r' = states r \<or> states r' = AList.delete (auth_ID a) (states r)"
    using assms(2) unfolding markHealthyLocked_def
    by (auto simp: Let_def split: option.splits if_splits prod.splits)
  with assms(1) show ?thesis by (auto simp: distinct_delete)
qed

lemma inv_markHealthyLocked:
  "health_inv (r, s) \<Longrightarrow> markHealthyLocked a model (r, s) = (res, r', s') \<Longrightarrow> health_inv (r', s')"
  using agree_markHealthyLocked(1) states_MarkHealthy_distinct by (auto simp: health_inv_def)

lemma inv_MarkUnavailable:
  assumes "health_inv (r, s)" "plain_id (auth_ID a)" "MarkUnavailable lib a st0 (r, s) = (res, r', s')"
  shows "health_inv (r', s')"
proof -
  have "states r' = states r \<or> (\<exists>st. states r' = AList.update (auth_ID a) st (states r))"
    using assms(3) unfolding MarkUnavailable_def Let_def by (auto split: if_splits prod.splits sum.splits)
  with agree_MarkUnavailable [OF _ assms(2,3)] assms(1) show ?thesis
    by (auto simp: health_inv_def distinct_update)
qed

lemma inv_prune:
  assumes "health_inv (r, s)" "PruneExpired (r, s) = (res, r', s')"
  shows "health_inv (r', s')"
proof -
  have "keys_distinct (states r')" if "keys_distinct (states r)" "prune_states sts (r, s) = (res, r', s')" for sts r s
    using that
    by (induction sts "(r, s)" arbitrary: r s rule: prune_states.induct)
      (auto simp: distinct_delete split: if_splits prod.splits option.splits)
  then show ?thesis
    using assms agree_prune [of r s "states r"] by (auto simp: health_inv_def PruneExpired_def)
qed

lemma inv_delete_auth:
  assumes "health_inv (r, s)" "map_of (states r) i = None"
  shows "health_inv (delete_auth i r, s)"
  using assms inv_cong [of r s "delete_auth i r"] by (simp add: map_of_eq_None_iff)

lemma inv_reconcile_change:
  assumes "health_inv (r, s)" "reconcile_change lib byID c (r, s) = (res, r', s')"
  shows "health_inv (r', s')"
proof (cases "change_Kind c")
  case AuthAdded
  with assms show ?thesis by (simp add: reconcile_change_def)
next
  case AuthRemoved
  show ?thesis
  proof (cases "map_of (states r) (change_ID c)")
    case None
    with AuthRemoved assms inv_delete_auth [OF assms(1) None] show ?thesis
      by (simp add: reconcile_change_def)
  next
    case (Some st)
    obtain q s1 where f: "forget_row st (change_ID c) s = (q, s1)" by fastforce
    note i = inv_forget(1) [OF assms(1) Some f]
    have "states (delete_auth (change_ID c) r) = states (delete_state (change_ID c) r)" by simp
    with i inv_cong show ?thesis
      using AuthRemoved assms(2) Some f by (auto simp: reconcile_change_def split: option.splits if_splits)
  qed
next
  case AuthUpdated
  let ?i = "change_ID c"
  show ?thesis
  proof (cases "map_of byID ?i")
    case None
    with AuthUpdated assms show ?thesis by (simp add: reconcile_change_def)
  next
    case (Some a)
    define stale where "stale = (case map_of (states r) ?i of
        Some st \<Rightarrow> if credentialHealthKind (Kind st) \<and> CredentialFingerprint st \<noteq> authCredentialFingerprint lib a
                   then Some st else None | None \<Rightarrow> None)"
    obtain q s1 where f: "(case stale of Some st \<Rightarrow> forget_row st ?i s | None \<Rightarrow> (None, s)) = (q, s1)" by fastforce
    have base: "health_inv (if q = None \<and> stale \<noteq> None then delete_state ?i r else r, s1)"
    proof (cases stale)
      case None
      with f assms(1) show ?thesis by simp
    next
      case (Some st)
      then have "map_of (states r) ?i = Some st" by (auto simp: stale_def split: option.splits if_splits)
      from inv_forget(1) [OF assms(1) this, of q s1] f Some show ?thesis by simp
    qed
    have "s' = s1 \<and> states r' = states (if q = None \<and> stale \<noteq> None then delete_state ?i r else r)"
      using assms(2) AuthUpdated Some f
      unfolding reconcile_change_def stale_def [symmetric, unfolded option.case_eq_if] Let_def
      by (auto simp: stale_def split: option.splits if_splits)
    with base inv_cong show ?thesis by auto
  qed
qed


lemma inv_reconcile_changes:
  "health_inv sys \<Longrightarrow> health_inv (snd (reconcile_changes lib byID cs sys))"
proof (induction lib byID cs sys rule: reconcile_changes.induct)
  case (1 lib byID sys)
  then show ?case
    using inv_prune by (cases sys; cases "PruneExpired sys") auto
next
  case (2 lib byID c cs sys)
  obtain r s where sys: "sys = (r, s)" by fastforce
  obtain q r' s' where step: "reconcile_change lib byID c (r, s) = (q, r', s')" by (metis prod_cases3)
  have inv: "health_inv (r', s')" using inv_reconcile_change [OF _ step] "2.prems" sys by simp
  show ?case
  proof (cases q)
    case None
    with 2(1) [of q "(r', s')"] step sys inv show ?thesis by simp
  qed (simp add: sys step inv)
qed

lemma inv_locked_cases:
  assumes "health_inv (r, s)" "markHealthyLocked a model (r, s) = (res, r', s')" "states r'' = states r'"
  shows "health_inv (r'', s')"
  using inv_markHealthyLocked [OF assms(1,2)] inv_cong assms(3) by blast

lemma inv_clear:
  assumes "health_inv (r, s)" "map_of (states r) i = Some st" "forget_row st i s = (res, s')"
  shows "res = None \<Longrightarrow> health_inv (bump_epoch i (delete_state i r), s')" "res \<noteq> None \<Longrightarrow> health_inv (r, s')"
  using inv_forget(1) [OF assms] inv_cong [of "delete_state i r" s' "bump_epoch i (delete_state i r)"]
  by auto

lemma inv_step:
  assumes "health_inv sys" "\<forall>i\<in>set (op_ids op). plain_id i"
  shows "health_inv (health_step lib op sys)"
proof -
  obtain r s where sys: "sys = (r, s)" by fastforce
  note inv = assms(1) [unfolded sys]
  show ?thesis
  proof (cases op)
    case (HMarkUnavailable a st)
    then show ?thesis
      using inv_MarkUnavailable [OF inv, of a lib st] assms(2) sys
      by (cases "MarkUnavailable lib a st (r, s)") auto
  next
    case (HMarkHealthy a m)
    then show ?thesis
      using inv_locked_cases [OF inv, of a m] inv
      by (auto simp: sys MarkHealthy_def split: prod.split sum.split)
  next
    case (HMarkCredentialHealthy a)
    then show ?thesis
      using inv_clear [OF inv, of "auth_ID a"] inv
      by (auto simp: sys MarkCredentialHealthy_def split: prod.split option.split)
  next
    case (HClearCooldown a)
    then show ?thesis
      using inv_clear [OF inv, of "auth_ID a"] inv
      by (auto simp: sys ClearCooldown_def split: prod.split option.split)
  next
    case (HMarkModelUnsupported a m st c)
    then show ?thesis
      using inv_locked_cases [OF inv, of a "[]"] inv
      by (auto simp: sys MarkModelUnsupported_def Let_def split: prod.split sum.split option.split)
  next
    case HPruneExpired
    then show ?thesis using inv_prune [OF inv] by (cases "PruneExpired (r, s)") (auto simp: sys)
  next
    case (HReconcile result)
    then show ?thesis using inv_reconcile_changes [OF inv] by (simp add: sys Reconcile_def)
  next
    case (HAdvance t)
    then show ?thesis
      using inv by (simp add: sys health_inv_def agree_def mirrors_def health_lookup_def)
  qed
qed

lemma inv_run: "health_inv sys \<Longrightarrow> \<forall>op\<in>set ops. \<forall>i\<in>set (op_ids op). plain_id i \<Longrightarrow>
    health_inv (health_run lib ops sys)"
  unfolding health_run_def
proof (induction ops arbitrary: sys)
  case (Cons op ops)
  from Cons.IH [OF inv_step [OF Cons.prems(1), of op lib]] Cons.prems(2) show ?case by simp
qed simp

section \<open>The bound on excluded models\<close>

definition exclusions_ok :: "authHealthRegistry \<Rightarrow> bool" where
  "exclusions_ok r \<longleftrightarrow> (\<forall>(i, xs)\<in>set (modelExclusions r).
     xs \<noteq> [] \<and> keys_distinct xs \<and> length xs \<le> maxModelExclusionsPerAuth) \<and> keys_distinct (modelExclusions r)"

lemma length_update: "length (AList.update k v al) = (if k \<in> fst ` set al then length al else Suc (length al))"
  by (induction al) (auto simp: image_iff)

lemma length_delete_key: "k \<in> fst ` set al \<Longrightarrow> length (AList.delete k al) < length al"
  unfolding AList.delete_eq by (auto intro!: length_filter_less)

lemma oldest_mem: "xs \<noteq> [] \<Longrightarrow> oldestModelExclusion xs \<in> fst ` set xs"
  using scan_None_iff [of older_exclusion xs] scan_mem [of older_exclusion None xs]
  by (auto simp: oldestModelExclusion_def split: option.split)

lemma add_exclusion_ok:
  assumes "keys_distinct xs" "length xs \<le> maxModelExclusionsPerAuth"
  shows "keys_distinct (add_exclusion m x xs)" "length (add_exclusion m x xs) \<le> maxModelExclusionsPerAuth"
    "add_exclusion m x xs \<noteq> []"
proof -
  show "keys_distinct (add_exclusion m x xs)"
    using assms(1) by (simp add: add_exclusion_def distinct_update distinct_delete Let_def)
  show "add_exclusion m x xs \<noteq> []"
    by (auto simp: add_exclusion_def Let_def dest!: arg_cong [of _ _ length])
  show "length (add_exclusion m x xs) \<le> maxModelExclusionsPerAuth"
  proof (cases "map_of xs m = None \<and> length xs \<ge> maxModelExclusionsPerAuth")
    case True
    then have "xs \<noteq> []" by (auto simp: maxModelExclusionsPerAuth_def)
    then have "length (AList.delete (oldestModelExclusion xs) xs) < length xs"
      by (intro length_delete_key oldest_mem)
    then show ?thesis using True assms(2) by (simp add: add_exclusion_def length_update Let_def)
  next
    case False
    then show ?thesis
      using assms(2) by (auto simp: add_exclusion_def length_update Let_def map_of_eq_None_iff)
  qed
qed

lemma exclusions_cong: "exclusions_ok r \<Longrightarrow> modelExclusions r' = modelExclusions r \<Longrightarrow> exclusions_ok r'"
  by (simp add: exclusions_ok_def)

lemma set_update_subset: "set (AList.update k v al) \<subseteq> insert (k, v) (set al)"
  by (induction al) auto

lemma exclusions_update:
  assumes "exclusions_ok r" "xs \<noteq> []" "keys_distinct xs" "length xs \<le> maxModelExclusionsPerAuth"
  shows "exclusions_ok (r\<lparr>modelExclusions := AList.update i xs (modelExclusions r)\<rparr>)"
  using assms set_update_subset [of i xs "modelExclusions r"]
  by (auto simp: exclusions_ok_def distinct_update)

lemma exclusions_delete:
  "exclusions_ok r \<Longrightarrow> exclusions_ok (r\<lparr>modelExclusions := AList.delete i (modelExclusions r)\<rparr>)"
  by (auto simp: exclusions_ok_def distinct_delete AList.delete_eq)

lemma exclusions_get:
  "exclusions_ok r \<Longrightarrow> map_of (modelExclusions r) i = Some xs \<Longrightarrow>
     xs \<noteq> [] \<and> keys_distinct xs \<and> length xs \<le> maxModelExclusionsPerAuth"
  by (auto simp: exclusions_ok_def dest!: map_of_SomeD)

lemma exclusions_other [simp]:
  "modelExclusions (bump_epoch i r) = modelExclusions r" "modelExclusions (delete_state i r) = modelExclusions r"
  by (simp_all add: bump_epoch_def delete_state_def)


lemma excl_bump [simp]: "exclusions_ok (bump_epoch i r) = exclusions_ok r"
  by (simp add: exclusions_ok_def)

lemma excl_delete_state [simp]: "exclusions_ok (delete_state i r) = exclusions_ok r"
  by (simp add: exclusions_ok_def)

lemma excl_clear:
  assumes "exclusions_ok r" shows "exclusions_ok (clear_exclusion i m r)"
proof (cases "map_of (modelExclusions r) i")
  case None
  with assms show ?thesis by (simp add: clear_exclusion_def split: option.split)
next
  case (Some xs)
  note xs = exclusions_get [OF assms Some]
  have "length (AList.delete k xs) \<le> maxModelExclusionsPerAuth" for k
    using xs length_filter_le [of _ xs] le_trans unfolding AList.delete_eq by blast
  with xs Some exclusions_update [OF assms] exclusions_delete [OF assms, of i] assms show ?thesis
    by (simp add: clear_exclusion_def Let_def distinct_delete split: option.split)
qed

lemma excl_locked:
  assumes "exclusions_ok r" "markHealthyLocked a model (r, s) = (res, r', s')"
  shows "exclusions_ok r'"
proof -
  have "r' = r \<or> r' = clear_exclusion (auth_ID a) model r \<or>
      r' = clear_exclusion (auth_ID a) model (delete_state (auth_ID a) r)"
    using assms(2) unfolding markHealthyLocked_def Let_def
    by (auto split: option.splits if_splits prod.splits)
  with assms(1) show ?thesis by (auto simp: excl_clear)
qed

lemma excl_prune: "modelExclusions (fst (snd (prune_states sts sys))) = modelExclusions (fst sys)"
  by (induction sts sys rule: prune_states.induct) (auto split: prod.split option.split)

lemma excl_drop:
  assumes "exclusions_ok r" shows "exclusions_ok (drop_stale_exclusions i fp r)"
proof (cases "map_of (modelExclusions r) i")
  case None
  with assms show ?thesis by (simp add: drop_stale_exclusions_def)
next
  case (Some xs)
  let ?xs = "filter (\<lambda>e. x_Fingerprint (snd e) = fp) xs"
  note xs = exclusions_get [OF assms Some]
  have "length ?xs \<le> maxModelExclusionsPerAuth" using xs length_filter_le le_trans by blast
  with xs Some exclusions_update [OF assms, of ?xs i] exclusions_delete [OF assms, of i] show ?thesis
    by (auto simp: drop_stale_exclusions_def Let_def)
qed

lemma excl_delete_auth: "exclusions_ok r \<Longrightarrow> exclusions_ok (delete_auth i r)"
  using exclusions_cong [OF exclusions_delete [of r i], of "delete_auth i r"] by (simp add: delete_auth_def)

lemma excl_reconcile_change:
  assumes "exclusions_ok r" shows "exclusions_ok (fst (snd (reconcile_change lib byID c (r, s))))"
  using assms
  by (cases "change_Kind c")
    (simp_all add: reconcile_change_def Let_def excl_delete_auth excl_drop split: option.split prod.split)

lemma excl_reconcile_changes:
  "exclusions_ok (fst sys) \<Longrightarrow> exclusions_ok (fst (snd (reconcile_changes lib byID cs sys)))"
proof (induction lib byID cs sys rule: reconcile_changes.induct)
  case (1 lib byID sys)
  then show ?case
    using exclusions_cong [OF _ excl_prune] by (simp add: PruneExpired_def)
next
  case (2 lib byID c cs sys)
  have "exclusions_ok (fst (snd (reconcile_change lib byID c sys)))"
    using excl_reconcile_change "2.prems" by (cases sys) simp
  with 2(1) show ?case by (auto split: prod.split option.split)
qed

lemma excl_step:
  assumes "exclusions_ok (fst sys)" shows "exclusions_ok (fst (health_step lib op sys))"
proof -
  obtain r s where sys: "sys = (r, s)" by fastforce
  have ok: "exclusions_ok r" using assms sys by simp
  note cong = exclusions_cong [OF ok]
  show ?thesis
  proof (cases op)
    case (HMarkUnavailable a st)
    then show ?thesis
      using ok by (auto simp: sys MarkUnavailable_def Let_def split: prod.split sum.split intro: cong)
  next
    case (HMarkHealthy a m)
    obtain res r' s' where locked: "markHealthyLocked a m (r, s) = (res, r', s')" by (metis prod_cases3)
    with HMarkHealthy excl_locked [OF ok locked] ok show ?thesis
      by (simp add: sys MarkHealthy_def split: sum.split)
  next
    case (HMarkCredentialHealthy a)
    then show ?thesis
      using ok by (simp add: sys MarkCredentialHealthy_def split: prod.split option.split)
  next
    case (HClearCooldown a)
    then show ?thesis
      using ok by (simp add: sys ClearCooldown_def split: prod.split option.split)
  next
    case (HMarkModelUnsupported a m st c)
    obtain res r' s' where locked: "markHealthyLocked a [] (r, s) = (res, r', s')" by (metis prod_cases3)
    have ok': "exclusions_ok r'" by (rule excl_locked [OF ok locked])
    have "keys_distinct (exclusions_of r' (auth_ID a))"
      "length (exclusions_of r' (auth_ID a)) \<le> maxModelExclusionsPerAuth"
      using exclusions_get [OF ok'] by (auto simp: exclusions_of_def split: option.split)
    note added = add_exclusion_ok [OF this]
    have "exclusions_ok (r'\<lparr>modelExclusions := AList.update (auth_ID a)
        (add_exclusion k x (exclusions_of r' (auth_ID a))) (modelExclusions r')\<rparr>)" for k x
      by (rule exclusions_update [OF ok' added(3,1,2)])
    then show ?thesis
      using ok ok' HMarkModelUnsupported
      by (simp add: sys MarkModelUnsupported_def Let_def locked split: sum.split option.split)
  next
    case HPruneExpired
    then show ?thesis using cong excl_prune [of _ "(r, s)"] by (simp add: sys PruneExpired_def)
  next
    case (HReconcile result)
    then show ?thesis using excl_reconcile_changes [of "(r, s)"] ok by (simp add: sys Reconcile_def)
  next
    case (HAdvance t)
    then show ?thesis using ok by (simp add: sys)
  qed
qed

lemma excl_run: "exclusions_ok (fst sys) \<Longrightarrow> exclusions_ok (fst (health_run lib ops sys))"
  unfolding health_run_def
proof (induction ops arbitrary: sys)
  case (Cons op ops)
  from Cons.IH [OF excl_step [OF Cons.prems]] show ?case by simp
qed simp


section \<open>Restart\<close>

definition parsed_row :: "string \<times> health_row \<Rightarrow> PersistedAuthHealthState" where
  "parsed_row e =
     \<lparr>p_AuthID = fst e, p_Kind = hr_kind (snd e), p_Reason = hr_reason (snd e),
      p_RetryAt = the (parse_optional (hr_retry_at (snd e))), p_CredentialFingerprint = hr_fingerprint (snd e),
      p_StatusCode = hr_status_code (snd e), p_ErrorCode = hr_error_code (snd e),
      p_UpdatedAt = the (parseDBTime (hr_updated_at (snd e)))\<rparr>"

definition row_parses :: "health_row \<Rightarrow> bool" where
  "row_parses row \<longleftrightarrow> parse_optional (hr_retry_at row) \<noteq> None \<and> parseDBTime (hr_updated_at row) \<noteq> None"

lemma scan_rows_ok:
  "healthy_store s \<Longrightarrow> \<forall>e\<in>set rows. row_parses (snd e) \<Longrightarrow>
     scan_health_rows rows acc s = (Inr (acc @ map parsed_row rows), s)"
  by (induction rows acc s rule: scan_health_rows.induct) (auto simp: row_parses_def parsed_row_def)

lemma healthy_update [simp]: "healthy_store (update_health f s) = healthy_store s"
  by (simp add: healthy_store_def)

lemma healthy_Delete: "healthy_store s \<Longrightarrow> plain_id i \<Longrightarrow>
    DeleteAuthHealthState i s = (Inr (), update_health (AList.delete i) s)"
  by (simp add: DeleteAuthHealthState_def Let_def)

abbreviation keyed :: "PersistedAuthHealthState list \<Rightarrow> (string \<times> PersistedAuthHealthState) list" where
  "keyed rows \<equiv> map (\<lambda>row. (p_AuthID row, row)) rows"

lemma restore_rows_ok:
  assumes "healthy_store s" "\<forall>row\<in>set rows. plain_id (p_AuthID row)" "distinct (map p_AuthID rows)"
  shows "\<exists>acc' s'. restore_rows lib byID now rows acc s = (Inr acc', s') \<and>
    (\<forall>i. map_of acc' i = (case map_of (keyed rows) i of
       None \<Rightarrow> map_of acc i
     | Some row \<Rightarrow> if restore_keeps lib byID now row then Some (state_of_row row) else map_of acc i)) \<and>
    (\<forall>i. health_lookup s' i = (case map_of (keyed rows) i of
       None \<Rightarrow> health_lookup s i
     | Some row \<Rightarrow> if restore_keeps lib byID now row then health_lookup s i else None))"
  using assms
proof (induction rows arbitrary: acc s)
  case (Cons row rows)
  have new: "map_of (keyed rows) (p_AuthID row) = None"
    using Cons.prems(3) by (auto simp: map_of_eq_None_iff image_iff)
  show ?case
  proof (cases "restore_keeps lib byID now row")
    case True
    with Cons.IH [of s "AList.update (p_AuthID row) (state_of_row row) acc"] Cons.prems new show ?thesis
      by (fastforce split: option.splits)
  next
    case False
    note del = healthy_Delete [OF Cons.prems(1), of "p_AuthID row"]
    have look: "health_lookup (update_health (AList.delete (p_AuthID row)) s) i =
        (if i = p_AuthID row then None else health_lookup s i)" for i
      by (simp add: health_lookup_def)
    from False Cons.IH [of "update_health (AList.delete (p_AuthID row)) s" acc] Cons.prems new del look
    show ?thesis by (fastforce split: option.splits)
  qed
qed auto

lemma find_absent: "x \<notin> f ` set xs \<Longrightarrow> find (\<lambda>a. f a = x) xs = None"
  by (auto simp: find_None_iff)

lemma map_of_authsByStableID:
  assumes "distinct (map auth_ID auths)"
  shows "map_of (authsByStableID auths) i = find (\<lambda>a. auth_ID a = i) auths"
proof -
  have "map_of (fold (\<lambda>a m. AList.update (auth_ID a) a m) auths m) i =
      (case find (\<lambda>a. auth_ID a = i) auths of None \<Rightarrow> map_of m i | Some a \<Rightarrow> Some a)" for m
    using assms
  proof (induction auths arbitrary: m)
    case (Cons a auths)
    then show ?case
      using find_absent [of i auth_ID auths] by (cases "auth_ID a = i") (auto split: option.split)
  qed simp
  then show ?thesis by (simp add: authsByStableID_def split: option.split)
qed

text \<open>A state as the table keeps it, and the condition under which a restart applies it again.\<close>

definition normal_state :: "AuthHealthState \<Rightarrow> AuthHealthState" where
  "normal_state st =
     st\<lparr>Reason := safeHealthText (Reason st), Authoritative := (Kind st = AuthHealthQuota),
        CredentialFingerprint := trim_space (CredentialFingerprint st), ErrorCode := safeHealthCode (ErrorCode st)\<rparr>"

definition survives :: "go_lib \<Rightarrow> Auth \<Rightarrow> time \<Rightarrow> AuthHealthState \<Rightarrow> bool" where
  "survives lib a now st \<longleftrightarrow>
     persist_state st \<and> (RetryAt st = 0 \<or> now < RetryAt st) \<and>
     (credentialHealthKind (Kind st) \<longrightarrow>
        trim_space (CredentialFingerprint st) = authCredentialFingerprint lib a)"

definition storable :: "AuthHealthState \<Rightarrow> bool" where
  "storable st \<longleftrightarrow> (RetryAt st = 0 \<or> db_representable (RetryAt st)) \<and> db_representable (UpdatedAt st)"

lemma stored_row:
  assumes "storable st" "persist_state st"
  shows "row_parses (row_of_state (persisted_of [] st) 0)"
    "state_of_row (parsed_row (i, row_of_state (persisted_of [] st) 0)) = normal_state st"
    "restore_keeps lib byID now (parsed_row (i, row_of_state (persisted_of [] st) 0)) \<longleftrightarrow>
       (case map_of byID i of None \<Rightarrow> False | Some a \<Rightarrow> survives lib a now st)"
proof -
  define R where "R = row_of_state (persisted_of [] st) 0"
  have fields: "hr_kind R = Kind st" "hr_reason R = safeHealthText (Reason st)"
    "hr_fingerprint R = trim_space (CredentialFingerprint st)" "hr_status_code R = StatusCode st"
    "hr_error_code R = safeHealthCode (ErrorCode st)"
    by (simp_all add: R_def row_of_state_def persisted_of_def)
  have retry: "parse_optional (hr_retry_at R) = Some (RetryAt st)"
    using assms(1) by (auto simp: R_def row_of_state_def persisted_of_def storable_def parse_optional_def
        formatDBTime_roundtrip)
  have "hr_updated_at R = formatDBTime (UpdatedAt st)"
    by (simp add: R_def row_of_state_def persisted_of_def)
  then have updated: "parseDBTime (hr_updated_at R) = Some (UpdatedAt st)"
    using assms(1) by (simp add: storable_def formatDBTime_roundtrip)
  show "row_parses (row_of_state (persisted_of [] st) 0)"
    unfolding R_def [symmetric] by (simp add: row_parses_def retry updated)
  show "state_of_row (parsed_row (i, row_of_state (persisted_of [] st) 0)) = normal_state st"
    unfolding R_def [symmetric] by (simp add: state_of_row_def parsed_row_def fields retry updated normal_state_def)
  show "restore_keeps lib byID now (parsed_row (i, row_of_state (persisted_of [] st) 0)) \<longleftrightarrow>
       (case map_of byID i of None \<Rightarrow> False | Some a \<Rightarrow> survives lib a now st)"
    unfolding R_def [symmetric] using assms(2)
    by (auto simp: restore_keeps_def parsed_row_def fields retry updated survives_def split: option.split)
qed

end
