(* ===== verification/Health_Properties.thy ===== *)
theory Health_Properties
  imports Auth_Health "HOL-Library.Multiset"
begin

text \<open>
  What the health registry guarantees: it agrees with the table it writes through to in every
  history, with failing statements included; a restart restores exactly what was durable; the
  excluded models stay bounded; a hard cooldown outlives softer reports; the nearest cooldown is
  the earliest of those that block.
\<close>

section \<open>Lemmas\<close>

lemma map_of_sort_key: "keys_distinct al \<Longrightarrow> map_of (sort_key fst al) = map_of al"
proof -
  assume d: "keys_distinct al"
  have "mset (map fst (sort_key fst al)) = mset (map fst al)" by simp
  with d have "keys_distinct (sort_key fst al)" by (metis mset_eq_imp_distinct_iff)
  with d show ?thesis by (simp add: map_of_inject_set)
qed

lemma map_of_parsed:
  "map_of (keyed (map parsed_row rows)) i = map_option (\<lambda>row. parsed_row (i, row)) (map_of rows i)"
  by (induction rows) (auto simp: parsed_row_def)

lemma plain_normalize: "plain_id i \<Longrightarrow> i \<in> set (normalizeStrings ids) \<longleftrightarrow> i \<in> trim_space ` set ids"
  by (simp add: set_normalizeStrings)

lemma Restore_ok:
  assumes s: "healthy_store s" and d: "keys_distinct (health (db s))"
    and auths: "distinct (map auth_ID auths)" "\<forall>a\<in>set auths. plain_id (auth_ID a)"
    and rows: "\<forall>(i, row)\<in>set (health (db s)). plain_id i \<and> row_parses row"
  shows "\<exists>r' s'. Restore lib auths (r, s) = (None, r', s') \<and>
    (\<forall>i. map_of (states r') i =
       (case health_lookup s i of None \<Rightarrow> None
        | Some row \<Rightarrow> if restore_keeps lib (authsByStableID auths) (clock s) (parsed_row (i, row))
                     then Some (state_of_row (parsed_row (i, row))) else None)) \<and>
    (\<forall>i. health_lookup s' i =
       (case health_lookup s i of None \<Rightarrow> None
        | Some row \<Rightarrow> if restore_keeps lib (authsByStableID auths) (clock s) (parsed_row (i, row))
                     then Some row else None))"
proof -
  let ?byID = "authsByStableID auths"
  let ?keep = "filter (\<lambda>r. fst r \<in> set (normalizeStrings (stableAuthIDs auths)))"
  define s1 where "s1 = update_health ?keep s"
  define loaded where "loaded = sort_key fst (health (db s1))"
  have s1: "healthy_store s1" "clock s1 = clock s" "health (db s1) = ?keep (health (db s))"
    using s by (simp_all add: s1_def)
  have del: "DeleteAuthHealthExceptAuthIDs (stableAuthIDs auths) s = (Inr (), s1)"
    using s by (auto simp: DeleteAuthHealthExceptAuthIDs_def Let_def s1_def intro!: arg_cong [of _ _ "\<lambda>f. update_health f s"] filter_cong)
  have d1: "keys_distinct (health (db s1))" using d by (simp add: s1)
  have rows1: "\<forall>(i, row)\<in>set loaded. plain_id i \<and> row_parses row"
    using rows by (auto simp: loaded_def s1)
  have load: "LoadAuthHealthStates s1 = (Inr (map parsed_row loaded), s1)"
  proof -
    have "\<forall>e\<in>set loaded. row_parses (snd e)" using rows1 by auto
    from scan_rows_ok [OF s1(1) this, of "[]"] s1(1) show ?thesis
      by (simp add: LoadAuthHealthStates_def loaded_def)
  qed
  have ids: "map p_AuthID (map parsed_row loaded) = map fst loaded" by (simp add: parsed_row_def comp_def)
  have dist: "distinct (map p_AuthID (map parsed_row loaded))"
    unfolding ids using d1 by (metis loaded_def mset_eq_imp_distinct_iff mset_map mset_sort)
  have plain: "\<forall>row\<in>set (map parsed_row loaded). plain_id (p_AuthID row)"
    using rows1 by (auto simp: parsed_row_def)
  from restore_rows_ok [OF s1(1) plain dist, of lib ?byID "clock s1" "[]"] obtain acc s2 where res: "restore_rows lib ?byID (clock s1) (map parsed_row loaded) [] s1 = (Inr acc, s2)"
    and acc: "\<And>i. map_of acc i = (case map_of (keyed (map parsed_row loaded)) i of None \<Rightarrow> map_of [] i
       | Some row \<Rightarrow> if restore_keeps lib ?byID (clock s1) row then Some (state_of_row row) else map_of [] i)"
    and disk: "\<And>i. health_lookup s2 i = (case map_of (keyed (map parsed_row loaded)) i of None \<Rightarrow> health_lookup s1 i
       | Some row \<Rightarrow> if restore_keeps lib ?byID (clock s1) row then health_lookup s1 i else None)"
    by blast
  have look1: "map_of loaded i = health_lookup s1 i" for i
    using d1 by (simp add: loaded_def map_of_sort_key health_lookup_def)
  have look: "health_lookup s1 i = (case health_lookup s i of None \<Rightarrow> None
      | Some row \<Rightarrow> if i \<in> set (normalizeStrings (stableAuthIDs auths)) then Some row else None)" for i
    using map_of_filter_keys [OF d] by (simp add: health_lookup_def s1 split: option.split)
  have keep_id: "i \<in> set (normalizeStrings (stableAuthIDs auths))"
    if "restore_keeps lib ?byID (clock s) (parsed_row (i, row))" for i row
  proof -
    have "map_of ?byID i \<noteq> None"
      using that by (auto simp: restore_keeps_def parsed_row_def split: option.splits)
    then obtain a where "a \<in> set auths" "auth_ID a = i"
      using find_mem by (force simp: map_of_authsByStableID [OF auths(1)])
    moreover from this auths(2) have "i = trim_space (auth_ID a)" "i \<noteq> []" by auto
    ultimately show ?thesis by (auto simp: set_normalizeStrings stableAuthIDs_def image_image)
  qed
  have "Restore lib auths (r, s) = (None, \<lparr>states = acc, modelExclusions = [], healthyEpochs = []\<rparr>, s2)"
    using res by (simp add: Restore_def del load s1(2))
  moreover have "map_of acc i = (case health_lookup s i of None \<Rightarrow> None
        | Some row \<Rightarrow> if restore_keeps lib ?byID (clock s) (parsed_row (i, row))
                     then Some (state_of_row (parsed_row (i, row))) else None)" for i
    unfolding acc map_of_parsed look1 look s1(2) using keep_id [of i]
    by (simp split: option.split)
  moreover have "health_lookup s2 i = (case health_lookup s i of None \<Rightarrow> None
        | Some row \<Rightarrow> if restore_keeps lib ?byID (clock s) (parsed_row (i, row)) then Some row else None)" for i
    unfolding disk map_of_parsed look1 look s1(2) using keep_id [of i]
    by (simp split: option.split)
  ultimately show ?thesis by fastforce
qed

section \<open>Properties\<close>

text \<open>
  C7: in every history of the registry, whatever statements of the store fail on the way, the table
  holds exactly the durable states of memory (an authoritative quota with a retry time, a rejected
  grant, an unauthorized credential), with the row that state is saved as.
\<close>

theorem registry_matches_disk:
  assumes "\<forall>op\<in>set ops. \<forall>i\<in>set (op_ids op). i \<noteq> [] \<and> trim_space i = i"
    and "health_run lib ops (newAuthHealthRegistry, (new_store t)\<lparr>faults := script\<rparr>) = (r, s)"
  shows "map_of (health (db s)) i =
    (case map_of (states r) i of
       None \<Rightarrow> None
     | Some st \<Rightarrow> if persist_state st then Some (row_of_state (persisted_of i st) 0) else None)"
proof -
  have "health_inv (newAuthHealthRegistry, (new_store t)\<lparr>faults := script\<rparr>)"
    by (simp add: health_inv_def agree_def mirrors_def newAuthHealthRegistry_def new_store_def
        empty_tables_def health_lookup_def)
  moreover have "\<forall>op\<in>set ops. \<forall>i\<in>set (op_ids op). plain_id i"
    using assms(1) unfolding plain_id_def .
  ultimately have "health_inv (r, s)"
    using inv_run assms(2) by metis
  then have "agree (r, s)" by (simp add: health_inv_def)
  moreover have "row_of_state (persisted_of i st) 0 = row_of_state (persisted_of [] st) 0" for st
    by (simp add: row_of_state_def persisted_of_def)
  ultimately show ?thesis
    by (simp add: agree_def mirrors_def health_lookup_def disk_row_def split: option.split)
qed

definition demo_quota :: AuthHealthState where
  "demo_quota = \<lparr>Kind = AuthHealthQuota, Reason = ''q'', RetryAt = 100 * second, Authoritative = True,
     CredentialFingerprint = [], StatusCode = 429, ErrorCode = ''e'', UpdatedAt = 0\<rparr>"

lemma trim_demo [simp]: "trim_space ''q'' = ''q''" "trim_space ''e'' = ''e''" "trim_space ''account:1'' = ''account:1''"
  by (rule trim_space_plain; simp add: plain_char_def)+

definition demo_id :: Auth where
  "demo_id = (demo_auth ''1'' ''f.json'' False)\<lparr>auth_ID := ''account:1''\<rparr>"

lemma plain_demo [simp]: "plain_id ''account:1''"
  unfolding plain_id_def by simp

lemma demo_id_simps [simp]: "auth_ID demo_id = ''account:1''"
  by (simp add: demo_id_def)

theorem registry_matches_disk_witness:
  "map_of (health (db (snd (health_run demo_lib [HMarkUnavailable demo_id demo_quota, HMarkHealthy demo_id []]
      (newAuthHealthRegistry, (new_store 7)\<lparr>faults := [None, Some (PlainError ''disk'')]\<rparr>))))) ''account:1'' \<noteq> None"
proof -
  let ?run = "health_run demo_lib [HMarkUnavailable demo_id demo_quota, HMarkHealthy demo_id []]
      (newAuthHealthRegistry, (new_store 7)\<lparr>faults := [None, Some (PlainError ''disk'')]\<rparr>)"
  obtain r s where run: "?run = (r, s)" by fastforce
  have "map_of (states r) ''account:1'' = Some (incoming_state demo_lib demo_id demo_quota 7)"
    using run
    by (auto simp: health_run_def MarkUnavailable_def MarkHealthy_def markHealthyLocked_def Let_def
        newAuthHealthRegistry_def new_store_def empty_tables_def demo_quota_def incoming_state_def
        credentialHealthKind_def persist_state_def SaveAuthHealthState_def ready_def checkReady_def
        failure_current_def newStorageFailureState_def persisted_of_def persistedAuthHealthKind_def
        sql_def next_fault_def second_def clear_exclusion_def normalizeModelIdentifier_def trim_blanks_def
        bump_epoch_def split: prod.splits)
  then show ?thesis
    using registry_matches_disk [OF _ run, of "''account:1''"] run
    by (simp add: incoming_state_def demo_quota_def persist_state_def credentialHealthKind_def second_def Let_def)
qed

text \<open>
  C8: a restart. When the process stops with memory and disk in agreement and comes back with a
  healthy store, \<open>Restore\<close> succeeds and gives each credential that still exists exactly the durable
  state it had, provided its retry time has not passed and, for a credential failure, the tokens are
  still the ones that failed; every other row is gone from the table.
\<close>

theorem restart_restores:
  assumes "agree (r, s)" "healthy_store s" "keys_distinct (health (db s))"
    and "distinct (map auth_ID auths)" "\<forall>a\<in>set auths. plain_id (auth_ID a)"
    and "\<forall>(i, st)\<in>set (states r). storable st"
  shows "\<exists>r' s'. Restore lib auths (newAuthHealthRegistry, s) = (None, r', s') \<and>
    (\<forall>i. map_of (states r') i =
       (case (find (\<lambda>a. auth_ID a = i) auths, map_of (states r) i) of
          (Some a, Some st) \<Rightarrow> if survives lib a (clock s) st then Some (normal_state st) else None
        | _ \<Rightarrow> None)) \<and>
    (\<forall>i. map_of (health (db s')) i \<noteq> None \<longleftrightarrow> map_of (states r') i \<noteq> None)"
proof -
  have look: "health_lookup s i = Option.bind (map_of (states r) i) disk_row" for i
    using assms(1) by (simp add: agree_def mirrors_def)
  have good: "storable st" if "map_of (states r) i = Some st" for i st
    using assms(6) map_of_SomeD [OF that] by auto
  have rows: "\<forall>(i, row)\<in>set (health (db s)). plain_id i \<and> row_parses row"
  proof (clarify, intro conjI)
    fix i row assume "(i, row) \<in> set (health (db s))"
    then have "health_lookup s i = Some row" using assms(3) by (simp add: health_lookup_def)
    then obtain st where st: "map_of (states r) i = Some st" "persist_state st"
        "row = row_of_state (persisted_of [] st) 0"
      by (auto simp: look disk_row_def split: bind_splits if_splits)
    show "plain_id i" using agree_state_id [OF assms(1) st(1)] .
    show "row_parses row" using stored_row(1) [OF good [OF st(1)] st(2)] st(3) by simp
  qed
  obtain r' s' where res: "Restore lib auths (newAuthHealthRegistry, s) = (None, r', s')"
    and sts: "\<And>i. map_of (states r') i = (case health_lookup s i of None \<Rightarrow> None
        | Some row \<Rightarrow> if restore_keeps lib (authsByStableID auths) (clock s) (parsed_row (i, row))
                     then Some (state_of_row (parsed_row (i, row))) else None)"
    and disk: "\<And>i. health_lookup s' i = (case health_lookup s i of None \<Rightarrow> None
        | Some row \<Rightarrow> if restore_keeps lib (authsByStableID auths) (clock s) (parsed_row (i, row))
                     then Some row else None)"
    using Restore_ok [OF assms(2,3,4,5) rows] by blast
  have "map_of (states r') i = (case (find (\<lambda>a. auth_ID a = i) auths, map_of (states r) i) of
          (Some a, Some st) \<Rightarrow> if survives lib a (clock s) st then Some (normal_state st) else None
        | _ \<Rightarrow> None)" for i
  proof (cases "map_of (states r) i")
    case None
    then show ?thesis by (simp add: sts look split: option.split)
  next
    case (Some st)
    show ?thesis
    proof (cases "persist_state st")
      case True
      with stored_row(2,3) [OF good [OF Some] True] Some show ?thesis
        by (simp add: sts look disk_row_def map_of_authsByStableID [OF assms(4)] split: option.split)
    next
      case False
      with Some show ?thesis by (simp add: sts look disk_row_def survives_def split: option.split)
    qed
  qed
  moreover have "map_of (health (db s')) i \<noteq> None \<longleftrightarrow> map_of (states r') i \<noteq> None" for i
    using disk [of i] sts [of i] by (simp add: health_lookup_def split: option.splits)
  ultimately show ?thesis using res by blast
qed

theorem restart_restores_witness:
  "let st = demo_quota\<lparr>UpdatedAt := second\<rparr>;
       s = update_health (\<lambda>_. [(''account:1'', row_of_state (persisted_of [] st) 0)]) (new_store (50 * second))
   in \<exists>r' s'. Restore demo_lib [demo_id] (newAuthHealthRegistry, s) = (None, r', s') \<and>
        map_of (states r') ''account:1'' = Some (normal_state st)"
proof -
  define st where "st = demo_quota\<lparr>UpdatedAt := second\<rparr>"
  define s where "s = update_health (\<lambda>_. [(''account:1'', row_of_state (persisted_of [] st) 0)]) (new_store (50 * second))"
  define r where "r = \<lparr>states = [(''account:1'', st)], modelExclusions = [], healthyEpochs = []\<rparr>"
  have live: "persist_state st" "\<not> credentialHealthKind (Kind st)" "RetryAt st = 100 * second"
    by (simp_all add: st_def demo_quota_def persist_state_def credentialHealthKind_def second_def)
  have agree: "agree (r, s)"
    by (simp add: agree_def mirrors_def r_def s_def health_lookup_def disk_row_def live)
  have store: "healthy_store s" "keys_distinct (health (db s))" "clock s = 50 * second"
    by (simp_all add: s_def) (simp add: new_store_def)
  have fits: "\<forall>(i, st)\<in>set (states r). storable st"
    by (simp add: r_def storable_def live) (simp add: st_def db_representable_def max_db_seconds_def second_def seconds_of_def)
  have "plain_id ''account:1''" by simp
  then have prem: "distinct (map auth_ID [demo_id])" "\<forall>a\<in>set [demo_id]. plain_id (auth_ID a)" by simp_all
  obtain r' s' where res: "Restore demo_lib [demo_id] (newAuthHealthRegistry, s) = (None, r', s')"
    and sts: "map_of (states r') ''account:1'' =
       (case (find (\<lambda>a. auth_ID a = ''account:1'') [demo_id], map_of (states r) ''account:1'') of
          (Some a, Some st) \<Rightarrow> if survives demo_lib a (clock s) st then Some (normal_state st) else None
        | _ \<Rightarrow> None)"
    using restart_restores [OF agree store(1,2) prem fits, of demo_lib] by blast
  have "map_of (states r') ''account:1'' = Some (normal_state st)"
    using sts live store(3) by (simp add: r_def survives_def second_def)
  with res show ?thesis by (auto simp: Let_def st_def [symmetric] s_def [symmetric])
qed

text \<open>
  the memory of unsupported models is bounded in every history: at most 64 models per
  credential, each listed once, and no empty list is kept.
\<close>

theorem excluded_models_bounded:
  assumes "health_run lib ops (newAuthHealthRegistry, s0) = (r, s)"
  shows "length (exclusions_of r i) \<le> 64 \<and> keys_distinct (exclusions_of r i) \<and>
    map_of (modelExclusions r) i \<noteq> Some []"
proof -
  have "exclusions_ok (fst (newAuthHealthRegistry, s0))"
    by (simp add: exclusions_ok_def newAuthHealthRegistry_def)
  from excl_run [OF this, of lib ops] assms have "exclusions_ok r" by simp
  from exclusions_get [OF this, of i] show ?thesis
    by (cases "map_of (modelExclusions r) i") (auto simp: exclusions_of_def maxModelExclusionsPerAuth_def)
qed

theorem excluded_models_bounded_witness:
  "length (exclusions_of (fst (health_run demo_lib [HMarkModelUnsupported demo_id ''m'' 400 []]
      (newAuthHealthRegistry, new_store 7))) ''account:1'') \<le> 64"
  by (rule conjunct1 [OF excluded_models_bounded [OF prod.collapse [symmetric]]])

text \<open>
  the evicted exclusion is the one with the least time (and the least name among those), and it
  does not depend on the order in which the map is visited.
\<close>

theorem oldest_exclusion_evicted:
  assumes "keys_distinct xs" "(m, x) \<in> set xs" "set ys = set xs"
  shows "oldestModelExclusion ys = oldestModelExclusion xs \<and>
    (\<exists>y. (oldestModelExclusion xs, y) \<in> set xs \<and>
       (x_UpdatedAt y < x_UpdatedAt x \<or>
        x_UpdatedAt y = x_UpdatedAt x \<and> oldestModelExclusion xs \<le> m))"
proof -
  have inj: "inj_on fst (set xs)" using assms(1) by (simp add: distinct_map)
  obtain v where v: "scan older_exclusion None xs = Some v"
    using assms(2) scan_None_iff [of older_exclusion xs] by (metis empty_iff empty_set not_None_eq)
  have "v \<in> set xs" using scan_mem [OF v] by simp
  moreover have "(m, x) = v \<or> older_exclusion v (m, x)"
    using oldest.scan_least [OF v] inj assms(2) by simp
  moreover have "scan older_exclusion None ys = scan older_exclusion None xs"
    using oldest.scan_unique [of ys xs] inj assms(3) by simp
  moreover have "oldestModelExclusion xs = fst v" by (simp add: oldestModelExclusion_def v)
  ultimately show ?thesis
    by (intro conjI exI [of _ "snd v"]) (auto simp: oldestModelExclusion_def older_exclusion_def)
qed

definition demo_x :: "time \<Rightarrow> authModelExclusion" where
  "demo_x t = \<lparr>x_Fingerprint = [], x_Reason = [], x_StatusCode = 400, x_ErrorCode = [], x_UpdatedAt = t\<rparr>"

theorem oldest_exclusion_evicted_witness:
  "oldestModelExclusion [(''b'', demo_x 5), (''a'', demo_x 5), (''c'', demo_x 9)] = ''a'' \<and>
   oldestModelExclusion [(''c'', demo_x 9), (''a'', demo_x 5), (''b'', demo_x 5)] =
   oldestModelExclusion [(''b'', demo_x 5), (''a'', demo_x 5), (''c'', demo_x 9)]"
proof
  show "oldestModelExclusion [(''b'', demo_x 5), (''a'', demo_x 5), (''c'', demo_x 9)] = ''a''"
    by (simp add: oldestModelExclusion_def older_exclusion_def demo_x_def)
  show "oldestModelExclusion [(''c'', demo_x 9), (''a'', demo_x 5), (''b'', demo_x 5)] =
   oldestModelExclusion [(''b'', demo_x 5), (''a'', demo_x 5), (''c'', demo_x 9)]"
    by (rule conjunct1 [OF oldest_exclusion_evicted [of _ "''a''" "demo_x 5"]]) auto
qed

text \<open>
  C40: an authoritative quota cooldown that has not run out is never displaced by a softer report
  (transient, invalid credential, unconfirmed quota) nor by a success on any model: the state and its
  retry time stay, in memory and on disk, and nothing fails.
\<close>

theorem hard_cooldown_survives:
  assumes "map_of (states r) (auth_ID a) = Some st" "plain_id (auth_ID a)"
    and "Kind st = AuthHealthQuota" "Authoritative st" "clock s < RetryAt st"
    and "Kind soft = AuthHealthTransient \<or> Kind soft = AuthHealthCredentialInvalid \<or>
         Kind soft = AuthHealthQuota \<and> \<not> Authoritative soft"
  shows "MarkUnavailable lib a soft (r, s) = (None, r, s) \<and>
    (case MarkHealthy a model (r, s) of (e, r', s') \<Rightarrow>
       e = None \<and> s' = s \<and> map_of (states r') (auth_ID a) = Some st)"
proof -
  have soft: "Kind (incoming_state lib a soft (clock s)) = Kind soft"
    "Authoritative (incoming_state lib a soft (clock s)) = Authoritative soft"
    by (simp_all add: incoming_state_def Let_def)
  have "preserveExistingHealthState st (incoming_state lib a soft (clock s)) (clock s)"
    using assms(3-6) by (simp add: preserveExistingHealthState_def soft)
  then have "MarkUnavailable lib a soft (r, s) = (None, r, s)"
    using assms(1,2) by (simp add: MarkUnavailable_def Let_def)
  moreover have "markHealthyLocked a model (r, s) = (Inr False, clear_exclusion (auth_ID a) model r, s)"
    using assms(1,3-5) by (simp add: markHealthyLocked_def Let_def)
  ultimately show ?thesis using assms(1,2) by (simp add: MarkHealthy_def)
qed

theorem hard_cooldown_survives_witness:
  "MarkUnavailable demo_lib demo_id (demo_quota\<lparr>Kind := AuthHealthTransient\<rparr>)
     (newAuthHealthRegistry\<lparr>states := [(''account:1'', demo_quota)]\<rparr>, new_store 7)
   = (None, newAuthHealthRegistry\<lparr>states := [(''account:1'', demo_quota)]\<rparr>, new_store 7)"
  by (rule conjunct1 [OF hard_cooldown_survives [of _ _ demo_quota _ "demo_quota\<lparr>Kind := AuthHealthTransient\<rparr>"]])
    (simp_all add: demo_quota_def new_store_def second_def)

text \<open>
  \<open>NearestCooldown\<close> is the earliest retry time among the credentials that block this model with
  one, it lies in the future, and it is reported exactly when there is such a credential, whatever
  the order of the credentials.
\<close>

theorem nearest_cooldown_spec:
  assumes "0 \<le> now"
  shows "let waits = {RetryAt st | a st. a \<in> set auths \<and> Blocked r now a model = Some st \<and> RetryAt st > now};
             (nearest, found) = NearestCooldown r now auths model
         in if waits = {} then \<not> found else found \<and> nearest \<in> waits \<and> (\<forall>w\<in>waits. nearest \<le> w)"
proof -
  define step where "step = (\<lambda>a nearest. case Blocked r now a model of
               None \<Rightarrow> nearest
             | Some st \<Rightarrow>
                 if is_zero_time (RetryAt st) \<or> \<not> RetryAt st > now then nearest
                 else if is_zero_time nearest \<or> RetryAt st < nearest then RetryAt st else nearest)"
  define waits where "waits = (\<lambda>as. {RetryAt st | a st. a \<in> set as \<and> Blocked r now a model = Some st \<and> RetryAt st > now})"
  have waits_Cons: "waits (a # as) = (case Blocked r now a model of
      Some st \<Rightarrow> if RetryAt st > now then {RetryAt st} else {} | None \<Rightarrow> {}) \<union> waits as" for a as
    by (auto simp: waits_def split: option.split)
  define least where "least = (\<lambda>(S::time set) n. if S = {} then n = 0 else n \<in> S \<and> (\<forall>w\<in>S. n \<le> w) \<and> n \<noteq> 0)"
  define cur where "cur = (\<lambda>init::time. if init = 0 then {} else {init})"
  have "least (waits as \<union> cur init) (fold step as init)" if "init = 0 \<or> init > now" for as init
    using that
  proof (induction as arbitrary: init)
    case Nil
    then show ?case using assms by (auto simp: waits_def least_def cur_def)
  next
    case (Cons a as)
    show ?case
    proof (cases "\<exists>st. Blocked r now a model = Some st \<and> RetryAt st > now")
      case False
      then have "step a init = init" "waits (a # as) = waits as"
        by (auto simp: step_def waits_Cons split: option.split)
      with Cons.IH [OF Cons.prems] show ?thesis by simp
    next
      case True
      then obtain st where st: "Blocked r now a model = Some st" "RetryAt st > now" by blast
      have new: "step a init = (if init = 0 \<or> RetryAt st < init then RetryAt st else init)"
        using st assms by (simp add: step_def)
      have pos: "step a init > now" "step a init \<noteq> 0" using new st(2) Cons.prems assms by auto
      have w: "waits (a # as) = insert (RetryAt st) (waits as)" using st by (simp add: waits_Cons)
      have "least (waits as \<union> {step a init}) (fold step as (step a init))"
        using Cons.IH [of "step a init"] pos by (simp add: cur_def)
      then have "least (insert (RetryAt st) (waits as) \<union> cur init) (fold step as (step a init))"
        using new by (auto simp: least_def cur_def split: if_splits)
      then show ?thesis by (simp add: w)
    qed
  qed
  from this [of 0 auths] have "least (waits auths) (fold step auths 0)" by (simp add: cur_def)
  moreover have "NearestCooldown r now auths model = (fold step auths 0, fold step auths 0 \<noteq> 0)"
    by (simp add: NearestCooldown_def Let_def step_def)
  moreover have "{RetryAt st | a st. a \<in> set auths \<and> Blocked r now a model = Some st \<and> RetryAt st > now} = waits auths"
    by (simp add: waits_def)
  ultimately show ?thesis by (simp only: Let_def least_def prod.case) (simp split: if_splits)
qed

theorem nearest_cooldown_spec_witness:
  "NearestCooldown (newAuthHealthRegistry\<lparr>states := [(''account:1'', demo_quota)]\<rparr>) 7 [demo_id] []
    = (100 * second, True)"
proof -
  let ?r = "newAuthHealthRegistry\<lparr>states := [(''account:1'', demo_quota)]\<rparr>"
  have b: "Blocked ?r 7 demo_id [] = Some demo_quota"
    by (simp add: Blocked_def State_def Let_def normalizeModelIdentifier_def trim_blanks_def demo_quota_def second_def)
  have t: "7 < RetryAt demo_quota" "RetryAt demo_quota = 100 * second" by (simp_all add: demo_quota_def second_def)
  obtain n f where n: "NearestCooldown ?r 7 [demo_id] [] = (n, f)" by fastforce
  show ?thesis
    using nearest_cooldown_spec [of 7 "[demo_id]" ?r "[]"] b t n by (auto simp: Let_def)
qed


end
