(* ===== verification/Failover.thy ===== *)
theory Failover
  imports Health_Properties
begin

text \<open>
  The failure half of \<open>failover.go\<close>: reading an upstream error response without consuming it,
  classifying it, turning the class into a health state of the credential, and choosing the error the
  client sees when no credential is left. The retry loop that uses them is in another theory.
\<close>

section \<open>Failures\<close>

datatype upstreamFailureKind =
    upstreamFailureNone
  | upstreamFailureRequestScoped
  | upstreamFailureUnauthorized
  | upstreamFailureQuota
  | upstreamFailureTransient
  | upstreamFailureModelUnsupported
  | upstreamFailureCredential

record upstreamFailure =
  f_Kind :: upstreamFailureKind
  f_StatusCode :: int
  f_ErrorCode :: string
  f_Reason :: string
  f_RetryAt :: time
  f_Explicit :: bool

definition no_failure :: upstreamFailure where
  "no_failure = \<lparr>f_Kind = upstreamFailureNone, f_StatusCode = 0, f_ErrorCode = [], f_Reason = [],
     f_RetryAt = 0, f_Explicit = False\<rparr>"

definition defaultTransientCooldown :: duration where "defaultTransientCooldown = minute"

text \<open>The aggregate of one request, a map from credential to its last failure.\<close>

type_synonym failureAggregate = "(string \<times> upstreamFailure) list"

definition aggregate_record :: "Auth \<Rightarrow> upstreamFailure \<Rightarrow> failureAggregate \<Rightarrow> failureAggregate" where
  "aggregate_record a f agg = (if trim_space (auth_ID a) = [] then agg else AList.update (auth_ID a) f agg)"

section \<open>Reading a body and putting it back\<close>

text \<open>
  A body is the bytes it delivers and how it ends: at the end of the file, or with an error.
  \<open>read_limited n\<close> is \<open>io.ReadAll(io.LimitReader(body, n))\<close>: what it returns, its error, and what is
  left in the body. \<open>multi_reader\<close> reads one body after the other, as long as none ends in an error.
\<close>

record body_stream =
  b_bytes :: string
  b_end :: "go_err option"

definition read_limited :: "nat \<Rightarrow> body_stream \<Rightarrow> (string \<times> go_err option) \<times> body_stream" where
  "read_limited n b =
     (if n \<le> length (b_bytes b) then ((take n (b_bytes b), None), b\<lparr>b_bytes := drop n (b_bytes b)\<rparr>)
      else ((b_bytes b, b_end b), b\<lparr>b_bytes := []\<rparr>))"

definition bytes_reader :: "string \<Rightarrow> body_stream" where
  "bytes_reader s = \<lparr>b_bytes = s, b_end = None\<rparr>"

definition replayErrorReader :: "go_err \<Rightarrow> body_stream" where
  "replayErrorReader e = \<lparr>b_bytes = [], b_end = Some e\<rparr>"

fun multi_reader :: "body_stream list \<Rightarrow> body_stream" where
  "multi_reader [] = \<lparr>b_bytes = [], b_end = None\<rparr>"
| "multi_reader (b # bs) =
     (case b_end b of
        Some e \<Rightarrow> b
      | None \<Rightarrow> (multi_reader bs)\<lparr>b_bytes := b_bytes b @ b_bytes (multi_reader bs)\<rparr>)"

definition maxFailureInspectionBytes :: nat where "maxFailureInspectionBytes = 1048576"
definition maxReplayBodyBytes :: int where "maxReplayBodyBytes = 33554432"

record upstream_response =
  resp_StatusCode :: int
  resp_RetryAfter :: string
  resp_Body :: "body_stream option"

definition inspectResponseBody :: "upstream_response \<Rightarrow> string \<times> upstream_response" where
  "inspectResponseBody resp =
     (case resp_Body resp of
        None \<Rightarrow> ([], resp)
      | Some original \<Rightarrow>
          (case read_limited (maxFailureInspectionBytes + 1) original of
             ((body, Some e), left) \<Rightarrow>
               (body, resp\<lparr>resp_Body := Some (multi_reader [bytes_reader body, replayErrorReader e, left])\<rparr>)
           | ((body, None), left) \<Rightarrow>
               if length body > maxFailureInspectionBytes
               then (take maxFailureInspectionBytes body,
                     resp\<lparr>resp_Body := Some (multi_reader [bytes_reader body, left])\<rparr>)
               else (body, resp\<lparr>resp_Body := Some (bytes_reader body)\<rparr>)))"

text \<open>A request body, its announced length, and whether \<open>GetBody\<close> can produce it again.\<close>

record request_body =
  rq_Body :: "body_stream option"
  rq_ContentLength :: int
  rq_GetBody :: "body_stream option"

definition requestBodyWithinReplayLimit :: "request_body \<Rightarrow> bool" where
  "requestBodyWithinReplayLimit r \<longleftrightarrow>
     rq_Body r = None \<or> rq_ContentLength r = 0 \<or>
     0 < rq_ContentLength r \<and> rq_ContentLength r \<le> maxReplayBodyBytes"

definition resetRequestBody :: "string \<Rightarrow> request_body \<Rightarrow> request_body" where
  "resetRequestBody body r =
     r\<lparr>rq_Body := Some (bytes_reader body), rq_ContentLength := int (length body),
       rq_GetBody := Some (bytes_reader body)\<rparr>"

definition prepareReplayBody :: "request_body \<Rightarrow> bool \<Rightarrow> bool \<times> request_body" where
  "prepareReplayBody r candidate =
     (if \<not> candidate then (False, r)
      else if rq_Body r = None \<or> rq_ContentLength r = 0
      then (True, r\<lparr>rq_Body := None, rq_ContentLength := 0, rq_GetBody := Some (bytes_reader [])\<rparr>)
      else if rq_ContentLength r < 0 \<or> rq_ContentLength r > maxReplayBodyBytes then (False, r)
      else
        (case read_limited (nat maxReplayBodyBytes + 1) (the (rq_Body r)) of
           ((body, Some e), left) \<Rightarrow>
             (False, r\<lparr>rq_Body := Some (multi_reader [bytes_reader body, replayErrorReader e, left]),
                      rq_GetBody := None\<rparr>)
         | ((body, None), left) \<Rightarrow>
             if int (length body) > maxReplayBodyBytes
             then (False, r\<lparr>rq_Body := Some (multi_reader [bytes_reader body, left]), rq_GetBody := None\<rparr>)
             else (True, resetRequestBody body r)))"

section \<open>Classification\<close>

record upstreamErrorInfo =
  info_Code :: string
  info_Type :: string
  info_Message :: string
  info_ResetsAt :: int
  info_ResetsInSeconds :: int

definition stringMapValue :: "json_map \<Rightarrow> string \<Rightarrow> string" where
  "stringMapValue values k = (case map_of values k of Some (JStr v) \<Rightarrow> trim_space v | _ \<Rightarrow> [])"

text \<open>\<open>strconv.ParseUint(s, 10, 64)\<close> and \<open>strconv.ParseInt(s, 10, 64)\<close>, the latter with the value it
returns beside an error: the nearest bound when the text is out of range, and 0 when it is no integer.\<close>

definition digits_value :: "string \<Rightarrow> nat" where
  "digits_value s = fold (\<lambda>c n. 10 * n + (of_char c - 48)) s 0"

definition parse_uint64 :: "string \<Rightarrow> nat option" where
  "parse_uint64 s =
     (if s \<noteq> [] \<and> list_all is_digit s \<and> digits_value s < 18446744073709551616 then Some (digits_value s) else None)"

definition parse_int64 :: "string \<Rightarrow> int" where
  "parse_int64 s =
     (let (neg, ds) = (case s of
            CHR ''-'' # cs \<Rightarrow> (True, cs) | CHR ''+'' # cs \<Rightarrow> (False, cs) | _ \<Rightarrow> (False, s))
      in if ds = [] \<or> \<not> list_all is_digit ds then 0
         else max min_int64 (min max_int64 ((if neg then -1 else 1) * int (digits_value ds))))"

definition int64MapValue :: "json_map \<Rightarrow> string \<Rightarrow> int" where
  "int64MapValue values k =
     (case map_of values k of
        Some (JNumber s) \<Rightarrow> parse_int64 s
      | Some (JNum v) \<Rightarrow> (if 0 \<le> v then \<lfloor>v\<rfloor> else \<lceil>v\<rceil>)
      | _ \<Rightarrow> 0)"

definition parseUpstreamErrorInfo :: "go_lib \<Rightarrow> string \<Rightarrow> upstreamErrorInfo" where
  "parseUpstreamErrorInfo lib body =
     (case decode_error_object lib body of
        None \<Rightarrow> \<lparr>info_Code = [], info_Type = [], info_Message = [], info_ResetsAt = 0, info_ResetsInSeconds = 0\<rparr>
      | Some payload \<Rightarrow>
          let e = (case mapField payload ''error'' of Some m \<Rightarrow> m | None \<Rightarrow> payload)
          in \<lparr>info_Code = stringMapValue e ''code'', info_Type = stringMapValue e ''type'',
              info_Message = firstNonEmptyString [stringMapValue e ''message'', stringMapValue payload ''message''],
              info_ResetsAt = int64MapValue e ''resets_at'',
              info_ResetsInSeconds = int64MapValue e ''resets_in_seconds''\<rparr>)"

text \<open>
  What an ASCII pattern sees of \<open>strings.ToLower(s)\<close>: the ASCII letters, and the two other characters
  whose lower case is ASCII (dotted capital I and the Kelvin sign, in UTF-8). The remaining bytes
  belong to characters that no ASCII pattern contains, before and after the mapping.
\<close>

fun lower_ascii_view :: "string \<Rightarrow> string" where
  "lower_ascii_view [] = []"
| "lower_ascii_view (c # cs) =
     (if prefix [char_of (0xC4::nat), char_of (0xB0::nat)] (c # cs)
      then CHR ''i'' # lower_ascii_view (drop 1 cs)
      else if prefix [char_of (0xE2::nat), char_of (0x84::nat), char_of (0xAA::nat)] (c # cs)
      then CHR ''k'' # lower_ascii_view (drop 2 cs)
      else ascii_lower c # lower_ascii_view cs)"

fun contains :: "string \<Rightarrow> string \<Rightarrow> bool" where
  "contains p [] = (p = [])"
| "contains p (c # cs) = (prefix p (c # cs) \<or> contains p cs)"

definition separators_to_underscore :: "string \<Rightarrow> string" where
  "separators_to_underscore = map (\<lambda>c. if c = CHR ''-'' \<or> c = CHR '' '' then CHR ''_'' else c)"

definition unsupported_codes :: "string list" where
  "unsupported_codes = [''model_not_supported'', ''unsupported_model'', ''model_not_found'', ''unknown_model'',
     ''model_unavailable'']"

definition unsupported_patterns :: "string list" where
  "unsupported_patterns = [''requested model is not supported'', ''requested model is unsupported'',
     ''model is not supported'', ''model not supported'', ''unsupported model'',
     ''not available for your plan'', ''not available for your account'']"

definition isModelUnsupportedFailure :: "int \<Rightarrow> string \<Rightarrow> upstreamErrorInfo \<Rightarrow> string \<Rightarrow> bool" where
  "isModelUnsupportedFailure status model info body =
     (if normalizeModelIdentifier model = None then False
      else if status \<notin> set [400, 404, 422] then False
      else if list_ex (\<lambda>v. separators_to_underscore (lower_ascii_view (trim_space v)) \<in> set unsupported_codes)
             [info_Code info, info_Type info] then True
      else let lower = lower_ascii_view (info_Message info @ '' '' @ body)
           in list_ex (\<lambda>p. contains p lower) unsupported_patterns)"

definition parseRetryAfterDeadline :: "go_lib \<Rightarrow> string \<Rightarrow> time \<Rightarrow> time" where
  "parseRetryAfterDeadline lib value0 now =
     (let value = trim_space value0 in
      if value = [] then 0
      else (case parse_uint64 value of
              Some seconds \<Rightarrow>
                if int seconds > max_int64 div second then now + max_int64
                else now + wrap64 (int seconds * second)
            | None \<Rightarrow> (case parse_http_time lib value of None \<Rightarrow> 0 | Some t \<Rightarrow> t)))"

text \<open>\<open>time.Unix\<close> counts from the year 1, in wrapping 64-bit seconds.\<close>

definition time_unix :: "int \<Rightarrow> time" where
  "time_unix sec = wrap64 (sec + 62135596800) * second"

definition explicitQuotaRecoveryTime :: "upstreamErrorInfo \<Rightarrow> time \<Rightarrow> time" where
  "explicitQuotaRecoveryTime info now =
     (if info_ResetsAt info > 0 \<and> time_unix (info_ResetsAt info) > now then time_unix (info_ResetsAt info)
      else if info_ResetsInSeconds info > 0 then now + wrap64 (info_ResetsInSeconds info * second)
      else 0)"

definition classifyUpstreamResponse ::
  "go_lib \<Rightarrow> upstream_response option \<Rightarrow> string \<Rightarrow> time \<Rightarrow> upstreamFailure \<times> upstream_response option" where
  "classifyUpstreamResponse lib resp0 model now =
     (case resp0 of
        None \<Rightarrow> (no_failure\<lparr>f_Kind := upstreamFailureTransient, f_Reason := ''network''\<rparr>, None)
      | Some resp \<Rightarrow>
          if resp_StatusCode resp < 400 then (no_failure, Some resp)
          else
            let status = resp_StatusCode resp;
                (body, resp') = inspectResponseBody resp;
                info = parseUpstreamErrorInfo lib body;
                f = no_failure\<lparr>f_StatusCode := status, f_ErrorCode := safeHealthCode (info_Code info)\<rparr>;
                retryAfter = parseRetryAfterDeadline lib (resp_RetryAfter resp) now;
                retryAt = (if is_zero_time retryAfter then explicitQuotaRecoveryTime info now else retryAfter)
            in (if status = 401
                then f\<lparr>f_Kind := upstreamFailureUnauthorized, f_Reason := ''unauthorized''\<rparr>
                else if status = 429
                then f\<lparr>f_Kind := upstreamFailureQuota, f_Reason := ''quota'', f_RetryAt := retryAt,
                       f_Explicit := \<not> is_zero_time retryAt\<rparr>
                else if status = 408
                then f\<lparr>f_Kind := upstreamFailureTransient, f_Reason := ''request_timeout''\<rparr>
                else if status \<in> set [500, 502, 503, 504]
                then f\<lparr>f_Kind := upstreamFailureTransient, f_Reason := ''upstream_error''\<rparr>
                else if isModelUnsupportedFailure status model info body
                then f\<lparr>f_Kind := upstreamFailureModelUnsupported, f_Reason := ''model_not_supported''\<rparr>
                else if status < 500
                then f\<lparr>f_Kind := upstreamFailureRequestScoped, f_Reason := ''request_error''\<rparr>
                else f\<lparr>f_Kind := upstreamFailureTransient, f_Reason := ''upstream_error''\<rparr>,
                Some resp'))"

section \<open>From a failure to a health state\<close>

text \<open>What \<open>errors.As(err, **oauthRefreshError)\<close> finds in the error of a refresh, if anything.\<close>

record oauthRefreshError =
  re_status :: int
  re_code :: string
  re_retryable :: bool

definition preparationFailure :: "oauthRefreshError option \<Rightarrow> time \<Rightarrow> upstreamFailure" where
  "preparationFailure err now =
     (let failure = no_failure\<lparr>f_Kind := upstreamFailureCredential, f_StatusCode := 503,
                      f_Reason := ''credential_invalid''\<rparr>
      in case err of
           None \<Rightarrow> failure
         | Some e \<Rightarrow>
             let failure = failure\<lparr>f_StatusCode := re_status e, f_ErrorCode := safeHealthCode (re_code e)\<rparr>
             in if f_ErrorCode failure = ''invalid_grant'' then failure\<lparr>f_Reason := ''invalid_grant''\<rparr>
                else if re_retryable e
                then failure\<lparr>f_Kind := upstreamFailureTransient, f_Reason := ''refresh_failed'',
                       f_RetryAt := now + defaultTransientCooldown\<rparr>
                else failure)"

definition health_state :: "AuthHealthKind \<Rightarrow> string \<Rightarrow> time \<Rightarrow> bool \<Rightarrow> int \<Rightarrow> string \<Rightarrow> AuthHealthState" where
  "health_state k reason retryAt auth code ec =
     \<lparr>Kind = k, Reason = reason, RetryAt = retryAt, Authoritative = auth, CredentialFingerprint = [],
      StatusCode = code, ErrorCode = ec, UpdatedAt = 0\<rparr>"

definition markAuthFailure ::
  "go_lib \<Rightarrow> Auth \<Rightarrow> string \<Rightarrow> upstreamFailure \<Rightarrow> health_sys \<Rightarrow> go_err option \<times> health_sys" where
  "markAuthFailure lib a model f sys =
     (let retryAt = (if is_zero_time (f_RetryAt f) then clock (snd sys) + defaultTransientCooldown else f_RetryAt f)
      in case f_Kind f of
           upstreamFailureModelUnsupported \<Rightarrow>
             MarkModelUnsupported lib a model (f_StatusCode f) (f_ErrorCode f) sys
         | upstreamFailureQuota \<Rightarrow>
             MarkUnavailable lib a
               (health_state AuthHealthQuota ''quota'' retryAt (f_Explicit f) (f_StatusCode f) (f_ErrorCode f)) sys
         | upstreamFailureUnauthorized \<Rightarrow>
             MarkUnavailable lib a
               (health_state AuthHealthUnauthorized ''unauthorized'' 0 False 401
                  (firstNonEmptyString [f_ErrorCode f, ''unauthorized''])) sys
         | upstreamFailureCredential \<Rightarrow>
             MarkUnavailable lib a
               (health_state
                  (if f_ErrorCode f = ''invalid_grant'' then AuthHealthInvalidGrant else AuthHealthCredentialInvalid)
                  (f_Reason f) 0 False (f_StatusCode f) (f_ErrorCode f)) sys
         | upstreamFailureTransient \<Rightarrow>
             MarkUnavailable lib a
               (health_state AuthHealthTransient (f_Reason f) retryAt False (f_StatusCode f) (f_ErrorCode f)) sys
         | _ \<Rightarrow> (None, sys))"

definition healthStateFromFailure :: "upstreamFailure \<Rightarrow> AuthHealthState" where
  "healthStateFromFailure f =
     health_state
       (case f_Kind f of
          upstreamFailureModelUnsupported \<Rightarrow> AuthHealthModelUnsupported
        | upstreamFailureQuota \<Rightarrow> AuthHealthQuota
        | upstreamFailureUnauthorized \<Rightarrow> AuthHealthUnauthorized
        | upstreamFailureCredential \<Rightarrow> AuthHealthCredentialInvalid
        | upstreamFailureTransient \<Rightarrow> AuthHealthTransient
        | _ \<Rightarrow> [])
       (f_Reason f) (f_RetryAt f) False (f_StatusCode f) (f_ErrorCode f)"

section \<open>Waiting and giving up\<close>

definition nearestCooldown ::
  "authHealthRegistry \<Rightarrow> time \<Rightarrow> Auth list \<Rightarrow> string \<Rightarrow> failureAggregate \<Rightarrow> string set \<Rightarrow> time \<times> bool" where
  "nearestCooldown r now active model aggregate allowed =
     fold (\<lambda>(i, f) (nearest, found).
         if is_zero_time (f_RetryAt f) then (nearest, found)
         else let retryAt = max (f_RetryAt f) now
              in if \<not> found \<or> retryAt < nearest then (retryAt, True) else (nearest, found))
       aggregate (NearestCooldown r now (filter (\<lambda>a. auth_ID a \<in> allowed) active) model)"

record proxyFinalError =
  pe_StatusCode :: int
  pe_Code :: string
  pe_RetryAt :: time

datatype auth_class = ClassModel | ClassDisabled | ClassOpen | ClassCredential | ClassQuota time | ClassTransient | ClassOther

definition classify_auth :: "authHealthRegistry \<Rightarrow> time \<Rightarrow> string \<Rightarrow> failureAggregate \<Rightarrow> Auth \<Rightarrow> auth_class" where
  "classify_auth r now model aggregate a =
     (let state = (case Blocked r now a model of
                     Some st \<Rightarrow> Some st
                   | None \<Rightarrow> map_option healthStateFromFailure (map_of aggregate (auth_ID a)))
      in case state of
           None \<Rightarrow> if Disabled a then ClassDisabled else ClassOpen
         | Some st \<Rightarrow>
             if Kind st = AuthHealthModelUnsupported then ClassModel
             else if Disabled a then ClassDisabled
             else if Kind st \<in> set [AuthHealthInvalidGrant, AuthHealthUnauthorized, AuthHealthCredentialInvalid]
             then ClassCredential
             else if Kind st = AuthHealthQuota then ClassQuota (RetryAt st)
             else if Kind st = AuthHealthTransient then ClassTransient
             else ClassOther)"

definition earliest_quota :: "auth_class list \<Rightarrow> time" where
  "earliest_quota cs =
     fold (\<lambda>c earliest.
       (case c of
          ClassQuota t \<Rightarrow> if \<not> is_zero_time t \<and> (is_zero_time earliest \<or> t < earliest) then t else earliest
        | _ \<Rightarrow> earliest)) cs 0"

definition is_quota :: "auth_class \<Rightarrow> bool" where
  "is_quota c = (case c of ClassQuota t \<Rightarrow> True | _ \<Rightarrow> False)"

definition final_error :: "int \<Rightarrow> string \<Rightarrow> time \<Rightarrow> proxyFinalError" where
  "final_error status code retryAt = \<lparr>pe_StatusCode = status, pe_Code = code, pe_RetryAt = retryAt\<rparr>"

definition final_decision :: "time \<Rightarrow> int \<Rightarrow> auth_class list \<Rightarrow> proxyFinalError" where
  "final_decision now maxRetryInterval cs =
     (let count = (\<lambda>c. length (filter (\<lambda>d. d = c) cs));
          quota = length (filter is_quota cs);
          serviceableFailures = quota + count ClassTransient;
          earliestQuota = earliest_quota cs;
          maxWait = wrap64 (maxRetryInterval * second)
      in if length cs > 0 \<and> count ClassModel = length cs then final_error 404 ''model_not_found'' 0
         else if length cs = 0 \<or> count ClassDisabled + count ClassCredential = length cs
         then final_error 503 ''auth_unavailable'' 0
         else if serviceableFailures > 0 \<and> quota = serviceableFailures
         then final_error 429 ''rate_limited'' earliestQuota
         else if quota > 0 \<and> count ClassTransient > 0 \<and> \<not> is_zero_time earliestQuota \<and>
                 maxWait > 0 \<and> time_sub earliestQuota now \<le> maxWait
         then final_error 429 ''rate_limited'' earliestQuota
         else final_error 502 ''upstream_unavailable'' 0)"

definition finalProxyError ::
  "authHealthRegistry \<Rightarrow> time \<Rightarrow> int \<Rightarrow> Auth list \<Rightarrow> string \<Rightarrow> failureAggregate \<Rightarrow> string set \<Rightarrow> proxyFinalError" where
  "finalProxyError r now maxRetryInterval auths model aggregate allowed =
     final_decision now maxRetryInterval
       (map (classify_auth r now model aggregate) (filter (\<lambda>a. auth_ID a \<in> allowed) auths))"

end
