(* ===== verification/Usage_Counters.thy ===== *)
theory Usage_Counters
  imports Failover
begin

text \<open>
  Counting tokens (\<open>usage.go\<close>) and the reader that counts them while a response passes through
  (\<open>usageCaptureReadCloser\<close> of \<open>usage_proxy.go\<close>). The JSON decoder and the conversion of a number that
  is no 64-bit integer belong to the library \<open>usage_lib\<close>; Go's additions wrap at 64 bits. The theorem
  \<open>capture_is_chunk_free\<close> compares the reader, which sees the body in arbitrary pieces, with a reference
  on the whole body.
\<close>

section \<open>Counters\<close>

definition zero_counters :: usage_counters where
  "zero_counters = \<lparr>RequestCount = 0, FailedRequestCount = 0, InputTokens = 0, OutputTokens = 0, ReasoningTokens = 0,
     CachedInputTokens = 0, CacheReadTokens = 0, CacheCreationTokens = 0, TotalTokens = 0\<rparr>"

definition map_counters2 :: "(int \<Rightarrow> int \<Rightarrow> int) \<Rightarrow> usage_counters \<Rightarrow> usage_counters \<Rightarrow> usage_counters" where
  "map_counters2 f c d =
     \<lparr>RequestCount = f (RequestCount c) (RequestCount d), FailedRequestCount = f (FailedRequestCount c) (FailedRequestCount d),
      InputTokens = f (InputTokens c) (InputTokens d), OutputTokens = f (OutputTokens c) (OutputTokens d),
      ReasoningTokens = f (ReasoningTokens c) (ReasoningTokens d), CachedInputTokens = f (CachedInputTokens c) (CachedInputTokens d),
      CacheReadTokens = f (CacheReadTokens c) (CacheReadTokens d),
      CacheCreationTokens = f (CacheCreationTokens c) (CacheCreationTokens d), TotalTokens = f (TotalTokens c) (TotalTokens d)\<rparr>"

definition counters_add :: "usage_counters \<Rightarrow> usage_counters \<Rightarrow> usage_counters" where
  "counters_add = map_counters2 (\<lambda>a b. wrap64 (a + b))"

definition counters_subtract :: "usage_counters \<Rightarrow> usage_counters \<Rightarrow> usage_counters" where
  "counters_subtract = map_counters2 (\<lambda>a b. wrap64 (a - b))"

definition counters_isZero :: "usage_counters \<Rightarrow> bool" where
  "counters_isZero c \<longleftrightarrow> c = zero_counters"

definition normalized :: "usage_counters \<Rightarrow> usage_counters" where
  "normalized c =
     (if TotalTokens c = 0 \<and> (0 < InputTokens c \<or> 0 < OutputTokens c)
      then c\<lparr>TotalTokens := wrap64 (InputTokens c + OutputTokens c)\<rparr> else c)"

section \<open>Extraction\<close>

text \<open>
  \<open>decode_usage\<close> is the decoder with \<open>UseNumber\<close>, on the first value of the bytes; \<open>float_int64\<close> is
  \<open>strconv.ParseFloat\<close> followed by the conversion to \<open>int64\<close>.
\<close>

record usage_lib =
  decode_usage :: "string \<Rightarrow> json option"
  float_int64 :: "string \<Rightarrow> int option"

text \<open>\<open>strconv.ParseInt(s, 10, 64)\<close> without its error value.\<close>

definition int64_text :: "string \<Rightarrow> int option" where
  "int64_text s =
     (let (neg, ds) = (case s of
            CHR ''-'' # cs \<Rightarrow> (True, cs) | CHR ''+'' # cs \<Rightarrow> (False, cs) | _ \<Rightarrow> (False, s));
          n = (if neg then -1 else 1) * int (digits_value ds)
      in if ds = [] \<or> \<not> list_all is_digit ds \<or> n < min_int64 \<or> max_int64 < n then None else Some n)"

definition int64Value :: "usage_lib \<Rightarrow> json \<Rightarrow> int option" where
  "int64Value lib v =
     (case v of
        JNumber s \<Rightarrow> (case int64_text s of Some n \<Rightarrow> Some n | None \<Rightarrow> float_int64 lib s)
      | JNum r \<Rightarrow> Some (if 0 \<le> r then \<lfloor>r\<rfloor> else \<lceil>r\<rceil>)
      | _ \<Rightarrow> None)"

text \<open>The first of the keys that is there decides, also when its value is no number.\<close>

fun setFirstInt64 :: "usage_lib \<Rightarrow> json_map \<Rightarrow> string list \<Rightarrow> int \<times> bool \<Rightarrow> int \<times> bool" where
  "setFirstInt64 lib values [] st = st"
| "setFirstInt64 lib values (k # ks) st =
     (case map_of values k of
        None \<Rightarrow> setFirstInt64 lib values ks st
      | Some v \<Rightarrow> (case int64Value lib v of Some n \<Rightarrow> (n, True) | None \<Rightarrow> st))"

definition input_details :: "usage_lib \<Rightarrow> json option \<Rightarrow> usage_counters \<times> bool \<Rightarrow> usage_counters \<times> bool" where
  "input_details lib v st =
     (case v of
        Some (JObj details) \<Rightarrow>
          let (c, found) = st;
              (cached, found) = setFirstInt64 lib details [''cached_tokens'', ''cached_input_tokens''] (CachedInputTokens c, found);
              (rd, found) = setFirstInt64 lib details [''cache_read_tokens''] (CacheReadTokens c, found);
              (created, found) = setFirstInt64 lib details [''cache_creation_tokens'', ''cache_creation_input_tokens'']
                (CacheCreationTokens c, found)
          in (c\<lparr>CachedInputTokens := cached, CacheReadTokens := rd, CacheCreationTokens := created\<rparr>, found)
      | _ \<Rightarrow> st)"

definition output_details :: "usage_lib \<Rightarrow> json option \<Rightarrow> usage_counters \<times> bool \<Rightarrow> usage_counters \<times> bool" where
  "output_details lib v st =
     (case v of
        Some (JObj details) \<Rightarrow>
          let (c, found) = st;
              (reasoning, found) = setFirstInt64 lib details [''reasoning_tokens''] (ReasoningTokens c, found)
          in (c\<lparr>ReasoningTokens := reasoning\<rparr>, found)
      | _ \<Rightarrow> st)"

definition usageCountersFromValue :: "usage_lib \<Rightarrow> json \<Rightarrow> usage_counters option" where
  "usageCountersFromValue lib v =
     (case v of
        JObj usage \<Rightarrow>
          let (inp, found) = setFirstInt64 lib usage [''input_tokens'', ''prompt_tokens''] (0, False);
              (out, found) = setFirstInt64 lib usage [''output_tokens'', ''completion_tokens''] (0, found);
              (total, found) = setFirstInt64 lib usage [''total_tokens''] (0, found);
              (reasoning, found) = setFirstInt64 lib usage [''reasoning_tokens''] (0, found);
              (cached, found) = setFirstInt64 lib usage [''cached_input_tokens'', ''cached_tokens''] (0, found);
              (rd, found) = setFirstInt64 lib usage [''cache_read_tokens''] (0, found);
              (created, found) = setFirstInt64 lib usage [''cache_creation_tokens'', ''cache_creation_input_tokens''] (0, found);
              c = zero_counters\<lparr>InputTokens := inp, OutputTokens := out, TotalTokens := total, ReasoningTokens := reasoning,
                    CachedInputTokens := cached, CacheReadTokens := rd, CacheCreationTokens := created\<rparr>;
              (c, found) = input_details lib (map_of usage ''input_tokens_details'') (c, found);
              (c, found) = input_details lib (map_of usage ''prompt_tokens_details'') (c, found);
              (c, found) = output_details lib (map_of usage ''output_tokens_details'') (c, found);
              (c, found) = output_details lib (map_of usage ''completion_tokens_details'') (c, found)
          in if found then Some (normalized c) else None
      | _ \<Rightarrow> None)"

text \<open>
  \<open>collectUsageCounters\<close> visits the members of an object in the order of their keys, \<open>usage\<close> first; the
  counters found are listed in the order of the visit.
\<close>

fun collectUsageCounters :: "usage_lib \<Rightarrow> json \<Rightarrow> usage_counters list" where
  "collectUsageCounters lib (JObj m) =
     (case map_of m ''usage'' of
        Some u \<Rightarrow> (case usageCountersFromValue lib u of Some c \<Rightarrow> [normalized c] | None \<Rightarrow> [])
      | None \<Rightarrow> []) @
     concat (map snd (sort_key fst (map (\<lambda>(k, v). (k, collectUsageCounters lib v)) (filter (\<lambda>(k, v). k \<noteq> ''usage'') m))))"
| "collectUsageCounters lib (JArr vs) = concat (map (collectUsageCounters lib) vs)"
| "collectUsageCounters lib v = []"

fun split_char :: "char \<Rightarrow> string \<Rightarrow> string list" where
  "split_char c [] = [[]]"
| "split_char c (x # xs) =
     (if x = c then [] # split_char c xs
      else (case split_char c xs of [] \<Rightarrow> [[x]] | l # ls \<Rightarrow> (x # l) # ls))"

abbreviation newline :: char where "newline \<equiv> CHR 0x0A"

text \<open>What is left of a line: the payload of a \<open>data:\<close> line, or a line that starts like a JSON value.\<close>

definition usage_line :: "string \<Rightarrow> string option" where
  "usage_line raw =
     (let line = trim_space raw in
      if line = [] then None
      else if prefix ''data:'' line then
        (let d = trim_space (drop 5 line) in if d = ''[DONE]'' then None else Some d)
      else if \<not> prefix ''{'' line \<and> \<not> prefix ''['' line then None
      else if line = ''[DONE]'' then None else Some line)"

definition decoded_counters :: "usage_lib \<Rightarrow> string \<Rightarrow> usage_counters list" where
  "decoded_counters lib text0 = (case decode_usage lib text0 of Some v \<Rightarrow> collectUsageCounters lib v | None \<Rightarrow> [])"

definition extractUsageCounters :: "usage_lib \<Rightarrow> string \<Rightarrow> usage_counters option" where
  "extractUsageCounters lib payload =
     (let found = decoded_counters lib payload @
            concat (map (\<lambda>raw. case usage_line raw of Some line \<Rightarrow> decoded_counters lib line | None \<Rightarrow> [])
              (split_char newline payload))
      in if found = [] then None else Some (normalized (last found)))"

section \<open>The capturing reader\<close>

definition maxUsageCaptureLineBytes :: nat where "maxUsageCaptureLineBytes = 1048576"
definition maxUsageCaptureBytes :: int where "maxUsageCaptureBytes = 2097152"

text \<open>\<open>reports\<close> lists the calls of the callback \<open>finish\<close>, and \<open>finished\<close> is the state of the \<open>sync.Once\<close>.\<close>

record capture_reader =
  cap_limit :: int
  cap_buf :: string
  cap_truncated :: bool
  lineBuf :: string
  lineSkip :: bool
  cap_counters :: usage_counters
  hasUsage :: bool
  finished :: bool
  reports :: "(string \<times> bool \<times> usage_counters \<times> bool) list"

definition newUsageCaptureReadCloser :: "int \<Rightarrow> capture_reader" where
  "newUsageCaptureReadCloser n =
     \<lparr>cap_limit = n, cap_buf = [], cap_truncated = False, lineBuf = [], lineSkip = False, cap_counters = zero_counters,
      hasUsage = False, finished = False, reports = []\<rparr>"

definition appendUsageLine :: "string \<Rightarrow> capture_reader \<Rightarrow> capture_reader" where
  "appendUsageLine part c =
     (if lineSkip c then c
      else if maxUsageCaptureLineBytes < length (lineBuf c) + length part then c\<lparr>lineBuf := [], lineSkip := True\<rparr>
      else c\<lparr>lineBuf := lineBuf c @ part\<rparr>)"

definition line_counters :: "usage_lib \<Rightarrow> string \<Rightarrow> usage_counters option" where
  "line_counters lib raw =
     (case usage_line raw of
        None \<Rightarrow> None
      | Some line \<Rightarrow> if contains ''\"usage\"'' line then extractUsageCounters lib line else None)"

definition flushUsageLine :: "usage_lib \<Rightarrow> capture_reader \<Rightarrow> capture_reader" where
  "flushUsageLine lib c =
     (if lineSkip c then c\<lparr>lineBuf := [], lineSkip := False\<rparr>
      else (case line_counters lib (lineBuf c) of
              None \<Rightarrow> c\<lparr>lineBuf := []\<rparr>
            | Some n \<Rightarrow> c\<lparr>lineBuf := [], cap_counters := n, hasUsage := True\<rparr>))"

function captureUsageLines :: "usage_lib \<Rightarrow> string \<Rightarrow> capture_reader \<Rightarrow> capture_reader" where
  "captureUsageLines lib chunk c =
     (if chunk = [] then c
      else if newline \<notin> set chunk then appendUsageLine chunk c
      else captureUsageLines lib (tl (dropWhile (\<lambda>x. x \<noteq> newline) chunk))
             (flushUsageLine lib (appendUsageLine (takeWhile (\<lambda>x. x \<noteq> newline) chunk) c)))"
  by pat_completeness auto
termination
proof (relation "measure (\<lambda>(lib, chunk, c). length chunk)")
  fix lib :: usage_lib and chunk :: string and c :: capture_reader
  assume "chunk \<noteq> []" "\<not> newline \<notin> set chunk"
  then have "dropWhile (\<lambda>x. x \<noteq> newline) chunk \<noteq> []" by (auto simp: dropWhile_eq_Nil_conv)
  then have "length (tl (dropWhile (\<lambda>x. x \<noteq> newline) chunk)) < length (dropWhile (\<lambda>x. x \<noteq> newline) chunk)" by simp
  also have "\<dots> \<le> length chunk" by (rule length_dropWhile_le)
  finally show "((lib, tl (dropWhile (\<lambda>x. x \<noteq> newline) chunk),
      flushUsageLine lib (appendUsageLine (takeWhile (\<lambda>x. x \<noteq> newline) chunk) c)), lib, chunk, c)
    \<in> measure (\<lambda>(lib, chunk, c). length chunk)" by simp
qed simp

declare captureUsageLines.simps [simp del]

definition capture :: "usage_lib \<Rightarrow> string \<Rightarrow> capture_reader \<Rightarrow> capture_reader" where
  "capture lib chunk c =
     (if chunk = [] then c
      else let c = captureUsageLines lib chunk c in
        if cap_limit c \<le> 0 \<or> cap_limit c \<le> int (length (cap_buf c)) then c\<lparr>cap_truncated := True\<rparr>
        else let remaining = cap_limit c - int (length (cap_buf c)) in
          if remaining < int (length chunk)
          then c\<lparr>cap_buf := cap_buf c @ take (nat remaining) chunk, cap_truncated := True\<rparr>
          else c\<lparr>cap_buf := cap_buf c @ chunk\<rparr>)"

definition finishOnce :: "usage_lib \<Rightarrow> capture_reader \<Rightarrow> capture_reader" where
  "finishOnce lib c =
     (if finished c then c
      else let c = flushUsageLine lib c in
        c\<lparr>finished := True, reports := reports c @ [(cap_buf c, cap_truncated c, cap_counters c, hasUsage c)]\<rparr>)"

text \<open>A call of \<open>Read\<close> that got some bytes, with or without \<open>io.EOF\<close>, and a call of \<open>Close\<close>.\<close>

datatype capture_op = Reading string bool | Closing

fun capture_step :: "usage_lib \<Rightarrow> capture_op \<Rightarrow> capture_reader \<Rightarrow> capture_reader" where
  "capture_step lib (Reading chunk eof) c =
     (let c = capture lib chunk c in if eof then finishOnce lib c else c)"
| "capture_step lib Closing c = finishOnce lib c"

section \<open>The reader does not depend on the pieces\<close>

text \<open>One byte at a time.\<close>

definition feed :: "usage_lib \<Rightarrow> char \<Rightarrow> capture_reader \<Rightarrow> capture_reader" where
  "feed lib x c = (if x = newline then flushUsageLine lib c else appendUsageLine [x] c)"

definition line_ok :: "capture_reader \<Rightarrow> bool" where
  "line_ok c \<longleftrightarrow> length (lineBuf c) \<le> maxUsageCaptureLineBytes"

lemma line_ok_append [simp]: "line_ok c \<Longrightarrow> line_ok (appendUsageLine p c)"
  by (auto simp: line_ok_def appendUsageLine_def)

lemma line_ok_flush [simp]: "line_ok (flushUsageLine lib c)"
  by (auto simp: line_ok_def flushUsageLine_def split: option.split)

lemma append_Nil_line [simp]: "line_ok c \<Longrightarrow> appendUsageLine [] c = c"
  by (auto simp: line_ok_def appendUsageLine_def)

lemma append_append: "appendUsageLine q (appendUsageLine p c) = appendUsageLine (p @ q) c"
  by (auto simp: appendUsageLine_def)

lemma append_feed:
  "line_ok c \<Longrightarrow> newline \<notin> set p \<Longrightarrow> appendUsageLine p c = fold (feed lib) p c"
proof (induction p arbitrary: c)
  case (Cons x p)
  have "feed lib x = appendUsageLine [x]" using Cons.prems(2) by (auto simp: feed_def fun_eq_iff)
  moreover have "appendUsageLine (x # p) c = appendUsageLine p (appendUsageLine [x] c)"
    by (simp add: append_append)
  ultimately show ?case using Cons by simp
qed simp

lemma capture_feed: "line_ok c \<Longrightarrow> captureUsageLines lib chunk c = fold (feed lib) chunk c"
proof (induction lib chunk c rule: captureUsageLines.induct)
  case (1 lib chunk c)
  show ?case
  proof (cases "newline \<in> set chunk")
    case True
    let ?p = "takeWhile (\<lambda>x. x \<noteq> newline) chunk" and ?d = "dropWhile (\<lambda>x. x \<noteq> newline) chunk"
    have ne: "?d \<noteq> []" using True by (auto simp: dropWhile_eq_Nil_conv)
    from hd_dropWhile [OF this] have "hd ?d = newline" by simp
    with ne have d: "?d = newline # tl ?d" by (cases ?d) simp_all
    have p: "newline \<notin> set ?p" by (auto dest: set_takeWhileD)
    have "fold (feed lib) chunk c = fold (feed lib) (?p @ ?d) c" by simp
    also have "\<dots> = fold (feed lib) ?d (appendUsageLine ?p c)"
      unfolding fold_append comp_apply append_feed [OF 1(2) p, of lib] ..
    also have "\<dots> = fold (feed lib) (tl ?d) (flushUsageLine lib (appendUsageLine ?p c))"
      by (subst d) (simp add: feed_def)
    also have "\<dots> = captureUsageLines lib (tl ?d) (flushUsageLine lib (appendUsageLine ?p c))"
      using 1(1) True by (intro 1(1) [symmetric]) auto
    finally show ?thesis using True by (subst captureUsageLines.simps) auto
  next
    case False
    with append_feed [OF 1(2) False, of lib] show ?thesis by (subst captureUsageLines.simps) simp
  qed
qed

lemma line_ok_feed: "line_ok c \<Longrightarrow> line_ok (fold (feed lib) p c)"
  by (induction p arbitrary: c) (auto simp: feed_def)

lemma split_char_not_Nil [simp]: "split_char c xs \<noteq> []"
  by (induction xs) (auto split: list.split)

lemma split_char_snoc:
  "split_char c (xs @ [x]) =
     (if x = c then split_char c xs @ [[]] else butlast (split_char c xs) @ [last (split_char c xs) @ [x]])"
  by (induction xs) (auto split: list.split)

lemma keep_fields [simp]:
  "cap_limit (appendUsageLine p c) = cap_limit c" "cap_buf (appendUsageLine p c) = cap_buf c"
  "cap_truncated (appendUsageLine p c) = cap_truncated c" "finished (appendUsageLine p c) = finished c"
  "reports (appendUsageLine p c) = reports c" "cap_counters (appendUsageLine p c) = cap_counters c"
  "hasUsage (appendUsageLine p c) = hasUsage c"
  "cap_limit (flushUsageLine lib c) = cap_limit c" "cap_buf (flushUsageLine lib c) = cap_buf c"
  "cap_truncated (flushUsageLine lib c) = cap_truncated c" "finished (flushUsageLine lib c) = finished c"
  "reports (flushUsageLine lib c) = reports c"
  by (auto simp: appendUsageLine_def flushUsageLine_def split: option.split)

lemma keep_feed [simp]:
  "cap_limit (fold (feed lib) p c) = cap_limit c" "cap_buf (fold (feed lib) p c) = cap_buf c"
  "cap_truncated (fold (feed lib) p c) = cap_truncated c" "finished (fold (feed lib) p c) = finished c"
  "reports (fold (feed lib) p c) = reports c"
  by (induction p arbitrary: c) (auto simp: feed_def)

text \<open>The reference: the last line of at most the line limit that carries counters decides.\<close>

definition usage_of_lines :: "usage_lib \<Rightarrow> string list \<Rightarrow> usage_counters \<times> bool" where
  "usage_of_lines lib ls =
     (let us = List.map_filter (\<lambda>l. if length l \<le> maxUsageCaptureLineBytes then line_counters lib l else None) ls
      in if us = [] then (zero_counters, False) else (last us, True))"

lemma usage_of_lines_Nil [simp]: "usage_of_lines lib [] = (zero_counters, False)"
  by (simp add: usage_of_lines_def List.map_filter_def)

lemma usage_of_lines_snoc:
  "usage_of_lines lib (ls @ [l]) =
     (if length l \<le> maxUsageCaptureLineBytes then
        (case line_counters lib l of None \<Rightarrow> usage_of_lines lib ls | Some n \<Rightarrow> (n, True))
      else usage_of_lines lib ls)"
  by (auto simp: usage_of_lines_def Let_def List.map_filter_def split: option.split)

definition lines_seen :: "usage_lib \<Rightarrow> string \<Rightarrow> capture_reader \<Rightarrow> bool" where
  "lines_seen lib b c \<longleftrightarrow>
     (let ls = split_char newline b; cur = last ls in
      lineSkip c = (maxUsageCaptureLineBytes < length cur) \<and>
      lineBuf c = (if lineSkip c then [] else cur) \<and>
      (cap_counters c, hasUsage c) = usage_of_lines lib (butlast ls))"

lemma lines_seen_ok: "lines_seen lib b c \<Longrightarrow> line_ok c"
  by (auto simp: lines_seen_def line_ok_def Let_def)

lemma flush_seen:
  assumes "lines_seen lib b c"
  shows "(cap_counters (flushUsageLine lib c), hasUsage (flushUsageLine lib c)) = usage_of_lines lib (split_char newline b)"
    and "lineBuf (flushUsageLine lib c) = []" "\<not> lineSkip (flushUsageLine lib c)"
proof -
  let ?ls = "split_char newline b"
  note split = usage_of_lines_snoc [of lib "butlast ?ls" "last ?ls", unfolded append_butlast_last_id [OF split_char_not_Nil]]
  show "(cap_counters (flushUsageLine lib c), hasUsage (flushUsageLine lib c)) = usage_of_lines lib ?ls"
    using assms unfolding split
    by (auto simp: lines_seen_def Let_def flushUsageLine_def split: option.split if_splits)
qed (auto simp: flushUsageLine_def split: option.split)

lemma lines_seen_feed:
  assumes "lines_seen lib b c" shows "lines_seen lib (b @ [x]) (feed lib x c)"
proof (cases "x = newline")
  case True
  with flush_seen [OF assms] show ?thesis by (simp add: lines_seen_def Let_def feed_def split_char_snoc)
next
  case False
  with assms show ?thesis
    by (auto simp: lines_seen_def Let_def feed_def split_char_snoc appendUsageLine_def)
qed

lemma lines_seen_fold: "lines_seen lib b c \<Longrightarrow> lines_seen lib (b @ p) (fold (feed lib) p c)"
proof (induction p arbitrary: b c)
  case (Cons x p)
  from Cons.IH [OF lines_seen_feed [OF Cons.prems]] show ?case by simp
qed simp

definition captured :: "usage_lib \<Rightarrow> int \<Rightarrow> string \<Rightarrow> capture_reader \<Rightarrow> bool" where
  "captured lib n b c \<longleftrightarrow>
     lines_seen lib b c \<and> cap_limit c = n \<and> cap_buf c = take (nat n) b \<and>
     cap_truncated c = (max 0 n < int (length b)) \<and> \<not> finished c \<and> reports c = []"

lemma captured_new: "captured lib n [] (newUsageCaptureReadCloser n)"
  by (simp add: captured_def lines_seen_def newUsageCaptureReadCloser_def)

lemma captured_capture:
  assumes "captured lib n b c" shows "captured lib n (b @ p) (capture lib p c)"
proof (cases "p = []")
  case True
  with assms show ?thesis by (simp add: capture_def)
next
  case False
  let ?c = "fold (feed lib) p c"
  have seen: "lines_seen lib (b @ p) ?c"
    using assms lines_seen_fold by (auto simp: captured_def)
  have upd: "lines_seen lib q (d\<lparr>cap_truncated := t\<rparr>) = lines_seen lib q d"
    "lines_seen lib q (d\<lparr>cap_buf := u\<rparr>) = lines_seen lib q d"
    "lines_seen lib q (d\<lparr>cap_buf := u, cap_truncated := t\<rparr>) = lines_seen lib q d" for q d t u
    by (simp_all add: lines_seen_def Let_def)
  have lines: "captureUsageLines lib p c = ?c"
    using capture_feed lines_seen_ok assms by (auto simp: captured_def)
  have c: "cap_limit c = n" "cap_buf c = take (nat n) b" "\<not> finished c" "reports c = []"
    "cap_truncated c = (max 0 n < int (length b))" using assms by (simp_all add: captured_def)
  have "1 \<le> int (length p)" using False by (cases p) auto
  then show ?thesis
    using False c seen
    by (auto simp: capture_def lines Let_def captured_def upd min_def not_le nat_diff_distrib)
qed

lemma keep_lines [simp]:
  "finished (captureUsageLines lib p c) = finished c" "reports (captureUsageLines lib p c) = reports c"
proof -
  have "finished (captureUsageLines lib p c) = finished c \<and> reports (captureUsageLines lib p c) = reports c"
    by (induction lib p c rule: captureUsageLines.induct) (subst (1 2) captureUsageLines.simps, simp)
  then show "finished (captureUsageLines lib p c) = finished c" "reports (captureUsageLines lib p c) = reports c" by simp_all
qed

lemma finished_stays:
  "finished c \<Longrightarrow> finished (capture_step lib op c) \<and> reports (capture_step lib op c) = reports c"
  by (cases op) (auto simp: finishOnce_def capture_def Let_def)

lemma finished_run:
  "finished c \<Longrightarrow> reports (fold (capture_step lib) ops c) = reports c"
  by (induction ops arbitrary: c) (use finished_stays in auto)

lemma captured_run:
  "captured lib n b c \<Longrightarrow> captured lib n (b @ concat ps) (fold (capture_step lib) (map (\<lambda>p. Reading p False) ps) c)"
proof (induction ps arbitrary: b c)
  case (Cons p ps)
  from Cons.IH [OF captured_capture [OF Cons.prems, of p]] show ?case by simp
qed simp

lemma captured_finish:
  assumes "captured lib n b c"
  shows "finished (finishOnce lib c) \<and> reports (finishOnce lib c) =
    [(take (nat n) b, max 0 n < int (length b), usage_of_lines lib (split_char newline b))]"
  using assms flush_seen(1) [of lib b c]
  by (auto simp: finishOnce_def captured_def Let_def)

text \<open>
  C26: However the response body is cut into pieces, whether the end comes with the last piece, on its
  own or by closing early, and whatever is read or closed afterwards: the callback runs exactly once,
  with the first bytes of the body up to the limit, whether there were more, and the counters of the
  last line of the body (of at most 1 MiB) that carries any.
\<close>

theorem capture_is_chunk_free:
  shows "reports (fold (capture_step lib) (map (\<lambda>p. Reading p False) ps @ Closing # rest) (newUsageCaptureReadCloser n))
      = [(take (nat n) (concat ps), max 0 n < int (length (concat ps)), usage_of_lines lib (split_char newline (concat ps)))] \<and>
    reports (fold (capture_step lib) (map (\<lambda>p. Reading p False) ps @ Reading p True # rest) (newUsageCaptureReadCloser n))
      = [(take (nat n) (concat ps @ p), max 0 n < int (length (concat ps @ p)), usage_of_lines lib (split_char newline (concat ps @ p)))]"
proof -
  have run: "captured lib n (concat ps) (fold (capture_step lib) (map (\<lambda>p. Reading p False) ps) (newUsageCaptureReadCloser n))"
    using captured_run [OF captured_new] by fastforce
  show ?thesis
    using captured_finish [OF run] captured_finish [OF captured_capture [OF run, of p]]
    by (simp add: finished_run Let_def)
qed

end
