(* ===== verification/Sse_Reader.thy ===== *)
theory Sse_Reader
  imports Usage_Counters
begin

text \<open>
  Server-sent events (\<open>responsesSSEReader\<close> and \<open>writeChatSSE\<close> of \<open>chat_completions.go\<close>). A body is the
  bytes that are still to come and how they end; \<open>bufio.Reader\<close> makes the pieces they arrive in
  irrelevant. The round trip \<open>sse_roundtrip\<close> is between the writer and the reader.
\<close>

section \<open>Lines\<close>

definition maxChatSSEEventBytes :: nat where "maxChatSSEEventBytes = 52428800"

datatype body_end = BodyEof | BodyFails

datatype sse_end = SseEof | SseReadError | SseTooLarge

definition next_line :: "string \<Rightarrow> string" where
  "next_line bs = takeWhile (\<lambda>c. c \<noteq> newline) bs @ take 1 (dropWhile (\<lambda>c. c \<noteq> newline) bs)"

definition after_line :: "string \<Rightarrow> string" where
  "after_line bs = drop 1 (dropWhile (\<lambda>c. c \<noteq> newline) bs)"

text \<open>
  \<open>readBoundedSSELine\<close>: the line up to its newline, or what is left of the body together with the way
  it ends; \<open>None\<close> when the line is longer than the limit. The reader takes a long line in fragments of
  4096 bytes, the size of its buffer, so \<open>overlong\<close> bytes are gone when it gives up.
\<close>

definition overlong :: "nat \<Rightarrow> string \<Rightarrow> nat" where
  "overlong limit bs = min (length (next_line bs)) (4096 * (limit div 4096 + 1))"

definition readBoundedSSELine :: "nat \<Rightarrow> string \<Rightarrow> body_end \<Rightarrow> (string \<times> body_end option) option" where
  "readBoundedSSELine limit bs e =
     (if limit < length (next_line bs) then None
      else Some (next_line bs, if newline \<in> set bs then None else Some e))"

lemma next_after [simp]: "next_line bs @ after_line bs = bs"
  by (simp add: next_line_def after_line_def flip: append_assoc)
    (metis append_assoc append_take_drop_id takeWhile_dropWhile_id)

lemma after_shorter: "newline \<in> set bs \<Longrightarrow> length (after_line bs) < length bs"
proof -
  assume "newline \<in> set bs"
  then have "dropWhile (\<lambda>c. c \<noteq> newline) bs \<noteq> []" by (auto simp: dropWhile_eq_Nil_conv)
  then have "length (after_line bs) < length (dropWhile (\<lambda>c. c \<noteq> newline) bs)" by (simp add: after_line_def)
  also have "\<dots> \<le> length bs" by (rule length_dropWhile_le)
  finally show ?thesis .
qed

section \<open>Events\<close>

record sseEvent =
  ev_Event :: string
  ev_Data :: string

definition no_event :: sseEvent where "no_event = \<lparr>ev_Event = [], ev_Data = []\<rparr>"

definition trim_suffix_char :: "char \<Rightarrow> string \<Rightarrow> string" where
  "trim_suffix_char c s = (if s \<noteq> [] \<and> last s = c then butlast s else s)"

definition trimmed_line :: "string \<Rightarrow> string" where
  "trimmed_line line = trim_suffix_char (CHR 0x0D) (trim_suffix_char newline line)"

definition cut_colon :: "string \<Rightarrow> string \<times> string" where
  "cut_colon s =
     (let v = drop 1 (dropWhile (\<lambda>c. c \<noteq> CHR '':'') s)
      in (takeWhile (\<lambda>c. c \<noteq> CHR '':'') s, if v \<noteq> [] \<and> hd v = CHR '' '' then tl v else v))"

definition sse_field :: "string \<Rightarrow> sseEvent \<Rightarrow> sseEvent" where
  "sse_field t ev =
     (if hd t = CHR '':'' then ev
      else (case cut_colon t of (field, v) \<Rightarrow>
        if field = ''event'' then ev\<lparr>ev_Event := trim_space v\<rparr>
        else if field = ''data'' then ev\<lparr>ev_Data := (if ev_Data ev \<noteq> [] then ev_Data ev @ [newline] else []) @ v\<rparr>
        else ev))"

text \<open>\<open>next\<close>, with the bytes the event has used so far; it leaves the bytes behind the event.\<close>

function next_event :: "nat \<Rightarrow> sseEvent \<Rightarrow> string \<Rightarrow> body_end \<Rightarrow> (sse_end + sseEvent) \<times> string" where
  "next_event used ev bs e =
     (case readBoundedSSELine (maxChatSSEEventBytes - used) bs e of
        None \<Rightarrow>
          let rest = drop (overlong (maxChatSSEEventBytes - used) bs) bs
          in (if ev_Data ev \<noteq> [] then Inr ev else Inl SseTooLarge, rest)
      | Some (line, fin) \<Rightarrow>
          let t = trimmed_line line; rest = after_line bs in
          if t = [] \<and> ev_Data ev \<noteq> [] then (Inr ev, rest)
          else
            let ev' = (if t = [] then no_event else sse_field t ev); used' = (if t = [] then 0 else used + length line)
            in (case fin of
                  Some BodyEof \<Rightarrow> if ev_Data ev' \<noteq> [] then (Inr ev', rest) else (Inl SseEof, rest)
                | Some BodyFails \<Rightarrow> (Inl SseReadError, rest)
                | None \<Rightarrow> next_event used' ev' rest e))"
  by pat_completeness auto
termination
  by (relation "measure (\<lambda>(used, ev, bs, e). length bs)")
    (auto simp: readBoundedSSELine_def after_shorter split: if_splits)

declare next_event.simps [simp del]

lemma read_line_cases:
  "readBoundedSSELine limit bs e = Some (line, fin) \<Longrightarrow>
     line = next_line bs \<and> length line \<le> limit \<and> fin = (if newline \<in> set bs then None else Some e)"
  by (auto simp: readBoundedSSELine_def split: if_splits)

lemma line_lengths: "length (next_line bs) + length (after_line bs) = length bs"
  unfolding length_append [symmetric] next_after ..

lemma next_line_pos: "bs \<noteq> [] \<Longrightarrow> 0 < length (next_line bs)"
  by (cases bs) (simp_all add: next_line_def)

lemma after_le: "length (after_line bs) \<le> length bs" "bs \<noteq> [] \<Longrightarrow> length (after_line bs) < length bs"
  using line_lengths [of bs] next_line_pos [of bs] by linarith+

lemma overlong_pos:
  assumes "readBoundedSSELine limit bs e = None" shows "0 < overlong limit bs" "bs \<noteq> []"
proof -
  have "limit < length (next_line bs)" using assms by (simp add: readBoundedSSELine_def split: if_splits)
  then show "0 < overlong limit bs" by (auto simp: overlong_def)
  show "bs \<noteq> []" using \<open>limit < length (next_line bs)\<close> by (auto simp: next_line_def)
qed

text \<open>An event that is returned used up at least one byte, unless it was pending before.\<close>

lemma next_event_progress:
  "next_event used ev bs e = (Inr ev', rest) \<Longrightarrow>
     length rest \<le> length bs \<and> (ev_Data ev = [] \<longrightarrow> length rest < length bs)"
proof (induction used ev bs e rule: next_event.induct)
  case (1 used ev bs e)
  show ?case
  proof (cases "readBoundedSSELine (maxChatSSEEventBytes - used) bs e")
    case None
    have "ev_Data ev \<noteq> [] \<and> rest = drop (overlong (maxChatSSEEventBytes - used) bs) bs"
      using 1(2) by (subst (asm) next_event.simps) (simp add: None Let_def split: if_splits)
    then show ?thesis by simp
  next
    case (Some lf)
    obtain line fin where lf: "lf = (line, fin)" by (cases lf)
    note line = read_line_cases [OF Some [unfolded lf]]
    define t where "t = trimmed_line line"
    define ev1 where "ev1 = (if t = [] then no_event else sse_field t ev)"
    define used1 where "used1 = (if t = [] then 0 else used + length line)"
    have step: "next_event used ev bs e =
       (if t = [] \<and> ev_Data ev \<noteq> [] then (Inr ev, after_line bs)
        else (case fin of
                Some BodyEof \<Rightarrow> if ev_Data ev1 \<noteq> [] then (Inr ev1, after_line bs) else (Inl SseEof, after_line bs)
              | Some BodyFails \<Rightarrow> (Inl SseReadError, after_line bs)
              | None \<Rightarrow> next_event used1 ev1 (after_line bs) e))"
      by (subst next_event.simps) (simp only: Some lf option.case prod.case Let_def t_def ev1_def used1_def)
    show ?thesis
    proof (cases "t = [] \<and> ev_Data ev \<noteq> []")
      case True
      with 1(2) step after_le(1) show ?thesis by auto
    next
      case False
      note out = 1(2) [unfolded step if_not_P [OF False]]
      show ?thesis
      proof (cases fin)
        case None
        with line have bs: "newline \<in> set bs" by (auto split: if_splits)
        have "length rest \<le> length (after_line bs)"
          using 1(1) [OF Some lf [symmetric] t_def refl False ev1_def used1_def None] out None by simp
        with after_shorter [OF bs] show ?thesis by simp
      next
        case (Some x)
        have "bs \<noteq> []" if "ev_Data ev = []"
        proof
          assume "bs = []"
          then have "t = []" using line by (simp add: t_def trimmed_line_def trim_suffix_char_def next_line_def)
          with out Some show False by (cases x) (simp_all add: ev1_def no_event_def)
        qed
        moreover have "rest = after_line bs" using out Some by (cases x) (simp_all split: if_splits)
        ultimately show ?thesis using after_le by blast
      qed
    qed
  qed
qed

section \<open>Streams\<close>

text \<open>\<open>readResponsesSSE\<close> with a handler that accepts every event: the events, and how the reading ends.\<close>

function read_events :: "string \<Rightarrow> body_end \<Rightarrow> sseEvent list \<times> sse_end" where
  "read_events bs e =
     (case next_event 0 no_event bs e of
        (Inl fin, rest) \<Rightarrow> ([], fin)
      | (Inr ev, rest) \<Rightarrow> (case read_events rest e of (evs, fin) \<Rightarrow> (ev # evs, fin)))"
  by pat_completeness auto
termination
  by (relation "measure (\<lambda>(bs, e). length bs)") (auto dest: next_event_progress [OF sym] simp: no_event_def)

declare read_events.simps [simp del]

text \<open>\<open>writeChatSSE\<close> of a value that \<open>json.Marshal\<close> rendered as \<open>raw\<close>, and \<open>writeAndFlushChatDone\<close>.\<close>

definition writeChatSSE :: "string \<Rightarrow> string" where
  "writeChatSSE raw = ''data: '' @ raw @ [newline, newline]"

definition chatDone :: string where "chatDone = writeChatSSE ''[DONE]''"

section \<open>Round trip\<close>

text \<open>Rendered JSON: not empty, on one line.\<close>

definition one_line :: "string \<Rightarrow> bool" where
  "one_line raw \<longleftrightarrow> raw \<noteq> [] \<and> newline \<notin> set raw \<and> CHR 0x0D \<notin> set raw \<and> length raw + 8 \<le> maxChatSSEEventBytes"

lemma next_line_here: "newline \<notin> set l \<Longrightarrow> next_line (l @ newline # tail0) = l @ [newline] \<and> after_line (l @ newline # tail0) = tail0"
  by (induction l) (auto simp: next_line_def after_line_def)

lemma read_line_here:
  "newline \<notin> set l \<Longrightarrow> length l < limit \<Longrightarrow> readBoundedSSELine limit (l @ newline # tail0) e = Some (l @ [newline], None)"
  by (simp add: readBoundedSSELine_def next_line_here)

lemma trimmed_here: "CHR 0x0D \<notin> set l \<Longrightarrow> trimmed_line (l @ [newline]) = l"
  by (auto simp: trimmed_line_def trim_suffix_char_def dest: last_in_set)

lemma next_written:
  assumes "one_line raw"
  shows "next_event 0 no_event (writeChatSSE raw @ tail0) e = (Inr \<lparr>ev_Event = [], ev_Data = raw\<rparr>, tail0)"
proof -
  let ?l = "''data: '' @ raw" and ?ev = "\<lparr>ev_Event = [], ev_Data = raw\<rparr>"
  have l: "newline \<notin> set ?l" "CHR 0x0D \<notin> set ?l" "length ?l + 2 \<le> maxChatSSEEventBytes" "raw \<noteq> []"
    using assms by (auto simp: one_line_def)
  have bs: "writeChatSSE raw @ tail0 = ?l @ newline # ([] @ newline # tail0)" by (simp add: writeChatSSE_def)
  have "cut_colon ?l = (''data'', raw)" by (simp add: cut_colon_def Let_def)
  then have field: "sse_field ?l no_event = ?ev" by (simp add: sse_field_def no_event_def)
  have two: "next_event (length ?l + 1) ?ev ([] @ newline # tail0) e = (Inr ?ev, tail0)"
    using read_line_here [of "[]" "maxChatSSEEventBytes - (length ?l + 1)" tail0 e] next_line_here [of "[]" tail0] l(3,4)
      trimmed_here [of "[]"]
    by (subst next_event.simps) (simp add: Let_def)
  have "next_event 0 no_event (?l @ newline # ([] @ newline # tail0)) e = next_event (length ?l + 1) ?ev ([] @ newline # tail0) e"
    using read_line_here [OF l(1), of maxChatSSEEventBytes "[] @ newline # tail0" e] next_line_here [OF l(1), of "[] @ newline # tail0"]
      trimmed_here [OF l(2)] l(3) field
    by (subst next_event.simps) (simp add: Let_def no_event_def)
  with two show ?thesis by (simp add: bs)
qed

text \<open>
  C23: Reading what was written gives the written values, in order, and then the end of the stream, for
  every list of one-line values.
\<close>

theorem sse_roundtrip:
  assumes "list_all one_line raws"
  shows "read_events (concat (map writeChatSSE raws)) BodyEof = (map (\<lambda>raw. \<lparr>ev_Event = [], ev_Data = raw\<rparr>) raws, SseEof)"
  using assms
proof (induction raws)
  case Nil
  have "next_event 0 no_event [] BodyEof = (Inl SseEof, [])"
    by (subst next_event.simps)
      (simp add: readBoundedSSELine_def next_line_def after_line_def trimmed_line_def trim_suffix_char_def no_event_def)
  then show ?case by (subst read_events.simps) simp
next
  case (Cons raw raws)
  then show ?case by (subst read_events.simps) (simp add: next_written)
qed

theorem sse_roundtrip_witness:
  "read_events (writeChatSSE ''{}'' @ chatDone) BodyEof
     = ([\<lparr>ev_Event = [], ev_Data = ''{}''\<rparr>, \<lparr>ev_Event = [], ev_Data = ''[DONE]''\<rparr>], SseEof)"
  using sse_roundtrip [of "[''{}'', ''[DONE]'']"] by (simp add: one_line_def maxChatSSEEventBytes_def chatDone_def)

section \<open>A truncated event\<close>

text \<open>
  When a line does not fit any tail0, the reader looks at the empty line it got instead before it looks
  at the error: the lines it already has are handed out as a complete event, and the reading goes on in
  the middle of the long line.
\<close>

theorem truncated_event:
  assumes "one_line raw" "newline \<notin> set big" "maxChatSSEEventBytes \<le> length big"
  shows "\<exists>rest. next_event 0 no_event (''data: '' @ raw @ newline # big @ newline # tail0) e
     = (Inr \<lparr>ev_Event = [], ev_Data = raw\<rparr>, rest)"
proof -
  let ?l = "''data: '' @ raw" and ?ev = "\<lparr>ev_Event = [], ev_Data = raw\<rparr>"
  have l: "newline \<notin> set ?l" "CHR 0x0D \<notin> set ?l" "length ?l + 2 \<le> maxChatSSEEventBytes" "raw \<noteq> []"
    using assms(1) by (auto simp: one_line_def)
  have "cut_colon ?l = (''data'', raw)" by (simp add: cut_colon_def Let_def)
  then have field: "sse_field ?l no_event = ?ev" by (simp add: sse_field_def no_event_def)
  let ?bs = "big @ newline # tail0"
  have "readBoundedSSELine (maxChatSSEEventBytes - (length ?l + 1)) ?bs e = None"
    using assms(2,3) by (simp add: readBoundedSSELine_def next_line_here)
  then have two: "\<exists>rest. next_event (length ?l + 1) ?ev ?bs e = (Inr ?ev, rest)"
    using l(4) by (subst next_event.simps) (simp add: Let_def)
  have "next_event 0 no_event (?l @ newline # ?bs) e = next_event (length ?l + 1) ?ev ?bs e"
    using read_line_here [OF l(1), of maxChatSSEEventBytes ?bs e] next_line_here [OF l(1), of ?bs]
      trimmed_here [OF l(2)] l(3) field
    by (subst next_event.simps) (simp add: Let_def no_event_def)
  with two show ?thesis by simp
qed

theorem truncated_event_witness:
  "\<exists>rest. next_event 0 no_event (''data: '' @ ''{}'' @ newline # replicate maxChatSSEEventBytes (CHR ''x'') @ newline # []) BodyEof
     = (Inr \<lparr>ev_Event = [], ev_Data = ''{}''\<rparr>, rest)"
proof (rule truncated_event)
  show "one_line ''{}''" by (simp add: one_line_def maxChatSSEEventBytes_def)
  show "newline \<notin> set (replicate maxChatSSEEventBytes (CHR ''x''))" by (simp add: maxChatSSEEventBytes_def)
  show "maxChatSSEEventBytes \<le> length (replicate maxChatSSEEventBytes (CHR ''x''))" by (simp only: length_replicate order_refl)
qed

end
