(* ===== verification/User_Store.thy ===== *)
theory User_Store
  imports Failover
begin

text \<open>
  Users and their API keys (\<open>user_store.go\<close>), and how a request is authorised with them (\<open>server.go\<close>).
  Random tokens are arguments, \<open>None\<close> for a failing source; SHA-256 is the library's. The constraints of
  the schema (primary keys, the unique name without regard to ASCII case, the unique hash, one
  enabled key per user, the foreign key) are checked by the statements as SQLite does, and their
  messages go through \<open>mapSQLiteError\<close>.
\<close>

section \<open>Records\<close>

record UserRecord =
  u_ID :: string
  u_Name :: string
  u_Enabled :: bool
  u_CreatedAt :: time
  u_UpdatedAt :: time

record APIKeyRecord =
  k_ID :: string
  k_UserID :: string
  KeyHash :: string
  KeyPrefix :: string
  MaskedKey :: string
  k_Enabled :: bool
  k_CreatedAt :: time
  RotatedAt :: "time option"
  LastUsedAt :: "time option"

record UserWithAPIKey =
  uw_User :: UserRecord
  uw_APIKey :: "APIKeyRecord option"

record CreatedUserAPIKey =
  cu_User :: UserRecord
  cu_APIKey :: APIKeyRecord
  PlaintextAPIKey :: string

section \<open>Keys and names\<close>

definition apiKeyPrefix :: string where "apiKeyPrefix = ''cop_''"

definition normalizeUserName :: "string \<Rightarrow> string option" where
  "normalizeUserName name0 = (let name = trim_space name0 in if name = [] then None else Some name)"

definition randomID :: "string \<Rightarrow> string option \<Rightarrow> string option" where
  "randomID kind token = map_option (\<lambda>t. kind @ ''_'' @ t) token"

definition generateAPIKey :: "string option \<Rightarrow> string option" where
  "generateAPIKey token = map_option (\<lambda>t. apiKeyPrefix @ t) token"

definition hashAPIKey :: "go_lib \<Rightarrow> string \<Rightarrow> string" where
  "hashAPIKey lib key = sha256_hex lib key"

definition displayKeyPrefix :: "string \<Rightarrow> string" where
  "displayKeyPrefix key = (if length key \<le> 12 then key else take 12 key)"

definition maskAPIKey :: "string \<Rightarrow> string" where
  "maskAPIKey key =
     (if length key \<le> 18 then displayKeyPrefix key @ ''...''
      else take 11 key @ ''...'' @ drop (length key - 6) key)"

text \<open>The comparison of \<open>COLLATE NOCASE\<close>: ASCII letters only.\<close>

definition nocase :: "string \<Rightarrow> string" where "nocase = map ascii_lower"

section \<open>Errors of the database\<close>

text \<open>\<open>err.Error()\<close>, as far as \<open>mapSQLiteError\<close> looks at it.\<close>

fun err_text :: "go_err \<Rightarrow> string" where
  "err_text (PlainError msg) = msg"
| "err_text (StorageError op e) = ''storage failure: '' @ op @ '': '' @ err_text e"
| "err_text (WrapInvalidInput e) = ''invalid input: '' @ err_text e"
| "err_text ErrDuplicateUserName = ''duplicate user name''"
| "err_text e = []"

definition mapSQLiteError :: "go_err \<Rightarrow> go_err" where
  "mapSQLiteError e =
     (let message = lower_ascii_view (err_text e) in
      if contains ''unique'' message \<and> contains ''users.name'' message then ErrDuplicateUserName
      else if contains ''constraint failed'' message \<or> contains ''constraint'' message then WrapInvalidInput e
      else e)"

definition unique_failed :: "string \<Rightarrow> go_err" where
  "unique_failed column = PlainError (''constraint failed: UNIQUE constraint failed: '' @ column)"

definition foreign_key_failed :: go_err where
  "foreign_key_failed = PlainError ''constraint failed: FOREIGN KEY constraint failed''"

text \<open>A statement whose error is mapped: it fails with the script's fault, or with the violated constraint.\<close>

definition sql_mapped :: "tables \<Rightarrow> string \<Rightarrow> go_err option \<Rightarrow> user_store \<Rightarrow> (user_store \<Rightarrow> 'a outcome) \<Rightarrow> 'a outcome" where
  "sql_mapped base operation violated s k =
     (case next_fault s of
        (Some e, s') \<Rightarrow> store_error operation (mapSQLiteError e) (s'\<lparr>db := base\<rparr>)
      | (None, s') \<Rightarrow>
          (case violated of
             Some e \<Rightarrow> store_error operation (mapSQLiteError e) (s'\<lparr>db := base\<rparr>)
           | None \<Rightarrow> k s'))"

definition user_violation :: "tables \<Rightarrow> string \<Rightarrow> string \<Rightarrow> go_err option" where
  "user_violation t i name =
     (if map_of (users t) i \<noteq> None then Some (unique_failed ''users.id'')
      else if \<exists>r\<in>set (users t). nocase (ur_name (snd r)) = nocase name then Some (unique_failed ''users.name'')
      else None)"

definition key_violation :: "tables \<Rightarrow> APIKeyRecord \<Rightarrow> go_err option" where
  "key_violation t k =
     (if map_of (api_keys t) (k_ID k) \<noteq> None then Some (unique_failed ''api_keys.id'')
      else if \<exists>r\<in>set (api_keys t). kr_key_hash (snd r) = KeyHash k then Some (unique_failed ''api_keys.key_hash'')
      else if k_Enabled k \<and> (\<exists>r\<in>set (api_keys t). kr_user_id (snd r) = k_UserID k \<and> kr_enabled (snd r))
      then Some (unique_failed ''api_keys.user_id'')
      else if map_of (users t) (k_UserID k) = None then Some foreign_key_failed
      else None)"

section \<open>Rows\<close>

definition row_of_user :: "UserRecord \<Rightarrow> user_row" where
  "row_of_user u = \<lparr>ur_name = u_Name u, ur_enabled = u_Enabled u, ur_created_at = formatDBTime (u_CreatedAt u),
     ur_updated_at = formatDBTime (u_UpdatedAt u)\<rparr>"

definition row_of_key :: "APIKeyRecord \<Rightarrow> key_row" where
  "row_of_key k = \<lparr>kr_user_id = k_UserID k, kr_key_hash = KeyHash k, kr_key_prefix = KeyPrefix k,
     kr_masked_key = MaskedKey k, kr_enabled = k_Enabled k, kr_created_at = formatDBTime (k_CreatedAt k),
     kr_rotated_at = map_option formatDBTime (RotatedAt k), kr_last_used_at = map_option formatDBTime (LastUsedAt k)\<rparr>"

definition parse_nullable :: "string option \<Rightarrow> time option option" where
  "parse_nullable v = (case v of None \<Rightarrow> Some None | Some x \<Rightarrow> map_option Some (parseDBTime x))"

definition scan_user :: "string \<times> user_row \<Rightarrow> UserRecord option" where
  "scan_user r =
     (case (parseDBTime (ur_created_at (snd r)), parseDBTime (ur_updated_at (snd r))) of
        (Some c, Some u) \<Rightarrow> Some \<lparr>u_ID = fst r, u_Name = ur_name (snd r), u_Enabled = ur_enabled (snd r),
                               u_CreatedAt = c, u_UpdatedAt = u\<rparr>
      | _ \<Rightarrow> None)"

definition scan_key :: "string \<times> key_row \<Rightarrow> APIKeyRecord option" where
  "scan_key r =
     (case (parseDBTime (kr_created_at (snd r)), parse_nullable (kr_rotated_at (snd r)),
            parse_nullable (kr_last_used_at (snd r))) of
        (Some c, Some ro, Some lu) \<Rightarrow>
          Some \<lparr>k_ID = fst r, k_UserID = kr_user_id (snd r), KeyHash = kr_key_hash (snd r),
                KeyPrefix = kr_key_prefix (snd r), MaskedKey = kr_masked_key (snd r), k_Enabled = kr_enabled (snd r),
                k_CreatedAt = c, RotatedAt = ro, LastUsedAt = lu\<rparr>
      | _ \<Rightarrow> None)"

definition bad_time :: go_err where "bad_time = PlainError ''parse database time''"

text \<open>\<open>scanJoinedUserAPIKey\<close> on a row of the join, whose key columns may all be null.\<close>

definition scan_joined :: "(string \<times> user_row) \<times> (string \<times> key_row) option \<Rightarrow> (UserRecord \<times> APIKeyRecord option) option" where
  "scan_joined r =
     (case scan_user (fst r) of
        None \<Rightarrow> None
      | Some u \<Rightarrow>
          (case snd r of
             None \<Rightarrow> Some (u, None)
           | Some kr \<Rightarrow> (case scan_key kr of None \<Rightarrow> None | Some k \<Rightarrow> Some (u, Some k))))"

definition enabled_keys :: "tables \<Rightarrow> string \<Rightarrow> (string \<times> key_row) list" where
  "enabled_keys t i = filter (\<lambda>r. kr_user_id (snd r) = i \<and> kr_enabled (snd r)) (api_keys t)"

definition joined_rows :: "tables \<Rightarrow> string \<times> user_row \<Rightarrow> ((string \<times> user_row) \<times> (string \<times> key_row) option) list" where
  "joined_rows t u =
     (case enabled_keys t (fst u) of [] \<Rightarrow> [(u, None)] | ks \<Rightarrow> map (\<lambda>k. (u, Some k)) ks)"

section \<open>Operations\<close>

definition update_users :: "((string \<times> user_row) list \<Rightarrow> (string \<times> user_row) list) \<Rightarrow> user_store \<Rightarrow> user_store" where
  "update_users f = with_db (\<lambda>d. d\<lparr>users := f (users d)\<rparr>)"

definition update_keys :: "((string \<times> key_row) list \<Rightarrow> (string \<times> key_row) list) \<Rightarrow> user_store \<Rightarrow> user_store" where
  "update_keys f = with_db (\<lambda>d. d\<lparr>api_keys := f (api_keys d)\<rparr>)"

definition no_randomness :: go_err where "no_randomness = PlainError ''generate random token''"

definition new_key :: "go_lib \<Rightarrow> string \<Rightarrow> string \<Rightarrow> string \<Rightarrow> time \<Rightarrow> time option \<Rightarrow> APIKeyRecord" where
  "new_key lib i user plain now rotated =
     \<lparr>k_ID = i, k_UserID = user, KeyHash = hashAPIKey lib plain, KeyPrefix = displayKeyPrefix plain,
      MaskedKey = maskAPIKey plain, k_Enabled = True, k_CreatedAt = now, RotatedAt = rotated, LastUsedAt = None\<rparr>"

definition CreateUser ::
  "go_lib \<Rightarrow> string option \<Rightarrow> string option \<Rightarrow> string option \<Rightarrow> string \<Rightarrow> bool option \<Rightarrow> user_store
     \<Rightarrow> CreatedUserAPIKey outcome" where
  "CreateUser lib key_token user_token id_token name0 enabled s = ready s (\<lambda>s.
     case normalizeUserName name0 of
       None \<Rightarrow> (Inl ErrInvalidInput, s)
     | Some name \<Rightarrow>
         (case (generateAPIKey key_token, randomID ''usr'' user_token, randomID ''key'' id_token) of
            (Some plain, Some userID, Some keyID) \<Rightarrow>
              let now = clock s; base = db s;
                  user = \<lparr>u_ID = userID, u_Name = name, u_Enabled = (case enabled of None \<Rightarrow> True | Some b \<Rightarrow> b),
                          u_CreatedAt = now, u_UpdatedAt = now\<rparr>;
                  key = new_key lib keyID userID plain now None
              in sql base ''begin create user'' s (\<lambda>s.
                 sql_mapped base ''insert user'' (user_violation (db s) userID name) s (\<lambda>s.
                 let s = update_users (\<lambda>us. us @ [(userID, row_of_user user)]) s in
                 sql_mapped base ''insert user API key'' (key_violation (db s) key) s (\<lambda>s.
                 let s = update_keys (\<lambda>ks. ks @ [(keyID, row_of_key key)]) s in
                 sql base ''commit create user'' s (\<lambda>s.
                 (Inr \<lparr>cu_User = user, cu_APIKey = key, PlaintextAPIKey = plain\<rparr>, s)))))
          | _ \<Rightarrow> (Inl no_randomness, s)))"

fun scan_all :: "((string \<times> user_row) \<times> (string \<times> key_row) option) list \<Rightarrow> UserWithAPIKey list \<Rightarrow> user_store
    \<Rightarrow> (UserWithAPIKey list) outcome" where
  "scan_all [] acc s = sql (db s) ''list users rows'' s (\<lambda>s. sql (db s) ''close user rows'' s (\<lambda>s. (Inr acc, s)))"
| "scan_all (r # rs) acc s =
     sql (db s) ''scan user'' s (\<lambda>s.
       case scan_joined r of
         None \<Rightarrow> store_error ''scan user'' bad_time s
       | Some (u, k) \<Rightarrow> scan_all rs (acc @ [\<lparr>uw_User = u, uw_APIKey = k\<rparr>]) s)"

definition ListUsers :: "bool option \<Rightarrow> user_store \<Rightarrow> (UserWithAPIKey list) outcome" where
  "ListUsers enabled s = ready s (\<lambda>s.
     sql (db s) ''list users'' s (\<lambda>s.
       let chosen = filter (\<lambda>r. case enabled of None \<Rightarrow> True | Some b \<Rightarrow> ur_enabled (snd r) = b) (users (db s))
       in scan_all (concat (map (joined_rows (db s)) (sort_key (\<lambda>r. nocase (ur_name (snd r))) chosen))) [] s))"

definition GetUser :: "string \<Rightarrow> user_store \<Rightarrow> UserWithAPIKey outcome" where
  "GetUser id0 s = ready s (\<lambda>s.
     sql (db s) ''get user'' s (\<lambda>s.
       case map_of (users (db s)) (trim_space id0) of
         None \<Rightarrow> (Inl ErrUserNotFound, s)
       | Some row \<Rightarrow>
           (case scan_joined (hd (joined_rows (db s) (trim_space id0, row))) of
              None \<Rightarrow> store_error ''get user'' bad_time s
            | Some (u, k) \<Rightarrow> (Inr \<lparr>uw_User = u, uw_APIKey = k\<rparr>, s))))"

text \<open>
  The \<open>UPDATE\<close> of \<open>UpdateUser\<close>, with the values of the user it read, as a step of its own: other
  requests may run between the two.
\<close>

definition name_taken :: "tables \<Rightarrow> string \<Rightarrow> string \<Rightarrow> go_err option" where
  "name_taken t i name =
     (if map_of (users t) i \<noteq> None \<and> (\<exists>r\<in>set (users t). fst r \<noteq> i \<and> nocase (ur_name (snd r)) = nocase name)
      then Some (unique_failed ''users.name'') else None)"

definition set_user :: "string \<Rightarrow> string \<Rightarrow> bool \<Rightarrow> time \<Rightarrow> user_store \<Rightarrow> user_store" where
  "set_user i name enabled now =
     update_users (map (\<lambda>r. if fst r = i
       then (i, (snd r)\<lparr>ur_name := name, ur_enabled := enabled, ur_updated_at := formatDBTime now\<rparr>) else r))"

definition update_user_write :: "string \<Rightarrow> UserRecord \<Rightarrow> string option \<Rightarrow> bool option \<Rightarrow> user_store \<Rightarrow> UserWithAPIKey outcome" where
  "update_user_write i current name0 enabled0 s =
     (case (case name0 of None \<Rightarrow> Some (u_Name current) | Some n \<Rightarrow> normalizeUserName n) of
        None \<Rightarrow> (Inl ErrInvalidInput, s)
      | Some name \<Rightarrow>
          let enabled = (case enabled0 of None \<Rightarrow> u_Enabled current | Some b \<Rightarrow> b) in
          sql_mapped (db s) ''update user'' (name_taken (db s) i name) s (\<lambda>s.
          GetUser i (set_user i name enabled (clock s) s)))"

definition UpdateUser :: "string \<Rightarrow> string option \<Rightarrow> bool option \<Rightarrow> user_store \<Rightarrow> UserWithAPIKey outcome" where
  "UpdateUser id0 name enabled s = ready s (\<lambda>s.
     let i = trim_space id0 in
     if i = [] then (Inl ErrUserNotFound, s)
     else (case GetUser i s of
             (Inl e, s) \<Rightarrow> (Inl e, s)
           | (Inr current, s) \<Rightarrow> update_user_write i (uw_User current) name enabled s))"

definition disable_keys :: "string \<Rightarrow> user_store \<Rightarrow> user_store" where
  "disable_keys user = update_keys (map (\<lambda>r. if kr_user_id (snd r) = user \<and> kr_enabled (snd r)
       then (fst r, (snd r)\<lparr>kr_enabled := False\<rparr>) else r))"

definition ResetUserAPIKey :: "go_lib \<Rightarrow> string option \<Rightarrow> string option \<Rightarrow> string \<Rightarrow> user_store \<Rightarrow> CreatedUserAPIKey outcome" where
  "ResetUserAPIKey lib key_token id_token userID s = ready s (\<lambda>s.
     case GetUser userID s of
       (Inl e, s) \<Rightarrow> (Inl e, s)
     | (Inr found, s) \<Rightarrow>
         let user = uw_User found in
         (case (generateAPIKey key_token, randomID ''key'' id_token) of
            (Some plain, Some keyID) \<Rightarrow>
              let base = db s; now = clock s; key = new_key lib keyID (u_ID user) plain now (Some now) in
              sql base ''begin reset API key'' s (\<lambda>s.
              sql base ''disable previous API keys'' s (\<lambda>s.
              let s = disable_keys (u_ID user) s in
              sql_mapped base ''insert replacement API key'' (key_violation (db s) key) s (\<lambda>s.
              let s = update_keys (\<lambda>ks. ks @ [(keyID, row_of_key key)]) s in
              sql base ''commit reset API key'' s (\<lambda>s.
              (Inr \<lparr>cu_User = user, cu_APIKey = key, PlaintextAPIKey = plain\<rparr>, s)))))
          | _ \<Rightarrow> (Inl no_randomness, s)))"

definition find_hash :: "tables \<Rightarrow> string \<Rightarrow> (string \<times> key_row) option" where
  "find_hash t h = find (\<lambda>r. kr_key_hash (snd r) = h) (api_keys t)"

definition AuthenticateAPIKey :: "go_lib \<Rightarrow> string \<Rightarrow> user_store \<Rightarrow> (UserRecord \<times> APIKeyRecord) outcome" where
  "AuthenticateAPIKey lib key0 s = ready s (\<lambda>s.
     let key = trim_space key0 in
     if key = [] then (Inl ErrInvalidAPIKey, s)
     else sql (db s) ''authenticate API key'' s (\<lambda>s.
       case find_hash (db s) (hashAPIKey lib key) of
         None \<Rightarrow> (Inl ErrInvalidAPIKey, s)
       | Some kr \<Rightarrow>
           (case map_of (users (db s)) (kr_user_id (snd kr)) of
              None \<Rightarrow> (Inl ErrInvalidAPIKey, s)
            | Some ur \<Rightarrow>
                (case scan_joined ((kr_user_id (snd kr), ur), Some kr) of
                   None \<Rightarrow> store_error ''authenticate API key'' bad_time s
                 | Some (u, None) \<Rightarrow> (Inl ErrInvalidAPIKey, s)
                 | Some (u, Some k) \<Rightarrow>
                     if \<not> k_Enabled k then (Inl ErrInvalidAPIKey, s)
                     else if \<not> u_Enabled u then (Inl ErrDisabledCredential, s)
                     else sql (db s) ''update API key last used'' s (\<lambda>s.
                       (Inr (u, k\<lparr>LastUsedAt := Some (clock s)\<rparr>),
                        update_keys (map (\<lambda>r. if fst r = k_ID k
                          then (fst r, (snd r)\<lparr>kr_last_used_at := Some (formatDBTime (clock s))\<rparr>) else r)) s))))))"

section \<open>Authorising a request\<close>

text \<open>The two headers a token may come in.\<close>

definition candidateProxyTokens :: "string \<Rightarrow> string \<Rightarrow> string list" where
  "candidateProxyTokens authorization apiKey0 =
     (let auth0 = trim_space authorization;
          auth = (if prefix ''bearer '' (lower_ascii_view auth0) then trim_space (drop 7 auth0) else auth0);
          apiKey = trim_space apiKey0
      in (if auth \<noteq> [] then [auth] else []) @ (if apiKey \<noteq> [] then [apiKey] else []))"

fun authenticate_tokens ::
  "go_lib \<Rightarrow> string list \<Rightarrow> go_err option \<Rightarrow> user_store \<Rightarrow> (UserRecord \<times> APIKeyRecord) outcome" where
  "authenticate_tokens lib [] disabledErr s =
     (Inl (case disabledErr of Some e \<Rightarrow> e | None \<Rightarrow> ErrInvalidAPIKey), s)"
| "authenticate_tokens lib (token # tokens) disabledErr s =
     (case AuthenticateAPIKey lib token s of
        (Inr credential, s') \<Rightarrow> (Inr credential, s')
      | (Inl e, s') \<Rightarrow>
          if err_is e ErrDisabledCredential then authenticate_tokens lib tokens (Some e) s'
          else if \<not> err_is e ErrInvalidAPIKey then (Inl e, s')
          else authenticate_tokens lib tokens disabledErr s')"

definition authenticateUserAPIKeyFromTokens :: "go_lib \<Rightarrow> string list \<Rightarrow> user_store \<Rightarrow> (UserRecord \<times> APIKeyRecord) outcome" where
  "authenticateUserAPIKeyFromTokens lib tokens s = ready s (\<lambda>s. authenticate_tokens lib tokens None s)"

end
