(* ===== verification/Usage_Store.thy ===== *)
theory Usage_Store
  imports User_Store Usage_Counters "HOL-Library.Monad_Syntax" "HOL-Library.Product_Lexorder"
begin

text \<open>
  Recording and reading token usage (\<open>usage.go\<close>): the buckets of ten minutes, their retention, and the
  three reports over them (today, snapshot, time series).

  A column that overflows is stored as a real by SQLite; the model keeps the exact integer, and a sum
  over such a column, or one that overflows itself, is an error, as SQLite's \<open>SUM\<close> and the scan into an
  \<open>int64\<close> make it. Reading the rows of a query takes two entries of the fault script: one for the query,
  one for whatever goes wrong until the last row is read.
\<close>

section \<open>Windows\<close>

definition usageBucketDuration :: duration where "usageBucketDuration = 10 * minute"
definition usageFiveHourBucketCount :: int where "usageFiveHourBucketCount = 30"
definition usageSevenDayBucketCount :: int where "usageSevenDayBucketCount = 7 * 24 * 6"
definition usageRetentionBucketCount :: int where "usageRetentionBucketCount = 30 * 24 * 6"

definition day :: duration where "day = 24 * hour"

definition usageBucketStart :: "time \<Rightarrow> time" where
  "usageBucketStart t = time_truncate t usageBucketDuration"

definition usageWindowStart :: "time \<Rightarrow> int \<Rightarrow> time" where
  "usageWindowStart now n =
     (if n \<le> 1 then usageBucketStart now else usageBucketStart now - (n - 1) * usageBucketDuration)"

definition usageWindowSpecs :: "(string \<times> int) list" where
  "usageWindowSpecs = [(''5h'', usageFiveHourBucketCount), (''7d'', usageSevenDayBucketCount)]"

definition normalizeUsageText :: "string \<Rightarrow> string \<Rightarrow> string" where
  "normalizeUsageText value fallback = (let v = trim_space value in if v = [] then fallback else v)"

definition normalizeServiceTier :: "string \<Rightarrow> string" where
  "normalizeServiceTier value =
     (if lower_ascii_view (trim_space value) \<in> {''fast'', ''priority''} then ''fast'' else ''standard'')"

definition usageConfigTrackingEnabled :: "bool option \<Rightarrow> bool" where
  "usageConfigTrackingEnabled enabled = (enabled = None \<or> enabled = Some True)"

section \<open>Recording\<close>

record UsageRecordParams =
  up_Timestamp :: time
  up_User :: UserRecord
  up_APIKey :: APIKeyRecord
  up_Model :: string
  up_ReasoningEffort :: string
  up_ServiceTier :: string
  up_AuthID :: string
  up_RequestID :: string
  up_StatusCode :: int
  up_Counters :: usage_counters
  up_DeltaOnly :: bool

definition record_counters :: "UsageRecordParams \<Rightarrow> usage_counters" where
  "record_counters p =
     (normalized (up_Counters p))
       \<lparr>RequestCount := (if up_DeltaOnly p then 0 else 1),
        FailedRequestCount := (if up_DeltaOnly p then 0 else if 400 \<le> up_StatusCode p \<or> up_StatusCode p = 0 then 1 else 0)\<rparr>"

definition record_time :: "UsageRecordParams \<Rightarrow> user_store \<Rightarrow> time" where
  "record_time p s = (if up_Timestamp p = 0 then clock s else up_Timestamp p)"

definition record_key :: "UsageRecordParams \<Rightarrow> time \<Rightarrow> bucket_key" where
  "record_key p t =
     \<lparr>bk_start = formatDBTime (usageBucketStart t), bk_user_id = u_ID (up_User p), bk_api_key_id = k_ID (up_APIKey p),
      bk_model = normalizeUsageText (up_Model p) ''unknown'',
      bk_effort = normalizeUsageText (up_ReasoningEffort p) ''unknown'',
      bk_tier = normalizeServiceTier (up_ServiceTier p),
      bk_auth_id = normalizeUsageText (up_AuthID p) ''unknown''\<rparr>"

definition add_columns :: "usage_counters \<Rightarrow> usage_counters \<Rightarrow> usage_counters" where
  "add_columns = map_counters2 (+)"

definition upsert_bucket :: "bucket_key \<Rightarrow> bucket_row \<Rightarrow> (bucket_key \<times> bucket_row) list \<Rightarrow> (bucket_key \<times> bucket_row) list" where
  "upsert_bucket k r bs =
     AList.update k (case map_of bs k of
         None \<Rightarrow> r
       | Some old \<Rightarrow> r\<lparr>br_counters := add_columns (br_counters old) (br_counters r)\<rparr>) bs"

definition update_buckets :: "((bucket_key \<times> bucket_row) list \<Rightarrow> (bucket_key \<times> bucket_row) list) \<Rightarrow> user_store \<Rightarrow> user_store" where
  "update_buckets f = with_db (\<lambda>d. d\<lparr>usage_buckets := f (usage_buckets d)\<rparr>)"

definition prune_buckets :: "time \<Rightarrow> (bucket_key \<times> bucket_row) list \<Rightarrow> (bucket_key \<times> bucket_row) list" where
  "prune_buckets now = filter (\<lambda>r. \<not> bk_start (fst r) < formatDBTime (usageWindowStart now usageRetentionBucketCount))"

text \<open>A statement whose violated constraint is reported as it is.\<close>

definition sql_checked :: "tables \<Rightarrow> string \<Rightarrow> go_err option \<Rightarrow> user_store \<Rightarrow> (user_store \<Rightarrow> 'a outcome) \<Rightarrow> 'a outcome" where
  "sql_checked base operation violated s k =
     sql base operation s (\<lambda>s. case violated of Some e \<Rightarrow> store_error operation e (s\<lparr>db := base\<rparr>) | None \<Rightarrow> k s)"

definition bucket_violation :: "tables \<Rightarrow> UsageRecordParams \<Rightarrow> go_err option" where
  "bucket_violation t p =
     (if map_of (users t) (u_ID (up_User p)) = None \<or> map_of (api_keys t) (k_ID (up_APIKey p)) = None
      then Some foreign_key_failed else None)"

definition RecordUsage :: "bool option \<Rightarrow> string option \<Rightarrow> UsageRecordParams \<Rightarrow> user_store \<Rightarrow> unit outcome" where
  "RecordUsage enabled id_token p s = ready s (\<lambda>s.
     if \<not> usageConfigTrackingEnabled enabled then (Inr (), s)
     else if trim_space (u_ID (up_User p)) = [] \<or> trim_space (k_ID (up_APIKey p)) = [] then (Inl ErrInvalidInput, s)
     else if trim_space (up_RequestID p) = [] \<and> randomID ''req'' id_token = None then (Inl no_randomness, s)
     else
       let t = record_time p s; base = db s;
           row = \<lparr>br_key_hash = KeyHash (up_APIKey p), br_masked_key = MaskedKey (up_APIKey p),
                  br_counters = record_counters p, br_updated_at = formatDBTime (clock s)\<rparr>
       in sql base ''begin record usage'' s (\<lambda>s.
          sql_checked base ''upsert usage bucket'' (bucket_violation (db s) p) s (\<lambda>s.
          let s = update_buckets (upsert_bucket (record_key p t) row) s in
          sql base ''prune usage data'' s (\<lambda>s.
          let s = update_buckets (prune_buckets t) s in
          sql base ''commit record usage'' s (\<lambda>s. (Inr (), s))))))"

section \<open>Sums\<close>

definition in_int64 :: "int \<Rightarrow> bool" where "in_int64 x \<longleftrightarrow> min_int64 \<le> x \<and> x \<le> max_int64"

fun sql_sum :: "int \<Rightarrow> int list \<Rightarrow> int option" where
  "sql_sum a [] = Some a"
| "sql_sum a (x # xs) = (if in_int64 x \<and> in_int64 (a + x) then sql_sum (a + x) xs else None)"

definition sum_counters :: "usage_counters list \<Rightarrow> usage_counters option" where
  "sum_counters cs = do {
     a \<leftarrow> sql_sum 0 (map RequestCount cs); b \<leftarrow> sql_sum 0 (map FailedRequestCount cs);
     c \<leftarrow> sql_sum 0 (map InputTokens cs); d \<leftarrow> sql_sum 0 (map OutputTokens cs);
     e \<leftarrow> sql_sum 0 (map ReasoningTokens cs); f \<leftarrow> sql_sum 0 (map CachedInputTokens cs);
     g \<leftarrow> sql_sum 0 (map CacheReadTokens cs); h \<leftarrow> sql_sum 0 (map CacheCreationTokens cs);
     i \<leftarrow> sql_sum 0 (map TotalTokens cs);
     Some \<lparr>RequestCount = a, FailedRequestCount = b, InputTokens = c, OutputTokens = d, ReasoningTokens = e,
           CachedInputTokens = f, CacheReadTokens = g, CacheCreationTokens = h, TotalTokens = i\<rparr> }"

definition overflow :: go_err where "overflow = PlainError ''integer overflow''"

definition summed :: "string \<Rightarrow> usage_counters option \<Rightarrow> user_store \<Rightarrow> (usage_counters \<Rightarrow> user_store \<Rightarrow> 'a outcome) \<Rightarrow> 'a outcome" where
  "summed operation csum s k = (case csum of None \<Rightarrow> store_error operation overflow s | Some c \<Rightarrow> k c s)"

definition range_rows :: "tables \<Rightarrow> string \<Rightarrow> string \<Rightarrow> time \<Rightarrow> time \<Rightarrow> (bucket_key \<times> bucket_row) list" where
  "range_rows t user key start stop =
     filter (\<lambda>r. bk_user_id (fst r) = trim_space user \<and> bk_api_key_id (fst r) = trim_space key \<and>
       formatDBTime start \<le> bk_start (fst r) \<and> bk_start (fst r) < formatDBTime stop) (usage_buckets t)"

definition counters_of :: "(bucket_key \<times> bucket_row) list \<Rightarrow> usage_counters list" where
  "counters_of rs = map (\<lambda>r. br_counters (snd r)) rs"

definition only :: "string \<Rightarrow> (string \<Rightarrow> string) \<Rightarrow> (bucket_key \<Rightarrow> string) \<Rightarrow> (bucket_key \<times> bucket_row) list \<Rightarrow> (bucket_key \<times> bucket_row) list" where
  "only value f column rs = (if trim_space value = [] then rs else filter (\<lambda>r. column (fst r) = f value) rs)"

definition aggregateUsageRangeDB ::
  "string \<Rightarrow> string \<Rightarrow> string \<Rightarrow> time \<Rightarrow> time \<Rightarrow> string \<Rightarrow> string \<Rightarrow> string \<Rightarrow> user_store \<Rightarrow> usage_counters outcome" where
  "aggregateUsageRangeDB operation user key start stop model effort tier s =
     sql (db s) operation s (\<lambda>s.
       summed operation (sum_counters (counters_of
         (only tier normalizeServiceTier bk_tier (only effort trim_space bk_effort (only model trim_space bk_model
           (range_rows (db s) user key start stop)))))) s (\<lambda>c s. (Inr c, s)))"

type_synonym dimension = "string \<times> string \<times> string"

definition dimension_of :: "bucket_key \<times> bucket_row \<Rightarrow> dimension" where
  "dimension_of r = (bk_model (fst r), bk_effort (fst r), bk_tier (fst r))"

definition dimension_keys :: "(bucket_key \<times> bucket_row) list \<Rightarrow> dimension list" where
  "dimension_keys rs = sort (remdups (map dimension_of rs))"

fun sum_groups :: "('d \<Rightarrow> usage_counters list) \<Rightarrow> 'd list \<Rightarrow> ('d \<times> usage_counters) list option" where
  "sum_groups rows [] = Some []"
| "sum_groups rows (d # ds) = do { c \<leftarrow> sum_counters (rows d); cs \<leftarrow> sum_groups rows ds; Some ((d, c) # cs) }"

definition aggregateUsageDimensionsRange ::
  "string \<Rightarrow> string \<Rightarrow> string \<Rightarrow> time \<Rightarrow> time \<Rightarrow> user_store \<Rightarrow> ((dimension \<times> usage_counters) list) outcome" where
  "aggregateUsageDimensionsRange operation user key start stop s =
     sql (db s) operation s (\<lambda>s. sql (db s) operation s (\<lambda>s.
       let rs = range_rows (db s) user key start stop in
       case sum_groups (\<lambda>d. counters_of (filter (\<lambda>r. dimension_of r = d) rs)) (dimension_keys rs) of
         None \<Rightarrow> store_error operation overflow s
       | Some ds \<Rightarrow> (Inr ds, s)))"

definition listUsageDimensionKeys ::
  "string \<Rightarrow> string \<Rightarrow> string \<Rightarrow> time \<Rightarrow> time \<Rightarrow> user_store \<Rightarrow> (dimension list) outcome" where
  "listUsageDimensionKeys operation user key start stop s =
     sql (db s) operation s (\<lambda>s. sql (db s) operation s (\<lambda>s.
       (Inr (dimension_keys (range_rows (db s) user key start stop)), s)))"

section \<open>Today and the snapshot\<close>

record UserUsageToday =
  ut_UserID :: string
  ut_APIKeyID :: string
  ut_Date :: string
  ut_Models :: "(dimension \<times> usage_counters) list"
  ut_Counters :: usage_counters

definition GetTodayUsage :: "string \<Rightarrow> string \<Rightarrow> time \<Rightarrow> user_store \<Rightarrow> UserUsageToday outcome" where
  "GetTodayUsage user key now0 s = ready s (\<lambda>s.
     let now = (if now0 = 0 then clock s else now0); dayStart = time_truncate now day; dayEnd = dayStart + day in
     case aggregateUsageRangeDB ''read today usage'' user key dayStart dayEnd [] [] [] s of
       (Inl e, s) \<Rightarrow> (Inl e, s)
     | (Inr counters, s) \<Rightarrow>
         (case aggregateUsageDimensionsRange ''read today usage dimensions'' user key dayStart dayEnd s of
            (Inl e, s) \<Rightarrow> (Inl e, s)
          | (Inr models, s) \<Rightarrow>
              (Inr \<lparr>ut_UserID = trim_space user, ut_APIKeyID = trim_space key,
                    ut_Date = takeWhile (\<lambda>c. c \<noteq> CHR ''T'') (formatDBTime dayStart), ut_Models = models, ut_Counters = counters\<rparr>, s)))"

text \<open>A loop over a list whose body may fail; its results are collected.\<close>

fun each :: "('a \<Rightarrow> user_store \<Rightarrow> 'b outcome) \<Rightarrow> 'a list \<Rightarrow> 'b list \<Rightarrow> user_store \<Rightarrow> ('b list) outcome" where
  "each f [] acc s = (Inr acc, s)"
| "each f (x # xs) acc s =
     (case f x s of (Inl e, s') \<Rightarrow> (Inl e, s') | (Inr y, s') \<Rightarrow> each f xs (acc @ [y]) s')"

type_synonym windows = "(string \<times> usage_counters) list"

record ManagementUsageEntry =
  me_UserID :: string
  me_Name :: string
  me_APIKeyID :: string
  me_KeyHash :: string
  me_MaskedKey :: string
  me_Windows :: windows
  me_Models :: "(dimension \<times> windows) list"

definition read_windows :: "string \<Rightarrow> string \<Rightarrow> string \<Rightarrow> time \<Rightarrow> time \<Rightarrow> string \<Rightarrow> string \<Rightarrow> string \<Rightarrow> user_store \<Rightarrow> windows outcome" where
  "read_windows operation user key now stop model effort tier =
     each (\<lambda>(name, n) s.
       case aggregateUsageRangeDB operation user key (usageWindowStart now n) stop model effort tier s of
         (Inl e, s) \<Rightarrow> (Inl e, s)
       | (Inr c, s) \<Rightarrow> (Inr (name, c), s)) usageWindowSpecs []"

definition usageDimensionsSnapshot ::
  "string \<Rightarrow> string \<Rightarrow> string \<Rightarrow> time \<Rightarrow> time \<Rightarrow> time \<Rightarrow> user_store \<Rightarrow> ((dimension \<times> windows) list) outcome" where
  "usageDimensionsSnapshot operation user key start stop now s =
     (case listUsageDimensionKeys operation user key start stop s of
        (Inl e, s) \<Rightarrow> (Inl e, s)
      | (Inr ds, s) \<Rightarrow>
          each (\<lambda>(m, e, t) s.
            case read_windows operation user key now stop m e t s of
              (Inl err, s) \<Rightarrow> (Inl err, s)
            | (Inr ws, s) \<Rightarrow> (Inr ((m, e, t), ws), s)) ds [] s)"

text \<open>The identities with a bucket in the window, once each, by user name and then by the age of the key.\<close>

definition snapshot_identities :: "tables \<Rightarrow> string \<Rightarrow> string \<Rightarrow> time \<Rightarrow> time \<Rightarrow> ManagementUsageEntry list" where
  "snapshot_identities t user key start stop =
     (let bs = filter (\<lambda>r. formatDBTime start \<le> bk_start (fst r) \<and> bk_start (fst r) < formatDBTime stop \<and>
                 (trim_space user = [] \<or> bk_user_id (fst r) = trim_space user) \<and>
                 (trim_space key = [] \<or> bk_api_key_id (fst r) = trim_space key)) (usage_buckets t);
          joined = collect_new (\<lambda>r. case (map_of (users t) (bk_user_id (fst r)), map_of (api_keys t) (bk_api_key_id (fst r))) of
                 (Some u, Some k) \<Rightarrow> Some ((bk_user_id (fst r), u), (bk_api_key_id (fst r), k)) | _ \<Rightarrow> None) [] bs
      in map (\<lambda>(u, k). \<lparr>me_UserID = fst u, me_Name = ur_name (snd u), me_APIKeyID = fst k, me_KeyHash = kr_key_hash (snd k),
            me_MaskedKey = kr_masked_key (snd k), me_Windows = [], me_Models = []\<rparr>)
          (sort_key (\<lambda>(u, k). (nocase (ur_name (snd u)), kr_created_at (snd k))) joined))"

definition snapshot_entry :: "time \<Rightarrow> time \<Rightarrow> time \<Rightarrow> ManagementUsageEntry \<Rightarrow> user_store \<Rightarrow> ManagementUsageEntry outcome" where
  "snapshot_entry now start stop entry s =
     (case read_windows ''read usage snapshot window'' (me_UserID entry) (me_APIKeyID entry) now stop [] [] [] s of
        (Inl e, s) \<Rightarrow> (Inl e, s)
      | (Inr ws, s) \<Rightarrow>
          (case usageDimensionsSnapshot ''read usage snapshot dimensions'' (me_UserID entry) (me_APIKeyID entry) start stop now s of
             (Inl e, s) \<Rightarrow> (Inl e, s)
           | (Inr ds, s) \<Rightarrow> (Inr (entry\<lparr>me_Windows := ws, me_Models := ds\<rparr>), s)))"

definition GetUsageSnapshot :: "string \<Rightarrow> string \<Rightarrow> time \<Rightarrow> user_store \<Rightarrow> (ManagementUsageEntry list) outcome" where
  "GetUsageSnapshot user key now0 s = ready s (\<lambda>s.
     let now = (if now0 = 0 then clock s else now0); stop = usageBucketStart now + usageBucketDuration;
         start = usageWindowStart now usageSevenDayBucketCount
     in sql (db s) ''list usage snapshot identities'' s (\<lambda>s.
        sql (db s) ''scan usage snapshot identity'' s (\<lambda>s.
        sql (db s) ''list usage snapshot rows'' s (\<lambda>s.
        sql (db s) ''close usage snapshot rows'' s (\<lambda>s.
          each (snapshot_entry now start stop) (snapshot_identities (db s) user key start stop) [] s)))))"

section \<open>Time series\<close>

record point_key =
  pk_BucketStart :: time
  pk_UserID :: string
  pk_Name :: string
  pk_APIKeyID :: string
  pk_Model :: string
  pk_ReasoningEffort :: string
  pk_ServiceTier :: string

text \<open>A point (\<open>UsageTimeseriesPoint\<close>) is its key with the counters.\<close>

type_synonym point = "point_key \<times> usage_counters"

definition usageTimeseriesWindow :: "string \<Rightarrow> time \<Rightarrow> (string \<times> time \<times> time) option" where
  "usageTimeseriesWindow raw now =
     (let w0 = lower_ascii_view (trim_space raw); window = (if w0 = [] then ''7d'' else w0);
          stop = usageBucketStart now + usageBucketDuration
      in if window = ''5h'' then Some (window, usageWindowStart now usageFiveHourBucketCount, stop)
         else if window = ''24h'' then Some (window, usageWindowStart now (24 * 6), stop)
         else if window = ''7d'' then Some (window, usageWindowStart now usageSevenDayBucketCount, stop)
         else if window = ''30d'' then Some (window, usageWindowStart now usageRetentionBucketCount, stop)
         else if window = ''today'' then Some (window, time_truncate now day, stop)
         else None)"

definition usageTimeseriesAutoStep :: "string \<Rightarrow> string" where
  "usageTimeseriesAutoStep window =
     (if window = ''5h'' then ''10m'' else if window = ''7d'' then ''6h'' else if window = ''30d'' then ''1d'' else ''1h'')"

definition usageTimeseriesStep :: "string \<Rightarrow> string \<Rightarrow> (string \<times> duration) option" where
  "usageTimeseriesStep raw window =
     (let s0 = lower_ascii_view (trim_space raw); step = (if s0 = [] \<or> s0 = ''auto'' then usageTimeseriesAutoStep window else s0) in
      if step = ''10m'' then Some (step, 10 * minute)
      else if step = ''30m'' then Some (step, 30 * minute)
      else if step = ''1h'' then Some (step, hour)
      else if step = ''6h'' then Some (step, 6 * hour)
      else if step = ''1d'' then Some (step, day)
      else None)"

definition normalizeUsageTimeseriesGroup :: "string \<Rightarrow> string option" where
  "normalizeUsageTimeseriesGroup value =
     (let v = lower_ascii_view (trim_space value) in
      if v = [] then Some []
      else if v = ''user'' \<or> v = ''user_id'' then Some ''user''
      else if v = ''api_key'' \<or> v = ''api_key_id'' then Some ''api_key''
      else if v = ''model'' then Some ''model''
      else if v = ''reasoning_effort'' then Some ''reasoning_effort''
      else if v = ''service_tier'' then Some ''service_tier''
      else None)"

text \<open>An unknown group is an error; otherwise the groups are kept in their first order.\<close>

definition usageTimeseriesGroupBy :: "string list \<Rightarrow> (string list) option" where
  "usageTimeseriesGroupBy vals =
     (let parts = map normalizeUsageTimeseriesGroup (concat (map (split_char (CHR '','')) vals)) in
      if None \<in> set parts then None
      else let groups = collect_new (\<lambda>p. if p = Some [] then None else p) [] parts in
        Some (if groups = [] then [''user''] else groups))"

definition usageTimeseriesFill :: "string \<Rightarrow> bool option" where
  "usageTimeseriesFill raw =
     (let v = lower_ascii_view (trim_space raw) in
      if v = [] \<or> v = ''none'' then Some False else if v = ''zero'' \<or> v = ''zeros'' then Some True else None)"

definition usageTimeseriesBucketStart :: "time \<Rightarrow> duration \<Rightarrow> time" where
  "usageTimeseriesBucketStart t step = (if step = day then time_truncate t day else time_truncate t step)"

definition usageTimeseriesKey :: "string list \<Rightarrow> time \<Rightarrow> bucket_key \<Rightarrow> string \<Rightarrow> point_key" where
  "usageTimeseriesKey groupBy start k name =
     \<lparr>pk_BucketStart = start,
      pk_UserID = (if ''user'' \<in> set groupBy then bk_user_id k else []),
      pk_Name = (if ''user'' \<in> set groupBy then name else []),
      pk_APIKeyID = (if ''api_key'' \<in> set groupBy then bk_api_key_id k else []),
      pk_Model = (if ''model'' \<in> set groupBy then bk_model k else []),
      pk_ReasoningEffort = (if ''reasoning_effort'' \<in> set groupBy then bk_effort k else []),
      pk_ServiceTier = (if ''service_tier'' \<in> set groupBy then bk_tier k else [])\<rparr>"

definition add_point :: "point_key \<Rightarrow> usage_counters \<Rightarrow> point list \<Rightarrow> point list" where
  "add_point k c points =
     AList.update k (counters_add
       (case map_of points k of Some old \<Rightarrow> if pk_BucketStart k = 0 then zero_counters else old | None \<Rightarrow> zero_counters) c) points"

definition usageTimeseriesPointSortKey :: "point_key \<Rightarrow> string" where
  "usageTimeseriesPointSortKey k =
     pk_Name k @ [CHR 0x00] @ pk_UserID k @ [CHR 0x00] @ pk_APIKeyID k @ [CHR 0x00] @ pk_Model k @ [CHR 0x00] @
     pk_ReasoningEffort k @ [CHR 0x00] @ pk_ServiceTier k"

definition sort_points :: "point list \<Rightarrow> point list" where
  "sort_points = sort_key (\<lambda>p. (pk_BucketStart (fst p), usageTimeseriesPointSortKey (fst p)))"

text \<open>The groups of the query: everything but the credential, with the name of the user.\<close>

definition series_rows :: "tables \<Rightarrow> time \<Rightarrow> time \<Rightarrow> string \<Rightarrow> string \<Rightarrow> (bucket_key \<times> bucket_row) list" where
  "series_rows t start stop user key =
     filter (\<lambda>r. formatDBTime start \<le> bk_start (fst r) \<and> bk_start (fst r) < formatDBTime stop \<and>
       (user = [] \<or> bk_user_id (fst r) = user) \<and> (key = [] \<or> bk_api_key_id (fst r) = key) \<and>
       map_of (users t) (bk_user_id (fst r)) \<noteq> None) (usage_buckets t)"

definition series_group :: "bucket_key \<times> bucket_row \<Rightarrow> bucket_key" where
  "series_group r = (fst r)\<lparr>bk_auth_id := []\<rparr>"

definition user_name :: "tables \<Rightarrow> string \<Rightarrow> string" where
  "user_name t i = (case map_of (users t) i of Some u \<Rightarrow> ur_name u | None \<Rightarrow> [])"

definition group_order :: "tables \<Rightarrow> bucket_key \<Rightarrow> string \<times> string \<times> string \<times> string \<times> string \<times> string \<times> string" where
  "group_order t k = (bk_start k, nocase (user_name t (bk_user_id k)), bk_user_id k, bk_api_key_id k, bk_model k, bk_effort k, bk_tier k)"

definition series_groups :: "tables \<Rightarrow> (bucket_key \<times> bucket_row) list \<Rightarrow> bucket_key list" where
  "series_groups t rs = sort_key (group_order t) (remdups (map series_group rs))"

fun add_points :: "tables \<Rightarrow> duration \<Rightarrow> string list \<Rightarrow> (bucket_key \<times> usage_counters) list \<Rightarrow> point list \<Rightarrow> (point list) option" where
  "add_points t step groupBy [] points = Some points"
| "add_points t step groupBy ((k, c) # rows) points =
     (case parseDBTime (bk_start k) of
        None \<Rightarrow> None
      | Some start \<Rightarrow>
          add_points t step groupBy rows
            (add_point (usageTimeseriesKey groupBy (usageTimeseriesBucketStart start step) k (user_name t (bk_user_id k))) c points))"

definition queryUsageTimeseries ::
  "string \<Rightarrow> time \<Rightarrow> time \<Rightarrow> duration \<Rightarrow> string list \<Rightarrow> string \<Rightarrow> string \<Rightarrow> user_store \<Rightarrow> (point list) outcome" where
  "queryUsageTimeseries operation start stop step groupBy user key s =
     sql (db s) operation s (\<lambda>s. sql (db s) operation s (\<lambda>s.
       let rs = series_rows (db s) start stop user key in
       case sum_groups (\<lambda>k. counters_of (filter (\<lambda>r. series_group r = k) rs)) (series_groups (db s) rs) of
         None \<Rightarrow> store_error operation overflow s
       | Some rows \<Rightarrow>
           (case add_points (db s) step groupBy rows [] of
              None \<Rightarrow> store_error operation bad_time s
            | Some points \<Rightarrow> (Inr (sort_points points), s))))"

function steps :: "time \<Rightarrow> time \<Rightarrow> duration \<Rightarrow> time list" where
  "steps start stop step = (if start < stop \<and> 0 < step then start # steps (start + step) stop step else [])"
  by pat_completeness auto
termination by (relation "measure (\<lambda>(start, stop, step). nat (stop - start))") auto

declare steps.simps [simp del]

definition identity_key :: "point_key \<Rightarrow> point_key" where "identity_key k = k\<lparr>pk_BucketStart := 0\<rparr>"

text \<open>The maps by key and by identity are lists here; a later point of the same identity has the same fields.\<close>

definition fillUsageTimeseriesZeros :: "point list \<Rightarrow> time \<Rightarrow> time \<Rightarrow> duration \<Rightarrow> point list" where
  "fillUsageTimeseriesZeros points start0 stop step =
     (if points = [] \<or> step \<le> 0 then points
      else let start = usageTimeseriesBucketStart start0 step;
               identities = remdups (map (identity_key \<circ> fst) points)
           in sort_points (concat (map (\<lambda>i. map (\<lambda>b.
                let k = i\<lparr>pk_BucketStart := b\<rparr> in (k, case map_of points k of Some c \<Rightarrow> c | None \<Rightarrow> zero_counters))
                (steps start stop step)) identities)))"

record UsageTimeseries =
  ts_Window :: string
  ts_Step :: string
  ts_Start :: time
  ts_End :: time
  ts_GroupBy :: "string list"
  ts_Series :: "point list"

definition GetUsageTimeseries ::
  "string \<Rightarrow> string \<Rightarrow> string list \<Rightarrow> string \<Rightarrow> string \<Rightarrow> string \<Rightarrow> time \<Rightarrow> user_store \<Rightarrow> UsageTimeseries outcome" where
  "GetUsageTimeseries window0 step0 groups0 fill0 user key now0 s = ready s (\<lambda>s.
     let now = (if now0 = 0 then clock s else now0) in
     case usageTimeseriesWindow window0 now of
       None \<Rightarrow> (Inl ErrInvalidInput, s)
     | Some (window, start, stop) \<Rightarrow>
       (case (usageTimeseriesStep step0 window, usageTimeseriesGroupBy groups0, usageTimeseriesFill fill0) of
          (Some (stepName, step), Some groupBy, Some fill) \<Rightarrow>
            (case queryUsageTimeseries ''read usage timeseries'' start stop step groupBy (trim_space user) (trim_space key) s of
               (Inl e, s) \<Rightarrow> (Inl e, s)
             | (Inr points, s) \<Rightarrow>
                 (Inr \<lparr>ts_Window = window, ts_Step = stepName, ts_Start = start, ts_End = stop, ts_GroupBy = groupBy,
                       ts_Series = (if fill then fillUsageTimeseriesZeros points start stop step else points)\<rparr>, s))
        | _ \<Rightarrow> (Inl ErrInvalidInput, s)))"

end
