(* ===== verification/Chat_Request.thy ===== *)
theory Chat_Request
  imports Usage_Store
begin

text \<open>
  Chat completion requests as Responses requests (\<open>chat_completions.go\<close>). A decoded request is a
  \<open>json_map\<close>; a key that is missing reads as \<open>nil\<close>, like one that is \<open>null\<close>. Objects the code builds
  are lists of members in the order it sets them; \<open>marshal_value\<close> is \<open>json.Marshal\<close>. A list variable
  that is never appended to is Go's \<open>nil\<close> slice, which \<open>json.Marshal\<close> writes as \<open>null\<close>.
\<close>

section \<open>Readers\<close>

text \<open>
  \<open>decode_first\<close> and \<open>decode_single\<close> are a \<open>json.Decoder\<close> with \<open>UseNumber\<close> that decodes into a
  \<open>map[string]any\<close>: the first value of the bytes, and the only one. A \<open>null\<close> is the empty map.
\<close>

record chat_lib =
  marshal_value :: "json \<Rightarrow> string option"
  decode_first :: "string \<Rightarrow> json_map option"
  decode_single :: "string \<Rightarrow> json_map option"
  usage_values :: usage_lib

definition member :: "json_map \<Rightarrow> string \<Rightarrow> json" where
  "member m k = (case map_of m k of Some v \<Rightarrow> v | None \<Rightarrow> JNull)"

definition rawStringFromMap :: "json_map \<Rightarrow> string \<Rightarrow> string" where
  "rawStringFromMap m k = (case member m k of JStr s \<Rightarrow> s | _ \<Rightarrow> [])"

definition stringFromMap :: "json_map \<Rightarrow> string \<Rightarrow> string" where
  "stringFromMap m k = trim_space (rawStringFromMap m k)"

definition chatBoolFromMap :: "json_map \<Rightarrow> string \<Rightarrow> bool" where
  "chatBoolFromMap m k = (member m k = JBool True)"

definition mapValue :: "json \<Rightarrow> json_map option" where
  "mapValue v = (case v of JObj m \<Rightarrow> Some m | _ \<Rightarrow> None)"

definition chatStreamOptionsIncludeUsage :: "json \<Rightarrow> bool" where
  "chatStreamOptionsIncludeUsage v = (case mapValue v of Some m \<Rightarrow> chatBoolFromMap m ''include_usage'' | None \<Rightarrow> False)"

definition json_list :: "json list \<Rightarrow> json" where
  "json_list vs = (if vs = [] then JNull else JArr vs)"

definition objects :: "json list \<Rightarrow> json_map list" where
  "objects vs = List.map_filter mapValue vs"

section \<open>Content\<close>

definition chatContentToText :: "chat_lib \<Rightarrow> json \<Rightarrow> string" where
  "chatContentToText lib v =
     (case v of
        JNull \<Rightarrow> []
      | JStr s \<Rightarrow> s
      | JArr vs \<Rightarrow> concat (map (\<lambda>part. rawStringFromMap part ''text'') (objects vs))
      | _ \<Rightarrow> (case marshal_value lib v of Some raw \<Rightarrow> raw | None \<Rightarrow> []))"

definition convert_part :: "string \<Rightarrow> json_map \<Rightarrow> json list" where
  "convert_part role part =
     (if stringFromMap part ''type'' = ''text'' then
        [JObj [(''type'', JStr (if role = ''assistant'' then ''output_text'' else ''input_text'')),
               (''text'', JStr (rawStringFromMap part ''text''))]]
      else if stringFromMap part ''type'' = ''image_url'' then
        (case mapValue (member part ''image_url'') of
           Some url \<Rightarrow> [JObj [(''type'', JStr ''input_image''), (''image_url'', member url ''url'')]]
         | None \<Rightarrow> [])
      else [JObj part])"

definition chatMessageContentToResponses :: "chat_lib \<Rightarrow> json \<Rightarrow> string \<Rightarrow> json" where
  "chatMessageContentToResponses lib v role =
     (case v of
        JNull \<Rightarrow> JStr []
      | JStr s \<Rightarrow> JStr s
      | JArr vs \<Rightarrow> JArr (concat (map (convert_part role) (objects vs)))
      | _ \<Rightarrow> JStr (chatContentToText lib v))"

definition chatContentEmpty :: "json \<Rightarrow> bool" where
  "chatContentEmpty v = (v = JNull \<or> v = JStr [] \<or> v = JArr [])"

section \<open>Tools\<close>

definition convert_call :: "json_map \<Rightarrow> json list" where
  "convert_call call =
     (case mapValue (member call ''function'') of
        None \<Rightarrow> []
      | Some f \<Rightarrow>
          [JObj [(''type'', JStr ''function_call''), (''call_id'', JStr (stringFromMap call ''id'')),
                 (''name'', JStr (stringFromMap f ''name'')), (''arguments'', JStr (rawStringFromMap f ''arguments''))]])"

definition chatToolCallsToResponses :: "json \<Rightarrow> json list" where
  "chatToolCallsToResponses v = (case v of JArr calls \<Rightarrow> concat (map convert_call (objects calls)) | _ \<Rightarrow> [])"

definition copied :: "json_map \<Rightarrow> string \<Rightarrow> json_map" where
  "copied m k = (case map_of m k of Some v \<Rightarrow> [(k, v)] | None \<Rightarrow> [])"

definition convert_tool :: "json_map \<Rightarrow> json list" where
  "convert_tool tool =
     (if stringFromMap tool ''type'' \<noteq> ''function'' then []
      else (case mapValue (member tool ''function'') of
              None \<Rightarrow> []
            | Some f \<Rightarrow>
                [JObj ([(''type'', JStr ''function''), (''name'', JStr (stringFromMap f ''name''))] @
                       (if stringFromMap f ''description'' \<noteq> [] then [(''description'', JStr (stringFromMap f ''description''))] else []) @
                       copied f ''parameters'' @ copied f ''strict'')]))"

definition chatToolsToResponses :: "json \<Rightarrow> json list" where
  "chatToolsToResponses v = (case v of JArr tools \<Rightarrow> concat (map convert_tool (objects tools)) | _ \<Rightarrow> [])"

definition chatToolChoiceToResponses :: "json \<Rightarrow> json option" where
  "chatToolChoiceToResponses v =
     (case v of
        JNull \<Rightarrow> None
      | JStr s0 \<Rightarrow>
          let s = trim_space s0 in
          if s = [] then None else if s = ''any'' then Some (JStr ''required'') else Some (JStr s)
      | JObj m \<Rightarrow>
          (if stringFromMap m ''type'' = ''function'' then
             (case mapValue (member m ''function'') of
                Some f \<Rightarrow> if stringFromMap f ''name'' \<noteq> []
                          then Some (JObj [(''type'', JStr ''function''), (''name'', JStr (stringFromMap f ''name''))])
                          else Some v
              | None \<Rightarrow> Some v)
           else Some v)
      | _ \<Rightarrow> Some v)"

section \<open>Messages\<close>

definition message_item :: "string \<Rightarrow> json \<Rightarrow> json" where
  "message_item role content = JObj [(''type'', JStr ''message''), (''role'', JStr role), (''content'', content)]"

text \<open>The input items and the instructions one message contributes.\<close>

definition convert_message :: "chat_lib \<Rightarrow> json_map \<Rightarrow> json list \<times> string list" where
  "convert_message lib m =
     (let role = stringFromMap m ''role'' in
      if role = ''system'' \<or> role = ''developer'' then
        ([], if chatContentToText lib (member m ''content'') \<noteq> [] then [chatContentToText lib (member m ''content'')] else [])
      else if role = ''user'' then
        ([message_item ''user'' (chatMessageContentToResponses lib (member m ''content'') ''user'')], [])
      else if role = ''assistant'' then
        (let content = chatMessageContentToResponses lib (member m ''content'') ''assistant'' in
         ((if chatContentEmpty content then [] else [message_item ''assistant'' content]) @
            chatToolCallsToResponses (member m ''tool_calls''), []))
      else if role = ''tool'' then
        ([JObj [(''type'', JStr ''function_call_output''), (''call_id'', JStr (stringFromMap m ''tool_call_id'')),
                (''output'', JStr (chatContentToText lib (member m ''content'')))]], [])
      else ([], []))"

fun join_with :: "string \<Rightarrow> string list \<Rightarrow> string" where
  "join_with sep [] = []"
| "join_with sep [x] = x"
| "join_with sep (x # y # zs) = x @ sep @ join_with sep (y # zs)"

definition chatMessagesToResponsesInput :: "chat_lib \<Rightarrow> json list \<Rightarrow> json list \<times> string" where
  "chatMessagesToResponsesInput lib messages =
     (let converted = map (convert_message lib) (objects messages)
      in (concat (map fst converted), join_with [newline, newline] (concat (map snd converted))))"

section \<open>Options\<close>

definition normalizeChatReasoningEffort :: "string \<Rightarrow> string" where
  "normalizeChatReasoningEffort effort =
     (let e = trim_space effort; l = lower_ascii_view e in
      if l = ''minimal'' then ''low''
      else if l = ''max'' then ''xhigh''
      else if l \<in> {''none'', ''low'', ''medium'', ''high'', ''xhigh''} then l
      else e)"

definition chatReasoningEffort :: "json_map \<Rightarrow> string" where
  "chatReasoningEffort raw = normalizeChatReasoningEffort (stringFromMap raw ''reasoning_effort'')"

definition merged :: "json_map \<Rightarrow> json_map \<Rightarrow> json_map" where
  "merged m new = fold (\<lambda>(k, v). AList.update k v) new m"

definition chatReasoningToResponses :: "json_map \<Rightarrow> json_map option" where
  "chatReasoningToResponses raw =
     (let r = (case mapValue (member raw ''reasoning'') of Some m \<Rightarrow> merged [] m | None \<Rightarrow> []);
          r = (case mapValue (member raw ''extra_body'') of
                 Some extra \<Rightarrow> (case mapValue (member extra ''reasoning'') of Some m \<Rightarrow> merged r m | None \<Rightarrow> r)
               | None \<Rightarrow> r);
          r = (if chatReasoningEffort raw \<noteq> [] then AList.update ''effort'' (JStr (chatReasoningEffort raw)) r else r)
      in if r = [] then None else Some r)"

definition chatResponseFormatToResponses :: "json \<Rightarrow> json_map option" where
  "chatResponseFormatToResponses v =
     (case mapValue v of
        None \<Rightarrow> None
      | Some format \<Rightarrow>
          if stringFromMap format ''type'' = ''json_object'' then Some [(''type'', JStr ''json_object'')]
          else if stringFromMap format ''type'' = ''json_schema'' then
            (case mapValue (member format ''json_schema'') of
               None \<Rightarrow> None
             | Some sch \<Rightarrow> Some (merged [(''type'', JStr ''json_schema'')] sch))
          else Some format)"

definition chatTextOptionsToResponses :: "json_map \<Rightarrow> json_map option" where
  "chatTextOptionsToResponses raw =
     (let t = (case chatResponseFormatToResponses (member raw ''response_format'') of
                 Some f \<Rightarrow> [(''format'', JObj f)] | None \<Rightarrow> []) @
              (if stringFromMap raw ''verbosity'' \<noteq> [] then [(''verbosity'', JStr (stringFromMap raw ''verbosity''))] else [])
      in if t = [] then None else Some t)"

definition chatStopSequences :: "json \<Rightarrow> string list" where
  "chatStopSequences v =
     (case v of
        JStr s \<Rightarrow> if s = [] then [] else [s]
      | JArr vs \<Rightarrow> List.map_filter (\<lambda>e. case e of JStr s \<Rightarrow> if s \<noteq> [] then Some s else None | _ \<Rightarrow> None) vs
      | _ \<Rightarrow> [])"

section \<open>Requests\<close>

record proxyRequestUsageMetadata =
  um_Model :: string
  um_ReasoningEffort :: string
  um_ServiceTier :: string
  um_SkipUsage :: bool

record chatRequestConversion =
  cc_Responses :: json_map
  cc_Metadata :: proxyRequestUsageMetadata
  cc_Stream :: bool
  cc_IncludeUsage :: bool
  cc_StopSequences :: "string list"

definition defaultChatCompletionInstructions :: string where
  "defaultChatCompletionInstructions = ''You are a helpful assistant.''"

definition optional :: "string \<Rightarrow> json option \<Rightarrow> json_map" where
  "optional k v = (case v of Some x \<Rightarrow> [(k, x)] | None \<Rightarrow> [])"

text \<open>\<open>Inl field\<close> is the error of a missing required field.\<close>

definition chatRequestToResponses :: "chat_lib \<Rightarrow> json_map \<Rightarrow> string + chatRequestConversion" where
  "chatRequestToResponses lib raw =
     (let model = stringFromMap raw ''model'' in
      if model = [] then Inl ''model''
      else
        (case member raw ''messages'' of
           JArr messages \<Rightarrow>
             (case chatMessagesToResponsesInput lib messages of (input, instructions) \<Rightarrow>
                let tools = chatToolsToResponses (member raw ''tools''); tier = stringFromMap raw ''service_tier'' in
                Inr \<lparr>cc_Responses =
                       [(''model'', JStr model), (''stream'', JBool True), (''store'', JBool False), (''input'', json_list input),
                        (''instructions'', JStr (if instructions \<noteq> [] then instructions else defaultChatCompletionInstructions))] @
                       (if tools \<noteq> [] then [(''tools'', JArr tools)] else []) @
                       optional ''tool_choice'' (chatToolChoiceToResponses (member raw ''tool_choice'')) @
                       optional ''text'' (map_option JObj (chatTextOptionsToResponses raw)) @
                       optional ''reasoning'' (map_option JObj (chatReasoningToResponses raw)) @
                       copied raw ''parallel_tool_calls'' @
                       (if tier \<noteq> [] then [(''service_tier'', JStr tier)] else []),
                     cc_Metadata = \<lparr>um_Model = model, um_ReasoningEffort = chatReasoningEffort raw,
                       um_ServiceTier = normalizeServiceTier tier, um_SkipUsage = False\<rparr>,
                     cc_Stream = chatBoolFromMap raw ''stream'',
                     cc_IncludeUsage = chatStreamOptionsIncludeUsage (member raw ''stream_options''),
                     cc_StopSequences = chatStopSequences (member raw ''stop'')\<rparr>)
         | _ \<Rightarrow> Inl ''messages''))"

definition decodeChatCompletionRequest :: "chat_lib \<Rightarrow> string option \<Rightarrow> string + chatRequestConversion" where
  "decodeChatCompletionRequest lib body =
     (case Option.bind body (decode_first lib) of
        None \<Rightarrow> Inl ''invalid JSON request body''
      | Some raw \<Rightarrow> (case chatRequestToResponses lib raw of
                       Inl field \<Rightarrow> Inl (''missing required field: '' @ field) | Inr c \<Rightarrow> Inr c))"

section \<open>The type of a converted request\<close>

definition is_str :: "json \<Rightarrow> bool" where
  "is_str v \<longleftrightarrow> (case v of JStr s \<Rightarrow> True | _ \<Rightarrow> False)"

definition is_obj :: "json \<Rightarrow> bool" where
  "is_obj v \<longleftrightarrow> (case v of JObj m \<Rightarrow> True | _ \<Rightarrow> False)"

definition typed_content :: "json \<Rightarrow> bool" where
  "typed_content v \<longleftrightarrow> (case v of JStr s \<Rightarrow> True | JArr parts \<Rightarrow> list_all is_obj parts | _ \<Rightarrow> False)"

definition typed_item :: "json \<Rightarrow> bool" where
  "typed_item v \<longleftrightarrow>
     (case v of
        JObj m \<Rightarrow>
          (map fst m = [''type'', ''role'', ''content''] \<and> member m ''type'' = JStr ''message'' \<and> typed_content (member m ''content'') \<and>
             (member m ''role'' = JStr ''user'' \<or> member m ''role'' = JStr ''assistant'' \<and> \<not> chatContentEmpty (member m ''content''))) \<or>
          (map fst m = [''type'', ''call_id'', ''name'', ''arguments''] \<and> member m ''type'' = JStr ''function_call'' \<and>
             list_all is_str (map snd m)) \<or>
          (map fst m = [''type'', ''call_id'', ''output''] \<and> member m ''type'' = JStr ''function_call_output'' \<and> list_all is_str (map snd m))
      | _ \<Rightarrow> False)"

definition typed_tool :: "json \<Rightarrow> bool" where
  "typed_tool v \<longleftrightarrow>
     (case v of
        JObj m \<Rightarrow>
          distinct (map fst m) \<and> set (map fst m) \<subseteq> {''type'', ''name'', ''description'', ''parameters'', ''strict''} \<and>
          member m ''type'' = JStr ''function'' \<and> is_str (member m ''name'') \<and>
          (''description'' \<in> fst ` set m \<longrightarrow> rawStringFromMap m ''description'' \<noteq> [])
      | _ \<Rightarrow> False)"

definition typed_list :: "(json \<Rightarrow> bool) \<Rightarrow> json \<Rightarrow> bool" where
  "typed_list P v \<longleftrightarrow> (case v of JArr vs \<Rightarrow> vs \<noteq> [] \<and> list_all P vs | _ \<Rightarrow> False)"

definition some_object :: "json \<Rightarrow> bool" where
  "some_object v \<longleftrightarrow> is_obj v \<and> v \<noteq> JObj []"

text \<open>A key is there only with a value of its type; \<open>input\<close> is \<open>null\<close> when no message gives an item.\<close>

definition responses_request :: "json_map \<Rightarrow> bool" where
  "responses_request m \<longleftrightarrow>
     distinct (map fst m) \<and>
     rawStringFromMap m ''model'' \<noteq> [] \<and> trim_space (rawStringFromMap m ''model'') = rawStringFromMap m ''model'' \<and>
     member m ''stream'' = JBool True \<and> member m ''store'' = JBool False \<and>
     rawStringFromMap m ''instructions'' \<noteq> [] \<and>
     (member m ''input'' = JNull \<or> typed_list typed_item (member m ''input'')) \<and>
     (\<forall>v. map_of m ''tools'' = Some v \<longrightarrow> typed_list typed_tool v) \<and>
     (\<forall>v. map_of m ''tool_choice'' = Some v \<longrightarrow> v \<noteq> JNull \<and> v \<noteq> JStr []) \<and>
     (\<forall>v. map_of m ''text'' = Some v \<longrightarrow> some_object v) \<and>
     (\<forall>v. map_of m ''reasoning'' = Some v \<longrightarrow> some_object v) \<and>
     (\<forall>v. map_of m ''service_tier'' = Some v \<longrightarrow> is_str v \<and> v \<noteq> JStr [])"

lemma list_all_concat_map: "(\<And>x. x \<in> set xs \<Longrightarrow> list_all P (f x)) \<Longrightarrow> list_all P (concat (map f xs))"
  by (induction xs) simp_all

lemma typed_parts: "list_all is_obj (convert_part role part)"
  by (simp add: convert_part_def is_obj_def split: option.split)

lemma typed_message_content: "typed_content (chatMessageContentToResponses lib v role)"
  by (auto simp: chatMessageContentToResponses_def typed_content_def typed_parts split: json.split intro!: list_all_concat_map)

lemma typed_calls: "list_all typed_item (chatToolCallsToResponses v)"
  by (auto simp: chatToolCallsToResponses_def convert_call_def typed_item_def member_def is_str_def
      split: json.split option.split intro!: list_all_concat_map)

lemma typed_message: "list_all typed_item (fst (convert_message lib m))"
  by (auto simp: convert_message_def Let_def typed_calls message_item_def typed_item_def member_def is_str_def typed_message_content
      split: option.split)

lemma text_parts: "x \<in> set (snd (convert_message lib m)) \<Longrightarrow> x \<noteq> []"
  by (auto simp: convert_message_def Let_def split: if_splits)

lemma typed_tools: "list_all typed_tool (chatToolsToResponses v)"
proof -
  have "list_all typed_tool (convert_tool tool)" for tool
    by (auto simp: convert_tool_def typed_tool_def copied_def member_def is_str_def rawStringFromMap_def split: option.split)
  then show ?thesis by (auto simp: chatToolsToResponses_def split: json.split intro!: list_all_concat_map)
qed

lemma typed_choice: "chatToolChoiceToResponses v = Some w \<Longrightarrow> w \<noteq> JNull \<and> w \<noteq> JStr []"
  by (auto simp: chatToolChoiceToResponses_def Let_def split: json.splits if_splits option.splits)

lemma typed_options:
  "chatTextOptionsToResponses raw = Some m \<Longrightarrow> m \<noteq> []" "chatReasoningToResponses raw = Some m \<Longrightarrow> m \<noteq> []"
  by (auto simp: chatTextOptionsToResponses_def chatReasoningToResponses_def Let_def split: if_splits)

lemma joined_text: "xs \<noteq> [] \<Longrightarrow> \<forall>x\<in>set xs. x \<noteq> [] \<Longrightarrow> join_with sep xs \<noteq> []"
  by (induction sep xs rule: join_with.induct) simp_all

lemma typed_input:
  assumes "chatMessagesToResponsesInput lib messages = (input, instructions)"
  shows "json_list input = JNull \<or> typed_list typed_item (json_list input)"
proof -
  have "list_all typed_item input"
    using assms by (auto simp: chatMessagesToResponsesInput_def Let_def typed_message intro!: list_all_concat_map)
  then show ?thesis by (simp add: json_list_def typed_list_def)
qed

lemma stop_sequences_nonempty: "[] \<notin> set (chatStopSequences v)"
  by (auto simp: chatStopSequences_def List.map_filter_def split: json.splits if_splits)

lemma optional_if: "(if b then [(k, v)] else []) = optional k (if b then Some v else None)"
  by (simp add: optional_def)

lemma copied_optional: "copied m k = optional k (map_of m k)"
  by (simp add: copied_def optional_def)

lemma optional_lookup: "map_of (optional k v @ m) j = (if j = k \<and> v \<noteq> None then v else map_of m j)"
  by (simp add: optional_def split: option.split)

lemma optional_keys:
  "j \<in> fst ` set (optional k v @ m) \<longleftrightarrow> (j = k \<and> v \<noteq> None) \<or> j \<in> fst ` set m"
  "distinct (map fst (optional k v @ m)) \<longleftrightarrow> (v = None \<or> k \<notin> fst ` set m) \<and> distinct (map fst m)"
  by (auto simp: optional_def split: option.split)

lemmas optional_last = optional_lookup [where m = "[]", simplified] optional_keys [where m = "[]", simplified]

lemma chat_request_cases:
  assumes "chatRequestToResponses lib raw = Inr c"
  obtains messages input instructions where "stringFromMap raw ''model'' \<noteq> []" "member raw ''messages'' = JArr messages"
    "chatMessagesToResponsesInput lib messages = (input, instructions)"
    "cc_Responses c =
       [(''model'', JStr (stringFromMap raw ''model'')), (''stream'', JBool True), (''store'', JBool False), (''input'', json_list input),
        (''instructions'', JStr (if instructions \<noteq> [] then instructions else defaultChatCompletionInstructions))] @
       optional ''tools'' (if chatToolsToResponses (member raw ''tools'') \<noteq> [] then Some (JArr (chatToolsToResponses (member raw ''tools''))) else None) @
       optional ''tool_choice'' (chatToolChoiceToResponses (member raw ''tool_choice'')) @
       optional ''text'' (map_option JObj (chatTextOptionsToResponses raw)) @
       optional ''reasoning'' (map_option JObj (chatReasoningToResponses raw)) @
       optional ''parallel_tool_calls'' (map_of raw ''parallel_tool_calls'') @
       optional ''service_tier'' (if stringFromMap raw ''service_tier'' \<noteq> [] then Some (JStr (stringFromMap raw ''service_tier'')) else None)"
    "um_Model (cc_Metadata c) = stringFromMap raw ''model''" "cc_StopSequences c = chatStopSequences (member raw ''stop'')"
  using assms
  by (simp add: chatRequestToResponses_def Let_def split: if_splits json.splits prod.splits)
    (auto simp: optional_def copied_def)

text \<open>
  C20: Every chat completion request that is accepted becomes a well-typed Responses request: a model,
  \<open>stream\<close> set and \<open>store\<close> cleared whatever the client asked for, instructions that are never empty, input
  items of the three kinds with text in every field that is one, tools with a type and a name, no key
  twice and no empty optional value; usage is accounted to the same model, and no stop sequence is empty.
  Only a missing model or missing messages are rejected.
\<close>

theorem chat_request_typed:
  "case chatRequestToResponses lib raw of
     Inr c \<Rightarrow> responses_request (cc_Responses c) \<and> um_Model (cc_Metadata c) = rawStringFromMap (cc_Responses c) ''model'' \<and>
             [] \<notin> set (cc_StopSequences c)
   | Inl field \<Rightarrow> field = ''model'' \<and> stringFromMap raw ''model'' = [] \<or>
                field = ''messages'' \<and> (\<forall>messages. member raw ''messages'' \<noteq> JArr messages)"
proof (cases "chatRequestToResponses lib raw")
  case (Inl field)
  then show ?thesis by (auto simp: chatRequestToResponses_def Let_def split: if_splits json.splits prod.splits)
next
  case (Inr c)
  obtain messages input instructions where model: "stringFromMap raw ''model'' \<noteq> []"
    and input: "chatMessagesToResponsesInput lib messages = (input, instructions)"
    and out: "cc_Responses c =
       [(''model'', JStr (stringFromMap raw ''model'')), (''stream'', JBool True), (''store'', JBool False), (''input'', json_list input),
        (''instructions'', JStr (if instructions \<noteq> [] then instructions else defaultChatCompletionInstructions))] @
       optional ''tools'' (if chatToolsToResponses (member raw ''tools'') \<noteq> [] then Some (JArr (chatToolsToResponses (member raw ''tools''))) else None) @
       optional ''tool_choice'' (chatToolChoiceToResponses (member raw ''tool_choice'')) @
       optional ''text'' (map_option JObj (chatTextOptionsToResponses raw)) @
       optional ''reasoning'' (map_option JObj (chatReasoningToResponses raw)) @
       optional ''parallel_tool_calls'' (map_of raw ''parallel_tool_calls'') @
       optional ''service_tier'' (if stringFromMap raw ''service_tier'' \<noteq> [] then Some (JStr (stringFromMap raw ''service_tier'')) else None)"
    and rest: "um_Model (cc_Metadata c) = stringFromMap raw ''model''" "cc_StopSequences c = chatStopSequences (member raw ''stop'')"
    by (rule chat_request_cases [OF Inr])
  have keys: "distinct (map fst (cc_Responses c))" by (simp add: out optional_keys optional_last del: set_append map_append)
  have trimmed: "trim_space (stringFromMap raw ''model'') = stringFromMap raw ''model''" by (simp add: stringFromMap_def)
  have model_text: "rawStringFromMap (cc_Responses c) ''model'' = stringFromMap raw ''model''"
    and instr: "rawStringFromMap (cc_Responses c) ''instructions'' \<noteq> []"
    by (simp_all add: out rawStringFromMap_def member_def defaultChatCompletionInstructions_def)
  have flags: "member (cc_Responses c) ''stream'' = JBool True" "member (cc_Responses c) ''store'' = JBool False"
    "member (cc_Responses c) ''input'' = json_list input" by (simp_all add: out member_def)
  have opts:
    "map_of (cc_Responses c) ''tools'' = (if chatToolsToResponses (member raw ''tools'') \<noteq> [] then Some (JArr (chatToolsToResponses (member raw ''tools''))) else None)"
    "map_of (cc_Responses c) ''tool_choice'' = chatToolChoiceToResponses (member raw ''tool_choice'')"
    "map_of (cc_Responses c) ''text'' = map_option JObj (chatTextOptionsToResponses raw)"
    "map_of (cc_Responses c) ''reasoning'' = map_option JObj (chatReasoningToResponses raw)"
    "map_of (cc_Responses c) ''service_tier'' = (if stringFromMap raw ''service_tier'' \<noteq> [] then Some (JStr (stringFromMap raw ''service_tier'')) else None)"
    by (simp_all add: out optional_lookup optional_last del: map_of_append)
  have tools: "typed_list typed_tool v" if "map_of (cc_Responses c) ''tools'' = Some v" for v
    using that unfolding opts by (auto simp: typed_list_def typed_tools split: if_splits)
  have choice: "v \<noteq> JNull \<and> v \<noteq> JStr []" if "map_of (cc_Responses c) ''tool_choice'' = Some v" for v
    using that unfolding opts by (rule typed_choice)
  have txt_opts: "some_object v" if "map_of (cc_Responses c) ''text'' = Some v" for v
    using that typed_options(1) unfolding opts by (auto simp: some_object_def is_obj_def)
  have reasoning: "some_object v" if "map_of (cc_Responses c) ''reasoning'' = Some v" for v
    using that typed_options(2) unfolding opts by (auto simp: some_object_def is_obj_def)
  have tier: "is_str v \<and> v \<noteq> JStr []" if "map_of (cc_Responses c) ''service_tier'' = Some v" for v
    using that unfolding opts by (auto simp: is_str_def split: if_splits)
  have inp: "member (cc_Responses c) ''input'' = JNull \<or> typed_list typed_item (member (cc_Responses c) ''input'')"
    using typed_input [OF input] by (simp only: flags)
  have "responses_request (cc_Responses c)"
    unfolding responses_request_def model_text
    by (intro conjI allI impI keys model trimmed flags instr inp)
      (erule tools choice [THEN conjunct1] choice [THEN conjunct2] txt_opts reasoning tier [THEN conjunct1] tier [THEN conjunct2])+
  with rest stop_sequences_nonempty model_text show ?thesis by (simp add: Inr)
qed

end
