(* ===== verification/Stop_Filter.thy ===== *)
theory Stop_Filter
  imports Proxy_Prelude "HOL-Library.Sublist"
begin

text \<open>
  Stop sequences (\<open>truncateAtStopSequence\<close> and \<open>chatStopFilter\<close> of \<open>chat_completions.go\<close>): cutting a
  text at the first stop sequence, at once or while it arrives in pieces. Texts are bytes; \<open>runes\<close>
  splits valid UTF-8, which is what \<open>encoding/json\<close> decodes every string to.
\<close>

section \<open>Runes\<close>

definition continuation :: "char \<Rightarrow> bool" where
  "continuation c \<longleftrightarrow> (of_char c :: nat) div 64 = 2"

function runes :: "string \<Rightarrow> string list" where
  "runes [] = []"
| "runes (c # s) = (c # takeWhile continuation s) # runes (dropWhile continuation s)"
  by pat_completeness auto
termination by (relation "measure length") (auto simp: le_imp_less_Suc length_dropWhile_le)

definition rune_start :: "string \<Rightarrow> bool" where
  "rune_start s \<longleftrightarrow> s = [] \<or> \<not> continuation (hd s)"

lemma concat_runes [simp]: "concat (runes s) = s"
  by (induction s rule: runes.induct) simp_all

lemma runes_Nil [simp]: "runes s = [] \<longleftrightarrow> s = []"
  by (cases s) simp_all

lemma rune_start_drop: "rune_start (dropWhile continuation s)"
  using hd_dropWhile [of continuation s] by (auto simp: rune_start_def)

lemma runes_append: "rune_start t \<Longrightarrow> runes (s @ t) = runes s @ runes t"
proof (induction s rule: runes.induct)
  case (2 c s)
  show ?case
  proof (cases "dropWhile continuation s = []")
    case True
    then have all: "\<forall>x\<in>set s. continuation x" by (simp add: dropWhile_eq_Nil_conv)
    have "takeWhile continuation t = []" "dropWhile continuation t = t"
      using 2(2) by (cases t; simp add: rune_start_def)+
    moreover have tw: "takeWhile continuation s = s" using all by (simp only: takeWhile_eq_all_conv)
    ultimately show ?thesis using True by (simp add: tw takeWhile_append dropWhile_append all)
  next
    case False
    then have "\<exists>x\<in>set s. \<not> continuation x" by (auto simp: dropWhile_eq_Nil_conv)
    with 2 show ?thesis by (auto simp: takeWhile_append1 dropWhile_append1)
  qed
qed simp

section \<open>Cutting\<close>

text \<open>\<open>strings.Index\<close>: the first position at which the second text is found.\<close>

fun str_index :: "string \<Rightarrow> string \<Rightarrow> nat option" where
  "str_index s stop =
     (if prefix stop s then Some 0
      else (case s of [] \<Rightarrow> None | c # s' \<Rightarrow> map_option Suc (str_index s' stop)))"

declare str_index.simps [simp del]

fun first_stop :: "nat option \<Rightarrow> string \<Rightarrow> string list \<Rightarrow> nat option" where
  "first_stop index content [] = index"
| "first_stop index content (stop # stops) =
     (if stop = [] then first_stop index content stops
      else (case (str_index content stop, index) of
              (Some found, None) \<Rightarrow> first_stop (Some found) content stops
            | (Some found, Some best) \<Rightarrow> first_stop (Some (if found < best then found else best)) content stops
            | (None, _) \<Rightarrow> first_stop index content stops))"

definition truncateAtStopSequence :: "string \<Rightarrow> string list \<Rightarrow> string \<times> bool" where
  "truncateAtStopSequence content stops =
     (case first_stop None content stops of None \<Rightarrow> (content, False) | Some index \<Rightarrow> (take index content, True))"

section \<open>The filter\<close>

record chatStopFilter =
  sf_stopSequences :: "string list"
  sf_buffered :: string
  sf_maxStopRunes :: nat
  sf_stopped :: bool

definition newChatStopFilter :: "string list \<Rightarrow> chatStopFilter" where
  "newChatStopFilter stops =
     \<lparr>sf_stopSequences = stops, sf_buffered = [],
      sf_maxStopRunes = fold (\<lambda>stop n. if n < length (runes stop) then length (runes stop) else n) stops 0,
      sf_stopped = False\<rparr>"

definition stop_push :: "string \<Rightarrow> chatStopFilter \<Rightarrow> (string \<times> bool) \<times> chatStopFilter" where
  "stop_push delta f =
     (if sf_maxStopRunes f = 0 then ((delta, False), f)
      else if sf_stopped f \<or> delta = [] then (([], sf_stopped f), f)
      else
        let combined = sf_buffered f @ delta in
        (case truncateAtStopSequence combined (sf_stopSequences f) of
           (content, True) \<Rightarrow> ((content, True), f\<lparr>sf_buffered := [], sf_stopped := True\<rparr>)
         | (_, False) \<Rightarrow>
             let keep = sf_maxStopRunes f - 1; rs = runes combined in
             if keep = 0 then ((combined, False), f)
             else if length rs \<le> keep then (([], False), f\<lparr>sf_buffered := combined\<rparr>)
             else ((concat (take (length rs - keep) rs), False), f\<lparr>sf_buffered := concat (drop (length rs - keep) rs)\<rparr>)))"

definition stop_flush :: "chatStopFilter \<Rightarrow> string \<times> chatStopFilter" where
  "stop_flush f =
     (if sf_maxStopRunes f = 0 \<or> sf_stopped f \<or> sf_buffered f = [] then ([], f)
      else (sf_buffered f, f\<lparr>sf_buffered := []\<rparr>))"

text \<open>Pushing the pieces of a text one after the other.\<close>

fun stop_pushes :: "string list \<Rightarrow> chatStopFilter \<Rightarrow> string \<times> chatStopFilter" where
  "stop_pushes [] f = ([], f)"
| "stop_pushes (d # ds) f =
     (case stop_push d f of ((out, stopped), f1) \<Rightarrow>
        (case stop_pushes ds f1 of (outs, f2) \<Rightarrow> (out @ outs, f2)))"

definition filtered :: "string list \<Rightarrow> string list \<Rightarrow> string \<times> bool" where
  "filtered stops ds =
     (case stop_pushes ds (newChatStopFilter stops) of (out, f) \<Rightarrow> (out @ fst (stop_flush f), sf_stopped f))"

section \<open>Where a text is cut\<close>

definition stop_at :: "string list \<Rightarrow> string \<Rightarrow> nat \<Rightarrow> bool" where
  "stop_at stops s i \<longleftrightarrow> (\<exists>stop\<in>set stops. stop \<noteq> [] \<and> prefix stop (drop i s))"

lemma stop_at_Nil [simp]: "\<not> stop_at [] s i"
  by (simp add: stop_at_def)

lemma stop_at_Cons: "stop_at (stop # stops) s i \<longleftrightarrow> (stop \<noteq> [] \<and> prefix stop (drop i s)) \<or> stop_at stops s i"
  by (simp add: stop_at_def)

lemma stop_at_shift: "stop_at stops (u @ s) (length u + i) \<longleftrightarrow> stop_at stops s i"
  by (simp add: stop_at_def)

lemma stop_at_mono: "prefix u s \<Longrightarrow> stop_at stops u i \<Longrightarrow> stop_at stops s i"
  unfolding stop_at_def by (elim prefixE bexE) (simp, blast intro: prefix_prefix)

lemma stop_at_less: "stop_at stops s i \<Longrightarrow> i < length s"
  unfolding stop_at_def by (rule ccontr) auto

lemma str_index_Some:
  "str_index s stop = Some i \<Longrightarrow> prefix stop (drop i s) \<and> (\<forall>j<i. \<not> prefix stop (drop j s))"
proof (induction s arbitrary: i)
  case Nil
  then show ?case by (subst (asm) str_index.simps) (simp split: if_splits)
next
  case (Cons c s)
  show ?case
  proof (cases "prefix stop (c # s)")
    case True
    with Cons(2) show ?thesis by (subst (asm) str_index.simps) simp
  next
    case False
    with Cons(2) obtain k where "str_index s stop = Some k" "i = Suc k"
      by (subst (asm) str_index.simps) auto
    with Cons(1) [of k] False show ?thesis by (auto simp: less_Suc_eq_0_disj)
  qed
qed

lemma str_index_None: "str_index s stop = None \<Longrightarrow> stop \<noteq> [] \<Longrightarrow> \<not> prefix stop (drop j s)"
proof (induction s arbitrary: j)
  case Nil
  then show ?case by simp
next
  case (Cons c s)
  then have "\<not> prefix stop (c # s)" "str_index s stop = None"
    by (subst (asm) (2) str_index.simps; simp split: if_splits)+
  with Cons(1,3) show ?case by (cases j) auto
qed

definition better :: "string list \<Rightarrow> string \<Rightarrow> nat option \<Rightarrow> nat option \<Rightarrow> bool" where
  "better stops s index r =
     (case r of
        None \<Rightarrow> index = None \<and> (\<forall>j. \<not> stop_at stops s j)
      | Some i \<Rightarrow> (index = Some i \<or> stop_at stops s i) \<and> (\<forall>j<i. \<not> stop_at stops s j) \<and> (\<forall>b. index = Some b \<longrightarrow> i \<le> b))"

lemma first_stop_better: "better stops s index (first_stop index s stops)"
proof (induction stops arbitrary: index)
  case Nil
  then show ?case by (simp add: better_def split: option.split)
next
  case (Cons stop stops)
  show ?case
  proof (cases "stop = []")
    case True
    with Cons [of index] show ?thesis by (simp add: better_def stop_at_Cons split: option.splits)
  next
    case False
    show ?thesis
    proof (cases "str_index s stop")
      case None
      from str_index_None [OF this False] Cons [of index] None False show ?thesis
        by (simp add: better_def stop_at_Cons split: option.splits)
    next
      case (Some found)
      note found = str_index_Some [OF Some]
      define best where "best = (case index of None \<Rightarrow> found | Some b \<Rightarrow> if found < b then found else b)"
      have step: "first_stop index s (stop # stops) = first_stop (Some best) s stops"
        using False Some by (cases index) (simp_all add: best_def)
      have le: "best \<le> found" "\<And>b. index = Some b \<Longrightarrow> best \<le> b" and which: "index = Some best \<or> best = found"
        by (auto simp: best_def split: option.splits)
      show ?thesis
        using Cons [of "Some best"] le which found False unfolding step
        by (cases "first_stop (Some best) s stops") (auto simp: better_def stop_at_Cons)
    qed
  qed
qed

lemma truncate_cases:
  obtains (whole) "truncateAtStopSequence s stops = (s, False)" "\<And>i. \<not> stop_at stops s i"
  | (cut) i where "truncateAtStopSequence s stops = (take i s, True)" "stop_at stops s i" "\<And>j. j < i \<Longrightarrow> \<not> stop_at stops s j"
  using first_stop_better [of stops s None]
  by (cases "first_stop None s stops") (auto simp: truncateAtStopSequence_def better_def)

lemma truncate_shift:
  assumes "\<And>i. i < length u \<Longrightarrow> \<not> stop_at stops (u @ s) i"
  shows "truncateAtStopSequence (u @ s) stops = (case truncateAtStopSequence s stops of (c, b) \<Rightarrow> (u @ c, b))"
proof (cases rule: truncate_cases [of s stops])
  case whole
  have "\<not> stop_at stops (u @ s) i" for i
    using assms [of i] whole(2) [of "i - length u"] stop_at_shift [of stops u s "i - length u"] by (cases "i < length u") auto
  with whole(1) show ?thesis by (cases rule: truncate_cases [of "u @ s" stops]) auto
next
  case (cut i)
  have at: "stop_at stops (u @ s) (length u + i)" using cut(2) by (simp add: stop_at_shift)
  have before: "\<not> stop_at stops (u @ s) j" if "j < length u + i" for j
    using assms [of j] cut(3) [of "j - length u"] stop_at_shift [of stops u s "j - length u"] that by (cases "j < length u") auto
  show ?thesis
  proof (cases rule: truncate_cases [of "u @ s" stops])
    case whole
    with at show ?thesis by simp
  next
    case c: (cut k)
    have "k = length u + i" using c(2,3) at before by (meson linorder_neqE_nat)
    with c(1) cut(1) show ?thesis by simp
  qed
qed

section \<open>The filter keeps enough\<close>

lemma runes_drop: "runes (concat (drop n (runes s))) = drop n (runes s)"
proof (induction s arbitrary: n rule: runes.induct)
  case (2 c s)
  then show ?case by (cases n) (simp_all del: runes.simps add: runes.simps(2))
qed simp

lemma rune_start_runes: "rune_start s \<Longrightarrow> rune_start (concat (drop n (runes s)))"
proof (induction s arbitrary: n rule: runes.induct)
  case (2 c s)
  show ?case
  proof (cases n)
    case 0
    then show ?thesis using 2(2) by (simp del: runes.simps)
  next
    case (Suc m)
    then show ?thesis using 2(1) [OF rune_start_drop, of m] by simp
  qed
qed simp

lemma max_runes:
  "n \<le> fold (\<lambda>stop n. if n < length (runes stop) then length (runes stop) else n) stops n \<and>
   (\<forall>stop\<in>set stops. length (runes stop) \<le> fold (\<lambda>stop n. if n < length (runes stop) then length (runes stop) else n) stops n)"
proof (induction stops arbitrary: n)
  case (Cons a stops)
  from Cons [of "length (runes a)"] Cons [of n] show ?case by auto
qed simp

text \<open>The filter has seen the text \<open>T\<close>, in which no stop sequence is complete, and sent \<open>sent\<close> of it.\<close>

definition pending :: "string list \<Rightarrow> string \<Rightarrow> string \<Rightarrow> chatStopFilter \<Rightarrow> bool" where
  "pending stops sent T f \<longleftrightarrow>
     sf_stopSequences f = stops \<and> \<not> sf_stopped f \<and> T = sent @ sf_buffered f \<and> rune_start (sf_buffered f) \<and>
     length (runes (sf_buffered f)) \<le> sf_maxStopRunes f - 1 \<and>
     (sent \<noteq> [] \<longrightarrow> length (runes (sf_buffered f)) = sf_maxStopRunes f - 1) \<and>
     (\<forall>stop\<in>set stops. length (runes stop) \<le> sf_maxStopRunes f) \<and> (\<forall>i. \<not> stop_at stops T i)"

lemma late_stop:
  assumes p: "pending stops sent T f" and starts: "\<forall>stop\<in>set stops. rune_start stop" "rune_start d"
    and i: "i < length sent"
  shows "\<not> stop_at stops (T @ d) i"
proof
  assume "stop_at stops (T @ d) i"
  then obtain stop where stop: "stop \<in> set stops" "stop \<noteq> []" "prefix stop (drop i (T @ d))" by (auto simp: stop_at_def)
  have T: "T = sent @ sf_buffered f" using p by (simp add: pending_def)
  have "\<not> stop_at stops T i" using p unfolding pending_def by blast
  with stop(1,2) have no: "\<not> prefix stop (drop i T)" by (auto simp: stop_at_def)
  have "prefix stop (drop i T @ d)" using stop(3) i T by simp
  with no obtain d1 where d1: "stop = drop i T @ d1" "prefix d1 d" "d1 \<noteq> []"
    by (auto simp: prefix_append)
  have "rune_start d1" using d1(2,3) starts(2) by (cases d1; cases d) (auto simp: rune_start_def)
  then have "runes stop = runes (drop i T) @ runes d1" using d1(1) by (simp add: runes_append)
  moreover have "drop i T = drop i sent @ sf_buffered f" using i T by simp
  then have "runes (drop i T) = runes (drop i sent) @ runes (sf_buffered f)"
    using p by (simp add: pending_def runes_append)
  moreover have "length (runes (sf_buffered f)) = sf_maxStopRunes f - 1" "length (runes stop) \<le> sf_maxStopRunes f"
    using p i stop(1) by (auto simp: pending_def)
  moreover have "0 < length (runes (drop i sent))" "0 < length (runes d1)" using i d1(3) by simp_all
  ultimately show False by (simp only: length_append)
qed

lemma pending_push:
  assumes p: "pending stops sent T f" and starts: "\<forall>stop\<in>set stops. rune_start stop" "rune_start d"
    and max: "0 < sf_maxStopRunes f" and push: "stop_push d f = ((out, b), f1)"
  shows "(case truncateAtStopSequence (T @ d) stops of
            (content, True) \<Rightarrow> sent @ out = content \<and> b \<and> sf_stopped f1
          | (_, False) \<Rightarrow> pending stops (sent @ out) (T @ d) f1 \<and> \<not> b) \<and> sf_maxStopRunes f1 = sf_maxStopRunes f"
proof (cases "d = []")
  case True
  moreover have "truncateAtStopSequence T stops = (T, False)"
    using p by (cases rule: truncate_cases [of T stops]) (auto simp: pending_def)
  ultimately show ?thesis using p push max by (auto simp: stop_push_def pending_def)
next
  case False
  let ?c = "sf_buffered f @ d"
  have f: "\<not> sf_stopped f" "sf_stopSequences f = stops" and T: "T @ d = sent @ ?c" using p by (simp_all add: pending_def)
  have shift: "truncateAtStopSequence (T @ d) stops = (case truncateAtStopSequence ?c stops of (c, b) \<Rightarrow> (sent @ c, b))"
    unfolding T by (rule truncate_shift) (use late_stop [OF p starts] T in simp)
  have c: "rune_start ?c" using p starts(2) by (cases "sf_buffered f") (auto simp: pending_def rune_start_def)
  show ?thesis
  proof (cases rule: truncate_cases [of ?c stops])
    case (cut i)
    with shift push f max False show ?thesis by (auto simp: stop_push_def)
  next
    case whole
    have none: "\<not> stop_at stops (T @ d) i" for i
      using shift whole(1) by (cases rule: truncate_cases [of "T @ d" stops]) auto
    let ?keep = "sf_maxStopRunes f - 1"
    have step: "stop_push d f =
       (if ?keep = 0 then ((?c, False), f)
        else if length (runes ?c) \<le> ?keep then (([], False), f\<lparr>sf_buffered := ?c\<rparr>)
        else ((concat (take (length (runes ?c) - ?keep) (runes ?c)), False),
              f\<lparr>sf_buffered := concat (drop (length (runes ?c) - ?keep) (runes ?c))\<rparr>))"
      using f max False whole(1) by (simp add: stop_push_def Let_def)
    have all: "concat (take n (runes ?c)) @ concat (drop n (runes ?c)) = ?c" for n
      by (simp flip: concat_append)
    have all_out: "T @ d = (sent @ concat (take n (runes ?c))) @ concat (drop n (runes ?c))" for n
      unfolding T append_assoc all ..
    consider (zero) "?keep = 0" | (short) "?keep \<noteq> 0" "length (runes ?c) \<le> ?keep" | (long) "?keep \<noteq> 0" "?keep < length (runes ?c)"
      by linarith
    then show ?thesis
    proof cases
      case zero
      then have "sf_buffered f = []" using p by (simp add: pending_def)
      with zero p none push whole(1) shift show ?thesis unfolding step by (simp add: pending_def)
    next
      case short
      have "sent = []"
      proof (rule ccontr)
        assume "sent \<noteq> []"
        then have "length (runes ?c) = ?keep + length (runes d)" using p starts(2) by (simp add: pending_def runes_append)
        moreover have "0 < length (runes d)" using False by simp
        ultimately show False using short by linarith
      qed
      moreover have "out = []" "f1 = f\<lparr>sf_buffered := ?c\<rparr>" "\<not> b" using push short unfolding step by simp_all
      ultimately show ?thesis using short p none whole(1) shift c by (simp add: pending_def)
    next
      case long
      let ?n = "length (runes ?c) - ?keep"
      have "out = concat (take ?n (runes ?c))" "f1 = f\<lparr>sf_buffered := concat (drop ?n (runes ?c))\<rparr>" "\<not> b"
        using push long unfolding step by simp_all
      moreover have "length (runes (concat (drop ?n (runes ?c)))) = ?keep" using long by (simp only: runes_drop length_drop)
      ultimately show ?thesis
        using p none whole(1) shift rune_start_runes [OF c, of ?n] all_out [of ?n] by (simp add: pending_def)
    qed
  qed
qed

section \<open>Pieces\<close>

definition complete :: "string list \<Rightarrow> string \<Rightarrow> bool" where
  "complete stops s \<longleftrightarrow> snd (truncateAtStopSequence s stops)"

lemma complete_iff: "complete stops s \<longleftrightarrow> (\<exists>i. stop_at stops s i)"
  by (cases rule: truncate_cases [of s stops]) (auto simp: complete_def)

text \<open>The text up to the piece with which a stop sequence is complete for the first time.\<close>

fun text_seen :: "string list \<Rightarrow> string \<Rightarrow> string list \<Rightarrow> string" where
  "text_seen stops T [] = T"
| "text_seen stops T (d # ds) = (if complete stops (T @ d) then T @ d else text_seen stops (T @ d) ds)"

lemma pushes_stopped: "sf_stopped f \<Longrightarrow> sf_maxStopRunes f \<noteq> 0 \<Longrightarrow> stop_pushes ds f = ([], f)"
  by (induction ds) (simp_all add: stop_push_def)

lemma pushes_nothing: "sf_maxStopRunes f = 0 \<Longrightarrow> stop_pushes ds f = (concat ds, f)"
  by (induction ds) (simp_all add: stop_push_def)

lemma pushes_cut:
  assumes "pending stops sent T f" "\<forall>stop\<in>set stops. rune_start stop" "\<forall>d\<in>set ds. rune_start d" "0 < sf_maxStopRunes f"
    "stop_pushes ds f = (outs, f1)"
  shows "(sent @ outs @ fst (stop_flush f1), sf_stopped f1) = truncateAtStopSequence (text_seen stops T ds) stops"
  using assms
proof (induction ds arbitrary: sent T f outs)
  case Nil
  then have "truncateAtStopSequence T stops = (T, False)"
    by (cases rule: truncate_cases [of T stops]) (auto simp: pending_def)
  with Nil show ?case by (auto simp: pending_def stop_flush_def)
next
  case (Cons d ds)
  obtain out b f2 where push: "stop_push d f = ((out, b), f2)" by (metis prod.exhaust)
  obtain outs2 where rest: "stop_pushes ds f2 = (outs2, f1)" and outs: "outs = out @ outs2"
    using Cons(6) push by (auto split: prod.splits)
  have step: "(case truncateAtStopSequence (T @ d) stops of
            (content, True) \<Rightarrow> sent @ out = content \<and> b \<and> sf_stopped f2
          | (_, False) \<Rightarrow> pending stops (sent @ out) (T @ d) f2 \<and> \<not> b)" and max: "sf_maxStopRunes f2 = sf_maxStopRunes f"
    using pending_push [OF Cons(2,3) _ Cons(5) push] Cons(4) by auto
  show ?case
  proof (cases "truncateAtStopSequence (T @ d) stops")
    case (Pair content stop)
    show ?thesis
    proof (cases stop)
      case True
      then have seen: "text_seen stops T (d # ds) = T @ d" and f2: "sf_stopped f2" "sent @ out = content"
        using step Pair by (auto simp: complete_def)
      from pushes_stopped [OF f2(1), of ds] max Cons(5) rest have "outs2 = []" "f1 = f2" by auto
      with seen f2 Pair True outs show ?thesis by (simp add: stop_flush_def)
    next
      case False
      with step Pair have pend: "pending stops (sent @ out) (T @ d) f2" by simp
      have seen: "text_seen stops T (d # ds) = text_seen stops (T @ d) ds" using Pair False by (simp add: complete_def)
      with Cons(1) [OF pend Cons(3) _ _ rest] Cons(4,5) max show ?thesis unfolding seen outs by simp
    qed
  qed
qed

lemma filtered_cut:
  assumes "\<forall>stop\<in>set stops. rune_start stop" "\<forall>d\<in>set ds. rune_start d"
  shows "filtered stops ds = truncateAtStopSequence (text_seen stops [] ds) stops"
proof (cases "sf_maxStopRunes (newChatStopFilter stops) = 0")
  case True
  then have "\<forall>stop\<in>set stops. stop = []" using max_runes [of 0 stops] by (simp add: newChatStopFilter_def)
  then have none: "\<not> stop_at stops s i" for s i by (auto simp: stop_at_def)
  then have "\<not> complete stops s" for s by (simp add: complete_iff)
  then have "text_seen stops T ds = T @ concat ds" for T by (induction ds arbitrary: T) simp_all
  moreover have "truncateAtStopSequence s stops = (s, False)" for s
    using none by (cases rule: truncate_cases [of s stops]) auto
  ultimately show ?thesis
    using True by (simp add: filtered_def pushes_nothing stop_flush_def) (simp add: newChatStopFilter_def)
next
  case False
  have "pending stops [] [] (newChatStopFilter stops)"
    using max_runes [of 0 stops] by (auto simp: pending_def newChatStopFilter_def rune_start_def stop_at_def)
  from pushes_cut [OF this assms] False show ?thesis
    by (cases "stop_pushes ds (newChatStopFilter stops)") (simp add: filtered_def)
qed

section \<open>What the filter sends\<close>



text \<open>
  No stop sequence ever reaches the client of a stream: what the filter sends is a prefix of the
  text, and no stop sequence occurs in it. When the text has none, all of it is sent.
\<close>

theorem no_stop_is_sent:
  assumes "\<forall>stop\<in>set stops. rune_start stop" "\<forall>d\<in>set ds. rune_start d"
  shows "prefix (fst (filtered stops ds)) (concat ds) \<and>
    \<not> complete stops (fst (filtered stops ds)) \<and>
    (\<not> complete stops (concat ds) \<longrightarrow> filtered stops ds = (concat ds, False))"
proof -
  have seen: "prefix (text_seen stops T es) (T @ concat es) \<and> (\<not> complete stops (T @ concat es) \<longrightarrow> text_seen stops T es = T @ concat es)" for T es
  proof (induction es arbitrary: T)
    case (Cons d es)
    have "complete stops (T @ d @ concat es)" if "complete stops (T @ d)"
      using that stop_at_mono [of "T @ d" "T @ d @ concat es" stops] by (auto simp: complete_iff)
    with Cons [of "T @ d"] show ?case by auto
  qed simp
  let ?T = "text_seen stops [] ds"
  have T: "prefix ?T (concat ds)" "\<not> complete stops (concat ds) \<Longrightarrow> ?T = concat ds" using seen [of "[]" ds] by auto
  show ?thesis
  proof (cases rule: truncate_cases [of ?T stops])
    case whole
    have "filtered stops ds = (concat ds, False)" if "\<not> complete stops (concat ds)"
      using whole(1) T(2) [OF that] by (simp add: filtered_cut [OF assms])
    then have "\<not> complete stops (concat ds) \<longrightarrow> filtered stops ds = (concat ds, False)" by blast
    moreover have "fst (filtered stops ds) = ?T" using whole(1) by (simp add: filtered_cut [OF assms])
    ultimately show ?thesis using whole(2) T(1) by (simp only: complete_iff) simp
  next
    case (cut i)
    have "prefix (take i ?T) (concat ds)" using T(1) by (rule prefix_order.trans [OF take_is_prefix])
    moreover have "\<not> stop_at stops (take i ?T) j" for j
    proof
      assume at: "stop_at stops (take i ?T) j"
      from stop_at_mono [OF take_is_prefix this] have "stop_at stops ?T j" .
      moreover have "j < i" using stop_at_less [OF at] by simp
      ultimately show False using cut(3) by blast
    qed
    moreover have "complete stops (concat ds)"
    proof (rule ccontr)
      assume "\<not> complete stops (concat ds)"
      with T(2) cut(2) show False by (auto simp: complete_iff)
    qed
    ultimately show ?thesis using cut(1) by (simp add: filtered_cut [OF assms] complete_iff)
  qed
qed

theorem no_stop_is_sent_witness:
  "prefix (fst (filtered [''END''] [''abE'', ''NDx''])) ''abENDx'' \<and> \<not> complete [''END''] (fst (filtered [''END''] [''abE'', ''NDx'']))"
proof -
  have "\<forall>stop\<in>set [''END'']. rune_start stop" "\<forall>d\<in>set [''abE'', ''NDx'']. rune_start d" by code_simp+
  from no_stop_is_sent [OF this] show ?thesis by simp
qed

text \<open>
  Where the stream is cut can depend on how the text was split: with a stop sequence that ends inside
  a longer one that starts earlier, the shorter one wins when it arrives first.
\<close>

theorem stop_depends_on_pieces:
  "filtered [''abcd'', ''c''] [''abc'', ''d''] = (''ab'', True) \<and>
   filtered [''abcd'', ''c''] [''abcd''] = ([], True) \<and>
   truncateAtStopSequence ''abcd'' [''abcd'', ''c''] = ([], True)"
  by code_simp

end
