(* ===== verification/Chat_Stream.thy ===== *)
theory Chat_Stream
  imports Sse_Reader Chat_Request Stop_Filter
begin

text \<open>
  The Responses events as the state of one chat completion (\<open>chatCompletionState\<close> of
  \<open>chat_completions.go\<close>). Every function returns the state also when it fails: usage that was read
  before a failure is still accounted. A Go map is an association list; \<open>currentToolIndex\<close> is \<open>None\<close>
  for -1. Output indexes are 64-bit integers and wrap.
\<close>

section \<open>The state\<close>

record chatToolCallState =
  tc_ID :: string
  tc_ItemID :: string
  tc_Name :: string
  tc_OutputIndex :: int
  tc_Arguments :: string

record chatCompletionState =
  cs_id :: string
  cs_model :: string
  cs_created :: int
  cs_content :: string
  cs_toolCalls :: "chatToolCallState list"
  cs_toolIndexByItem :: "(string \<times> nat) list"
  cs_toolIndexByCall :: "(string \<times> nat) list"
  cs_toolIndexByOutput :: "(int \<times> nat) list"
  cs_currentToolIndex :: "nat option"
  cs_outputItems :: "(int \<times> json_map) list"
  cs_nextOutputIndex :: int
  cs_usage :: usage_counters
  cs_hasUsage :: bool
  cs_finishReason :: string
  cs_terminal :: bool
  cs_stopped :: bool

definition newChatCompletionState :: "int \<Rightarrow> string \<Rightarrow> chatCompletionState" where
  "newChatCompletionState created model =
     \<lparr>cs_id = ''chatcmpl-'' @ decimal created, cs_model = model, cs_created = created, cs_content = [], cs_toolCalls = [],
      cs_toolIndexByItem = [], cs_toolIndexByCall = [], cs_toolIndexByOutput = [], cs_currentToolIndex = None,
      cs_outputItems = [], cs_nextOutputIndex = 0, cs_usage = zero_counters, cs_hasUsage = False, cs_finishReason = [],
      cs_terminal = False, cs_stopped = False\<rparr>"

datatype toolDelta =
    InitialDelta nat string string string
  | ArgumentsDelta nat string

record chatStreamUpdate =
  su_ContentDelta :: string
  su_ToolDeltas :: "toolDelta list"
  su_Terminal :: bool
  su_FinishReason :: string
  su_ResponseID :: string
  su_ResponseModel :: string
  su_UnknownReason :: string

definition no_update :: chatStreamUpdate where
  "no_update = \<lparr>su_ContentDelta = [], su_ToolDeltas = [], su_Terminal = False, su_FinishReason = [], su_ResponseID = [],
     su_ResponseModel = [], su_UnknownReason = []\<rparr>"

section \<open>Failures\<close>

record chatStreamFailure =
  cf_statusCode :: int
  cf_body :: string

text \<open>\<open>ChatPanic\<close> is the panic of \<open>make\<close> on a capacity that no address space holds.\<close>

datatype chat_error = StreamFailed chatStreamFailure | PlainReadError | ClientWriteError | ChatPanic

definition safeChatLogValue :: "string \<Rightarrow> string" where
  "safeChatLogValue v = (if safeHealthCode v \<noteq> [] then safeHealthCode v else ''unknown'')"

definition newChatProtocolFailure :: "chat_lib \<Rightarrow> string \<Rightarrow> chatStreamFailure" where
  "newChatProtocolFailure lib code =
     \<lparr>cf_statusCode = 502,
      cf_body = (case marshal_value lib (JObj [(''error'', JObj
                    [(''message'', JStr ''upstream Responses stream failed''), (''type'', JStr ''upstream_error''),
                     (''code'', JStr (safeChatLogValue code))])]) of Some body \<Rightarrow> body | None \<Rightarrow> [])\<rparr>"

definition protocol :: "chat_lib \<Rightarrow> string \<Rightarrow> chat_error" where
  "protocol lib code = StreamFailed (newChatProtocolFailure lib code)"

fun first_status :: "chat_lib \<Rightarrow> json_map \<Rightarrow> string list \<Rightarrow> int option" where
  "first_status lib e [] = None"
| "first_status lib e (k # ks) =
     (case int64Value (usage_values lib) (member e k) of
        Some status \<Rightarrow> if 400 \<le> status \<and> status \<le> 599 then Some status else first_status lib e ks
      | None \<Rightarrow> first_status lib e ks)"

definition chatFailureStatus :: "chat_lib \<Rightarrow> json_map \<Rightarrow> int" where
  "chatFailureStatus lib e =
     (case first_status lib e [''status_code'', ''status''] of
        Some status \<Rightarrow> status
      | None \<Rightarrow>
          let errorType = lower_ascii_view (rawStringFromMap e ''type''); errorCode = lower_ascii_view (rawStringFromMap e ''code'');
              message = lower_ascii_view (rawStringFromMap e ''message'') in
          if errorType = ''invalid_request_error'' \<or> errorType = ''bad_request_error'' \<or> errorCode = ''context_length_exceeded'' \<or>
             errorCode = ''context_too_large'' \<or> contains message ''context window'' \<or> contains message ''context length'' then 400
          else if errorType = ''authentication_error'' \<or> errorCode = ''invalid_api_key'' \<or> errorCode = ''unauthorized'' then 401
          else if errorType = ''permission_error'' \<or> errorCode = ''forbidden'' \<or> errorCode = ''permission_denied'' then 403
          else if errorType = ''not_found_error'' \<or> errorCode = ''not_found'' \<or> errorCode = ''model_not_found'' then 404
          else if errorType = ''rate_limit_error'' \<or> errorType = ''usage_limit_reached'' \<or> errorCode = ''rate_limit_exceeded'' then 429
          else if errorCode = ''model_not_supported'' \<or> errorCode = ''unsupported_model'' \<or> errorCode = ''unknown_model'' \<or>
             errorCode = ''model_unavailable'' then 400
          else 502)"

definition selected_fields :: "json_map \<Rightarrow> string list \<Rightarrow> json_map" where
  "selected_fields m ks = concat (map (copied m) ks)"

definition failure_source :: "json_map \<Rightarrow> string \<Rightarrow> json_map option" where
  "failure_source payload eventType =
     (let own = mapValue (member payload ''error'') in
      if eventType = ''response.failed'' then
        (case Option.bind (mapValue (member payload ''response'')) (\<lambda>response. mapValue (member response ''error'')) of
           Some e \<Rightarrow> Some e | None \<Rightarrow> own)
      else if eventType = ''error'' then own else None)"

definition chatFailureFromEvent :: "chat_lib \<Rightarrow> json_map \<Rightarrow> string \<Rightarrow> chatStreamFailure" where
  "chatFailureFromEvent lib payload eventType =
     (let selected =
            (case failure_source payload eventType of
               Some e \<Rightarrow> selected_fields e
                 [''message'', ''type'', ''code'', ''param'', ''status'', ''status_code'', ''resets_at'', ''resets_in_seconds'']
             | None \<Rightarrow> (case member payload ''error'' of
                          JStr message \<Rightarrow> if trim_space message \<noteq> [] then [(''message'', JStr message)] else []
                        | _ \<Rightarrow> []));
          selected =
            (if eventType = ''error'' then
               let s = selected @ concat (map (\<lambda>k. if map_of selected k = None then copied payload k else [])
                         [''message'', ''code'', ''param'', ''status'', ''status_code'', ''resets_at'', ''resets_in_seconds''])
               in if map_of s ''type'' = None \<and> rawStringFromMap payload ''error_type'' \<noteq> []
                  then s @ [(''type'', JStr (rawStringFromMap payload ''error_type''))] else s
             else selected);
          selected =
            (if trim_space (rawStringFromMap selected ''message'') = []
             then AList.update ''message'' (JStr ''upstream Responses stream failed'') selected else selected)
      in case marshal_value lib (JObj [(''error'', JObj selected)]) of
           None \<Rightarrow> newChatProtocolFailure lib ''upstream_error''
         | Some body \<Rightarrow> \<lparr>cf_statusCode = chatFailureStatus lib selected, cf_body = body\<rparr>)"

section \<open>Tool calls\<close>

definition lookupToolCallIndex :: "chat_lib \<Rightarrow> json_map \<Rightarrow> chatCompletionState \<Rightarrow> nat option" where
  "lookupToolCallIndex lib item st =
     (let itemID = stringFromMap item ''id''; callID = firstNonEmptyString [stringFromMap item ''call_id'', itemID] in
      case (if itemID \<noteq> [] then map_of (cs_toolIndexByItem st) itemID else None) of
        Some i \<Rightarrow> Some i
      | None \<Rightarrow>
          (case (if callID \<noteq> [] then map_of (cs_toolIndexByCall st) callID else None) of
             Some i \<Rightarrow> Some i
           | None \<Rightarrow> Option.bind (int64Value (usage_values lib) (member item ''output_index'')) (map_of (cs_toolIndexByOutput st))))"

definition toolCall :: "chatCompletionState \<Rightarrow> nat \<Rightarrow> chatToolCallState" where
  "toolCall st i = cs_toolCalls st ! i"

definition set_toolCall :: "nat \<Rightarrow> chatToolCallState \<Rightarrow> chatCompletionState \<Rightarrow> chatCompletionState" where
  "set_toolCall i call st = st\<lparr>cs_toolCalls := (cs_toolCalls st)[i := call]\<rparr>"

definition new_tool_call :: "string \<Rightarrow> string \<Rightarrow> string \<Rightarrow> int \<Rightarrow> nat \<Rightarrow> chatToolCallState" where
  "new_tool_call itemID callID name outputIndex n =
     \<lparr>tc_ID = firstNonEmptyString [callID, ''call_'' @ decimal (int n)], tc_ItemID = itemID, tc_Name = name,
      tc_OutputIndex = outputIndex, tc_Arguments = []\<rparr>"

definition merge_tool_call :: "string \<Rightarrow> string \<Rightarrow> string \<Rightarrow> int \<Rightarrow> chatToolCallState \<Rightarrow> chatToolCallState" where
  "merge_tool_call itemID callID name outputIndex call =
     call\<lparr>tc_ItemID := (if itemID \<noteq> [] then itemID else tc_ItemID call),
          tc_ID := (if callID \<noteq> [] then callID else tc_ID call),
          tc_Name := (if name \<noteq> [] then name else tc_Name call),
          tc_OutputIndex := (if 0 \<le> outputIndex then outputIndex else tc_OutputIndex call)\<rparr>"

definition ensureToolCall ::
  "chat_lib \<Rightarrow> json_map \<Rightarrow> int \<Rightarrow> chatCompletionState \<Rightarrow> (nat \<times> bool) \<times> chatCompletionState" where
  "ensureToolCall lib item outputIndex st =
     (let itemID = stringFromMap item ''id''; callID = firstNonEmptyString [stringFromMap item ''call_id'', itemID];
          name = stringFromMap item ''name'';
          found = (case lookupToolCallIndex lib item st of
                     Some i \<Rightarrow> Some i
                   | None \<Rightarrow> if 0 \<le> outputIndex then map_of (cs_toolIndexByOutput st) outputIndex else None);
          n = length (cs_toolCalls st);
          index = (case found of Some i \<Rightarrow> i | None \<Rightarrow> n);
          calls = (case found of
                     Some i \<Rightarrow> cs_toolCalls st
                   | None \<Rightarrow> cs_toolCalls st @ [new_tool_call itemID callID name outputIndex n])
      in ((index, found = None),
          st\<lparr>cs_toolCalls := calls[index := merge_tool_call itemID callID name outputIndex (calls ! index)],
             cs_toolIndexByItem := (if itemID \<noteq> [] then AList.update itemID index (cs_toolIndexByItem st) else cs_toolIndexByItem st),
             cs_toolIndexByCall := (if callID \<noteq> [] then AList.update callID index (cs_toolIndexByCall st) else cs_toolIndexByCall st),
             cs_toolIndexByOutput :=
               (if 0 \<le> outputIndex then AList.update outputIndex index (cs_toolIndexByOutput st) else cs_toolIndexByOutput st),
             cs_currentToolIndex := Some index\<rparr>))"

lemma tool_call_arguments [simp]:
  "tc_Arguments (new_tool_call itemID callID name oi n) = []" "tc_Arguments (merge_tool_call itemID callID name oi call) = tc_Arguments call"
  by (simp_all add: new_tool_call_def merge_tool_call_def)

definition outputIndexForEvent :: "chat_lib \<Rightarrow> json_map \<Rightarrow> json_map \<Rightarrow> chatCompletionState \<Rightarrow> int \<times> chatCompletionState" where
  "outputIndexForEvent lib payload item st =
     (let fresh = (cs_nextOutputIndex st, st\<lparr>cs_nextOutputIndex := wrap64 (cs_nextOutputIndex st + 1)\<rparr>);
          known = (case lookupToolCallIndex lib item st of
                     Some i \<Rightarrow> if 0 \<le> tc_OutputIndex (toolCall st i) then (tc_OutputIndex (toolCall st i), st) else fresh
                   | None \<Rightarrow> fresh)
      in case int64Value (usage_values lib) (member payload ''output_index'') of
           Some i \<Rightarrow>
             if 0 \<le> i
             then (i, if cs_nextOutputIndex st \<le> i then st\<lparr>cs_nextOutputIndex := wrap64 (i + 1)\<rparr> else st)
             else known
         | None \<Rightarrow> known)"

fun first_indexed :: "(string \<times> nat) list \<Rightarrow> json_map \<Rightarrow> string list \<Rightarrow> nat option" where
  "first_indexed index payload [] = None"
| "first_indexed index payload (k # ks) =
     (case (if stringFromMap payload k \<noteq> [] then map_of index (stringFromMap payload k) else None) of
        Some i \<Rightarrow> Some i
      | None \<Rightarrow> first_indexed index payload ks)"

definition toolIndexForPayload :: "chat_lib \<Rightarrow> json_map \<Rightarrow> chatCompletionState \<Rightarrow> nat option" where
  "toolIndexForPayload lib payload st =
     (case first_indexed (cs_toolIndexByItem st) payload [''item_id'', ''output_item_id'', ''id''] of
        Some i \<Rightarrow> Some i
      | None \<Rightarrow>
          (case first_indexed (cs_toolIndexByCall st) payload [''call_id''] of
             Some i \<Rightarrow> Some i
           | None \<Rightarrow>
               (case Option.bind (int64Value (usage_values lib) (member payload ''output_index'')) (map_of (cs_toolIndexByOutput st)) of
                  Some i \<Rightarrow> Some i
                | None \<Rightarrow>
                    (case cs_currentToolIndex st of
                       Some i \<Rightarrow> if i < length (cs_toolCalls st) then Some i else None
                     | None \<Rightarrow> None))))"

definition initialToolCallDelta :: "nat \<Rightarrow> chatCompletionState \<Rightarrow> toolDelta" where
  "initialToolCallDelta i st = InitialDelta i (tc_ID (toolCall st i)) (tc_Name (toolCall st i)) (tc_Arguments (toolCall st i))"

section \<open>Snapshots\<close>

type_synonym 'a step = "(chat_error + 'a) \<times> chatCompletionState"

definition reconcileTextSnapshot :: "chat_lib \<Rightarrow> bool \<Rightarrow> string \<Rightarrow> chatCompletionState \<Rightarrow> string step" where
  "reconcileTextSnapshot lib streaming snapshot st =
     (if \<not> prefix (cs_content st) snapshot then
        if streaming then (Inl (protocol lib ''output_conflict''), st) else (Inr [], st\<lparr>cs_content := snapshot\<rparr>)
      else
        let suffix = drop (length (cs_content st)) snapshot
        in (Inr suffix, st\<lparr>cs_content := cs_content st @ suffix\<rparr>))"

definition set_arguments :: "nat \<Rightarrow> string \<Rightarrow> chatCompletionState \<Rightarrow> chatCompletionState" where
  "set_arguments i arguments st = set_toolCall i ((toolCall st i)\<lparr>tc_Arguments := arguments\<rparr>) st"

definition reconcileToolArguments :: "chat_lib \<Rightarrow> bool \<Rightarrow> nat \<Rightarrow> string \<Rightarrow> chatCompletionState \<Rightarrow> string step" where
  "reconcileToolArguments lib streaming i full st =
     (let current = tc_Arguments (toolCall st i) in
      if \<not> prefix current full then
        if streaming then (Inl (protocol lib ''output_conflict''), st) else (Inr [], set_arguments i full st)
      else (Inr (drop (length current) full), set_arguments i (current @ drop (length current) full) st))"

definition reconcileToolSnapshot ::
  "chat_lib \<Rightarrow> bool \<Rightarrow> json_map \<Rightarrow> int \<Rightarrow> chatCompletionState \<Rightarrow> toolDelta list step" where
  "reconcileToolSnapshot lib streaming item outputIndex st =
     (case ensureToolCall lib item outputIndex st of ((i, created), st1) \<Rightarrow>
        let full = rawStringFromMap item ''arguments'' in
        if created then
          let st2 = set_arguments i (tc_Arguments (toolCall st1 i) @ full) st1 in (Inr [initialToolCallDelta i st2], st2)
        else
          (case reconcileToolArguments lib streaming i full st1 of
             (Inl e, st2) \<Rightarrow> (Inl e, st2)
           | (Inr delta, st2) \<Rightarrow> (Inr (if delta = [] then [] else [ArgumentsDelta i delta]), st2)))"

definition outputTextFromMessage :: "json_map \<Rightarrow> string" where
  "outputTextFromMessage message =
     (case member message ''content'' of
        JArr parts \<Rightarrow> concat (map (\<lambda>part. rawStringFromMap part ''text'') (objects parts))
      | _ \<Rightarrow> [])"

definition reconcileStreamingOutputItem ::
  "chat_lib \<Rightarrow> json_map \<Rightarrow> int \<Rightarrow> chatCompletionState \<Rightarrow> chatStreamUpdate step" where
  "reconcileStreamingOutputItem lib item outputIndex st =
     (if stringFromMap item ''type'' = ''message'' then
        (case reconcileTextSnapshot lib True (outputTextFromMessage item) st of
           (Inl e, st1) \<Rightarrow> (Inl e, st1) | (Inr delta, st1) \<Rightarrow> (Inr (no_update\<lparr>su_ContentDelta := delta\<rparr>), st1))
      else if stringFromMap item ''type'' = ''function_call'' then
        (case reconcileToolSnapshot lib True item outputIndex st of
           (Inl e, st1) \<Rightarrow> (Inl e, st1) | (Inr deltas, st1) \<Rightarrow> (Inr (no_update\<lparr>su_ToolDeltas := deltas\<rparr>), st1))
      else (Inr no_update, st))"

section \<open>The terminal event\<close>

fun enumerate_from :: "int \<Rightarrow> 'a list \<Rightarrow> (int \<times> 'a) list" where
  "enumerate_from i [] = []"
| "enumerate_from i (x # xs) = (i, x) # enumerate_from (i + 1) xs"

text \<open>
  \<open>resolvedResponseOutput\<close>: an item of the terminal event, or else the one that was done before at that
  index, for every index up to the highest. The slice is made for all of them at once; 2^44 items of 16
  bytes are the 2^48 bytes at which \<open>makeslice\<close> panics.
\<close>

definition maxSliceItems :: int where "maxSliceItems = 17592186044416"

definition max_index :: "(int \<times> json_map) list \<Rightarrow> int" where
  "max_index items = foldr max (map fst items) (-1)"

definition resolve_items :: "(int \<times> json_map) list \<Rightarrow> (int \<times> json_map) list \<Rightarrow> (int \<times> json_map) list" where
  "resolve_items terminal earlier =
     List.map_filter (\<lambda>i. map_option (Pair i) (case map_of terminal i of Some item \<Rightarrow> Some item | None \<Rightarrow> map_of earlier i))
       [0..max (max_index terminal) (max_index earlier)]"

definition resolvedResponseOutput ::
  "chat_lib \<Rightarrow> json_map \<Rightarrow> chatCompletionState \<Rightarrow> chat_error + (int \<times> json_map) list" where
  "resolvedResponseOutput lib response st =
     (let vs = (case map_of response ''output'' of None \<Rightarrow> Some [] | Some (JArr vs) \<Rightarrow> Some vs | Some v \<Rightarrow> None) in
      case vs of
        None \<Rightarrow> Inl (protocol lib ''malformed_event'')
      | Some vs \<Rightarrow>
          if \<exists>v\<in>set vs. mapValue v = None then Inl (protocol lib ''malformed_event'')
          else
            let terminal = enumerate_from 0 (objects vs) in
            if maxSliceItems < max (max_index terminal) (max_index (cs_outputItems st)) + 1 then Inl ChatPanic
            else Inr (resolve_items terminal (cs_outputItems st)))"

definition item_type :: "int \<times> json_map \<Rightarrow> string" where
  "item_type indexed = stringFromMap (snd indexed) ''type''"

definition message_text :: "(int \<times> json_map) list \<Rightarrow> string" where
  "message_text items = concat (map (outputTextFromMessage \<circ> snd) (filter (\<lambda>indexed. item_type indexed = ''message'') items))"

definition tool_items :: "(int \<times> json_map) list \<Rightarrow> (int \<times> json_map) list" where
  "tool_items items = filter (\<lambda>indexed. item_type indexed = ''function_call'') items"

definition has_message :: "(int \<times> json_map) list \<Rightarrow> bool" where
  "has_message items \<longleftrightarrow> (\<exists>indexed\<in>set items. item_type indexed = ''message'')"

definition resetToolCalls :: "chatCompletionState \<Rightarrow> chatCompletionState" where
  "resetToolCalls st =
     st\<lparr>cs_toolCalls := [], cs_toolIndexByItem := [], cs_toolIndexByCall := [], cs_toolIndexByOutput := [],
        cs_currentToolIndex := None\<rparr>"

definition replace_tool :: "chat_lib \<Rightarrow> int \<times> json_map \<Rightarrow> chatCompletionState \<Rightarrow> chatCompletionState" where
  "replace_tool lib indexed st =
     (case ensureToolCall lib (snd indexed) (fst indexed) st of
        ((i, _), st1) \<Rightarrow> set_arguments i (rawStringFromMap (snd indexed) ''arguments'') st1)"

text \<open>The loop over the tool items of a stream; \<open>finals\<close> is the set \<open>finalTools\<close>.\<close>

fun reconcile_tools ::
  "chat_lib \<Rightarrow> (int \<times> json_map) list \<Rightarrow> toolDelta list \<Rightarrow> nat list \<Rightarrow> chatCompletionState \<Rightarrow> (toolDelta list \<times> nat list) step" where
  "reconcile_tools lib [] deltas finals st = (Inr (deltas, finals), st)"
| "reconcile_tools lib (indexed # items) deltas finals st =
     (case reconcileToolSnapshot lib True (snd indexed) (fst indexed) st of
        (Inl e, st1) \<Rightarrow> (Inl e, st1)
      | (Inr ds, st1) \<Rightarrow>
          let index = (case lookupToolCallIndex lib (snd indexed) st1 of
                         Some i \<Rightarrow> i
                       | None \<Rightarrow> (case map_of (cs_toolIndexByOutput st1) (fst indexed) of Some i \<Rightarrow> i | None \<Rightarrow> 0))
          in reconcile_tools lib items (deltas @ ds) (List.insert index finals) st1)"

definition reconcileTerminalOutput :: "chat_lib \<Rightarrow> json_map \<Rightarrow> bool \<Rightarrow> chatCompletionState \<Rightarrow> chatStreamUpdate step" where
  "reconcileTerminalOutput lib response streaming st =
     (case resolvedResponseOutput lib response st of
        Inl e \<Rightarrow> (Inl e, st)
      | Inr items \<Rightarrow>
          if \<not> has_message items \<and> tool_items items = [] then (Inr no_update, st)
          else if \<not> streaming then
            (Inr no_update, fold (replace_tool lib) (tool_items items) (resetToolCalls (st\<lparr>cs_content := message_text items\<rparr>)))
          else
            (case (if has_message items then reconcileTextSnapshot lib True (message_text items) st
                   else if cs_content st \<noteq> [] then (Inl (protocol lib ''output_conflict''), st)
                   else (Inr [], st)) of
               (Inl e, st1) \<Rightarrow> (Inl e, st1)
             | (Inr delta, st1) \<Rightarrow>
                 (case reconcile_tools lib (tool_items items) [] [] st1 of
                    (Inl e, st2) \<Rightarrow> (Inl e, st2)
                  | (Inr (deltas, finals), st2) \<Rightarrow>
                      if length finals \<noteq> length (cs_toolCalls st2) then (Inl (protocol lib ''output_conflict''), st2)
                      else (Inr (no_update\<lparr>su_ContentDelta := delta, su_ToolDeltas := deltas\<rparr>), st2))))"

definition incompleteFinishReason :: "json_map \<Rightarrow> string \<times> string" where
  "incompleteFinishReason response =
     (let reason = (case mapValue (member response ''incomplete_details'') of
                      Some details \<Rightarrow> stringFromMap details ''reason'' | None \<Rightarrow> [])
      in if reason = ''content_filter'' then (''content_filter'', [])
         else if reason = ''max_tokens'' \<or> reason = ''max_output_tokens'' then (''length'', [])
         else (''length'', reason))"

definition finalFinishReason :: "chatCompletionState \<Rightarrow> string" where
  "finalFinishReason st =
     (if cs_stopped st then ''stop''
      else if cs_finishReason st \<noteq> [] then cs_finishReason st
      else if cs_toolCalls st \<noteq> [] then ''tool_calls'' else ''stop'')"

definition applyResponseMetadata :: "json_map \<Rightarrow> chatCompletionState \<Rightarrow> chatCompletionState" where
  "applyResponseMetadata response st =
     st\<lparr>cs_id := (if stringFromMap response ''id'' \<noteq> [] then stringFromMap response ''id'' else cs_id st),
        cs_model := (if stringFromMap response ''model'' \<noteq> [] then stringFromMap response ''model'' else cs_model st)\<rparr>"

definition applyResponseUsage :: "chat_lib \<Rightarrow> json_map \<Rightarrow> chatCompletionState \<Rightarrow> chatCompletionState" where
  "applyResponseUsage lib response st =
     (case usageCountersFromValue (usage_values lib) (member response ''usage'') of
        Some c \<Rightarrow> st\<lparr>cs_usage := c, cs_hasUsage := True\<rparr> | None \<Rightarrow> st)"

definition applyTerminalResponse :: "chat_lib \<Rightarrow> json_map \<Rightarrow> string \<Rightarrow> bool \<Rightarrow> chatCompletionState \<Rightarrow> chatStreamUpdate step" where
  "applyTerminalResponse lib response eventType streaming st =
     (case reconcileTerminalOutput lib response streaming (applyResponseUsage lib response (applyResponseMetadata response st)) of
        (Inl e, st1) \<Rightarrow> (Inl e, st1)
      | (Inr update, st1) \<Rightarrow>
          let (reason, unknown) =
                (if eventType = ''response.incomplete'' then incompleteFinishReason response
                 else (if cs_toolCalls st1 \<noteq> [] then ''tool_calls'' else ''stop'', su_UnknownReason update));
              st2 = st1\<lparr>cs_finishReason := reason\<rparr>
          in (Inr (update\<lparr>su_UnknownReason := unknown, su_FinishReason := finalFinishReason st2\<rparr>), st2))"

section \<open>Events\<close>

definition decodeChatResponsesEvent :: "chat_lib \<Rightarrow> sseEvent \<Rightarrow> chat_error + json_map \<times> string" where
  "decodeChatResponsesEvent lib ev =
     (case decode_single lib (ev_Data ev) of
        None \<Rightarrow> Inl (protocol lib ''malformed_event'')
      | Some payload \<Rightarrow>
          let eventType = (if stringFromMap payload ''type'' \<noteq> [] then stringFromMap payload ''type'' else trim_space (ev_Event ev))
          in if eventType = [] then Inl (protocol lib ''malformed_event'') else Inr (payload, eventType))"

definition malformed :: "chat_lib \<Rightarrow> chatCompletionState \<Rightarrow> chatStreamUpdate step" where
  "malformed lib st = (Inl (protocol lib ''malformed_event''), st)"

definition created_event :: "chat_lib \<Rightarrow> json_map \<Rightarrow> chatCompletionState \<Rightarrow> chatStreamUpdate step" where
  "created_event lib payload st =
     (case mapValue (member payload ''response'') of
        None \<Rightarrow> malformed lib st
      | Some response \<Rightarrow>
          let st1 = applyResponseMetadata response st
          in (Inr (no_update\<lparr>su_ResponseID := cs_id st1, su_ResponseModel := cs_model st1\<rparr>), st1))"

definition text_delta_event :: "chat_lib \<Rightarrow> json_map \<Rightarrow> chatCompletionState \<Rightarrow> chatStreamUpdate step" where
  "text_delta_event lib payload st =
     (case member payload ''delta'' of
        JStr delta \<Rightarrow> (Inr (no_update\<lparr>su_ContentDelta := delta\<rparr>), st\<lparr>cs_content := cs_content st @ delta\<rparr>)
      | _ \<Rightarrow> malformed lib st)"

definition text_done_event :: "chat_lib \<Rightarrow> bool \<Rightarrow> json_map \<Rightarrow> chatCompletionState \<Rightarrow> chatStreamUpdate step" where
  "text_done_event lib streaming payload st =
     (case reconcileTextSnapshot lib streaming
             (firstNonEmptyString [rawStringFromMap payload ''text'', rawStringFromMap payload ''output_text'']) st of
        (Inl e, st1) \<Rightarrow> (Inl e, st1)
      | (Inr delta, st1) \<Rightarrow> (Inr (no_update\<lparr>su_ContentDelta := delta\<rparr>), st1))"

definition item_added_event :: "chat_lib \<Rightarrow> json_map \<Rightarrow> chatCompletionState \<Rightarrow> chatStreamUpdate step" where
  "item_added_event lib payload st =
     (case mapValue (member payload ''item'') of
        None \<Rightarrow> malformed lib st
      | Some item \<Rightarrow>
          if stringFromMap item ''type'' \<noteq> ''function_call'' then (Inr no_update, st)
          else
            (case outputIndexForEvent lib payload item st of (outputIndex, st1) \<Rightarrow>
               (case ensureToolCall lib item outputIndex st1 of ((i, created), st2) \<Rightarrow>
                  (Inr (if created then no_update\<lparr>su_ToolDeltas := [initialToolCallDelta i st2]\<rparr> else no_update), st2))))"

definition item_done_event :: "chat_lib \<Rightarrow> bool \<Rightarrow> json_map \<Rightarrow> chatCompletionState \<Rightarrow> chatStreamUpdate step" where
  "item_done_event lib streaming payload st =
     (case mapValue (member payload ''item'') of
        None \<Rightarrow> malformed lib st
      | Some item \<Rightarrow>
          (case outputIndexForEvent lib payload item st of (outputIndex, st1) \<Rightarrow>
             let st2 = st1\<lparr>cs_outputItems := AList.update outputIndex item (cs_outputItems st1)\<rparr> in
             if streaming then reconcileStreamingOutputItem lib item outputIndex st2 else (Inr no_update, st2)))"

definition arguments_delta_event :: "chat_lib \<Rightarrow> json_map \<Rightarrow> chatCompletionState \<Rightarrow> chatStreamUpdate step" where
  "arguments_delta_event lib payload st =
     (case (toolIndexForPayload lib payload st, member payload ''delta'') of
        (Some i, JStr delta) \<Rightarrow>
          (Inr (no_update\<lparr>su_ToolDeltas := [ArgumentsDelta i delta]\<rparr>), set_arguments i (tc_Arguments (toolCall st i) @ delta) st)
      | _ \<Rightarrow> malformed lib st)"

definition arguments_done_event :: "chat_lib \<Rightarrow> bool \<Rightarrow> json_map \<Rightarrow> chatCompletionState \<Rightarrow> chatStreamUpdate step" where
  "arguments_done_event lib streaming payload st =
     (case (toolIndexForPayload lib payload st, member payload ''arguments'') of
        (Some i, JStr arguments) \<Rightarrow>
          (case reconcileToolArguments lib streaming i arguments st of
             (Inl e, st1) \<Rightarrow> (Inl e, st1)
           | (Inr delta, st1) \<Rightarrow>
               (Inr (if delta \<noteq> [] then no_update\<lparr>su_ToolDeltas := [ArgumentsDelta i delta]\<rparr> else no_update), st1))
      | _ \<Rightarrow> malformed lib st)"

definition terminal_event :: "chat_lib \<Rightarrow> bool \<Rightarrow> json_map \<Rightarrow> string \<Rightarrow> chatCompletionState \<Rightarrow> chatStreamUpdate step" where
  "terminal_event lib streaming payload eventType st =
     (case mapValue (member payload ''response'') of
        None \<Rightarrow> malformed lib st
      | Some response \<Rightarrow>
          (case applyTerminalResponse lib response eventType streaming st of
             (Inl e, st1) \<Rightarrow> (Inl e, st1)
           | (Inr update, st1) \<Rightarrow>
               (Inr (update\<lparr>su_Terminal := True, su_ResponseID := cs_id st1, su_ResponseModel := cs_model st1\<rparr>),
                st1\<lparr>cs_terminal := True\<rparr>)))"

definition failed_event :: "chat_lib \<Rightarrow> json_map \<Rightarrow> chatCompletionState \<Rightarrow> chatStreamUpdate step" where
  "failed_event lib payload st =
     (Inl (StreamFailed (chatFailureFromEvent lib payload ''response.failed'')),
      case mapValue (member payload ''response'') of
        Some response \<Rightarrow> applyResponseUsage lib response (applyResponseMetadata response st) | None \<Rightarrow> st)"

definition handle_event :: "chat_lib \<Rightarrow> bool \<Rightarrow> json_map \<Rightarrow> string \<Rightarrow> chatCompletionState \<Rightarrow> chatStreamUpdate step" where
  "handle_event lib streaming payload eventType st =
     (if eventType = ''response.created'' then created_event lib payload st
      else if eventType = ''response.output_text.delta'' then text_delta_event lib payload st
      else if eventType = ''response.output_text.done'' then text_done_event lib streaming payload st
      else if eventType = ''response.output_item.added'' then item_added_event lib payload st
      else if eventType = ''response.output_item.done'' then item_done_event lib streaming payload st
      else if eventType = ''response.function_call_arguments.delta'' then arguments_delta_event lib payload st
      else if eventType = ''response.function_call_arguments.done'' then arguments_done_event lib streaming payload st
      else if eventType = ''response.completed'' \<or> eventType = ''response.incomplete'' then terminal_event lib streaming payload eventType st
      else if eventType = ''response.failed'' then failed_event lib payload st
      else if eventType = ''error'' then (Inl (StreamFailed (chatFailureFromEvent lib payload eventType)), st)
      else (Inr no_update, st))"

definition applyResponsesEvent :: "chat_lib \<Rightarrow> bool \<Rightarrow> sseEvent \<Rightarrow> chatCompletionState \<Rightarrow> chatStreamUpdate step" where
  "applyResponsesEvent lib streaming ev st =
     (case decodeChatResponsesEvent lib ev of
        Inl e \<Rightarrow> (Inl e, st)
      | Inr (payload, eventType) \<Rightarrow>
          if cs_terminal st then (Inl (protocol lib ''data_after_terminal''), st)
          else handle_event lib streaming payload eventType st)"

end
