(* ===== verification/Chat_Properties.thy ===== *)
theory Chat_Properties
  imports Chat_Stream
begin

text \<open>
  What holds of a chat completion while its events arrive: the indexes of the tool calls stay in range,
  the deltas that are sent are the state, and the streamed text is the text of the answer. \<open>told\<close> is the
  relation between two states and what was sent in between; it composes along the events.
\<close>

section \<open>Indexes stay in range\<close>

definition indexes_below :: "nat \<Rightarrow> ('a \<times> nat) list \<Rightarrow> bool" where
  "indexes_below n index \<longleftrightarrow> (\<forall>k i. map_of index k = Some i \<longrightarrow> i < n)"

definition chat_wf :: "chatCompletionState \<Rightarrow> bool" where
  "chat_wf st \<longleftrightarrow>
     indexes_below (length (cs_toolCalls st)) (cs_toolIndexByItem st) \<and>
     indexes_below (length (cs_toolCalls st)) (cs_toolIndexByCall st) \<and>
     indexes_below (length (cs_toolCalls st)) (cs_toolIndexByOutput st) \<and>
     (\<forall>i. cs_currentToolIndex st = Some i \<longrightarrow> i < length (cs_toolCalls st))"

lemma indexes_below_Nil [simp]: "indexes_below n []"
  by (simp add: indexes_below_def)

lemma indexes_below_update: "indexes_below n m \<Longrightarrow> i < n' \<Longrightarrow> n \<le> n' \<Longrightarrow> indexes_below n' (AList.update k i m)"
  by (fastforce simp: indexes_below_def)

lemma indexes_below_mono: "indexes_below n m \<Longrightarrow> n \<le> n' \<Longrightarrow> indexes_below n' m"
  by (fastforce simp: indexes_below_def)

lemma below_hit: "indexes_below n m \<Longrightarrow> map_of m k = Some i \<Longrightarrow> i < n"
  by (simp add: indexes_below_def)

lemma lookup_below:
  assumes "chat_wf st" "lookupToolCallIndex lib item st = Some i" shows "i < length (cs_toolCalls st)"
  using assms by (auto simp: lookupToolCallIndex_def Let_def chat_wf_def bind_eq_Some_conv elim: below_hit split: if_splits option.splits)

lemma first_indexed_below: "indexes_below n index \<Longrightarrow> first_indexed index payload ks = Some i \<Longrightarrow> i < n"
  by (induction ks) (auto elim: below_hit split: option.splits if_splits)

lemma payload_below:
  assumes "chat_wf st" "toolIndexForPayload lib payload st = Some i" shows "i < length (cs_toolCalls st)"
  using assms
  by (auto simp: toolIndexForPayload_def chat_wf_def bind_eq_Some_conv elim: below_hit first_indexed_below
      simp del: first_indexed.simps split: if_splits option.splits)

text \<open>The text of the arguments of a call; none for a call that does not exist.\<close>

definition arguments_of :: "chatCompletionState \<Rightarrow> nat \<Rightarrow> string" where
  "arguments_of st i = (if i < length (cs_toolCalls st) then tc_Arguments (cs_toolCalls st ! i) else [])"

lemma ensure_result:
  assumes wf: "chat_wf st" and e: "ensureToolCall lib item oi st = ((i, created), st')"
  shows "chat_wf st'" "i < length (cs_toolCalls st')" "arguments_of st' = arguments_of st"
    "length (cs_toolCalls st') = length (cs_toolCalls st) + (if created then 1 else 0)" "created \<Longrightarrow> i = length (cs_toolCalls st)"
    "cs_content st' = cs_content st" "cs_outputItems st' = cs_outputItems st" "cs_terminal st' = cs_terminal st"
proof -
  let ?n = "length (cs_toolCalls st)"
  define found where "found = (case lookupToolCallIndex lib item st of
      Some i \<Rightarrow> Some i | None \<Rightarrow> if 0 \<le> oi then map_of (cs_toolIndexByOutput st) oi else None)"
  have found: "found = Some j \<Longrightarrow> j < ?n" for j
    using wf lookup_below [OF wf, of lib item] by (auto simp: found_def chat_wf_def elim: below_hit split: option.splits if_splits)
  have st': "st' = snd (ensureToolCall lib item oi st)" by (simp add: e)
  have i: "i = (case found of Some i \<Rightarrow> i | None \<Rightarrow> ?n)" and created: "created = (found = None)"
    using arg_cong [OF e, of fst] by (simp_all only: ensureToolCall_def Let_def found_def [symmetric] fst_conv prod.inject)
  have calls: "\<exists>new merged. tc_Arguments new = [] \<and> (\<forall>call. tc_Arguments (merged call) = tc_Arguments call) \<and>
      cs_toolCalls st' = (let calls = (case found of Some j \<Rightarrow> cs_toolCalls st | None \<Rightarrow> cs_toolCalls st @ [new])
        in calls[i := merged (calls ! i)])"
    by (rule exI [of _ "new_tool_call (stringFromMap item ''id'') (firstNonEmptyString [stringFromMap item ''call_id'', stringFromMap item ''id''])
           (stringFromMap item ''name'') oi ?n"],
        rule exI [of _ "merge_tool_call (stringFromMap item ''id'') (firstNonEmptyString [stringFromMap item ''call_id'', stringFromMap item ''id''])
           (stringFromMap item ''name'') oi"])
      (simp add: i st' ensureToolCall_def Let_def found_def [symmetric] del: firstNonEmptyString.simps)
  then obtain new merged where calls: "tc_Arguments new = []" "\<And>call. tc_Arguments (merged call) = tc_Arguments call"
    "cs_toolCalls st' = (let calls = (case found of Some j \<Rightarrow> cs_toolCalls st | None \<Rightarrow> cs_toolCalls st @ [new])
        in calls[i := merged (calls ! i)])"
    by blast
  have len: "length (cs_toolCalls st') = ?n + (if created then 1 else 0)"
    unfolding calls(3) created by (cases found) (simp_all add: Let_def)
  then show "length (cs_toolCalls st') = ?n + (if created then 1 else 0)" .
  show "i = ?n" if created using that i created by simp
  show below: "i < length (cs_toolCalls st')" using i len found created by (auto split: option.splits)
  let ?item = "stringFromMap item ''id''" and ?call = "firstNonEmptyString [stringFromMap item ''call_id'', stringFromMap item ''id'']"
  have "cs_toolIndexByItem st' = (if ?item \<noteq> [] then AList.update ?item i (cs_toolIndexByItem st) else cs_toolIndexByItem st)"
    "cs_toolIndexByCall st' = (if ?call \<noteq> [] then AList.update ?call i (cs_toolIndexByCall st) else cs_toolIndexByCall st)"
    "cs_toolIndexByOutput st' = (if 0 \<le> oi then AList.update oi i (cs_toolIndexByOutput st) else cs_toolIndexByOutput st)"
    "cs_currentToolIndex st' = Some i"
    unfolding st' i by (simp_all add: ensureToolCall_def Let_def found_def [symmetric] del: firstNonEmptyString.simps)
  then have maps:
    "\<exists>k. cs_toolIndexByItem st' \<in> {cs_toolIndexByItem st, AList.update k i (cs_toolIndexByItem st)}"
    "\<exists>k. cs_toolIndexByCall st' \<in> {cs_toolIndexByCall st, AList.update k i (cs_toolIndexByCall st)}"
    "\<exists>k. cs_toolIndexByOutput st' \<in> {cs_toolIndexByOutput st, AList.update k i (cs_toolIndexByOutput st)}"
    "cs_currentToolIndex st' = Some i"
    by (metis insert_iff)+
  have step: "indexes_below (length (cs_toolCalls st')) m'"
    if "indexes_below ?n m" "\<exists>k. m' \<in> {m, AList.update k i m}" for m m' :: "('k \<times> nat) list"
    using that below len by (auto intro: indexes_below_update indexes_below_mono)
  show "chat_wf st'"
    using wf maps below unfolding chat_wf_def by (auto intro: step)
  show "arguments_of st' = arguments_of st"
    using calls found i by (cases found) (auto simp: arguments_of_def Let_def nth_list_update nth_append fun_eq_iff)
  show "cs_content st' = cs_content st" "cs_outputItems st' = cs_outputItems st" "cs_terminal st' = cs_terminal st"
    by (simp_all add: st' ensureToolCall_def Let_def)
qed

lemma set_arguments_simps [simp]:
  "length (cs_toolCalls (set_arguments i a st)) = length (cs_toolCalls st)"
  "cs_content (set_arguments i a st) = cs_content st" "chat_wf (set_arguments i a st) = chat_wf st"
  "cs_outputItems (set_arguments i a st) = cs_outputItems st" "cs_terminal (set_arguments i a st) = cs_terminal st"
  by (simp_all add: set_arguments_def set_toolCall_def chat_wf_def)

lemma arguments_of_set [simp]:
  "i < length (cs_toolCalls st) \<Longrightarrow> arguments_of (set_arguments i a st) = (arguments_of st)(i := a)"
  by (auto simp: arguments_of_def set_arguments_def set_toolCall_def nth_list_update)

lemma toolCall_arguments: "i < length (cs_toolCalls st) \<Longrightarrow> tc_Arguments (toolCall st i) = arguments_of st i"
  by (simp add: toolCall_def arguments_of_def)

lemma arguments_beyond: "length (cs_toolCalls st) \<le> i \<Longrightarrow> arguments_of st i = []"
  by (simp add: arguments_of_def)

section \<open>What a stream sends is its state\<close>

fun delta_arguments :: "nat \<Rightarrow> toolDelta \<Rightarrow> string" where
  "delta_arguments i (InitialDelta j id0 name arguments) = (if i = j then arguments else [])"
| "delta_arguments i (ArgumentsDelta j arguments) = (if i = j then arguments else [])"

definition sent_arguments :: "toolDelta list \<Rightarrow> nat \<Rightarrow> string" where
  "sent_arguments ds i = concat (map (delta_arguments i) ds)"

fun initial_index :: "toolDelta \<Rightarrow> nat list" where
  "initial_index (InitialDelta j id0 name arguments) = [j]"
| "initial_index (ArgumentsDelta j arguments) = []"

definition opened :: "toolDelta list \<Rightarrow> nat list" where
  "opened ds = concat (map initial_index ds)"

text \<open>
  \<open>told st text ds st'\<close>: a client that knows the content and the calls of \<open>st\<close> knows those of \<open>st'\<close> from
  the text and the tool deltas.
\<close>

definition told :: "chatCompletionState \<Rightarrow> string \<Rightarrow> toolDelta list \<Rightarrow> chatCompletionState \<Rightarrow> bool" where
  "told st txt0 ds st' \<longleftrightarrow>
     chat_wf st' \<and> cs_content st' = cs_content st @ txt0 \<and>
     (\<forall>i. arguments_of st' i = arguments_of st i @ sent_arguments ds i) \<and>
     opened ds = [length (cs_toolCalls st)..<length (cs_toolCalls st')] \<and> length (cs_toolCalls st) \<le> length (cs_toolCalls st')"

lemma sent_arguments_simps [simp]:
  "sent_arguments [] i = []" "sent_arguments (d # ds) i = delta_arguments i d @ sent_arguments ds i"
  "sent_arguments (ds @ es) i = sent_arguments ds i @ sent_arguments es i"
  by (simp_all add: sent_arguments_def)

lemma opened_simps [simp]: "opened [] = []" "opened (d # ds) = initial_index d @ opened ds" "opened (ds @ es) = opened ds @ opened es"
  by (simp_all add: opened_def)

lemma told_refl: "chat_wf st \<Longrightarrow> told st [] [] st"
  by (simp add: told_def)

lemma told_trans: "told st t1 ds1 st1 \<Longrightarrow> told st1 t2 ds2 st2 \<Longrightarrow> told st (t1 @ t2) (ds1 @ ds2) st2"
  using upt_add_eq_append [of "length (cs_toolCalls st)" "length (cs_toolCalls st1)" "length (cs_toolCalls st2) - length (cs_toolCalls st1)"]
  by (simp add: told_def)

text \<open>\<open>told\<close> looks at the content and the calls only.\<close>

lemma told_same:
  assumes "told st t ds st1" "cs_content st2 = cs_content st1" "cs_toolCalls st2 = cs_toolCalls st1" "chat_wf st2"
  shows "told st t ds st2"
proof -
  have "arguments_of st2 = arguments_of st1" using assms(3) by (simp add: arguments_of_def fun_eq_iff)
  with assms show ?thesis by (simp add: told_def)
qed

lemma told_from:
  assumes "told st1 t ds st2" "cs_content st = cs_content st1" "cs_toolCalls st = cs_toolCalls st1"
  shows "told st t ds st2"
proof -
  have "arguments_of st = arguments_of st1" using assms(3) by (simp add: arguments_of_def fun_eq_iff)
  with assms show ?thesis by (simp add: told_def)
qed

lemma told_ensure:
  assumes "chat_wf st" "ensureToolCall lib item oi st = ((i, created), st')"
  shows "created \<Longrightarrow> told st [] [initialToolCallDelta i st'] st'" "\<not> created \<Longrightarrow> told st [] [] st'"
proof -
  note r = ensure_result [OF assms]
  have none: "arguments_of st i = []" if created using r(5) [OF that] by (simp add: arguments_beyond)
  have same: "tc_Arguments (toolCall st' i) = arguments_of st i" using r(2,3) by (simp add: toolCall_arguments)
  show "told st [] [initialToolCallDelta i st'] st'" if created
    using that r none same by (simp add: told_def initialToolCallDelta_def)
  show "told st [] [] st'" if "\<not> created" using that r by (simp add: told_def)
qed

lemma told_arguments:
  assumes "chat_wf st" "i < length (cs_toolCalls st)"
  shows "told st [] [ArgumentsDelta i delta] (set_arguments i (arguments_of st i @ delta) st)"
  using assms by (simp add: told_def)

lemma text_snapshot_told:
  assumes "chat_wf st" "reconcileTextSnapshot lib True snapshot st = (Inr delta, st')"
  shows "told st delta [] st'" "cs_content st' = snapshot" "cs_toolCalls st' = cs_toolCalls st"
  using assms by (auto simp: reconcileTextSnapshot_def Let_def told_def chat_wf_def arguments_of_def prefix_def split: if_splits)

lemma reconcile_arguments_told:
  assumes "chat_wf st" "i < length (cs_toolCalls st)" "reconcileToolArguments lib True i full st = (Inr delta, st')"
  shows "told st [] (if delta = [] then [] else [ArgumentsDelta i delta]) st'" "arguments_of st' i = full"
proof -
  have p: "prefix (arguments_of st i) full" "delta = drop (length (arguments_of st i)) full" "st' = set_arguments i (arguments_of st i @ delta) st"
    using assms by (auto simp: reconcileToolArguments_def Let_def toolCall_arguments split: if_splits)
  show "arguments_of st' i = full" using p assms by (auto simp: prefix_def)
  show "told st [] (if delta = [] then [] else [ArgumentsDelta i delta]) st'"
  proof (cases "delta = []")
    case True
    then have "arguments_of st' = arguments_of st" using p(3) assms(2) by (simp add: fun_eq_iff)
    then show ?thesis using True p(3) assms(1) by (simp add: told_def)
  next
    case False
    then show ?thesis using told_arguments [OF assms(1,2), of delta] p(3) by simp
  qed
qed

lemma tool_snapshot_told:
  assumes wf: "chat_wf st" and r: "reconcileToolSnapshot lib True item oi st = (Inr ds, st')"
  shows "told st [] ds st'"
proof -
  obtain i created st1 where e: "ensureToolCall lib item oi st = ((i, created), st1)" by (metis prod.exhaust)
  note wf1 = ensure_result(1,2) [OF wf e]
  show ?thesis
  proof (cases created)
    case True
    note new = told_ensure(1) [OF wf e True]
    have "tc_Arguments (toolCall st1 i) = []"
      using ensure_result [OF wf e] True by (simp add: toolCall_arguments arguments_beyond)
    moreover have "arguments_of st1 i = []" using calculation wf1(2) by (simp add: toolCall_arguments)
    ultimately show ?thesis
      using r e True new wf1
      by (auto simp: reconcileToolSnapshot_def Let_def told_def initialToolCallDelta_def toolCall_arguments)
  next
    case False
    then obtain delta where c: "reconcileToolArguments lib True i (rawStringFromMap item ''arguments'') st1 = (Inr delta, st')"
      "ds = (if delta = [] then [] else [ArgumentsDelta i delta])"
      using r e by (auto simp: reconcileToolSnapshot_def Let_def split: prod.splits sum.splits)
    from told_trans [OF told_ensure(2) [OF wf e False] reconcile_arguments_told(1) [OF wf1 c(1)]] c(2)
    show ?thesis by simp
  qed
qed

lemma told_wf: "told st t ds st' \<Longrightarrow> chat_wf st'"
  by (simp add: told_def)

lemma reconcile_tools_told:
  assumes "told st0 [] ds0 st" "reconcile_tools lib items ds0 finals st = (Inr (ds, finals'), st')"
  shows "told st0 [] ds st'"
  using assms
proof (induction items arbitrary: ds0 finals st)
  case (Cons indexed items)
  obtain ds1 st1 where s: "reconcileToolSnapshot lib True (snd indexed) (fst indexed) st = (Inr ds1, st1)"
    using Cons(3) by (cases "reconcileToolSnapshot lib True (snd indexed) (fst indexed) st"; cases "fst (reconcileToolSnapshot lib True (snd indexed) (fst indexed) st)") auto
  from told_trans [OF Cons(2) tool_snapshot_told [OF told_wf [OF Cons(2)] s]]
  have "told st0 [] (ds0 @ ds1) st1" by simp
  from Cons(1) [OF this] Cons(3) s show ?case by (simp add: Let_def)
qed simp

text \<open>Steps that touch neither the content nor the calls nor their indexes.\<close>

definition same_calls :: "chatCompletionState \<Rightarrow> chatCompletionState \<Rightarrow> bool" where
  "same_calls st st' \<longleftrightarrow>
     cs_content st' = cs_content st \<and> cs_toolCalls st' = cs_toolCalls st \<and> cs_toolIndexByItem st' = cs_toolIndexByItem st \<and>
     cs_toolIndexByCall st' = cs_toolIndexByCall st \<and> cs_toolIndexByOutput st' = cs_toolIndexByOutput st \<and>
     cs_currentToolIndex st' = cs_currentToolIndex st"

lemma same_calls_wf: "same_calls st st' \<Longrightarrow> chat_wf st' = chat_wf st"
  by (simp add: same_calls_def chat_wf_def)

lemma same_calls_simps [simp]:
  "same_calls st (applyResponseMetadata response st)" "same_calls st (applyResponseUsage lib response st)"
  "same_calls st (snd (outputIndexForEvent lib payload item st))" "same_calls st st"
  "same_calls st (st\<lparr>cs_outputItems := items\<rparr>)" "same_calls st (st\<lparr>cs_finishReason := reason\<rparr>)"
  "same_calls st (st\<lparr>cs_terminal := b\<rparr>)"
  by (auto simp: same_calls_def applyResponseMetadata_def applyResponseUsage_def outputIndexForEvent_def Let_def split: option.splits)

lemma same_calls_trans: "same_calls st st1 \<Longrightarrow> same_calls st1 st2 \<Longrightarrow> same_calls st st2"
  by (simp add: same_calls_def)

lemma told_before: "same_calls st st1 \<Longrightarrow> told st1 t ds st2 \<Longrightarrow> told st t ds st2"
  using told_from [of st1 t ds st2 st] by (simp add: same_calls_def)

lemma told_after: "told st t ds st1 \<Longrightarrow> same_calls st1 st2 \<Longrightarrow> told st t ds st2"
  by (rule told_same) (simp_all add: same_calls_def same_calls_wf [unfolded same_calls_def] told_wf chat_wf_def told_def)

lemma told_calls: "chat_wf st \<Longrightarrow> same_calls st st' \<Longrightarrow> told st [] [] st'"
  by (rule told_after [OF told_refl])

lemma terminal_told:
  assumes wf: "chat_wf st" and r: "reconcileTerminalOutput lib response True st = (Inr u, st')"
  shows "told st (su_ContentDelta u) (su_ToolDeltas u) st'"
proof -
  obtain items where items: "resolvedResponseOutput lib response st = Inr items"
    using r by (auto simp: reconcileTerminalOutput_def split: sum.splits)
  show ?thesis
  proof (cases "\<not> has_message items \<and> tool_items items = []")
    case True
    then show ?thesis using r items told_refl [OF wf] by (auto simp: reconcileTerminalOutput_def no_update_def)
  next
    case False
    define txt_step where "txt_step = (if has_message items then reconcileTextSnapshot lib True (message_text items) st
                   else if cs_content st \<noteq> [] then (Inl (protocol lib ''output_conflict''), st) else (Inr [], st))"
    obtain delta st1 where t: "txt_step = (Inr delta, st1)"
      using r items False by (cases txt_step; cases "fst txt_step") (auto simp: reconcileTerminalOutput_def txt_step_def)
    then obtain deltas finals st2 where tools: "reconcile_tools lib (tool_items items) [] [] st1 = (Inr (deltas, finals), st2)"
      using r items False
      by (cases "reconcile_tools lib (tool_items items) [] [] st1"; cases "fst (reconcile_tools lib (tool_items items) [] [] st1)")
        (auto simp: reconcileTerminalOutput_def txt_step_def [symmetric])
    have u: "u = no_update\<lparr>su_ContentDelta := delta, su_ToolDeltas := deltas\<rparr>" "st' = st2"
      using r items False t tools by (auto simp: reconcileTerminalOutput_def txt_step_def [symmetric] split: if_splits)
    have first: "told st delta [] st1"
      using t text_snapshot_told(1) [OF wf] told_refl [OF wf] by (auto simp: txt_step_def split: if_splits)
    have "told st1 [] deltas st2" by (rule reconcile_tools_told [OF told_refl [OF told_wf [OF first]] tools])
    from told_trans [OF first this] show ?thesis by (simp add: u)
  qed
qed

lemma applyTerminal_cases:
  assumes r: "applyTerminalResponse lib response eventType streaming st = (Inr u, st')"
  obtains u1 st1 reason unknown fin where
    "reconcileTerminalOutput lib response streaming (applyResponseUsage lib response (applyResponseMetadata response st)) = (Inr u1, st1)"
    "u = u1\<lparr>su_UnknownReason := unknown, su_FinishReason := fin\<rparr>" "st' = st1\<lparr>cs_finishReason := reason\<rparr>"
proof -
  obtain x st1 where p: "reconcileTerminalOutput lib response streaming (applyResponseUsage lib response (applyResponseMetadata response st)) = (x, st1)"
    by (metis prod.exhaust)
  show ?thesis
  proof (cases x)
    case (Inl e)
    with r p show ?thesis by (simp add: applyTerminalResponse_def)
  next
    case (Inr u1)
    obtain reason unknown where c: "(if eventType = ''response.incomplete'' then incompleteFinishReason response
                 else (if cs_toolCalls st1 \<noteq> [] then ''tool_calls'' else ''stop'', su_UnknownReason u1)) = (reason, unknown)"
      by (metis prod.exhaust)
    show ?thesis
      by (rule that [OF p [unfolded Inr], where unknown = unknown and fin = "finalFinishReason (st1\<lparr>cs_finishReason := reason\<rparr>)" and reason = reason])
        (use r p Inr c in \<open>auto simp: applyTerminalResponse_def Let_def\<close>)
  qed
qed

lemma applyTerminal_told:
  assumes wf: "chat_wf st" and r: "applyTerminalResponse lib response eventType True st = (Inr u, st')"
  shows "told st (su_ContentDelta u) (su_ToolDeltas u) st'"
proof -
  let ?st = "applyResponseUsage lib response (applyResponseMetadata response st)"
  have same: "same_calls st ?st" using same_calls_trans same_calls_simps(1,2) by blast
  obtain u1 st1 reason unknown fin where t: "reconcileTerminalOutput lib response True ?st = (Inr u1, st1)"
    and u: "u = u1\<lparr>su_UnknownReason := unknown, su_FinishReason := fin\<rparr>" "st' = st1\<lparr>cs_finishReason := reason\<rparr>"
    using r by (rule applyTerminal_cases)
  have "chat_wf ?st" using wf same by (simp add: same_calls_wf)
  from told_after [OF told_before [OF same terminal_told [OF this t]] same_calls_simps(6)] show ?thesis by (simp add: u)
qed

lemma event_told:
  assumes wf: "chat_wf st" and r: "handle_event lib True payload eventType st = (Inr u, st')"
  shows "told st (su_ContentDelta u) (su_ToolDeltas u) st'"
proof -
  have created: ?thesis if "created_event lib payload st = (Inr u, st')"
    using that by (auto simp: created_event_def malformed_def Let_def no_update_def intro!: told_calls [OF wf] split: option.splits)
  have delta: ?thesis if "text_delta_event lib payload st = (Inr u, st')"
    using that wf by (auto simp: text_delta_event_def malformed_def no_update_def told_def chat_wf_def arguments_of_def split: json.splits)
  have text_done: ?thesis if "text_done_event lib True payload st = (Inr u, st')"
    using that text_snapshot_told(1) [OF wf] by (auto simp: text_done_event_def no_update_def split: prod.splits sum.splits)
  have added: ?thesis if "item_added_event lib payload st = (Inr u, st')"
  proof (cases "mapValue (member payload ''item'')")
    case (Some item)
    show ?thesis
    proof (cases "stringFromMap item ''type'' \<noteq> ''function_call''")
      case True
      then show ?thesis using that Some told_refl [OF wf] by (auto simp: item_added_event_def no_update_def)
    next
      case False
      obtain oi st1 where o: "outputIndexForEvent lib payload item st = (oi, st1)" by (metis prod.exhaust)
      obtain i created st2 where e: "ensureToolCall lib item oi st1 = ((i, created), st2)" by (metis prod.exhaust)
      have same: "same_calls st st1" using same_calls_simps(3) [of st lib payload item] o by simp
      then have "chat_wf st1" using wf by (simp add: same_calls_wf)
      note e' = told_ensure [OF this e]
      show ?thesis using that Some False o e told_before [OF same] e'
        by (cases created) (auto simp: item_added_event_def no_update_def)
    qed
  qed (use that in \<open>simp add: item_added_event_def malformed_def\<close>)
  have item_done: ?thesis if "item_done_event lib True payload st = (Inr u, st')"
  proof (cases "mapValue (member payload ''item'')")
    case (Some item)
    obtain oi st1 where o: "outputIndexForEvent lib payload item st = (oi, st1)" by (metis prod.exhaust)
    let ?st2 = "st1\<lparr>cs_outputItems := AList.update oi item (cs_outputItems st1)\<rparr>"
    have same: "same_calls st ?st2"
      using same_calls_simps(3) [of st lib payload item] o same_calls_trans same_calls_simps(5) by fastforce
    then have wf2: "chat_wf ?st2" using wf by (simp add: same_calls_wf)
    have "reconcileStreamingOutputItem lib item oi ?st2 = (Inr u, st')"
      using that Some o by (simp add: item_done_event_def Let_def)
    then have "told ?st2 (su_ContentDelta u) (su_ToolDeltas u) st'"
      using text_snapshot_told(1) [OF wf2] tool_snapshot_told [OF wf2] told_refl [OF wf2]
      by (auto simp: reconcileStreamingOutputItem_def no_update_def split: if_splits prod.splits sum.splits)
    then show ?thesis by (rule told_before [OF same])
  qed (use that in \<open>simp add: item_done_event_def malformed_def\<close>)
  have arguments_delta: ?thesis if "arguments_delta_event lib payload st = (Inr u, st')"
    using that payload_below [OF wf, of lib payload] told_arguments [OF wf]
    by (auto simp: arguments_delta_event_def malformed_def no_update_def toolCall_arguments split: option.splits json.splits)
  have arguments_done: ?thesis if d0: "arguments_done_event lib True payload st = (Inr u, st')"
  proof -
    obtain i arguments delta where d: "toolIndexForPayload lib payload st = Some i"
      "reconcileToolArguments lib True i arguments st = (Inr delta, st')"
      "u = (if delta \<noteq> [] then no_update\<lparr>su_ToolDeltas := [ArgumentsDelta i delta]\<rparr> else no_update)"
      using d0 by (auto simp: arguments_done_event_def malformed_def split: option.splits json.splits prod.splits sum.splits)
    from reconcile_arguments_told(1) [OF wf payload_below [OF wf d(1)] d(2)] d(3) show ?thesis
      by (cases "delta = []") (simp_all add: no_update_def)
  qed
  have terminal: ?thesis if d0: "terminal_event lib True payload eventType st = (Inr u, st')"
  proof -
    obtain response u1 st1 where d: "applyTerminalResponse lib response eventType True st = (Inr u1, st1)"
      "su_ContentDelta u = su_ContentDelta u1" "su_ToolDeltas u = su_ToolDeltas u1" "st' = st1\<lparr>cs_terminal := True\<rparr>"
      using d0 by (auto simp: terminal_event_def malformed_def split: option.splits prod.splits sum.splits)
    from told_after [OF applyTerminal_told [OF wf d(1)] same_calls_simps(7)] d show ?thesis by simp
  qed
  show ?thesis
    using r created delta text_done added item_done arguments_delta arguments_done terminal told_refl [OF wf]
    unfolding handle_event_def by (auto simp: failed_event_def no_update_def split: if_splits)
qed

section \<open>Streams of events\<close>

fun run_events :: "chat_lib \<Rightarrow> bool \<Rightarrow> sseEvent list \<Rightarrow> chatCompletionState \<Rightarrow> chatStreamUpdate list step" where
  "run_events lib streaming [] st = (Inr [], st)"
| "run_events lib streaming (ev # evs) st =
     (case applyResponsesEvent lib streaming ev st of
        (Inl e, st1) \<Rightarrow> (Inl e, st1)
      | (Inr u, st1) \<Rightarrow>
          (case run_events lib streaming evs st1 of (Inl e, st2) \<Rightarrow> (Inl e, st2) | (Inr us, st2) \<Rightarrow> (Inr (u # us), st2)))"

lemma new_state_wf: "chat_wf (newChatCompletionState created model)"
  by (simp add: chat_wf_def newChatCompletionState_def)

lemma apply_cases:
  assumes "applyResponsesEvent lib streaming ev st = (Inr u, st')"
  obtains payload eventType where "decodeChatResponsesEvent lib ev = Inr (payload, eventType)" "\<not> cs_terminal st"
    "handle_event lib streaming payload eventType st = (Inr u, st')"
  using assms by (auto simp: applyResponsesEvent_def split: sum.splits prod.splits if_splits)

lemma run_told:
  "run_events lib True evs st = (Inr us, st') \<Longrightarrow> chat_wf st \<Longrightarrow>
     told st (concat (map su_ContentDelta us)) (concat (map su_ToolDeltas us)) st'"
proof (induction evs arbitrary: st us)
  case Nil
  then show ?case by (simp add: told_refl)
next
  case (Cons ev evs)
  obtain u st1 where a: "applyResponsesEvent lib True ev st = (Inr u, st1)"
    using Cons(2) by (auto split: prod.splits sum.splits)
  obtain us1 where b: "run_events lib True evs st1 = (Inr us1, st')" "us = u # us1"
    using Cons(2) a by (auto split: prod.splits sum.splits)
  obtain payload eventType where h: "handle_event lib True payload eventType st = (Inr u, st1)"
    using a by (rule apply_cases)
  note one = event_told [OF Cons(3) h]
  from told_trans [OF one Cons(1) [OF b(1) told_wf [OF one]]] show ?case by (simp add: b(2))
qed

text \<open>
  C17: What a stream sends is the completion it holds: for every sequence of events that is accepted, the
  content deltas put together are the content of the state; for every tool call the argument deltas of
  its index put together are its arguments; and the calls are opened in order, each exactly once, before
  anything is sent for a later one.
\<close>

theorem stream_is_state:
  assumes "run_events lib True evs (newChatCompletionState created model) = (Inr us, st)"
  shows "concat (map su_ContentDelta us) = cs_content st \<and>
    (\<forall>i<length (cs_toolCalls st). sent_arguments (concat (map su_ToolDeltas us)) i = tc_Arguments (cs_toolCalls st ! i)) \<and>
    opened (concat (map su_ToolDeltas us)) = [0..<length (cs_toolCalls st)]"
proof -
  have "told (newChatCompletionState created model) (concat (map su_ContentDelta us)) (concat (map su_ToolDeltas us)) st"
    by (rule run_told [OF assms new_state_wf])
  note T = this
  have "arguments_of (newChatCompletionState created model) i = []" for i
    by (simp add: arguments_of_def newChatCompletionState_def)
  then have A: "sent_arguments (concat (map su_ToolDeltas us)) i = arguments_of st i" for i using T by (simp add: told_def)
  show ?thesis using T by (simp add: A) (simp add: told_def newChatCompletionState_def arguments_of_def)
qed

section \<open>No index is out of range\<close>

lemma text_snapshot_wf: "chat_wf st \<Longrightarrow> chat_wf (snd (reconcileTextSnapshot lib streaming snapshot st))"
  by (simp add: reconcileTextSnapshot_def chat_wf_def Let_def)

lemma reconcile_arguments_wf: "chat_wf st \<Longrightarrow> chat_wf (snd (reconcileToolArguments lib streaming i full st))"
  by (simp add: reconcileToolArguments_def Let_def)

lemma tool_snapshot_wf: "chat_wf st \<Longrightarrow> chat_wf (snd (reconcileToolSnapshot lib streaming item oi st))"
proof -
  assume wf: "chat_wf st"
  obtain i created st1 where e: "ensureToolCall lib item oi st = ((i, created), st1)" by (metis prod.exhaust)
  have "chat_wf st1" by (rule ensure_result(1) [OF wf e])
  then show ?thesis
    using reconcile_arguments_wf [of st1 lib streaming i "rawStringFromMap item ''arguments''"]
    by (auto simp: reconcileToolSnapshot_def e Let_def split: prod.splits sum.splits)
qed

lemma replace_tool_wf: "chat_wf st \<Longrightarrow> chat_wf (replace_tool lib indexed st)"
  using ensure_result(1) by (auto simp: replace_tool_def split: prod.splits)

lemma replace_tools_wf: "chat_wf st \<Longrightarrow> chat_wf (fold (replace_tool lib) items st)"
  by (induction items arbitrary: st) (simp_all add: replace_tool_wf)

lemma reconcile_tools_wf: "chat_wf st \<Longrightarrow> chat_wf (snd (reconcile_tools lib items deltas finals st))"
proof (induction items arbitrary: deltas finals st)
  case (Cons indexed items)
  have "chat_wf (snd (reconcileToolSnapshot lib True (snd indexed) (fst indexed) st))" by (rule tool_snapshot_wf [OF Cons(2)])
  then show ?case using Cons(1) by (auto simp: Let_def split: prod.splits sum.splits)
qed simp

lemma reset_wf: "chat_wf (resetToolCalls st)"
  by (simp add: resetToolCalls_def chat_wf_def)

lemma terminal_output_wf:
  assumes "chat_wf st" shows "chat_wf (snd (reconcileTerminalOutput lib response streaming st))"
proof -
  have "chat_wf st'" if "reconcile_tools lib items [] [] st1 = (r, st')" "chat_wf st1" for items st1 r st'
    using reconcile_tools_wf [OF that(2), of lib items "[]" "[]"] that(1) by simp
  moreover have "chat_wf st'" if "reconcileTextSnapshot lib True snapshot st = (r, st')" for snapshot r st'
    using text_snapshot_wf [OF assms, of lib True snapshot] that by simp
  ultimately show ?thesis
    using assms replace_tools_wf [OF reset_wf]
    by (auto simp: reconcileTerminalOutput_def split: prod.splits sum.splits)
qed

lemma applyTerminal_wf:
  assumes "chat_wf st" shows "chat_wf (snd (applyTerminalResponse lib response eventType streaming st))"
proof -
  let ?st = "applyResponseUsage lib response (applyResponseMetadata response st)"
  have same: "same_calls st ?st" using same_calls_trans same_calls_simps(1,2) by blast
  then have "chat_wf ?st" using assms by (simp add: same_calls_wf)
  then have "chat_wf (snd (reconcileTerminalOutput lib response streaming ?st))" by (rule terminal_output_wf)
  then show ?thesis
    using same_calls_wf [OF same_calls_simps(6)]
    by (auto simp: applyTerminalResponse_def Let_def split: prod.splits sum.splits)
qed

lemma handle_event_wf:
  assumes wf: "chat_wf st" shows "chat_wf (snd (handle_event lib streaming payload eventType st))"
proof -
  have out: "chat_wf (snd (outputIndexForEvent lib payload item st))" for item
    using wf same_calls_wf [OF same_calls_simps(3) [of st lib payload item]] by simp
  have created: "chat_wf (snd (created_event lib payload st))"
    using wf same_calls_wf [OF same_calls_simps(1) [of st]] by (auto simp: created_event_def malformed_def Let_def split: option.splits)
  have delta: "chat_wf (snd (text_delta_event lib payload st))"
    using wf by (auto simp: text_delta_event_def malformed_def chat_wf_def split: json.splits)
  have text_done: "chat_wf (snd (text_done_event lib streaming payload st))"
    using text_snapshot_wf [OF wf, of lib streaming "firstNonEmptyString [rawStringFromMap payload ''text'', rawStringFromMap payload ''output_text'']"]
    by (auto simp: text_done_event_def split: prod.splits sum.splits)
  have added: "chat_wf (snd (item_added_event lib payload st))"
  proof -
    have "chat_wf st2" if "outputIndexForEvent lib payload item st = (oi, st1)" "ensureToolCall lib item oi st1 = (r, st2)" for item oi st1 r st2
    proof (rule ensure_result(1))
      show "chat_wf st1" using out [of item] that(1) by simp
      show "ensureToolCall lib item oi st1 = ((fst r, snd r), st2)" using that(2) by simp
    qed
    then show ?thesis using wf by (auto simp: item_added_event_def malformed_def split: option.splits prod.splits)
  qed
  have item_done: "chat_wf (snd (item_done_event lib streaming payload st))"
  proof -
    have "chat_wf (snd (reconcileStreamingOutputItem lib item oi st2))" if "chat_wf st2" for item oi st2
      using that text_snapshot_wf [OF that, of lib True "outputTextFromMessage item"] tool_snapshot_wf [OF that, of lib True item oi]
      by (auto simp: reconcileStreamingOutputItem_def split: prod.splits sum.splits)
    moreover have "chat_wf (st1\<lparr>cs_outputItems := items\<rparr>) = chat_wf st1" for st1 items by (simp add: chat_wf_def)
    moreover have "chat_wf st1" if "outputIndexForEvent lib payload item st = (oi, st1)" for item oi st1
      using out [of item] that by simp
    ultimately show ?thesis
      using wf by (auto simp: item_done_event_def malformed_def Let_def split: option.splits prod.splits)
  qed
  have arguments_delta: "chat_wf (snd (arguments_delta_event lib payload st))"
    using wf by (auto simp: arguments_delta_event_def malformed_def split: option.splits json.splits)
  have arguments_done: "chat_wf (snd (arguments_done_event lib streaming payload st))"
  proof -
    have "chat_wf st1" if "reconcileToolArguments lib streaming i full st = (r, st1)" for i full r st1
      using reconcile_arguments_wf [OF wf, of lib streaming i full] that by simp
    then show ?thesis
      using wf by (auto simp: arguments_done_event_def malformed_def split: option.splits json.splits prod.splits sum.splits)
  qed
  have terminal: "chat_wf (snd (terminal_event lib streaming payload eventType st))"
  proof -
    have "chat_wf st1" if "applyTerminalResponse lib response eventType streaming st = (r, st1)" for response r st1
      using applyTerminal_wf [OF wf, of lib response eventType streaming] that by simp
    moreover have "chat_wf (st1\<lparr>cs_terminal := True\<rparr>) = chat_wf st1" for st1 by (simp add: chat_wf_def)
    ultimately show ?thesis using wf by (auto simp: terminal_event_def malformed_def split: option.splits prod.splits sum.splits)
  qed
  have failed: "chat_wf (snd (failed_event lib payload st))"
    using wf same_calls_wf [OF same_calls_trans [OF same_calls_simps(1) same_calls_simps(2)]]
    by (auto simp: failed_event_def split: option.splits)
  show ?thesis
    using wf created delta text_done added item_done arguments_delta arguments_done terminal failed
    by (simp add: handle_event_def)
qed

lemma apply_wf: "chat_wf st \<Longrightarrow> chat_wf (snd (applyResponsesEvent lib streaming ev st))"
  using handle_event_wf by (auto simp: applyResponsesEvent_def split: sum.splits prod.splits)

lemma run_wf: "chat_wf st \<Longrightarrow> chat_wf (snd (run_events lib streaming evs st))"
proof (induction evs arbitrary: st)
  case (Cons ev evs)
  have "chat_wf (snd (applyResponsesEvent lib streaming ev st))" by (rule apply_wf [OF Cons(2)])
  with Cons(1) show ?case by (fastforce split: prod.splits sum.splits)
qed simp

text \<open>
  C22: No index of a tool call is ever out of range: after any sequence of events, accepted or not,
  streaming or not, the index that an item or an event payload refers to, whatever it holds, is one of
  the calls there are; and the index \<open>ensureToolCall\<close> returns is one of the calls it leaves.
\<close>

theorem tool_indexes_in_range:
  "let st = snd (run_events lib streaming evs (newChatCompletionState created model)) in
    (case lookupToolCallIndex lib item st of Some i \<Rightarrow> i < length (cs_toolCalls st) | None \<Rightarrow> True) \<and>
    (case toolIndexForPayload lib payload st of Some i \<Rightarrow> i < length (cs_toolCalls st) | None \<Rightarrow> True) \<and>
    (case ensureToolCall lib item oi st of ((i, created), st') \<Rightarrow>
       i < length (cs_toolCalls st') \<and> length (cs_toolCalls st') = length (cs_toolCalls st) + (if created then 1 else 0))"
proof -
  define st where "st = snd (run_events lib streaming evs (newChatCompletionState created model))"
  have wf: "chat_wf st" unfolding st_def by (rule run_wf [OF new_state_wf])
  obtain i c st' where e: "ensureToolCall lib item oi st = ((i, c), st')" by (metis prod.exhaust)
  show ?thesis
    using lookup_below [OF wf, of lib item] payload_below [OF wf, of lib payload] ensure_result(2,4) [OF wf e] e
    unfolding st_def [symmetric] Let_def by (simp split: option.split)
qed

section \<open>Streamed or not\<close>

lemma max_index_ge: "(i, v) \<in> set m \<Longrightarrow> i \<le> max_index m"
  by (induction m) (auto simp: max_index_def)

lemma max_index_low: "-1 \<le> max_index m"
  by (induction m) (auto simp: max_index_def)

lemma max_index_Nil [simp]: "max_index [] = -1"
  by (simp add: max_index_def)

lemma max_index_enumerate: "0 \<le> i \<Longrightarrow> max_index (enumerate_from i xs) = (if xs = [] then -1 else i + int (length xs) - 1)"
proof (induction xs arbitrary: i)
  case (Cons x xs)
  then show ?case by (auto simp: max_index_def)
qed (simp add: max_index_def)

lemma map_of_enumerate:
  "map_of (enumerate_from i xs) j = (if i \<le> j \<and> j < i + int (length xs) then Some (xs ! nat (j - i)) else None)"
proof (induction xs arbitrary: i)
  case (Cons x xs)
  have "nat (j - (i + 1)) = nat (j - i) - Suc 0" by arith
  with Cons [of "i + 1"] show ?case by (auto simp: nth_Cons')
qed simp

lemma map_filter_cong: "(\<And>x. x \<in> set xs \<Longrightarrow> f x = g x) \<Longrightarrow> List.map_filter f xs = List.map_filter g xs"
  by (induction xs) (simp_all add: map_filter_simps split: option.split)

lemma enumerate_upto: "List.map_filter (\<lambda>j. map_option (Pair j) (map_of (enumerate_from i xs) j)) [i..i + int (length xs) - 1] = enumerate_from i xs"
proof (induction xs arbitrary: i)
  case (Cons x xs)
  have "List.map_filter (\<lambda>j. map_option (Pair j) (map_of (enumerate_from i (x # xs)) j)) [i + 1..i + int (length xs)]
      = List.map_filter (\<lambda>j. map_option (Pair j) (map_of (enumerate_from (i + 1) xs) j)) [i + 1..i + int (length xs)]"
    by (rule map_filter_cong) auto
  then show ?case
    using Cons [of "i + 1"] by (simp add: upto_rec1 map_filter_simps)
qed (simp add: map_filter_def)

text \<open>A terminal event that lists every item decides the output by itself.\<close>

lemma resolve_complete:
  assumes "max_index earlier < int (length xs)"
  shows "resolve_items (enumerate_from 0 xs) earlier = enumerate_from 0 xs"
proof -
  let ?t = "enumerate_from 0 xs"
  have max: "max (max_index ?t) (max_index earlier) = int (length xs) - 1"
    using assms max_index_low [of earlier] by (cases "xs = []") (simp_all add: max_index_enumerate)
  have "resolve_items ?t earlier = List.map_filter (\<lambda>j. map_option (Pair j) (map_of ?t j)) [0..0 + int (length xs) - 1]"
    unfolding resolve_items_def max by (simp only: add_0) (rule map_filter_cong, simp add: map_of_enumerate)
  then show ?thesis by (simp only: enumerate_upto)
qed

lemma fold_replace_content: "cs_content (fold (replace_tool lib) items st) = cs_content st" if "chat_wf st"
  using that
proof (induction items arbitrary: st)
  case (Cons indexed items)
  obtain i c st1 where e: "ensureToolCall lib (snd indexed) (fst indexed) st = ((i, c), st1)" by (metis prod.exhaust)
  have "cs_content (replace_tool lib indexed st) = cs_content st"
    using ensure_result(6) [OF Cons(2) e] by (simp add: replace_tool_def e)
  with Cons(1) [OF replace_tool_wf [OF Cons(2)]] show ?case by simp
qed simp

lemma reconcile_tools_content:
  assumes "chat_wf st" "reconcile_tools lib items [] [] st = (Inr (ds, finals), st')" shows "cs_content st' = cs_content st"
  using reconcile_tools_told [OF told_refl [OF assms(1)] assms(2)] by (simp add: told_def)

text \<open>The text of the terminal output is the content, however it was built before.\<close>

lemma terminal_content:
  assumes wf: "chat_wf st" and r: "reconcileTerminalOutput lib response streaming st = (Inr u, st')"
    and items: "resolvedResponseOutput lib response st = Inr items" "has_message items \<or> tool_items items \<noteq> []"
  shows "cs_content st' = message_text items"
proof (cases streaming)
  case False
  then show ?thesis
    using r items fold_replace_content [OF reset_wf, of lib] by (auto simp: reconcileTerminalOutput_def resetToolCalls_def)
next
  case True
  define txt_step where "txt_step = (if has_message items then reconcileTextSnapshot lib True (message_text items) st
                 else if cs_content st \<noteq> [] then (Inl (protocol lib ''output_conflict''), st) else (Inr [], st))"
  have none: "message_text items = []" if "\<not> has_message items"
    using that by (auto simp: has_message_def message_text_def filter_empty_conv)
  obtain delta st1 where t: "txt_step = (Inr delta, st1)"
    using r items True by (cases txt_step; cases "fst txt_step") (auto simp: reconcileTerminalOutput_def txt_step_def)
  have c: "cs_content st1 = message_text items" "chat_wf st1"
    using t text_snapshot_told(1,2) [OF wf] none wf by (auto simp: txt_step_def told_def split: if_splits)
  obtain deltas finals where tools: "reconcile_tools lib (tool_items items) [] [] st1 = (Inr (deltas, finals), st')"
    using r items True t
    by (cases "reconcile_tools lib (tool_items items) [] [] st1"; cases "fst (reconcile_tools lib (tool_items items) [] [] st1)")
      (auto simp: reconcileTerminalOutput_def txt_step_def [symmetric] split: if_splits)
  from reconcile_tools_content [OF c(2) tools] c(1) show ?thesis by simp
qed

text \<open>A terminal event whose output lists every item that was done: the items, in the order of the list.\<close>

definition complete_output :: "chatCompletionState \<Rightarrow> json_map \<Rightarrow> json list \<Rightarrow> bool" where
  "complete_output st response vs \<longleftrightarrow>
     map_of response ''output'' = Some (JArr vs) \<and> list_all is_obj vs \<and> max_index (cs_outputItems st) < int (length vs) \<and>
     (has_message (enumerate_from 0 (objects vs)) \<or> tool_items (enumerate_from 0 (objects vs)) \<noteq> [])"

lemma objects_length: "list_all is_obj vs \<Longrightarrow> length (objects vs) = length vs"
  by (induction vs) (auto simp: objects_def map_filter_simps is_obj_def mapValue_def split: json.splits)

lemma resolved_complete:
  assumes "complete_output st response vs" "resolvedResponseOutput lib response st = Inr items"
  shows "items = enumerate_from 0 (objects vs)"
  using assms resolve_complete [of "cs_outputItems st" "objects vs"]
  by (auto simp: complete_output_def resolvedResponseOutput_def Let_def objects_length split: if_splits)

lemma terminal_event_content:
  assumes wf: "chat_wf st" and r: "terminal_event lib streaming payload eventType st = (Inr u, st')"
    and response: "member payload ''response'' = JObj response" "complete_output st response vs"
  shows "cs_content st' = message_text (enumerate_from 0 (objects vs))"
proof -
  obtain u0 st0 where a: "applyTerminalResponse lib response eventType streaming st = (Inr u0, st0)" "cs_content st' = cs_content st0"
    using r response(1) by (auto simp: terminal_event_def malformed_def mapValue_def split: prod.splits sum.splits)
  let ?st = "applyResponseUsage lib response (applyResponseMetadata response st)"
  obtain u1 st1 reason unknown fin where t: "reconcileTerminalOutput lib response streaming ?st = (Inr u1, st1)"
    "st0 = st1\<lparr>cs_finishReason := reason\<rparr>"
    using a(1) by (rule applyTerminal_cases) blast
  have "same_calls st ?st" using same_calls_trans same_calls_simps(1,2) by blast
  then have wf': "chat_wf ?st" using wf by (simp add: same_calls_wf)
  have complete: "complete_output ?st response vs"
    using response(2) by (simp add: complete_output_def applyResponseUsage_def applyResponseMetadata_def split: option.split)
  obtain items where items: "resolvedResponseOutput lib response ?st = Inr items"
    using t(1) by (auto simp: reconcileTerminalOutput_def split: sum.splits)
  note items' = resolved_complete [OF complete items]
  show ?thesis
    using terminal_content [OF wf' t(1) items] items' complete a(2) t(2) by (simp add: complete_output_def)
qed


section \<open>Concrete streams\<close>

definition demo_message :: "string \<Rightarrow> json" where
  "demo_message txt0 = JObj [(''type'', JStr ''message''), (''content'', JArr [JObj [(''text'', JStr txt0)]])]"

definition demo_call :: "json_map \<Rightarrow> json" where
  "demo_call more0 = JObj ([(''type'', JStr ''function_call''), (''id'', JStr ''f''), (''name'', JStr ''go'')] @ more0)"

definition demo_completed :: "json list \<Rightarrow> json_map" where
  "demo_completed output = [(''type'', JStr ''response.completed''), (''response'', JObj [(''output'', JArr output)])]"

text \<open>Upstream events, each named by the data that is decoded to it.\<close>

definition demo_payloads :: "(string \<times> json_map) list" where
  "demo_payloads =
     [(''delta'', [(''type'', JStr ''response.output_text.delta''), (''delta'', JStr ''Hi'')]),
      (''added'', [(''type'', JStr ''response.output_item.added''), (''item'', demo_call [])]),
      (''arguments'', [(''type'', JStr ''response.function_call_arguments.delta''), (''delta'', JStr ''{}'')]),
      (''one'', [(''type'', JStr ''response.output_item.done''), (''item'', demo_message ''Hi'')]),
      (''two'', [(''type'', JStr ''response.output_item.done''), (''item'', demo_message ''Bye'')]),
      (''end'', demo_completed [demo_message ''Hi'', demo_call [(''arguments'', JStr ''{}'')]]),
      (''both'', demo_completed [demo_message ''Hi'', demo_message ''Bye''])]"

definition demo_lib :: chat_lib where
  "demo_lib = \<lparr>marshal_value = (\<lambda>v. Some []), decode_first = map_of demo_payloads, decode_single = map_of demo_payloads,
     usage_values = \<lparr>decode_usage = (\<lambda>s. None), float_int64 = (\<lambda>s. None)\<rparr>\<rparr>"

definition demo_events :: "string list \<Rightarrow> sseEvent list" where
  "demo_events = map (\<lambda>d. \<lparr>ev_Event = [], ev_Data = d\<rparr>)"

definition demo_run :: "bool \<Rightarrow> string list \<Rightarrow> chatStreamUpdate list step" where
  "demo_run streaming ds = run_events demo_lib streaming (demo_events ds) (newChatCompletionState 0 ''m'')"

text \<open>A run that is evaluated once: was it accepted, the content and the arguments of the calls.\<close>

definition outcome_of :: "'a step \<Rightarrow> bool \<times> string \<times> string list \<times> int" where
  "outcome_of r = (\<not> isl (fst r), cs_content (snd r), map tc_Arguments (cs_toolCalls (snd r)), max_index (cs_outputItems (snd r)))"

lemma outcome_ofD:
  "outcome_of r = (True, c, as, n) \<Longrightarrow>
     \<not> isl (fst r) \<and> cs_content (snd r) = c \<and> map tc_Arguments (cs_toolCalls (snd r)) = as \<and> max_index (cs_outputItems (snd r)) = n"
  by (simp add: outcome_of_def)

lemma demo_run1: "outcome_of (demo_run True [''delta'', ''added'', ''arguments'']) = (True, ''Hi'', [''{}''], -1)"
  by code_simp

lemma accepted: "\<not> isl (fst p) \<Longrightarrow> \<exists>us. p = (Inr us, snd p)"
  by (cases p; cases "fst p") auto

theorem stream_is_state_witness:
  "\<exists>us. fst (demo_run True [''delta'', ''added'', ''arguments'']) = Inr us \<and> concat (map su_ContentDelta us) = ''Hi'' \<and>
     sent_arguments (concat (map su_ToolDeltas us)) 0 = ''{}'' \<and> opened (concat (map su_ToolDeltas us)) = [0]"
proof -
  let ?p = "demo_run True [''delta'', ''added'', ''arguments'']"
  obtain us where us: "?p = (Inr us, snd ?p)" using accepted [OF outcome_ofD [OF demo_run1, THEN conjunct1]] by blast
  note r = stream_is_state [OF us [unfolded demo_run_def], folded demo_run_def]
  have len: "length (cs_toolCalls (snd ?p)) = 1" "tc_Arguments (cs_toolCalls (snd ?p) ! 0) = ''{}''"
    using outcome_ofD [OF demo_run1] by (cases "cs_toolCalls (snd ?p)"; auto)+
  have "concat (map su_ContentDelta us) = ''Hi''" using r outcome_ofD [OF demo_run1] by simp
  moreover have "sent_arguments (concat (map su_ToolDeltas us)) 0 = ''{}''" using r len by simp
  moreover have "opened (concat (map su_ToolDeltas us)) = [0]" using r len(1) by simp
  ultimately show ?thesis using us by (metis fst_conv)
qed

definition demo_output :: "json list" where
  "demo_output = [demo_message ''Hi'', demo_call [(''arguments'', JStr ''{}'')]]"

lemma demo_prefix:
  "outcome_of (demo_run True [''delta'']) = (True, ''Hi'', [], -1)" "outcome_of (demo_run False [''delta'']) = (True, ''Hi'', [], -1)"
  by code_simp+

lemma demo_complete:
  "complete_output (snd (demo_run True [''delta''])) [(''output'', JArr demo_output)] demo_output"
  "complete_output (snd (demo_run False [''delta''])) [(''output'', JArr demo_output)] demo_output"
proof -
  have "max_index (cs_outputItems (snd (demo_run b [''delta'']))) = -1" for b using demo_prefix [THEN outcome_ofD] by (cases b) simp_all
  moreover have "list_all is_obj demo_output" "tool_items (enumerate_from 0 (objects demo_output)) \<noteq> []" "length demo_output = 2" by code_simp+
  ultimately show "complete_output (snd (demo_run True [''delta''])) [(''output'', JArr demo_output)] demo_output"
    "complete_output (snd (demo_run False [''delta''])) [(''output'', JArr demo_output)] demo_output"
    by (simp_all add: complete_output_def)
qed

lemma demo_decoded:
  "decodeChatResponsesEvent demo_lib \<lparr>ev_Event = [], ev_Data = ''end''\<rparr> = Inr (demo_completed demo_output, ''response.completed'')"
proof -
  have "map_of demo_payloads ''end'' = Some (demo_completed demo_output)" by (simp add: demo_payloads_def demo_output_def)
  moreover have "stringFromMap (demo_completed demo_output) ''type'' = ''response.completed''"
    by (simp add: stringFromMap_def rawStringFromMap_def demo_completed_def member_def) code_simp
  ultimately show ?thesis by (simp add: decodeChatResponsesEvent_def demo_lib_def Let_def)
qed

lemma demo_end:
  "\<not> isl (fst (applyResponsesEvent demo_lib True \<lparr>ev_Event = [], ev_Data = ''end''\<rparr> (snd (demo_run True [''delta'']))))"
  "\<not> isl (fst (applyResponsesEvent demo_lib False \<lparr>ev_Event = [], ev_Data = ''end''\<rparr> (snd (demo_run False [''delta'']))))"
  by code_simp+


text \<open>
  A response with two messages cannot be streamed: the text of the second message is compared with
  everything that was sent, as if it were a snapshot of it, so the stream fails with \<open>output_conflict\<close>.
  The same events are accepted, with both texts, when the answer is not streamed.
\<close>

theorem second_message_breaks_stream:
  "fst (demo_run True [''one'', ''two'', ''both'']) = Inl (protocol demo_lib ''output_conflict'') \<and>
   outcome_of (demo_run False [''one'', ''two'', ''both'']) = (True, ''HiBye'', [], 1)"
  by (intro conjI; code_simp)

end
