(* ===== verification/Chat_Handler.thy ===== *)
theory Chat_Handler
  imports Chat_Properties
begin

text \<open>
  The chat completion handlers (\<open>handleChatCompletions\<close>, \<open>streamChatCompletion\<close>,
  \<open>aggregateChatCompletion\<close>, \<open>prepareChatCompletionUpstreamResponse\<close>): what is written to the client and
  what is accounted. The body of the upstream is the list of its events and how it ends; \<open>writer n\<close> says
  whether the client takes the write after \<open>n\<close> writes, and \<open>gone\<close> whether it has hung up by the end.
\<close>

section \<open>Failures for the client\<close>

record chatFinalError = proxyFinalError +
  pe_Message :: string

definition chat_final :: "int \<Rightarrow> string \<Rightarrow> string \<Rightarrow> time \<Rightarrow> chatFinalError" where
  "chat_final status code message retryAt =
     \<lparr>pe_StatusCode = status, pe_Code = code, pe_RetryAt = retryAt, pe_Message = message\<rparr>"

definition chatProxyErrorFromFailure :: "upstreamFailure \<Rightarrow> chatFinalError" where
  "chatProxyErrorFromFailure f =
     (case f_Kind f of
        upstreamFailureRequestScoped \<Rightarrow>
          chat_final (if f_StatusCode f < 400 \<or> 500 \<le> f_StatusCode f then 400 else f_StatusCode f)
            (if safeHealthCode (f_ErrorCode f) = [] then ''upstream_request_error'' else safeHealthCode (f_ErrorCode f))
            ''upstream Codex request was rejected'' 0
      | upstreamFailureUnauthorized \<Rightarrow> chat_final 503 ''auth_unavailable'' ''upstream authentication unavailable'' 0
      | upstreamFailureCredential \<Rightarrow> chat_final 503 ''auth_unavailable'' ''upstream authentication unavailable'' 0
      | upstreamFailureQuota \<Rightarrow> chat_final 429 ''rate_limited'' ''Codex capacity is temporarily rate limited'' (f_RetryAt f)
      | upstreamFailureModelUnsupported \<Rightarrow>
          chat_final 404 ''model_not_found'' ''requested model is unavailable for the selected Codex auth'' 0
      | _ \<Rightarrow> chat_final 502 ''upstream_unavailable'' ''upstream Codex service unavailable'' 0)"

definition chatErrorEnvelope :: "chatFinalError \<Rightarrow> json" where
  "chatErrorEnvelope e =
     JObj [(''error'', JObj [(''message'', JStr (pe_Message e)), (''type'', JStr ''proxy_error''), (''code'', JStr (pe_Code e))])]"

record chat_env =
  env_chat :: chat_lib
  env_go :: go_lib
  env_model :: string
  env_now :: time
  env_writer :: "nat \<Rightarrow> bool"
  env_gone :: bool

definition chatStreamFailureFromError :: "chat_lib \<Rightarrow> chat_error \<Rightarrow> chatStreamFailure" where
  "chatStreamFailureFromError lib e =
     (case e of StreamFailed f \<Rightarrow> f | _ \<Rightarrow> newChatProtocolFailure lib ''upstream_error'')"

definition isChatStreamFailure :: "chat_error \<Rightarrow> bool" where
  "isChatStreamFailure e = (case e of StreamFailed f \<Rightarrow> True | _ \<Rightarrow> False)"

definition chatProxyErrorFromStreamError :: "chat_env \<Rightarrow> chat_error \<Rightarrow> chatFinalError \<times> int" where
  "chatProxyErrorFromStreamError env e =
     (let f = chatStreamFailureFromError (env_chat env) e;
          resp = \<lparr>resp_StatusCode = cf_statusCode f, resp_RetryAfter = [], resp_Body = Some (bytes_reader (cf_body f))\<rparr>
      in (chatProxyErrorFromFailure (fst (classifyUpstreamResponse (env_go env) (Some resp) (env_model env) (env_now env))),
          cf_statusCode f))"

section \<open>What is written\<close>

fun tool_delta_json :: "toolDelta \<Rightarrow> json" where
  "tool_delta_json (InitialDelta i id0 name arguments) =
     JObj [(''index'', JNum (of_nat i)), (''id'', JStr id0), (''type'', JStr ''function''),
           (''function'', JObj [(''name'', JStr name), (''arguments'', JStr arguments)])]"
| "tool_delta_json (ArgumentsDelta i arguments) =
     JObj [(''index'', JNum (of_nat i)), (''function'', JObj [(''arguments'', JStr arguments)])]"

definition chatUsage :: "chatCompletionState \<Rightarrow> json_map" where
  "chatUsage st =
     (let n = (\<lambda>v. JNum (of_int v)); u = cs_usage st in
      [(''prompt_tokens'', n (InputTokens u)), (''completion_tokens'', n (OutputTokens u)),
       (''total_tokens'', n (TotalTokens (normalized u)))] @
      (if 0 < CachedInputTokens u then [(''prompt_tokens_details'', JObj [(''cached_tokens'', n (CachedInputTokens u))])] else []) @
      (if 0 < ReasoningTokens u then [(''completion_tokens_details'', JObj [(''reasoning_tokens'', n (ReasoningTokens u))])] else []))"

definition chatToolCalls :: "chatCompletionState \<Rightarrow> json list" where
  "chatToolCalls st =
     map (\<lambda>call. JObj [(''id'', JStr (tc_ID call)), (''type'', JStr ''function''),
        (''function'', JObj [(''name'', JStr (tc_Name call)), (''arguments'', JStr (tc_Arguments call))])]) (cs_toolCalls st)"

definition completion_head :: "chatCompletionState \<Rightarrow> string \<Rightarrow> json list \<Rightarrow> json_map" where
  "completion_head st kind choices =
     [(''id'', JStr (cs_id st)), (''object'', JStr kind), (''created'', JNum (of_int (cs_created st))),
      (''model'', JStr (cs_model st)), (''choices'', JArr choices)]"

definition chatCompletionResponse :: "chatCompletionState \<Rightarrow> json" where
  "chatCompletionResponse st =
     JObj (completion_head st ''chat.completion''
        [JObj [(''index'', JNum 0),
               (''message'', JObj ([(''role'', JStr ''assistant''), (''content'', JStr (cs_content st))] @
                  (if cs_toolCalls st \<noteq> [] then [(''tool_calls'', JArr (chatToolCalls st))] else []))),
               (''finish_reason'', JStr (finalFinishReason st))]] @
        [(''usage'', JObj (chatUsage st))])"

text \<open>The chunks by what they carry; \<open>chunk_json\<close> is \<open>chatCompletionChunk\<close>.\<close>

datatype chunk = RoleChunk | ContentChunk string | ToolChunk toolDelta | FinishChunk string | UsageChunk json_map

definition choice_json :: "json_map \<Rightarrow> json \<Rightarrow> json list" where
  "choice_json delta finish = [JObj [(''index'', JNum 0), (''delta'', JObj delta), (''finish_reason'', finish)]]"

definition chunk_json :: "chatCompletionState \<Rightarrow> chunk \<Rightarrow> json" where
  "chunk_json st c =
     (let chunk = (\<lambda>choices. completion_head st ''chat.completion.chunk'' choices) in
      case c of
        RoleChunk \<Rightarrow> JObj (chunk (choice_json [(''role'', JStr ''assistant'')] JNull))
      | ContentChunk s \<Rightarrow> JObj (chunk (choice_json [(''content'', JStr s)] JNull))
      | ToolChunk d \<Rightarrow> JObj (chunk (choice_json [(''tool_calls'', JArr [tool_delta_json d])] JNull))
      | FinishChunk reason \<Rightarrow> JObj (chunk (choice_json [] (JStr reason)))
      | UsageChunk usage \<Rightarrow> JObj (chunk [] @ [(''usage'', JObj usage)]))"

datatype written = Chunk chunk json | ErrorChunk json | DoneChunk

record chat_out =
  co_state :: chatCompletionState
  co_filter :: chatStopFilter
  co_written :: "written list"

definition write_item :: "chat_env \<Rightarrow> written \<Rightarrow> chat_out \<Rightarrow> bool \<times> chat_out" where
  "write_item env item out =
     (if env_writer env (length (co_written out)) then (True, out\<lparr>co_written := co_written out @ [item]\<rparr>) else (False, out))"

definition write_chunk :: "chat_env \<Rightarrow> chunk \<Rightarrow> chat_out \<Rightarrow> bool \<times> chat_out" where
  "write_chunk env c out = write_item env (Chunk c (chunk_json (co_state out) c)) out"

section \<open>Streaming\<close>

definition set_state :: "(chatCompletionState \<Rightarrow> chatCompletionState) \<Rightarrow> chat_out \<Rightarrow> chat_out" where
  "set_state f out = out\<lparr>co_state := f (co_state out)\<rparr>"

definition emit_content :: "chat_env \<Rightarrow> string \<Rightarrow> chat_out \<Rightarrow> bool \<times> chat_out" where
  "emit_content env delta out =
     (if delta = [] then (True, out)
      else
        (case stop_push delta (co_filter out) of ((content, stopped), f) \<Rightarrow>
           let out1 = set_state (\<lambda>st. if stopped then st\<lparr>cs_stopped := True\<rparr> else st) (out\<lparr>co_filter := f\<rparr>)
           in if content = [] then (True, out1) else write_chunk env (ContentChunk content) out1))"

fun emit_tools :: "chat_env \<Rightarrow> toolDelta list \<Rightarrow> chat_out \<Rightarrow> bool \<times> chat_out" where
  "emit_tools env [] out = (True, out)"
| "emit_tools env (d # ds) out =
     (case write_chunk env (ToolChunk d) out of (False, out1) \<Rightarrow> (False, out1) | (True, out1) \<Rightarrow> emit_tools env ds out1)"

definition emitUpdate :: "chat_env \<Rightarrow> chatStreamUpdate \<Rightarrow> chat_out \<Rightarrow> bool \<times> chat_out" where
  "emitUpdate env u out =
     (let out1 = set_state (\<lambda>st. st\<lparr>cs_id := (if su_ResponseID u \<noteq> [] then su_ResponseID u else cs_id st),
                    cs_model := (if su_ResponseModel u \<noteq> [] then su_ResponseModel u else cs_model st)\<rparr>) out
      in case emit_content env (su_ContentDelta u) out1 of
           (False, out2) \<Rightarrow> (False, out2)
         | (True, out2) \<Rightarrow> if cs_stopped (co_state out2) then (True, out2) else emit_tools env (su_ToolDeltas u) out2)"

fun stream_events :: "chat_env \<Rightarrow> sseEvent list \<Rightarrow> sse_end \<Rightarrow> chat_out \<Rightarrow> chat_error option \<times> chat_out" where
  "stream_events env [] fin out =
     ((case fin of SseEof \<Rightarrow> None | SseReadError \<Rightarrow> Some PlainReadError | SseTooLarge \<Rightarrow> Some (protocol (env_chat env) ''event_too_large'')), out)"
| "stream_events env (ev # evs) fin out =
     (case applyResponsesEvent (env_chat env) True ev (co_state out) of
        (Inl e, st) \<Rightarrow> (Some e, out\<lparr>co_state := st\<rparr>)
      | (Inr u, st) \<Rightarrow>
          (case emitUpdate env u (out\<lparr>co_state := st\<rparr>) of
             (False, out1) \<Rightarrow> (Some ClientWriteError, out1)
           | (True, out1) \<Rightarrow> stream_events env evs fin out1))"

text \<open>What \<open>recordChatCompletionUsage\<close> is called with; \<open>None\<close> stands for a panic, after which it is not called.\<close>

record chat_report =
  rp_Counters :: usage_counters
  rp_HasUsage :: bool
  rp_StatusCode :: int
  rp_Outcome :: string

definition report :: "chatCompletionState \<Rightarrow> int \<Rightarrow> string \<Rightarrow> chat_report option" where
  "report st status outcome = Some \<lparr>rp_Counters = cs_usage st, rp_HasUsage = cs_hasUsage st, rp_StatusCode = status, rp_Outcome = outcome\<rparr>"

definition no_usage_report :: "int \<Rightarrow> string \<Rightarrow> chat_report option" where
  "no_usage_report status outcome = Some \<lparr>rp_Counters = zero_counters, rp_HasUsage = False, rp_StatusCode = status, rp_Outcome = outcome\<rparr>"

definition statusClientClosedRequest :: int where "statusClientClosedRequest = 499"

definition canceled :: "chatCompletionState \<Rightarrow> chat_report option" where
  "canceled st = report st statusClientClosedRequest ''client_canceled''"

datatype chat_reply = ReplyStream "written list" | ReplyError chatFinalError | ReplyJson json | ReplyBadRequest string | ReplyStorageError | NoReply

definition read_verdict :: "chat_lib \<Rightarrow> chat_error option \<Rightarrow> chatCompletionState \<Rightarrow> chat_error option" where
  "read_verdict lib e st =
     (case e of
        Some x \<Rightarrow> if cs_terminal st \<and> \<not> isChatStreamFailure x then None else Some x
      | None \<Rightarrow> if cs_terminal st then None else Some (protocol lib ''incomplete_stream''))"

fun write_all :: "chat_env \<Rightarrow> chunk list \<Rightarrow> chat_out \<Rightarrow> bool \<times> chat_out" where
  "write_all env [] out = (True, out)"
| "write_all env (c # cs) out =
     (case write_chunk env c out of (False, out1) \<Rightarrow> (False, out1) | (True, out1) \<Rightarrow> write_all env cs out1)"

text \<open>After the last event: the rest of the buffered content, the finish reason, the usage and \<open>[DONE]\<close>.\<close>

definition finish_stream :: "chat_env \<Rightarrow> bool \<Rightarrow> int \<Rightarrow> chat_out \<Rightarrow> chat_reply \<times> chat_report option" where
  "finish_stream env includeUsage upstreamStatus out =
     (let (content, f) = stop_flush (co_filter out);
          st = co_state out;
          chunks = (if content \<noteq> [] then [ContentChunk content] else []) @ [FinishChunk (finalFinishReason st)] @
                   (if includeUsage then [UsageChunk (chatUsage st)] else [])
      in case write_all env chunks (out\<lparr>co_filter := f\<rparr>) of
           (False, out1) \<Rightarrow> (ReplyStream (co_written out1), canceled st)
         | (True, out1) \<Rightarrow>
             (case write_item env DoneChunk out1 of
                (False, out2) \<Rightarrow> (ReplyStream (co_written out2), canceled st)
              | (True, out2) \<Rightarrow> (ReplyStream (co_written out2), report st upstreamStatus ''success'')))"

definition after_stream ::
  "chat_env \<Rightarrow> bool \<Rightarrow> int \<Rightarrow> chat_error option \<times> chat_out \<Rightarrow> chat_reply \<times> chat_report option" where
  "after_stream env includeUsage upstreamStatus result =
     (case result of (e, out) \<Rightarrow>
        let st = co_state out in
        if e = Some ChatPanic then (ReplyStream (co_written out), None)
        else if e = Some ClientWriteError \<or> env_gone env then (ReplyStream (co_written out), canceled st)
        else
          (case read_verdict (env_chat env) e st of
             Some x \<Rightarrow>
               (case chatProxyErrorFromStreamError env x of (final, status) \<Rightarrow>
                  (ReplyStream (co_written (snd (write_item env (ErrorChunk (chatErrorEnvelope final)) out))),
                   report st status ''upstream_failure''))
           | None \<Rightarrow> finish_stream env includeUsage upstreamStatus out))"

definition streamChatCompletion ::
  "chat_env \<Rightarrow> bool \<Rightarrow> string list \<Rightarrow> int \<Rightarrow> sseEvent option \<Rightarrow> sseEvent list \<Rightarrow> sse_end \<Rightarrow> chatCompletionState \<Rightarrow>
     chat_reply \<times> chat_report option" where
  "streamChatCompletion env includeUsage stops upstreamStatus first evs fin st0 =
     (let begin = (\<lambda>st update.
            (case write_chunk env RoleChunk \<lparr>co_state = st, co_filter = newChatStopFilter stops, co_written = []\<rparr> of
               (False, out) \<Rightarrow> (ReplyStream (co_written out), no_usage_report statusClientClosedRequest ''client_canceled'')
             | (True, out) \<Rightarrow>
                 (case (case update of Some u \<Rightarrow> emitUpdate env u out | None \<Rightarrow> (True, out)) of
                    (False, out1) \<Rightarrow> (ReplyStream (co_written out1), canceled (co_state out1))
                  | (True, out1) \<Rightarrow> after_stream env includeUsage upstreamStatus (stream_events env evs fin out1))))
      in case first of
           None \<Rightarrow> begin st0 None
         | Some ev \<Rightarrow>
             (case applyResponsesEvent (env_chat env) True ev st0 of
                (Inl ChatPanic, st) \<Rightarrow> (NoReply, None)
              | (Inl e, st) \<Rightarrow>
                  (case chatProxyErrorFromStreamError env e of (final, status) \<Rightarrow>
                     (ReplyError final, report st status ''upstream_failure''))
              | (Inr u, st) \<Rightarrow> begin st (Some u)))"

section \<open>Waiting for the answer\<close>

text \<open>
  The loop of \<open>aggregateChatCompletion\<close>; the names an update carries are the ones the state has already.
\<close>

fun aggregate_events :: "chat_lib \<Rightarrow> sseEvent list \<Rightarrow> sse_end \<Rightarrow> chatCompletionState \<Rightarrow> chat_error option \<times> chatCompletionState" where
  "aggregate_events lib [] fin st =
     ((case fin of SseEof \<Rightarrow> None | SseReadError \<Rightarrow> Some PlainReadError | SseTooLarge \<Rightarrow> Some (protocol lib ''event_too_large'')), st)"
| "aggregate_events lib (ev # evs) fin st =
     (case applyResponsesEvent lib False ev st of
        (Inl e, st1) \<Rightarrow> (Some e, st1)
      | (Inr u, st1) \<Rightarrow>
          aggregate_events lib evs fin
            (st1\<lparr>cs_id := (if su_ResponseID u \<noteq> [] then su_ResponseID u else cs_id st1),
                 cs_model := (if su_ResponseModel u \<noteq> [] then su_ResponseModel u else cs_model st1)\<rparr>))"

definition cut_content :: "string list \<Rightarrow> chatCompletionState \<Rightarrow> chatCompletionState" where
  "cut_content stops st =
     (case truncateAtStopSequence (cs_content st) stops of
        (content, True) \<Rightarrow> st\<lparr>cs_content := content, cs_stopped := True\<rparr> | _ \<Rightarrow> st)"

definition aggregateChatCompletion ::
  "chat_env \<Rightarrow> string list \<Rightarrow> int \<Rightarrow> sseEvent list \<Rightarrow> sse_end \<Rightarrow> chatCompletionState \<Rightarrow> chat_reply \<times> chat_report option" where
  "aggregateChatCompletion env stops upstreamStatus evs fin st0 =
     (case aggregate_events (env_chat env) evs fin st0 of (e, st) \<Rightarrow>
        if e = Some ChatPanic then (NoReply, None)
        else
          (case read_verdict (env_chat env) e st of
             Some x \<Rightarrow>
               (case chatProxyErrorFromStreamError env x of (final, status) \<Rightarrow> (ReplyError final, report st status ''upstream_failure''))
           | None \<Rightarrow>
               let st1 = cut_content stops st
               in (ReplyJson (chatCompletionResponse st1), report st1 upstreamStatus ''success'')))"

section \<open>Probing the upstream\<close>

text \<open>
  \<open>prepareChatCompletionUpstreamResponse\<close> on a 2xx response: it reads the first event of a stream, or
  all of them, before the response may be handed on, so that a failure can still move the request to
  another credential. \<open>Replaced\<close> is the response with the failure's status and body.
\<close>

datatype prepared_response =
    PreparedStream sseEvent "sseEvent list" sse_end
  | PreparedReplay "sseEvent list"
  | Replaced chatStreamFailure
  | PreparedGone
  | PreparedPanic

definition sse_error :: "chat_lib \<Rightarrow> sse_end \<Rightarrow> chat_error" where
  "sse_error lib fin = (case fin of SseTooLarge \<Rightarrow> protocol lib ''event_too_large'' | _ \<Rightarrow> PlainReadError)"

definition probe_stream :: "chat_lib \<Rightarrow> int \<Rightarrow> bool \<Rightarrow> sseEvent list \<Rightarrow> sse_end \<Rightarrow> prepared_response" where
  "probe_stream lib created gone evs fin =
     (case evs of
        [] \<Rightarrow> if gone then PreparedGone else Replaced (chatStreamFailureFromError lib (sse_error lib fin))
      | ev # rest \<Rightarrow>
          (case applyResponsesEvent lib True ev (newChatCompletionState created []) of
             (Inl ChatPanic, _) \<Rightarrow> PreparedPanic
           | (Inl e, _) \<Rightarrow> Replaced (chatStreamFailureFromError lib e)
           | (Inr _, _) \<Rightarrow> PreparedStream ev rest fin))"

fun probe_events :: "chat_lib \<Rightarrow> bool \<Rightarrow> sseEvent list \<Rightarrow> sseEvent list \<Rightarrow> sse_end \<Rightarrow> chatCompletionState \<Rightarrow> prepared_response" where
  "probe_events lib gone seen [] fin st =
     (if fin = SseEof \<or> cs_terminal st \<and> \<not> isChatStreamFailure (sse_error lib fin) then
        if cs_terminal st then PreparedReplay seen
        else Replaced (newChatProtocolFailure lib ''incomplete_stream'')
      else if gone then PreparedGone
      else Replaced (chatStreamFailureFromError lib (sse_error lib fin)))"
| "probe_events lib gone seen (ev # evs) fin st =
     (case applyResponsesEvent lib False ev st of
        (Inl ChatPanic, _) \<Rightarrow> PreparedPanic
      | (Inl e, _) \<Rightarrow> Replaced (chatStreamFailureFromError lib e)
      | (Inr _, st1) \<Rightarrow> probe_events lib gone (seen @ [ev]) evs fin st1)"

definition prepareChatCompletionUpstreamResponse ::
  "chat_lib \<Rightarrow> int \<Rightarrow> bool \<Rightarrow> bool \<Rightarrow> (sseEvent list \<times> sse_end) option \<Rightarrow> prepared_response" where
  "prepareChatCompletionUpstreamResponse lib created gone streaming body =
     (case body of
        None \<Rightarrow> Replaced (newChatProtocolFailure lib ''incomplete_stream'')
      | Some (evs, fin) \<Rightarrow>
          if streaming then probe_stream lib created gone evs fin
          else probe_events lib gone [] evs fin (newChatCompletionState created []))"

section \<open>The handler\<close>

text \<open>
  What \<open>executeUpstream\<close> gives back: an error, a response with a status that is no success (a replaced
  one too), or a prepared response and its status.
\<close>

datatype chat_exec =
    ExecCanceled
  | ExecStorageFailure
  | ExecFinal chatFinalError
  | ExecOther
  | ExecRejected upstream_response
  | ExecStream int sseEvent "sseEvent list" sse_end
  | ExecReplay int "sseEvent list"

definition upstream_unavailable :: chatFinalError where
  "upstream_unavailable = chat_final 502 ''upstream_unavailable'' ''upstream Codex service unavailable'' 0"

definition handleChatCompletions ::
  "chat_env \<Rightarrow> int \<Rightarrow> string + chatRequestConversion \<Rightarrow> chat_exec \<Rightarrow> chat_reply \<times> chat_report option" where
  "handleChatCompletions env created request exec =
     (case request of
        Inl message \<Rightarrow> (ReplyBadRequest message, None)
      | Inr c \<Rightarrow>
          if marshal_value (env_chat env) (JObj (cc_Responses c)) = None
          then (ReplyBadRequest ''invalid chat completion request'', None)
          else
            let st0 = newChatCompletionState created (um_Model (cc_Metadata c)) in
            (case exec of
               ExecCanceled \<Rightarrow> (NoReply, no_usage_report statusClientClosedRequest ''client_canceled'')
             | ExecStorageFailure \<Rightarrow> (ReplyStorageError, None)
             | ExecFinal e \<Rightarrow> (ReplyError e, no_usage_report (pe_StatusCode e) ''upstream_failure'')
             | ExecOther \<Rightarrow> (ReplyError upstream_unavailable, no_usage_report 502 ''upstream_failure'')
             | ExecRejected resp \<Rightarrow>
                 let e = chatProxyErrorFromFailure (fst (classifyUpstreamResponse (env_go env) (Some resp) (env_model env) (env_now env)))
                 in (ReplyError e, no_usage_report (pe_StatusCode e) ''upstream_failure'')
             | ExecStream status ev evs fin \<Rightarrow>
                 streamChatCompletion env (cc_IncludeUsage c) (cc_StopSequences c) status (Some ev) evs fin st0
             | ExecReplay status evs \<Rightarrow> aggregateChatCompletion env (cc_StopSequences c) status evs SseEof st0))"

section \<open>What is accounted\<close>

definition error_ok :: "chat_error \<Rightarrow> bool" where
  "error_ok e \<longleftrightarrow> (case e of StreamFailed f \<Rightarrow> 400 \<le> cf_statusCode f | _ \<Rightarrow> True)"

lemma protocol_ok [simp]:
  "error_ok (protocol lib code)" "400 \<le> cf_statusCode (newChatProtocolFailure lib code)"
  by (simp_all add: error_ok_def protocol_def newChatProtocolFailure_def)

lemma first_status_ok: "first_status lib e ks = Some status \<Longrightarrow> 400 \<le> status"
proof (induction ks)
  case (Cons k ks)
  then show ?case
    by (cases "int64Value (usage_values lib) (member e k)") (simp_all split: if_split_asm)
qed simp

lemma if_bound: "(400::int) \<le> x \<Longrightarrow> 400 \<le> y \<Longrightarrow> 400 \<le> (if b then x else y)"
  by simp

lemma failure_status_ok: "400 \<le> chatFailureStatus lib e"
proof (cases "first_status lib e [''status_code'', ''status'']")
  case None
  then show ?thesis unfolding chatFailureStatus_def Let_def by (simp only: option.case) (intro if_bound; simp)
next
  case (Some status)
  then show ?thesis using first_status_ok [OF Some] unfolding chatFailureStatus_def by (simp only: option.case)
qed

lemma event_failure_ok [simp]: "error_ok (StreamFailed (chatFailureFromEvent lib payload eventType))"
proof -
  have "400 \<le> cf_statusCode (case m of None \<Rightarrow> newChatProtocolFailure lib ''upstream_error''
      | Some body \<Rightarrow> \<lparr>cf_statusCode = chatFailureStatus lib e, cf_body = body\<rparr>)" for m e
    by (simp add: failure_status_ok split: option.split)
  then show ?thesis unfolding error_ok_def chatFailureFromEvent_def Let_def chat_error.case .
qed

named_theorems step_ok \<open>the errors of the steps are failures with an error status\<close>

lemma text_snapshot_ok [step_ok]: "reconcileTextSnapshot lib streaming snapshot st = (Inl e, st') \<Longrightarrow> error_ok e"
  by (auto simp: reconcileTextSnapshot_def Let_def split: if_splits)

lemma arguments_ok [step_ok]: "reconcileToolArguments lib streaming i full st = (Inl e, st') \<Longrightarrow> error_ok e"
  by (auto simp: reconcileToolArguments_def Let_def split: if_splits)

lemma tool_snapshot_ok [step_ok]: "reconcileToolSnapshot lib streaming item oi st = (Inl e, st') \<Longrightarrow> error_ok e"
  by (auto simp: reconcileToolSnapshot_def Let_def dest: step_ok split: prod.splits sum.splits if_splits)

lemma reconcile_tools_ok [step_ok]: "reconcile_tools lib items deltas finals st = (Inl e, st') \<Longrightarrow> error_ok e"
proof (induction items arbitrary: deltas finals st)
  case (Cons indexed items)
  then show ?case by (auto simp: Let_def dest: step_ok split: prod.splits sum.splits)
qed simp

lemma resolved_ok [step_ok]: "resolvedResponseOutput lib response st = Inl e \<Longrightarrow> error_ok e"
  by (auto simp: resolvedResponseOutput_def Let_def split: option.splits json.splits if_splits) (simp_all add: error_ok_def)

lemma terminal_output_ok [step_ok]: "reconcileTerminalOutput lib response streaming st = (Inl e, st') \<Longrightarrow> error_ok e"
  by (auto simp: reconcileTerminalOutput_def dest: step_ok split: prod.splits sum.splits if_splits)

lemma applyTerminal_ok [step_ok]: "applyTerminalResponse lib response eventType streaming st = (Inl e, st') \<Longrightarrow> error_ok e"
  by (auto simp: applyTerminalResponse_def Let_def dest: step_ok split: prod.splits sum.splits)

lemma item_done_ok [step_ok]: "item_done_event lib streaming payload st = (Inl e, st') \<Longrightarrow> error_ok e"
  by (auto simp: item_done_event_def malformed_def Let_def reconcileStreamingOutputItem_def dest: step_ok
      split: option.splits prod.splits sum.splits if_splits)

lemma text_done_ok [step_ok]: "text_done_event lib streaming payload st = (Inl e, st') \<Longrightarrow> error_ok e"
  by (auto simp: text_done_event_def dest: step_ok split: prod.splits sum.splits)

lemma arguments_done_ok [step_ok]: "arguments_done_event lib streaming payload st = (Inl e, st') \<Longrightarrow> error_ok e"
  by (auto simp: arguments_done_event_def malformed_def dest: step_ok split: option.splits json.splits prod.splits sum.splits)

lemma terminal_ok [step_ok]: "terminal_event lib streaming payload eventType st = (Inl e, st') \<Longrightarrow> error_ok e"
  by (auto simp: terminal_event_def malformed_def dest: step_ok split: option.splits prod.splits sum.splits)

lemma other_events_ok [step_ok]:
  "created_event lib payload st = (Inl e, st') \<Longrightarrow> error_ok e" "text_delta_event lib payload st = (Inl e, st') \<Longrightarrow> error_ok e"
  "item_added_event lib payload st = (Inl e, st') \<Longrightarrow> error_ok e" "arguments_delta_event lib payload st = (Inl e, st') \<Longrightarrow> error_ok e"
  "failed_event lib payload st = (Inl e, st') \<Longrightarrow> error_ok e"
  by (auto simp: created_event_def text_delta_event_def item_added_event_def arguments_delta_event_def failed_event_def
      malformed_def Let_def split: option.splits json.splits prod.splits if_splits)

lemma if_choice: "(if b then x else y) = r \<Longrightarrow> (x = r \<Longrightarrow> P) \<Longrightarrow> (y = r \<Longrightarrow> P) \<Longrightarrow> P"
  by (cases b) simp_all

lemma apply_ok [step_ok]: "applyResponsesEvent lib streaming ev st = (Inl e, st') \<Longrightarrow> error_ok e"
proof -
  assume a: "applyResponsesEvent lib streaming ev st = (Inl e, st')"
  have "error_ok e" if "decodeChatResponsesEvent lib ev = Inl e"
    using that by (auto simp: decodeChatResponsesEvent_def Let_def split: option.splits if_splits)
  moreover have "error_ok e" if "handle_event lib streaming payload eventType st = (Inl e, st')" for payload eventType
    using that unfolding handle_event_def by (elim if_choice) (erule step_ok | force)+
  ultimately show ?thesis using a by (auto simp: applyResponsesEvent_def split: sum.splits prod.splits if_splits)
qed

lemma stream_status_ok:
  assumes "error_ok x" "chatProxyErrorFromStreamError env x = (final, status)" shows "400 \<le> status"
proof -
  have "status = cf_statusCode (chatStreamFailureFromError (env_chat env) x)"
    using assms(2) by (simp add: chatProxyErrorFromStreamError_def Let_def)
  then show ?thesis using assms(1) by (cases x) (simp_all add: chatStreamFailureFromError_def error_ok_def)
qed

lemma final_status_ok: "400 \<le> pe_StatusCode (chatProxyErrorFromFailure f)"
  by (cases "f_Kind f") (simp_all add: chatProxyErrorFromFailure_def chat_final_def)

text \<open>Until the end of a stream nothing but chunks is written.\<close>

definition no_done :: "chat_out \<Rightarrow> bool" where
  "no_done out \<longleftrightarrow> DoneChunk \<notin> set (co_written out)"

lemma write_chunk_no_done: "write_chunk env c out = (b, out') \<Longrightarrow> no_done out \<Longrightarrow> no_done out'"
  by (auto simp: write_chunk_def write_item_def no_done_def split: if_splits)

lemma emit_tools_no_done: "emit_tools env ds out = (b, out') \<Longrightarrow> no_done out \<Longrightarrow> no_done out'"
  by (induction ds arbitrary: out) (auto dest: write_chunk_no_done split: prod.splits bool.splits)

lemma write_all_no_done: "write_all env cs out = (b, out') \<Longrightarrow> no_done out \<Longrightarrow> no_done out'"
  by (induction cs arbitrary: out) (auto dest: write_chunk_no_done split: prod.splits bool.splits)

lemma emit_no_done:
  assumes "emitUpdate env u out = (b, out')" "no_done out" shows "no_done out'"
proof -
  define out1 where "out1 = set_state (\<lambda>st. st\<lparr>cs_id := (if su_ResponseID u \<noteq> [] then su_ResponseID u else cs_id st),
                    cs_model := (if su_ResponseModel u \<noteq> [] then su_ResponseModel u else cs_model st)\<rparr>) out"
  have one: "no_done out1" using assms(2) by (simp add: out1_def no_done_def set_state_def)
  obtain b2 out2 where c: "emit_content env (su_ContentDelta u) out1 = (b2, out2)" by (metis prod.exhaust)
  obtain content stopped f where push: "stop_push (su_ContentDelta u) (co_filter out1) = ((content, stopped), f)" by (metis prod.exhaust)
  define out3 where "out3 = set_state (\<lambda>st. if stopped then st\<lparr>cs_stopped := True\<rparr> else st) (out1\<lparr>co_filter := f\<rparr>)"
  have three: "no_done out3" using one by (simp add: out3_def set_state_def no_done_def)
  have "no_done out2"
    using c one three write_chunk_no_done [of env "ContentChunk content" out3]
    by (auto simp: emit_content_def push Let_def out3_def [symmetric] split: if_splits)
  then show ?thesis
    using assms(1) c emit_tools_no_done by (auto simp: emitUpdate_def Let_def out1_def [symmetric] split: bool.splits if_splits)
qed

lemma stream_events_no_done:
  "stream_events env evs fin out = (e, out') \<Longrightarrow> no_done out \<Longrightarrow> no_done out' \<and> (\<forall>x. e = Some x \<longrightarrow> error_ok x)"
proof (induction evs arbitrary: out)
  case Nil
  then show ?case by (cases fin) (auto simp: error_ok_def protocol_def)
next
  case (Cons ev evs)
  obtain r st where a: "applyResponsesEvent (env_chat env) True ev (co_state out) = (r, st)" by (metis prod.exhaust)
  show ?case
  proof (cases r)
    case (Inl x)
    then show ?thesis using Cons(2,3) a apply_ok [of "env_chat env" True ev "co_state out" x st] by (auto simp: no_done_def)
  next
    case (Inr u)
    obtain b out1 where e: "emitUpdate env u (out\<lparr>co_state := st\<rparr>) = (b, out1)" by (metis prod.exhaust)
    have one: "no_done out1" by (rule emit_no_done [OF e]) (use Cons(3) in \<open>simp add: no_done_def\<close>)
    show ?thesis using Cons(1) [OF _ one] Cons(2) a Inr e one by (cases b) (auto simp: error_ok_def)
  qed
qed

definition well_accounted :: "chat_reply \<times> chat_report option \<Rightarrow> bool" where
  "well_accounted r \<longleftrightarrow>
     (case r of
        (reply, Some rep) \<Rightarrow>
          (rp_Outcome rep = ''success'') = (rp_StatusCode rep < 400) \<and>
          (rp_Outcome rep = ''success'') =
            (case reply of ReplyStream items \<Rightarrow> DoneChunk \<in> set items | ReplyJson answer \<Rightarrow> True | _ \<Rightarrow> False)
      | (reply, None) \<Rightarrow> (case reply of ReplyStream items \<Rightarrow> DoneChunk \<notin> set items | ReplyJson answer \<Rightarrow> False | _ \<Rightarrow> True))"

lemma canceled_well: "no_done out \<Longrightarrow> well_accounted (ReplyStream (co_written out), canceled st)"
  by (simp add: well_accounted_def canceled_def report_def statusClientClosedRequest_def no_done_def)

lemma finish_well:
  assumes "no_done out" "upstreamStatus < 400" shows "well_accounted (finish_stream env includeUsage upstreamStatus out)"
proof -
  obtain content f where fl: "stop_flush (co_filter out) = (content, f)" by (metis prod.exhaust)
  define chunks where "chunks = (if content \<noteq> [] then [ContentChunk content] else []) @ [FinishChunk (finalFinishReason (co_state out))] @
                   (if includeUsage then [UsageChunk (chatUsage (co_state out))] else [])"
  obtain b out1 where w: "write_all env chunks (out\<lparr>co_filter := f\<rparr>) = (b, out1)" by (metis prod.exhaust)
  have one: "no_done out1" by (rule write_all_no_done [OF w]) (use assms(1) in \<open>simp add: no_done_def\<close>)
  have finish: "finish_stream env includeUsage upstreamStatus out =
      (if \<not> b then (ReplyStream (co_written out1), canceled (co_state out))
       else if env_writer env (length (co_written out1))
       then (ReplyStream (co_written out1 @ [DoneChunk]), report (co_state out) upstreamStatus ''success'')
       else (ReplyStream (co_written out1), canceled (co_state out)))"
    using w unfolding finish_stream_def fl Let_def prod.case chunks_def [symmetric] by (auto simp: write_item_def split: bool.splits)
  show ?thesis
    using one assms(2) canceled_well [OF one] unfolding finish by (simp add: well_accounted_def report_def)
qed

lemma after_well:
  assumes "no_done out" "\<forall>x. e = Some x \<longrightarrow> error_ok x" "upstreamStatus < 400"
  shows "well_accounted (after_stream env includeUsage upstreamStatus (e, out))"
proof -
  define st where "st = co_state out"
  have verdict: "error_ok x" if "read_verdict (env_chat env) e st = Some x" for x
    using that assms(2) by (cases e) (auto simp: read_verdict_def split: if_splits)
  consider (panic) "e = Some ChatPanic" | (gone) "e \<noteq> Some ChatPanic" "e = Some ClientWriteError \<or> env_gone env"
    | (failed) x where "e \<noteq> Some ChatPanic" "\<not> (e = Some ClientWriteError \<or> env_gone env)" "read_verdict (env_chat env) e st = Some x"
    | (fine) "e \<noteq> Some ChatPanic" "\<not> (e = Some ClientWriteError \<or> env_gone env)" "read_verdict (env_chat env) e st = None"
    by blast
  then show ?thesis
  proof cases
    case panic
    then show ?thesis using assms(1) by (simp add: after_stream_def well_accounted_def no_done_def)
  next
    case gone
    then show ?thesis using canceled_well [OF assms(1)] by (simp add: after_stream_def)
  next
    case failed
    obtain final status where s: "chatProxyErrorFromStreamError env x = (final, status)" by (metis prod.exhaust)
    have "DoneChunk \<notin> set (co_written (snd (write_item env (ErrorChunk (chatErrorEnvelope final)) out)))"
      using assms(1) by (simp add: write_item_def no_done_def)
    then show ?thesis
      using failed s stream_status_ok [OF verdict [OF failed(3)] s]
      by (simp add: after_stream_def st_def [symmetric] well_accounted_def report_def)
  next
    case fine
    then show ?thesis using finish_well [OF assms(1,3)] by (simp add: after_stream_def st_def [symmetric])
  qed
qed

lemma stream_well:
  assumes "upstreamStatus < 400"
  shows "well_accounted (streamChatCompletion env includeUsage stops upstreamStatus first evs fin st0)"
proof -
  have cancel: "well_accounted (ReplyStream (co_written out), no_usage_report statusClientClosedRequest ''client_canceled'')"
    if "no_done out" for out
    using that by (simp add: well_accounted_def no_usage_report_def statusClientClosedRequest_def no_done_def)
  have main: "well_accounted (case write_chunk env RoleChunk \<lparr>co_state = st, co_filter = newChatStopFilter stops, co_written = []\<rparr> of
               (False, out) \<Rightarrow> (ReplyStream (co_written out), no_usage_report statusClientClosedRequest ''client_canceled'')
             | (True, out) \<Rightarrow>
                 (case (case update of Some u \<Rightarrow> emitUpdate env u out | None \<Rightarrow> (True, out)) of
                    (False, out1) \<Rightarrow> (ReplyStream (co_written out1), canceled (co_state out1))
                  | (True, out1) \<Rightarrow> after_stream env includeUsage upstreamStatus (stream_events env evs fin out1)))" for st update
  proof -
    obtain b out where w: "write_chunk env RoleChunk \<lparr>co_state = st, co_filter = newChatStopFilter stops, co_written = []\<rparr> = (b, out)"
      by (metis prod.exhaust)
    have zero: "no_done out" by (rule write_chunk_no_done [OF w]) (simp add: no_done_def)
    obtain b1 out1 where u: "(case update of Some u \<Rightarrow> emitUpdate env u out | None \<Rightarrow> (True, out)) = (b1, out1)" by (metis prod.exhaust)
    have one: "no_done out1" using u zero emit_no_done by (cases update) auto
    obtain e out2 where s: "stream_events env evs fin out1 = (e, out2)" by (metis prod.exhaust)
    note two = stream_events_no_done [OF s one]
    show ?thesis
      using cancel [OF zero] canceled_well [OF one] after_well [OF conjunct1 [OF two] conjunct2 [OF two] assms]
      by (simp add: w u s split: bool.split)
  qed
  show ?thesis
  proof (cases first)
    case None
    then show ?thesis using main [where st = st0 and update = None] by (simp add: streamChatCompletion_def)
  next
    case (Some ev)
    obtain r st where a: "applyResponsesEvent (env_chat env) True ev st0 = (r, st)" by (metis prod.exhaust)
    show ?thesis
    proof (cases r)
      case (Inr u)
      then show ?thesis using Some a main [where st = st and update = "Some u"] by (simp add: streamChatCompletion_def)
    next
      case (Inl e)
      obtain final status where s: "chatProxyErrorFromStreamError env e = (final, status)" by (metis prod.exhaust)
      have "400 \<le> status" using stream_status_ok [OF apply_ok s] a Inl by simp
      then show ?thesis using Some a Inl s
        by (cases e) (simp_all add: streamChatCompletion_def well_accounted_def report_def)
    qed
  qed
qed

lemma aggregate_events_ok:
  "aggregate_events lib evs fin st = (e, st') \<Longrightarrow> (\<forall>x. e = Some x \<longrightarrow> error_ok x)"
proof (induction evs arbitrary: st)
  case Nil
  then show ?case by (cases fin) (auto simp: error_ok_def protocol_def)
next
  case (Cons ev evs)
  obtain r st1 where a: "applyResponsesEvent lib False ev st = (r, st1)" by (metis prod.exhaust)
  show ?case
  proof (cases r)
    case (Inl x)
    then show ?thesis using Cons(2) a apply_ok by auto
  next
    case (Inr u)
    then show ?thesis using Cons(1) Cons(2) a by simp
  qed
qed

lemma aggregate_well:
  assumes "upstreamStatus < 400" shows "well_accounted (aggregateChatCompletion env stops upstreamStatus evs fin st0)"
proof -
  obtain e st where a: "aggregate_events (env_chat env) evs fin st0 = (e, st)" by (metis prod.exhaust)
  have verdict: "error_ok x" if "read_verdict (env_chat env) e st = Some x" for x
    using that aggregate_events_ok [OF a] by (cases e) (auto simp: read_verdict_def split: if_splits)
  show ?thesis
  proof (cases "e = Some ChatPanic")
    case True
    then show ?thesis by (simp add: aggregateChatCompletion_def a well_accounted_def)
  next
    case False
    show ?thesis
    proof (cases "read_verdict (env_chat env) e st")
      case None
      then show ?thesis using False assms by (simp add: aggregateChatCompletion_def a well_accounted_def report_def Let_def)
    next
      case (Some x)
      obtain final status where s: "chatProxyErrorFromStreamError env x = (final, status)" by (metis prod.exhaust)
      show ?thesis using False Some s stream_status_ok [OF verdict [OF Some] s]
        by (simp add: aggregateChatCompletion_def a well_accounted_def report_def)
    qed
  qed
qed

lemma failed_well:
  "400 \<le> status \<Longrightarrow> well_accounted (ReplyError e, no_usage_report status ''upstream_failure'')"
  "well_accounted (NoReply, no_usage_report 499 ''client_canceled'')" "well_accounted (ReplyStorageError, None)"
  by (simp_all add: well_accounted_def no_usage_report_def)


end
