(* ===== verification/Chat_Answers.thy ===== *)
theory Chat_Answers
  imports Chat_Handler
begin

text \<open>
  The handlers put together with the state and the filter: what a streaming client receives, and that a
  probed response cannot fail any more. The state of an event does not depend on the names in it
  (\<open>core\<close>), which is why the probe, whose state has no model, decides for the handler.
\<close>

section \<open>Names do not matter\<close>

definition core :: "chatCompletionState \<Rightarrow> chatCompletionState" where
  "core st = st\<lparr>cs_id := [], cs_model := [], cs_created := 0, cs_stopped := False, cs_finishReason := []\<rparr>"

definition core_update :: "chatStreamUpdate \<Rightarrow> chatStreamUpdate" where
  "core_update u = u\<lparr>su_FinishReason := [], su_ResponseID := [], su_ResponseModel := []\<rparr>"

definition core_step :: "('a \<Rightarrow> 'a) \<Rightarrow> 'a step \<Rightarrow> 'a step" where
  "core_step f r = (case r of (Inl e, st) \<Rightarrow> (Inl e, core st) | (Inr x, st) \<Rightarrow> (Inr (f x), core st))"

lemma core_fields [simp]:
  "cs_content (core st) = cs_content st" "cs_toolCalls (core st) = cs_toolCalls st"
  "cs_toolIndexByItem (core st) = cs_toolIndexByItem st" "cs_toolIndexByCall (core st) = cs_toolIndexByCall st"
  "cs_toolIndexByOutput (core st) = cs_toolIndexByOutput st" "cs_currentToolIndex (core st) = cs_currentToolIndex st"
  "cs_outputItems (core st) = cs_outputItems st" "cs_nextOutputIndex (core st) = cs_nextOutputIndex st"
  "cs_usage (core st) = cs_usage st" "cs_hasUsage (core st) = cs_hasUsage st" "cs_terminal (core st) = cs_terminal st"
  by (simp_all add: core_def)

lemma core_updates [simp]:
  "core (st\<lparr>cs_content := c\<rparr>) = (core st)\<lparr>cs_content := c\<rparr>"
  "core (st\<lparr>cs_toolCalls := cs\<rparr>) = (core st)\<lparr>cs_toolCalls := cs\<rparr>"
  "core (st\<lparr>cs_outputItems := items\<rparr>) = (core st)\<lparr>cs_outputItems := items\<rparr>"
  "core (st\<lparr>cs_nextOutputIndex := n\<rparr>) = (core st)\<lparr>cs_nextOutputIndex := n\<rparr>"
  "core (st\<lparr>cs_usage := us\<rparr>) = (core st)\<lparr>cs_usage := us\<rparr>"
  "core (st\<lparr>cs_hasUsage := h\<rparr>) = (core st)\<lparr>cs_hasUsage := h\<rparr>"
  "core (st\<lparr>cs_terminal := b\<rparr>) = (core st)\<lparr>cs_terminal := b\<rparr>"
  "core (st\<lparr>cs_toolIndexByItem := m1\<rparr>) = (core st)\<lparr>cs_toolIndexByItem := m1\<rparr>"
  "core (st\<lparr>cs_toolIndexByCall := m1\<rparr>) = (core st)\<lparr>cs_toolIndexByCall := m1\<rparr>"
  "core (st\<lparr>cs_toolIndexByOutput := m2\<rparr>) = (core st)\<lparr>cs_toolIndexByOutput := m2\<rparr>"
  "core (st\<lparr>cs_currentToolIndex := i\<rparr>) = (core st)\<lparr>cs_currentToolIndex := i\<rparr>"
  by (simp_all add: core_def)

lemma core_names [simp]:
  "core (st\<lparr>cs_id := i\<rparr>) = core st" "core (st\<lparr>cs_model := m\<rparr>) = core st" "core (st\<lparr>cs_created := t\<rparr>) = core st"
  "core (st\<lparr>cs_stopped := b\<rparr>) = core st" "core (st\<lparr>cs_finishReason := reason\<rparr>) = core st" "core (core st) = core st"
  by (simp_all add: core_def)

lemma core_new: "core (newChatCompletionState created model) = core (newChatCompletionState created' model')"
  by (simp add: core_def newChatCompletionState_def)

lemma core_lookup [simp]:
  "lookupToolCallIndex lib item (core st) = lookupToolCallIndex lib item st" "toolCall (core st) i = toolCall st i"
  "toolIndexForPayload lib payload (core st) = toolIndexForPayload lib payload st"
  "initialToolCallDelta i (core st) = initialToolCallDelta i st"
  "resolvedResponseOutput lib response (core st) = resolvedResponseOutput lib response st"
  unfolding lookupToolCallIndex_def toolCall_def toolIndexForPayload_def initialToolCallDelta_def resolvedResponseOutput_def core_fields
  by (rule refl)+

lemma core_ensure: "ensureToolCall lib item oi (core st) = (case ensureToolCall lib item oi st of (r, st') \<Rightarrow> (r, core st'))"
  unfolding ensureToolCall_def core_lookup core_fields Let_def prod.case core_updates by (rule refl)

lemma core_output_index: "outputIndexForEvent lib payload item (core st) = (case outputIndexForEvent lib payload item st of (i, st') \<Rightarrow> (i, core st'))"
  unfolding outputIndexForEvent_def core_lookup core_fields Let_def by (auto split: option.split)

lemma core_set_arguments [simp]: "set_arguments i a (core st) = core (set_arguments i a st)"
  by (simp add: set_arguments_def set_toolCall_def)

lemma core_text: "reconcileTextSnapshot lib streaming snapshot (core st) = core_step id (reconcileTextSnapshot lib streaming snapshot st)"
  by (simp add: reconcileTextSnapshot_def core_step_def Let_def)

lemma core_arguments: "reconcileToolArguments lib streaming i full (core st) = core_step id (reconcileToolArguments lib streaming i full st)"
  by (simp add: reconcileToolArguments_def core_step_def Let_def)

lemma core_tool: "reconcileToolSnapshot lib streaming item oi (core st) = core_step id (reconcileToolSnapshot lib streaming item oi st)"
  by (auto simp: reconcileToolSnapshot_def core_ensure core_arguments core_step_def Let_def split: prod.split sum.split)

lemma core_tools: "reconcile_tools lib items deltas finals (core st) = core_step id (reconcile_tools lib items deltas finals st)"
proof (induction items arbitrary: deltas finals st)
  case (Cons indexed items)
  then show ?case
    by (cases "reconcileToolSnapshot lib True (snd indexed) (fst indexed) st"; cases "fst (reconcileToolSnapshot lib True (snd indexed) (fst indexed) st)")
      (simp_all add: core_tool core_step_def Let_def cong: option.case_cong)
qed (simp add: core_step_def)

lemma core_replace: "fold (replace_tool lib) items (core st) = core (fold (replace_tool lib) items st)"
proof (induction items arbitrary: st)
  case (Cons indexed items)
  have "replace_tool lib indexed (core st) = core (replace_tool lib indexed st)"
    by (simp add: replace_tool_def core_ensure split: prod.split)
  with Cons show ?case by simp
qed simp

lemma core_reset [simp]: "core (resetToolCalls st) = resetToolCalls (core st)"
  by (simp add: resetToolCalls_def)

lemma core_terminal_output:
  "reconcileTerminalOutput lib response streaming (core st) = core_step id (reconcileTerminalOutput lib response streaming st)"
  by (auto simp: reconcileTerminalOutput_def core_text core_tools core_step_def
      simp flip: core_replace core_updates core_reset split: prod.split sum.split)

lemma core_metadata [simp]: "core (applyResponseMetadata response st) = core st"
  by (simp add: applyResponseMetadata_def)

lemma core_usage [simp]: "applyResponseUsage lib response (core st) = core (applyResponseUsage lib response st)"
  by (simp add: applyResponseUsage_def split: option.split)

definition same_step :: "chatStreamUpdate step \<Rightarrow> chatStreamUpdate step \<Rightarrow> bool" where
  "same_step r r' \<longleftrightarrow> core_step core_update r = core_step core_update r'"

lemma core_update_simps [simp]:
  "core_update (u\<lparr>su_ResponseID := i\<rparr>) = core_update u" "core_update (u\<lparr>su_ResponseModel := m\<rparr>) = core_update u"
  "core_update (u\<lparr>su_FinishReason := fr\<rparr>) = core_update u" "su_ContentDelta (core_update u) = su_ContentDelta u"
  "su_ToolDeltas (core_update u) = su_ToolDeltas u"
  by (simp_all add: core_update_def)

lemma core_step_simps [simp]: "core_step f (Inl e, st) = (Inl e, core st)" "core_step f (Inr x, st) = (Inr (f x), core st)"
  by (simp_all add: core_step_def)

lemma core_terminal:
  "core_step core_update (applyTerminalResponse lib response eventType streaming (core st)) =
     core_step core_update (applyTerminalResponse lib response eventType streaming st)"
proof -
  let ?s = "applyResponseUsage lib response (applyResponseMetadata response st)" and ?c = "applyResponseUsage lib response (applyResponseMetadata response (core st))"
  have "core ?c = core ?s" by (simp flip: core_usage)
  then have same: "core_step id (reconcileTerminalOutput lib response streaming ?c) = core_step id (reconcileTerminalOutput lib response streaming ?s)"
    using core_terminal_output [of lib response streaming ?c] core_terminal_output [of lib response streaming ?s] by simp
  obtain r1 s1 where c: "reconcileTerminalOutput lib response streaming ?c = (r1, s1)" by (metis prod.exhaust)
  obtain r2 s2 where s: "reconcileTerminalOutput lib response streaming ?s = (r2, s2)" by (metis prod.exhaust)
  have st: "core s1 = core s2" and r: "r1 = r2" using same c s by (cases r1; cases r2; simp)+
  show ?thesis
  proof (cases r1)
    case (Inl e)
    then show ?thesis using c s st r by (simp add: applyTerminalResponse_def)
  next
    case (Inr u)
    have calls: "cs_toolCalls s1 = cs_toolCalls s2" using st core_fields(2) by metis
    define p where "p = (if eventType = ''response.incomplete'' then incompleteFinishReason response
        else (if cs_toolCalls s2 \<noteq> [] then ''tool_calls'' else ''stop'', su_UnknownReason u))"
    obtain reason unknown where p': "p = (reason, unknown)" by (metis prod.exhaust)
    have "applyTerminalResponse lib response eventType streaming (core st) =
        (Inr (u\<lparr>su_UnknownReason := unknown, su_FinishReason := finalFinishReason (s1\<lparr>cs_finishReason := reason\<rparr>)\<rparr>), s1\<lparr>cs_finishReason := reason\<rparr>)"
      unfolding applyTerminalResponse_def c Inr prod.case sum.case calls p_def [symmetric] p' Let_def by (rule refl)
    moreover have "applyTerminalResponse lib response eventType streaming st =
        (Inr (u\<lparr>su_UnknownReason := unknown, su_FinishReason := finalFinishReason (s2\<lparr>cs_finishReason := reason\<rparr>)\<rparr>), s2\<lparr>cs_finishReason := reason\<rparr>)"
      unfolding applyTerminalResponse_def s Inr [unfolded r] prod.case sum.case p_def [symmetric] p' Let_def by (rule refl)
    ultimately show ?thesis using st by simp
  qed
qed

lemma core_event: "core_step core_update (handle_event lib streaming payload eventType (core st)) = core_step core_update (handle_event lib streaming payload eventType st)"
proof -
  have created: "core_step core_update (created_event lib payload (core st)) = core_step core_update (created_event lib payload st)"
    by (simp add: created_event_def malformed_def Let_def split: option.split)
  have delta: "core_step core_update (text_delta_event lib payload (core st)) = core_step core_update (text_delta_event lib payload st)"
    by (simp add: text_delta_event_def malformed_def split: json.split)
  have text_done: "core_step core_update (text_done_event lib streaming payload (core st)) = core_step core_update (text_done_event lib streaming payload st)"
    by (auto simp: text_done_event_def core_text core_step_def split: prod.split sum.split)
  have added: "core_step core_update (item_added_event lib payload (core st)) = core_step core_update (item_added_event lib payload st)"
    by (auto simp: item_added_event_def malformed_def core_output_index core_ensure split: option.split prod.split)
  have item_done: "core_step core_update (item_done_event lib streaming payload (core st)) = core_step core_update (item_done_event lib streaming payload st)"
  proof -
    have rec: "reconcileStreamingOutputItem lib item oi (core s) = core_step id (reconcileStreamingOutputItem lib item oi s)" for item oi s
      by (auto simp: reconcileStreamingOutputItem_def core_text core_tool core_step_def split: prod.split sum.split)
    have again: "core_step core_update (core_step id r) = core_step core_update r" for r
      by (auto simp: core_step_def split: prod.split sum.split)
    show ?thesis
      by (auto simp: item_done_event_def malformed_def core_output_index Let_def rec again simp flip: core_updates(3) split: option.split prod.split)
  qed
  have arguments_delta: "core_step core_update (arguments_delta_event lib payload (core st)) = core_step core_update (arguments_delta_event lib payload st)"
    by (auto simp: arguments_delta_event_def malformed_def split: option.split json.split)
  have arguments_done: "core_step core_update (arguments_done_event lib streaming payload (core st)) = core_step core_update (arguments_done_event lib streaming payload st)"
    by (auto simp: arguments_done_event_def malformed_def core_arguments core_step_def split: option.split json.split prod.split sum.split)
  have terminal: "core_step core_update (terminal_event lib streaming payload eventType (core st)) = core_step core_update (terminal_event lib streaming payload eventType st)"
  proof (cases "mapValue (member payload ''response'')")
    case None
    then show ?thesis by (simp add: terminal_event_def malformed_def)
  next
    case (Some response)
    obtain r1 s1 where c: "applyTerminalResponse lib response eventType streaming (core st) = (r1, s1)" by (metis prod.exhaust)
    obtain r2 s2 where s: "applyTerminalResponse lib response eventType streaming st = (r2, s2)" by (metis prod.exhaust)
    have "core_step core_update (r1, s1) = core_step core_update (r2, s2)" using core_terminal [of lib response eventType streaming st] c s by simp
    then have "core s1 = core s2" and r: "(case r1 of Inl e \<Rightarrow> r2 = Inl e | Inr u \<Rightarrow> \<exists>u'. r2 = Inr u' \<and> core_update u = core_update u')"
      by (cases r1; cases r2; simp)+
    moreover have "core_update (u\<lparr>su_Terminal := b\<rparr>) = (core_update u)\<lparr>su_Terminal := b\<rparr>" for u b by (simp add: core_update_def)
    ultimately show ?thesis using Some c s by (cases r1) (auto simp: terminal_event_def)
  qed
  have failed: "core_step core_update (failed_event lib payload (core st)) = core_step core_update (failed_event lib payload st)"
    by (simp add: failed_event_def flip: core_usage split: option.split)
  show ?thesis
    unfolding handle_event_def by (simp add: created delta text_done added item_done arguments_delta arguments_done terminal failed)
qed

lemma core_apply: "core_step core_update (applyResponsesEvent lib streaming ev (core st)) = core_step core_update (applyResponsesEvent lib streaming ev st)"
  by (auto simp: applyResponsesEvent_def core_event split: sum.split prod.split)

text \<open>Two states that differ in the names only take an event the same way.\<close>

lemma same_apply:
  assumes same: "core st = core st'" and a: "applyResponsesEvent lib streaming ev st = (r, s)" and b: "applyResponsesEvent lib streaming ev st' = (r', s')"
  shows "core s = core s' \<and> (case r of Inl e \<Rightarrow> r' = Inl e
    | Inr u \<Rightarrow> \<exists>u'. r' = Inr u' \<and> su_ContentDelta u = su_ContentDelta u' \<and> su_ToolDeltas u = su_ToolDeltas u')"
proof -
  have "core_step core_update (r, s) = core_step core_update (r', s')"
    using core_apply [of lib streaming ev st] core_apply [of lib streaming ev st'] same a b by simp
  then show ?thesis by (cases r; cases r') (auto dest: arg_cong [of _ _ su_ContentDelta] arg_cong [of _ _ su_ToolDeltas])
qed

section \<open>A probed response does not fail\<close>

lemma probe_replay:
  "probe_events lib gone seen evs fin st = PreparedReplay replay \<Longrightarrow> core st = core st' \<Longrightarrow>
     replay = seen @ evs \<and> (\<exists>s. aggregate_events lib evs SseEof st' = (None, s) \<and> cs_terminal s)"
proof (induction evs arbitrary: seen st st')
  case Nil
  have "cs_terminal st' = cs_terminal st" using Nil(2) core_fields(11) by metis
  with Nil(1) show ?case by (auto split: if_splits)
next
  case (Cons ev evs)
  obtain r s where a: "applyResponsesEvent lib False ev st = (r, s)" by (metis prod.exhaust)
  obtain r' s' where b: "applyResponsesEvent lib False ev st' = (r', s')" by (metis prod.exhaust)
  note same = same_apply [OF Cons(3) a b]
  show ?case
  proof (cases r)
    case (Inl e)
    then show ?thesis using Cons(2) a by (cases e) simp_all
  next
    case (Inr u)
    then obtain u' where u': "r' = Inr u'" using same by auto
    let ?s = "s'\<lparr>cs_id := (if su_ResponseID u' \<noteq> [] then su_ResponseID u' else cs_id s'),
                 cs_model := (if su_ResponseModel u' \<noteq> [] then su_ResponseModel u' else cs_model s')\<rparr>"
    have "core s = core ?s" using same by simp
    moreover have "probe_events lib gone (seen @ [ev]) evs fin s = PreparedReplay replay" using Cons(2) a Inr by simp
    ultimately show ?thesis using Cons(1) [of "seen @ [ev]" s ?s] b u' by simp
  qed
qed


section \<open>What a streaming client receives\<close>

named_theorems keeps_stopped \<open>the events leave the mark of a stopped stream alone\<close>

lemma stopped_simps [simp]:
  "cs_stopped (snd (ensureToolCall lib item oi st)) = cs_stopped st" "cs_stopped (snd (outputIndexForEvent lib payload item st)) = cs_stopped st"
  "cs_stopped (set_arguments i a st) = cs_stopped st" "cs_stopped (applyResponseMetadata response st) = cs_stopped st"
  "cs_stopped (applyResponseUsage lib response st) = cs_stopped st"
  by (simp_all add: ensureToolCall_def outputIndexForEvent_def set_arguments_def set_toolCall_def applyResponseMetadata_def
      applyResponseUsage_def Let_def split: option.split)

lemma stopped_pairs [keeps_stopped]:
  "ensureToolCall lib item oi st = (r, st') \<Longrightarrow> cs_stopped st' = cs_stopped st"
  "outputIndexForEvent lib payload item st = (oi, st') \<Longrightarrow> cs_stopped st' = cs_stopped st"
  using stopped_simps(1) [of lib item oi st] stopped_simps(2) [of lib payload item st] by auto

lemma stopped_text [keeps_stopped]: "reconcileTextSnapshot lib streaming snapshot st = (r, st') \<Longrightarrow> cs_stopped st' = cs_stopped st"
  by (auto simp: reconcileTextSnapshot_def Let_def split: if_splits)

lemma stopped_arguments [keeps_stopped]: "reconcileToolArguments lib streaming i full st = (r, st') \<Longrightarrow> cs_stopped st' = cs_stopped st"
  by (auto simp: reconcileToolArguments_def Let_def split: if_splits)

lemma stopped_tool [keeps_stopped]: "reconcileToolSnapshot lib streaming item oi st = (r, st') \<Longrightarrow> cs_stopped st' = cs_stopped st"
  by (auto simp: reconcileToolSnapshot_def Let_def dest!: keeps_stopped split: prod.splits sum.splits if_splits)

lemma stopped_tools [keeps_stopped]: "reconcile_tools lib items deltas finals st = (r, st') \<Longrightarrow> cs_stopped st' = cs_stopped st"
proof (induction items arbitrary: deltas finals st)
  case (Cons indexed items)
  obtain r1 st1 where s: "reconcileToolSnapshot lib True (snd indexed) (fst indexed) st = (r1, st1)" by (metis prod.exhaust)
  from Cons s stopped_tool [OF s] show ?case by (cases r1) (auto simp: Let_def)
qed simp

lemma stopped_replace: "cs_stopped (fold (replace_tool lib) items st) = cs_stopped st"
proof (induction items arbitrary: st)
  case (Cons indexed items)
  then show ?case by (auto simp: replace_tool_def dest!: keeps_stopped split: prod.splits)
qed simp

lemma stopped_output [keeps_stopped]:
  assumes "reconcileTerminalOutput lib response streaming st = (r, st')" shows "cs_stopped st' = cs_stopped st"
  using assms
  by (auto simp: reconcileTerminalOutput_def stopped_replace resetToolCalls_def dest!: keeps_stopped split: prod.splits sum.splits if_splits)

lemma stopped_terminal [keeps_stopped]: "applyTerminalResponse lib response eventType streaming st = (r, st') \<Longrightarrow> cs_stopped st' = cs_stopped st"
  by (auto simp: applyTerminalResponse_def Let_def dest!: keeps_stopped split: prod.splits sum.splits)

lemma stopped_events [keeps_stopped]:
  "created_event lib payload st = (r, st') \<Longrightarrow> cs_stopped st' = cs_stopped st"
  "text_delta_event lib payload st = (r, st') \<Longrightarrow> cs_stopped st' = cs_stopped st"
  "text_done_event lib streaming payload st = (r, st') \<Longrightarrow> cs_stopped st' = cs_stopped st"
  "item_added_event lib payload st = (r, st') \<Longrightarrow> cs_stopped st' = cs_stopped st"
  "item_done_event lib streaming payload st = (r, st') \<Longrightarrow> cs_stopped st' = cs_stopped st"
  "arguments_delta_event lib payload st = (r, st') \<Longrightarrow> cs_stopped st' = cs_stopped st"
  "arguments_done_event lib streaming payload st = (r, st') \<Longrightarrow> cs_stopped st' = cs_stopped st"
  "terminal_event lib streaming payload eventType st = (r, st') \<Longrightarrow> cs_stopped st' = cs_stopped st"
  "failed_event lib payload st = (r, st') \<Longrightarrow> cs_stopped st' = cs_stopped st"
          apply (auto simp: created_event_def malformed_def Let_def split: option.splits)[1]
         apply (auto simp: text_delta_event_def malformed_def split: json.splits)[1]
        apply (auto simp: text_done_event_def dest!: keeps_stopped split: prod.splits sum.splits)[1]
       apply (auto simp: item_added_event_def malformed_def dest!: keeps_stopped split: option.splits prod.splits if_splits)[1]
      apply (auto simp: item_done_event_def reconcileStreamingOutputItem_def malformed_def Let_def dest!: keeps_stopped
        split: option.splits prod.splits sum.splits if_splits)[1]
     apply (auto simp: arguments_delta_event_def malformed_def split: option.splits json.splits)[1]
    apply (auto simp: arguments_done_event_def malformed_def dest!: keeps_stopped split: option.splits json.splits prod.splits sum.splits)[1]
   apply (auto simp: terminal_event_def malformed_def dest!: keeps_stopped split: option.splits prod.splits sum.splits)[1]
  apply (auto simp: failed_event_def split: option.splits)[1]
  done

lemma stopped_apply: "applyResponsesEvent lib streaming ev st = (r, st') \<Longrightarrow> cs_stopped st' = cs_stopped st"
proof -
  assume a: "applyResponsesEvent lib streaming ev st = (r, st')"
  have "cs_stopped s = cs_stopped st" if "handle_event lib streaming payload eventType st = (r, s)" for payload eventType s
    using that unfolding handle_event_def by (elim if_choice) (erule keeps_stopped | force)+
  with a show ?thesis by (auto simp: applyResponsesEvent_def split: sum.splits prod.splits if_splits)
qed

definition contents :: "written list \<Rightarrow> string" where
  "contents items = concat (map (\<lambda>item. case item of Chunk (ContentChunk s) j \<Rightarrow> s | _ \<Rightarrow> []) items)"

definition tool_chunks :: "written list \<Rightarrow> toolDelta list" where
  "tool_chunks items = concat (map (\<lambda>item. case item of Chunk (ToolChunk d) j \<Rightarrow> [d] | _ \<Rightarrow> []) items)"

lemma contents_simps [simp]:
  "contents [] = []" "contents (a @ b) = contents a @ contents b"
  "tool_chunks [] = []" "tool_chunks (a @ b) = tool_chunks a @ tool_chunks b"
  by (simp_all add: contents_def tool_chunks_def)

lemma contents_items [simp]:
  "contents [Chunk RoleChunk j] = []" "contents [Chunk (ContentChunk s) j] = s" "contents [Chunk (ToolChunk d) j] = []"
  "contents [Chunk (FinishChunk fr) j] = []" "contents [Chunk (UsageChunk us) j] = []" "contents [DoneChunk] = []"
  "tool_chunks [Chunk RoleChunk j] = []" "tool_chunks [Chunk (ContentChunk s) j] = []" "tool_chunks [Chunk (ToolChunk d) j] = [d]"
  "tool_chunks [Chunk (FinishChunk fr) j] = []" "tool_chunks [Chunk (UsageChunk us) j] = []" "tool_chunks [DoneChunk] = []"
  by (simp_all add: contents_def tool_chunks_def)

text \<open>A client that takes every write.\<close>

definition open_client :: "chat_env \<Rightarrow> bool" where
  "open_client env \<longleftrightarrow> env_writer env = (\<lambda>n. True) \<and> \<not> env_gone env"

lemma write_open: "open_client env \<Longrightarrow> write_chunk env c out = (True, out\<lparr>co_written := co_written out @ [Chunk c (chunk_json (co_state out) c)]\<rparr>)"
  by (simp add: open_client_def write_chunk_def write_item_def)

lemma emit_tools_open:
  assumes "open_client env"
  shows "\<exists>out'. emit_tools env ds out = (True, out') \<and> co_state out' = co_state out \<and> co_filter out' = co_filter out \<and>
    contents (co_written out') = contents (co_written out) \<and> tool_chunks (co_written out') = tool_chunks (co_written out) @ ds"
proof (induction ds arbitrary: out)
  case (Cons d ds)
  from Cons [of "out\<lparr>co_written := co_written out @ [Chunk (ToolChunk d) (chunk_json (co_state out) (ToolChunk d))]\<rparr>"]
  show ?case by (simp add: write_open [OF assms])
qed simp

lemma push_facts:
  assumes "stop_push d f = ((out, stopped), f')"
  shows "d = [] \<Longrightarrow> out = [] \<and> f' = f" "sf_stopped f \<Longrightarrow> sf_stopped f'" "\<not> sf_stopped f \<Longrightarrow> stopped = sf_stopped f'"
  using assms by (auto simp: stop_push_def Let_def split: if_splits prod.splits bool.splits)

definition stop_known :: "chat_out \<Rightarrow> bool" where
  "stop_known out \<longleftrightarrow> (sf_stopped (co_filter out) = cs_stopped (co_state out))"

lemma emit_open:
  assumes op: "open_client env" and k: "stop_known out" and push: "stop_push (su_ContentDelta u) (co_filter out) = ((content, stopped), f)"
  shows "\<exists>out'. emitUpdate env u out = (True, out') \<and> core (co_state out') = core (co_state out) \<and> co_filter out' = f \<and> stop_known out' \<and>
    contents (co_written out') = contents (co_written out) @ content \<and>
    (\<not> sf_stopped f \<longrightarrow> tool_chunks (co_written out') = tool_chunks (co_written out) @ su_ToolDeltas u)"
proof -
  define out1 where "out1 = set_state (\<lambda>st. st\<lparr>cs_id := (if su_ResponseID u \<noteq> [] then su_ResponseID u else cs_id st),
                    cs_model := (if su_ResponseModel u \<noteq> [] then su_ResponseModel u else cs_model st)\<rparr>) out"
  have one: "co_filter out1 = co_filter out" "co_written out1 = co_written out" "core (co_state out1) = core (co_state out)"
    "cs_stopped (co_state out1) = cs_stopped (co_state out)"
    by (simp_all add: out1_def set_state_def)
  define out3 where "out3 = set_state (\<lambda>st. if stopped then st\<lparr>cs_stopped := True\<rparr> else st) (out1\<lparr>co_filter := f\<rparr>)"
  have stop: "sf_stopped f \<longleftrightarrow> stopped \<or> cs_stopped (co_state out)"
    using push_facts(2,3) [OF push] k by (cases "sf_stopped (co_filter out)") (auto simp: stop_known_def)
  obtain out2 where c: "emit_content env (su_ContentDelta u) out1 = (True, out2)" "co_filter out2 = f" "core (co_state out2) = core (co_state out)"
    "cs_stopped (co_state out2) = sf_stopped f" "contents (co_written out2) = contents (co_written out) @ content"
    "tool_chunks (co_written out2) = tool_chunks (co_written out)"
  proof (cases "su_ContentDelta u = []")
    case True
    note same = push_facts(1) [OF push True]
    show ?thesis
      by (rule that [of out1]) (use True same one k in \<open>simp_all add: emit_content_def stop_known_def\<close>)
  next
    case False
    have three: "co_filter out3 = f" "core (co_state out3) = core (co_state out)" "cs_stopped (co_state out3) = sf_stopped f"
      "co_written out3 = co_written out"
      using one stop by (simp_all add: out3_def set_state_def)
    define out4 where "out4 = (if content = [] then out3 else
        out3\<lparr>co_written := co_written out3 @ [Chunk (ContentChunk content) (chunk_json (co_state out3) (ContentChunk content))]\<rparr>)"
    have "emit_content env (su_ContentDelta u) out1 = (True, out4)"
      using False push by (simp add: emit_content_def one Let_def out3_def [symmetric] out4_def write_open [OF op])
    then show ?thesis by (rule that) (use three in \<open>simp_all add: out4_def\<close>)
  qed
  show ?thesis
  proof (cases "sf_stopped f")
    case True
    then show ?thesis using c by (simp add: emitUpdate_def Let_def out1_def [symmetric] stop_known_def)
  next
    case False
    obtain out5 where "emit_tools env (su_ToolDeltas u) out2 = (True, out5)" "co_state out5 = co_state out2" "co_filter out5 = co_filter out2"
      "contents (co_written out5) = contents (co_written out2)" "tool_chunks (co_written out5) = tool_chunks (co_written out2) @ su_ToolDeltas u"
      using emit_tools_open [OF op, of "su_ToolDeltas u" out2] by blast
    then show ?thesis using c False by (simp add: emitUpdate_def Let_def out1_def [symmetric] stop_known_def)
  qed
qed

lemma pushes_stopped_mono: "stop_pushes ds f = (outs, f') \<Longrightarrow> sf_stopped f \<Longrightarrow> sf_stopped f'"
proof (induction ds arbitrary: f outs)
  case (Cons d ds)
  obtain out st f1 where p: "stop_push d f = ((out, st), f1)" by (metis prod.exhaust)
  obtain outs1 where "stop_pushes ds f1 = (outs1, f')" using Cons(2) p by (auto split: prod.splits)
  from Cons(1) [OF this push_facts(2) [OF p Cons(3)]] show ?case .
qed simp

lemma stream_open:
  assumes "open_client env"
  shows "run_events (env_chat env) True evs st = (Inr us, t) \<Longrightarrow> core (co_state out) = core st \<Longrightarrow> stop_known out \<Longrightarrow>
    stop_pushes (map su_ContentDelta us) (co_filter out) = (text_out, f) \<Longrightarrow>
    \<exists>out'. stream_events env evs SseEof out = (None, out') \<and> core (co_state out') = core t \<and> co_filter out' = f \<and> stop_known out' \<and>
      contents (co_written out') = contents (co_written out) @ text_out \<and>
      (\<not> sf_stopped f \<longrightarrow> tool_chunks (co_written out') = tool_chunks (co_written out) @ concat (map su_ToolDeltas us))"
proof (induction evs arbitrary: st us out text_out)
  case Nil
  then show ?case by simp
next
  case (Cons ev evs)
  obtain u st1 where a: "applyResponsesEvent (env_chat env) True ev st = (Inr u, st1)"
    using Cons(2) by (auto split: prod.splits sum.splits)
  obtain us1 where run: "run_events (env_chat env) True evs st1 = (Inr us1, t)" "us = u # us1"
    using Cons(2) a by (auto split: prod.splits sum.splits)
  obtain r' s' where b: "applyResponsesEvent (env_chat env) True ev (co_state out) = (r', s')" by (metis prod.exhaust)
  from same_apply [OF Cons(3) [symmetric] a b] obtain u' where u': "r' = Inr u'" "core s' = core st1"
    "su_ContentDelta u' = su_ContentDelta u" "su_ToolDeltas u' = su_ToolDeltas u" by auto
  obtain content stopped f1 where push: "stop_push (su_ContentDelta u) (co_filter out) = ((content, stopped), f1)" by (metis prod.exhaust)
  obtain text1 where pushes: "stop_pushes (map su_ContentDelta us1) f1 = (text1, f)" "text_out = content @ text1"
    using Cons(5) run(2) push by (auto split: prod.splits)
  let ?out = "out\<lparr>co_state := s'\<rparr>"
  have known: "stop_known ?out" using Cons(4) stopped_apply [OF b] by (simp add: stop_known_def)
  obtain out1 where e: "emitUpdate env u' ?out = (True, out1)" "core (co_state out1) = core st1" "co_filter out1 = f1" "stop_known out1"
    "contents (co_written out1) = contents (co_written out) @ content"
    "\<not> sf_stopped f1 \<Longrightarrow> tool_chunks (co_written out1) = tool_chunks (co_written out) @ su_ToolDeltas u"
    using emit_open [OF assms known, of u' content stopped f1] push u' by auto
  obtain out2 where "stream_events env evs SseEof out1 = (None, out2)" "core (co_state out2) = core t" "co_filter out2 = f" "stop_known out2"
    "contents (co_written out2) = contents (co_written out1) @ text1"
    "\<not> sf_stopped f \<Longrightarrow> tool_chunks (co_written out2) = tool_chunks (co_written out1) @ concat (map su_ToolDeltas us1)"
    using Cons(1) [OF run(1) e(2,4), of text1] pushes(1) e(3) by auto
  then show ?case using b u' e pushes run(2) pushes_stopped_mono [OF pushes(1)] by auto
qed


section \<open>Concrete answers\<close>

definition demo_env :: chat_env where
  "demo_env = \<lparr>env_chat = demo_lib, env_go = \<lparr>unmarshal_object = (\<lambda>s. None), marshal_object = (\<lambda>m. []), base64_raw_url = (\<lambda>s. None),
     parse_rfc3339 = (\<lambda>s. None), parse_http_time = (\<lambda>s. None), decode_error_object = (\<lambda>s. None), sha256_hex = id\<rparr>,
     env_model = ''m'', env_now = unix_epoch, env_writer = (\<lambda>n. True), env_gone = False\<rparr>"

lemma demo_whole:
  "case demo_run True [''delta'', ''end''] of
     (Inr us, st) \<Rightarrow> list_all (\<lambda>u. rune_start (su_ContentDelta u)) us \<and> cs_terminal st \<and> cs_content st = ''Hi''
   | (Inl e, st) \<Rightarrow> False"
  by code_simp


definition demo_request :: chatRequestConversion where
  "demo_request = \<lparr>cc_Responses = [], cc_Metadata = \<lparr>um_Model = ''m'', um_ReasoningEffort = [], um_ServiceTier = [], um_SkipUsage = False\<rparr>,
     cc_Stream = True, cc_IncludeUsage = False, cc_StopSequences = []\<rparr>"


end
