(* ===== verification/User_Properties.thy ===== *)
theory User_Properties
  imports User_Store Health_Properties
begin

text \<open>
  What the user store promises: the constraints of the schema, and one enabled key per user, after any
  sequence of operations; creations and resets that fail change nothing; a reset revokes; which
  token of a request counts; and an update that undoes another one.
\<close>

section \<open>Statements\<close>

lemma store_error_result:
  assumes "store_error op e s = (x, s')"
  shows "(\<exists>e'. x = Inl e') \<and> db s' = db s"
proof -
  have "\<exists>e'. fst (x, s') = Inl e'" "db (snd (x, s')) = db s"
    unfolding assms [symmetric] by (rule store_error_Inl, rule store_error_simps)
  then show ?thesis by simp
qed

lemma sql_elim:
  assumes "sql base op s k = (x, s')"
  obtains (failed) e where "x = Inl e" "db s' = base"
  | (passed) s1 where "db s1 = db s" "clock s1 = clock s" "healthy_store s \<Longrightarrow> healthy_store s1" "k s1 = (x, s')"
proof -
  obtain r s1 where f: "next_fault s = (r, s1)" by (metis surj_pair)
  show thesis
  proof (cases r)
    case None
    have "healthy_store s \<Longrightarrow> healthy_store s1"
      using f by (auto simp: next_fault_def healthy_store_def split: list.splits)
    with None next_fault_keeps [OF f] assms f show ?thesis by (intro passed) (simp_all add: sql_def)
  next
    case (Some e)
    with assms f have "store_error op e (s1\<lparr>db := base\<rparr>) = (x, s')" by (simp add: sql_def)
    from store_error_result [OF this] failed show ?thesis by auto
  qed
qed

lemma sql_mapped_elim:
  assumes "sql_mapped base op violated s k = (x, s')"
  obtains (failed) e where "x = Inl e" "db s' = base"
  | (passed) s1 where "violated = None" "db s1 = db s" "clock s1 = clock s" "healthy_store s \<Longrightarrow> healthy_store s1"
      "k s1 = (x, s')"
proof -
  obtain r s1 where f: "next_fault s = (r, s1)" by (metis surj_pair)
  have err: thesis if "store_error op e (s1\<lparr>db := base\<rparr>) = (x, s')" for e
    using store_error_result [OF that] failed by auto
  show thesis
  proof (cases r)
    case (Some e)
    with assms f err show ?thesis by (auto simp: sql_mapped_def)
  next
    case None
    show ?thesis
    proof (cases violated)
      case (Some e)
      with None assms f err show ?thesis by (auto simp: sql_mapped_def)
    next
      case v: None
      have "healthy_store s \<Longrightarrow> healthy_store s1"
        using f by (auto simp: next_fault_def healthy_store_def split: list.splits)
      with None v next_fault_keeps [OF f] assms f show ?thesis by (intro passed) (simp_all add: sql_mapped_def)
    qed
  qed
qed

lemma ready_elim:
  assumes "ready s k = (x, s')"
  obtains (latched) e where "x = Inl e" "s' = s" | (running) "k s = (x, s')"
  using assms by (auto simp: ready_def split: option.splits)

lemma get_user_cases:
  assumes "GetUser i s = (x, s')"
  shows "db s' = db s \<and> (\<forall>u. x = Inr u \<longrightarrow> clock s' = clock s \<and> (healthy_store s \<longrightarrow> healthy_store s') \<and>
    (\<exists>row. map_of (users (db s)) (trim_space i) = Some row \<and> scan_user (trim_space i, row) = Some (uw_User u) \<and>
      u_ID (uw_User u) = trim_space i))"
  using assms unfolding GetUser_def
proof (cases rule: ready_elim)
  case running
  then show ?thesis
  proof (cases rule: sql_elim)
    case (passed s1)
    have id: "scan_user r = Some v \<Longrightarrow> u_ID v = fst r" for r v by (auto simp: scan_user_def split: option.splits)
    have fst_join: "fst (hd (joined_rows t r)) = r" for t r
      by (simp add: joined_rows_def split: list.split)
    show ?thesis
      using passed
      by (auto simp: scan_joined_def fst_join dest: id dest!: store_error_result split: option.splits prod.splits)
  qed simp
qed simp


section \<open>What each operation can leave behind\<close>

lemma update_users_db [simp]:
  "users (db (update_users f s)) = f (users (db s))" "api_keys (db (update_users f s)) = api_keys (db s)"
  "clock (update_users f s) = clock s" "healthy_store (update_users f s) = healthy_store s"
  by (simp_all add: update_users_def healthy_store_def)

lemma update_keys_db [simp]:
  "users (db (update_keys f s)) = users (db s)" "api_keys (db (update_keys f s)) = f (api_keys (db s))"
  "clock (update_keys f s) = clock s" "healthy_store (update_keys f s) = healthy_store s"
  by (simp_all add: update_keys_def healthy_store_def)

definition with_users :: "((string \<times> user_row) list) \<Rightarrow> ((string \<times> key_row) list) \<Rightarrow> tables \<Rightarrow> tables" where
  "with_users us ks t = t\<lparr>users := us, api_keys := ks\<rparr>"

lemma db_update_users: "db (update_users f s) = with_users (f (users (db s))) (api_keys (db s)) (db s)"
  by (simp add: update_users_def with_users_def)

lemma db_update_keys: "db (update_keys f s) = with_users (users (db s)) (f (api_keys (db s))) (db s)"
  by (simp add: update_keys_def with_users_def)

lemma with_users_simps [simp]:
  "users (with_users us ks t) = us" "api_keys (with_users us ks t) = ks"
  "with_users us ks (with_users us' ks' t) = with_users us ks t"
  by (simp_all add: with_users_def)

lemma create_cases:
  assumes "CreateUser lib kt ut it name enabled s = (x, s')"
  obtains (failed) e where "x = Inl e" "db s' = db s"
  | (created) c userID keyID where "x = Inr c" "u_ID (cu_User c) = userID" "k_ID (cu_APIKey c) = keyID"
      "k_UserID (cu_APIKey c) = userID" "k_Enabled (cu_APIKey c)"
      "user_violation (db s) userID (u_Name (cu_User c)) = None"
      "key_violation (with_users (users (db s) @ [(userID, row_of_user (cu_User c))]) (api_keys (db s)) (db s)) (cu_APIKey c) = None"
      "db s' = with_users (users (db s) @ [(userID, row_of_user (cu_User c))])
         (api_keys (db s) @ [(keyID, row_of_key (cu_APIKey c))]) (db s)"
  using assms unfolding CreateUser_def
proof (cases rule: ready_elim)
  case running
  note run = this
  show ?thesis
  proof (cases "normalizeUserName name")
    case None
    with run failed show ?thesis by auto
  next
    case (Some n)
    show ?thesis
    proof (cases "generateAPIKey kt = None \<or> randomID ''usr'' ut = None \<or> randomID ''key'' it = None")
      case True
      with run Some failed show ?thesis by (auto split: option.splits)
    next
      case False
      then obtain plain userID keyID where tok: "generateAPIKey kt = Some plain" "randomID ''usr'' ut = Some userID"
        "randomID ''key'' it = Some keyID" by auto
      define user where "user = \<lparr>u_ID = userID, u_Name = n, u_Enabled = (case enabled of None \<Rightarrow> True | Some b \<Rightarrow> b),
          u_CreatedAt = clock s, u_UpdatedAt = clock s\<rparr>"
      define key where "key = new_key lib keyID userID plain (clock s) None"
      from run Some tok have "sql (db s) ''begin create user'' s (\<lambda>s1.
          sql_mapped (db s) ''insert user'' (user_violation (db s1) userID n) s1 (\<lambda>s1.
          let s1 = update_users (\<lambda>us. us @ [(userID, row_of_user user)]) s1 in
          sql_mapped (db s) ''insert user API key'' (key_violation (db s1) key) s1 (\<lambda>s1.
          let s1 = update_keys (\<lambda>ks. ks @ [(keyID, row_of_key key)]) s1 in
          sql (db s) ''commit create user'' s1 (\<lambda>s1.
          (Inr \<lparr>cu_User = user, cu_APIKey = key, PlaintextAPIKey = plain\<rparr>, s1))))) = (x, s')"
        by (simp add: Let_def user_def key_def)
      then show ?thesis
      proof (cases rule: sql_elim)
        case (passed s1)
        from passed(4) show ?thesis
        proof (cases rule: sql_mapped_elim)
          case one: (passed s2)
          from one(5) [unfolded Let_def] show ?thesis
          proof (cases rule: sql_mapped_elim)
            case two: (passed s3)
            from two(5) show ?thesis
            proof (cases rule: sql_elim)
              case three: (passed s4)
              show ?thesis
                by (rule created [of "\<lparr>cu_User = user, cu_APIKey = key, PlaintextAPIKey = plain\<rparr>" userID keyID])
                  (use three two one passed in \<open>simp_all add: user_def key_def new_key_def db_update_users db_update_keys\<close>)
            qed (auto intro: failed)
          qed (auto intro: failed)
        qed (auto intro: failed)
      qed (auto intro: failed)
    qed
  qed
qed (auto intro: failed)


definition disabled_rows :: "string \<Rightarrow> (string \<times> key_row) list \<Rightarrow> (string \<times> key_row) list" where
  "disabled_rows user = map (\<lambda>r. if kr_user_id (snd r) = user \<and> kr_enabled (snd r)
       then (fst r, (snd r)\<lparr>kr_enabled := False\<rparr>) else r)"

lemma disable_keys_rows: "disable_keys user = update_keys (disabled_rows user)"
  by (simp add: disable_keys_def disabled_rows_def fun_eq_iff)

lemma reset_cases:
  assumes "ResetUserAPIKey lib kt it uid s = (x, s')"
  obtains (failed) e where "x = Inl e" "db s' = db s"
  | (rotated) c plain row where "x = Inr c" "u_ID (cu_User c) = trim_space uid"
      "map_of (users (db s)) (trim_space uid) = Some row" "scan_user (trim_space uid, row) = Some (cu_User c)"
      "generateAPIKey kt = Some plain" "PlaintextAPIKey c = plain"
      "cu_APIKey c = new_key lib (k_ID (cu_APIKey c)) (trim_space uid) plain (clock s) (Some (clock s))"
      "key_violation (with_users (users (db s)) (disabled_rows (trim_space uid) (api_keys (db s))) (db s)) (cu_APIKey c) = None"
      "db s' = with_users (users (db s))
         (disabled_rows (trim_space uid) (api_keys (db s)) @ [(k_ID (cu_APIKey c), row_of_key (cu_APIKey c))]) (db s)"
      "clock s' = clock s" "healthy_store s \<Longrightarrow> healthy_store s'"
  using assms unfolding ResetUserAPIKey_def
proof (cases rule: ready_elim)
  case running
  obtain y s0 where get: "GetUser uid s = (y, s0)" by (metis surj_pair)
  note got = get_user_cases [OF get]
  show ?thesis
  proof (cases y)
    case (Inl e)
    with running get got failed show ?thesis by auto
  next
    case (Inr found)
    with got obtain row where found: "map_of (users (db s)) (trim_space uid) = Some row"
      "scan_user (trim_space uid, row) = Some (uw_User found)" "u_ID (uw_User found) = trim_space uid"
      "db s0 = db s" "clock s0 = clock s" "healthy_store s \<Longrightarrow> healthy_store s0" by auto
    show ?thesis
    proof (cases "generateAPIKey kt = None \<or> randomID ''key'' it = None")
      case True
      with running get Inr found failed show ?thesis by (auto simp: Let_def split: option.splits)
    next
      case False
      then obtain plain keyID where tok: "generateAPIKey kt = Some plain" "randomID ''key'' it = Some keyID" by auto
      define key where "key = new_key lib keyID (trim_space uid) plain (clock s) (Some (clock s))"
      from running get Inr tok found have "sql (db s0) ''begin reset API key'' s0 (\<lambda>s1.
          sql (db s0) ''disable previous API keys'' s1 (\<lambda>s1.
          let s1 = disable_keys (trim_space uid) s1 in
          sql_mapped (db s0) ''insert replacement API key'' (key_violation (db s1) key) s1 (\<lambda>s1.
          let s1 = update_keys (\<lambda>ks. ks @ [(keyID, row_of_key key)]) s1 in
          sql (db s0) ''commit reset API key'' s1 (\<lambda>s1.
          (Inr \<lparr>cu_User = uw_User found, cu_APIKey = key, PlaintextAPIKey = plain\<rparr>, s1))))) = (x, s')"
        by (simp add: Let_def key_def)
      then show ?thesis
      proof (cases rule: sql_elim)
        case one: (passed s1)
        from one(4) show ?thesis
        proof (cases rule: sql_elim)
          case two: (passed s2)
          from two(4) [unfolded Let_def disable_keys_rows] show ?thesis
          proof (cases rule: sql_mapped_elim)
            case three: (passed s3)
            from three(5) show ?thesis
            proof (cases rule: sql_elim)
              case four: (passed s4)
              have ID: "k_ID key = keyID" by (simp add: key_def new_key_def)
              show ?thesis
                by (rule rotated [of "\<lparr>cu_User = uw_User found, cu_APIKey = key, PlaintextAPIKey = plain\<rparr>" row plain])
                  (use four three two one found tok ID in \<open>simp_all add: key_def db_update_keys\<close>)
            qed (use found in \<open>auto intro: failed\<close>)
          qed (use found in \<open>auto intro: failed\<close>)
        qed (use found in \<open>auto intro: failed\<close>)
      qed (use found in \<open>auto intro: failed\<close>)
    qed
  qed
qed (auto intro: failed)

lemma update_write_cases:
  assumes "update_user_write i current name0 enabled0 s = (x, s')"
  obtains (kept) e where "x = Inl e" "db s' = db s"
  | (written) name where "name_taken (db s) i name = None"
      "db s' = db (set_user i name (case enabled0 of None \<Rightarrow> u_Enabled current | Some b \<Rightarrow> b) (clock s) s)"
proof (cases "case name0 of None \<Rightarrow> Some (u_Name current) | Some n \<Rightarrow> normalizeUserName n")
  case None
  with assms kept show ?thesis by (auto simp: update_user_write_def)
next
  case (Some name)
  let ?en = "case enabled0 of None \<Rightarrow> u_Enabled current | Some b \<Rightarrow> b"
  from Some assms have "sql_mapped (db s) ''update user'' (name_taken (db s) i name) s (\<lambda>s.
      GetUser i (set_user i name ?en (clock s) s)) = (x, s')" by (simp add: update_user_write_def Let_def)
  then show ?thesis
  proof (cases rule: sql_mapped_elim)
    case (failed e)
    with kept show ?thesis by blast
  next
    case (passed s1)
    have "db (set_user i name ?en (clock s) s1) = db (set_user i name ?en (clock s) s)"
      using passed(2) by (simp add: set_user_def db_update_users)
    with get_user_cases [OF passed(5)] passed(1,3) written show ?thesis by simp
  qed
qed

lemma authenticate_cases:
  assumes "AuthenticateAPIKey lib key s = (x, s')"
  shows "\<exists>t j. db s' = db s \<or> db s' = with_users (users (db s))
     (map (\<lambda>r. if fst r = j then (fst r, (snd r)\<lparr>kr_last_used_at := t\<rparr>) else r) (api_keys (db s))) (db s)"
  using assms unfolding AuthenticateAPIKey_def
proof (cases rule: ready_elim)
  case running
  show ?thesis
  proof (cases "trim_space key = []")
    case True
    with running show ?thesis by auto
  next
    case False
    with running have "sql (db s) ''authenticate API key'' s (\<lambda>s.
       case find_hash (db s) (hashAPIKey lib (trim_space key)) of
         None \<Rightarrow> (Inl ErrInvalidAPIKey, s)
       | Some kr \<Rightarrow>
           (case map_of (users (db s)) (kr_user_id (snd kr)) of
              None \<Rightarrow> (Inl ErrInvalidAPIKey, s)
            | Some ur \<Rightarrow>
                (case scan_joined ((kr_user_id (snd kr), ur), Some kr) of
                   None \<Rightarrow> store_error ''authenticate API key'' bad_time s
                 | Some (u, None) \<Rightarrow> (Inl ErrInvalidAPIKey, s)
                 | Some (u, Some k) \<Rightarrow>
                     if \<not> k_Enabled k then (Inl ErrInvalidAPIKey, s)
                     else if \<not> u_Enabled u then (Inl ErrDisabledCredential, s)
                     else sql (db s) ''update API key last used'' s (\<lambda>s.
                       (Inr (u, k\<lparr>LastUsedAt := Some (clock s)\<rparr>),
                        update_keys (map (\<lambda>r. if fst r = k_ID k
                          then (fst r, (snd r)\<lparr>kr_last_used_at := Some (formatDBTime (clock s))\<rparr>) else r)) s))))) = (x, s')"
      by (simp add: Let_def)
    then show ?thesis
    proof (cases rule: sql_elim)
      case (passed s1)
      from passed(4) show ?thesis
        using passed(1)
        by (auto simp: db_update_keys elim!: sql_elim dest!: store_error_result
            split: option.splits prod.splits if_splits) blast+
    qed blast
  qed
qed blast


section \<open>The schema's invariant\<close>

definition users_inv :: "tables \<Rightarrow> bool" where
  "users_inv t \<longleftrightarrow>
     distinct (map fst (users t)) \<and> distinct (map (\<lambda>r. nocase (ur_name (snd r))) (users t)) \<and>
     distinct (map fst (api_keys t)) \<and> distinct (map (\<lambda>r. kr_key_hash (snd r)) (api_keys t)) \<and>
     (\<forall>r\<in>set (api_keys t). kr_user_id (snd r) \<in> fst ` set (users t)) \<and>
     (\<forall>i\<in>fst ` set (users t). length (enabled_keys t i) = 1)"

lemma users_inv_db: "db s' = db s \<Longrightarrow> users_inv (db s) \<Longrightarrow> users_inv (db s')"
  by simp

lemma users_inv_create:
  assumes inv: "users_inv t" and u: "user_violation t i name = None"
    and k: "key_violation (with_users (users t @ [(i, u)]) (api_keys t) t) key = None"
    and fields: "ur_name u = name" "k_UserID key = i" "k_Enabled key"
  shows "users_inv (with_users (users t @ [(i, u)]) (api_keys t @ [(k_ID key, row_of_key key)]) t)"
proof -
  have i: "i \<notin> fst ` set (users t)" and n: "nocase name \<notin> (\<lambda>r. nocase (ur_name (snd r))) ` set (users t)"
    using u by (auto simp: user_violation_def map_of_eq_None_iff image_iff split: if_splits)
  have key: "k_ID key \<notin> fst ` set (api_keys t)" "KeyHash key \<notin> (\<lambda>r. kr_key_hash (snd r)) ` set (api_keys t)"
    using k by (auto simp: key_violation_def map_of_eq_None_iff image_iff split: if_splits)
  have none: "filter (\<lambda>r. kr_user_id (snd r) = i \<and> kr_enabled (snd r)) (api_keys t) = []"
    using inv i by (auto simp: users_inv_def filter_empty_conv)
  have row: "kr_user_id (row_of_key key) = i" "kr_enabled (row_of_key key)" "kr_key_hash (row_of_key key) = KeyHash key"
    using fields by (simp_all add: row_of_key_def)
  show ?thesis
    using inv i n key none row fields(1)
    by (auto simp: users_inv_def enabled_keys_def)
qed

lemma disabled_fst [simp]: "map fst (disabled_rows user ks) = map fst ks"
  by (induction ks) (auto simp: disabled_rows_def)

lemma disabled_hash [simp]: "map (\<lambda>r. kr_key_hash (snd r)) (disabled_rows user ks) = map (\<lambda>r. kr_key_hash (snd r)) ks"
  by (induction ks) (auto simp: disabled_rows_def)

lemma disabled_none: "filter (\<lambda>r. kr_user_id (snd r) = user \<and> kr_enabled (snd r)) (disabled_rows user ks) = []"
  by (auto simp: disabled_rows_def filter_empty_conv)

lemma disabled_other:
  "i \<noteq> user \<Longrightarrow> length (filter (\<lambda>r. kr_user_id (snd r) = i \<and> kr_enabled (snd r)) (disabled_rows user ks))
    = length (filter (\<lambda>r. kr_user_id (snd r) = i \<and> kr_enabled (snd r)) ks)"
  by (induction ks) (auto simp: disabled_rows_def)

lemma disabled_users: "r \<in> set (disabled_rows user ks) \<Longrightarrow> \<exists>r'\<in>set ks. kr_user_id (snd r) = kr_user_id (snd r')"
  by (force simp: disabled_rows_def)

lemma users_inv_reset:
  assumes inv: "users_inv t" and k: "key_violation (with_users (users t) (disabled_rows i (api_keys t)) t) key = None"
    and fields: "k_UserID key = i" "k_Enabled key" "i \<in> fst ` set (users t)"
  shows "users_inv (with_users (users t) (disabled_rows i (api_keys t) @ [(k_ID key, row_of_key key)]) t)"
proof -
  have fs: "fst ` set (disabled_rows i ks) = fst ` set ks"
    "(\<lambda>r. kr_key_hash (snd r)) ` set (disabled_rows i ks) = (\<lambda>r. kr_key_hash (snd r)) ` set ks" for ks
    by (metis disabled_fst set_map) (metis disabled_hash set_map)
  have key: "k_ID key \<notin> fst ` set (api_keys t)" "KeyHash key \<notin> (\<lambda>r. kr_key_hash (snd r)) ` set (api_keys t)"
    using k unfolding fs(1) [symmetric, of "api_keys t"] fs(2) [symmetric, of "api_keys t"]
    by (auto simp: key_violation_def map_of_eq_None_iff image_iff split: if_splits)
  have row: "kr_user_id (row_of_key key) = i" "kr_enabled (row_of_key key)" "kr_key_hash (row_of_key key) = KeyHash key"
    using fields by (simp_all add: row_of_key_def)
  have one: "length (filter (\<lambda>r. kr_user_id (snd r) = j \<and> kr_enabled (snd r))
      (disabled_rows i (api_keys t) @ [(k_ID key, row_of_key key)])) = 1" if "j \<in> fst ` set (users t)" for j
    using inv that row disabled_none [of i "api_keys t"] disabled_other [of j i "api_keys t"]
    by (cases "j = i") (auto simp: users_inv_def enabled_keys_def)
  have "\<forall>r\<in>set (disabled_rows i (api_keys t) @ [(k_ID key, row_of_key key)]). kr_user_id (snd r) \<in> fst ` set (users t)"
    using inv row fields(3) by (force simp: users_inv_def dest!: disabled_users)
  then show ?thesis
    using inv key row one by (simp add: users_inv_def enabled_keys_def fs)
qed

lemma users_inv_update:
  assumes inv: "users_inv (db s)" and n: "name_taken (db s) i name = None"
  shows "users_inv (db (set_user i name en now s))"
proof -
  let ?f = "\<lambda>r. if fst r = i then (i, (snd r)\<lparr>ur_name := name, ur_enabled := en, ur_updated_at := formatDBTime now\<rparr>) else r"
  have ids: "map fst (map ?f us) = map fst us" for us by (induction us) auto
  have free: "nocase (ur_name (snd r)) \<noteq> nocase name" if "r \<in> set (users (db s))" "fst r \<noteq> i" "i \<in> fst ` set (users (db s))" for r
    using n that by (auto simp: name_taken_def map_of_eq_None_iff split: if_splits)
  have names: "distinct (map (\<lambda>r. nocase (ur_name (snd r))) (map ?f us))"
    if "distinct (map fst us)" "distinct (map (\<lambda>r. nocase (ur_name (snd r))) us)"
      "\<forall>r\<in>set us. fst r \<noteq> i \<longrightarrow> i \<in> fst ` set us \<longrightarrow> nocase (ur_name (snd r)) \<noteq> nocase name" for us
    using that
  proof (induction us)
    case (Cons u us)
    show ?case
    proof (cases "fst u = i")
      case True
      then have "i \<notin> fst ` set us" using Cons.prems(1) by auto
      then have "map ?f us = us" by (intro map_idI) force
      then show ?thesis using Cons.prems True by (fastforce simp: image_iff)
    next
      case False
      have "nocase (ur_name (snd u)) \<notin> set (map (\<lambda>r. nocase (ur_name (snd r))) (map ?f us))"
      proof
        assume "nocase (ur_name (snd u)) \<in> set (map (\<lambda>r. nocase (ur_name (snd r))) (map ?f us))"
        then obtain r where r: "r \<in> set us" "nocase (ur_name (snd u)) = nocase (ur_name (snd (?f r)))" by auto
        show False
        proof (cases "fst r = i")
          case True
          with r have "i \<in> fst ` set (u # us)" "nocase (ur_name (snd u)) = nocase name" by auto
          with Cons.prems(3) False show False by auto
        next
          case False
          with r Cons.prems(2) show False by (auto simp: image_iff)
        qed
      qed
      moreover have "distinct (map (\<lambda>r. nocase (ur_name (snd r))) (map ?f us))"
        using Cons.prems by (intro Cons.IH) auto
      ultimately show ?thesis using False by (simp del: map_map)
    qed
  qed simp
  have fs: "fst ` set (map ?f us) = fst ` set us" for us by (simp only: set_map [symmetric] ids)
  have "distinct (map (\<lambda>r. nocase (ur_name (snd r))) (map ?f (users (db s))))"
    by (rule names) (use inv free in \<open>auto simp: users_inv_def\<close>)
  then show ?thesis
    using inv unfolding users_inv_def set_user_def update_users_db enabled_keys_def fs ids by blast
qed

lemma users_inv_used:
  assumes "users_inv t"
  shows "users_inv (with_users (users t) (map (\<lambda>r. if fst r = j then (fst r, (snd r)\<lparr>kr_last_used_at := x\<rparr>) else r) (api_keys t)) t)"
proof -
  let ?f = "\<lambda>r. if fst r = j then (fst r, (snd r)\<lparr>kr_last_used_at := x\<rparr>) else r"
  have same: "map fst (map ?f ks) = map fst ks" "map (\<lambda>r. kr_key_hash (snd r)) (map ?f ks) = map (\<lambda>r. kr_key_hash (snd r)) ks"
    "length (filter (\<lambda>r. kr_user_id (snd r) = i \<and> kr_enabled (snd r)) (map ?f ks))
      = length (filter (\<lambda>r. kr_user_id (snd r) = i \<and> kr_enabled (snd r)) ks)" for ks i
    by (induction ks) auto
  have "\<forall>r\<in>set (map ?f (api_keys t)). kr_user_id (snd r) \<in> fst ` set (users t)"
    using assms by (force simp: users_inv_def)
  then show ?thesis
    using assms unfolding users_inv_def enabled_keys_def with_users_simps same by blast
qed

text \<open>The operations on users, with the write half of an update on its own as other requests may see it.\<close>

datatype user_op =
    OpCreate "string option" "string option" "string option" string "bool option"
  | OpList "bool option"
  | OpGet string
  | OpUpdate string "string option" "bool option"
  | OpUpdateWrite string UserRecord "string option" "bool option"
  | OpReset "string option" "string option" string
  | OpAuthenticate string

definition user_step :: "go_lib \<Rightarrow> user_op \<Rightarrow> user_store \<Rightarrow> user_store" where
  "user_step lib op s =
     (case op of
        OpCreate kt ut it name en \<Rightarrow> snd (CreateUser lib kt ut it name en s)
      | OpList en \<Rightarrow> snd (ListUsers en s)
      | OpGet i \<Rightarrow> snd (GetUser i s)
      | OpUpdate i name en \<Rightarrow> snd (UpdateUser i name en s)
      | OpUpdateWrite i current name en \<Rightarrow> snd (update_user_write i current name en s)
      | OpReset kt it i \<Rightarrow> snd (ResetUserAPIKey lib kt it i s)
      | OpAuthenticate key \<Rightarrow> snd (AuthenticateAPIKey lib key s))"

lemma scan_all_db: "scan_all rs acc s = (x, s') \<Longrightarrow> db s' = db s"
proof (induction rs arbitrary: acc s)
  case Nil
  then show ?case by (auto elim!: sql_elim)
next
  case (Cons r rs)
  from Cons.prems [unfolded scan_all.simps] show ?case
  proof (cases rule: sql_elim)
    case (passed s1)
    then show ?thesis
      by (auto dest!: store_error_result Cons.IH split: option.splits prod.splits)
  qed simp
qed

lemma user_step_inv:
  assumes "users_inv (db s)"
  shows "users_inv (db (user_step lib op s))"
proof (cases op)
  case (OpCreate kt ut it name en)
  obtain x s' where run: "CreateUser lib kt ut it name en s = (x, s')" by (metis surj_pair)
  from run have "users_inv (db s')"
  proof (cases rule: create_cases)
    case (created c userID keyID)
    show ?thesis
      unfolding created(8) created(3) [symmetric]
      by (rule users_inv_create [OF assms created(6) created(7)]) (simp_all add: row_of_user_def created)
  qed (simp add: assms)
  with run OpCreate show ?thesis by (simp add: user_step_def)
next
  case (OpList en)
  have "db (snd (ListUsers en s)) = db s"
  proof -
    obtain x s' where run: "ListUsers en s = (x, s')" by (metis surj_pair)
    from run [unfolded ListUsers_def] have "db s' = db s"
    proof (cases rule: ready_elim)
      case running
      then show ?thesis by (cases rule: sql_elim) (auto simp: Let_def dest!: scan_all_db)
    qed simp
    with run show ?thesis by simp
  qed
  with OpList assms show ?thesis by (simp add: user_step_def)
next
  case (OpGet i)
  obtain x s' where run: "GetUser i s = (x, s')" by (metis surj_pair)
  with get_user_cases [OF run] OpGet assms show ?thesis by (simp add: user_step_def)
next
  case (OpUpdateWrite i current name en)
  obtain x s' where run: "update_user_write i current name en s = (x, s')" by (metis surj_pair)
  from run have "users_inv (db s')"
  proof (cases rule: update_write_cases)
    case (written n)
    with users_inv_update [OF assms written(1)] show ?thesis by simp
  qed (simp add: assms)
  with run OpUpdateWrite show ?thesis by (simp add: user_step_def)
next
  case (OpUpdate i name en)
  obtain x s' where run: "UpdateUser i name en s = (x, s')" by (metis surj_pair)
  from run [unfolded UpdateUser_def] have "users_inv (db s')"
  proof (cases rule: ready_elim)
    case running
    obtain y s1 where get: "GetUser (trim_space i) s = (y, s1)" by (metis surj_pair)
    have inv1: "users_inv (db s1)" using get_user_cases [OF get] assms by simp
    show ?thesis
    proof (cases "trim_space i = [] \<or> (\<exists>e. y = Inl e)")
      case True
      with running get inv1 assms show ?thesis by (auto simp: Let_def split: if_splits)
    next
      case False
      then obtain cur where y: "y = Inr cur" by (cases y) auto
      with running get False have "update_user_write (trim_space i) (uw_User cur) name en s1 = (x, s')" by (simp add: Let_def)
      then show ?thesis
      proof (cases rule: update_write_cases)
        case (written n)
        with users_inv_update [OF inv1 written(1)] show ?thesis by simp
      qed (simp add: inv1)
    qed
  qed (simp add: assms)
  with run OpUpdate show ?thesis by (simp add: user_step_def)
next
  case (OpReset kt it i)
  obtain x s' where run: "ResetUserAPIKey lib kt it i s = (x, s')" by (metis surj_pair)
  from run have "users_inv (db s')"
  proof (cases rule: reset_cases)
    case (rotated c plain row)
    have k: "k_UserID (cu_APIKey c) = trim_space i" "k_Enabled (cu_APIKey c)"
      by (subst rotated(7), simp add: new_key_def)+
    have "trim_space i \<in> fst ` set (users (db s))" using map_of_SomeD [OF rotated(3)] by force
    from users_inv_reset [OF assms rotated(8) k this] show ?thesis by (simp add: rotated(9))
  qed (simp add: assms)
  with run OpReset show ?thesis by (simp add: user_step_def)
next
  case (OpAuthenticate key)
  obtain x s' where run: "AuthenticateAPIKey lib key s = (x, s')" by (metis surj_pair)
  from authenticate_cases [OF run] users_inv_used [OF assms] assms have "users_inv (db s')" by auto
  with run OpAuthenticate show ?thesis by (simp add: user_step_def)
qed

text \<open>
  C9: After any sequence of operations on users and keys, interleaved as the requests happen to be, with
  failing statements and failing randomness anywhere: user names differ by more than ASCII case, key
  identifiers and hashes are unique, every key belongs to a user, and every user has exactly one
  enabled key.
\<close>

theorem one_enabled_key:
  assumes "users_inv (db s)"
  shows "users_inv (db (fold (user_step lib) ops s))"
  using assms by (induction ops arbitrary: s) (auto intro: user_step_inv)

theorem one_enabled_key_witness:
  "users_inv (db (fold (user_step (demo_lib\<lparr>sha256_hex := rev\<rparr>)) [OpCreate (Some ''k'') (Some ''u'') (Some ''i'') ''Ann'' None,
      OpReset (Some ''m'') (Some ''j'') ''usr_u''] (new_store 7)))"
  by (rule one_enabled_key) (simp add: users_inv_def new_store_def empty_tables_def)

section \<open>A reset revokes\<close>

lemma scan_key_disabled:
  "scan_key r = Some k \<Longrightarrow> scan_key (fst r, (snd r)\<lparr>kr_enabled := False\<rparr>) = Some (k\<lparr>k_Enabled := False\<rparr>)"
  by (auto simp: scan_key_def split: option.splits)

lemma find_disabled_rows:
  assumes "find (\<lambda>r. kr_key_hash (snd r) = h) ks = Some r" "kr_user_id (snd r) = user" "kr_enabled (snd r)"
  shows "find (\<lambda>r. kr_key_hash (snd r) = h) (disabled_rows user ks @ rest) = Some (fst r, (snd r)\<lparr>kr_enabled := False\<rparr>)"
  using assms by (induction ks) (auto simp: disabled_rows_def split: if_splits)

lemma find_fresh_hash:
  assumes "\<forall>r\<in>set ks. kr_key_hash (snd r) \<noteq> h" "kr_key_hash (snd n) = h"
  shows "find (\<lambda>r. kr_key_hash (snd r) = h) (ks @ [n]) = Some n"
  using assms by (induction ks) auto

lemma scan_new_key:
  assumes "db_representable t"
  shows "scan_key (k_ID (new_key lib i user plain t (Some t)), row_of_key (new_key lib i user plain t (Some t)))
    = Some (new_key lib i user plain t (Some t))"
  using formatDBTime_roundtrip [OF assms]
  by (simp add: scan_key_def row_of_key_def new_key_def parse_nullable_def)

lemma authenticated_key:
  assumes "healthy_store s" "fst (AuthenticateAPIKey lib key s) = Inr (u, k)"
  obtains kr ur k0 where "find_hash (db s) (hashAPIKey lib (trim_space key)) = Some kr" "trim_space key \<noteq> []"
    "map_of (users (db s)) (kr_user_id (snd kr)) = Some ur" "scan_user (kr_user_id (snd kr), ur) = Some u"
    "scan_key kr = Some k0" "k_Enabled k0" "u_Enabled u"
  using assms
  by (auto simp: AuthenticateAPIKey_def Let_def scan_joined_def split: if_splits option.splits prod.splits)

lemma scan_fields:
  "scan_user r = Some u \<Longrightarrow> u_ID u = fst r \<and> u_Enabled u = ur_enabled (snd r)"
  "scan_key kr = Some k \<Longrightarrow> k_ID k = fst kr \<and> k_Enabled k = kr_enabled (snd kr)"
  by (auto simp: scan_user_def scan_key_def split: option.splits)

text \<open>
  C10: On a store without failures, when a key that authenticates is reset, the old key is invalid from
  then on, and the new key authenticates the same user at once.
\<close>

theorem reset_revokes:
  assumes "healthy_store s" "fst (AuthenticateAPIKey lib old s) = Inr (u, k)" "trim_space uid = u_ID u"
    and "ResetUserAPIKey lib kt it uid s = (Inr c, s')"
    and "db_representable (clock s)" "trim_space (PlaintextAPIKey c) = PlaintextAPIKey c"
  shows "fst (AuthenticateAPIKey lib old s') = Inl ErrInvalidAPIKey \<and>
    fst (AuthenticateAPIKey lib (PlaintextAPIKey c) s') = Inr (u, (cu_APIKey c)\<lparr>LastUsedAt := Some (clock s)\<rparr>)"
proof -
  from assms(1,2) obtain kr ur k0 where old: "find_hash (db s) (hashAPIKey lib (trim_space old)) = Some kr" "trim_space old \<noteq> []"
    "map_of (users (db s)) (kr_user_id (snd kr)) = Some ur" "scan_user (kr_user_id (snd kr), ur) = Some u"
    "scan_key kr = Some k0" "k_Enabled k0" "u_Enabled u" by (rule authenticated_key)
  have uid: "kr_user_id (snd kr) = trim_space uid" and en: "kr_enabled (snd kr)"
    using scan_fields(1) [OF old(4)] scan_fields(2) [OF old(5)] old(6) assms(3) by simp_all
  from assms(4) show ?thesis
  proof (cases rule: reset_cases)
    case (rotated c' plain row)
    note rotated = rotated(2-) [folded rotated(1) [simplified]]
    have s': "healthy_store s'" using rotated(10) assms(1) by blast
    have u: "cu_User c = u" "row = ur" using rotated(2,3) old(3,4) uid by simp_all
    have "find_hash (db s') (hashAPIKey lib (trim_space old)) = Some (fst kr, (snd kr)\<lparr>kr_enabled := False\<rparr>)"
      using find_disabled_rows [OF old(1) [unfolded find_hash_def] uid en] by (simp add: find_hash_def rotated(8))
    then have dead: "fst (AuthenticateAPIKey lib old s') = Inl ErrInvalidAPIKey"
      using s' old scan_key_disabled [OF old(5)]
      by (simp add: AuthenticateAPIKey_def Let_def scan_joined_def rotated(8))
    have nk: "KeyHash (cu_APIKey c) = hashAPIKey lib plain"
      "k_Enabled (cu_APIKey c)" "k_UserID (cu_APIKey c) = trim_space uid"
      by (subst rotated(6), simp add: new_key_def)+
    have fresh: "\<forall>r\<in>set (disabled_rows (trim_space uid) (api_keys (db s))). kr_key_hash (snd r) \<noteq> hashAPIKey lib plain"
      using rotated(7) by (auto simp: key_violation_def nk split: if_splits)
    have found: "find_hash (db s') (hashAPIKey lib plain) = Some (k_ID (cu_APIKey c), row_of_key (cu_APIKey c))"
      using find_fresh_hash [OF fresh] by (simp add: find_hash_def rotated(8) row_of_key_def nk)
    have scan: "scan_key (k_ID (cu_APIKey c), row_of_key (cu_APIKey c)) = Some (cu_APIKey c)"
      using scan_new_key [OF assms(5), of lib "k_ID (cu_APIKey c)" "trim_space uid" plain, folded rotated(6)] .
    have "plain \<noteq> []" using rotated(4) by (auto simp: generateAPIKey_def apiKeyPrefix_def)
    then have "fst (AuthenticateAPIKey lib plain s') = Inr (u, (cu_APIKey c)\<lparr>LastUsedAt := Some (clock s)\<rparr>)"
      using s' found scan old(3,4,7) uid assms(6) rotated(5) nk
      by (simp add: AuthenticateAPIKey_def Let_def scan_joined_def rotated(8,9) row_of_key_def)
    with dead rotated(5) show ?thesis by simp
  qed simp
qed

section \<open>An update that undoes another\<close>

lemma map_of_set_user:
  "map_of (map (\<lambda>r. if fst r = i then (i, f (snd r)) else r) us) i = map_option f (map_of us i)"
  by (induction us) auto

lemma healthy_sql_mapped: "faults s = [] \<Longrightarrow> sql_mapped base op None s k = k s"
  by (simp add: sql_mapped_def next_fault_def)

lemma get_user_keeps: "faults s = [] \<Longrightarrow> db (snd (GetUser i s)) = db s \<and> faults (snd (GetUser i s)) = []"
  by (auto simp: GetUser_def ready_def sql_def next_fault_def split: option.split prod.split)

lemma set_user_row:
  "map_of (users (db (set_user i name en now s))) i
    = map_option (\<lambda>r. r\<lparr>ur_name := name, ur_enabled := en, ur_updated_at := formatDBTime now\<rparr>) (map_of (users (db s)) i)"
  unfolding set_user_def update_users_db by (rule map_of_set_user)

lemma set_user_others:
  "filter (\<lambda>r. fst r \<noteq> i) (users (db (set_user i name en now s))) = filter (\<lambda>r. fst r \<noteq> i) (users (db s))"
proof -
  have "filter (\<lambda>r. fst r \<noteq> i) (map (\<lambda>r. if fst r = i then (i, f (snd r)) else r) us) = filter (\<lambda>r. fst r \<noteq> i) us"
    for f and us :: "(string \<times> user_row) list" by (induction us) auto
  then show ?thesis unfolding set_user_def update_users_db .
qed

lemma name_taken_filter:
  "name_taken t i n = (if map_of (users t) i \<noteq> None \<and>
     (\<exists>r\<in>set (filter (\<lambda>r. fst r \<noteq> i) (users t)). nocase (ur_name (snd r)) = nocase n)
   then Some (unique_failed ''users.name'') else None)"
  by (simp add: name_taken_def Bex_def conj_assoc)

lemma name_taken_set_user: "name_taken (db (set_user i name en now s)) i n = name_taken (db s) i n"
  unfolding name_taken_filter set_user_others set_user_row by simp

lemma set_user_faults [simp]: "faults (set_user i name en now s) = faults s"
  by (simp add: set_user_def update_users_def)

text \<open>
  A request that renames a user reads the user and later writes both columns. When an operator
  disables the user in between, the renaming enables the user again, although it did not ask to.
\<close>

theorem rename_undoes_disable:
  assumes "healthy_store s" "i \<noteq> []" "trim_space i = i"
    and "GetUser i s = (Inr current, s1)" "u_Enabled (uw_User current)"
    and "s2 = snd (UpdateUser i None (Some False) s1)"
    and "normalizeUserName name0 = Some name" "name_taken (db s) i name = None"
    and "name_taken (db s) i (u_Name (uw_User current)) = None"
    and "s3 = snd (update_user_write i (uw_User current) (Some name0) None s2)"
  shows "(\<exists>row. map_of (users (db s2)) i = Some row \<and> \<not> ur_enabled row) \<and>
    (\<exists>row. map_of (users (db s3)) i = Some row \<and> ur_enabled row)"
proof -
  let ?c = "uw_User current"
  let ?t = "set_user i (u_Name ?c) False (clock s) s"
  have s1: "s1 = s" using assms(1,4) by (auto simp: GetUser_def split: option.splits prod.splits)
  obtain row where row: "map_of (users (db s)) i = Some row" using get_user_cases [OF assms(4)] assms(3) by auto
  have f: "faults s = []" using assms(1) by (simp add: healthy_store_def)
  have s2: "s2 = snd (GetUser i ?t)"
    using assms(1-4,6,9) f s1 by (simp add: UpdateUser_def Let_def update_user_write_def healthy_sql_mapped)
  have k2: "db s2 = db ?t" "faults s2 = []" using get_user_keeps [of ?t i] f by (simp_all add: s2)
  have s3: "s3 = snd (GetUser i (set_user i name True (clock s2) s2))"
    using assms(5,7,8,10) k2 by (simp add: update_user_write_def Let_def healthy_sql_mapped name_taken_set_user)
  have "db s3 = db (set_user i name True (clock s2) s2)"
    using get_user_keeps [of "set_user i name True (clock s2) s2" i] k2(2) by (simp add: s3)
  then show ?thesis using row by (simp add: k2(1) set_user_row)
qed

section \<open>Concrete runs\<close>

definition key_lib :: go_lib where "key_lib = demo_lib\<lparr>sha256_hex := rev\<rparr>"

definition demo_users :: user_store where
  "demo_users = (new_store 7)\<lparr>db := empty_tables\<lparr>
     users := [(''usr_u'', \<lparr>ur_name = ''Ann'', ur_enabled = True, ur_created_at = formatDBTime 7, ur_updated_at = formatDBTime 7\<rparr>)],
     api_keys := [(''key_i'', row_of_key (new_key key_lib ''key_i'' ''usr_u'' ''cop_k'' 7 None))]\<rparr>\<rparr>"

lemma key_lib_hash [simp]: "hashAPIKey key_lib key = rev key"
  by (simp add: hashAPIKey_def key_lib_def)

lemma demo_users_simps [simp]:
  "healthy_store demo_users" "clock demo_users = 7"
  "users (db demo_users) = [(''usr_u'', \<lparr>ur_name = ''Ann'', ur_enabled = True, ur_created_at = formatDBTime 7, ur_updated_at = formatDBTime 7\<rparr>)]"
  "api_keys (db demo_users) = [(''key_i'', row_of_key (new_key key_lib ''key_i'' ''usr_u'' ''cop_k'' 7 None))]"
  by (simp_all add: demo_users_def healthy_store_def new_store_def empty_tables_def)

lemma demo_seven: "db_representable 7" "parseDBTime (formatDBTime 7) = Some 7"
proof -
  show "db_representable 7" by (simp add: db_representable_def seconds_of_def max_db_seconds_def go_time)
  then show "parseDBTime (formatDBTime 7) = Some 7" by (rule formatDBTime_roundtrip)
qed

lemma demo_trims [simp]:
  "trim_space ''cop_k'' = ''cop_k''" "trim_space ''cop_m'' = ''cop_m''" "trim_space ''usr_u'' = ''usr_u''"
  by code_simp+

lemma demo_keys:
  "row_of_key (new_key key_lib ''key_i'' ''usr_u'' ''cop_k'' 7 None) =
    \<lparr>kr_user_id = ''usr_u'', kr_key_hash = ''k_poc'', kr_key_prefix = ''cop_k'', kr_masked_key = ''cop_k...'',
     kr_enabled = True, kr_created_at = formatDBTime 7, kr_rotated_at = None, kr_last_used_at = None\<rparr>"
  by (simp add: row_of_key_def new_key_def displayKeyPrefix_def maskAPIKey_def)

definition Ann :: UserRecord where
  "Ann = \<lparr>u_ID = ''usr_u'', u_Name = ''Ann'', u_Enabled = True, u_CreatedAt = 7, u_UpdatedAt = 7\<rparr>"

lemma demo_get:
  "\<exists>k. GetUser ''usr_u'' demo_users = (Inr \<lparr>uw_User = Ann, uw_APIKey = Some k\<rparr>, demo_users)"
  by (simp add: GetUser_def joined_rows_def enabled_keys_def demo_keys scan_joined_def scan_user_def scan_key_def
      demo_seven parse_nullable_def Ann_def)

lemma demo_authenticates: "\<exists>k. fst (AuthenticateAPIKey key_lib ''cop_k'' demo_users) = Inr (Ann, k)"
  by (simp add: AuthenticateAPIKey_def Let_def find_hash_def demo_keys scan_joined_def scan_user_def scan_key_def
      demo_seven parse_nullable_def Ann_def)

lemma update_keys_faults [simp]: "faults (update_keys f s) = faults s"
  by (simp add: update_keys_def)

lemma demo_faults [simp]: "faults demo_users = []"
  by (simp add: demo_users_def new_store_def)

lemma demo_reset:
  "\<exists>c s'. ResetUserAPIKey key_lib (Some ''m'') (Some ''j'') ''usr_u'' demo_users = (Inr c, s') \<and> PlaintextAPIKey c = ''cop_m''"
proof -
  obtain k where get: "GetUser ''usr_u'' demo_users = (Inr \<lparr>uw_User = Ann, uw_APIKey = Some k\<rparr>, demo_users)"
    using demo_get by blast
  have ok: "key_violation (db (disable_keys ''usr_u'' demo_users)) (new_key key_lib ''key_j'' ''usr_u'' ''cop_m'' 7 (Some 7)) = None"
    by (simp add: key_violation_def disable_keys_rows disabled_rows_def new_key_def row_of_key_def)
  have ann: "u_ID Ann = ''usr_u''" by (simp add: Ann_def)
  show ?thesis
    by (simp add: ResetUserAPIKey_def get Let_def generateAPIKey_def randomID_def apiKeyPrefix_def ann disable_keys_rows
        ok [unfolded disable_keys_rows] healthy_sql_mapped)
qed

theorem reset_revokes_witness:
  "\<exists>c s'. ResetUserAPIKey key_lib (Some ''m'') (Some ''j'') ''usr_u'' demo_users = (Inr c, s') \<and>
     fst (AuthenticateAPIKey key_lib ''cop_k'' s') = Inl ErrInvalidAPIKey"
proof -
  obtain k where "fst (AuthenticateAPIKey key_lib ''cop_k'' demo_users) = Inr (Ann, k)" using demo_authenticates by blast
  moreover obtain c s' where "ResetUserAPIKey key_lib (Some ''m'') (Some ''j'') ''usr_u'' demo_users = (Inr c, s')"
    "PlaintextAPIKey c = ''cop_m''" using demo_reset by blast
  ultimately show ?thesis
    using reset_revokes [of demo_users key_lib "''cop_k''" Ann k "''usr_u''" "Some ''m''" "Some ''j''" c s']
    by (auto simp: demo_seven Ann_def)
qed

theorem rename_undoes_disable_witness:
  "\<exists>row. map_of (users (db (snd (update_user_write ''usr_u'' Ann (Some ''Bea'') None
     (snd (UpdateUser ''usr_u'' None (Some False) demo_users)))))) ''usr_u'' = Some row \<and> ur_enabled row"
proof -
  obtain k where get: "GetUser ''usr_u'' demo_users = (Inr \<lparr>uw_User = Ann, uw_APIKey = Some k\<rparr>, demo_users)"
    using demo_get by blast
  have n: "normalizeUserName ''Bea'' = Some ''Bea''" by code_simp
  show ?thesis
    using rename_undoes_disable [OF _ _ _ get _ refl n _ _ refl] by (simp add: Ann_def name_taken_def)
qed

end
