(* ===== verification/Usage_Properties.thy ===== *)
theory Usage_Properties
  imports Usage_Store User_Properties
begin

text \<open>
  What the usage tables promise: a recorded response is counted once, in its bucket, and pruning takes
  nothing from a range within the retention period; the points of a time series add up to the rows they
  are made of, however they are grouped, stepped and filled; and what an overflowing column does.
\<close>

section \<open>Columns\<close>

definition columns :: "(usage_counters \<Rightarrow> int) list" where
  "columns = [RequestCount, FailedRequestCount, InputTokens, OutputTokens, ReasoningTokens, CachedInputTokens,
     CacheReadTokens, CacheCreationTokens, TotalTokens]"

lemma columns_zero [simp]: "f \<in> set columns \<Longrightarrow> f zero_counters = 0"
  by (auto simp: columns_def zero_counters_def)

lemma columns_map2: "f \<in> set columns \<Longrightarrow> f (map_counters2 g c d) = g (f c) (f d)"
  by (auto simp: columns_def map_counters2_def)

lemma columns_add [simp]:
  "f \<in> set columns \<Longrightarrow> f (add_columns c d) = f c + f d"
  "f \<in> set columns \<Longrightarrow> f (counters_add c d) = wrap64 (f c + f d)"
  by (simp_all add: add_columns_def counters_add_def columns_map2)

definition column_sum :: "(usage_counters \<Rightarrow> int) \<Rightarrow> (bucket_key \<times> bucket_row) list \<Rightarrow> int" where
  "column_sum f rs = sum_list (map (\<lambda>r. f (br_counters (snd r))) rs)"

lemma column_sum_simps [simp]:
  "column_sum f [] = 0" "column_sum f (r # rs) = f (br_counters (snd r)) + column_sum f rs"
  by (simp_all add: column_sum_def)

lemma sql_sum_value: "sql_sum a xs = Some v \<Longrightarrow> v = a + sum_list xs"
  by (induction a xs rule: sql_sum.induct) (auto split: if_splits)

lemma sql_sum_total:
  assumes "\<forall>x\<in>set xs. 0 \<le> x" "0 \<le> a" "a + sum_list xs \<le> max_int64"
  shows "sql_sum a xs = Some (a + sum_list xs)"
  using assms
proof (induction xs arbitrary: a)
  case (Cons x xs)
  have "0 \<le> sum_list xs" using Cons.prems(1) by (intro sum_list_nonneg) auto
  with Cons show ?case by (simp add: in_int64_def go_time)
qed simp

lemma sum_counters_column:
  assumes "sum_counters cs = Some c" "f \<in> set columns"
  shows "f c = sum_list (map f cs)"
  using assms sql_sum_value [of 0]
  by (fastforce simp: sum_counters_def columns_def bind_eq_Some_conv)

lemma sum_counters_ok:
  assumes "\<forall>f\<in>set columns. (\<forall>c\<in>set cs. 0 \<le> f c) \<and> sum_list (map f cs) \<le> max_int64"
  shows "\<exists>c. sum_counters cs = Some c \<and> (\<forall>f\<in>set columns. f c = sum_list (map f cs))"
proof -
  have "sql_sum 0 (map f cs) = Some (sum_list (map f cs))" if "f \<in> set columns" for f
    using sql_sum_total [of "map f cs" 0] assms that by simp
  then have "\<exists>c. sum_counters cs = Some c" by (simp add: sum_counters_def columns_def)
  with sum_counters_column show ?thesis by blast
qed

section \<open>Recording\<close>

lemma update_buckets_db [simp]:
  "usage_buckets (db (update_buckets f s)) = f (usage_buckets (db s))" "users (db (update_buckets f s)) = users (db s)"
  "api_keys (db (update_buckets f s)) = api_keys (db s)" "clock (update_buckets f s) = clock s"
  "healthy_store (update_buckets f s) = healthy_store s"
  by (simp_all add: update_buckets_def healthy_store_def)

definition with_buckets :: "(bucket_key \<times> bucket_row) list \<Rightarrow> tables \<Rightarrow> tables" where
  "with_buckets bs t = t\<lparr>usage_buckets := bs\<rparr>"

lemma db_update_buckets: "db (update_buckets f s) = with_buckets (f (usage_buckets (db s))) (db s)"
  by (simp add: update_buckets_def with_buckets_def)

lemma with_buckets_simps [simp]:
  "usage_buckets (with_buckets bs t) = bs" "users (with_buckets bs t) = users t" "api_keys (with_buckets bs t) = api_keys t"
  "with_buckets bs (with_buckets bs' t) = with_buckets bs t"
  by (simp_all add: with_buckets_def)

definition new_row :: "UsageRecordParams \<Rightarrow> user_store \<Rightarrow> bucket_row" where
  "new_row p s = \<lparr>br_key_hash = KeyHash (up_APIKey p), br_masked_key = MaskedKey (up_APIKey p),
     br_counters = record_counters p, br_updated_at = formatDBTime (clock s)\<rparr>"

lemma sql_checked_elim:
  assumes "sql_checked base op violated s k = (x, s')"
  obtains (failed) e where "x = Inl e" "db s' = base"
  | (passed) s1 where "violated = None" "db s1 = db s" "clock s1 = clock s" "healthy_store s \<Longrightarrow> healthy_store s1" "k s1 = (x, s')"
  using assms unfolding sql_checked_def
proof (cases rule: sql_elim)
  case (passed s1)
  show thesis
  proof (cases violated)
    case None
    with passed that(2) show thesis by simp
  next
    case (Some e)
    with passed have "store_error op e (s1\<lparr>db := base\<rparr>) = (x, s')" by simp
    from store_error_result [OF this] that(1) show thesis by auto
  qed
qed (rule that(1))

lemma record_cases:
  assumes "RecordUsage enabled tok p s = (x, s')"
  obtains (failed) e where "x = Inl e" "db s' = db s"
  | (off) "x = Inr ()" "\<not> usageConfigTrackingEnabled enabled" "s' = s"
  | (recorded) "x = Inr ()" "usageConfigTrackingEnabled enabled" "bucket_violation (db s) p = None"
      "db s' = with_buckets (prune_buckets (record_time p s)
         (upsert_bucket (record_key p (record_time p s)) (new_row p s) (usage_buckets (db s)))) (db s)"
      "clock s' = clock s" "healthy_store s \<Longrightarrow> healthy_store s'"
  using assms unfolding RecordUsage_def
proof (cases rule: ready_elim)
  case running
  show thesis
  proof (cases "\<not> usageConfigTrackingEnabled enabled")
    case True
    with running that(2) show thesis by simp
  next
    case on: False
    show thesis
    proof (cases "trim_space (u_ID (up_User p)) = [] \<or> trim_space (k_ID (up_APIKey p)) = [] \<or>
        (trim_space (up_RequestID p) = [] \<and> randomID ''req'' tok = None)")
      case True
      with running on that(1) show thesis by (auto split: if_splits)
    next
      case False
      then have neg: "(trim_space (up_RequestID p) = [] \<and> randomID ''req'' tok = None) = False" by blast
      from False running on have "sql (db s) ''begin record usage'' s (\<lambda>s1.
          sql_checked (db s) ''upsert usage bucket'' (bucket_violation (db s1) p) s1 (\<lambda>s1.
          let s1 = update_buckets (upsert_bucket (record_key p (record_time p s)) (new_row p s)) s1 in
          sql (db s) ''prune usage data'' s1 (\<lambda>s1.
          let s1 = update_buckets (prune_buckets (record_time p s)) s1 in
          sql (db s) ''commit record usage'' s1 (\<lambda>s1. (Inr (), s1))))) = (x, s')"
        by (simp add: Let_def new_row_def neg)
      then show thesis
      proof (cases rule: sql_elim)
        case one: (passed s1)
        from one(4) show thesis
        proof (cases rule: sql_checked_elim)
          case two: (passed s2)
          from two(5) [unfolded Let_def] show thesis
          proof (cases rule: sql_elim)
            case three: (passed s3)
            from three(4) show thesis
            proof (cases rule: sql_elim)
              case four: (passed s4)
              show thesis
                by (rule that(3)) (use four three two one on in \<open>auto simp: db_update_buckets\<close>)
            qed (rule that(1))
          qed (rule that(1))
        qed (rule that(1))
      qed (rule that(1))
    qed
  qed
qed (auto intro: that(1))

lemma keys_distinct_upsert [simp]: "keys_distinct bs \<Longrightarrow> keys_distinct (upsert_bucket k r bs)"
  unfolding upsert_bucket_def by (rule distinct_update)

lemma sum_filter_update:
  assumes "keys_distinct bs"
  shows "column_sum f (filter P (AList.update k r bs)) =
    column_sum f (filter P (AList.delete k bs)) + (if P (k, r) then f (br_counters r) else 0)"
  using assms
proof (induction bs)
  case (Cons b bs)
  show ?case
  proof (cases "fst b = k")
    case True
    then have "k \<notin> fst ` set bs" using Cons.prems by auto
    then have "AList.delete k bs = bs" by (simp add: delete_id)
    with True show ?thesis by (cases b) simp
  next
    case False
    with Cons show ?thesis by (cases b) auto
  qed
qed simp

lemma sum_filter_delete:
  assumes "keys_distinct bs"
  shows "column_sum f (filter P bs) = column_sum f (filter P (AList.delete k bs)) +
    (case map_of bs k of Some r \<Rightarrow> if P (k, r) then f (br_counters r) else 0 | None \<Rightarrow> 0)"
  using assms
proof (induction bs)
  case (Cons b bs)
  show ?case
  proof (cases "fst b = k")
    case True
    then have "k \<notin> fst ` set bs" using Cons.prems by auto
    then have "AList.delete k bs = bs" by (simp add: delete_id)
    with True show ?thesis by (cases b) simp
  next
    case False
    with Cons show ?thesis by (cases b) (auto split: option.split)
  qed
qed simp

lemma sum_filter_upsert:
  assumes "keys_distinct bs" "f \<in> set columns" "\<And>x y. P (k, x) = P (k, y)"
  shows "column_sum f (filter P (upsert_bucket k r bs)) = column_sum f (filter P bs) + (if P (k, r) then f (br_counters r) else 0)"
  using assms(2) assms(3) [of r]
  by (auto simp: upsert_bucket_def sum_filter_update [OF assms(1)] sum_filter_delete [OF assms(1), of f P k] split: option.split)

definition in_range :: "string \<Rightarrow> string \<Rightarrow> time \<Rightarrow> time \<Rightarrow> bucket_key \<Rightarrow> bool" where
  "in_range user key start stop k \<longleftrightarrow>
     bk_user_id k = trim_space user \<and> bk_api_key_id k = trim_space key \<and>
     formatDBTime start \<le> bk_start k \<and> bk_start k < formatDBTime stop"

lemma range_rows_in: "range_rows t user key start stop = filter (\<lambda>r. in_range user key start stop (fst r)) (usage_buckets t)"
  by (simp add: range_rows_def in_range_def)

lemma prune_outside:
  assumes "formatDBTime (usageWindowStart now usageRetentionBucketCount) \<le> formatDBTime start"
  shows "filter (\<lambda>r. in_range user key start stop (fst r)) (prune_buckets now bs) = filter (\<lambda>r. in_range user key start stop (fst r)) bs"
  using assms by (auto simp: prune_buckets_def in_range_def intro!: filter_cong)


section \<open>Grouping loses nothing\<close>

lemma sum_list_groups:
  fixes h :: "'a \<Rightarrow> int"
  assumes "distinct ks" "g ` set xs \<subseteq> set ks"
  shows "sum_list (map (\<lambda>k. sum_list (map h (filter (\<lambda>x. g x = k) xs))) ks) = sum_list (map h xs)"
  using assms(2)
proof (induction xs)
  case (Cons x xs)
  have "sum_list (map (\<lambda>k. sum_list (map h (filter (\<lambda>y. g y = k) (x # xs)))) ks)
      = sum_list (map (\<lambda>k. (if g x = k then h x else 0) + sum_list (map h (filter (\<lambda>y. g y = k) xs))) ks)"
    by (rule arg_cong [of _ _ sum_list]) (rule map_cong, auto)
  also have "\<dots> = sum_list (map (\<lambda>k. if g x = k then h x else 0) ks) + sum_list (map h xs)"
    using Cons by (simp add: sum_list_addf)
  also have "sum_list (map (\<lambda>k. if g x = k then h x else 0) ks) = h x"
    using Cons.prems assms(1) by (simp add: sum_list_distinct_conv_sum_set)
  finally show ?case by simp
qed simp

lemma sum_groups_values:
  "sum_groups rows ds = Some gs \<Longrightarrow> map fst gs = ds \<and> (\<forall>(d, c)\<in>set gs. sum_counters (rows d) = Some c)"
  by (induction ds arbitrary: gs) (auto simp: bind_eq_Some_conv)

lemma sum_groups_total:
  assumes "sum_groups (\<lambda>d. counters_of (filter (\<lambda>r. g r = d) rs)) ds = Some gs" "distinct ds" "g ` set rs \<subseteq> set ds"
    and f: "f \<in> set columns"
  shows "sum_list (map (f \<circ> snd) gs) = column_sum f rs"
proof -
  note gs = sum_groups_values [OF assms(1)]
  have "map (f \<circ> snd) gs = map (\<lambda>p. sum_list (map (\<lambda>r. f (br_counters (snd r))) (filter (\<lambda>r. g r = fst p) rs))) gs"
    using gs sum_counters_column [OF _ f] by (fastforce simp: counters_of_def comp_def intro!: map_cong)
  also have "\<dots> = map (\<lambda>d. sum_list (map (\<lambda>r. f (br_counters (snd r))) (filter (\<lambda>r. g r = d) rs))) ds"
    using gs by (auto simp: comp_def dest!: conjunct1)
  finally show ?thesis using sum_list_groups [OF assms(2,3)] by (simp add: column_sum_def)
qed

definition points_sum :: "(usage_counters \<Rightarrow> int) \<Rightarrow> point list \<Rightarrow> int" where
  "points_sum f ps = sum_list (map (f \<circ> snd) ps)"

lemma points_sum_update:
  assumes "keys_distinct ps"
  shows "points_sum f (AList.update k c ps) = points_sum f ps - (case map_of ps k of Some old \<Rightarrow> f old | None \<Rightarrow> 0) + f c"
  using assms
proof (induction ps)
  case (Cons p ps)
  then show ?case by (cases p) (auto simp: points_sum_def split: option.split)
qed (simp add: points_sum_def)

definition nonneg :: "usage_counters \<Rightarrow> bool" where "nonneg c \<longleftrightarrow> (\<forall>f\<in>set columns. 0 \<le> f c)"

lemma nonnegD: "nonneg c \<Longrightarrow> f \<in> set columns \<Longrightarrow> 0 \<le> f c"
  by (simp add: nonneg_def)

definition points_ok :: "point list \<Rightarrow> bool" where
  "points_ok ps \<longleftrightarrow> keys_distinct ps \<and> (\<forall>p\<in>set ps. pk_BucketStart (fst p) \<noteq> 0 \<and> nonneg (snd p))"

lemma nonneg_sum: "\<forall>p\<in>set ps. nonneg (snd p) \<Longrightarrow> f \<in> set columns \<Longrightarrow> 0 \<le> sum_list (map (f \<circ> snd) ps)"
  by (induction ps) (auto dest: nonnegD)

lemma nonneg_member: "\<forall>p\<in>set ps. nonneg (snd p) \<Longrightarrow> f \<in> set columns \<Longrightarrow> q \<in> set ps \<Longrightarrow> f (snd q) \<le> sum_list (map (f \<circ> snd) ps)"
proof (induction ps)
  case (Cons p ps)
  have "0 \<le> f (snd p)" "0 \<le> sum_list (map (f \<circ> snd) ps)"
    using Cons.prems nonneg_sum [of ps f] nonnegD [of "snd p" f] by simp_all
  moreover have "f (snd q) \<le> sum_list (map (f \<circ> snd) ps)" if "q \<in> set ps"
    using Cons.prems(1,2) that by (intro Cons.IH) simp_all
  ultimately show ?case using Cons.prems(3) by (cases "q = p") (simp_all add: comp_def)
qed simp

lemma points_sum_nonneg: "points_ok ps \<Longrightarrow> f \<in> set columns \<Longrightarrow> 0 \<le> points_sum f ps"
  unfolding points_sum_def points_ok_def by (rule nonneg_sum) auto

lemma point_le_sum:
  assumes "points_ok ps" "f \<in> set columns" "map_of ps k = Some c"
  shows "0 \<le> f c" "f c \<le> points_sum f ps"
proof -
  have c: "(k, c) \<in> set ps" using assms(3) by (rule map_of_SomeD)
  have ok: "\<forall>p\<in>set ps. nonneg (snd p)" using assms(1) by (simp add: points_ok_def)
  from bspec [OF this c] show "0 \<le> f c" using assms(2) by (simp add: nonnegD)
  from nonneg_member [OF ok assms(2) c] show "f c \<le> points_sum f ps" by (simp add: points_sum_def)
qed

lemma add_point_eq:
  assumes "pk_BucketStart k \<noteq> 0"
  shows "add_point k c ps = AList.update k (counters_add (case map_of ps k of Some old \<Rightarrow> old | None \<Rightarrow> zero_counters) c) ps"
  using assms by (simp add: add_point_def cong: option.case_cong)

lemma add_point_sum:
  assumes ps: "points_ok ps" and k: "pk_BucketStart k \<noteq> 0" and c: "nonneg c" "\<forall>f\<in>set columns. points_sum f ps + f c \<le> max_int64"
  shows "points_ok (add_point k c ps) \<and> (\<forall>f\<in>set columns. points_sum f (add_point k c ps) = points_sum f ps + f c)"
proof -
  define old where "old = (case map_of ps k of Some old \<Rightarrow> old | None \<Rightarrow> zero_counters)"
  have eq: "add_point k c ps = AList.update k (counters_add old c) ps"
    using add_point_eq [OF k] by (simp add: old_def)
  have bounds: "0 \<le> f old" "f old \<le> points_sum f ps" if "f \<in> set columns" for f
    using point_le_sum [OF ps that, of k] points_sum_nonneg [OF ps that] that by (cases "map_of ps k"; simp add: old_def)+
  have val: "f (counters_add old c) = f old + f c" if "f \<in> set columns" for f
    using bounds [OF that] c(2) nonnegD [OF c(1) that] that by (auto simp: go_time intro!: wrap64_id)
  have was: "(case map_of ps k of Some old \<Rightarrow> f old | None \<Rightarrow> 0) = f old" if "f \<in> set columns" for f
    using that by (simp add: old_def split: option.split)
  have "points_sum f (add_point k c ps) = points_sum f ps + f c" if "f \<in> set columns" for f
    using ps val [OF that] was [OF that] by (simp add: eq points_ok_def points_sum_update)
  moreover have "nonneg (counters_add old c)"
    unfolding nonneg_def using val bounds(1) nonnegD [OF c(1)] by simp
  then have "points_ok (add_point k c ps)"
    using ps k set_update_subset [of k "counters_add old c" ps]
    by (auto simp: points_ok_def eq distinct_update dest!: subsetD)
  ultimately show ?thesis by blast
qed

definition start_ok :: "duration \<Rightarrow> string \<Rightarrow> bool" where
  "start_ok step text0 \<longleftrightarrow> (\<forall>b. parseDBTime text0 = Some b \<longrightarrow> usageTimeseriesBucketStart b step \<noteq> 0)"

lemma add_points_sum:
  assumes "add_points t step groupBy rows ps = Some ps'" "points_ok ps"
    and "\<forall>r\<in>set rows. start_ok step (bk_start (fst r)) \<and> nonneg (snd r)"
    and "\<forall>f\<in>set columns. points_sum f ps + sum_list (map (f \<circ> snd) rows) \<le> max_int64"
  shows "points_ok ps' \<and> (\<forall>f\<in>set columns. points_sum f ps' = points_sum f ps + sum_list (map (f \<circ> snd) rows))"
  using assms
proof (induction t step groupBy rows ps rule: add_points.induct)
  case (2 t step groupBy k c rows ps)
  from 2(2) obtain b where b: "parseDBTime (bk_start k) = Some b" by (cases "parseDBTime (bk_start k)") simp_all
  define k' where "k' = usageTimeseriesKey groupBy (usageTimeseriesBucketStart b step) k (user_name t (bk_user_id k))"
  have rows: "\<forall>r\<in>set rows. start_ok step (bk_start (fst r)) \<and> nonneg (snd r)" using 2(4) by simp
  have pos: "0 \<le> sum_list (map (f \<circ> snd) rows)" if "f \<in> set columns" for f
    using nonneg_sum [OF _ that, of rows] rows by simp
  have k: "pk_BucketStart k' \<noteq> 0" using 2(4) b by (simp add: k'_def usageTimeseriesKey_def start_ok_def)
  have c: "nonneg c" using 2(4) by simp
  have "points_sum f ps + f c \<le> max_int64" if "f \<in> set columns" for f
    using bspec [OF 2(5) that] pos [OF that] by (simp add: comp_def)
  with add_point_sum [OF 2(3) k c] have one: "points_ok (add_point k' c ps)"
    "\<And>f. f \<in> set columns \<Longrightarrow> points_sum f (add_point k' c ps) = points_sum f ps + f c" by blast+
  have run: "add_points t step groupBy rows (add_point k' c ps) = Some ps'" using 2(2) b by (simp add: k'_def)
  have "\<forall>f\<in>set columns. points_sum f (add_point k' c ps) + sum_list (map (f \<circ> snd) rows) \<le> max_int64"
    using 2(5) one(2) by (simp add: add.assoc comp_def)
  from 2(1) [OF b, folded k'_def, OF run one(1) rows this] one(2) show ?case by (simp add: comp_def add.assoc)
qed simp

lemma sum_list_sort [simp]:
  fixes h :: "'a \<Rightarrow> int"
  shows "sum_list (map h (sort_key k xs)) = sum_list (map h xs)"
proof -
  have "mset (map h (sort_key k xs)) = mset (map h xs)" by simp
  from arg_cong [OF this, of sum_mset] show ?thesis unfolding sum_mset_sum_list .
qed

lemma points_sum_sort [simp]: "points_sum f (sort_points ps) = points_sum f ps"
  by (simp add: points_sum_def sort_points_def)

lemma points_ok_sort [simp]: "points_ok (sort_points ps) = points_ok ps"
proof -
  have "keys_distinct (sort_points ps) = keys_distinct ps"
    by (rule mset_eq_imp_distinct_iff) (simp add: sort_points_def)
  then show ?thesis by (simp add: points_ok_def sort_points_def)
qed

section \<open>Filling with zeros\<close>

lemma set_steps: "0 < d \<Longrightarrow> b \<in> set (steps a z d) \<longleftrightarrow> a \<le> b \<and> b < z \<and> (b - a) mod d = 0"
proof (induction a z d rule: steps.induct)
  case (1 a z d)
  show ?case
  proof (cases "a < z")
    case True
    have "(b - (a + d) + d) mod d = (b - (a + d)) mod d" by (rule mod_add_self2)
    then have same: "(b - (a + d)) mod d = (b - a) mod d" by (simp add: algebra_simps)
    have "a < b \<Longrightarrow> (b - a) mod d = 0 \<Longrightarrow> a + d \<le> b"
      using 1(2) zdvd_imp_le [of d "b - a"] by (simp add: mod_eq_0_iff_dvd)
    then show ?thesis
      using 1(1) [OF _ 1(2)] True 1(2) by (subst steps.simps) (auto simp: same)
  next
    case False
    then show ?thesis by (subst steps.simps) auto
  qed
qed

lemma steps_above: "b \<in> set (steps a z d) \<Longrightarrow> a \<le> b"
proof (induction a z d rule: steps.induct)
  case (1 a z d)
  then show ?case by (subst (asm) steps.simps) (auto split: if_splits)
qed

lemma distinct_steps: "distinct (steps a z d)"
proof (induction a z d rule: steps.induct)
  case (1 a z d)
  then show ?case by (subst steps.simps) (auto dest: steps_above)
qed

definition dated :: "time list \<Rightarrow> point_key list \<Rightarrow> point_key list" where
  "dated bs ids = concat (map (\<lambda>i. map (\<lambda>b. i\<lparr>pk_BucketStart := b\<rparr>) bs) ids)"

lemma identity_dated [simp]: "identity_key (i\<lparr>pk_BucketStart := b\<rparr>) = identity_key i"
  by (simp add: identity_key_def)

lemma identity_idem [simp]: "identity_key (identity_key i) = identity_key i"
  by (simp add: identity_key_def)

lemma set_dated: "set (dated bs ids) = {i\<lparr>pk_BucketStart := b\<rparr> | i b. i \<in> set ids \<and> b \<in> set bs}"
  by (auto simp: dated_def)

lemma dated_split: "i \<in> set ids \<Longrightarrow> b \<in> set bs \<Longrightarrow> i\<lparr>pk_BucketStart := b\<rparr> \<in> set (dated bs ids)"
  by (auto simp: set_dated)

lemma distinct_dated:
  assumes "distinct ids" "\<forall>i\<in>set ids. identity_key i = i" "distinct bs"
  shows "distinct (dated bs ids)"
  using assms(1,2)
proof (induction ids)
  case (Cons i ids)
  have "distinct (map (\<lambda>b. i\<lparr>pk_BucketStart := b\<rparr>) bs)"
    using assms(3) by (auto simp: distinct_map inj_on_def dest: arg_cong [of _ _ pk_BucketStart])
  moreover have "set (map (\<lambda>b. i\<lparr>pk_BucketStart := b\<rparr>) bs) \<inter> set (dated bs ids) = {}"
  proof -
    have False if "i\<lparr>pk_BucketStart := b\<rparr> = j\<lparr>pk_BucketStart := c\<rparr>" "j \<in> set ids" for b c j
      using arg_cong [OF that(1), of identity_key] that(2) Cons.prems by auto
    then show ?thesis by (auto simp: set_dated)
  qed
  ultimately show ?case using Cons by (simp add: dated_def)
qed (simp add: dated_def)

lemma lookup_sum:
  fixes f :: "usage_counters \<Rightarrow> int"
  assumes "distinct ks" "keys_distinct ps" "fst ` set ps \<subseteq> set ks"
  shows "sum_list (map (\<lambda>k. case map_of ps k of Some c \<Rightarrow> f c | None \<Rightarrow> 0) ks) = points_sum f ps"
proof -
  let ?h = "\<lambda>k. case map_of ps k of Some c \<Rightarrow> f c | None \<Rightarrow> 0"
  have "sum_list (map ?h ks) = sum ?h (set ks)" using assms(1) by (simp add: sum_list_distinct_conv_sum_set)
  also have "\<dots> = sum ?h (fst ` set ps)"
    using assms(3) by (intro sum.mono_neutral_right) (auto split: option.split dest!: map_of_SomeD intro: rev_image_eqI)
  also have "\<dots> = sum_list (map ?h (map fst ps))"
    using sum_list_distinct_conv_sum_set [OF assms(2), of ?h] by (simp only: set_map)
  also have "\<dots> = points_sum f ps"
    using assms(2) unfolding points_sum_def map_map
    by (intro arg_cong [of _ _ sum_list] map_cong) (auto simp: map_of_is_SomeI)
  finally show ?thesis .
qed

lemma fill_sum:
  assumes "keys_distinct ps" "0 < step" "f \<in> set columns"
    and "\<forall>p\<in>set ps. pk_BucketStart (fst p) \<in> set (steps (usageTimeseriesBucketStart start step) stop step)"
  shows "points_sum f (fillUsageTimeseriesZeros ps start stop step) = points_sum f ps"
proof (cases "ps = []")
  case False
  let ?bs = "steps (usageTimeseriesBucketStart start step) stop step"
  let ?ids = "remdups (map (identity_key \<circ> fst) ps)"
  have filled: "fillUsageTimeseriesZeros ps start stop step
      = sort_points (map (\<lambda>k. (k, case map_of ps k of Some c \<Rightarrow> c | None \<Rightarrow> zero_counters)) (dated ?bs ?ids))"
    using False assms(2) by (simp add: fillUsageTimeseriesZeros_def Let_def dated_def map_concat comp_def)
  have "fst p \<in> set (dated ?bs ?ids)" if "p \<in> set ps" for p
  proof -
    have "(identity_key (fst p))\<lparr>pk_BucketStart := pk_BucketStart (fst p)\<rparr> \<in> set (dated ?bs ?ids)"
      using that assms(4) by (intro dated_split) auto
    then show ?thesis by (simp add: identity_key_def)
  qed
  then have sub: "fst ` set ps \<subseteq> set (dated ?bs ?ids)" by blast
  have dist: "distinct (dated ?bs ?ids)" by (rule distinct_dated) (auto simp: distinct_steps)
  have "(\<lambda>k. f (case map_of ps k of Some c \<Rightarrow> c | None \<Rightarrow> zero_counters)) = (\<lambda>k. case map_of ps k of Some c \<Rightarrow> f c | None \<Rightarrow> 0)"
    using assms(3) by (auto simp: fun_eq_iff split: option.split)
  then show ?thesis
    using lookup_sum [OF dist assms(1) sub, of f] by (simp add: filled) (simp add: points_sum_def comp_def)
qed (simp add: fillUsageTimeseriesZeros_def)

section \<open>Series\<close>

text \<open>What the recording leaves in the table: whole instants after the first day, and no negative column.\<close>

definition bucket_ok :: "bucket_key \<times> bucket_row \<Rightarrow> bool" where
  "bucket_ok r \<longleftrightarrow> nonneg (br_counters (snd r)) \<and>
     (\<exists>b. bk_start (fst r) = formatDBTime b \<and> db_representable b \<and> nanos_of b = 0 \<and> day \<le> b)"

lemma add_points_starts:
  "add_points t step groupBy rows ps = Some ps' \<Longrightarrow> k' \<in> fst ` set ps' \<Longrightarrow>
     k' \<in> fst ` set ps \<or>
     (\<exists>r\<in>set rows. \<exists>b. parseDBTime (bk_start (fst r)) = Some b \<and> pk_BucketStart k' = usageTimeseriesBucketStart b step)"
proof (induction t step groupBy rows ps rule: add_points.induct)
  case (2 t step groupBy k c rows ps)
  from 2(2) obtain b where b: "parseDBTime (bk_start k) = Some b" by (cases "parseDBTime (bk_start k)") simp_all
  define k2 where "k2 = usageTimeseriesKey groupBy (usageTimeseriesBucketStart b step) k (user_name t (bk_user_id k))"
  have "fst ` set (add_point k2 c ps) \<subseteq> insert k2 (fst ` set ps)"
    unfolding add_point_def using set_update_subset [of k2 _ ps] by fastforce
  moreover have "pk_BucketStart k2 = usageTimeseriesBucketStart b step" by (simp add: k2_def usageTimeseriesKey_def)
  moreover have "add_points t step groupBy rows (add_point k2 c ps) = Some ps'" using 2(2) b by (simp add: k2_def)
  from 2(1) [OF b, folded k2_def, OF this 2(3)] have "k' \<in> fst ` set (add_point k2 c ps) \<or>
     (\<exists>r\<in>set rows. \<exists>b. parseDBTime (bk_start (fst r)) = Some b \<and> pk_BucketStart k' = usageTimeseriesBucketStart b step)" .
  ultimately show ?case using b by auto
qed simp

lemma nanos_truncate: "second dvd d \<Longrightarrow> 0 < d \<Longrightarrow> nanos_of (time_truncate t d) = 0"
proof -
  assume d: "second dvd d" "0 < d"
  then have "second dvd time_truncate t d"
    by (simp add: time_truncate_def minus_mod_eq_mult_div dvd_mult2)
  then show ?thesis by (simp add: nanos_of_def second_def mod_eq_0_iff_dvd)
qed

lemma window_whole:
  assumes "usageTimeseriesWindow raw now = Some (w, start, stop)"
  shows "nanos_of start = 0" "nanos_of stop = 0"
proof -
  have b: "second dvd usageBucketStart now"
    by (simp add: usageBucketStart_def usageBucketDuration_def go_time time_truncate_def minus_mod_eq_mult_div dvd_mult2)
  then have w: "second dvd usageWindowStart now n" for n
    by (auto simp: usageWindowStart_def usageBucketDuration_def go_time intro!: dvd_diff)
  have d: "second dvd time_truncate now day"
    by (simp add: day_def go_time time_truncate_def minus_mod_eq_mult_div dvd_mult2)
  have "second dvd start \<and> second dvd stop"
    using assms b w d by (auto simp: usageTimeseriesWindow_def Let_def usageBucketDuration_def go_time split: if_splits)
  then show "nanos_of start = 0" "nanos_of stop = 0" by (simp_all add: nanos_of_def second_def mod_eq_0_iff_dvd)
qed

lemma step_range: "usageTimeseriesStep raw w = Some (name, step) \<Longrightarrow> 0 < step \<and> step \<le> day"
  by (auto simp: usageTimeseriesStep_def Let_def day_def go_time split: if_splits)

lemma bucket_start_truncate: "usageTimeseriesBucketStart t step = time_truncate t step"
  by (simp add: usageTimeseriesBucketStart_def)

lemma truncate_on_grid:
  "0 < step \<Longrightarrow> start \<le> b \<Longrightarrow> b < stop \<Longrightarrow> time_truncate b step \<in> set (steps (time_truncate start step) stop step)"
  using time_truncate_mono [of start b step] time_truncate_le [of b step]
  by (simp add: set_steps) (simp add: time_truncate_def minus_mod_eq_mult_div right_diff_distrib [symmetric])

lemma truncate_pos: "0 < step \<Longrightarrow> step \<le> day \<Longrightarrow> day \<le> b \<Longrightarrow> time_truncate b step \<noteq> 0"
proof -
  assume a: "0 < step" "step \<le> day" "day \<le> b"
  then have "b mod step < step" by simp
  with a have "0 < b - b mod step" by linarith
  with a(1) show ?thesis by (simp add: time_truncate_def)
qed

lemma set_groups: "set (series_groups t rs) = series_group ` set rs" "distinct (series_groups t rs)"
  by (simp_all add: series_groups_def)

lemma query_cases:
  assumes "queryUsageTimeseries operation start stop step groupBy user key s = (Inr points, s')"
  obtains rows ps where
    "sum_groups (\<lambda>k. counters_of (filter (\<lambda>r. series_group r = k) (series_rows (db s) start stop user key)))
       (series_groups (db s) (series_rows (db s) start stop user key)) = Some rows"
    "add_points (db s) step groupBy rows [] = Some ps" "points = sort_points ps"
  using assms unfolding queryUsageTimeseries_def
proof (cases rule: sql_elim)
  case one: (passed s1)
  from one(4) show thesis
  proof (cases rule: sql_elim)
    case two: (passed s2)
    from two(4) show thesis
      unfolding two(1) one(1) Let_def
      by (auto split: option.splits intro: that)
  qed simp
qed simp

lemma query_total:
  assumes run: "queryUsageTimeseries operation start stop step groupBy user key s = (Inr points, s')"
    and ok: "\<forall>r\<in>set (usage_buckets (db s)). bucket_ok r"
    and max: "\<forall>f\<in>set columns. column_sum f (series_rows (db s) start stop user key) \<le> max_int64"
    and step: "0 < step" "step \<le> day"
    and bounds: "db_representable start" "db_representable stop" "nanos_of start = 0" "nanos_of stop = 0"
  shows "points_ok points \<and>
    (\<forall>f\<in>set columns. points_sum f points = column_sum f (series_rows (db s) start stop user key)) \<and>
    (\<forall>p\<in>set points. pk_BucketStart (fst p) \<in> set (steps (usageTimeseriesBucketStart start step) stop step))"
proof -
  define rs where "rs = series_rows (db s) start stop user key"
  obtain rows ps where q: "sum_groups (\<lambda>k. counters_of (filter (\<lambda>r. series_group r = k) rs)) (series_groups (db s) rs) = Some rows"
    "add_points (db s) step groupBy rows [] = Some ps" "points = sort_points ps"
    using query_cases [OF run] unfolding rs_def by blast
  have total: "sum_list (map (f \<circ> snd) rows) = column_sum f rs" if "f \<in> set columns" for f
    using sum_groups_total [OF q(1) set_groups(2) _ that] set_groups(1) by simp
  have rs: "\<exists>b. bk_start (fst r) = formatDBTime b \<and> db_representable b \<and> day \<le> b \<and> start \<le> b \<and> b < stop \<and> nonneg (br_counters (snd r))"
    if r: "r \<in> set rs" for r
  proof -
    from r have mem: "r \<in> set (usage_buckets (db s))" "formatDBTime start \<le> bk_start (fst r)" "bk_start (fst r) < formatDBTime stop"
      by (auto simp: rs_def series_rows_def)
    with ok obtain b where b: "bk_start (fst r) = formatDBTime b" "db_representable b" "nanos_of b = 0" "day \<le> b" "nonneg (br_counters (snd r))"
      by (auto simp: bucket_ok_def)
    have "start \<le> b" using mem(2) db_le_whole_seconds [OF bounds(1) b(2) bounds(3) b(3)] by (simp add: db_le_def b(1))
    moreover have "\<not> formatDBTime stop \<le> formatDBTime b" using mem(3) by (simp add: b(1) not_le)
    then have "\<not> stop \<le> b" using db_le_whole_seconds [OF bounds(2) b(2) bounds(4) b(3)] by (simp add: db_le_def b(1))
    ultimately show ?thesis using b by auto
  qed
  have row: "nonneg (snd g) \<and> (\<exists>r\<in>set rs. bk_start (fst g) = bk_start (fst r))" if g: "g \<in> set rows" for g
  proof -
    obtain k c where gk: "g = (k, c)" by (cases g)
    note vals = sum_groups_values [OF q(1)]
    have c: "sum_counters (counters_of (filter (\<lambda>r. series_group r = k) rs)) = Some c" using vals g gk by auto
    have "0 \<le> f c" if "f \<in> set columns" for f
    proof -
      have "\<forall>x\<in>set (map f (counters_of (filter (\<lambda>r. series_group r = k) rs))). 0 \<le> x"
        using rs nonnegD [OF _ that] by (fastforce simp: counters_of_def)
      then show ?thesis unfolding sum_counters_column [OF c that] by (intro sum_list_nonneg) blast
    qed
    moreover have "k \<in> series_group ` set rs" using vals g gk set_groups(1) by (metis fst_conv image_eqI set_map)
    then have "\<exists>r\<in>set rs. bk_start k = bk_start (fst r)"
      unfolding image_iff by (rule bexE) (rule bexI, simp_all add: series_group_def)
    ultimately show ?thesis by (simp add: gk nonneg_def)
  qed
  have start: "start_ok step (bk_start (fst g))" if g: "g \<in> set rows" for g
  proof -
    obtain r b where "r \<in> set rs" "bk_start (fst g) = bk_start (fst r)" "bk_start (fst r) = formatDBTime b" "db_representable b" "day \<le> b"
      using row [OF g] rs by blast
    then show ?thesis using truncate_pos [OF step] by (simp add: start_ok_def formatDBTime_roundtrip bucket_start_truncate)
  qed
  have "points_ok ps \<and> (\<forall>f\<in>set columns. points_sum f ps = points_sum f [] + sum_list (map (f \<circ> snd) rows))"
    by (rule add_points_sum [OF q(2)]) (use row start total max in \<open>auto simp: points_ok_def points_sum_def rs_def\<close>)
  moreover have "pk_BucketStart (fst p) \<in> set (steps (usageTimeseriesBucketStart start step) stop step)" if "p \<in> set ps" for p
  proof -
    have "fst p \<in> fst ` set ps" using that by blast
    from add_points_starts [OF q(2) this] obtain g b where g: "g \<in> set rows" "parseDBTime (bk_start (fst g)) = Some b"
      "pk_BucketStart (fst p) = usageTimeseriesBucketStart b step" by auto
    obtain r where "r \<in> set rs" "bk_start (fst g) = bk_start (fst r)" using row [OF g(1)] by blast
    with rs [of r] obtain b' where b': "bk_start (fst g) = formatDBTime b'" "db_representable b'" "start \<le> b'" "b' < stop" by auto
    with g(2) have "b = b'" by (simp add: formatDBTime_roundtrip)
    with b' g(3) show ?thesis using truncate_on_grid [OF step(1)] by (simp add: bucket_start_truncate)
  qed
  ultimately show ?thesis using total by (auto simp: q(3) points_sum_def rs_def) (simp_all add: sort_points_def)
qed

text \<open>
  C27: The points of a time series, whichever groups, step and filling the request asks for, add up to
  exactly the recorded buckets of the window (column by column, while no column overflows), and no two
  of them have the same key.
\<close>

theorem series_conserves:
  assumes "GetUsageTimeseries window0 step0 groups0 fill0 user key now s = (Inr ts, s')"
    and "\<forall>r\<in>set (usage_buckets (db s)). bucket_ok r"
    and "\<forall>f\<in>set columns. column_sum f (series_rows (db s) (ts_Start ts) (ts_End ts) (trim_space user) (trim_space key)) \<le> max_int64"
    and "db_representable (ts_Start ts)" "db_representable (ts_End ts)"
  shows "\<forall>f\<in>set columns. points_sum f (ts_Series ts) =
    column_sum f (series_rows (db s) (ts_Start ts) (ts_End ts) (trim_space user) (trim_space key))"
proof -
  from assms(1) obtain step points s1 now' where q:
    "usageTimeseriesWindow window0 now' = Some (ts_Window ts, ts_Start ts, ts_End ts)"
    "usageTimeseriesStep step0 (ts_Window ts) = Some (ts_Step ts, step)"
    "queryUsageTimeseries ''read usage timeseries'' (ts_Start ts) (ts_End ts) step (ts_GroupBy ts) (trim_space user) (trim_space key) s = (Inr points, s1)"
    "ts_Series ts = fillUsageTimeseriesZeros points (ts_Start ts) (ts_End ts) step \<or> ts_Series ts = points"
    unfolding GetUsageTimeseries_def
    by (elim ready_elim) (auto simp: Let_def split: option.splits prod.splits sum.splits if_splits)
  note total = query_total [OF q(3) assms(2,3) step_range [OF q(2), THEN conjunct1] step_range [OF q(2), THEN conjunct2]
      assms(4,5) window_whole [OF q(1)]]
  show ?thesis
    using q(4) total fill_sum [of points step _ "ts_Start ts" "ts_End ts"] step_range [OF q(2)]
    by (auto simp: points_ok_def)
qed

section \<open>Overflow\<close>

lemma representable_below: "db_representable t \<Longrightarrow> 0 \<le> u \<Longrightarrow> u \<le> t \<Longrightarrow> db_representable u"
  using seconds_of_mono [of u t] by (auto simp: db_representable_def)

lemma bucket_whole: "nanos_of (usageBucketStart t) = 0" "nanos_of (usageWindowStart t n) = 0"
proof -
  have b: "second dvd usageBucketStart t"
    by (simp add: usageBucketStart_def usageBucketDuration_def go_time time_truncate_def minus_mod_eq_mult_div dvd_mult2)
  then have "second dvd usageWindowStart t n"
    by (auto simp: usageWindowStart_def usageBucketDuration_def go_time intro!: dvd_diff)
  with b show "nanos_of (usageBucketStart t) = 0" "nanos_of (usageWindowStart t n) = 0"
    by (simp_all add: nanos_of_def second_def mod_eq_0_iff_dvd)
qed

lemma day_whole: "nanos_of (time_truncate t day) = 0" "nanos_of (time_truncate t day + day) = 0"
proof -
  have d: "second dvd time_truncate t day" "second dvd day"
    by (simp_all add: day_def go_time time_truncate_def minus_mod_eq_mult_div dvd_mult2)
  from d(1) dvd_add [OF d] show "nanos_of (time_truncate t day) = 0" "nanos_of (time_truncate t day + day) = 0"
    by (simp_all add: nanos_of_def second_def mod_eq_0_iff_dvd)
qed

definition month :: duration where "month = 30 * day"

text \<open>A time the whole calendar around which can be stored.\<close>

definition plain_time :: "time \<Rightarrow> bool" where
  "plain_time t \<longleftrightarrow> month \<le> t \<and> db_representable (t + day)"

lemma bucket_today:
  assumes "plain_time t"
  shows "formatDBTime (usageWindowStart t usageRetentionBucketCount) \<le> formatDBTime (usageBucketStart t)"
    and "formatDBTime (time_truncate t day) \<le> formatDBTime (usageBucketStart t)"
    and "formatDBTime (usageBucketStart t) < formatDBTime (time_truncate t day + day)"
proof -
  have b: "usageBucketStart t \<le> t" "t - 10 * minute < usageBucketStart t"
    using time_truncate_le [of t usageBucketDuration] time_truncate_gt [of usageBucketDuration t]
    by (simp_all add: usageBucketStart_def usageBucketDuration_def go_time)
  have w: "usageWindowStart t usageRetentionBucketCount = usageBucketStart t - 4319 * (10 * minute)"
    by (simp add: usageWindowStart_def usageRetentionBucketCount_def usageBucketDuration_def)
  have d: "time_truncate t day \<le> t" "t < time_truncate t day + day"
    using time_truncate_le [of t day] time_truncate_gt [of day t] by (simp_all add: day_def go_time)
  have "time_truncate (time_truncate t day) usageBucketDuration = time_truncate t day"
  proof -
    have dv: "usageBucketDuration dvd time_truncate t day"
      by (simp add: usageBucketDuration_def day_def go_time time_truncate_def minus_mod_eq_mult_div dvd_mult2)
    have "usageBucketDuration > 0" by (simp add: usageBucketDuration_def go_time)
    with dv show ?thesis by (simp add: time_truncate_def)
  qed
  then have db: "time_truncate t day \<le> usageBucketStart t"
    using time_truncate_mono [OF d(1), of usageBucketDuration] by (simp add: usageBucketStart_def)
  have r: "db_representable (t + day)" and m: "4320 * (10 * minute) \<le> t" "day \<le> t" "0 < day"
    using assms by (simp_all add: plain_time_def month_def day_def go_time)
  have rep: "db_representable (usageWindowStart t usageRetentionBucketCount)" "db_representable (usageBucketStart t)"
    "db_representable (time_truncate t day)" "db_representable (time_truncate t day + day)"
    by (rule representable_below [OF r]; use b d m db w in \<open>simp add: minute_def\<close>)+
  show "formatDBTime (usageWindowStart t usageRetentionBucketCount) \<le> formatDBTime (usageBucketStart t)"
    using db_le_whole_seconds [OF rep(1,2) bucket_whole(2,1)] w by (simp add: db_le_def go_time)
  show "formatDBTime (time_truncate t day) \<le> formatDBTime (usageBucketStart t)"
    using db_le_whole_seconds [OF rep(3,2) day_whole(1) bucket_whole(1)] db by (simp add: db_le_def)
  have "usageBucketStart t < time_truncate t day + day" using b d by simp
  then show "formatDBTime (usageBucketStart t) < formatDBTime (time_truncate t day + day)"
    using db_le_whole_seconds [OF rep(4,2) day_whole(2) bucket_whole(1)] by (simp add: db_le_def not_le)
qed

lemma overflow_total: "sql_sum 0 (map TotalTokens cs) = None \<Longrightarrow> sum_counters cs = None"
  by (simp add: sum_counters_def)

lemma overflow_latches:
  assumes "healthy_store s" "now \<noteq> 0"
    and "sum_counters (counters_of (range_rows (db s) user key (time_truncate now day) (time_truncate now day + day))) = None"
  shows "\<exists>e s'. GetTodayUsage user key now s = (Inl e, s') \<and> err_is e ErrStorageFailure \<and> checkReady s' = Some e \<and> on_reports (failures s') = 1"
proof -
  have "failures s = newStorageFailureState" using assms(1) by (simp add: healthy_store_def)
  then show ?thesis
    using assms
    by (simp add: GetTodayUsage_def aggregateUsageRangeDB_def only_def summed_def Let_def store_error_def databaseError_def
        overflow_def failure_current_def failure_report_def newStorageFailureState_def checkReady_def)
qed

text \<open>
  Token counts that an upstream response reports are added up unchecked. Two responses whose totals
  do not fit into 64 bits together, each harmless on its own, are recorded without complaint; the next
  report over that day fails with an overflow, which counts as a failure of the storage: the latch
  closes, the server's context is cancelled, and no request is authenticated any more.
\<close>

theorem huge_usage_closes_latch:
  assumes "healthy_store s" "usage_buckets (db s) = []" "plain_time t"
    and "RecordUsage None tok1 p1 s = (Inr (), s1)" "RecordUsage None tok2 p2 s1 = (Inr (), s2)"
    and "up_Timestamp p1 = t" "up_Timestamp p2 = t" "record_key p1 t \<noteq> record_key p2 t"
    and "u_ID (up_User p1) = trim_space user" "u_ID (up_User p2) = trim_space user"
    and "k_ID (up_APIKey p1) = trim_space key" "k_ID (up_APIKey p2) = trim_space key"
    and "max_int64 < TotalTokens (record_counters p1) + TotalTokens (record_counters p2)"
  shows "\<exists>e s3. GetTodayUsage user key t s2 = (Inl e, s3) \<and> err_is e ErrStorageFailure \<and> on_reports (failures s3) = 1 \<and>
    (\<forall>lib token. fst (AuthenticateAPIKey lib token s3) = Inl e)"
proof -
  note today = bucket_today [OF assms(3)]
  have t0: "t \<noteq> 0" using assms(3) by (auto simp: plain_time_def month_def day_def go_time)
  have start: "bk_start (record_key p t) = formatDBTime (usageBucketStart t)" for p by (simp add: record_key_def)
  have key: "bk_user_id (record_key p t) = u_ID (up_User p)" "bk_api_key_id (record_key p t) = k_ID (up_APIKey p)" for p
    by (simp_all add: record_key_def)
  have on: "usageConfigTrackingEnabled None" by (simp add: usageConfigTrackingEnabled_def)
  have one: "usage_buckets (db s1) = [(record_key p1 t, new_row p1 s)]" "healthy_store s1"
    using assms(4)
    by (cases rule: record_cases; use assms(1,2,6) on t0 today(1) in
        \<open>simp add: record_time_def upsert_bucket_def prune_buckets_def start not_less\<close>)+
  have two: "usage_buckets (db s2) = [(record_key p1 t, new_row p1 s), (record_key p2 t, new_row p2 s1)]" "healthy_store s2"
    using assms(5)
    by (cases rule: record_cases; use one assms(7,8) on t0 today(1) in
        \<open>simp add: record_time_def upsert_bucket_def prune_buckets_def start not_less\<close>)+
  have rows: "counters_of (range_rows (db s2) user key (time_truncate t day) (time_truncate t day + day))
      = [record_counters p1, record_counters p2]"
    using today(2,3) assms(9-12) by (simp add: range_rows_def two(1) counters_of_def start key new_row_def)
  have "sql_sum 0 (map TotalTokens [record_counters p1, record_counters p2]) = None"
    using assms(13) by (simp add: in_int64_def)
  from overflow_total [OF this] overflow_latches [OF two(2) t0, of user key, unfolded rows]
  obtain e s3 where e: "GetTodayUsage user key t s2 = (Inl e, s3)" "err_is e ErrStorageFailure" "checkReady s3 = Some e"
    "on_reports (failures s3) = 1" by blast
  then have "fst (AuthenticateAPIKey lib token s3) = Inl e" for lib token
    by (simp add: AuthenticateAPIKey_def latched_ready)
  with e show ?thesis by blast
qed

section \<open>Concrete runs\<close>

definition demo_use :: "string \<Rightarrow> int \<Rightarrow> UsageRecordParams" where
  "demo_use m n =
     \<lparr>up_Timestamp = 40 * day, up_User = Ann, up_APIKey = new_key key_lib ''key_i'' ''usr_u'' ''cop_k'' 7 None, up_Model = m,
      up_ReasoningEffort = [], up_ServiceTier = [], up_AuthID = ''account:a'', up_RequestID = ''r'', up_StatusCode = 200,
      up_Counters = zero_counters\<lparr>TotalTokens := n\<rparr>, up_DeltaOnly = False\<rparr>"

lemma demo_use_simps [simp]:
  "up_Timestamp (demo_use m n) = 40 * day" "u_ID (up_User (demo_use m n)) = ''usr_u''"
  "k_ID (up_APIKey (demo_use m n)) = ''key_i''" "up_Model (demo_use m n) = m" "up_RequestID (demo_use m n) = ''r''"
  "TotalTokens (record_counters (demo_use m n)) = n"
  by (simp_all add: demo_use_def Ann_def new_key_def record_counters_def normalized_def zero_counters_def)

lemma demo_use_trims [simp]:
  "trim_space ''r'' = ''r''" "trim_space ''key_i'' = ''key_i''" "trim_space ''m'' = ''m''" "trim_space ''n'' = ''n''"
  by code_simp+

lemma demo_forty: "plain_time (40 * day)"
  by (simp add: plain_time_def month_def day_def go_time db_representable_def seconds_of_def max_db_seconds_def)

definition demo_ready :: "user_store \<Rightarrow> bool" where
  "demo_ready s \<longleftrightarrow> healthy_store s \<and> users (db s) = users (db demo_users) \<and> api_keys (db s) = api_keys (db demo_users)"

lemma demo_records:
  assumes "demo_ready s"
  shows "\<exists>s'. RecordUsage None None (demo_use m n) s = (Inr (), s') \<and> demo_ready s'"
  using assms
  by (simp add: demo_ready_def RecordUsage_def usageConfigTrackingEnabled_def Let_def sql_checked_def bucket_violation_def)

lemma demo_ready_users: "demo_ready demo_users" "usage_buckets (db demo_users) = []"
  by (simp add: demo_ready_def) (simp add: demo_users_def empty_tables_def)


theorem huge_usage_closes_latch_witness:
  "\<exists>s1 s2 e s3. RecordUsage None None (demo_use ''m'' max_int64) demo_users = (Inr (), s1) \<and>
     RecordUsage None None (demo_use ''n'' max_int64) s1 = (Inr (), s2) \<and>
     GetTodayUsage ''usr_u'' ''key_i'' (40 * day) s2 = (Inl e, s3) \<and> fst (AuthenticateAPIKey key_lib ''cop_k'' s3) = Inl e"
proof -
  obtain s1 where one: "RecordUsage None None (demo_use ''m'' max_int64) demo_users = (Inr (), s1)" "demo_ready s1"
    using demo_records [OF demo_ready_users(1)] by blast
  obtain s2 where two: "RecordUsage None None (demo_use ''n'' max_int64) s1 = (Inr (), s2)"
    using demo_records [OF one(2)] by blast
  have keys: "record_key (demo_use ''m'' max_int64) (40 * day) \<noteq> record_key (demo_use ''n'' max_int64) (40 * day)"
    by (simp add: record_key_def normalizeUsageText_def)
  show ?thesis
    using huge_usage_closes_latch [OF _ demo_ready_users(2) demo_forty one(1) two _ _ keys, of "''usr_u''" "''key_i''"] one two
    by (auto simp: max_int64_def)
qed

lemma demo_recorded:
  assumes "RecordUsage None None (demo_use ''m'' 5) demo_users = (Inr (), s')"
  shows "usage_buckets (db s') = [(record_key (demo_use ''m'' 5) (40 * day), new_row (demo_use ''m'' 5) demo_users)]"
    "users (db s') = users (db demo_users)" "healthy_store s'"
  using assms
  by (cases rule: record_cases;
      use bucket_today(1) [OF demo_forty] in \<open>simp add: record_time_def upsert_bucket_def prune_buckets_def not_less
        demo_ready_users(2) usageConfigTrackingEnabled_def record_key_def day_def go_time\<close>)+

definition demo_row :: "bucket_key \<times> bucket_row" where
  "demo_row = (record_key (demo_use ''m'' 5) (40 * day), new_row (demo_use ''m'' 5) demo_users)"

lemma forty_days: "usageBucketStart (40 * day) = 40 * day" "time_truncate (40 * day) day = 40 * day"
  "time_truncate (40 * day) hour = 40 * day" "db_representable (40 * day)" "db_representable (40 * day + 10 * minute)"
  by (simp_all add: usageBucketStart_def usageBucketDuration_def time_truncate_def day_def go_time db_representable_def
      seconds_of_def max_db_seconds_def)

lemma demo_window:
  "usageTimeseriesWindow ''today'' (40 * day) = Some (''today'', 40 * day, 40 * day + 10 * minute)"
  "usageTimeseriesStep ''1h'' ''today'' = Some (''1h'', hour)"
  "usageTimeseriesGroupBy [''model''] = Some [''model'']" "usageTimeseriesFill ''zero'' = Some True"
proof -
  have "lower_ascii_view (trim_space ''today'') = ''today''" "lower_ascii_view (trim_space ''1h'') = ''1h''"
    "lower_ascii_view (trim_space ''zero'') = ''zero''" by code_simp+
  then show "usageTimeseriesWindow ''today'' (40 * day) = Some (''today'', 40 * day, 40 * day + 10 * minute)"
    "usageTimeseriesStep ''1h'' ''today'' = Some (''1h'', hour)" "usageTimeseriesFill ''zero'' = Some True"
    by (simp_all add: usageTimeseriesWindow_def forty_days usageBucketDuration_def usageTimeseriesStep_def usageTimeseriesFill_def)
  show "usageTimeseriesGroupBy [''model''] = Some [''model'']" by code_simp
qed

lemma demo_row_simps:
  "bk_start (fst demo_row) = formatDBTime (40 * day)" "bk_user_id (fst demo_row) = ''usr_u''"
  "counters_of [demo_row] = [record_counters (demo_use ''m'' 5)]"
  "br_counters (snd demo_row) = record_counters (demo_use ''m'' 5)"
  by (simp_all add: demo_row_def record_key_def forty_days counters_of_def new_row_def)

lemma demo_series_rows:
  assumes "usage_buckets t = [demo_row]" "users t = users (db demo_users)"
  shows "series_rows t (40 * day) (40 * day + 10 * minute) [] [] = [demo_row]"
proof -
  have "\<not> db_le (40 * day + 10 * minute) (40 * day)"
    using db_le_whole_seconds [OF forty_days(5,4)] by (simp add: nanos_of_def day_def go_time)
  then show ?thesis by (simp add: series_rows_def assms demo_row_simps db_le_def)
qed

lemma demo_counters: "record_counters (demo_use ''m'' 5) = zero_counters\<lparr>RequestCount := 1, TotalTokens := 5\<rparr>"
  by (simp add: record_counters_def demo_use_def normalized_def zero_counters_def)

lemma demo_sum: "sum_counters [record_counters (demo_use ''m'' 5)] = Some (record_counters (demo_use ''m'' 5))"
  by (simp add: demo_counters sum_counters_def zero_counters_def in_int64_def go_time)

theorem series_conserves_witness:
  "\<exists>s1 ts s2. RecordUsage None None (demo_use ''m'' 5) demo_users = (Inr (), s1) \<and>
     GetUsageTimeseries ''today'' ''1h'' [''model''] ''zero'' [] [] (40 * day) s1 = (Inr ts, s2) \<and>
     points_sum TotalTokens (ts_Series ts) = 5"
proof -
  obtain s1 where one: "RecordUsage None None (demo_use ''m'' 5) demo_users = (Inr (), s1)"
    using demo_records [OF demo_ready_users(1)] by blast
  note s1 = demo_recorded [OF one, folded demo_row_def]
  have rows: "series_rows (db s1) (40 * day) (40 * day + 10 * minute) [] [] = [demo_row]"
    by (rule demo_series_rows [OF s1(1,2)])
  have now: "40 * day \<noteq> 0" by (simp add: day_def go_time)
  have "\<exists>points s2. queryUsageTimeseries ''read usage timeseries'' (40 * day) (40 * day + 10 * minute) hour [''model''] [] [] s1
      = (Inr points, s2)"
    using s1(3) demo_row_simps(1)
    by (simp add: queryUsageTimeseries_def rows series_groups_def demo_row_simps(3) demo_sum series_group_def
        formatDBTime_roundtrip forty_days)
  then obtain points s2 where "queryUsageTimeseries ''read usage timeseries'' (40 * day) (40 * day + 10 * minute) hour [''model''] [] [] s1
      = (Inr points, s2)" by blast
  then have "\<exists>ts. GetUsageTimeseries ''today'' ''1h'' [''model''] ''zero'' [] [] (40 * day) s1 = (Inr ts, s2) \<and>
      ts_Start ts = 40 * day \<and> ts_End ts = 40 * day + 10 * minute"
    using s1(3) now by (simp add: GetUsageTimeseries_def demo_window)
  then obtain ts where ts: "GetUsageTimeseries ''today'' ''1h'' [''model''] ''zero'' [] [] (40 * day) s1 = (Inr ts, s2)"
    "ts_Start ts = 40 * day" "ts_End ts = 40 * day + 10 * minute" by blast
  have ok: "\<forall>r\<in>set (usage_buckets (db s1)). bucket_ok r"
  proof -
    have "nonneg (record_counters (demo_use ''m'' 5))"
      by (simp add: nonneg_def columns_def demo_counters zero_counters_def)
    moreover have "nanos_of (40 * day) = 0" "day \<le> 40 * day" by (simp_all add: nanos_of_def day_def go_time)
    ultimately show ?thesis using forty_days(4) by (auto simp: s1(1) bucket_ok_def demo_row_simps)
  qed
  have cols: "\<forall>f\<in>set columns. column_sum f [demo_row] \<le> max_int64"
    by (simp add: columns_def demo_row_simps demo_counters zero_counters_def go_time)
  have "points_sum TotalTokens (ts_Series ts) = 5"
    using series_conserves [OF ts(1) ok, unfolded ts(2,3) trim_space_Nil rows, OF cols forty_days(4,5)]
    by (simp add: columns_def demo_row_simps)
  with one ts(1) show ?thesis by blast
qed

end
