(* ===== verification/Session_Affinity.thy ===== *)
theory Session_Affinity
  imports Health_Store
begin

text \<open>
  Session affinity (\<open>session_affinity.go\<close>): which credential a client session sticks to. A session is
  known by digests of its signals (session id, prompt cache key, conversation id) under a tenant; the
  table \<open>session_affinity_bindings\<close> maps each digest to a binding, and the digests of one binding
  share a binding digest. Lookup, bind and rebind read the rows of all digests and of their
  groups, choose a winner, and write it back under every digest in one transaction.

  The iteration over the Go map \<open>byDigest\<close> is the order of an association list; the winner does not
  depend on it.
\<close>

section \<open>Signals and digests\<close>

text \<open>\<open>utf8.DecodeRune\<close>: the first code point of valid UTF-8, and the bytes it takes after the first.\<close>

fun decode_rune :: "nat list \<Rightarrow> (nat \<times> nat) option" where
  "decode_rune [] = None"
| "decode_rune (b0 # rest) =
     (let cont = (\<lambda>i. i < length rest \<and> 0x80 \<le> rest ! i \<and> rest ! i \<le> 0xBF);
          low = (if b0 = 0xE0 then 0xA0 else if b0 = 0xF0 then 0x90 else 0x80);
          high = (if b0 = 0xED then 0x9F else if b0 = 0xF4 then 0x8F else 0xBF);
          b = (\<lambda>i. rest ! i mod 64)
      in if b0 < 0x80 then Some (b0, 0)
         else if rest = [] \<or> \<not> (low \<le> rest ! 0 \<and> rest ! 0 \<le> high) then None
         else if 0xC2 \<le> b0 \<and> b0 \<le> 0xDF then Some ((b0 mod 32) * 64 + b 0, 1)
         else if 0xE0 \<le> b0 \<and> b0 \<le> 0xEF then
           (if cont 1 then Some ((b0 mod 16) * 4096 + b 0 * 64 + b 1, 2) else None)
         else if 0xF0 \<le> b0 \<and> b0 \<le> 0xF4 then
           (if cont 1 \<and> cont 2
            then Some ((b0 mod 8) * 262144 + b 0 * 4096 + b 1 * 64 + b 2, 3) else None)
         else None)"

function utf8_runes :: "nat list \<Rightarrow> nat list option" where
  "utf8_runes [] = Some []"
| "utf8_runes (b0 # rest) =
     (case decode_rune (b0 # rest) of
        None \<Rightarrow> None
      | Some (r, n) \<Rightarrow> map_option ((#) r) (utf8_runes (drop n rest)))"
  by pat_completeness auto
termination by (relation "measure length") auto

definition runes_of :: "string \<Rightarrow> nat list option" where
  "runes_of s = utf8_runes (map of_char s)"

definition is_control :: "nat \<Rightarrow> bool" where
  "is_control r \<longleftrightarrow> r < 0x20 \<or> 0x7F \<le> r \<and> r < 0xA0"

definition maxSessionAffinitySignalBytes :: nat where "maxSessionAffinitySignalBytes = 512"

definition normalizeSessionAffinitySignal :: "string \<Rightarrow> string option" where
  "normalizeSessionAffinitySignal raw =
     (let value = trim_space raw in
      if value = [] \<or> length value > maxSessionAffinitySignalBytes then None
      else (case runes_of value of
              None \<Rightarrow> None
            | Some rs \<Rightarrow> if list_ex is_control rs then None else Some value))"

record sessionAffinitySignal =
  signal_Kind :: string
  signal_Value :: string

definition affinity_kinds :: "string list" where
  "affinity_kinds = [''session_id'', ''prompt_cache_key'', ''conversation_id'']"

definition sessionAffinityTenantScopeDigest :: "go_lib \<Rightarrow> string \<Rightarrow> string" where
  "sessionAffinityTenantScopeDigest lib scope =
     (if trim_space scope = [] then [] else sha256_hex lib (trim_space scope))"

text \<open>The bytes that are hashed, when there is something to hash.\<close>

definition signal_preimage :: "string \<Rightarrow> sessionAffinitySignal \<Rightarrow> string option" where
  "signal_preimage scope0 sig =
     (let scope = trim_space scope0 in
      case normalizeSessionAffinitySignal (signal_Value sig) of
        None \<Rightarrow> None
      | Some value \<Rightarrow>
          if scope = [] then None
          else if signal_Kind sig \<in> set affinity_kinds
          then Some (scope @ [CHR 0x00] @ signal_Kind sig @ [CHR 0x00] @ value)
          else None)"

definition digestSessionAffinitySignal :: "go_lib \<Rightarrow> string \<Rightarrow> sessionAffinitySignal \<Rightarrow> string" where
  "digestSessionAffinitySignal lib scope sig =
     (case signal_preimage scope sig of None \<Rightarrow> [] | Some p \<Rightarrow> sha256_hex lib p)"

definition digestSessionAffinitySignals :: "go_lib \<Rightarrow> string \<Rightarrow> sessionAffinitySignal list \<Rightarrow> string list" where
  "digestSessionAffinitySignals lib scope sigs =
     collect_new (\<lambda>sig. let d = digestSessionAffinitySignal lib scope sig in if d = [] then None else Some d) [] sigs"

definition is_hex :: "char \<Rightarrow> bool" where
  "is_hex c \<longleftrightarrow> is_digit c \<or> CHR ''a'' \<le> c \<and> c \<le> CHR ''f'' \<or> CHR ''A'' \<le> c \<and> c \<le> CHR ''F''"

definition valid_digest :: "string \<Rightarrow> bool" where
  "valid_digest d \<longleftrightarrow> length d = 64 \<and> list_all is_hex d"

definition normalizeSessionAffinityDigests :: "string list \<Rightarrow> string list" where
  "normalizeSessionAffinityDigests ds =
     collect_new (\<lambda>d. if valid_digest (trim_space d) then Some (trim_space d) else None) [] ds"

definition canonicalSessionAffinityDigest :: "string list \<Rightarrow> string" where
  "canonicalSessionAffinityDigest ds0 =
     (let ds = normalizeSessionAffinityDigests ds0 in if ds = [] then [] else hd (sort ds))"

section \<open>Rows\<close>

record sessionAffinityRow =
  Digest :: string
  BindingDigest :: string
  TenantScopeDigest :: string
  row_AuthID :: string
  Created :: time
  Updated :: time
  Expires :: time

record SessionAffinityBinding =
  b_Digests :: "string list"
  b_BindingDigest :: string
  b_TenantScopeDigest :: string
  b_AuthID :: string

definition binding_valid :: "SessionAffinityBinding \<Rightarrow> bool" where
  "binding_valid b \<longleftrightarrow>
     trim_space (b_AuthID b) \<noteq> [] \<and> canonicalSessionAffinityDigest [b_BindingDigest b] \<noteq> [] \<and>
     length (normalizeSessionAffinityDigests (b_Digests b)) > 0"

definition sessionAffinityExpiry :: duration where "sessionAffinityExpiry = hour"
definition sessionAffinityRenewalThreshold :: duration where "sessionAffinityRenewalThreshold = 30 * minute"
definition sessionAffinityCleanupInterval :: duration where "sessionAffinityCleanupInterval = 5 * minute"
definition sessionAffinityCleanupBatchSize :: int where "sessionAffinityCleanupBatchSize = 100"

definition row_of_columns :: "string \<Rightarrow> affinity_row \<Rightarrow> sessionAffinityRow option" where
  "row_of_columns digest c =
     (case (parseDBTime (ar_created_at c), parseDBTime (ar_updated_at c), parseDBTime (ar_expires_at c)) of
        (Some t0, Some t1, Some t2) \<Rightarrow>
          Some \<lparr>Digest = digest, BindingDigest = ar_binding_digest c, TenantScopeDigest = ar_tenant_scope c,
                row_AuthID = ar_auth_id c, Created = t0, Updated = t1, Expires = t2\<rparr>
      | _ \<Rightarrow> None)"

text \<open>\<open>raw_sql\<close> is a statement whose error the caller wraps; \<open>wrap\<close> is that caller.\<close>

definition raw_sql :: "user_store \<Rightarrow> (user_store \<Rightarrow> 'a outcome) \<Rightarrow> 'a outcome" where
  "raw_sql s k = (case next_fault s of (Some e, s') \<Rightarrow> (Inl e, s') | (None, s') \<Rightarrow> k s')"

definition wrap :: "tables \<Rightarrow> string \<Rightarrow> 'b outcome \<Rightarrow> ('b \<Rightarrow> user_store \<Rightarrow> 'a outcome) \<Rightarrow> 'a outcome" where
  "wrap base operation m k =
     (case m of (Inl e, s') \<Rightarrow> store_error operation e (s'\<lparr>db := base\<rparr>) | (Inr x, s') \<Rightarrow> k x s')"

fun scan_affinity_rows ::
  "(string \<times> affinity_row) list \<Rightarrow> sessionAffinityRow list \<Rightarrow> user_store \<Rightarrow> (sessionAffinityRow list) outcome" where
  "scan_affinity_rows [] acc s = raw_sql s (\<lambda>s. raw_sql s (\<lambda>s. (Inr acc, s)))"
| "scan_affinity_rows ((digest, c) # rows) acc s =
     (case row_of_columns digest c of
        None \<Rightarrow> (Inl (PlainError ''parse database time''), s)
      | Some row \<Rightarrow> scan_affinity_rows rows (acc @ [row]) s)"

text \<open>\<open>column\<close> selects the session or the binding digest of a row.\<close>

definition readSessionAffinityRows ::
  "(string \<times> affinity_row \<Rightarrow> string) \<Rightarrow> string list \<Rightarrow> user_store \<Rightarrow> (sessionAffinityRow list) outcome" where
  "readSessionAffinityRows column digests0 s =
     (let digests = normalizeSessionAffinityDigests digests0 in
      if digests = [] then (Inr [], s)
      else raw_sql s (\<lambda>s.
        scan_affinity_rows (filter (\<lambda>r. column r \<in> set digests) (affinity (db s))) [] s))"

definition session_digest :: "string \<times> affinity_row \<Rightarrow> string" where "session_digest r = fst r"
definition binding_digest :: "string \<times> affinity_row \<Rightarrow> string" where "binding_digest r = ar_binding_digest (snd r)"

definition by_digest :: "sessionAffinityRow list \<Rightarrow> (string \<times> sessionAffinityRow) list" where
  "by_digest rows = fold (\<lambda>row m. AList.update (Digest row) row m) rows []"

definition loadSessionAffinityRows ::
  "string list \<Rightarrow> string list \<Rightarrow> user_store \<Rightarrow> (sessionAffinityRow list) outcome" where
  "loadSessionAffinityRows digests bindingDigests0 s =
     (case readSessionAffinityRows session_digest digests s of
        (Inl e, s') \<Rightarrow> (Inl e, s')
      | (Inr rows, s') \<Rightarrow>
          let bindingDigests = normalizeSessionAffinityDigests (bindingDigests0 @ map BindingDigest rows) in
          if bindingDigests = [] then (Inr rows, s')
          else (case readSessionAffinityRows binding_digest bindingDigests s' of
                  (Inl e, s'') \<Rightarrow> (Inl e, s'')
                | (Inr groupRows, s'') \<Rightarrow> (Inr (map snd (by_digest (rows @ groupRows))), s'')))"

definition earlier_row :: "sessionAffinityRow \<Rightarrow> sessionAffinityRow \<Rightarrow> bool" where
  "earlier_row row winner \<longleftrightarrow>
     Created row < Created winner \<or> Created row = Created winner \<and> Digest row < Digest winner"

definition chooseSessionAffinityWinner :: "sessionAffinityRow list \<Rightarrow> time \<Rightarrow> sessionAffinityRow option" where
  "chooseSessionAffinityWinner rows now = scan earlier_row None (filter (\<lambda>row. Expires row > now) rows)"

interpretation winner: scan_order earlier_row Digest
  by unfold_locales (auto simp: earlier_row_def)

definition sessionAffinityRowDigests :: "sessionAffinityRow list \<Rightarrow> string list \<Rightarrow> string list" where
  "sessionAffinityRowDigests rows requested = normalizeSessionAffinityDigests (requested @ map Digest rows)"

definition sessionAffinityNeedsWrite ::
  "sessionAffinityRow list \<Rightarrow> string list \<Rightarrow> sessionAffinityRow \<Rightarrow> string \<Rightarrow> time \<Rightarrow> bool" where
  "sessionAffinityNeedsWrite rows digests win tenantScopeDigest now =
     (if \<not> Updated win + sessionAffinityRenewalThreshold > now then True
      else
        let active = by_digest (filter (\<lambda>row. Expires row > now) rows) in
        list_ex (\<lambda>digest.
          case map_of active digest of
            None \<Rightarrow> True
          | Some row \<Rightarrow>
              row_AuthID row \<noteq> row_AuthID win \<or> BindingDigest row \<noteq> BindingDigest win \<or>
              tenantScopeDigest \<noteq> [] \<and> TenantScopeDigest row \<noteq> tenantScopeDigest) digests)"

section \<open>Writing\<close>

definition update_affinity ::
  "((string \<times> affinity_row) list \<Rightarrow> (string \<times> affinity_row) list) \<Rightarrow> user_store \<Rightarrow> user_store" where
  "update_affinity f = with_db (\<lambda>d. d\<lparr>affinity := f (affinity d)\<rparr>)"

definition alias_columns :: "sessionAffinityRow \<Rightarrow> affinity_row" where
  "alias_columns win =
     \<lparr>ar_binding_digest = BindingDigest win, ar_tenant_scope = TenantScopeDigest win,
      ar_auth_id = row_AuthID win, ar_created_at = formatDBTime (Created win),
      ar_updated_at = formatDBTime (Updated win), ar_expires_at = formatDBTime (Expires win)\<rparr>"

fun write_aliases :: "affinity_row \<Rightarrow> string list \<Rightarrow> user_store \<Rightarrow> unit outcome" where
  "write_aliases c [] s = (Inr (), s)"
| "write_aliases c (digest # ds) s =
     raw_sql s (\<lambda>s. write_aliases c ds (update_affinity (AList.update digest c) s))"

definition complete_winner :: "string list \<Rightarrow> time \<Rightarrow> sessionAffinityRow \<Rightarrow> sessionAffinityRow" where
  "complete_winner digests now w0 =
     (let w1 = (if BindingDigest w0 = [] then w0\<lparr>BindingDigest := canonicalSessionAffinityDigest digests\<rparr> else w0);
          w2 = (if is_zero_time (Created w1) then w1\<lparr>Created := now\<rparr> else w1);
          w3 = (if is_zero_time (Updated w2) then w2\<lparr>Updated := now\<rparr> else w2)
      in if is_zero_time (Expires w3) \<or> \<not> Expires w3 > now
         then w3\<lparr>Expires := Updated w3 + sessionAffinityExpiry\<rparr> else w3)"

definition writeSessionAffinityAliases ::
  "string list \<Rightarrow> sessionAffinityRow \<Rightarrow> time \<Rightarrow> user_store \<Rightarrow> unit outcome" where
  "writeSessionAffinityAliases digests win now s =
     write_aliases (alias_columns (complete_winner digests now win)) digests s"

definition binding_of :: "string list \<Rightarrow> sessionAffinityRow \<Rightarrow> SessionAffinityBinding" where
  "binding_of digests win =
     \<lparr>b_Digests = digests, b_BindingDigest = BindingDigest win, b_TenantScopeDigest = TenantScopeDigest win,
      b_AuthID = row_AuthID win\<rparr>"

definition fill_scope :: "string \<Rightarrow> sessionAffinityRow \<Rightarrow> sessionAffinityRow" where
  "fill_scope scope win =
     (if TenantScopeDigest win = [] \<and> scope \<noteq> [] then win\<lparr>TenantScopeDigest := scope\<rparr> else win)"

definition fresh_winner :: "string list \<Rightarrow> string \<Rightarrow> string \<Rightarrow> time \<Rightarrow> sessionAffinityRow" where
  "fresh_winner digests scope authID now =
     \<lparr>Digest = [], BindingDigest = canonicalSessionAffinityDigest digests, TenantScopeDigest = scope,
      row_AuthID = authID, Created = now, Updated = now, Expires = now + sessionAffinityExpiry\<rparr>"

section \<open>Lookup, bind and rebind\<close>

definition refreshSessionAffinity ::
  "string \<Rightarrow> string list \<Rightarrow> user_store \<Rightarrow> (SessionAffinityBinding option) outcome" where
  "refreshSessionAffinity scope digests s =
     (let base = db s in
      sql base ''begin refresh session affinity'' s (\<lambda>s.
      wrap base ''read session affinity for refresh'' (loadSessionAffinityRows digests [] s) (\<lambda>rows s.
      let now = clock s; allDigests = sessionAffinityRowDigests rows digests in
      case chooseSessionAffinityWinner rows now of
        None \<Rightarrow> (Inr None, s\<lparr>db := base\<rparr>)
      | Some w0 \<Rightarrow>
          let w1 = fill_scope scope w0;
              win = (if \<not> Updated w1 + sessionAffinityRenewalThreshold > now
                     then w1\<lparr>Updated := now, Expires := now + sessionAffinityExpiry\<rparr> else w1)
          in wrap base ''refresh session affinity aliases'' (writeSessionAffinityAliases allDigests win now s) (\<lambda>_ s.
             sql base ''commit refreshed session affinity'' s (\<lambda>s.
             (Inr (Some (binding_of allDigests win)), s))))))"

definition lookupSessionAffinity ::
  "string \<Rightarrow> string list \<Rightarrow> user_store \<Rightarrow> (SessionAffinityBinding option) outcome" where
  "lookupSessionAffinity scope digests0 s = ready s (\<lambda>s.
     let digests = normalizeSessionAffinityDigests digests0 in
     if digests = [] then (Inr None, s)
     else
       let now = clock s in
       wrap (db s) ''lookup session affinity'' (loadSessionAffinityRows digests [] s) (\<lambda>rows s.
       case chooseSessionAffinityWinner rows now of
         None \<Rightarrow> (Inr None, s)
       | Some w0 \<Rightarrow>
           let win = fill_scope scope w0 in
           if sessionAffinityNeedsWrite rows digests win scope now
           then refreshSessionAffinity scope digests s
           else (Inr (Some (binding_of (sessionAffinityRowDigests rows digests) win)), s)))"

definition bindSessionAffinity ::
  "string \<Rightarrow> string list \<Rightarrow> string \<Rightarrow> user_store \<Rightarrow> SessionAffinityBinding outcome" where
  "bindSessionAffinity scope digests0 candidate0 s = ready s (\<lambda>s.
     let digests = normalizeSessionAffinityDigests digests0; candidate = trim_space candidate0 in
     if digests = [] \<or> candidate = [] then (Inl ErrInvalidInput, s)
     else
       let base = db s in
       sql base ''begin bind session affinity'' s (\<lambda>s.
       wrap base ''read session affinity before bind'' (loadSessionAffinityRows digests [] s) (\<lambda>rows s.
       let now = clock s; allDigests = sessionAffinityRowDigests rows digests;
           w0 = (case chooseSessionAffinityWinner rows now of
                   Some w \<Rightarrow> w | None \<Rightarrow> fresh_winner allDigests scope candidate now);
           win = fill_scope scope w0
       in wrap base ''write session affinity binding'' (writeSessionAffinityAliases allDigests win now s) (\<lambda>_ s.
          sql base ''commit session affinity binding'' s (\<lambda>s.
          (Inr (binding_of allDigests win), s))))))"

definition RebindSessionAffinity ::
  "SessionAffinityBinding \<Rightarrow> string \<Rightarrow> user_store \<Rightarrow> SessionAffinityBinding outcome" where
  "RebindSessionAffinity b candidate0 s = ready s (\<lambda>s.
     let digests = normalizeSessionAffinityDigests (b_Digests b);
         expected = trim_space (b_AuthID b); candidate = trim_space candidate0 in
     if digests = [] \<or> expected = [] \<or> candidate = [] then (Inl ErrInvalidInput, s)
     else
       let base = db s in
       sql base ''begin rebind session affinity'' s (\<lambda>s.
       wrap base ''read session affinity before rebind''
         (loadSessionAffinityRows digests [b_BindingDigest b] s) (\<lambda>rows s.
       let now = clock s; allDigests = sessionAffinityRowDigests rows digests;
           w0 = (case chooseSessionAffinityWinner rows now of
                   None \<Rightarrow> fresh_winner allDigests (b_TenantScopeDigest b) candidate now
                 | Some w \<Rightarrow>
                     if row_AuthID w = expected
                     then w\<lparr>row_AuthID := candidate, Updated := now, Expires := now + sessionAffinityExpiry\<rparr>
                     else w);
           win = fill_scope (b_TenantScopeDigest b) w0
       in wrap base ''write rebound session affinity'' (writeSessionAffinityAliases allDigests win now s) (\<lambda>_ s.
          sql base ''commit rebound session affinity'' s (\<lambda>s.
          (Inr (binding_of allDigests win), s))))))"

section \<open>Deletion, counting, cleanup\<close>

definition delete_affinity ::
  "string \<Rightarrow> string \<Rightarrow> (string \<times> affinity_row \<Rightarrow> bool) \<Rightarrow> user_store \<Rightarrow> int outcome" where
  "delete_affinity op1 op2 gone s =
     sql (db s) op1 s (\<lambda>s.
       let n = length (filter gone (affinity (db s)));
           s' = update_affinity (filter (\<lambda>r. \<not> gone r)) s
       in sql (db s') op2 s' (\<lambda>s. (Inr (int n), s)))"

definition DeleteSessionAffinityByAuthIDs :: "string list \<Rightarrow> user_store \<Rightarrow> int outcome" where
  "DeleteSessionAffinityByAuthIDs authIDs0 s = ready s (\<lambda>s.
     let authIDs = normalizeStrings authIDs0 in
     if authIDs = [] then (Inr 0, s)
     else delete_affinity ''delete session affinity for removed auths''
            ''read removed auth session affinity count''
            (\<lambda>r. ar_auth_id (snd r) \<in> set authIDs) s)"

definition DeleteSessionAffinityExceptAuthIDs :: "string list \<Rightarrow> user_store \<Rightarrow> int outcome" where
  "DeleteSessionAffinityExceptAuthIDs authIDs0 s = ready s (\<lambda>s.
     let authIDs = normalizeStrings authIDs0 in
     delete_affinity ''delete session affinity for unavailable auths''
       ''read unavailable auth session affinity count''
       (\<lambda>r. if authIDs \<noteq> [] then ar_auth_id (snd r) \<notin> set authIDs else True) s)"

definition count_bindings :: "(string \<times> affinity_row) list \<Rightarrow> int" where
  "count_bindings rows = int (length (remdups (map binding_digest rows)))"

definition CountSessionAffinityBindingsByAuthIDs :: "string list \<Rightarrow> user_store \<Rightarrow> ((string \<times> int) list) outcome" where
  "CountSessionAffinityBindingsByAuthIDs authIDs0 s = ready s (\<lambda>s.
     let authIDs = normalizeStrings authIDs0 in
     if authIDs = [] then (Inr [], s)
     else sql (db s) ''count auth session affinity bindings'' s (\<lambda>s.
       let live = filter (\<lambda>r. ar_auth_id (snd r) \<in> set authIDs \<and> ar_expires_at (snd r) > formatDBTime (clock s))
                    (affinity (db s));
           counts = map (\<lambda>i. (i, count_bindings (filter (\<lambda>r. ar_auth_id (snd r) = i) live)))
                      (remdups (map (\<lambda>r. ar_auth_id (snd r)) live))
       in sql (db s) ''read auth session affinity counts'' s (\<lambda>s. (Inr counts, s))))"

definition deleteSessionAffinityBindingsWithArgs ::
  "(string \<times> affinity_row \<Rightarrow> bool) \<Rightarrow> (tables \<Rightarrow> string \<times> affinity_row \<Rightarrow> bool) \<Rightarrow> user_store \<Rightarrow> int outcome" where
  "deleteSessionAffinityBindingsWithArgs countWhere deleteWhere s = ready s (\<lambda>s.
     let base = db s in
     sql base ''begin clear session affinity'' s (\<lambda>s.
     sql base ''count cleared session affinity'' s (\<lambda>s.
     let n = count_bindings (filter countWhere (affinity (db s))) in
     sql base ''clear session affinity'' s (\<lambda>s.
     let s' = update_affinity (filter (\<lambda>r. \<not> deleteWhere (db s) r)) s in
     sql base ''commit cleared session affinity'' s' (\<lambda>s. (Inr n, s))))))"

definition DeleteSessionAffinityByTenantScope :: "go_lib \<Rightarrow> string \<Rightarrow> user_store \<Rightarrow> int outcome" where
  "DeleteSessionAffinityByTenantScope lib scope s =
     (let d = sessionAffinityTenantScopeDigest lib scope in
      if d = [] then (Inl ErrInvalidInput, s)
      else deleteSessionAffinityBindingsWithArgs (\<lambda>r. ar_tenant_scope (snd r) = d)
             (\<lambda>_ r. ar_tenant_scope (snd r) = d) s)"

definition DeleteSessionAffinityByTenantSession :: "go_lib \<Rightarrow> string \<Rightarrow> string \<Rightarrow> user_store \<Rightarrow> int outcome" where
  "DeleteSessionAffinityByTenantSession lib scope rawSessionKey s =
     (let d = sessionAffinityTenantScopeDigest lib scope in
      case normalizeSessionAffinitySignal rawSessionKey of
        None \<Rightarrow> (Inl ErrInvalidInput, s)
      | Some v \<Rightarrow>
          if d = [] then (Inl ErrInvalidInput, s)
          else
            let digests = digestSessionAffinitySignals lib scope
                  (map (\<lambda>k. \<lparr>signal_Kind = k, signal_Value = v\<rparr>) affinity_kinds);
                hit = (\<lambda>r. ar_tenant_scope (snd r) = d \<and> session_digest r \<in> set digests)
            in deleteSessionAffinityBindingsWithArgs hit
                 (\<lambda>t r. ar_tenant_scope (snd r) = d \<and>
                        binding_digest r \<in> set (map binding_digest (filter hit (affinity t)))) s)"

definition DeleteSessionAffinityByAccountID :: "string \<Rightarrow> user_store \<Rightarrow> int outcome" where
  "DeleteSessionAffinityByAccountID authID0 s =
     (let authID = trim_space authID0 in
      if authID = [] then (Inl ErrInvalidInput, s)
      else deleteSessionAffinityBindingsWithArgs (\<lambda>r. ar_auth_id (snd r) = authID)
             (\<lambda>_ r. ar_auth_id (snd r) = authID) s)"

text \<open>The batch the cleanup deletes: the first expired digests in the order of the expiry text.\<close>

definition expired_batch :: "int \<Rightarrow> time \<Rightarrow> (string \<times> affinity_row) list \<Rightarrow> string list" where
  "expired_batch limit now rows =
     take (nat limit) (map fst
       (sort_key (\<lambda>r. ar_expires_at (snd r)) (filter (\<lambda>r. ar_expires_at (snd r) \<le> formatDBTime now) rows)))"

definition CleanupExpiredSessionAffinity :: "int \<Rightarrow> user_store \<Rightarrow> int outcome" where
  "CleanupExpiredSessionAffinity limit0 s = ready s (\<lambda>s.
     let limit = (if limit0 \<le> 0 then sessionAffinityCleanupBatchSize else limit0);
         batch = expired_batch limit (clock s) (affinity (db s))
     in delete_affinity ''cleanup expired session affinity'' ''read expired session affinity cleanup count''
          (\<lambda>r. session_digest r \<in> set batch) s)"

definition maybeCleanupExpiredSessionAffinity :: "user_store \<Rightarrow> unit outcome" where
  "maybeCleanupExpiredSessionAffinity s =
     (let now = clock s in
      if \<not> is_zero_time (nextAffinityCleanupAt s) \<and> now < nextAffinityCleanupAt s then (Inr (), s)
      else (case CleanupExpiredSessionAffinity sessionAffinityCleanupBatchSize s of
              (Inl e, s') \<Rightarrow> (Inl e, s')
            | (Inr deleted, s') \<Rightarrow>
                (Inr (), s'\<lparr>nextAffinityCleanupAt :=
                   (if deleted < sessionAffinityCleanupBatchSize
                    then now + sessionAffinityCleanupInterval else now)\<rparr>)))"

section \<open>Transactions are atomic\<close>

lemma keeps_sql_base:
  assumes "\<And>s'. keeps_on_error base (k s')"
  shows "keeps_on_error base (sql base op s k)"
proof -
  obtain r s' where "next_fault s = (r, s')" by fastforce
  with assms show ?thesis by (cases r) (simp_all add: sql_def)
qed

lemma keeps_wrap:
  assumes "\<And>x s'. keeps_on_error base (k x s')"
  shows "keeps_on_error base (wrap base op m k)"
proof -
  obtain q s' where "m = (q, s')" by fastforce
  with assms show ?thesis by (cases q) (simp_all add: wrap_def)
qed

lemmas keeps_rules = keeps_sql_base keeps_wrap

lemma keeps_refresh: "keeps_on_error (db s) (refreshSessionAffinity scope ds s)"
  unfolding refreshSessionAffinity_def Let_def
  by (auto intro!: keeps_rules split: option.split)

lemma keeps_bind: "keeps_on_error (db s) (bindSessionAffinity scope ds c s)"
  unfolding bindSessionAffinity_def Let_def
  by (rule keeps_ready) (auto intro!: keeps_rules)

lemma keeps_rebind: "keeps_on_error (db s) (RebindSessionAffinity b c s)"
  unfolding RebindSessionAffinity_def Let_def
  by (rule keeps_ready) (auto intro!: keeps_rules)

lemma keeps_clear: "keeps_on_error (db s) (deleteSessionAffinityBindingsWithArgs cw dw s)"
  unfolding deleteSessionAffinityBindingsWithArgs_def Let_def
  by (rule keeps_ready) (auto intro!: keeps_rules)

section \<open>Reading and writing on a store that does not fail\<close>

lemma healthy_raw [simp]: "healthy_store s \<Longrightarrow> raw_sql s k = k s"
  by (simp add: raw_sql_def next_fault_def healthy_store_def)

lemma wrap_Inr [simp]: "wrap base op (Inr x, s) k = k x s"
  by (simp add: wrap_def)

lemma update_affinity_simps [simp]:
  "affinity (db (update_affinity f s)) = f (affinity (db s))" "clock (update_affinity f s) = clock s"
  "healthy_store (update_affinity f s) = healthy_store s"
  by (simp_all add: update_affinity_def)

definition parsed_affinity :: "string \<times> affinity_row \<Rightarrow> sessionAffinityRow" where
  "parsed_affinity r = the (row_of_columns (fst r) (snd r))"

definition table_ok :: "(string \<times> affinity_row) list \<Rightarrow> bool" where
  "table_ok rows \<longleftrightarrow> keys_distinct rows \<and>
     (\<forall>(d, c)\<in>set rows. valid_digest d \<and> valid_digest (ar_binding_digest c) \<and> row_of_columns d c \<noteq> None)"

lemma row_of_columns_fields:
  assumes "row_of_columns d c \<noteq> None"
  shows "Digest (parsed_affinity (d, c)) = d" "BindingDigest (parsed_affinity (d, c)) = ar_binding_digest c"
    "row_AuthID (parsed_affinity (d, c)) = ar_auth_id c" "TenantScopeDigest (parsed_affinity (d, c)) = ar_tenant_scope c"
    "parseDBTime (ar_expires_at c) = Some (Expires (parsed_affinity (d, c)))"
  using assms by (auto simp: parsed_affinity_def row_of_columns_def split: option.splits)

lemma scan_affinity_ok:
  assumes "healthy_store s" "\<forall>(d, c)\<in>set rows. row_of_columns d c \<noteq> None"
  shows "scan_affinity_rows rows acc s = (Inr (acc @ map parsed_affinity rows), s)"
  using assms
  by (induction rows acc s rule: scan_affinity_rows.induct) (auto simp: parsed_affinity_def)

lemma valid_digest_trim: "valid_digest d \<Longrightarrow> trim_space d = d"
proof -
  assume v: "valid_digest d"
  have hex: "is_hex c \<Longrightarrow> plain_char c" for c
    unfolding is_hex_def is_digit_def plain_char_def less_eq_char_def by auto
  from v have "d \<noteq> []" by (auto simp: valid_digest_def)
  then show ?thesis
    using v hex by (intro trim_space_plain) (auto simp: valid_digest_def list_all_iff)
qed

lemma set_normalize_digests: "set (normalizeSessionAffinityDigests ds) = {d \<in> trim_space ` set ds. valid_digest d}"
  by (auto simp: normalizeSessionAffinityDigests_def set_collect_new)

lemma normalize_idem [simp]:
  "normalizeSessionAffinityDigests (normalizeSessionAffinityDigests ds) = normalizeSessionAffinityDigests ds"
  unfolding normalizeSessionAffinityDigests_def
  by (rule collect_new_idem) (auto simp: valid_digest_trim split: if_splits)

lemma valid_in_normalize: "valid_digest d \<Longrightarrow> d \<in> set ds \<Longrightarrow> d \<in> set (normalizeSessionAffinityDigests ds)"
  using valid_digest_trim by (auto simp: set_normalize_digests image_iff intro!: bexI [of _ d])

lemma read_ok:
  assumes "healthy_store s" "table_ok (affinity (db s))"
  shows "readSessionAffinityRows col ds s =
    (Inr (map parsed_affinity (filter (\<lambda>r. col r \<in> set (normalizeSessionAffinityDigests ds)) (affinity (db s)))), s)"
proof -
  have "\<forall>(d, c)\<in>set (filter (\<lambda>r. col r \<in> set (normalizeSessionAffinityDigests ds)) (affinity (db s))).
      row_of_columns d c \<noteq> None"
    using assms(2) by (auto simp: table_ok_def)
  from scan_affinity_ok [OF assms(1) this, of "[]"] assms(1) show ?thesis
    by (simp add: readSessionAffinityRows_def Let_def)
qed

lemma set_by_digest:
  assumes "\<forall>x\<in>set xs. \<forall>y\<in>set xs. Digest x = Digest y \<longrightarrow> x = y"
  shows "set (map snd (by_digest xs)) = set xs"
proof -
  have "set (fold (\<lambda>row m. AList.update (Digest row) row m) xs m) = (\<lambda>r. (Digest r, r)) ` (set ys \<union> set xs)"
    if "set m = (\<lambda>r. (Digest r, r)) ` set ys" "keys_distinct m"
      "\<forall>x\<in>set ys \<union> set xs. \<forall>y\<in>set ys \<union> set xs. Digest x = Digest y \<longrightarrow> x = y" for m ys xs
    using that
  proof (induction xs arbitrary: m ys)
    case (Cons x xs)
    have "set (AList.update (Digest x) x m) = insert (Digest x, x) (set m)"
    proof (cases "Digest x \<in> fst ` set m")
      case True
      then have "x \<in> set ys" using Cons.prems(1,3) by auto
      then have "map_of m (Digest x) = Some x" using Cons.prems(1,2) by auto
      then have "AList.update (Digest x) x m = m" by (induction m) auto
      then show ?thesis using \<open>x \<in> set ys\<close> Cons.prems(1) by auto
    next
      case False
      then have "AList.update (Digest x) x m = m @ [(Digest x, x)]" by (induction m) auto
      then show ?thesis by simp
    qed
    then have "set (AList.update (Digest x) x m) = (\<lambda>r. (Digest r, r)) ` set (x # ys)"
      using Cons.prems(1) by simp
    from Cons.IH [OF this] Cons.prems(2,3) show ?case by (auto simp: distinct_update)
  qed simp
  from this [of "[]" "[]" xs] assms show ?thesis by (simp add: by_digest_def image_image)
qed

text \<open>The rows a request touches: those of its digests and of every group they belong to.\<close>

definition group_bindings :: "string list \<Rightarrow> string list \<Rightarrow> (string \<times> affinity_row) list \<Rightarrow> string set" where
  "group_bindings ds extra rows =
     set (normalizeSessionAffinityDigests extra) \<union>
     binding_digest ` {r \<in> set rows. fst r \<in> set (normalizeSessionAffinityDigests ds)}"

definition touched :: "string list \<Rightarrow> string list \<Rightarrow> (string \<times> affinity_row) list \<Rightarrow> (string \<times> affinity_row) set" where
  "touched ds extra rows =
     {r \<in> set rows. fst r \<in> set (normalizeSessionAffinityDigests ds) \<or> binding_digest r \<in> group_bindings ds extra rows}"

lemma load_ok:
  assumes "healthy_store s" "table_ok (affinity (db s))"
  shows "\<exists>rows. loadSessionAffinityRows ds extra s = (Inr rows, s) \<and>
    set rows = parsed_affinity ` touched ds extra (affinity (db s))"
proof -
  let ?t = "affinity (db s)"
  let ?hit = "filter (\<lambda>r. session_digest r \<in> set (normalizeSessionAffinityDigests ds)) ?t"
  define B where "B = normalizeSessionAffinityDigests (extra @ map (BindingDigest \<circ> parsed_affinity) ?hit)"
  let ?grp = "filter (\<lambda>r. binding_digest r \<in> set B) ?t"
  have fields: "Digest (parsed_affinity r) = fst r" "BindingDigest (parsed_affinity r) = binding_digest r"
    "valid_digest (binding_digest r)" if "r \<in> set ?t" for r
    using that assms(2) row_of_columns_fields [of "fst r" "snd r"] by (auto simp: table_ok_def binding_digest_def)
  have B: "set B = group_bindings ds extra ?t"
  proof -
    have "set B = set (normalizeSessionAffinityDigests extra) \<union>
        {d \<in> trim_space ` (BindingDigest ` parsed_affinity ` set ?hit). valid_digest d}"
      by (auto simp: B_def set_normalize_digests)
    also have "{d \<in> trim_space ` (BindingDigest ` parsed_affinity ` set ?hit). valid_digest d} =
        binding_digest ` {r \<in> set ?t. fst r \<in> set (normalizeSessionAffinityDigests ds)}"
      using fields valid_digest_trim by (auto simp: session_digest_def image_iff) blast
    finally show ?thesis by (simp add: group_bindings_def)
  qed
  have union: "set ?hit \<union> set ?grp = touched ds extra ?t"
    by (auto simp: touched_def B session_digest_def)
  show ?thesis
  proof (cases "B = []")
    case True
    then have "set ?grp = {}" by simp
    with union True show ?thesis
      by (auto simp: loadSessionAffinityRows_def read_ok [OF assms] Let_def B_def [symmetric])
  next
    case False
    let ?rows = "map parsed_affinity ?hit @ map parsed_affinity ?grp"
    have "set (map snd (by_digest ?rows)) = set ?rows"
    proof (rule set_by_digest, intro ballI impI)
      fix x y assume xy: "x \<in> set ?rows" "y \<in> set ?rows" "Digest x = Digest y"
      then obtain r q where rq: "r \<in> set ?t" "q \<in> set ?t" "x = parsed_affinity r" "y = parsed_affinity q" by auto
      with xy(3) fields have "fst r = fst q" by simp
      with rq(1,2) assms(2) have "r = q"
        unfolding table_ok_def by (metis (mono_tags) distinct_map inj_onD)
      with rq show "x = y" by simp
    qed
    also have "set ?rows = parsed_affinity ` touched ds extra ?t"
      unfolding union [symmetric] by auto
    moreover have "normalizeSessionAffinityDigests B = B" by (simp add: B_def)
    ultimately show ?thesis
      using False by (simp add: loadSessionAffinityRows_def read_ok [OF assms] Let_def B_def [symmetric])
  qed
qed

lemma write_ok:
  "healthy_store s \<Longrightarrow> \<exists>s'. write_aliases c ds s = (Inr (), s') \<and> healthy_store s' \<and> clock s' = clock s \<and>
     (keys_distinct (affinity (db s)) \<longrightarrow> keys_distinct (affinity (db s'))) \<and>
     (\<forall>d. map_of (affinity (db s')) d = (if d \<in> set ds then Some c else map_of (affinity (db s)) d))"
proof (induction ds arbitrary: s)
  case (Cons d ds)
  from Cons.IH [of "update_affinity (AList.update d c) s"] Cons.prems show ?case
    by (auto simp: distinct_update)
qed auto


lemma load_obtain:
  assumes "healthy_store s" "table_ok (affinity (db s))"
  obtains rows where "loadSessionAffinityRows ds extra s = (Inr rows, s)"
    "set rows = parsed_affinity ` touched ds extra (affinity (db s))"
  using load_ok [OF assms] by blast

text \<open>The winner as a function of the set of touched rows.\<close>

definition live_winner :: "string list \<Rightarrow> string list \<Rightarrow> user_store \<Rightarrow> sessionAffinityRow \<Rightarrow> bool" where
  "live_winner ds extra s w \<longleftrightarrow>
     w \<in> parsed_affinity ` touched ds extra (affinity (db s)) \<and> Expires w > clock s \<and>
     (\<forall>v\<in>parsed_affinity ` touched ds extra (affinity (db s)). Expires v > clock s \<longrightarrow> v = w \<or> earlier_row w v)"

lemma touched_inj:
  assumes "table_ok rows" shows "inj_on Digest (parsed_affinity ` touched ds extra rows)"
proof (rule inj_onI)
  fix x y assume xy: "x \<in> parsed_affinity ` touched ds extra rows" "y \<in> parsed_affinity ` touched ds extra rows"
    "Digest x = Digest y"
  then obtain r q where rq: "r \<in> set rows" "q \<in> set rows" "x = parsed_affinity r" "y = parsed_affinity q"
    by (auto simp: touched_def)
  have "Digest (parsed_affinity r) = fst r" if "r \<in> set rows" for r
    using that assms row_of_columns_fields(1) [of "fst r" "snd r"] by (auto simp: table_ok_def)
  with rq xy(3) have "fst r = fst q" by simp
  with rq(1,2) assms have "r = q" unfolding table_ok_def by (metis (mono_tags) distinct_map inj_onD)
  with rq show "x = y" by simp
qed

lemma choose_winner:
  assumes "table_ok (affinity (db s))" "set rows = parsed_affinity ` touched ds extra (affinity (db s))"
  shows "chooseSessionAffinityWinner rows (clock s) = Some w \<longleftrightarrow> live_winner ds extra s w"
proof -
  let ?live = "filter (\<lambda>row. Expires row > clock s) rows"
  have inj: "inj_on Digest (set ?live)"
    using touched_inj [OF assms(1)] assms(2) by (auto intro: inj_on_subset)
  show ?thesis
  proof
    assume w: "chooseSessionAffinityWinner rows (clock s) = Some w"
    then show "live_winner ds extra s w"
      using scan_mem [of earlier_row None ?live w] winner.scan_least [of None ?live w] inj assms(2)
      by (auto simp: chooseSessionAffinityWinner_def live_winner_def)
  next
    assume l: "live_winner ds extra s w"
    then have mem: "w \<in> set ?live" and least: "\<forall>v\<in>set ?live. v = w \<or> earlier_row w v"
      using assms(2) by (auto simp: live_winner_def)
    obtain v where v: "scan earlier_row None ?live = Some v"
      using mem scan_None_iff [of earlier_row ?live] by (metis empty_iff empty_set not_None_eq)
    have "v \<in> set ?live" using scan_mem [OF v] by simp
    with least have "v = w \<or> earlier_row w v" by blast
    moreover have "w = v \<or> earlier_row v w" using winner.scan_least [OF v] inj mem by simp
    ultimately have "v = w" using winner.better_irrefl winner.better_trans by metis
    with v show "chooseSessionAffinityWinner rows (clock s) = Some w"
      by (simp add: chooseSessionAffinityWinner_def)
  qed
qed

lemma choose_none:
  assumes "set rows = parsed_affinity ` touched ds extra (affinity (db s))"
  shows "chooseSessionAffinityWinner rows (clock s) = None \<longleftrightarrow>
    (\<forall>v\<in>parsed_affinity ` touched ds extra (affinity (db s)). \<not> Expires v > clock s)"
  by (auto simp: chooseSessionAffinityWinner_def filter_empty_conv assms [symmetric])

lemma sub_digests_set:
  assumes "table_ok (affinity (db s))" "set rows = parsed_affinity ` touched ds extra (affinity (db s))"
  shows "set (sessionAffinityRowDigests rows (normalizeSessionAffinityDigests ds)) =
    set (normalizeSessionAffinityDigests ds) \<union> fst ` touched ds extra (affinity (db s))"
proof -
  have fields: "Digest (parsed_affinity r) = fst r" "valid_digest (fst r)" if "r \<in> set (affinity (db s))" for r
    using that assms(1) row_of_columns_fields(1) [of "fst r" "snd r"] by (auto simp: table_ok_def)
  have t: "touched ds extra (affinity (db s)) \<subseteq> set (affinity (db s))" by (auto simp: touched_def)
  have D: "set (map Digest rows) = fst ` touched ds extra (affinity (db s))"
    using fields(1) t by (auto simp: assms(2) image_image intro!: image_cong)
  have norm: "{d \<in> trim_space ` A. valid_digest d} = A" if "\<And>d. d \<in> A \<Longrightarrow> valid_digest d" for A
    using that valid_digest_trim by (auto simp: image_iff)
  show ?thesis
    unfolding sessionAffinityRowDigests_def set_normalize_digests [of "_ @ _"]
    using fields(2) t D by (subst norm) (auto simp: set_normalize_digests)
qed


lemma touched_after:
  assumes "table_ok (affinity (db s))" "keys_distinct (affinity (db s'))"
    and "\<And>d. map_of (affinity (db s')) d =
      (if d \<in> set (normalizeSessionAffinityDigests ds) \<union> fst ` touched ds extra (affinity (db s))
       then Some col else map_of (affinity (db s)) d)"
    and "ar_binding_digest col \<in> group_bindings ds extra (affinity (db s))"
    and "r \<in> touched ds extra (affinity (db s'))"
  shows "snd r = col"
proof (rule ccontr)
  obtain d c where r: "r = (d, c)" by fastforce
  assume "snd r \<noteq> col"
  have look: "map_of (affinity (db s')) d' = Some c'" if "(d', c') \<in> set (affinity (db s'))" for d' c'
    using that assms(2) by simp
  have mem: "(d, c) \<in> set (affinity (db s'))" using assms(5) by (simp add: r touched_def)
  with look \<open>snd r \<noteq> col\<close> assms(3) [of d] r
  have out: "d \<notin> set (normalizeSessionAffinityDigests ds)" "d \<notin> fst ` touched ds extra (affinity (db s))"
    and old: "map_of (affinity (db s)) d = Some c"
    by (auto split: if_splits)
  then have "(d, c) \<notin> touched ds extra (affinity (db s))" by force
  with out(1) map_of_SomeD [OF old] have no: "binding_digest (d, c) \<notin> group_bindings ds extra (affinity (db s))"
    by (auto simp: touched_def)
  have "group_bindings ds extra (affinity (db s')) \<subseteq> group_bindings ds extra (affinity (db s))"
  proof
    fix x assume "x \<in> group_bindings ds extra (affinity (db s'))"
    then consider "x \<in> set (normalizeSessionAffinityDigests extra)"
      | q where "q \<in> set (affinity (db s'))" "fst q \<in> set (normalizeSessionAffinityDigests ds)" "x = binding_digest q"
      by (auto simp: group_bindings_def)
    then show "x \<in> group_bindings ds extra (affinity (db s))"
    proof cases
      case 1 then show ?thesis by (simp add: group_bindings_def)
    next
      case (2 q)
      then have "snd q = col" using look [of "fst q" "snd q"] assms(3) [of "fst q"] by simp
      with 2(3) assms(4) show ?thesis by (simp add: binding_digest_def)
    qed
  qed
  with no assms(5) out(1) show False by (auto simp: touched_def r)
qed

lemma table_ok_after:
  assumes "table_ok (affinity (db s))" "keys_distinct (affinity (db s'))"
    and "\<And>d. map_of (affinity (db s')) d = (if d \<in> A then Some col else map_of (affinity (db s)) d)"
    and "\<forall>d\<in>A. valid_digest d" "valid_digest (ar_binding_digest col)" "\<forall>d. row_of_columns d col \<noteq> None"
  shows "table_ok (affinity (db s'))"
proof -
  have "valid_digest d \<and> valid_digest (ar_binding_digest c) \<and> row_of_columns d c \<noteq> None"
    if "(d, c) \<in> set (affinity (db s'))" for d c
  proof -
    have "map_of (affinity (db s')) d = Some c" using that assms(2) by simp
    with assms(3) [of d] consider "d \<in> A" "c = col" | "map_of (affinity (db s)) d = Some c"
      by (auto split: if_splits)
    then show ?thesis
    proof cases
      case 2
      from map_of_SomeD [OF 2] assms(1) show ?thesis by (auto simp: table_ok_def)
    qed (use assms(4-6) in auto)
  qed
  with assms(2) show ?thesis by (auto simp: table_ok_def)
qed

lemma live_winner_group:
  assumes "table_ok (affinity (db s))" "live_winner ds extra s w"
  shows "BindingDigest w \<in> group_bindings ds extra (affinity (db s))" "valid_digest (BindingDigest w)"
proof -
  obtain r where r: "r \<in> touched ds extra (affinity (db s))" "w = parsed_affinity r"
    using assms(2) by (auto simp: live_winner_def)
  then have "r \<in> set (affinity (db s))" by (simp add: touched_def)
  then have b: "BindingDigest w = binding_digest r" "valid_digest (binding_digest r)"
    using assms(1) row_of_columns_fields(2) [of "fst r" "snd r"] r(2)
    by (auto simp: table_ok_def binding_digest_def)
  with r(1) show "BindingDigest w \<in> group_bindings ds extra (affinity (db s))"
    by (auto simp: touched_def group_bindings_def)
  show "valid_digest (BindingDigest w)" using b by simp
qed

text \<open>What a transaction writes for winner \<open>win\<close>: the same columns under every digest it touched.\<close>

lemma written:
  assumes "healthy_store s" "table_ok (affinity (db s))"
    and "set rows = parsed_affinity ` touched ds extra (affinity (db s))"
    and "BindingDigest win \<noteq> []" "Created win \<noteq> 0" "Updated win \<noteq> 0" "Expires win \<noteq> 0" "Expires win > clock s"
  shows "\<exists>s'. writeSessionAffinityAliases (sessionAffinityRowDigests rows (normalizeSessionAffinityDigests ds)) win (clock s) s
      = (Inr (), s') \<and> healthy_store s' \<and> clock s' = clock s \<and> keys_distinct (affinity (db s')) \<and>
    (\<forall>d. map_of (affinity (db s')) d =
      (if d \<in> set (normalizeSessionAffinityDigests ds) \<union> fst ` touched ds extra (affinity (db s))
       then Some (alias_columns win) else map_of (affinity (db s)) d))"
proof -
  let ?all = "sessionAffinityRowDigests rows (normalizeSessionAffinityDigests ds)"
  have "complete_winner ?all (clock s) win = win"
    using assms(4-8) by (simp add: complete_winner_def Let_def)
  moreover have "keys_distinct (affinity (db s))" using assms(2) by (simp add: table_ok_def)
  ultimately show ?thesis
    using write_ok [OF assms(1), of "alias_columns win" ?all] sub_digests_set [OF assms(2,3)]
    by (simp add: writeSessionAffinityAliases_def)
qed


end
