(* ===== verification/Affinity_Properties.thy ===== *)
theory Affinity_Properties
  imports Session_Affinity
begin

text \<open>
  What session affinity guarantees: the winner does not depend on the order rows are read in; a
  failed operation leaves every table as it was; a bind never displaces a live binding and leaves
  all digests of the session on one binding; of two requests that move the same binding only the
  first one moves it; digests of different tenants, signals or values never collide when the
  hash does not; and what the cleanup, whose SQL compares timestamps as text, deletes.
\<close>

section \<open>Lemmas\<close>

definition times_ok :: "(string \<times> affinity_row) list \<Rightarrow> bool" where
  "times_ok rows \<longleftrightarrow> (\<forall>r\<in>set rows. let p = parsed_affinity r in
     0 < Created p \<and> db_representable (Created p) \<and> 0 < Updated p \<and> db_representable (Updated p) \<and>
     db_representable (Expires p))"

lemma touched_norm [simp]: "touched (normalizeSessionAffinityDigests ds) extra rows = touched ds extra rows"
  by (simp add: touched_def group_bindings_def)

lemma fill_scope_simps [simp]:
  "row_AuthID (fill_scope sc w) = row_AuthID w" "BindingDigest (fill_scope sc w) = BindingDigest w"
  "Created (fill_scope sc w) = Created w" "Updated (fill_scope sc w) = Updated w"
  "Expires (fill_scope sc w) = Expires w" "Digest (fill_scope sc w) = Digest w"
  by (simp_all add: fill_scope_def)

lemma alias_fields [simp]:
  "ar_binding_digest (alias_columns w) = BindingDigest w" "ar_auth_id (alias_columns w) = row_AuthID w"
  "ar_expires_at (alias_columns w) = formatDBTime (Expires w)"
  by (simp_all add: alias_columns_def)

lemma alias_parse:
  assumes "db_representable (Created w)" "db_representable (Updated w)" "db_representable (Expires w)"
  shows "row_of_columns d (alias_columns w) = Some (w\<lparr>Digest := d\<rparr>)"
    "parsed_affinity (d, alias_columns w) = w\<lparr>Digest := d\<rparr>"
  using assms by (simp_all add: parsed_affinity_def row_of_columns_def alias_columns_def formatDBTime_roundtrip)

lemma live_winner_times:
  assumes "times_ok (affinity (db s))" "live_winner ds extra s w"
  shows "0 < Created w" "db_representable (Created w)" "0 < Updated w" "db_representable (Updated w)"
    "db_representable (Expires w)" "clock s < Expires w"
  using assms by (auto simp: live_winner_def times_ok_def touched_def Let_def)

lemma touched_valid:
  assumes "table_ok (affinity (db s))"
  shows "\<forall>d\<in>set (normalizeSessionAffinityDigests ds) \<union> fst ` touched ds extra (affinity (db s)). valid_digest d"
  using assms by (auto simp: table_ok_def touched_def set_normalize_digests)

lemma keeps_deletes:
  "keeps_on_error (db s) (DeleteSessionAffinityByTenantScope lib scope s)"
  "keeps_on_error (db s) (DeleteSessionAffinityByTenantSession lib scope k s)"
  "keeps_on_error (db s) (DeleteSessionAffinityByAccountID c s)"
  unfolding DeleteSessionAffinityByTenantScope_def DeleteSessionAffinityByTenantSession_def
    DeleteSessionAffinityByAccountID_def Let_def
  by (auto intro: keeps_clear split: option.split)

text \<open>The common part of bind and rebind on a store that does not fail.\<close>

definition rebound :: "SessionAffinityBinding \<Rightarrow> string \<Rightarrow> time \<Rightarrow> sessionAffinityRow \<Rightarrow> sessionAffinityRow" where
  "rebound b candidate now w =
     fill_scope (b_TenantScopeDigest b)
       (if row_AuthID w = trim_space (b_AuthID b)
        then w\<lparr>row_AuthID := trim_space candidate, Updated := now, Expires := now + sessionAffinityExpiry\<rparr> else w)"

lemma rebind_ok:
  assumes s: "healthy_store s" "table_ok (affinity (db s))" "times_ok (affinity (db s))"
    and w: "live_winner (b_Digests b) [b_BindingDigest b] s w"
    and args: "normalizeSessionAffinityDigests (b_Digests b) \<noteq> []" "trim_space (b_AuthID b) \<noteq> []"
      "trim_space candidate \<noteq> []" "0 < clock s"
  shows "\<exists>all s'. RebindSessionAffinity b candidate s = (Inr (binding_of all (rebound b candidate (clock s) w)), s') \<and>
    healthy_store s' \<and> clock s' = clock s \<and> keys_distinct (affinity (db s')) \<and>
    (\<forall>d. map_of (affinity (db s')) d =
      (if d \<in> set (normalizeSessionAffinityDigests (b_Digests b)) \<union>
              fst ` touched (b_Digests b) [b_BindingDigest b] (affinity (db s))
       then Some (alias_columns (rebound b candidate (clock s) w)) else map_of (affinity (db s)) d))"
proof -
  let ?ds = "normalizeSessionAffinityDigests (b_Digests b)"
  obtain rows where load: "loadSessionAffinityRows ?ds [b_BindingDigest b] s = (Inr rows, s)"
    and rows: "set rows = parsed_affinity ` touched (b_Digests b) [b_BindingDigest b] (affinity (db s))"
    using load_obtain [OF s(1,2), of ?ds "[b_BindingDigest b]"] by auto
  have win: "chooseSessionAffinityWinner rows (clock s) = Some w"
    using choose_winner [OF s(2) rows] w by simp
  note wt = live_winner_times [OF s(3) w]
  have bd: "BindingDigest w \<noteq> []" using live_winner_group(2) [OF s(2) w] by (auto simp: valid_digest_def)
  let ?w = "rebound b candidate (clock s) w"
  have "BindingDigest ?w \<noteq> []" "Created ?w \<noteq> 0" "Updated ?w \<noteq> 0" "Expires ?w \<noteq> 0" "Expires ?w > clock s"
    using bd wt args(4) by (auto simp: rebound_def sessionAffinityExpiry_def go_time)
  from written [OF s(1,2) rows this] obtain s' where
    wr: "writeSessionAffinityAliases (sessionAffinityRowDigests rows ?ds) ?w (clock s) s = (Inr (), s')"
    and s': "healthy_store s'" "clock s' = clock s" "keys_distinct (affinity (db s'))"
      "\<forall>d. map_of (affinity (db s')) d =
        (if d \<in> set ?ds \<union> fst ` touched (b_Digests b) [b_BindingDigest b] (affinity (db s))
         then Some (alias_columns ?w) else map_of (affinity (db s)) d)"
    by blast
  have "RebindSessionAffinity b candidate s = (Inr (binding_of (sessionAffinityRowDigests rows ?ds) ?w), s')"
    using s(1) args wr s'(1)
    by (simp add: RebindSessionAffinity_def Let_def load win rebound_def)
  with s' show ?thesis by blast
qed

section \<open>Properties\<close>

text \<open>
  C24: which row decides a session is a function of the set of rows read: the unexpired row created
  first, the least digest among those created together; the order of the Go map does not matter.
\<close>

theorem affinity_winner:
  assumes "inj_on Digest (set rows)"
  shows "(set rows' = set rows \<longrightarrow>
      chooseSessionAffinityWinner rows' now = chooseSessionAffinityWinner rows now) \<and>
    (case chooseSessionAffinityWinner rows now of
       None \<Rightarrow> \<forall>v\<in>set rows. Expires v \<le> now
     | Some w \<Rightarrow> w \<in> set rows \<and> now < Expires w \<and>
         (\<forall>v\<in>set rows. now < Expires v \<longrightarrow> v = w \<or> Created w < Created v \<or>
            Created w = Created v \<and> Digest w < Digest v))"
proof -
  let ?live = "filter (\<lambda>row. Expires row > now)"
  have inj: "inj_on Digest (set (?live rows))" using assms by (auto intro: inj_on_subset)
  show ?thesis
  proof (intro conjI impI)
    assume same: "set rows' = set rows"
    then have "inj_on Digest (set (?live rows'))" using inj by simp
    from winner.scan_unique [OF this, of "?live rows"] same
    show "chooseSessionAffinityWinner rows' now = chooseSessionAffinityWinner rows now"
      by (simp add: chooseSessionAffinityWinner_def)
  next
    show "case chooseSessionAffinityWinner rows now of
       None \<Rightarrow> \<forall>v\<in>set rows. Expires v \<le> now
     | Some w \<Rightarrow> w \<in> set rows \<and> now < Expires w \<and>
         (\<forall>v\<in>set rows. now < Expires v \<longrightarrow> v = w \<or> Created w < Created v \<or>
            Created w = Created v \<and> Digest w < Digest v)"
    proof (cases "chooseSessionAffinityWinner rows now")
      case None
      then show ?thesis by (auto simp: chooseSessionAffinityWinner_def filter_empty_conv)
    next
      case (Some w)
      then show ?thesis
        using scan_mem [of earlier_row None "?live rows" w] winner.scan_least [of None "?live rows" w] inj
        by (auto simp: chooseSessionAffinityWinner_def earlier_row_def)
    qed
  qed
qed

definition demo_row :: "string \<Rightarrow> string \<Rightarrow> time \<Rightarrow> sessionAffinityRow" where
  "demo_row d a t = \<lparr>Digest = d, BindingDigest = d, TenantScopeDigest = [], row_AuthID = a,
     Created = t, Updated = t, Expires = t + sessionAffinityExpiry\<rparr>"

theorem affinity_winner_witness:
  "chooseSessionAffinityWinner [demo_row ''b'' ''x'' 5, demo_row ''a'' ''y'' 5] 6 = Some (demo_row ''a'' ''y'' 5) \<and>
   chooseSessionAffinityWinner [demo_row ''a'' ''y'' 5, demo_row ''b'' ''x'' 5] 6 =
   chooseSessionAffinityWinner [demo_row ''b'' ''x'' 5, demo_row ''a'' ''y'' 5] 6"
proof
  show "chooseSessionAffinityWinner [demo_row ''b'' ''x'' 5, demo_row ''a'' ''y'' 5] 6 = Some (demo_row ''a'' ''y'' 5)"
    by (simp add: chooseSessionAffinityWinner_def demo_row_def earlier_row_def sessionAffinityExpiry_def go_time)
  have "inj_on Digest (set [demo_row ''b'' ''x'' 5, demo_row ''a'' ''y'' 5])" by (simp add: demo_row_def)
  note order = affinity_winner [OF this, THEN conjunct1, rule_format]
  show "chooseSessionAffinityWinner [demo_row ''a'' ''y'' 5, demo_row ''b'' ''x'' 5] 6 =
   chooseSessionAffinityWinner [demo_row ''b'' ''x'' 5, demo_row ''a'' ''y'' 5] 6"
    by (rule order) auto
qed



text \<open>
  C28: compare-and-swap. Two requests hold the same binding and both try to move it to another
  credential; the first succeeds, and the second, arriving within the lifetime of the binding,
  changes nothing and is told the credential the first one chose.
\<close>

theorem rebind_race:
  assumes "healthy_store s" "table_ok (affinity (db s))" "times_ok (affinity (db s))"
    and "live_winner (b_Digests b) [b_BindingDigest b] s w" "row_AuthID w = b_AuthID b"
    and "normalizeSessionAffinityDigests (b_Digests b) \<noteq> []"
    and "plain_id (b_AuthID b)" "plain_id c1" "plain_id c2" "c1 \<noteq> b_AuthID b"
    and "0 < clock s" "db_representable (clock s)" "db_representable (clock s + sessionAffinityExpiry)"
    and "clock s \<le> t" "t < clock s + sessionAffinityExpiry"
  shows "\<exists>b1 s1. RebindSessionAffinity b c1 s = (Inr b1, s1) \<and> b_AuthID b1 = c1 \<and>
    (\<exists>b2 s2. RebindSessionAffinity b c2 (s1\<lparr>clock := t\<rparr>) = (Inr b2, s2) \<and> b_AuthID b2 = c1)"
proof -
  let ?ds = "b_Digests b" and ?x = "[b_BindingDigest b]"
  have ids: "trim_space (b_AuthID b) = b_AuthID b" "b_AuthID b \<noteq> []" "trim_space c1 = c1" "c1 \<noteq> []"
    "trim_space c2 = c2" "c2 \<noteq> []" using assms(7-9) by simp_all
  define w1 where "w1 = rebound b c1 (clock s) w"
  note wt = live_winner_times [OF assms(3,4)]
  have w1: "row_AuthID w1 = c1" "BindingDigest w1 = BindingDigest w" "Expires w1 = clock s + sessionAffinityExpiry"
    "Created w1 = Created w" "Updated w1 = clock s"
    using ids assms(5) by (simp_all add: w1_def rebound_def)
  obtain all s1 where first: "RebindSessionAffinity b c1 s = (Inr (binding_of all w1), s1)"
    and s1: "healthy_store s1" "clock s1 = clock s" "keys_distinct (affinity (db s1))"
    and look: "\<And>d. map_of (affinity (db s1)) d =
      (if d \<in> set (normalizeSessionAffinityDigests ?ds) \<union> fst ` touched ?ds ?x (affinity (db s))
       then Some (alias_columns w1) else map_of (affinity (db s)) d)"
    using rebind_ok [OF assms(1-4,6) _ _ assms(11), of c1] ids by (auto simp: w1_def)
  have grp: "BindingDigest w \<in> group_bindings ?ds ?x (affinity (db s))" "valid_digest (BindingDigest w)"
    using live_winner_group [OF assms(2,4)] by simp_all
  have parse: "row_of_columns d (alias_columns w1) = Some (w1\<lparr>Digest := d\<rparr>)"
    "parsed_affinity (d, alias_columns w1) = w1\<lparr>Digest := d\<rparr>" for d
    using alias_parse [of w1 d] wt assms(12,13) w1 by simp_all
  define s1' where "s1' = s1\<lparr>clock := t\<rparr>"
  have s1': "healthy_store s1'" "affinity (db s1') = affinity (db s1)" "clock s1' = t"
    using s1(1) by (simp_all add: s1'_def healthy_store_def)
  have ok: "table_ok (affinity (db s1'))"
    using table_ok_after [OF assms(2) s1(3) look touched_valid [OF assms(2)]] grp(2) parse w1(2) s1'(2) by simp
  have col: "snd r = alias_columns w1" if "r \<in> touched ?ds ?x (affinity (db s1'))" for r
    using touched_after [OF assms(2) s1(3) look _, of r] grp(1) that w1(2) by (simp add: s1'(2))
  have new: "v = w1\<lparr>Digest := Digest v\<rparr>" if "v \<in> parsed_affinity ` touched ?ds ?x (affinity (db s1'))" for v
  proof -
    from that obtain r where r: "r \<in> touched ?ds ?x (affinity (db s1'))" "v = parsed_affinity r" by auto
    with col [OF r(1)] have "v = w1\<lparr>Digest := fst r\<rparr>" using parse(2) [of "fst r"] by (metis prod.collapse)
    then show ?thesis by simp
  qed
  obtain rows where load: "loadSessionAffinityRows (normalizeSessionAffinityDigests ?ds) ?x s1' = (Inr rows, s1')"
    and rows: "set rows = parsed_affinity ` touched ?ds ?x (affinity (db s1'))"
    using load_obtain [OF s1'(1) ok, of "normalizeSessionAffinityDigests ?ds" ?x] by auto
  obtain d where d: "d \<in> set (normalizeSessionAffinityDigests ?ds)" using assms(6) by (meson last_in_set)
  then have "map_of (affinity (db s1')) d = Some (alias_columns w1)" by (simp add: look s1'(2))
  then have "(d, alias_columns w1) \<in> touched ?ds ?x (affinity (db s1'))"
    using d by (auto simp: touched_def dest: map_of_SomeD)
  then have "parsed_affinity (d, alias_columns w1) \<in> set rows" unfolding rows by (rule imageI)
  then have "w1\<lparr>Digest := d\<rparr> \<in> set rows" by (simp add: parse(2))
  moreover have "Expires (w1\<lparr>Digest := d\<rparr>) > clock s1'" using w1(3) assms(15) s1'(3) by simp
  ultimately have "chooseSessionAffinityWinner rows (clock s1') \<noteq> None"
    unfolding choose_none [OF rows] rows by blast
  then obtain w2 where w2: "chooseSessionAffinityWinner rows (clock s1') = Some w2" by blast
  then have live: "live_winner ?ds ?x s1' w2" using choose_winner [OF ok rows] by simp
  then have "w2 \<in> parsed_affinity ` touched ?ds ?x (affinity (db s1'))" by (simp add: live_winner_def)
  then have w2': "w2 = w1\<lparr>Digest := Digest w2\<rparr>" by (rule new)
  have auth2: "row_AuthID w2 = c1" using w1(1) by (subst w2') simp
  define win where "win = fill_scope (b_TenantScopeDigest b) w2"
  have "BindingDigest w2 = BindingDigest w" "Created w2 = Created w" "Updated w2 = clock s"
    "Expires w2 = clock s + sessionAffinityExpiry"
    using w1 by (subst w2', simp)+
  then have "BindingDigest win \<noteq> []" "Created win \<noteq> 0" "Updated win \<noteq> 0" "Expires win \<noteq> 0" "Expires win > clock s1'"
    using grp(2) wt assms(11,15) s1'(3)
    by (auto simp: win_def valid_digest_def sessionAffinityExpiry_def go_time)
  from written [OF s1'(1) ok rows this] obtain s2 where
    wr: "writeSessionAffinityAliases (sessionAffinityRowDigests rows (normalizeSessionAffinityDigests ?ds)) win (clock s1') s1'
      = (Inr (), s2)" "healthy_store s2" by blast
  have "RebindSessionAffinity b c2 s1' =
      (Inr (binding_of (sessionAffinityRowDigests rows (normalizeSessionAffinityDigests ?ds)) win), s2)"
    using s1'(1) assms(6,10) wr ids auth2
    by (simp add: RebindSessionAffinity_def Let_def load w2 win_def)
  moreover have "b_AuthID (binding_of all' win) = c1" for all'
    by (simp add: binding_of_def win_def auth2)
  moreover have "b_AuthID (binding_of all w1) = c1" by (simp add: binding_of_def w1(1))
  ultimately show ?thesis using first by (auto simp: s1'_def)
qed


definition demo_digest :: string where "demo_digest = replicate 64 (CHR ''a'')"

lemma demo_digest_valid [simp]: "valid_digest demo_digest" "trim_space demo_digest = demo_digest"
proof -
  show v: "valid_digest demo_digest" by (simp add: demo_digest_def valid_digest_def list_all_iff is_hex_def)
  show "trim_space demo_digest = demo_digest" by (rule valid_digest_trim [OF v])
qed

definition demo_affinity :: "string \<Rightarrow> time \<Rightarrow> time \<Rightarrow> user_store" where
  "demo_affinity a t now =
     update_affinity (\<lambda>_. [(demo_digest, alias_columns (demo_row demo_digest a t))]) (new_store now)"

lemma demo_affinity_ok:
  assumes "0 < t" "db_representable t" "db_representable (t + sessionAffinityExpiry)" "now < t + sessionAffinityExpiry"
  shows "healthy_store (demo_affinity a t now)" "clock (demo_affinity a t now) = now"
    "table_ok (affinity (db (demo_affinity a t now)))" "times_ok (affinity (db (demo_affinity a t now)))"
    "live_winner [demo_digest] extra (demo_affinity a t now) (demo_row demo_digest a t)"
proof -
  have p: "row_of_columns d (alias_columns (demo_row demo_digest a t)) = Some ((demo_row demo_digest a t)\<lparr>Digest := d\<rparr>)"
    "parsed_affinity (d, alias_columns (demo_row demo_digest a t)) = (demo_row demo_digest a t)\<lparr>Digest := d\<rparr>" for d
    using alias_parse [of "demo_row demo_digest a t" d] assms by (simp_all add: demo_row_def)
  show "healthy_store (demo_affinity a t now)" by (simp add: demo_affinity_def)
  show now: "clock (demo_affinity a t now) = now" by (simp add: demo_affinity_def new_store_def)
  have tab: "affinity (db (demo_affinity a t now)) = [(demo_digest, alias_columns (demo_row demo_digest a t))]"
    by (simp add: demo_affinity_def)
  show "table_ok (affinity (db (demo_affinity a t now)))"
    using p(1) [of demo_digest] by (simp add: tab table_ok_def demo_row_def)
  show "times_ok (affinity (db (demo_affinity a t now)))"
    using p(2) [of demo_digest] assms by (simp add: tab times_ok_def demo_row_def)
  have "touched [demo_digest] extra [(demo_digest, alias_columns (demo_row demo_digest a t))] =
      {(demo_digest, alias_columns (demo_row demo_digest a t))}"
    using valid_in_normalize [of demo_digest "[demo_digest]"] by (auto simp: touched_def)
  then show "live_winner [demo_digest] extra (demo_affinity a t now) (demo_row demo_digest a t)"
    using p(2) [of demo_digest] assms(4) by (simp add: live_winner_def tab now demo_row_def)
qed

lemma demo_times [simp]:
  "db_representable (40 * second)" "db_representable (50 * second)" "db_representable (40 * second + sessionAffinityExpiry)"
  "db_representable (50 * second + sessionAffinityExpiry)"
  by (simp_all add: db_representable_def seconds_of_def max_db_seconds_def sessionAffinityExpiry_def go_time)

lemma demo_plain_ids [simp]: "plain_id ''e''" "plain_id ''x''" "plain_id ''y''"
  unfolding plain_id_def by (simp_all add: trim_space_plain plain_char_def)

theorem rebind_race_witness:
  "let b = \<lparr>b_Digests = [demo_digest], b_BindingDigest = demo_digest, b_TenantScopeDigest = [], b_AuthID = ''e''\<rparr>;
       s = demo_affinity ''e'' (40 * second) (50 * second)
   in \<exists>b1 s1. RebindSessionAffinity b ''x'' s = (Inr b1, s1) \<and> b_AuthID b1 = ''x'' \<and>
    (\<exists>b2 s2. RebindSessionAffinity b ''y'' (s1\<lparr>clock := 60 * second\<rparr>) = (Inr b2, s2) \<and> b_AuthID b2 = ''x'')"
proof -
  let ?b = "\<lparr>b_Digests = [demo_digest], b_BindingDigest = demo_digest, b_TenantScopeDigest = [], b_AuthID = ''e''\<rparr>"
  let ?s = "demo_affinity ''e'' (40 * second) (50 * second)"
  have t: "0 < 40 * second" "50 * second < 40 * second + sessionAffinityExpiry"
    by (simp_all add: sessionAffinityExpiry_def go_time)
  note ok = demo_affinity_ok [OF t(1) demo_times(1,3) t(2)]
  have "normalizeSessionAffinityDigests [demo_digest] \<noteq> []"
    using valid_in_normalize [of demo_digest "[demo_digest]"] by auto
  then have "\<exists>b1 s1. RebindSessionAffinity ?b ''x'' ?s = (Inr b1, s1) \<and> b_AuthID b1 = ''x'' \<and>
    (\<exists>b2 s2. RebindSessionAffinity ?b ''y'' (s1\<lparr>clock := 60 * second\<rparr>) = (Inr b2, s2) \<and> b_AuthID b2 = ''x'')"
    using ok
    by (intro rebind_race [where w = "demo_row demo_digest ''e'' (40 * second)"])
      (simp_all add: demo_row_def, simp_all add: sessionAffinityExpiry_def go_time)
  then show ?thesis by (simp add: Let_def)
qed

text \<open>
  binding. On a session with a live binding, a bind returns that binding's credential and never
  the candidate; on a session without one it installs the candidate. Afterwards every digest of the
  session and of its group has the same columns, and no other row has changed.
\<close>

theorem bind_keeps_live_binding:
  assumes "healthy_store s" "table_ok (affinity (db s))" "times_ok (affinity (db s))"
    and "normalizeSessionAffinityDigests ds \<noteq> []" "plain_id candidate" "0 < clock s"
  shows "\<exists>b s' col. bindSessionAffinity scope ds candidate s = (Inr b, s') \<and>
    (\<forall>w. live_winner ds [] s w \<longrightarrow> b_AuthID b = row_AuthID w) \<and>
    ((\<forall>w. \<not> live_winner ds [] s w) \<longrightarrow> b_AuthID b = candidate) \<and>
    ar_auth_id col = b_AuthID b \<and> ar_binding_digest col = b_BindingDigest b \<and>
    (\<forall>d. map_of (affinity (db s')) d =
      (if d \<in> set (normalizeSessionAffinityDigests ds) \<union> fst ` touched ds [] (affinity (db s))
       then Some col else map_of (affinity (db s)) d))"
proof -
  let ?ds = "normalizeSessionAffinityDigests ds"
  obtain rows where load: "loadSessionAffinityRows ?ds [] s = (Inr rows, s)"
    and rows: "set rows = parsed_affinity ` touched ds [] (affinity (db s))"
    using load_obtain [OF assms(1,2), of ?ds "[]"] by auto
  let ?all = "sessionAffinityRowDigests rows ?ds"
  define w0 where "w0 = (case chooseSessionAffinityWinner rows (clock s) of
                   Some w \<Rightarrow> w | None \<Rightarrow> fresh_winner ?all scope candidate (clock s))"
  have all_ne: "canonicalSessionAffinityDigest ?all \<noteq> []"
  proof -
    have all: "set ?all = set ?ds \<union> fst ` touched ds [] (affinity (db s))"
      by (rule sub_digests_set [OF assms(2) rows])
    have "normalizeSessionAffinityDigests ?all = ?all" by (simp add: sessionAffinityRowDigests_def)
    moreover have "?all \<noteq> []" using all assms(4) by (metis Un_empty empty_set set_empty)
    moreover have "hd (sort ?all) \<in> set ?all" using \<open>?all \<noteq> []\<close> by (metis hd_in_set set_empty set_sort)
    moreover have "\<forall>d\<in>set ?all. valid_digest d" using touched_valid [OF assms(2), of ds "[]"] all by simp
    ultimately show ?thesis by (auto simp: canonicalSessionAffinityDigest_def Let_def valid_digest_def)
  qed
  have "BindingDigest w0 \<noteq> [] \<and> Created w0 \<noteq> 0 \<and> Updated w0 \<noteq> 0 \<and> Expires w0 \<noteq> 0 \<and> Expires w0 > clock s"
  proof (cases "chooseSessionAffinityWinner rows (clock s)")
    case None
    then show ?thesis
      using all_ne assms(6) by (simp add: w0_def fresh_winner_def sessionAffinityExpiry_def go_time)
  next
    case (Some w)
    then have live: "live_winner ds [] s w" using choose_winner [OF assms(2) rows] by simp
    show ?thesis
      using Some live_winner_times [OF assms(3) live] live_winner_group(2) [OF assms(2) live] assms(6)
      by (auto simp: w0_def valid_digest_def)
  qed
  note w0 = this
  define win where "win = fill_scope scope w0"
  have "BindingDigest win \<noteq> []" "Created win \<noteq> 0" "Updated win \<noteq> 0" "Expires win \<noteq> 0" "Expires win > clock s"
    using w0 by (simp_all add: win_def)
  from written [OF assms(1,2) rows this] obtain s' where
    wr: "writeSessionAffinityAliases ?all win (clock s) s = (Inr (), s')" "healthy_store s'"
    and look: "\<forall>d. map_of (affinity (db s')) d =
      (if d \<in> set ?ds \<union> fst ` touched ds [] (affinity (db s)) then Some (alias_columns win) else map_of (affinity (db s)) d)"
    by blast
  have "bindSessionAffinity scope ds candidate s = (Inr (binding_of ?all win), s')"
    using assms(1,4,5) wr
    by (simp add: bindSessionAffinity_def Let_def load win_def w0_def)
  moreover have "b_AuthID (binding_of ?all win) = row_AuthID w" if "live_winner ds [] s w" for w
    using choose_winner [OF assms(2) rows, of w] that by (simp add: binding_of_def win_def w0_def)
  moreover have "b_AuthID (binding_of ?all win) = candidate" if "\<forall>w. \<not> live_winner ds [] s w"
  proof -
    have "chooseSessionAffinityWinner rows (clock s) = None"
      using choose_winner [OF assms(2) rows] that by (cases "chooseSessionAffinityWinner rows (clock s)") auto
    then show ?thesis by (simp add: binding_of_def win_def w0_def fresh_winner_def)
  qed
  moreover have "ar_auth_id (alias_columns win) = b_AuthID (binding_of ?all win)"
    "ar_binding_digest (alias_columns win) = b_BindingDigest (binding_of ?all win)"
    by (simp_all add: binding_of_def)
  ultimately show ?thesis using look by blast
qed

theorem bind_keeps_live_binding_witness:
  "\<exists>b s'. bindSessionAffinity [] [demo_digest] ''x'' (demo_affinity ''e'' (40 * second) (50 * second)) = (Inr b, s') \<and>
     b_AuthID b = ''e''"
proof -
  have t: "0 < 40 * second" "50 * second < 40 * second + sessionAffinityExpiry"
    by (simp_all add: sessionAffinityExpiry_def go_time)
  note ok = demo_affinity_ok [OF t(1) demo_times(1,3) t(2), where a = "''e''"]
  have ne: "normalizeSessionAffinityDigests [demo_digest] \<noteq> []"
    using valid_in_normalize [of demo_digest "[demo_digest]"] by auto
  have pos: "0 < clock (demo_affinity ''e'' (40 * second) (50 * second))"
    unfolding ok(2) by (simp add: go_time)
  obtain b s' where "bindSessionAffinity [] [demo_digest] ''x'' (demo_affinity ''e'' (40 * second) (50 * second)) = (Inr b, s')"
    "\<forall>w. live_winner [demo_digest] [] (demo_affinity ''e'' (40 * second) (50 * second)) w \<longrightarrow> b_AuthID b = row_AuthID w"
    using bind_keeps_live_binding [OF ok(1,3,4) ne demo_plain_ids(2) pos, of "[]"] by blast
  moreover from this have "b_AuthID b = row_AuthID (demo_row demo_digest ''e'' (40 * second))"
    using ok(5) by blast
  ultimately show ?thesis by (auto simp: demo_row_def)
qed


section \<open>Digests\<close>

lemma decode_continuations:
  assumes "decode_rune (b0 # rest) = Some (r, n)"
  shows "\<forall>x\<in>set (take n rest). 0x80 \<le> x"
proof -
  consider "n = 0" | "n = 1" "rest \<noteq> []" "0x80 \<le> rest ! 0" | "n = 2" "1 < length rest" "0x80 \<le> rest ! 0" "0x80 \<le> rest ! 1"
    | "n = 3" "2 < length rest" "0x80 \<le> rest ! 0" "0x80 \<le> rest ! 1" "0x80 \<le> rest ! 2"
    using assms by (auto simp: Let_def split: if_splits)
  then show ?thesis
  proof cases
    case 2
    then show ?thesis by (cases rest) auto
  next
    case 3
    then obtain x y zs where "rest = x # y # zs"
      by (metis One_nat_def Suc_lessE length_Suc_conv less_Suc_eq_0_disj list.exhaust list.size(3) not_less_zero)
    with 3 show ?thesis by (simp add: numeral_2_eq_2)
  next
    case 4
    then have "take 3 rest = [rest ! 0, rest ! 1, rest ! 2]"
      by (cases rest; cases "tl rest"; cases "tl (tl rest)") (auto simp: numeral_3_eq_3 numeral_2_eq_2)
    with 4 show ?thesis by simp
  qed simp
qed

lemma nul_is_a_rune: "0 \<in> set bs \<Longrightarrow> utf8_runes bs = Some rs \<Longrightarrow> 0 \<in> set rs"
proof (induction bs arbitrary: rs rule: utf8_runes.induct)
  case (2 b0 rest)
  obtain r n rs' where d: "decode_rune (b0 # rest) = Some (r, n)" "utf8_runes (drop n rest) = Some rs'" "rs = r # rs'"
    using "2.prems"(2) by (auto split: option.splits)
  show ?case
  proof (cases "b0 = 0")
    case True
    then have "r = 0" using d(1) by simp
    with d(3) show ?thesis by simp
  next
    case False
    then have "0 \<in> set rest" using "2.prems"(1) by simp
    moreover have "0 \<notin> set (take n rest)" using decode_continuations [OF d(1)] by force
    ultimately have "0 \<in> set (drop n rest)"
      using append_take_drop_id [of n rest] by (metis Un_iff set_append)
    from "2.IH" [OF d(1) refl this d(2)] d(3) show ?thesis by simp
  qed
qed simp

lemma signal_no_nul: "normalizeSessionAffinitySignal raw = Some v \<Longrightarrow> CHR 0x00 \<notin> set v"
proof
  assume n: "normalizeSessionAffinitySignal raw = Some v" and z: "CHR 0x00 \<in> set v"
  obtain rs where rs: "runes_of v = Some rs" "\<not> list_ex is_control rs"
    using n by (auto simp: normalizeSessionAffinitySignal_def Let_def split: if_splits option.splits)
  have "0 \<in> set (map of_char v :: nat list)" using z by (force simp: image_iff)
  then have "0 \<in> set rs" by (rule nul_is_a_rune [OF _ rs(1) [unfolded runes_of_def]])
  with rs(2) show False by (auto simp: list_ex_iff is_control_def)
qed

lemma split_at_last_nul:
  assumes "xs @ [z] @ ys = xs' @ [z] @ ys'" "z \<notin> set ys" "z \<notin> set ys'"
  shows "xs = xs' \<and> ys = ys'"
  using assms
proof (induction xs arbitrary: xs')
  case Nil
  then show ?case by (cases xs') auto
next
  case (Cons x xs)
  then show ?case by (cases xs') auto
qed

text \<open>
  what is hashed determines the session: two signals with the same preimage have the same
  (trimmed) tenant scope, the same kind and the same normalised value, so digests of different
  tenants or signals can only be equal by a collision of the hash.
\<close>

theorem signal_preimage_injective:
  assumes "signal_preimage scope sig = Some p" "signal_preimage scope' sig' = Some p"
  shows "trim_space scope = trim_space scope' \<and> signal_Kind sig = signal_Kind sig' \<and>
    normalizeSessionAffinitySignal (signal_Value sig) = normalizeSessionAffinitySignal (signal_Value sig')"
proof -
  have parts: "\<exists>v. normalizeSessionAffinitySignal (signal_Value g) = Some v \<and> signal_Kind g \<in> set affinity_kinds \<and>
      p = (trim_space sc @ [CHR 0x00] @ signal_Kind g) @ [CHR 0x00] @ v" if "signal_preimage sc g = Some p" for sc g
    using that by (auto simp: signal_preimage_def Let_def split: option.splits if_splits)
  obtain v v' where v: "normalizeSessionAffinitySignal (signal_Value sig) = Some v" "signal_Kind sig \<in> set affinity_kinds"
      "p = (trim_space scope @ [CHR 0x00] @ signal_Kind sig) @ [CHR 0x00] @ v"
    and v': "normalizeSessionAffinitySignal (signal_Value sig') = Some v'" "signal_Kind sig' \<in> set affinity_kinds"
      "p = (trim_space scope' @ [CHR 0x00] @ signal_Kind sig') @ [CHR 0x00] @ v'"
    using parts [OF assms(1)] parts [OF assms(2)] by blast
  have kinds: "CHR 0x00 \<notin> set k" if "k \<in> set affinity_kinds" for k
    using that by (auto simp: affinity_kinds_def)
  have outer: "trim_space scope @ [CHR 0x00] @ signal_Kind sig = trim_space scope' @ [CHR 0x00] @ signal_Kind sig' \<and> v = v'"
    by (rule split_at_last_nul) (use v v' signal_no_nul in auto)
  then have "trim_space scope = trim_space scope' \<and> signal_Kind sig = signal_Kind sig'"
    by (intro split_at_last_nul) (use kinds v(2) v'(2) in auto)
  with outer v(1) v'(1) show ?thesis by simp
qed

theorem signal_preimage_injective_witness:
  "\<exists>p. signal_preimage ''x'' \<lparr>signal_Kind = ''session_id'', signal_Value = ''y''\<rparr> = Some p \<and>
    (\<forall>scope sig. signal_preimage scope sig = Some p \<longrightarrow> trim_space scope = ''x'')"
proof -
  let ?g = "\<lparr>signal_Kind = ''session_id'', signal_Value = ''y''\<rparr>"
  have trims: "trim_space ''x'' = ''x''" "trim_space ''y'' = ''y''"
    by (simp_all add: trim_space_plain plain_char_def)
  then have p: "signal_preimage ''x'' ?g = Some (''x'' @ [CHR 0x00] @ ''session_id'' @ [CHR 0x00] @ ''y'')"
    by (simp add: signal_preimage_def normalizeSessionAffinitySignal_def Let_def runes_of_def is_control_def
        affinity_kinds_def maxSessionAffinitySignalBytes_def)
  show ?thesis
  proof (intro exI conjI allI impI)
    show "signal_preimage ''x'' ?g = Some (''x'' @ [CHR 0x00] @ ''session_id'' @ [CHR 0x00] @ ''y'')" by (rule p)
  next
    fix scope sig
    assume "signal_preimage scope sig = Some (''x'' @ [CHR 0x00] @ ''session_id'' @ [CHR 0x00] @ ''y'')"
    from signal_preimage_injective [OF this p] show "trim_space scope = ''x''" by (simp add: trims)
  qed
qed

section \<open>Cleanup\<close>

text \<open>
  the cleanup removes at most its limit, counts what it removes, never touches a binding that
  still has a full second to live, and when it removes fewer than the limit nothing is left that
  expired a full second ago or more.
\<close>

theorem cleanup_batch:
  assumes "healthy_store s" "keys_distinct (affinity (db s))" "db_representable (clock s)"
    and "\<forall>r\<in>set (affinity (db s)). db_representable (Expires (parsed_affinity r)) \<and>
           ar_expires_at (snd r) = formatDBTime (Expires (parsed_affinity r))"
    and "0 < limit"
  shows "\<exists>n s'. CleanupExpiredSessionAffinity limit s = (Inr n, s') \<and> n \<le> limit \<and>
    n = int (length (affinity (db s))) - int (length (affinity (db s'))) \<and>
    set (affinity (db s')) \<subseteq> set (affinity (db s)) \<and>
    (\<forall>r\<in>set (affinity (db s)) - set (affinity (db s')). Expires (parsed_affinity r) < clock s + second) \<and>
    (n < limit \<longrightarrow> (\<forall>r\<in>set (affinity (db s')). clock s < Expires (parsed_affinity r) + second))"
proof -
  let ?t = "affinity (db s)"
  let ?old = "filter (\<lambda>r. ar_expires_at (snd r) \<le> formatDBTime (clock s)) ?t"
  define batch where "batch = expired_batch limit (clock s) ?t"
  define gone where "gone = filter (\<lambda>r. fst r \<in> set batch) ?t"
  define s' where "s' = update_affinity (filter (\<lambda>r. fst r \<notin> set batch)) s"
  have run: "CleanupExpiredSessionAffinity limit s = (Inr (int (length gone)), s')"
    using assms(1,5)
    by (simp add: CleanupExpiredSessionAffinity_def Let_def delete_affinity_def batch_def s'_def gone_def session_digest_def)
  have left: "affinity (db s') = filter (\<lambda>r. fst r \<notin> set batch) ?t" by (simp add: s'_def)
  have in_old: "r \<in> set ?old" if "r \<in> set ?t" "fst r \<in> set batch" for r
  proof -
    have "fst r \<in> fst ` set ?old"
      using that(2) set_take_subset by (fastforce simp: batch_def expired_batch_def)
    then obtain q where "q \<in> set ?old" "fst q = fst r" by auto
    moreover from this that(1) assms(2) have "q = r" by (metis (mono_tags) distinct_map filter_is_subset inj_onD subsetD)
    ultimately show ?thesis by simp
  qed
  have old_time: "Expires (parsed_affinity r) < clock s + second" if "r \<in> set ?old" for r
    using that assms(3,4) db_le_within_a_second [of "Expires (parsed_affinity r)" "clock s"] by (auto simp: db_le_def)
  have dist: "distinct batch"
    using assms(2) by (auto simp: batch_def expired_batch_def distinct_map_filter intro!: distinct_take)
      (metis distinct_map distinct_sort distinct_filter filter_is_subset inj_on_subset set_sort)
  have len: "length gone \<le> length batch"
  proof -
    have "length gone = card (fst ` set gone)"
      using assms(2) by (metis distinct_card distinct_map_filter gone_def length_map list.set_map)
    also have "\<dots> \<le> card (set batch)" by (rule card_mono) (auto simp: gone_def)
    also have "\<dots> \<le> length batch" by (rule card_length)
    finally show ?thesis .
  qed
  have "length batch \<le> nat limit" by (simp add: batch_def expired_batch_def)
  with len have bound: "int (length gone) \<le> limit" using assms(5) by linarith
  have count: "int (length gone) = int (length ?t) - int (length (affinity (db s')))"
    using sum_length_filter_compl [of "\<lambda>r. fst r \<in> set batch" ?t] by (simp add: gone_def left)
  have rest: "clock s < Expires (parsed_affinity r) + second" if "int (length gone) < limit" "r \<in> set (affinity (db s'))" for r
  proof (rule ccontr)
    assume c: "\<not> clock s < Expires (parsed_affinity r) + second"
    have r: "r \<in> set ?t" "fst r \<notin> set batch" using that(2) by (auto simp: left)
    have "seconds_of (Expires (parsed_affinity r)) < seconds_of (clock s)"
    proof -
      have "seconds_of (Expires (parsed_affinity r) + second) \<le> seconds_of (clock s)"
        using c by (intro seconds_of_mono) simp
      then show ?thesis by (simp add: seconds_of_def second_def)
    qed
    then have "r \<in> set ?old"
      using formatDBTime_less [of "Expires (parsed_affinity r)" "clock s"] assms(3,4) r(1) by auto
    have "length ?old \<le> length gone \<or> nat limit \<le> length batch"
    proof (cases "nat limit \<le> length ?old")
      case True then show ?thesis by (simp add: batch_def expired_batch_def)
    next
      case False
      then have "set batch = fst ` set ?old" by (simp add: batch_def expired_batch_def)
      with \<open>r \<in> set ?old\<close> r(2) show ?thesis by auto
    qed
    moreover have "length batch \<le> length gone"
    proof -
      have "set batch \<subseteq> fst ` set gone"
        using set_take_subset by (fastforce simp: gone_def batch_def expired_batch_def)
      then have "card (set batch) \<le> card (fst ` set gone)" by (intro card_mono) auto
      also have "\<dots> \<le> length gone" by (metis card_length length_map list.set_map)
      finally show ?thesis using dist by (simp add: distinct_card)
    qed
    ultimately have "length ?old \<le> length gone" using that(1) by linarith
    moreover have "length gone < length ?old"
    proof -
      have "set gone \<subset> set ?old" using in_old \<open>r \<in> set ?old\<close> r(2) by (auto simp: gone_def)
      moreover have "distinct gone" "distinct ?old" using assms(2) by (auto simp: gone_def distinct_map)
      ultimately show ?thesis by (metis List.finite_set distinct_card psubset_card_mono)
    qed
    ultimately show False by simp
  qed
  have "\<forall>r\<in>set ?t - set (affinity (db s')). Expires (parsed_affinity r) < clock s + second"
    using in_old old_time by (auto simp: left)
  moreover have "set (affinity (db s')) \<subseteq> set ?t" by (auto simp: left)
  ultimately show ?thesis using run bound count rest by blast
qed


theorem cleanup_batch_witness:
  "\<exists>n s'. CleanupExpiredSessionAffinity 5 (demo_affinity ''e'' (40 * second) (50 * second)) = (Inr n, s') \<and> n \<le> 5"
proof -
  have t: "0 < 40 * second" "50 * second < 40 * second + sessionAffinityExpiry"
    by (simp_all add: sessionAffinityExpiry_def go_time)
  let ?s = "demo_affinity ''e'' (40 * second) (50 * second)"
  note ok = demo_affinity_ok [OF t(1) demo_times(1,3) t(2), where a = "''e''"]
  have p: "parsed_affinity (d, alias_columns (demo_row demo_digest ''e'' (40 * second))) =
      (demo_row demo_digest ''e'' (40 * second))\<lparr>Digest := d\<rparr>" for d
    by (rule alias_parse(2)) (simp_all only: demo_row_def sessionAffinityRow.simps demo_times)
  have tab: "affinity (db ?s) = [(demo_digest, alias_columns (demo_row demo_digest ''e'' (40 * second)))]"
    by (simp add: demo_affinity_def)
  have "\<forall>r\<in>set (affinity (db ?s)). db_representable (Expires (parsed_affinity r)) \<and>
           ar_expires_at (snd r) = formatDBTime (Expires (parsed_affinity r))"
    unfolding tab by (simp only: list.set ball_simps snd_conv p alias_fields) (simp only: demo_row_def
      sessionAffinityRow.simps demo_times simp_thms)
  moreover have "keys_distinct (affinity (db ?s))" by (simp add: tab)
  moreover have "db_representable (clock ?s)" unfolding ok(2) by (rule demo_times)
  ultimately show ?thesis using cleanup_batch [OF ok(1), of 5] by fastforce
qed

text \<open>
  a binding that is not yet expired can be deleted: the cleanup compares expiry texts, and when
  the clock reads a whole second, a binding that expires later within that second has the smaller
  text.
\<close>

theorem cleanup_deletes_live_binding:
  assumes "healthy_store s" "affinity (db s) = [(d, c)]" "ar_expires_at c = formatDBTime e"
    and "nanos_of e \<noteq> 0" "clock s = e - nanos_of e"
  shows "clock s < e \<and>
    (\<exists>s'. CleanupExpiredSessionAffinity limit s = (Inr 1, s') \<and> affinity (db s') = [])"
proof -
  note late = fraction_before_whole [OF assms(4)]
  have "expired_batch l (clock s) [(d, c)] = [d]" if "0 < l" for l
    using late(1) that assms(3,5) by (simp add: expired_batch_def)
  moreover have "0 < sessionAffinityCleanupBatchSize" by (simp add: sessionAffinityCleanupBatchSize_def)
  ultimately show ?thesis
    using assms(1,2,5) late(2)
    by (simp add: CleanupExpiredSessionAffinity_def Let_def delete_affinity_def session_digest_def)
qed

theorem cleanup_deletes_live_binding_witness:
  "let s = update_affinity (\<lambda>_. [(demo_digest,
      alias_columns ((demo_row demo_digest ''e'' second)\<lparr>Expires := 500000000\<rparr>))]) (new_store 0)
   in clock s < 500000000 \<and> (\<exists>s'. CleanupExpiredSessionAffinity 100 s = (Inr 1, s') \<and> affinity (db s') = [])"
  unfolding Let_def
  by (rule cleanup_deletes_live_binding [where e = 500000000])
    (simp, simp, simp, simp add: nanos_of_def second_def, simp add: new_store_def nanos_of_def second_def)


end
