(* ===== verification/Failover_Properties.thy ===== *)
theory Failover_Properties
  imports Failover
begin

text \<open>
  What the failure half of \<open>failover.go\<close> promises: bodies are inspected without being consumed, a quota
  deadline is observed to the nanosecond, and the final error is determined by the classes of the
  allowed credentials; and two inputs for which the deadline is not what the upstream asked for.
\<close>

section \<open>Bodies\<close>

lemma read_limited_rejoins:
  assumes "read_limited n b = ((s, e), left)"
  shows "e = None \<Longrightarrow> n \<le> length s \<Longrightarrow> multi_reader [bytes_reader s, left] = b"
    and "e = None \<Longrightarrow> length s < n \<Longrightarrow> bytes_reader s = b"
    and "e = Some x \<Longrightarrow> multi_reader [bytes_reader s, replayErrorReader x, left] = b"
    and "length s \<le> n"
  using assms
  by (auto simp: read_limited_def bytes_reader_def replayErrorReader_def split: if_splits option.splits)

lemma inspect_keeps: "snd (inspectResponseBody resp) = resp"
proof (cases "resp_Body resp")
  case (Some original)
  obtain s e left where r: "read_limited (maxFailureInspectionBytes + 1) original = ((s, e), left)"
    by (metis surj_pair)
  have same: "resp\<lparr>resp_Body := Some original\<rparr> = resp" using Some by simp
  show ?thesis
  proof (cases e)
    case None
    with Some r read_limited_rejoins(1,2) [OF r None] same show ?thesis
      by (auto simp: inspectResponseBody_def)
  next
    case (Some x)
    with \<open>resp_Body resp = Some original\<close> r read_limited_rejoins(3) [OF r] same show ?thesis
      by (simp add: inspectResponseBody_def)
  qed
qed (simp add: inspectResponseBody_def)

text \<open>
  Classifying a response does not consume it: whatever the status, the length of the body and the
  error it may end with, the response handed on delivers exactly the bytes and the ending that the
  upstream sent.
\<close>

theorem classification_keeps_response:
  "snd (classifyUpstreamResponse lib resp model now) = resp"
proof (cases resp)
  case (Some r)
  then show ?thesis
    using inspect_keeps [of r]
    by (cases "inspectResponseBody r") (simp add: classifyUpstreamResponse_def Let_def)
qed (simp add: classifyUpstreamResponse_def)

definition delivered :: "request_body \<Rightarrow> body_stream" where
  "delivered r = (case rq_Body r of None \<Rightarrow> bytes_reader [] | Some b \<Rightarrow> b)"

lemma replay_body_facts:
  assumes prep: "prepareReplayBody r candidate = (ok, r')"
    and empty: "rq_ContentLength r = 0 \<Longrightarrow> delivered r = bytes_reader []"
  shows "delivered r' = delivered r \<and>
    (ok \<longrightarrow> rq_GetBody r' = Some (delivered r) \<and> b_end (delivered r) = None \<and>
       rq_ContentLength r' = int (length (b_bytes (delivered r))) \<and> rq_ContentLength r' \<le> maxReplayBodyBytes)"
proof (cases "\<not> candidate \<or> rq_Body r = None \<or> rq_ContentLength r \<le> 0 \<or> rq_ContentLength r > maxReplayBodyBytes")
  case True
  moreover have "0 \<le> maxReplayBodyBytes" by (simp add: maxReplayBodyBytes_def)
  ultimately show ?thesis
    using prep empty by (auto simp: prepareReplayBody_def delivered_def bytes_reader_def split: if_splits)
next
  case False
  then obtain b where b: "rq_Body r = Some b" by auto
  obtain s e left where read: "read_limited (nat maxReplayBodyBytes + 1) b = ((s, e), left)"
    by (metis surj_pair)
  note parts = read_limited_rejoins [OF read]
  show ?thesis
  proof (cases e)
    case (Some x)
    then show ?thesis
      using prep False b read parts(3) [OF Some] by (auto simp: prepareReplayBody_def delivered_def)
  next
    case None
    show ?thesis
    proof (cases "int (length s) > maxReplayBodyBytes")
      case True
      then have "nat maxReplayBodyBytes + 1 \<le> length s" by (simp add: maxReplayBodyBytes_def)
      with prep False b read None True parts(1) [OF None] show ?thesis
        by (auto simp: prepareReplayBody_def delivered_def)
    next
      case small: False
      then have "bytes_reader s = b" using parts(2) [OF None] by (simp add: maxReplayBodyBytes_def)
      moreover from this have "b_bytes b = s" "b_end b = None" by (auto simp: bytes_reader_def)
      ultimately show ?thesis
        using prep False b read None small
        by (auto simp: prepareReplayBody_def delivered_def resetRequestBody_def)
    qed
  qed
qed

text \<open>
  C34: Preparing a request body for replay keeps what the first attempt sends; and when it reports that
  the request may be replayed, \<open>GetBody\<close> produces the same complete bytes for every later attempt,
  they are as many as the announced length, and at most 32 MiB.
\<close>

theorem replay_body_faithful:
  assumes prep: "prepareReplayBody r candidate = (ok, r')"
    and empty: "rq_ContentLength r = 0 \<Longrightarrow> delivered r = bytes_reader []"
  shows "delivered r' = delivered r \<and>
    (ok \<longrightarrow> rq_GetBody r' = Some (delivered r) \<and> b_end (delivered r) = None \<and>
       rq_ContentLength r' = int (length (b_bytes (delivered r))) \<and> rq_ContentLength r' \<le> maxReplayBodyBytes)"
  by (rule replay_body_facts [OF prep empty])

theorem replay_body_faithful_witness:
  "snd (prepareReplayBody \<lparr>rq_Body = Some (bytes_reader ''x''), rq_ContentLength = 1, rq_GetBody = None\<rparr> True)
   = \<lparr>rq_Body = Some (bytes_reader ''x''), rq_ContentLength = 1, rq_GetBody = Some (bytes_reader ''x'')\<rparr>"
proof -
  let ?r = "\<lparr>rq_Body = Some (bytes_reader ''x''), rq_ContentLength = 1, rq_GetBody = None\<rparr>"
  have run: "prepareReplayBody ?r True = (True, ?r\<lparr>rq_GetBody := Some (bytes_reader ''x'')\<rparr>)"
    by (simp add: prepareReplayBody_def read_limited_def resetRequestBody_def bytes_reader_def maxReplayBodyBytes_def)
  show ?thesis
    using replay_body_faithful [OF run] run by (simp add: delivered_def)
qed

section \<open>Deadlines\<close>

lemma time_pos [simp]: "0 < second" by (simp add: second_def)

lemma seconds_fit: "int n \<le> max_int64 div second \<Longrightarrow> wrap64 (int n * second) = int n * second"
  by (rule wrap64_id) (simp_all add: go_time)

text \<open>An authoritative quota deadline replaces whatever was recorded and blocks until it has come.\<close>

lemma quota_recorded:
  assumes "plain_id (auth_ID a)" "f_Kind f = upstreamFailureQuota" "f_Explicit f" "f_RetryAt f \<noteq> 0"
    and "markAuthFailure lib a model f (r, s) = (None, r', s')"
  shows "\<exists>st. map_of (states r') (auth_ID a) = Some st \<and> RetryAt st = f_RetryAt f \<and> Kind st = AuthHealthQuota \<and>
           modelExclusions r' = modelExclusions r"
  using assms
  by (auto simp: markAuthFailure_def MarkUnavailable_def Let_def preserveExistingHealthState_def health_state_def
      incoming_state_def credentialHealthKind_def split: option.splits prod.splits sum.splits if_splits)

lemma blocked_until:
  assumes "map_of (states r) (auth_ID a) = Some st" "exclusions_of r (auth_ID a) = []" "plain_id (auth_ID a)"
    and "RetryAt st \<noteq> 0"
  shows "Blocked r t a model = (if t < RetryAt st then Some st else None)"
  using assms by (simp add: Blocked_def State_def Let_def split: option.split)

text \<open>
  C33: After a 429 with \<open>Retry-After: n\<close> seconds is recorded, the credential is blocked, as a quota
  cooldown, at every instant before the request's clock plus \<open>n\<close> seconds and at none after it,
  whatever the registry held for it before.
\<close>

theorem retry_after_observed:
  assumes resp: "resp_StatusCode resp = 429" "parse_uint64 (trim_space (resp_RetryAfter resp)) = Some n"
      "int n \<le> max_int64 div second"
    and auth: "plain_id (auth_ID a)" "exclusions_of r (auth_ID a) = []"
    and now: "0 < clock s"
    and mark: "markAuthFailure lib a model (fst (classifyUpstreamResponse lib (Some resp) model (clock s))) (r, s)
                 = (None, r', s')"
  shows "\<exists>st. Kind st = AuthHealthQuota \<and> (\<forall>t m. Blocked r' t a m =
           (if t < clock s + int n * second then Some st else None))"
proof -
  define f where "f = fst (classifyUpstreamResponse lib (Some resp) model (clock s))"
  have ne: "trim_space (resp_RetryAfter resp) \<noteq> []" using resp(2) by (auto simp: parse_uint64_def)
  have deadline: "parseRetryAfterDeadline lib (resp_RetryAfter resp) (clock s) = clock s + int n * second"
    using resp(2,3) ne by (simp add: parseRetryAfterDeadline_def seconds_fit)
  have pos: "clock s + int n * second \<noteq> 0"
    using now mult_nonneg_nonneg [of "int n" second] time_pos by linarith
  have f: "f_Kind f = upstreamFailureQuota" "f_Explicit f" "f_RetryAt f = clock s + int n * second"
    using resp(1) deadline pos
    by (auto simp: f_def classifyUpstreamResponse_def Let_def split: prod.split)
  from quota_recorded [OF auth(1) f(1,2) _ mark [folded f_def]] f(3) pos
  obtain st where st: "map_of (states r') (auth_ID a) = Some st" "RetryAt st = clock s + int n * second"
      "Kind st = AuthHealthQuota" "modelExclusions r' = modelExclusions r"
    by auto
  have "exclusions_of r' (auth_ID a) = []" using auth(2) st(4) by (simp add: exclusions_of_def)
  from blocked_until [OF st(1) this auth(1)] st(2,3) pos show ?thesis by auto
qed

definition demo_429 :: "string \<Rightarrow> upstream_response" where
  "demo_429 header = \<lparr>resp_StatusCode = 429, resp_RetryAfter = header, resp_Body = None\<rparr>"

lemma trim_digits [simp]: "trim_space ''60'' = ''60''"
  by (rule trim_space_plain; simp add: plain_char_def)

lemma Save_healthy:
  assumes "healthy_store s" "plain_id (p_AuthID st)" "persistedAuthHealthKind (p_Kind st)"
    "p_Kind st = AuthHealthQuota \<Longrightarrow> p_RetryAt st \<noteq> 0"
  shows "SaveAuthHealthState st s =
    (Inr (), update_health (AList.update (p_AuthID st) (row_of_state st (clock s))) s)"
  using assms by (auto simp: SaveAuthHealthState_def Let_def)

text \<open>Recording an authoritative quota failure in a store that works.\<close>

lemma quota_mark_healthy:
  assumes "healthy_store s" "plain_id (auth_ID a)" "f_Kind f = upstreamFailureQuota" "f_Explicit f" "f_RetryAt f \<noteq> 0"
  shows "\<exists>st r'. p_AuthID st = auth_ID a \<and> p_RetryAt st = f_RetryAt f \<and>
     markAuthFailure lib a model f (r, s) =
       (None, r', update_health (AList.update (auth_ID a) (row_of_state st (clock s))) s)"
proof -
  define hs where "hs = health_state AuthHealthQuota ''quota'' (f_RetryAt f) True (f_StatusCode f) (f_ErrorCode f)"
  define st where "st = incoming_state lib a hs (clock s)"
  have kind: "Kind st = AuthHealthQuota" "RetryAt st = f_RetryAt f" "Authoritative st"
    by (simp_all add: st_def hs_def incoming_state_def health_state_def credentialHealthKind_def Let_def)
  have keep: "\<not> preserveExistingHealthState p st (clock s)" for p
    using kind by (simp add: preserveExistingHealthState_def Let_def)
  have persist: "persist_state st" using kind assms(5) by (simp add: persist_state_def)
  have save: "SaveAuthHealthState (persisted_of (auth_ID a) st) s =
      (Inr (), update_health (AList.update (auth_ID a) (row_of_state (persisted_of (auth_ID a) st) (clock s))) s)"
    using Save_healthy [OF assms(1), of "persisted_of (auth_ID a) st"] assms(2,5) kind
    by (simp add: persisted_of_def persistedAuthHealthKind_def)
  have "markAuthFailure lib a model f (r, s) = MarkUnavailable lib a hs (r, s)"
    using assms(3-5) by (simp add: markAuthFailure_def hs_def)
  also have "\<dots> = (None, r\<lparr>states := AList.update (auth_ID a) st (states r)\<rparr>,
      update_health (AList.update (auth_ID a) (row_of_state (persisted_of (auth_ID a) st) (clock s))) s)"
    using assms(2) keep persist save
    by (simp add: MarkUnavailable_def Let_def st_def [symmetric] split: option.split)
  finally show ?thesis
    using kind by (intro exI [of _ "persisted_of (auth_ID a) st"]) (auto simp: persisted_of_def)
qed

theorem retry_after_observed_witness:
  "\<exists>r' s'. markAuthFailure demo_lib demo_id [] (fst (classifyUpstreamResponse demo_lib (Some (demo_429 ''60'')) [] 7))
             (newAuthHealthRegistry, new_store 7) = (None, r', s') \<and>
     Blocked r' (60 * second) demo_id [] \<noteq> None \<and> Blocked r' (7 + 60 * second) demo_id [] = None"
proof -
  let ?f = "fst (classifyUpstreamResponse demo_lib (Some (demo_429 ''60'')) [] 7)"
  have p: "parse_uint64 ''60'' = Some 60" by (simp add: parse_uint64_def digits_value_def is_digit_def)
  have f: "f_Kind ?f = upstreamFailureQuota" "f_Explicit ?f" "f_RetryAt ?f \<noteq> 0"
    using p by (simp_all add: classifyUpstreamResponse_def Let_def demo_429_def inspectResponseBody_def
        parseRetryAfterDeadline_def go_time wrap64_def)
  obtain r' s' where mark: "markAuthFailure demo_lib demo_id [] ?f (newAuthHealthRegistry, new_store 7) = (None, r', s')"
    using quota_mark_healthy [of "new_store 7" demo_id ?f demo_lib "[]" newAuthHealthRegistry] f by auto
  have "\<exists>st. Kind st = AuthHealthQuota \<and> (\<forall>t m. Blocked r' t demo_id m =
           (if t < clock (new_store 7) + int 60 * second then Some st else None))"
    by (rule retry_after_observed [where resp = "demo_429 ''60''" and lib = demo_lib and r = newAuthHealthRegistry
          and model = "[]" and s' = s'])
      (use mark p in \<open>simp_all add: demo_429_def go_time newAuthHealthRegistry_def exclusions_of_def new_store_def\<close>)
  then have "Blocked r' (60 * second) demo_id [] \<noteq> None" "Blocked r' (7 + 60 * second) demo_id [] = None"
    by (auto simp: new_store_def)
  with mark show ?thesis by blast
qed

text \<open>
  A 429 whose body asks for a pause of more than 292 years in \<open>resets_in_seconds\<close> is recorded with
  a retry time that has wrapped round the 64-bit \<open>Duration\<close>: for 9223372037 seconds it lies before
  the request, so the credential is not blocked at any later instant, whereas the same number in a
  \<open>Retry-After\<close> header is clamped and blocks it.
\<close>

theorem huge_reset_unblocks:
  assumes body: "resp_StatusCode resp = 429" "resp_RetryAfter resp = []"
      "parseUpstreamErrorInfo lib (fst (inspectResponseBody resp)) = info"
      "info_ResetsAt info = 0" "info_ResetsInSeconds info = 9223372037"
    and auth: "plain_id (auth_ID a)" "exclusions_of r (auth_ID a) = []"
    and store: "healthy_store s" "9223372036709551616 < clock s"
  shows "\<exists>r' s'. markAuthFailure lib a model (fst (classifyUpstreamResponse lib (Some resp) model (clock s))) (r, s)
                   = (None, r', s') \<and>
            (\<forall>t m. clock s \<le> t \<longrightarrow> Blocked r' t a m = None) \<and>
            parseRetryAfterDeadline lib ''9223372037'' (clock s) = clock s + max_int64"
proof -
  define f where "f = fst (classifyUpstreamResponse lib (Some resp) model (clock s))"
  have wrapped: "explicitQuotaRecoveryTime info (clock s) = clock s - 9223372036709551616"
    using body(4,5) by (simp add: explicitQuotaRecoveryTime_def wrap64_def second_def)
  have f: "f_Kind f = upstreamFailureQuota" "f_Explicit f" "f_RetryAt f = clock s - 9223372036709551616"
    using body store(2) wrapped
    by (auto simp: f_def classifyUpstreamResponse_def Let_def parseRetryAfterDeadline_def split: prod.split)
  then have ne: "f_RetryAt f \<noteq> 0" using store(2) by simp
  from quota_mark_healthy [OF store(1) auth(1) f(1,2) ne, of lib model r]
  obtain r' s' where mark: "markAuthFailure lib a model f (r, s) = (None, r', s')" by auto
  from quota_recorded [OF auth(1) f(1,2) ne mark]
  obtain st where st: "map_of (states r') (auth_ID a) = Some st" "RetryAt st = f_RetryAt f"
      "modelExclusions r' = modelExclusions r" by auto
  have none: "exclusions_of r' (auth_ID a) = []" using auth(2) st(3) by (simp add: exclusions_of_def)
  have "Blocked r' t a m = None" if "clock s \<le> t" for t m
    using blocked_until [OF st(1) none auth(1)] st(2) ne f(3) that by simp
  moreover have "trim_space ''9223372037'' = ''9223372037''"
    by (rule trim_space_plain; simp add: plain_char_def)
  then have "parseRetryAfterDeadline lib ''9223372037'' (clock s) = clock s + max_int64"
    by (simp add: parseRetryAfterDeadline_def parse_uint64_def digits_value_def is_digit_def go_time)
  ultimately show ?thesis using mark by (auto simp: f_def)
qed

definition demo_error_lib :: "string \<Rightarrow> string \<Rightarrow> go_lib" where
  "demo_error_lib field value = demo_lib\<lparr>decode_error_object := (\<lambda>body.
     if body = ''b'' then Some [(''error'', JObj [(field, JNumber value)])] else None)\<rparr>"

definition demo_429_body :: upstream_response where
  "demo_429_body = \<lparr>resp_StatusCode = 429, resp_RetryAfter = [], resp_Body = Some (bytes_reader ''b'')\<rparr>"

lemma demo_inspect [simp]: "inspectResponseBody demo_429_body = (''b'', demo_429_body)"
  by (simp add: inspectResponseBody_def demo_429_body_def read_limited_def bytes_reader_def
      maxFailureInspectionBytes_def)

theorem huge_reset_unblocks_witness:
  "\<exists>r' s'. markAuthFailure (demo_error_lib ''resets_in_seconds'' ''9223372037'') demo_id []
      (fst (classifyUpstreamResponse (demo_error_lib ''resets_in_seconds'' ''9223372037'') (Some demo_429_body) []
         (clock (new_store unix_epoch)))) (newAuthHealthRegistry, new_store unix_epoch) = (None, r', s') \<and>
      (\<forall>t m. clock (new_store unix_epoch) \<le> t \<longrightarrow> Blocked r' t demo_id m = None)"
proof -
  let ?lib = "demo_error_lib ''resets_in_seconds'' ''9223372037''"
  let ?info = "\<lparr>info_Code = [], info_Type = [], info_Message = [], info_ResetsAt = 0,
     info_ResetsInSeconds = 9223372037\<rparr>"
  have info: "parseUpstreamErrorInfo ?lib (fst (inspectResponseBody demo_429_body)) = ?info"
    by (simp add: parseUpstreamErrorInfo_def demo_error_lib_def demo_lib_def mapField_def stringMapValue_def
        int64MapValue_def parse_int64_def is_digit_def digits_value_def go_time Let_def)
  have "exclusions_of newAuthHealthRegistry (auth_ID demo_id) = []" "plain_id (auth_ID demo_id)"
      "9223372036709551616 < clock (new_store unix_epoch)"
      "resp_StatusCode demo_429_body = 429" "resp_RetryAfter demo_429_body = []"
    by (simp_all add: demo_429_body_def newAuthHealthRegistry_def exclusions_of_def new_store_def
        unix_epoch_def second_def)
  from huge_reset_unblocks [OF this(4,5) info _ _ this(2,1) healthy_new this(3), of "[]"]
  show ?thesis by auto
qed

section \<open>A deadline the store cannot read back\<close>

lemma scan_unparsable:
  assumes "(i, row) \<in> set rows" "parse_optional (hr_retry_at row) = None"
  shows "\<exists>e. fst (scan_health_rows rows sts s) = Inl e"
  using assms
proof (induction rows arbitrary: sts)
  case (Cons x rows)
  obtain j q where x: "x = (j, q)" by fastforce
  show ?case
  proof (cases "parse_optional (hr_retry_at q) = None \<or> parseDBTime (hr_updated_at q) = None")
    case True
    then show ?thesis by (auto simp: x store_error_Inl split: option.split)
  next
    case False
    with Cons x show ?thesis by auto
  qed
qed simp

lemma load_unparsable:
  assumes "healthy_store s" "map_of (health (db s)) i = Some row" "parse_optional (hr_retry_at row) = None"
  shows "\<exists>e. fst (LoadAuthHealthStates s) = Inl e"
proof -
  have "(i, row) \<in> set (sort_key fst (health (db s)))" using map_of_SomeD [OF assms(2)] by simp
  from scan_unparsable [OF this assms(3)] assms(1) show ?thesis by (simp add: LoadAuthHealthStates_def)
qed

lemma map_of_filter_fst: "map_of (filter (\<lambda>r. fst r \<in> S) m) i = (if i \<in> S then map_of m i else None)"
  by (induction m) auto

lemma restore_unparsable:
  assumes "healthy_store s" "map_of (health (db s)) i = Some row" "parse_optional (hr_retry_at row) = None"
    and "i \<in> set (normalizeStrings (stableAuthIDs auths))"
  shows "\<exists>e. fst (Restore lib auths (r, s)) = Some e"
proof -
  let ?ids = "normalizeStrings (stableAuthIDs auths)"
  define s1 where "s1 = update_health (filter (\<lambda>row. if ?ids \<noteq> [] then fst row \<in> set ?ids else False)) s"
  have delete: "DeleteAuthHealthExceptAuthIDs (stableAuthIDs auths) s = (Inr (), s1)"
    using assms(1) by (simp add: DeleteAuthHealthExceptAuthIDs_def Let_def s1_def)
  have "?ids \<noteq> []" using assms(4) by auto
  then have "map_of (health (db s1)) i = Some row"
    using assms(2,4) by (simp add: s1_def map_of_filter_fst)
  then obtain e where "fst (LoadAuthHealthStates s1) = Inl e"
    using load_unparsable [of s1 i row] assms(1,3) by (auto simp: s1_def)
  then obtain s2 where "LoadAuthHealthStates s1 = (Inl e, s2)" by (metis prod.collapse)
  then show ?thesis by (simp add: Restore_def delete)
qed

text \<open>
  A 429 whose body gives a \<open>resets_at\<close> past the year 9999 (a value in milliseconds is enough) is
  recorded in a form the store does not read back: the request succeeds in saving it, and from then
  on restoring the health states at a start of the server fails as long as the account exists.
\<close>

theorem wide_reset_blocks_restart:
  assumes body: "resp_StatusCode resp = 429" "resp_RetryAfter resp = []"
      "parseUpstreamErrorInfo lib (fst (inspectResponseBody resp)) = info"
      "0 < info_ResetsAt info" "info_ResetsAt info \<le> max_int64 - 62135596800"
      "\<not> db_representable (time_unix (info_ResetsAt info))" "clock s < time_unix (info_ResetsAt info)"
    and auth: "plain_id (auth_ID a)" "a \<in> set auths"
    and store: "healthy_store s"
  shows "\<exists>r' s'. markAuthFailure lib a model (fst (classifyUpstreamResponse lib (Some resp) model (clock s))) (r, s)
                   = (None, r', s') \<and> healthy_store s' \<and>
            (\<forall>start lib'. \<exists>e. fst (Restore lib' auths (newAuthHealthRegistry, s'\<lparr>clock := start\<rparr>)) = Some e)"
proof -
  define f where "f = fst (classifyUpstreamResponse lib (Some resp) model (clock s))"
  define wide where "wide = time_unix (info_ResetsAt info)"
  have "wrap64 (info_ResetsAt info + 62135596800) = info_ResetsAt info + 62135596800"
    using body(4,5) by (intro wrap64_id) (simp_all add: go_time)
  then have pos: "0 < wide" using body(4) by (simp add: wide_def time_unix_def second_def)
  have deadline: "explicitQuotaRecoveryTime info (clock s) = wide"
    using body(4,7) by (simp add: explicitQuotaRecoveryTime_def wide_def)
  have f: "f_Kind f = upstreamFailureQuota" "f_Explicit f" "f_RetryAt f = wide"
    using body(1-3) deadline pos
    by (auto simp: f_def classifyUpstreamResponse_def Let_def parseRetryAfterDeadline_def split: prod.split)
  have ne: "f_RetryAt f \<noteq> 0" using f(3) pos by simp
  from quota_mark_healthy [OF store auth(1) f(1,2) ne, of lib model r]
  obtain st r' where st: "p_RetryAt st = wide"
    and mark: "markAuthFailure lib a model f (r, s)
      = (None, r', update_health (AList.update (auth_ID a) (row_of_state st (clock s))) s)"
    using f(3) by auto
  define s' where "s' = update_health (AList.update (auth_ID a) (row_of_state st (clock s))) s"
  have healthy: "healthy_store (s'\<lparr>clock := start\<rparr>)" for start
    using store by (simp add: s'_def healthy_store_def)
  have row: "map_of (health (db (s'\<lparr>clock := start\<rparr>))) (auth_ID a) = Some (row_of_state st (clock s))" for start
    by (simp add: s'_def)
  have "parse_optional (hr_retry_at (row_of_state st (clock s))) = None"
    using wide_year_unparsable [of wide] pos body(6) st by (simp add: parse_optional_def row_of_state_def wide_def)
  moreover have "auth_ID a \<in> set (normalizeStrings (stableAuthIDs auths))"
    using auth by (auto simp: plain_normalize stableAuthIDs_def image_iff intro!: bexI [of _ a])
  ultimately have "\<exists>e. fst (Restore lib' auths (newAuthHealthRegistry, s'\<lparr>clock := start\<rparr>)) = Some e" for start lib'
    using restore_unparsable [OF healthy row] by blast
  moreover have "healthy_store s'" using store by (simp add: s'_def)
  ultimately show ?thesis using mark by (auto simp: f_def s'_def)
qed

theorem wide_reset_blocks_restart_witness:
  "\<exists>r' s'. markAuthFailure (demo_error_lib ''resets_at'' ''1790000000000'') demo_id []
      (fst (classifyUpstreamResponse (demo_error_lib ''resets_at'' ''1790000000000'') (Some demo_429_body) []
         (clock (new_store unix_epoch)))) (newAuthHealthRegistry, new_store unix_epoch) = (None, r', s') \<and>
      (\<exists>e. fst (Restore demo_lib [demo_id] (newAuthHealthRegistry, s'\<lparr>clock := 2 * unix_epoch\<rparr>)) = Some e)"
proof -
  let ?lib = "demo_error_lib ''resets_at'' ''1790000000000''"
  let ?info = "\<lparr>info_Code = [], info_Type = [], info_Message = [], info_ResetsAt = 1790000000000,
     info_ResetsInSeconds = 0\<rparr>"
  have info: "parseUpstreamErrorInfo ?lib (fst (inspectResponseBody demo_429_body)) = ?info"
    by (simp add: parseUpstreamErrorInfo_def demo_error_lib_def demo_lib_def mapField_def stringMapValue_def
        int64MapValue_def parse_int64_def is_digit_def digits_value_def go_time Let_def)
  have "plain_id (auth_ID demo_id)" "demo_id \<in> set [demo_id]"
      "resp_StatusCode demo_429_body = 429" "resp_RetryAfter demo_429_body = []"
      "\<not> db_representable (time_unix (info_ResetsAt ?info))"
      "clock (new_store unix_epoch) < time_unix (info_ResetsAt ?info)"
      "0 < info_ResetsAt ?info" "info_ResetsAt ?info \<le> max_int64 - 62135596800"
    by (simp_all add: demo_429_body_def new_store_def unix_epoch_def second_def time_unix_def wrap64_def
        db_representable_def max_db_seconds_def seconds_of_def max_int64_def)
  from wide_reset_blocks_restart [OF this(3,4) info this(7,8,5,6,1,2) healthy_new, of "[]" newAuthHealthRegistry]
  show ?thesis by meson
qed

section \<open>The final error\<close>

lemma all_filter: "length (filter P cs) = length cs \<longleftrightarrow> (\<forall>x\<in>set cs. P x)"
proof
  assume eq: "length (filter P cs) = length cs"
  show "\<forall>x\<in>set cs. P x"
  proof
    fix x assume "x \<in> set cs"
    then show "P x" using eq length_filter_less [of x cs P] by auto
  qed
qed simp

lemma count_two:
  "c \<noteq> d \<Longrightarrow> length (filter (\<lambda>x. x = c) cs) + length (filter (\<lambda>x. x = d) cs) = length (filter (\<lambda>x. x = c \<or> x = d) cs)"
  by (induction cs) auto

definition least_wait :: "time set \<Rightarrow> time" where
  "least_wait T = (if T = {} then 0 else Min T)"

lemma earliest_quota_least:
  "earliest_quota cs = least_wait {t. ClassQuota t \<in> set cs \<and> t \<noteq> 0}"
proof -
  define step where "step = (\<lambda>c earliest. case c of
      ClassQuota t \<Rightarrow> if \<not> is_zero_time t \<and> (is_zero_time earliest \<or> t < earliest) then t else earliest
    | _ \<Rightarrow> earliest)"
  define times where "times = (\<lambda>cs. {t. ClassQuota t \<in> set cs \<and> t \<noteq> (0::time)})"
  have fin: "finite (times cs)" for cs
  proof -
    have "ClassQuota ` times cs \<subseteq> set cs" by (auto simp: times_def)
    then show ?thesis
      by (meson List.finite_set finite_imageD finite_subset auth_class.inject inj_onI)
  qed
  have cons: "times (c # cs) = (case c of ClassQuota t \<Rightarrow> if t = 0 then {} else {t} | _ \<Rightarrow> {}) \<union> times cs" for c cs
    by (auto simp: times_def split: auth_class.split)
  have "fold step cs e = least_wait (times cs \<union> (if e = 0 then {} else {e}))" for e
  proof (induction cs arbitrary: e)
    case Nil
    then show ?case by (simp add: times_def least_wait_def)
  next
    case (Cons c cs)
    have "least_wait (times cs \<union> (if step c e = 0 then {} else {step c e}))
        = least_wait (times (c # cs) \<union> (if e = 0 then {} else {e}))"
    proof (cases "\<exists>t. c = ClassQuota t \<and> t \<noteq> 0")
      case True
      then obtain t where t: "c = ClassQuota t" "t \<noteq> 0" by blast
      show ?thesis
      proof (cases "times cs = {}")
        case True
        then show ?thesis using t by (auto simp: cons step_def least_wait_def)
      next
        case False
        then show ?thesis using t fin [of cs] by (auto simp: cons step_def least_wait_def)
      qed
    qed (auto simp: cons step_def split: auth_class.split)
    with Cons.IH [of "step c e"] show ?case by simp
  qed
  from this [of 0] show ?thesis by (simp add: earliest_quota_def step_def times_def)
qed

lemma final_decision_mset:
  assumes same: "mset cs = mset cs'"
  shows "final_decision now w cs = final_decision now w cs'"
proof -
  have count: "length (filter P cs) = length (filter P cs')" for P
    using same by (metis mset_filter size_mset)
  have len: "length cs = length cs'" using same by (metis size_mset)
  have "set cs = set cs'" using same by (metis set_mset_mset)
  then have early: "earliest_quota cs = earliest_quota cs'" by (simp add: earliest_quota_least)
  show ?thesis unfolding final_decision_def Let_def by (simp only: count len early)
qed

text \<open>
  The error of a request no credential could serve depends only on the set-like content of its
  inputs, not on the order in which maps and directories are visited: the same credentials in another
  order, and an aggregate that is the same map, give the same status, code and retry time.
\<close>

theorem final_error_order_independent:
  assumes "mset auths = mset auths'" "map_of aggregate = map_of aggregate'"
  shows "finalProxyError r now maxRetryInterval auths model aggregate allowed
       = finalProxyError r now maxRetryInterval auths' model aggregate' allowed"
proof -
  have agg: "classify_auth r now model aggregate' = classify_auth r now model aggregate"
    unfolding classify_auth_def assms(2) ..
  show ?thesis
    unfolding finalProxyError_def agg by (rule final_decision_mset) (simp add: assms(1))
qed

theorem final_error_order_independent_witness:
  "finalProxyError newAuthHealthRegistry 7 30 [demo_id, demo_id\<lparr>auth_ID := ''b''\<rparr>] []
      [(''b'', no_failure), (''account:1'', no_failure\<lparr>f_Kind := upstreamFailureQuota\<rparr>)] {''account:1'', ''b''}
   = finalProxyError newAuthHealthRegistry 7 30 [demo_id\<lparr>auth_ID := ''b''\<rparr>, demo_id] []
      [(''account:1'', no_failure\<lparr>f_Kind := upstreamFailureQuota\<rparr>), (''b'', no_failure)] {''account:1'', ''b''}"
  by (rule final_error_order_independent) (auto simp: fun_eq_iff)

text \<open>
  C32: What the final error says about the allowed credentials: 404 exactly when there are some and the
  model is unsupported on each; 503 exactly when each (of possibly none) is disabled or has failed
  credentials; 429 whenever one is in a quota cooldown and none in a transient one, and never without
  a quota cooldown; its retry time is then the earliest known quota deadline, and no other error has
  one.
\<close>

theorem final_error_meaning:
  assumes "e = finalProxyError r now maxRetryInterval auths model aggregate allowed"
    and "cs = classify_auth r now model aggregate ` {a \<in> set auths. auth_ID a \<in> allowed}"
  shows "(pe_StatusCode e = 404 \<longleftrightarrow> cs \<noteq> {} \<and> cs \<subseteq> {ClassModel}) \<and>
    (pe_StatusCode e = 503 \<longleftrightarrow> cs \<subseteq> {ClassDisabled, ClassCredential}) \<and>
    ((\<exists>t. ClassQuota t \<in> cs) \<and> ClassTransient \<notin> cs \<longrightarrow> pe_StatusCode e = 429) \<and>
    (pe_StatusCode e = 429 \<longrightarrow> (\<exists>t. ClassQuota t \<in> cs)) \<and>
    pe_RetryAt e = (if pe_StatusCode e = 429 then least_wait {t. ClassQuota t \<in> cs \<and> t \<noteq> 0} else 0)"
proof -
  define xs where "xs = map (classify_auth r now model aggregate) (filter (\<lambda>a. auth_ID a \<in> allowed) auths)"
  have cs: "cs = set xs" using assms(2) by (auto simp: xs_def)
  have quota: "filter is_quota xs = [] \<longleftrightarrow> \<not> (\<exists>t. ClassQuota t \<in> cs)"
    by (auto simp: filter_empty_conv cs is_quota_def split: auth_class.splits)
  have trans: "filter (\<lambda>d. d = ClassTransient) xs = [] \<longleftrightarrow> ClassTransient \<notin> cs"
    by (auto simp: filter_empty_conv cs)
  have all404: "length (filter (\<lambda>d. d = ClassModel) xs) = length xs \<longleftrightarrow> cs \<subseteq> {ClassModel}"
    unfolding all_filter cs by auto
  have all503: "length (filter (\<lambda>d. d = ClassDisabled) xs) + length (filter (\<lambda>d. d = ClassCredential) xs) = length xs
      \<longleftrightarrow> cs \<subseteq> {ClassDisabled, ClassCredential}"
    by (subst count_two) (auto simp: all_filter cs)
  have e: "e = final_decision now maxRetryInterval xs"
    using assms(1) by (simp add: finalProxyError_def xs_def)
  have early: "earliest_quota xs = least_wait {t. ClassQuota t \<in> cs \<and> t \<noteq> 0}"
    by (simp add: earliest_quota_least cs)
  have nil: "length xs > 0 \<longleftrightarrow> cs \<noteq> {}" by (simp add: cs)
  show ?thesis
    unfolding e final_decision_def Let_def nil all404 all503 early [symmetric]
    using quota trans nil by (auto simp: final_error_def)
qed

theorem final_error_meaning_witness:
  "pe_StatusCode (finalProxyError newAuthHealthRegistry 7 30 [demo_id] []
     [(''account:1'', no_failure\<lparr>f_Kind := upstreamFailureQuota, f_RetryAt := 9\<rparr>)] {''account:1''}) = 429"
proof -
  let ?agg = "[(''account:1'', no_failure\<lparr>f_Kind := upstreamFailureQuota, f_RetryAt := 9\<rparr>)]"
  have one: "{a \<in> set [demo_id]. auth_ID a \<in> {''account:1''}} = {demo_id}" by auto
  have "classify_auth newAuthHealthRegistry 7 [] ?agg ` {a \<in> set [demo_id]. auth_ID a \<in> {''account:1''}} = {ClassQuota 9}"
    unfolding one by (simp add: classify_auth_def Blocked_def State_def newAuthHealthRegistry_def normalizeModelIdentifier_def
        trim_blanks_def Let_def exclusions_of_def healthStateFromFailure_def health_state_def kind_defs demo_id_def
        demo_auth_def)
  with final_error_meaning [OF refl refl, of newAuthHealthRegistry 7 30 "[demo_id]" "[]" ?agg "{''account:1''}"]
  show ?thesis by simp
qed

end
