(* ===== verification/Model_Catalog.thy ===== *)
theory Model_Catalog
  imports Failover
begin

text \<open>
  The runtime model catalogue (\<open>models.go\<close>): for each client version an entry with, per credential,
  the models it listed and the state of its fetches; at most 16 versions, the least recently used
  evicted. Entries and calls are pointers in the code, so they carry fresh numbers here. The map
  \<open>versions\<close> and the list \<open>lru\<close> hold the same entries, so one list, most recently used first, stands
  for both. Fetches run concurrently with everything else: a request starts them, and each later
  event (a fetch ends, a retry is due, an account disappears) is a step of its own. \<open>json.Marshal\<close> and the
  embedded model list are arguments.
\<close>

section \<open>State\<close>

record modelCatalogAuth =
  snapshot :: "json_map list option"
  fetchedAt :: time
  foreground :: "nat option"
  background :: bool
  cycleStartedAt :: time
  exhausted :: bool
  exhaustedGeneration :: "64 word"

definition new_catalog_auth :: modelCatalogAuth where
  "new_catalog_auth = \<lparr>snapshot = None, fetchedAt = 0, foreground = None, background = False,
     cycleStartedAt = 0, exhausted = False, exhaustedGeneration = 0\<rparr>"

record modelCatalogVersion =
  entry_id :: nat
  version :: string
  entry_auths :: "(string \<times> modelCatalogAuth) list"

record runtimeModelCatalog =
  lru :: "modelCatalogVersion list"
  fresh :: nat

definition newRuntimeModelCatalog :: runtimeModelCatalog where
  "newRuntimeModelCatalog = \<lparr>lru = [], fresh = 0\<rparr>"

definition maxClientVersionBytes :: nat where "maxClientVersionBytes = 64"
definition maxModelCatalogVersions :: nat where "maxModelCatalogVersions = 16"
definition modelCatalogTTL :: duration where "modelCatalogTTL = 3 * hour"
definition modelCatalogBackgroundRetries :: nat where "modelCatalogBackgroundRetries = 3"
definition modelCatalogRetryBaseDelay :: duration where "modelCatalogRetryBaseDelay = second"

definition normalizeClientVersion :: "string \<Rightarrow> string option" where
  "normalizeClientVersion version0 =
     (let v = trim_space version0 in
      if v = [] \<or> length v > maxClientVersionBytes then None
      else if list_all (\<lambda>c. is_alnum c \<or> c \<in> set ''.-_+'') v then Some v else None)"

definition distinctSortedAuths :: "Auth list \<Rightarrow> Auth list" where
  "distinctSortedAuths auths =
     (let byID = fold (\<lambda>a m. if trim_space (auth_ID a) = [] then m else AList.update (auth_ID a) a m) auths []
      in map snd (sort_key fst byID))"

definition find_entry :: "nat \<Rightarrow> runtimeModelCatalog \<Rightarrow> modelCatalogVersion option" where
  "find_entry i c = find (\<lambda>e. entry_id e = i) (lru c)"

definition find_version :: "string \<Rightarrow> runtimeModelCatalog \<Rightarrow> modelCatalogVersion option" where
  "find_version v c = find (\<lambda>e. version e = v) (lru c)"

definition moveToFront :: "modelCatalogVersion \<Rightarrow> runtimeModelCatalog \<Rightarrow> runtimeModelCatalog" where
  "moveToFront e c = c\<lparr>lru := e # filter (\<lambda>x. entry_id x \<noteq> entry_id e) (lru c)\<rparr>"

definition versionLocked :: "string \<Rightarrow> runtimeModelCatalog \<Rightarrow> modelCatalogVersion \<times> runtimeModelCatalog" where
  "versionLocked v c =
     (case find_version v c of
        Some e \<Rightarrow> (e, moveToFront e c)
      | None \<Rightarrow>
          let e = \<lparr>entry_id = fresh c, version = v, entry_auths = []\<rparr>
          in (e, \<lparr>lru = take maxModelCatalogVersions (e # lru c), fresh = Suc (fresh c)\<rparr>))"

definition update_entry :: "nat \<Rightarrow> (modelCatalogVersion \<Rightarrow> modelCatalogVersion) \<Rightarrow> runtimeModelCatalog \<Rightarrow> runtimeModelCatalog" where
  "update_entry i f c = c\<lparr>lru := map (\<lambda>e. if entry_id e = i then f e else e) (lru c)\<rparr>"

definition set_auth :: "string \<Rightarrow> modelCatalogAuth \<Rightarrow> modelCatalogVersion \<Rightarrow> modelCatalogVersion" where
  "set_auth authID st e = e\<lparr>entry_auths := AList.update authID st (entry_auths e)\<rparr>"

definition update_state :: "nat \<Rightarrow> string \<Rightarrow> (modelCatalogAuth \<Rightarrow> modelCatalogAuth) \<Rightarrow> runtimeModelCatalog \<Rightarrow> runtimeModelCatalog" where
  "update_state i authID f c =
     update_entry i (\<lambda>e. case map_of (entry_auths e) authID of
                           None \<Rightarrow> e | Some st \<Rightarrow> set_auth authID (f st) e) c"

text \<open>\<open>entryCurrentLocked\<close>: an evicted entry is no longer in the list, and its number is never reused.\<close>

definition lookup_state :: "nat \<Rightarrow> string \<Rightarrow> runtimeModelCatalog \<Rightarrow> modelCatalogAuth option" where
  "lookup_state i authID c =
     (case find_entry i c of None \<Rightarrow> None | Some e \<Rightarrow> map_of (entry_auths e) authID)"

section \<open>A request for the catalogue\<close>

record modelCatalogFetchStart =
  start_entry :: nat
  start_auth :: Auth
  start_call :: nat

datatype turn_decision = TurnFresh | TurnJoin nat | TurnPending | TurnExhausted | TurnStart modelCatalogAuth

definition catalog_turn :: "time \<Rightarrow> (string \<Rightarrow> 64 word) \<Rightarrow> string \<Rightarrow> modelCatalogAuth \<Rightarrow> turn_decision" where
  "catalog_turn now generation authID st =
     (if fetchedAt st + modelCatalogTTL > now then TurnFresh
      else (case foreground st of
              Some call \<Rightarrow> TurnJoin call
            | None \<Rightarrow>
                if background st then TurnPending
                else if exhausted st \<and> generation authID \<le> exhaustedGeneration st \<and>
                        cycleStartedAt st + modelCatalogTTL > now
                then TurnExhausted
                else
                  let st1 = (if exhausted st then st\<lparr>exhausted := False, cycleStartedAt := now\<rparr> else st)
                  in TurnStart (if is_zero_time (cycleStartedAt st1) then st1\<lparr>cycleStartedAt := now\<rparr> else st1)))"

fun catalog_turns ::
  "time \<Rightarrow> (string \<Rightarrow> 64 word) \<Rightarrow> Auth list \<Rightarrow> modelCatalogVersion \<Rightarrow> nat
     \<Rightarrow> (nat list \<times> modelCatalogFetchStart list) \<times> modelCatalogVersion \<times> nat" where
  "catalog_turns now generation [] e n = (([], []), e, n)"
| "catalog_turns now generation (a # as) e n =
     (let i = auth_ID a;
          st = (case map_of (entry_auths e) i of None \<Rightarrow> new_catalog_auth | Some st \<Rightarrow> st)
      in case catalog_turn now generation i st of
           TurnJoin call \<Rightarrow>
             (case catalog_turns now generation as (set_auth i st e) n of
                ((calls, starts), r) \<Rightarrow> ((call # calls, starts), r))
         | TurnStart st' \<Rightarrow>
             (case catalog_turns now generation as (set_auth i (st'\<lparr>foreground := Some n\<rparr>) e) (Suc n) of
                ((calls, starts), r) \<Rightarrow>
                  ((n # calls, \<lparr>start_entry = entry_id e, start_auth = a, start_call = n\<rparr> # starts), r))
         | _ \<Rightarrow> catalog_turns now generation as (set_auth i st e) n)"

text \<open>
  The locked half of \<open>Catalog\<close>: the entry asked for, the calls the request waits for, and the fetches
  it starts. Only an invalid version fails.
\<close>

definition Catalog_begin ::
  "time \<Rightarrow> (string \<Rightarrow> 64 word) \<Rightarrow> string \<Rightarrow> Auth list \<Rightarrow> runtimeModelCatalog
     \<Rightarrow> (nat \<times> nat list \<times> modelCatalogFetchStart list \<times> runtimeModelCatalog) option" where
  "Catalog_begin now generation clientVersion auths c =
     (case normalizeClientVersion clientVersion of
        None \<Rightarrow> None
      | Some v \<Rightarrow>
          (case versionLocked v c of
             (e, c1) \<Rightarrow>
               (case catalog_turns now generation (distinctSortedAuths auths) e (fresh c1) of
                  ((calls, starts), e', n) \<Rightarrow>
                    Some (entry_id e, calls, starts, (update_entry (entry_id e) (\<lambda>_. e') c1)\<lparr>fresh := n\<rparr>))))"

section \<open>The end of a fetch\<close>

definition applyFetchSuccess :: "time \<Rightarrow> json_map list \<Rightarrow> modelCatalogAuth \<Rightarrow> modelCatalogAuth" where
  "applyFetchSuccess now models st =
     st\<lparr>snapshot := Some models, fetchedAt := now, background := False, exhausted := False,
       exhaustedGeneration := 0, cycleStartedAt := 0\<rparr>"

text \<open>\<open>runForegroundFetch\<close> after its fetch: \<open>True\<close> when it starts the background retries.\<close>

definition foreground_done ::
  "time \<Rightarrow> modelCatalogFetchStart \<Rightarrow> (go_err + json_map list) \<Rightarrow> runtimeModelCatalog \<Rightarrow> bool \<times> runtimeModelCatalog" where
  "foreground_done now start result c =
     (let i = start_entry start; authID = auth_ID (start_auth start) in
      case lookup_state i authID c of
        None \<Rightarrow> (False, c)
      | Some st \<Rightarrow>
          if foreground st \<noteq> Some (start_call start) then (False, c)
          else (case result of
                  Inr models \<Rightarrow>
                    (False, update_state i authID (\<lambda>st. applyFetchSuccess now models (st\<lparr>foreground := None\<rparr>)) c)
                | Inl e \<Rightarrow>
                    (\<not> background st,
                     update_state i authID (\<lambda>st. st\<lparr>foreground := None, background := True\<rparr>) c)))"

definition finishBackground ::
  "(string \<Rightarrow> 64 word) \<Rightarrow> nat \<Rightarrow> string \<Rightarrow> bool \<Rightarrow> runtimeModelCatalog \<Rightarrow> runtimeModelCatalog" where
  "finishBackground generation i authID out =
     update_state i authID (\<lambda>st.
       let st1 = st\<lparr>background := False, exhausted := out\<rparr>
       in if out then st1\<lparr>exhaustedGeneration := generation authID\<rparr> else st1)"

text \<open>
  One turn of the loop of \<open>runBackgroundFetch\<close>, for attempt 1, 2 or 3: the wait fails, or the fetch
  ends. It gives the number of the next attempt, if there is one.
\<close>

datatype background_event = BackgroundCanceled | BackgroundFailed | BackgroundFetched "json_map list"

definition background_turn ::
  "time \<Rightarrow> (string \<Rightarrow> 64 word) \<Rightarrow> nat \<Rightarrow> string \<Rightarrow> nat \<Rightarrow> background_event \<Rightarrow> runtimeModelCatalog
     \<Rightarrow> nat option \<times> runtimeModelCatalog" where
  "background_turn now generation i authID attempt ev c =
     (case ev of
        BackgroundCanceled \<Rightarrow> (None, finishBackground generation i authID False c)
      | BackgroundFetched models \<Rightarrow> (None, update_state i authID (applyFetchSuccess now models) c)
      | BackgroundFailed \<Rightarrow>
          if attempt < modelCatalogBackgroundRetries then (Some (Suc attempt), c)
          else (None, finishBackground generation i authID True c))"

text \<open>\<open>fetch_retry\<close> is the later of the two retry times that a failed fetch may carry.\<close>

definition backgroundRetryDelay :: "time \<Rightarrow> nat \<Rightarrow> (duration \<Rightarrow> duration) \<Rightarrow> time \<Rightarrow> duration" where
  "backgroundRetryDelay now attempt0 jitter fetch_retry =
     (let attempt = (if attempt0 < 1 then 1 else attempt0);
          exponent = (if attempt - 1 > 20 then 20 else attempt - 1);
          base = modelCatalogRetryBaseDelay * 2 ^ exponent;
          backoff = base + jitter (base div 4)
      in if fetch_retry > now \<and> time_sub fetch_retry now > backoff then time_sub fetch_retry now
         else backoff)"

definition catalog_Reconcile :: "AuthReconcileResult \<Rightarrow> runtimeModelCatalog \<Rightarrow> runtimeModelCatalog" where
  "catalog_Reconcile result c =
     (let removed = map change_ID (filter (\<lambda>ch. change_Kind ch = AuthRemoved) (Changes result))
      in c\<lparr>lru := map (\<lambda>e. e\<lparr>entry_auths := filter (\<lambda>p. fst p \<notin> set removed) (entry_auths e)\<rparr>) (lru c)\<rparr>)"

section \<open>The view\<close>

record modelCatalogView =
  view_Models :: "json_map list"
  view_Supporting :: "(string \<times> string list) list"
  CapabilityKnown :: bool
  EmbeddedFallback :: bool

definition embeddedModelCatalogView :: "json_map list \<Rightarrow> modelCatalogView" where
  "embeddedModelCatalogView embedded =
     \<lparr>view_Models = embedded, view_Supporting = [], CapabilityKnown = False, EmbeddedFallback = True\<rparr>"

definition SupportingAuthIDs :: "modelCatalogView \<Rightarrow> string \<Rightarrow> string list" where
  "SupportingAuthIDs v model =
     (case normalizeModelIdentifier model of
        None \<Rightarrow> []
      | Some m \<Rightarrow> (case map_of (view_Supporting v) m of None \<Rightarrow> [] | Some ids \<Rightarrow> ids))"

definition raw_slug :: "json_map \<Rightarrow> string" where
  "raw_slug m = (case map_of m ''slug'' of Some (JStr s) \<Rightarrow> s | _ \<Rightarrow> [])"

text \<open>\<open>strconv.ParseInt(s, 10, 64)\<close> when its error counts.\<close>

definition parse_int64_strict :: "string \<Rightarrow> int option" where
  "parse_int64_strict s =
     (let (neg, ds) = (case s of
            CHR ''-'' # cs \<Rightarrow> (True, cs) | CHR ''+'' # cs \<Rightarrow> (False, cs) | _ \<Rightarrow> (False, s));
          v = (if neg then -1 else 1) * int (digits_value ds)
      in if ds \<noteq> [] \<and> list_all is_digit ds \<and> min_int64 \<le> v \<and> v \<le> max_int64 then Some v else None)"

definition codexModelPriority :: "json_map \<Rightarrow> int" where
  "codexModelPriority m =
     (case map_of m ''priority'' of
        Some (JNumber s) \<Rightarrow> (case parse_int64_strict s of Some n \<Rightarrow> n | None \<Rightarrow> max_int64)
      | Some (JNum v) \<Rightarrow>
          if -9223372036854775808 \<le> v \<and> v \<le> 9223372036854775808
          then wrap64 (if 0 \<le> v then \<lfloor>v\<rfloor> else \<lceil>v\<rceil>) else max_int64
      | _ \<Rightarrow> max_int64)"

text \<open>What the snapshots offer: a normalised model, the credential, and the model as it listed it.\<close>

type_synonym offer = "string \<times> string \<times> json_map"

definition offers_of :: "modelCatalogVersion \<Rightarrow> Auth \<Rightarrow> offer list" where
  "offers_of e a =
     (case map_of (entry_auths e) (auth_ID a) of
        None \<Rightarrow> []
      | Some st \<Rightarrow>
          (case snapshot st of
             None \<Rightarrow> []
           | Some models \<Rightarrow>
               concat (map (\<lambda>m. case normalizeModelIdentifier (raw_slug m) of
                                  None \<Rightarrow> [] | Some slug \<Rightarrow> [(slug, auth_ID a, m)]) models)))"

definition has_snapshot :: "modelCatalogVersion \<Rightarrow> Auth \<Rightarrow> bool" where
  "has_snapshot e a =
     (case map_of (entry_auths e) (auth_ID a) of None \<Rightarrow> False | Some st \<Rightarrow> snapshot st \<noteq> None)"

definition better_offer :: "(json_map \<Rightarrow> string) \<Rightarrow> offer \<Rightarrow> offer \<Rightarrow> bool" where
  "better_offer marshal a b \<longleftrightarrow>
     fst (snd a) < fst (snd b) \<or>
     fst (snd a) = fst (snd b) \<and> marshal (snd (snd a)) < marshal (snd (snd b))"

definition aggregate_view :: "(json_map \<Rightarrow> string) \<Rightarrow> modelCatalogVersion \<Rightarrow> Auth list \<Rightarrow> modelCatalogView" where
  "aggregate_view marshal e auths =
     (let offers = concat (map (offers_of e) auths);
          slugs = remdups (map fst offers);
          canonical = map (\<lambda>s. the (scan (better_offer marshal) None (filter (\<lambda>f. fst f = s) offers))) slugs
      in \<lparr>view_Models = sort_key codexModelPriority (sort_key raw_slug (map (snd \<circ> snd) canonical)),
          view_Supporting =
            map (\<lambda>s. (s, sort (remdups (map (fst \<circ> snd) (filter (\<lambda>f. fst f = s) offers))))) slugs,
          CapabilityKnown = True, EmbeddedFallback = False\<rparr>)"

definition aggregate ::
  "(json_map \<Rightarrow> string) \<Rightarrow> json_map list \<Rightarrow> nat \<Rightarrow> Auth list \<Rightarrow> runtimeModelCatalog
     \<Rightarrow> modelCatalogView \<times> runtimeModelCatalog" where
  "aggregate marshal embedded i auths c =
     (case find_entry i c of
        None \<Rightarrow> (embeddedModelCatalogView embedded, c)
      | Some e \<Rightarrow>
          (if list_ex (has_snapshot e) auths then aggregate_view marshal e auths
           else embeddedModelCatalogView embedded,
           moveToFront e c))"

definition CachedCatalog ::
  "(json_map \<Rightarrow> string) \<Rightarrow> json_map list \<Rightarrow> string \<Rightarrow> Auth list \<Rightarrow> runtimeModelCatalog
     \<Rightarrow> modelCatalogView \<times> runtimeModelCatalog" where
  "CachedCatalog marshal embedded clientVersion auths c =
     (case normalizeClientVersion clientVersion of
        None \<Rightarrow> (embeddedModelCatalogView embedded, c)
      | Some v \<Rightarrow>
          (case find_version v c of
             None \<Rightarrow> (embeddedModelCatalogView embedded, c)
           | Some e \<Rightarrow> aggregate marshal embedded (entry_id e) (distinctSortedAuths auths) c))"

definition KnownModelsForAuth ::
  "(json_map \<Rightarrow> string) \<Rightarrow> json_map list \<Rightarrow> string \<Rightarrow> Auth list \<Rightarrow> string \<Rightarrow> runtimeModelCatalog
     \<Rightarrow> string list option \<times> runtimeModelCatalog" where
  "KnownModelsForAuth marshal embedded clientVersion auths authID c =
     (case CachedCatalog marshal embedded clientVersion auths c of
        (view, c') \<Rightarrow>
          (if \<not> CapabilityKnown view then None
           else Some (sort (map fst (filter (\<lambda>p. authID \<in> set (snd p)) (view_Supporting view)))), c'))"

definition filterCodexClientModels :: "json_map list \<Rightarrow> bool \<Rightarrow> json_map list" where
  "filterCodexClientModels models allowFastMode =
     (if allowFastMode then models
      else map (\<lambda>m. AList.delete ''additional_speed_tiers'' (AList.delete ''service_tiers'' m)) models)"

end
