(* ===== verification/Catalog_Properties.thy ===== *)
theory Catalog_Properties
  imports Model_Catalog
begin

text \<open>
  The catalogue as a system of steps: requests, the ends of fetches and retries, and changes of the
  directory, in any order. The invariant says that the list of versions is bounded and that whatever a
  state waits for is really outstanding; the other properties say which fetches are started and what
  the view shows.
\<close>

section \<open>Steps\<close>

record catalog_sys =
  cat :: runtimeModelCatalog
  fetches :: "modelCatalogFetchStart list"
  retries :: "(nat \<times> string \<times> nat) list"

inductive catalog_step :: "catalog_sys \<Rightarrow> catalog_sys \<Rightarrow> bool" where
  request:
    "Catalog_begin now generation v auths (cat y) = Some (i, calls, starts, c') \<Longrightarrow>
     catalog_step y \<lparr>cat = c', fetches = fetches y @ starts, retries = retries y\<rparr>"
| cached:
    "CachedCatalog marshal embedded v auths (cat y) = (view, c') \<Longrightarrow> catalog_step y (y\<lparr>cat := c'\<rparr>)"
| fetch_ends:
    "start \<in> set (fetches y) \<Longrightarrow> foreground_done now start result (cat y) = (retry, c') \<Longrightarrow>
     catalog_step y \<lparr>cat = c', fetches = remove1 start (fetches y),
       retries = (if retry then [(start_entry start, auth_ID (start_auth start), 1)] else []) @ retries y\<rparr>"
| retry_ends:
    "(i, authID, n) \<in> set (retries y) \<Longrightarrow>
     background_turn now generation i authID n ev (cat y) = (again, c') \<Longrightarrow>
     catalog_step y \<lparr>cat = c', fetches = fetches y,
       retries = (case again of None \<Rightarrow> [] | Some m \<Rightarrow> [(i, authID, m)]) @ remove1 (i, authID, n) (retries y)\<rparr>"
| directory: "catalog_step y (y\<lparr>cat := catalog_Reconcile result (cat y)\<rparr>)"

inductive catalog_reachable :: "catalog_sys \<Rightarrow> bool" where
  init: "catalog_reachable \<lparr>cat = newRuntimeModelCatalog, fetches = [], retries = []\<rparr>"
| step: "catalog_reachable y \<Longrightarrow> catalog_step y y' \<Longrightarrow> catalog_reachable y'"

section \<open>The list of versions\<close>

definition lru_ok :: "runtimeModelCatalog \<Rightarrow> bool" where
  "lru_ok c \<longleftrightarrow> length (lru c) \<le> maxModelCatalogVersions \<and> distinct (map version (lru c)) \<and>
     distinct (map entry_id (lru c)) \<and> (\<forall>e\<in>set (lru c). entry_id e < fresh c)"

lemma find_entry_mem: "find_entry i c = Some e \<Longrightarrow> e \<in> set (lru c) \<and> entry_id e = i"
  by (auto simp: find_entry_def dest: find_mem)

lemma find_version_mem: "find_version v c = Some e \<Longrightarrow> e \<in> set (lru c) \<and> version e = v"
  by (auto simp: find_version_def dest: find_mem)

lemma find_entry_iff: "lru_ok c \<Longrightarrow> find_entry i c = Some e \<longleftrightarrow> e \<in> set (lru c) \<and> entry_id e = i"
proof -
  assume ok: "lru_ok c"
  have "find (\<lambda>e. entry_id e = i) es = Some e" if "e \<in> set es" "entry_id e = i" "distinct (map entry_id es)" for es
    using that by (induction es) (auto simp: rev_image_eqI)
  with ok show ?thesis by (auto simp: find_entry_def lru_ok_def dest: find_mem)
qed

lemma lru_ok_cong:
  assumes "lru_ok c" "map version (lru c') = map version (lru c)" "map entry_id (lru c') = map entry_id (lru c)"
    "fresh c \<le> fresh c'"
  shows "lru_ok c'"
proof -
  have "\<forall>i\<in>set (map entry_id (lru c')). i < fresh c'"
    unfolding assms(3) using assms(1,4) by (auto simp: lru_ok_def)
  then have "\<forall>e\<in>set (lru c'). entry_id e < fresh c'" by simp
  moreover have "length (lru c') = length (lru c)" using assms(2) by (metis length_map)
  ultimately show ?thesis using assms(1,2,3) by (auto simp: lru_ok_def)
qed

lemma lru_ok_move:
  assumes "lru_ok c" "e \<in> set (lru c)"
  shows "lru_ok (moveToFront e c)"
proof -
  let ?f = "filter (\<lambda>x. entry_id x \<noteq> entry_id e) (lru c)"
  have "length ?f < length (lru c)" using assms(2) by (intro length_filter_less [of e]) auto
  moreover have "distinct (map version ?f)" "distinct (map entry_id ?f)"
    using assms(1) by (auto simp: lru_ok_def distinct_map_filter)
  moreover have "version e \<notin> version ` set ?f"
    using assms by (auto simp: lru_ok_def distinct_map inj_on_def)
  ultimately show ?thesis
    using assms by (auto simp: lru_ok_def moveToFront_def)
qed

lemma lru_ok_version:
  assumes "lru_ok c" "versionLocked v c = (e, c')"
  shows "lru_ok c' \<and> e \<in> set (lru c') \<and> version e = v \<and>
    (\<forall>x\<in>set (lru c'). x \<in> set (lru c) \<or> x = e \<and> entry_auths e = [])"
proof (cases "find_version v c")
  case (Some x)
  with assms find_version_mem [OF Some] lru_ok_move [OF assms(1), of x] show ?thesis
    by (auto simp: versionLocked_def moveToFront_def)
next
  case None
  then have new: "v \<notin> version ` set (lru c)" by (auto simp: find_version_def find_None_iff)
  let ?n = "\<lparr>entry_id = fresh c, version = v, entry_auths = []\<rparr>"
  have *: "e = ?n" "c' = \<lparr>lru = take maxModelCatalogVersions (?n # lru c), fresh = Suc (fresh c)\<rparr>"
    using assms(2) None by (auto simp: versionLocked_def Let_def)
  have d: "distinct (map version (?n # lru c))" "distinct (map entry_id (?n # lru c))"
    using assms(1) new by (auto simp: lru_ok_def)
  have "lru_ok c'"
    unfolding lru_ok_def *(2)
    using d assms(1) by (auto simp: take_map [symmetric] lru_ok_def less_Suc_eq simp del: take_Suc_Cons dest!: in_set_takeD)
  moreover have "?n \<in> set (take maxModelCatalogVersions (?n # lru c))" by (simp add: maxModelCatalogVersions_def)
  ultimately show ?thesis using * by (auto dest: in_set_takeD simp del: take_Suc_Cons)
qed

lemma update_entry_simps [simp]:
  "(\<And>e. version (f e) = version e) \<Longrightarrow> map version (lru (update_entry i f c)) = map version (lru c)"
  "(\<And>e. entry_id (f e) = entry_id e) \<Longrightarrow> map entry_id (lru (update_entry i f c)) = map entry_id (lru c)"
  "fresh (update_entry i f c) = fresh c"
  by (simp_all add: update_entry_def)

lemma set_auth_simps [simp]:
  "version (set_auth i st e) = version e" "entry_id (set_auth i st e) = entry_id e"
  "map_of (entry_auths (set_auth i st e)) j = (if j = i then Some st else map_of (entry_auths e) j)"
  by (simp_all add: set_auth_def)

lemma lru_ok_update_state: "lru_ok c \<Longrightarrow> lru_ok (update_state i authID f c)"
  unfolding update_state_def by (rule lru_ok_cong) (auto split: option.split)

section \<open>What a state waits for\<close>

definition state_served ::
  "modelCatalogFetchStart list \<Rightarrow> (nat \<times> string \<times> nat) list \<Rightarrow> nat \<Rightarrow> string \<Rightarrow> modelCatalogAuth \<Rightarrow> bool" where
  "state_served F B i authID st \<longleftrightarrow>
     (\<forall>call. foreground st = Some call \<longrightarrow>
        (\<exists>s\<in>set F. start_entry s = i \<and> auth_ID (start_auth s) = authID \<and> start_call s = call)) \<and>
     (background st \<longrightarrow> (\<exists>n. (i, authID, n) \<in> set B))"

definition entry_served where
  "entry_served F B e \<longleftrightarrow>
     (\<forall>authID st. map_of (entry_auths e) authID = Some st \<longrightarrow> state_served F B (entry_id e) authID st)"

definition served where "served F B c \<longleftrightarrow> (\<forall>e\<in>set (lru c). entry_served F B e)"

lemma state_served_mono:
  "state_served F B i authID st \<Longrightarrow> set F \<subseteq> set F' \<Longrightarrow> set B \<subseteq> set B' \<Longrightarrow> state_served F' B' i authID st"
  by (fastforce simp: state_served_def)

lemma entry_served_mono:
  "entry_served F B e \<Longrightarrow> set F \<subseteq> set F' \<Longrightarrow> set B \<subseteq> set B' \<Longrightarrow> entry_served F' B' e"
  by (auto simp: entry_served_def intro: state_served_mono)

lemma turns_served:
  assumes "catalog_turns now generation as e n = ((calls, starts), e', n')" "entry_served F B e"
  shows "entry_id e' = entry_id e \<and> version e' = version e \<and> n \<le> n' \<and> entry_served (F @ starts) B e' \<and>
    (\<forall>call\<in>set calls. \<exists>s\<in>set (F @ starts). start_call s = call)"
  using assms
proof (induction as arbitrary: e n e' n' calls starts F)
  case (Cons a as)
  define st where "st = (case map_of (entry_auths e) (auth_ID a) of None \<Rightarrow> new_catalog_auth | Some st \<Rightarrow> st)"
  have st: "state_served F B (entry_id e) (auth_ID a) st"
    using Cons.prems(2)
    by (auto simp: st_def entry_served_def state_served_def new_catalog_auth_def split: option.split)
  have put: "entry_served F' B (set_auth (auth_ID a) st' e)"
    if "state_served F' B (entry_id e) (auth_ID a) st'" "set F \<subseteq> set F'" for st' F'
    using that Cons.prems(2) by (auto simp: entry_served_def intro: state_served_mono)
  show ?case
  proof (cases "catalog_turn now generation (auth_ID a) st")
    case (TurnJoin call)
    then have "foreground st = Some call" by (auto simp: catalog_turn_def Let_def split: if_splits option.splits)
    then obtain s where s: "s \<in> set F" "start_call s = call" using st by (auto simp: state_served_def)
    obtain cs ss r m where rec: "catalog_turns now generation as (set_auth (auth_ID a) st e) n = ((cs, ss), r, m)"
      by (metis surj_pair)
    from Cons.IH [OF rec put [OF st subset_refl]] Cons.prems(1) TurnJoin rec s show ?thesis
      by (auto simp: st_def [symmetric] Let_def)
  next
    case (TurnStart st')
    let ?s = "\<lparr>start_entry = entry_id e, start_auth = a, start_call = n\<rparr>"
    let ?st = "st'\<lparr>foreground := Some n\<rparr>"
    have "\<not> background st'"
      using TurnStart by (auto simp: catalog_turn_def Let_def split: if_splits option.splits)
    then have "state_served (F @ [?s]) B (entry_id e) (auth_ID a) ?st" by (auto simp: state_served_def)
    from put [OF this] have new: "entry_served (F @ [?s]) B (set_auth (auth_ID a) ?st e)" by auto
    obtain cs ss r m where rec: "catalog_turns now generation as (set_auth (auth_ID a) ?st e) (Suc n) = ((cs, ss), r, m)"
      by (metis surj_pair)
    from Cons.IH [OF rec new] Cons.prems(1) TurnStart rec show ?thesis
      by (auto simp: st_def [symmetric] Let_def)
  qed (use Cons.IH [OF _ put [OF st subset_refl]] Cons.prems(1) in \<open>auto simp: st_def [symmetric] Let_def\<close>)
qed simp

lemma served_remove_fetch:
  assumes "state_served F B i authID st"
    and "\<not> (start_entry s = i \<and> auth_ID (start_auth s) = authID \<and> foreground st = Some (start_call s))"
  shows "state_served (remove1 s F) B i authID st"
  unfolding state_served_def
proof (intro conjI allI impI)
  fix call assume call: "foreground st = Some call"
  with assms(1) obtain x where x: "x \<in> set F" "start_entry x = i" "auth_ID (start_auth x) = authID" "start_call x = call"
    by (auto simp: state_served_def)
  then have "x \<noteq> s" using assms(2) call by auto
  with x show "\<exists>s'\<in>set (remove1 s F). start_entry s' = i \<and> auth_ID (start_auth s') = authID \<and> start_call s' = call"
    by (metis in_set_remove1)
qed (use assms(1) in \<open>auto simp: state_served_def\<close>)

lemma served_remove_retry:
  assumes "state_served F B i authID st" "(j, k) \<noteq> (i, authID) \<or> \<not> background st"
  shows "state_served F (remove1 (j, k, n) B) i authID st"
proof -
  have "(i, authID, m) \<in> set (remove1 (j, k, n) B)" if "(i, authID, m) \<in> set B" "(j, k) \<noteq> (i, authID)" for m
    using that by (subst in_set_remove1) auto
  with assms show ?thesis by (auto simp: state_served_def)
qed

lemma served_D:
  "served F B c \<Longrightarrow> e \<in> set (lru c) \<Longrightarrow> map_of (entry_auths e) k = Some st \<Longrightarrow> state_served F B (entry_id e) k st"
  by (auto simp: served_def entry_served_def)

lemma served_I:
  "(\<And>e k st. e \<in> set (lru c) \<Longrightarrow> map_of (entry_auths e) k = Some st \<Longrightarrow> state_served F B (entry_id e) k st) \<Longrightarrow>
   served F B c"
  by (auto simp: served_def entry_served_def)

lemma served_update:
  assumes c: "served F B c"
    and other: "\<And>j k st. (j, k) \<noteq> (i, authID) \<Longrightarrow> state_served F B j k st \<Longrightarrow> state_served F' B' j k st"
    and here: "\<And>st. state_served F B i authID st \<Longrightarrow> state_served F' B' i authID (f st)"
  shows "served F' B' (update_state i authID f c)"
proof (rule served_I)
  fix e' k st assume e': "e' \<in> set (lru (update_state i authID f c))" "map_of (entry_auths e') k = Some st"
  define g where "g = (\<lambda>e. case map_of (entry_auths e) authID of None \<Rightarrow> e | Some st \<Rightarrow> set_auth authID (f st) e)"
  have g: "entry_id (g e) = entry_id e"
      "map_of (entry_auths (g e)) k = (if k = authID then map_option f (map_of (entry_auths e) k) else map_of (entry_auths e) k)"
    for e by (auto simp: g_def split: option.split)
  from e'(1) obtain e where "e \<in> set (lru c)" "e' = (if entry_id e = i then g e else e)"
    by (auto simp: update_state_def update_entry_def g_def)
  with g have e: "e \<in> set (lru c)" "entry_id e' = entry_id e"
      "map_of (entry_auths e') k = (if entry_id e = i \<and> k = authID then map_option f (map_of (entry_auths e) k)
         else map_of (entry_auths e) k)"
    by auto
  show "state_served F' B' (entry_id e') k st"
  proof (cases "entry_id e = i \<and> k = authID")
    case True
    with e e'(2) obtain st0 where "map_of (entry_auths e) k = Some st0" "st = f st0" by auto
    with here served_D [OF c e(1)] True e(2) show ?thesis by auto
  next
    case False
    with e e'(2) have "map_of (entry_auths e) k = Some st" by simp
    from other [OF _ served_D [OF c e(1) this]] False e(2) show ?thesis by auto
  qed
qed

lemma served_foreground:
  assumes ok: "lru_ok c" and c: "served F B c" and run: "foreground_done now s result c = (retry, c')"
  shows "served (remove1 s F) ((if retry then [(start_entry s, auth_ID (start_auth s), 1)] else []) @ B) c'"
proof -
  let ?i = "start_entry s" and ?k = "auth_ID (start_auth s)"
  have other: "state_served (remove1 s F) (xs @ B) j k st" if "(j, k) \<noteq> (?i, ?k)" "state_served F B j k st" for j k st xs
    using state_served_mono [OF served_remove_fetch [OF that(2), of s]] that(1) by auto
  show ?thesis
  proof (cases "\<exists>st. lookup_state ?i ?k c = Some st \<and> foreground st = Some (start_call s)")
    case False
    then have same: "c' = c" "\<not> retry"
      using run by (auto simp: foreground_done_def Let_def split: option.splits if_splits)
    have "state_served (remove1 s F) B (entry_id e) k st"
      if "e \<in> set (lru c)" "map_of (entry_auths e) k = Some st" for e k st
    proof (rule served_remove_fetch [OF served_D [OF c that]])
      show "\<not> (start_entry s = entry_id e \<and> auth_ID (start_auth s) = k \<and> foreground st = Some (start_call s))"
        using that False find_entry_iff [OF ok, of "entry_id e" e] by (auto simp: lookup_state_def)
    qed
    then show ?thesis using same by (auto intro: served_I)
  next
    case True
    then obtain st where st: "lookup_state ?i ?k c = Some st" "foreground st = Some (start_call s)" by blast
    then obtain e where e: "e \<in> set (lru c)" "entry_id e = ?i" "map_of (entry_auths e) ?k = Some st"
      by (auto simp: lookup_state_def dest: find_entry_mem split: option.splits)
    show ?thesis
    proof (cases result)
      case (Inr models)
      then have *: "\<not> retry" "c' = update_state ?i ?k (\<lambda>st. applyFetchSuccess now models (st\<lparr>foreground := None\<rparr>)) c"
        using run st by (auto simp: foreground_done_def Let_def)
      show ?thesis
        unfolding *(2) using * other
        by (intro served_update [OF c]) (auto simp: state_served_def applyFetchSuccess_def)
    next
      case (Inl err)
      then have *: "retry = (\<not> background st)" "c' = update_state ?i ?k (\<lambda>st. st\<lparr>foreground := None, background := True\<rparr>) c"
        using run st by (auto simp: foreground_done_def Let_def)
      have "\<exists>n. (?i, ?k, n) \<in> set ((if retry then [(?i, ?k, 1)] else []) @ B)"
        using served_D [OF c e(1,3)] e(2) * by (auto simp: state_served_def)
      then show ?thesis
        unfolding *(2) using other by (intro served_update [OF c]) (auto simp: state_served_def)
    qed
  qed
qed

lemma served_background:
  assumes c: "served F B c" and run: "background_turn now generation i authID n ev c = (again, c')"
  shows "served F ((case again of None \<Rightarrow> [] | Some m \<Rightarrow> [(i, authID, m)]) @ remove1 (i, authID, n) B) c'"
proof (cases again)
  case (Some m)
  then have "c' = c" using run by (auto simp: background_turn_def split: background_event.splits if_splits)
  moreover have "state_served F ((i, authID, m) # remove1 (i, authID, n) B) j k st" if "state_served F B j k st" for j k st
  proof (cases "(i, authID) = (j, k)")
    case True
    with that show ?thesis by (auto simp: state_served_def)
  next
    case False
    with served_remove_retry [OF that, of i authID n] show ?thesis by (auto intro: state_served_mono)
  qed
  ultimately show ?thesis using Some c by (auto intro!: served_I dest: served_D)
next
  case None
  then obtain f where f: "c' = update_state i authID f c" "\<And>st. foreground (f st) = foreground st" "\<And>st. \<not> background (f st)"
    using run by (auto simp: background_turn_def finishBackground_def applyFetchSuccess_def Let_def
        split: background_event.splits if_splits)
  show ?thesis
    unfolding f(1) None using f(2,3) served_remove_retry
    by (intro served_update [OF c]) (auto simp: state_served_def)
qed

section \<open>The invariant\<close>

lemma Catalog_begin_E:
  assumes "Catalog_begin now generation v auths c = Some (i, calls, starts, c')"
  obtains w e c1 e' n where "normalizeClientVersion v = Some w" "versionLocked w c = (e, c1)"
    "catalog_turns now generation (distinctSortedAuths auths) e (fresh c1) = ((calls, starts), e', n)"
    "c' = (update_entry (entry_id e) (\<lambda>_. e') c1)\<lparr>fresh := n\<rparr>" "i = entry_id e"
proof -
  obtain w where w: "normalizeClientVersion v = Some w" using assms by (auto simp: Catalog_begin_def split: option.splits)
  obtain e c1 where e: "versionLocked w c = (e, c1)" by fastforce
  obtain calls' starts' e' n where t: "catalog_turns now generation (distinctSortedAuths auths) e (fresh c1) = ((calls', starts'), e', n)"
    by (metis surj_pair)
  show thesis
    by (rule that [OF w e, of e' n]) (use assms w e t in \<open>auto simp: Catalog_begin_def\<close>)
qed

lemma Catalog_begin_parts:
  assumes run: "Catalog_begin now generation v auths c = Some (i, calls, starts, c')"
    and ok: "lru_ok c" and c: "served F B c"
  shows "lru_ok c' \<and> served (F @ starts) B c' \<and> (\<forall>call\<in>set calls. \<exists>s\<in>set (F @ starts). start_call s = call)"
proof -
  from run obtain w e c1 e' n where e: "versionLocked w c = (e, c1)"
      and turns: "catalog_turns now generation (distinctSortedAuths auths) e (fresh c1) = ((calls, starts), e', n)"
      and c': "c' = (update_entry (entry_id e) (\<lambda>_. e') c1)\<lparr>fresh := n\<rparr>"
    by (rule Catalog_begin_E)
  from lru_ok_version [OF ok e] have v: "lru_ok c1" "e \<in> set (lru c1)"
      "\<forall>x\<in>set (lru c1). x \<in> set (lru c) \<or> x = e \<and> entry_auths e = []" by auto
  have c1: "served F B c1"
    using v(3) c by (auto simp: served_def entry_served_def)
  then have "entry_served F B e" using v(2) by (simp add: served_def)
  note t = turns_served [OF turns this]
  have "entry_served (F @ starts) B x" if "x \<in> set (lru c')" for x
    using that t c1 by (auto simp: c' update_entry_def served_def intro: entry_served_mono)
  moreover have same: "version e' = version x" if "x \<in> set (lru c1)" "entry_id x = entry_id e" for x
    using that v(1,2) t by (auto simp: lru_ok_def distinct_map inj_on_def)
  have "lru_ok c'"
    unfolding c' by (rule lru_ok_cong [OF v(1)]) (use t same in \<open>auto simp: update_entry_def\<close>)
  ultimately show ?thesis using t by (auto simp: served_def)
qed

lemma CachedCatalog_parts:
  assumes "CachedCatalog marshal embedded v auths c = (view, c')" "lru_ok c"
  shows "lru_ok c' \<and> set (lru c') \<subseteq> set (lru c)"
  using assms lru_ok_move [OF assms(2)]
  by (auto simp: CachedCatalog_def aggregate_def moveToFront_def dest: find_entry_mem split: option.splits)

lemma map_of_filter_key: "map_of (filter (\<lambda>r. fst r \<notin> S) m) i = (if i \<in> S then None else map_of m i)"
  by (induction m) auto

lemma catalog_step_ok:
  assumes "catalog_step y y'" "lru_ok (cat y)" "served (fetches y) (retries y) (cat y)"
  shows "lru_ok (cat y') \<and> served (fetches y') (retries y') (cat y')"
  using assms(1)
proof cases
  case (request now generation v auths i calls starts c')
  then show ?thesis using Catalog_begin_parts [OF _ assms(2,3)] by auto
next
  case (cached marshal embedded v auths view c')
  then show ?thesis using CachedCatalog_parts [OF cached(2) assms(2)] assms(3) by (auto simp: served_def)
next
  case (fetch_ends start now result retry c')
  moreover have "lru_ok c'"
    using fetch_ends(3) assms(2)
    by (auto simp: foreground_done_def Let_def intro: lru_ok_update_state split: option.splits if_splits sum.splits)
  ultimately show ?thesis using served_foreground [OF assms(2,3) fetch_ends(3)] by simp
next
  case (retry_ends i authID n now generation ev again c')
  moreover have "lru_ok c'"
    using retry_ends(3) assms(2)
    by (auto simp: background_turn_def finishBackground_def intro: lru_ok_update_state
        split: background_event.splits if_splits)
  ultimately show ?thesis using served_background [OF assms(3) retry_ends(3)] by simp
next
  case (directory result)
  have "served (fetches y) (retries y) (catalog_Reconcile result (cat y))"
    using assms(3)
    by (auto simp: served_def entry_served_def catalog_Reconcile_def Let_def map_of_filter_key)
  moreover have "lru_ok (catalog_Reconcile result (cat y))"
    by (rule lru_ok_cong [OF assms(2)]) (simp_all add: catalog_Reconcile_def Let_def)
  ultimately show ?thesis using directory by simp
qed

lemma catalog_reachable_ok:
  "catalog_reachable y \<Longrightarrow> lru_ok (cat y) \<and> served (fetches y) (retries y) (cat y)"
proof (induction rule: catalog_reachable.induct)
  case init
  then show ?case by (simp add: lru_ok_def newRuntimeModelCatalog_def served_def)
qed (use catalog_step_ok in blast)

text \<open>
  Whatever requests, fetches and directory changes have happened, the catalogue keeps at most 16
  client versions, no version twice, and a request for a version leaves that version in the list.
\<close>

theorem catalog_versions_bounded:
  assumes "catalog_reachable y"
  shows "length (lru (cat y)) \<le> 16 \<and> distinct (map version (lru (cat y))) \<and>
    (\<forall>now generation v auths i calls starts c'.
       Catalog_begin now generation v auths (cat y) = Some (i, calls, starts, c') \<longrightarrow>
       (\<exists>e\<in>set (lru c'). entry_id e = i \<and> Some (version e) = normalizeClientVersion v))"
proof -
  have ok: "lru_ok (cat y)" and srv: "served (fetches y) (retries y) (cat y)"
    using catalog_reachable_ok [OF assms] by auto
  have "\<exists>e\<in>set (lru c'). entry_id e = i \<and> Some (version e) = normalizeClientVersion v"
    if run: "Catalog_begin now generation v auths (cat y) = Some (i, calls, starts, c')"
    for now generation v auths i calls starts c'
  proof -
    from run obtain w e c1 e' n where w: "normalizeClientVersion v = Some w" and e: "versionLocked w (cat y) = (e, c1)"
        and turns: "catalog_turns now generation (distinctSortedAuths auths) e (fresh c1) = ((calls, starts), e', n)"
        and c': "c' = (update_entry (entry_id e) (\<lambda>_. e') c1)\<lparr>fresh := n\<rparr>" "i = entry_id e"
      by (rule Catalog_begin_E)
    from lru_ok_version [OF ok e] have v: "e \<in> set (lru c1)" "version e = w"
        "\<forall>x\<in>set (lru c1). x \<in> set (lru (cat y)) \<or> x = e \<and> entry_auths e = []" by auto
    have "entry_served (fetches y) (retries y) e" using v(1,3) srv by (auto simp: served_def entry_served_def)
    note t = turns_served [OF turns this]
    have "e' \<in> set (lru c')"
      using imageI [OF v(1), of "\<lambda>x. if entry_id x = entry_id e then e' else x"] by (simp add: c'(1) update_entry_def)
    then show ?thesis using t c'(2) w v(2) by (intro bexI [of _ e']) auto
  qed
  with ok show ?thesis by (simp add: lru_ok_def maxModelCatalogVersions_def)
qed

text \<open>
  C35: Nothing waits for a fetch that is not running: every call a request waits for belongs to a fetch
  that is outstanding when it starts to wait, a state that records a call has that fetch outstanding,
  and a state marked as retrying in the background has a retry outstanding.
\<close>

theorem catalog_waits_are_served:
  assumes "catalog_reachable y"
  shows "(\<forall>now generation v auths i calls starts c'.
            Catalog_begin now generation v auths (cat y) = Some (i, calls, starts, c') \<longrightarrow>
            set calls \<subseteq> start_call ` set (fetches y @ starts)) \<and>
         (\<forall>i authID st. lookup_state i authID (cat y) = Some st \<longrightarrow>
            (\<forall>call. foreground st = Some call \<longrightarrow> call \<in> start_call ` set (fetches y)) \<and>
            (background st \<longrightarrow> (\<exists>n. (i, authID, n) \<in> set (retries y))))"
proof (intro conjI allI impI subsetI)
  have inv: "lru_ok (cat y)" "served (fetches y) (retries y) (cat y)"
    using catalog_reachable_ok [OF assms] by auto
  fix now generation v auths i calls starts c' call
  assume run: "Catalog_begin now generation v auths (cat y) = Some (i, calls, starts, c')" "call \<in> set calls"
  from Catalog_begin_parts [OF run(1) inv] run(2) obtain s where "s \<in> set (fetches y @ starts)" "start_call s = call"
    by blast
  then show "call \<in> start_call ` set (fetches y @ starts)" by (intro rev_image_eqI [of s]) simp_all
next
  have inv: "served (fetches y) (retries y) (cat y)"
    using catalog_reachable_ok [OF assms] by auto
  fix i authID st
  assume st: "lookup_state i authID (cat y) = Some st"
  then obtain e where "e \<in> set (lru (cat y))" "entry_id e = i" "map_of (entry_auths e) authID = Some st"
    by (auto simp: lookup_state_def dest: find_entry_mem split: option.splits)
  with served_D [OF inv this(1,3)] have s: "state_served (fetches y) (retries y) i authID st" by simp
  show "call \<in> start_call ` set (fetches y)" if "foreground st = Some call" for call
    using s that by (auto simp: state_served_def)
  show "\<exists>n. (i, authID, n) \<in> set (retries y)" if "background st"
    using s that by (auto simp: state_served_def)
qed

section \<open>Which fetches are started\<close>

lemma distinctSorted:
  "distinct (map auth_ID (distinctSortedAuths auths))"
  "auth_ID ` set (distinctSortedAuths auths) = {i \<in> auth_ID ` set auths. trim_space i \<noteq> []}"
proof -
  define f where "f = (\<lambda>(a::Auth) m. if trim_space (auth_ID a) = [] then m else AList.update (auth_ID a) a m)"
  have *: "(\<forall>(i, a)\<in>set (fold f as m). i = auth_ID a) \<and> keys_distinct (fold f as m) \<and>
      fst ` set (fold f as m) = fst ` set m \<union> {i \<in> auth_ID ` set as. trim_space i \<noteq> []}"
    if "\<forall>(i, a)\<in>set m. i = auth_ID a" "keys_distinct m" for as m
    using that
  proof (induction as arbitrary: m)
    case (Cons a as)
    have "(\<forall>(i, a)\<in>set (f a m). i = auth_ID a)"
    proof -
      have "p = (auth_ID a, a) \<or> p \<in> set m" if "p \<in> set (f a m)" for p
        using that set_update_subset [of "auth_ID a" a m] by (auto simp: f_def split: if_splits)
      with Cons.prems(1) show ?thesis by fastforce
    qed
    moreover have "keys_distinct (f a m)" using Cons.prems(2) by (simp add: f_def distinct_update)
    moreover have "fst ` set (f a m) = fst ` set m \<union> (if trim_space (auth_ID a) \<noteq> [] then {auth_ID a} else {})"
      by (auto simp: f_def AList.dom_update)
    ultimately show ?case using Cons.IH [of "f a m"] by auto
  qed simp
  define byID where "byID = fold f auths []"
  from * [of "[]" auths] have b: "\<forall>(i, a)\<in>set byID. i = auth_ID a" "keys_distinct byID"
      "fst ` set byID = {i \<in> auth_ID ` set auths. trim_space i \<noteq> []}"
    by (simp_all add: byID_def)
  have d: "distinctSortedAuths auths = map snd (sort_key fst byID)"
    by (simp add: distinctSortedAuths_def byID_def f_def)
  have ids: "map auth_ID (map snd (sort_key fst byID)) = map fst (sort_key fst byID)"
    using b(1) by auto
  show "distinct (map auth_ID (distinctSortedAuths auths))"
    unfolding d ids using b(2) by (simp add: distinct_map)
  have "auth_ID ` set (distinctSortedAuths auths) = set (map auth_ID (map snd (sort_key fst byID)))"
    by (simp add: d image_image)
  also have "\<dots> = fst ` set byID" unfolding ids by simp
  finally show "auth_ID ` set (distinctSortedAuths auths) = {i \<in> auth_ID ` set auths. trim_space i \<noteq> []}"
    using b(3) by simp
qed

definition state_or_new :: "modelCatalogAuth option \<Rightarrow> modelCatalogAuth" where
  "state_or_new st = (case st of None \<Rightarrow> new_catalog_auth | Some st \<Rightarrow> st)"

lemma turns_starts:
  assumes "catalog_turns now generation as e n = ((calls, starts), e', n')" "distinct (map auth_ID as)"
  shows "map start_auth starts = filter (\<lambda>a. \<exists>st. catalog_turn now generation (auth_ID a)
           (state_or_new (map_of (entry_auths e) (auth_ID a))) = TurnStart st) as"
  using assms
proof (induction as arbitrary: e n e' n' calls starts)
  case (Cons a as)
  define st where "st = state_or_new (map_of (entry_auths e) (auth_ID a))"
  have ne: "auth_ID x \<noteq> auth_ID a" if "x \<in> set as" for x
    using Cons.prems(2) that by (auto simp: image_iff)
  have keep: "filter (\<lambda>x. \<exists>st. catalog_turn now generation (auth_ID x)
        (state_or_new (map_of (entry_auths (set_auth (auth_ID a) st' e)) (auth_ID x))) = TurnStart st) as
      = filter (\<lambda>x. \<exists>st. catalog_turn now generation (auth_ID x)
        (state_or_new (map_of (entry_auths e) (auth_ID x))) = TurnStart st) as" for st'
    using ne by (intro filter_cong) simp_all
  have d: "distinct (map auth_ID as)" using Cons.prems(2) by simp
  have st': "(case map_of (entry_auths e) (auth_ID a) of None \<Rightarrow> new_catalog_auth | Some st \<Rightarrow> st) = st"
    by (simp add: st_def state_or_new_def)
  show ?case
  proof (cases "catalog_turn now generation (auth_ID a) st")
    case (TurnStart st2)
    let ?st = "st2\<lparr>foreground := Some n\<rparr>"
    obtain cs ss r m where rec: "catalog_turns now generation as (set_auth (auth_ID a) ?st e) (Suc n) = ((cs, ss), r, m)"
      by (metis surj_pair)
    from Cons.IH [OF rec d, unfolded keep] Cons.prems(1) TurnStart rec show ?thesis
      by (auto simp: st' st_def [symmetric] Let_def)
  next
    case (TurnJoin call)
    obtain cs ss r m where rec: "catalog_turns now generation as (set_auth (auth_ID a) st e) n = ((cs, ss), r, m)"
      by (metis surj_pair)
    from Cons.IH [OF rec d, unfolded keep] Cons.prems(1) TurnJoin rec show ?thesis
      by (auto simp: st' st_def [symmetric] Let_def)
  next
    case TurnFresh
    then have rec: "catalog_turns now generation as (set_auth (auth_ID a) st e) n = ((calls, starts), e', n')"
      using Cons.prems(1) by (simp add: st' Let_def)
    from Cons.IH [OF rec d, unfolded keep] TurnFresh show ?thesis by (simp add: st_def [symmetric])
  next
    case TurnPending
    then have rec: "catalog_turns now generation as (set_auth (auth_ID a) st e) n = ((calls, starts), e', n')"
      using Cons.prems(1) by (simp add: st' Let_def)
    from Cons.IH [OF rec d, unfolded keep] TurnPending show ?thesis by (simp add: st_def [symmetric])
  next
    case TurnExhausted
    then have rec: "catalog_turns now generation as (set_auth (auth_ID a) st e) n = ((calls, starts), e', n')"
      using Cons.prems(1) by (simp add: st' Let_def)
    from Cons.IH [OF rec d, unfolded keep] TurnExhausted show ?thesis by (simp add: st_def [symmetric])
  qed
qed simp

lemma turn_start_iff:
  "(\<exists>st'. catalog_turn now generation authID st = TurnStart st') \<longleftrightarrow>
     fetchedAt st + modelCatalogTTL \<le> now \<and> foreground st = None \<and> \<not> background st \<and>
     (exhausted st \<longrightarrow> exhaustedGeneration st < generation authID \<or> cycleStartedAt st + modelCatalogTTL \<le> now)"
  by (auto simp: catalog_turn_def Let_def split: option.split)

text \<open>
  A request starts at most one fetch per credential, and it starts one exactly for the credentials
  whose snapshot is at least three hours old (or missing), with no fetch or retry in flight, and,
  after a cycle that used up its retries, only once the credential has recovered or three hours have
  passed since the cycle began.
\<close>

theorem catalog_fetch_budget:
  assumes "catalog_reachable y" "Catalog_begin now generation v auths (cat y) = Some (i, calls, starts, c')"
  shows "distinct (map (auth_ID \<circ> start_auth) starts) \<and>
    (\<forall>a\<in>set (distinctSortedAuths auths).
       let st = state_or_new (lookup_state i (auth_ID a) (cat y)) in
       a \<in> start_auth ` set starts \<longleftrightarrow>
         fetchedAt st + 3 * hour \<le> now \<and> foreground st = None \<and> \<not> background st \<and>
         (exhausted st \<longrightarrow> exhaustedGeneration st < generation (auth_ID a) \<or> cycleStartedAt st + 3 * hour \<le> now))"
proof -
  have ok: "lru_ok (cat y)" using catalog_reachable_ok [OF assms(1)] by simp
  from assms(2) obtain w e c1 e' n where e: "versionLocked w (cat y) = (e, c1)"
      and turns: "catalog_turns now generation (distinctSortedAuths auths) e (fresh c1) = ((calls, starts), e', n)"
      and i: "i = entry_id e"
    by (rule Catalog_begin_E)
  note s = turns_starts [OF turns distinctSorted(1)]
  have states: "map_of (entry_auths e) k = lookup_state i k (cat y)" for k
  proof (cases "find_version w (cat y)")
    case (Some x)
    with e find_version_mem [OF Some] have "e \<in> set (lru (cat y))" by (auto simp: versionLocked_def)
    then show ?thesis using find_entry_iff [OF ok, of i e] i by (simp add: lookup_state_def)
  next
    case None
    with e have "entry_auths e = []" "i = fresh (cat y)" using i by (auto simp: versionLocked_def Let_def)
    moreover have "find_entry (fresh (cat y)) (cat y) = None"
      using ok by (auto simp: find_entry_def find_None_iff lru_ok_def)
    ultimately show ?thesis by (simp add: lookup_state_def)
  qed
  have "map (auth_ID \<circ> start_auth) starts = map auth_ID (map start_auth starts)" by simp
  then have "distinct (map (auth_ID \<circ> start_auth) starts)"
    unfolding s using distinctSorted(1) [of auths] by (simp add: distinct_map_filter)
  moreover have "start_auth ` set starts = set (map start_auth starts)" by simp
  ultimately show ?thesis
    unfolding s states turn_start_iff Let_def modelCatalogTTL_def by auto
qed

section \<open>The view\<close>

lemma mem_offers:
  "(m, i, x) \<in> set (offers_of e a) \<longleftrightarrow> i = auth_ID a \<and> (\<exists>st models. map_of (entry_auths e) (auth_ID a) = Some st \<and>
     snapshot st = Some models \<and> x \<in> set models \<and> normalizeModelIdentifier (raw_slug x) = Some m)"
proof (cases "map_of (entry_auths e) (auth_ID a)")
  case (Some st)
  show ?thesis
  proof (cases "snapshot st")
    case (Some models)
    have "(m, i, x) \<in> set (case normalizeModelIdentifier (raw_slug y) of None \<Rightarrow> [] | Some slug \<Rightarrow> [(slug, auth_ID a, y)])
        \<longleftrightarrow> y = x \<and> i = auth_ID a \<and> normalizeModelIdentifier (raw_slug x) = Some m" for y
      by (cases "normalizeModelIdentifier (raw_slug y)") auto
    then show ?thesis
      using \<open>map_of (entry_auths e) (auth_ID a) = Some st\<close> Some by (simp add: offers_of_def) blast
  qed (use \<open>map_of (entry_auths e) (auth_ID a) = Some st\<close> in \<open>simp add: offers_of_def\<close>)
qed (simp add: offers_of_def)

text \<open>
  C36: While some credential has a snapshot, the catalogue knows for every model exactly which of the
  given credentials list it, as a sorted list without repetition that does not depend on the order in
  which the credentials are given; without a snapshot it claims to know nothing.
\<close>

theorem supporting_auths_exact:
  assumes "catalog_reachable y" "CachedCatalog marshal embedded v auths (cat y) = (view, c')"
    and "normalizeClientVersion v = Some w" "find_version w (cat y) = Some e"
    and "normalizeModelIdentifier model = Some m"
  shows "let listed = (\<lambda>i. i \<in> auth_ID ` set auths \<and> trim_space i \<noteq> [] \<and>
               (\<exists>st models. map_of (entry_auths e) i = Some st \<and> snapshot st = Some models \<and>
                  (\<exists>x\<in>set models. normalizeModelIdentifier (raw_slug x) = Some m)));
             known = (\<exists>i st. i \<in> auth_ID ` set auths \<and> trim_space i \<noteq> [] \<and>
                        map_of (entry_auths e) i = Some st \<and> snapshot st \<noteq> None)
         in CapabilityKnown view = known \<and>
            (known \<longrightarrow> sorted (SupportingAuthIDs view model) \<and> distinct (SupportingAuthIDs view model) \<and>
                        set (SupportingAuthIDs view model) = {i. listed i})"
proof -
  let ?as = "distinctSortedAuths auths"
  have ok: "lru_ok (cat y)" using catalog_reachable_ok [OF assms(1)] by simp
  have "find_entry (entry_id e) (cat y) = Some e"
    using find_entry_iff [OF ok] find_version_mem [OF assms(4)] by blast
  then have view: "view = (if list_ex (has_snapshot e) ?as then aggregate_view marshal e ?as
      else embeddedModelCatalogView embedded)"
    using assms(2-4) by (auto simp: CachedCatalog_def aggregate_def)
  have ids: "(\<exists>a\<in>set ?as. P (auth_ID a)) \<longleftrightarrow> (\<exists>i. i \<in> auth_ID ` set auths \<and> trim_space i \<noteq> [] \<and> P i)" for P
  proof -
    have "(\<exists>a\<in>set ?as. P (auth_ID a)) \<longleftrightarrow> (\<exists>i\<in>auth_ID ` set ?as. P i)" by simp
    also have "\<dots> \<longleftrightarrow> (\<exists>i. i \<in> auth_ID ` set auths \<and> trim_space i \<noteq> [] \<and> P i)"
      unfolding distinctSorted(2) by auto
    finally show ?thesis .
  qed
  have known: "list_ex (has_snapshot e) ?as \<longleftrightarrow> (\<exists>i st. i \<in> auth_ID ` set auths \<and> trim_space i \<noteq> [] \<and>
      map_of (entry_auths e) i = Some st \<and> snapshot st \<noteq> None)"
    using ids [of "\<lambda>i. \<exists>st. map_of (entry_auths e) i = Some st \<and> snapshot st \<noteq> None"]
    by (auto simp: list_ex_iff has_snapshot_def split: option.splits)
  define offers where "offers = concat (map (offers_of e) ?as)"
  define sup where "sup = (\<lambda>s. sort (remdups (map (fst \<circ> snd) (filter (\<lambda>f. fst f = s) offers))))"
  have map_sup: "map_of (map (\<lambda>s. (s, sup s)) ss) m = (if m \<in> set ss then Some (sup m) else None)" for ss
    by (induction ss) auto
  have off: "(m, i, x) \<in> set offers \<longleftrightarrow> (\<exists>a\<in>set ?as. auth_ID a = i \<and> (\<exists>st models. map_of (entry_auths e) (auth_ID a) = Some st \<and>
      snapshot st = Some models \<and> x \<in> set models \<and> normalizeModelIdentifier (raw_slug x) = Some m))" for i x
    unfolding offers_def set_concat set_map UN_iff image_iff bex_simps by (simp add: mem_offers) blast
  have empty: "sup m = []" if "m \<notin> fst ` set offers"
  proof -
    have "filter (\<lambda>f. fst f = m) offers = []" using that by (auto simp: filter_empty_conv rev_image_eqI)
    then show ?thesis by (simp add: sup_def)
  qed
  have supports: "view_Supporting (aggregate_view marshal e ?as) = map (\<lambda>s. (s, sup s)) (remdups (map fst offers))"
    by (simp add: aggregate_view_def Let_def offers_def sup_def)
  have ids_m: "SupportingAuthIDs (aggregate_view marshal e ?as) model = sup m"
    by (simp add: SupportingAuthIDs_def assms(5) supports map_sup empty)
  have "set (sup m) = {i. \<exists>x. (m, i, x) \<in> set offers}"
    by (force simp: sup_def)
  also have "\<dots> = {i \<in> auth_ID ` set ?as. \<exists>st models. map_of (entry_auths e) i = Some st \<and>
      snapshot st = Some models \<and> (\<exists>x\<in>set models. normalizeModelIdentifier (raw_slug x) = Some m)}"
    unfolding off by auto
  finally have set_sup: "set (sup m) = {i. i \<in> auth_ID ` set auths \<and> trim_space i \<noteq> [] \<and>
      (\<exists>st models. map_of (entry_auths e) i = Some st \<and> snapshot st = Some models \<and>
          (\<exists>x\<in>set models. normalizeModelIdentifier (raw_slug x) = Some m))}"
    unfolding distinctSorted(2) by auto
  have "sorted (sup m)" "distinct (sup m)" by (simp_all add: sup_def)
  moreover have "CapabilityKnown view = list_ex (has_snapshot e) ?as"
    by (simp add: view aggregate_view_def embeddedModelCatalogView_def Let_def)
  ultimately show ?thesis
    unfolding Let_def known [symmetric] using set_sup ids_m view by auto
qed

text \<open>
  The pause before a background retry is at least one second, never shorter than the time the
  upstream asked to wait, and at most five seconds when it asked for none.
\<close>

theorem background_delay_bounds:
  assumes "\<And>d. 0 \<le> d \<Longrightarrow> 0 \<le> jitter d \<and> jitter d \<le> d" "1 \<le> attempt" "attempt \<le> modelCatalogBackgroundRetries"
  shows "let d = backgroundRetryDelay now attempt jitter retry in
    second \<le> d \<and> (now < retry \<and> retry - now \<le> max_int64 \<longrightarrow> retry - now \<le> d) \<and>
    (retry \<le> now \<longrightarrow> d \<le> 5 * second)"
proof -
  define base where "base = (modelCatalogRetryBaseDelay * 2 ^ (attempt - 1) :: int)"
  have "attempt = 1 \<or> attempt = 2 \<or> attempt = 3" using assms(2,3) by (auto simp: modelCatalogBackgroundRetries_def)
  then have b: "second \<le> base" "base \<le> 4 * second"
    by (auto simp: base_def modelCatalogRetryBaseDelay_def second_def)
  have quarter: "0 \<le> base div 4" "base div 4 \<le> second" using b by (simp_all add: second_def)
  have j: "0 \<le> jitter (base div 4)" "jitter (base div 4) \<le> second"
    using assms(1) [of "base div 4"] b quarter by linarith+
  have d: "backgroundRetryDelay now attempt jitter retry =
      (if retry > now \<and> time_sub retry now > base + jitter (base div 4) then time_sub retry now else base + jitter (base div 4))"
    using assms(2,3) by (auto simp: backgroundRetryDelay_def Let_def base_def modelCatalogBackgroundRetries_def)
  show ?thesis
    unfolding Let_def d using b j by (auto simp: time_sub_def max_int64_def min_int64_def second_def)
qed

section \<open>Witnesses\<close>

lemma trim_version [simp]: "trim_space ''1.0'' = ''1.0''"
  by (rule trim_space_plain; simp add: plain_char_def)

lemma version_demo [simp]: "normalizeClientVersion ''1.0'' = Some ''1.0''"
  by (simp add: normalizeClientVersion_def maxClientVersionBytes_def is_alnum_def is_digit_def)

lemma sorted_demo [simp]: "distinctSortedAuths [demo_id] = [demo_id]"
  by (simp add: distinctSortedAuths_def Let_def)

definition demo_start :: modelCatalogFetchStart where
  "demo_start = \<lparr>start_entry = 0, start_auth = demo_id, start_call = 1\<rparr>"

definition demo_catalog :: runtimeModelCatalog where
  "demo_catalog = snd (snd (snd (the (Catalog_begin unix_epoch (\<lambda>_. 0) ''1.0'' [demo_id] newRuntimeModelCatalog))))"

lemma demo_begin:
  "Catalog_begin unix_epoch (\<lambda>_. 0) ''1.0'' [demo_id] newRuntimeModelCatalog = Some (0, [1], [demo_start], demo_catalog)"
  by (simp add: demo_catalog_def Catalog_begin_def versionLocked_def find_version_def newRuntimeModelCatalog_def
      maxModelCatalogVersions_def catalog_turn_def new_catalog_auth_def modelCatalogTTL_def hour_def unix_epoch_def
      second_def Let_def demo_start_def)

definition demo_catalog_sys :: catalog_sys where
  "demo_catalog_sys = \<lparr>cat = demo_catalog, fetches = [demo_start], retries = []\<rparr>"

lemma demo_catalog_reachable: "catalog_reachable demo_catalog_sys"
proof -
  have "catalog_step \<lparr>cat = newRuntimeModelCatalog, fetches = [], retries = []\<rparr> demo_catalog_sys"
    using catalog_step.request [of unix_epoch "\<lambda>_. 0" "''1.0''" "[demo_id]"
        "\<lparr>cat = newRuntimeModelCatalog, fetches = [], retries = []\<rparr>"] demo_begin
    by (simp add: demo_catalog_sys_def)
  with catalog_reachable.init show ?thesis by (rule catalog_reachable.step)
qed

theorem catalog_versions_bounded_witness: "distinct (map version (lru (cat demo_catalog_sys)))"
  using catalog_versions_bounded [OF demo_catalog_reachable] by blast

theorem catalog_waits_are_served_witness: "set [1] \<subseteq> start_call ` set [demo_start]"
  using catalog_waits_are_served [OF catalog_reachable.init] demo_begin by fastforce

theorem catalog_fetch_budget_witness: "distinct (map (auth_ID \<circ> start_auth) [demo_start])"
  by (rule conjunct1 [OF catalog_fetch_budget [OF catalog_reachable.init, of unix_epoch "\<lambda>_. 0" "''1.0''" "[demo_id]"]])
    (use demo_begin in simp)

text \<open>The same system after its fetch has listed one model.\<close>

definition demo_listed :: runtimeModelCatalog where
  "demo_listed = snd (foreground_done unix_epoch demo_start (Inr [[(''slug'', JStr ''m'')]]) demo_catalog)"

lemma demo_listed_reachable: "catalog_reachable \<lparr>cat = demo_listed, fetches = [], retries = []\<rparr>"
proof -
  obtain retry c' where run: "foreground_done unix_epoch demo_start (Inr [[(''slug'', JStr ''m'')]]) demo_catalog = (retry, c')"
    by fastforce
  then have "\<not> retry" by (auto simp: foreground_done_def Let_def split: option.splits if_splits)
  with catalog_step.fetch_ends [of demo_start demo_catalog_sys unix_epoch "Inr [[(''slug'', JStr ''m'')]]"] run
  have "catalog_step demo_catalog_sys \<lparr>cat = demo_listed, fetches = [], retries = []\<rparr>"
    by (simp add: demo_catalog_sys_def demo_listed_def)
  with demo_catalog_reachable show ?thesis by (rule catalog_reachable.step)
qed

lemma demo_listed_eq:
  "demo_listed = \<lparr>lru = [\<lparr>entry_id = 0, version = ''1.0'',
     entry_auths = [(''account:1'', new_catalog_auth\<lparr>snapshot := Some [[(''slug'', JStr ''m'')]], fetchedAt := unix_epoch\<rparr>)]\<rparr>],
     fresh = 2\<rparr>"
proof -
  have "demo_catalog = \<lparr>lru = [\<lparr>entry_id = 0, version = ''1.0'',
     entry_auths = [(''account:1'', new_catalog_auth\<lparr>foreground := Some 1, cycleStartedAt := unix_epoch\<rparr>)]\<rparr>], fresh = 2\<rparr>"
    by (simp add: demo_catalog_def Catalog_begin_def versionLocked_def find_version_def newRuntimeModelCatalog_def
      maxModelCatalogVersions_def catalog_turn_def new_catalog_auth_def modelCatalogTTL_def hour_def unix_epoch_def
      second_def Let_def update_entry_def set_auth_def)
  note demo = this
  show ?thesis
    unfolding demo_listed_def demo
    by (simp add: foreground_done_def lookup_state_def find_entry_def demo_start_def update_state_def
        update_entry_def set_auth_def applyFetchSuccess_def new_catalog_auth_def Let_def)
qed

lemma slug_demo [simp]: "normalizeModelIdentifier ''m'' = Some ''m''"
  by (simp add: normalizeModelIdentifier_def trim_blanks_def maxModelIdentifierBytes_def model_char_def is_alnum_def
      is_lower_def)

theorem supporting_auths_exact_witness:
  "SupportingAuthIDs (fst (CachedCatalog (\<lambda>_. []) [] ''1.0'' [demo_id] demo_listed)) ''m'' = [''account:1'']"
proof -
  let ?y = "\<lparr>cat = demo_listed, fetches = [], retries = []\<rparr>"
  let ?e = "hd (lru demo_listed)"
  obtain view c' where run: "CachedCatalog (\<lambda>_. []) [] ''1.0'' [demo_id] (cat ?y) = (view, c')" by fastforce
  have e: "find_version ''1.0'' (cat ?y) = Some ?e" by (simp add: find_version_def demo_listed_eq)
  have trim: "trim_space ''account:1'' \<noteq> []" by simp
  have states: "entry_auths ?e = [(''account:1'', new_catalog_auth\<lparr>snapshot := Some [[(''slug'', JStr ''m'')]], fetchedAt := unix_epoch\<rparr>)]"
    by (simp add: demo_listed_eq)
  note exact = supporting_auths_exact [OF demo_listed_reachable run version_demo e slug_demo, unfolded Let_def states]
  have "set (SupportingAuthIDs view ''m'') = {''account:1''}" "distinct (SupportingAuthIDs view ''m'')"
    using exact by (auto simp: raw_slug_def)
  then show ?thesis
    using run by (cases "SupportingAuthIDs view ''m''") (auto simp: subset_singleton_iff insert_eq_iff)
qed

theorem background_delay_bounds_witness: "second \<le> backgroundRetryDelay 7 2 (\<lambda>d. d div 2) 0"
  using background_delay_bounds [of "\<lambda>d. d div 2" 2 7 0]
  by (simp add: Let_def modelCatalogBackgroundRetries_def)

end
