(* ===== verification/Oauth_Refresh.thy ===== *)
theory Oauth_Refresh
  imports Failover_Properties
begin

text \<open>
  Refreshing a credential at the token endpoint (\<open>refresh.go\<close>): the reading of one reply, the three
  attempts with their pauses under one deadline of 30 seconds, and what a success writes into the
  credential. The endpoint is a script of replies, each with the time it takes; JSON decoding of a reply
  and the outcome of saving the file are arguments.
\<close>

section \<open>Replies\<close>

text \<open>
  The first flag of a failure is what \<open>transientOAuthNetworkError\<close> says of the error, the second whether it is or
  wraps \<open>context.Canceled\<close> or \<open>context.DeadlineExceeded\<close>.
\<close>

datatype token_reply =
    TokenUnsent
  | TokenRequestFailed bool bool
  | TokenReadFailed int bool bool
  | TokenResponse int string string

record oauthRefreshResponse =
  tr_AccessToken :: string
  tr_RefreshToken :: string
  tr_IDToken :: string
  tr_ExpiresIn :: int

record token_lib =
  decode_token_response :: "string \<Rightarrow> oauthRefreshResponse option"
  decode_token_error :: "string \<Rightarrow> string"

text \<open>An error of the package, and whether its cause is the end of the context.\<close>

record refresh_failure =
  rf_error :: oauthRefreshError
  rf_interrupted :: bool

definition maxOAuthRefreshAttempts :: nat where "maxOAuthRefreshAttempts = 3"
definition maxOAuthRefreshBodyBytes :: nat where "maxOAuthRefreshBodyBytes = 1048576"
definition DefaultOAuthRefreshTimeout :: duration where "DefaultOAuthRefreshTimeout = 30 * second"
definition millisecond :: duration where "millisecond = 1000000"

definition safeOAuthErrorCode :: "string \<Rightarrow> string" where
  "safeOAuthErrorCode code0 =
     (let code = trim_space code0 in
      if code = [] \<or> length code > 64 then []
      else if list_all (\<lambda>c. is_alnum c \<or> c = CHR ''_'' \<or> c = CHR ''-'' \<or> c = CHR ''.'') code then code
      else [])"

definition refresh_error :: "int \<Rightarrow> string \<Rightarrow> bool \<Rightarrow> bool \<Rightarrow> refresh_failure" where
  "refresh_error status code retryable interrupted =
     \<lparr>rf_error = \<lparr>re_status = status, re_code = safeOAuthErrorCode code, re_retryable = retryable\<rparr>,
      rf_interrupted = interrupted\<rparr>"

definition oauthRefreshStatusRetryable :: "int \<Rightarrow> bool" where
  "oauthRefreshStatusRetryable status \<longleftrightarrow> status \<in> set [408, 429, 500, 502, 503, 504]"

definition oauthRefreshRetryable :: "refresh_failure \<Rightarrow> bool" where
  "oauthRefreshRetryable e = (if rf_interrupted e then False else re_retryable (rf_error e))"

definition asciiDigits :: "string \<Rightarrow> bool" where
  "asciiDigits v \<longleftrightarrow> v \<noteq> [] \<and> list_all is_digit v"

definition parseOAuthRetryAfter :: "go_lib \<Rightarrow> string \<Rightarrow> time \<Rightarrow> duration" where
  "parseOAuthRetryAfter lib value0 now =
     (let value = trim_space value0 in
      if value = [] then -1
      else (case parse_uint64 value of
              Some seconds \<Rightarrow>
                if int seconds > max_int64 div second then max_int64 else wrap64 (int seconds * second)
            | None \<Rightarrow>
                if asciiDigits value then max_int64
                else (case parse_http_time lib value of
                        None \<Rightarrow> -1
                      | Some t \<Rightarrow> if \<not> t > now then 0 else time_sub t now)))"

definition refreshCodexTokenAttempt ::
  "go_lib \<Rightarrow> token_lib \<Rightarrow> token_reply \<Rightarrow> time \<Rightarrow> (refresh_failure + oauthRefreshResponse) \<times> duration" where
  "refreshCodexTokenAttempt lib tk reply now =
     (case reply of
        TokenUnsent \<Rightarrow> (Inl (refresh_error 0 [] False False), -1)
      | TokenRequestFailed t i \<Rightarrow> (Inl (refresh_error 0 [] t i), -1)
      | TokenReadFailed status t i \<Rightarrow> (Inl (refresh_error status [] t i), -1)
      | TokenResponse status header body \<Rightarrow>
          if length body > maxOAuthRefreshBodyBytes then (Inl (refresh_error status [] False False), -1)
          else if status < 200 \<or> status \<ge> 300 then
            (let code = decode_token_error tk body;
                 retryable = (oauthRefreshStatusRetryable status \<and> safeOAuthErrorCode code \<noteq> ''invalid_grant'')
             in (Inl (refresh_error status code retryable False), parseOAuthRetryAfter lib header now))
          else
            (case decode_token_response tk body of
               None \<Rightarrow> (Inl (refresh_error status [] False False), -1)
             | Some p0 \<Rightarrow>
                 let p = p0\<lparr>tr_AccessToken := trim_space (tr_AccessToken p0),
                            tr_RefreshToken := trim_space (tr_RefreshToken p0),
                            tr_IDToken := trim_space (tr_IDToken p0)\<rparr>
                 in if tr_AccessToken p = [] then (Inl (refresh_error status [] False False), -1)
                    else if tr_ExpiresIn p < 0 \<or> tr_ExpiresIn p > max_int64 div second
                    then (Inl (refresh_error status [] False False), -1)
                    else (Inr p, -1)))"

section \<open>The attempts\<close>

text \<open>
  A pause ends well when it is over before the deadline. \<open>refresh_attempts\<close> runs attempt number
  \<open>attempt\<close> and, while \<open>left\<close> attempts remain after it, the next ones; it gives the result, the instant
  it is reached, and the replies that were not used. A script that is used up stands for an
  endpoint that no longer answers: the request ends with the deadline.
\<close>

definition refresh_delay :: "duration \<Rightarrow> nat \<Rightarrow> duration" where
  "refresh_delay retryAfter attempt = (if retryAfter < 0 then int attempt * (100 * millisecond) else retryAfter)"

fun next_reply :: "time \<Rightarrow> time \<Rightarrow> (token_reply \<times> duration) list \<Rightarrow> token_reply \<times> time \<times> (token_reply \<times> duration) list" where
  "next_reply now deadline [] = (TokenRequestFailed True True, max now deadline, [])"
| "next_reply now deadline ((reply, took) # replies) =
     (if now + took < deadline then (reply, now + took, replies)
      else (TokenRequestFailed True True, max now deadline, replies))"

fun refresh_attempts ::
  "go_lib \<Rightarrow> token_lib \<Rightarrow> time \<Rightarrow> nat \<Rightarrow> nat \<Rightarrow> time \<Rightarrow> (token_reply \<times> duration) list
     \<Rightarrow> (refresh_failure + oauthRefreshResponse) \<times> time \<times> (token_reply \<times> duration) list" where
  "refresh_attempts lib tk deadline attempt left now replies =
     (case next_reply now deadline replies of
        (reply, now', replies') \<Rightarrow>
          (case refreshCodexTokenAttempt lib tk reply now' of
             (Inr p, _) \<Rightarrow> (Inr p, now', replies')
           | (Inl e, retryAfter) \<Rightarrow>
               (case left of
                  0 \<Rightarrow> (Inl e, now', replies')
                | Suc left' \<Rightarrow>
                    if \<not> oauthRefreshRetryable e then (Inl e, now', replies')
                    else
                      let resume = now' + refresh_delay retryAfter attempt
                      in if resume < deadline
                         then refresh_attempts lib tk deadline (Suc attempt) left' resume replies'
                         else (Inl (refresh_error 0 [] False True), deadline, replies'))))"

declare refresh_attempts.simps [simp del]

text \<open>What a successful reply makes of the credential.\<close>

definition refreshed_candidate :: "go_lib \<Rightarrow> time \<Rightarrow> oauthRefreshResponse \<Rightarrow> Auth \<Rightarrow> Auth" where
  "refreshed_candidate lib now p a =
     (let c1 = a\<lparr>AccessToken := tr_AccessToken p\<rparr>;
          c2 = (if tr_RefreshToken p \<noteq> [] then c1\<lparr>RefreshToken := tr_RefreshToken p\<rparr> else c1);
          c3 = (if tr_IDToken p \<noteq> [] then c2\<lparr>IDToken := tr_IDToken p\<rparr> else c2);
          c4 = (if tr_ExpiresIn p > 0 then c3\<lparr>ExpiresAt := now + wrap64 (tr_ExpiresIn p * second)\<rparr>
                else if \<not> is_zero_time (tokenExpiry lib (tr_AccessToken p))
                then c3\<lparr>ExpiresAt := tokenExpiry lib (tr_AccessToken p)\<rparr> else c3);
          c5 = ReparseIdentity lib c4
      in c5\<lparr>Metadata := AList.update ''last_refresh'' (JStr (format_rfc3339 now)) (Metadata c5)\<rparr>)"

text \<open>
  \<open>Refresher.Refresh\<close>: the error, or the credential that \<open>copyAuth\<close> writes back after it was saved; with
  the instant and the unused replies. \<open>Save\<close> also replaces the metadata.
\<close>

definition saved_auth :: "Auth \<Rightarrow> Auth" where
  "saved_auth a = a\<lparr>Metadata := saved_metadata a, codexCLI := (mapField (saved_metadata a) ''tokens'' \<noteq> None)\<rparr>"

definition Refresh ::
  "go_lib \<Rightarrow> token_lib \<Rightarrow> bool \<Rightarrow> time \<Rightarrow> (token_reply \<times> duration) list \<Rightarrow> Auth
     \<Rightarrow> (refresh_failure + Auth) \<times> time \<times> (token_reply \<times> duration) list" where
  "Refresh lib tk save_ok now replies a =
     (if trim_space (RefreshToken a) = [] then (Inl (refresh_error 0 [] False False), now, replies)
      else
        (case refresh_attempts lib tk (now + DefaultOAuthRefreshTimeout) 1 (maxOAuthRefreshAttempts - 1) now replies of
           (Inl e, r) \<Rightarrow> (Inl e, r)
         | (Inr p, now', replies') \<Rightarrow>
             let c = refreshed_candidate lib now' p a in
             if trim_space (Path c) = [] \<or> \<not> save_ok
             then (Inl (refresh_error 0 [] False False), now', replies')
             else (Inr (saved_auth c), now', replies')))"


section \<open>What the refresh promises\<close>

lemma next_reply_bounds:
  assumes "next_reply now deadline replies = (reply, t, left)" "now \<le> deadline"
  shows "t \<le> deadline" "left = drop 1 replies"
  using assms by (cases replies; auto split: if_splits)+

lemma attempts_within:
  assumes "refresh_attempts lib tk deadline attempt k now replies = (r, t, left)" "now \<le> deadline"
  shows "t \<le> deadline \<and> (\<exists>n \<le> Suc k. left = drop n replies)"
  using assms
proof (induction k arbitrary: attempt now replies)
  case 0
  obtain reply t1 l1 where nx: "next_reply now deadline replies = (reply, t1, l1)" by (metis surj_pair)
  with 0 have "t = t1" "left = l1"
    by (auto simp: refresh_attempts.simps split: prod.splits sum.splits)
  with next_reply_bounds [OF nx] 0(2) show ?case by auto
next
  case (Suc k)
  obtain reply t1 l1 where nx: "next_reply now deadline replies = (reply, t1, l1)" by (metis surj_pair)
  note b = next_reply_bounds [OF nx Suc.prems(2)]
  have l1: "\<exists>n \<le> Suc (Suc k). l1 = drop n replies" using b(2) by (intro exI [of _ 1]) simp
  obtain e ra where at: "refreshCodexTokenAttempt lib tk reply t1 = (e, ra)" by (metis surj_pair)
  show ?case
  proof (cases "(t, left) = (t1, l1) \<or> (t, left) = (deadline, l1)")
    case True
    with b l1 show ?thesis by auto
  next
    case False
    let ?resume = "t1 + refresh_delay ra attempt"
    have run: "refresh_attempts lib tk deadline (Suc attempt) k ?resume l1 = (r, t, left)" "?resume < deadline"
      using Suc.prems(1) False nx at
      by (auto simp: refresh_attempts.simps [of lib tk deadline attempt] Let_def split: sum.splits if_splits)
    from Suc.IH [OF this(1)] run(2) obtain n where "t \<le> deadline" "n \<le> Suc k" "left = drop n l1" by auto
    then show ?thesis using b(2) by (auto intro!: exI [of _ "Suc n"])
  qed
qed

text \<open>
  C30: A refresh sends at most three requests to the token endpoint, in the order of its replies, and is
  over no later than 30 seconds after it began, whatever the endpoint answers and however long it takes.
\<close>

theorem refresh_budget:
  assumes "Refresh lib tk save_ok now replies a = (r, t, left)"
  shows "t \<le> now + DefaultOAuthRefreshTimeout \<and> (\<exists>n \<le> 3. left = drop n replies)"
proof (cases "trim_space (RefreshToken a) = []")
  case True
  with assms show ?thesis
    by (auto simp: Refresh_def DefaultOAuthRefreshTimeout_def second_def intro!: exI [of _ 0])
next
  case False
  obtain r' where run: "refresh_attempts lib tk (now + DefaultOAuthRefreshTimeout) 1 (maxOAuthRefreshAttempts - 1) now replies
      = (r', t, left)"
    using assms False by (auto simp: Refresh_def Let_def split: prod.splits sum.splits if_splits)
  from attempts_within [OF run] show ?thesis
    by (simp add: maxOAuthRefreshAttempts_def DefaultOAuthRefreshTimeout_def second_def numeral_3_eq_3 numeral_2_eq_2)
qed

definition demo_token_lib :: token_lib where
  "demo_token_lib = \<lparr>decode_token_response = (\<lambda>b. if b = ''ok'' then
       Some \<lparr>tr_AccessToken = ''new'', tr_RefreshToken = [], tr_IDToken = [], tr_ExpiresIn = 3600\<rparr> else None),
     decode_token_error = (\<lambda>b. b)\<rparr>"

theorem refresh_budget_witness:
  "\<exists>r t left. Refresh demo_lib demo_token_lib True 0
      [(TokenRequestFailed True False, 5), (TokenRequestFailed True False, 5), (TokenRequestFailed True False, 5),
       (TokenUnsent, 5)] (demo_auth ''x'' ''1'' False) = (r, t, left) \<and>
     t \<le> 30 * second \<and> (\<exists>n \<le> 3. left = drop n [(TokenRequestFailed True False, 5), (TokenRequestFailed True False, 5),
       (TokenRequestFailed True False, 5), (TokenUnsent, 5)])"
proof -
  let ?replies = "[(TokenRequestFailed True False, 5), (TokenRequestFailed True False, 5),
       (TokenRequestFailed True False, 5), (TokenUnsent, 5)]"
  obtain r t left where run: "Refresh demo_lib demo_token_lib True 0 ?replies (demo_auth ''x'' ''1'' False) = (r, t, left)"
    by (metis surj_pair)
  from refresh_budget [OF run] run show ?thesis by (auto simp: DefaultOAuthRefreshTimeout_def)
qed


subsection \<open>One reply that decides\<close>

lemma refresh_first_reply:
  assumes "trim_space (RefreshToken a) \<noteq> []" "took < DefaultOAuthRefreshTimeout"
    and "refreshCodexTokenAttempt lib tk reply (now + took) = (Inl e, ra)"
    and "\<not> oauthRefreshRetryable e \<or> DefaultOAuthRefreshTimeout \<le> took + refresh_delay ra 1"
  shows "Refresh lib tk save_ok now ((reply, took) # rest) a =
    (if oauthRefreshRetryable e then (Inl (refresh_error 0 [] False True), now + DefaultOAuthRefreshTimeout, rest)
     else (Inl e, now + took, rest))"
proof -
  have left: "maxOAuthRefreshAttempts - 1 = Suc 1" by (simp add: maxOAuthRefreshAttempts_def)
  have "refresh_attempts lib tk (now + DefaultOAuthRefreshTimeout) 1 (maxOAuthRefreshAttempts - 1) now ((reply, took) # rest)
      = (if oauthRefreshRetryable e then (Inl (refresh_error 0 [] False True), now + DefaultOAuthRefreshTimeout, rest)
         else (Inl e, now + took, rest))"
    unfolding left using assms(2,4) by (subst refresh_attempts.simps) (auto simp: assms(3) Let_def)
  then show ?thesis using assms(1) by (simp add: Refresh_def)
qed

lemma trim_invalid_grant: "trim_space ''invalid_grant'' = ''invalid_grant''"
  by (rule trim_space_plain; simp add: plain_char_def)

lemma trim_rt: "trim_space ''rt'' = ''rt''"
  by (rule trim_space_plain; simp add: plain_char_def)

text \<open>
  C31: A token endpoint that rejects the refresh token as \<open>invalid_grant\<close> is never asked again, whatever
  the status and headers of its reply: the refresh ends at once with an error of that code that is not
  retryable, which the caller records as an invalid grant, not as a transient failure.
\<close>

theorem invalid_grant_is_final:
  assumes reply: "length body \<le> maxOAuthRefreshBodyBytes" "status < 200 \<or> 300 \<le> status"
      "trim_space (decode_token_error tk body) = ''invalid_grant''"
    and sent: "trim_space (RefreshToken a) \<noteq> []" "took < DefaultOAuthRefreshTimeout"
  shows "\<exists>e. Refresh lib tk save_ok now ((TokenResponse status header body, took) # rest) a = (Inl e, now + took, rest) \<and>
    re_retryable (rf_error e) = False \<and>
    f_Kind (preparationFailure (Some (rf_error e)) t) = upstreamFailureCredential \<and>
    f_Reason (preparationFailure (Some (rf_error e)) t) = ''invalid_grant'' \<and>
    f_RetryAt (preparationFailure (Some (rf_error e)) t) = 0"
proof -
  have code: "safeOAuthErrorCode (decode_token_error tk body) = ''invalid_grant''"
    using reply(3) by (simp add: safeOAuthErrorCode_def is_alnum_def is_lower_def is_upper_def is_digit_def Let_def)
  define e where "e = refresh_error status (decode_token_error tk body) False False"
  have at: "refreshCodexTokenAttempt lib tk (TokenResponse status header body) (now + took)
      = (Inl e, parseOAuthRetryAfter lib header (now + took))"
    using reply(1,2) code by (auto simp: refreshCodexTokenAttempt_def e_def)
  have safe: "safeHealthCode ''invalid_grant'' = ''invalid_grant''"
    by (simp add: safeHealthCode_def trim_invalid_grant is_alnum_def is_lower_def is_upper_def is_digit_def)
  have "\<not> oauthRefreshRetryable e" by (simp add: e_def oauthRefreshRetryable_def refresh_error_def)
  then have "Refresh lib tk save_ok now ((TokenResponse status header body, took) # rest) a = (Inl e, now + took, rest)"
    using refresh_first_reply [OF sent at] by simp
  moreover have "re_code (rf_error e) = ''invalid_grant''" "\<not> re_retryable (rf_error e)"
    using code by (simp_all add: e_def refresh_error_def)
  ultimately show ?thesis
    using safe by (simp add: preparationFailure_def no_failure_def Let_def)
qed

theorem invalid_grant_is_final_witness:
  "\<exists>e. Refresh demo_lib demo_token_lib True 0 [(TokenResponse 503 ''60'' ''invalid_grant'', 5)] (demo_auth ''x'' ''1'' False)
       = (Inl e, 5, []) \<and> f_Reason (preparationFailure (Some (rf_error e)) 9) = ''invalid_grant''"
proof -
  have h: "trim_space (decode_token_error demo_token_lib ''invalid_grant'') = ''invalid_grant''"
      "trim_space (RefreshToken (demo_auth ''x'' ''1'' False)) \<noteq> []"
    by (simp_all add: demo_token_lib_def demo_auth_def trim_invalid_grant trim_rt)
  show ?thesis
    using invalid_grant_is_final [where body = "''invalid_grant''" and status = 503 and took = 5 and now = 0
        and lib = demo_lib and save_ok = True and header = "''60''" and rest = "[]" and t = 9, OF _ _ h]
    by (simp add: maxOAuthRefreshBodyBytes_def DefaultOAuthRefreshTimeout_def second_def del: One_nat_def) blast
qed

lemma mark_refresh_failure:
  assumes "healthy_store s" "plain_id (auth_ID a)" "map_of (states r) (auth_ID a) = None"
    and "exclusions_of r (auth_ID a) = []" "0 < clock s"
    and "re_code e = []"
  shows "\<exists>r' s'. markAuthFailure lib a model (preparationFailure (Some e) (clock s)) (r, s) = (None, r', s') \<and>
    (\<forall>t m. Blocked r' t a m \<noteq> None \<longleftrightarrow> re_retryable e \<longrightarrow> t < clock s + minute)"
proof -
  have empty: "safeHealthCode [] = []" by (simp add: safeHealthCode_def)
  define hs where "hs = (if re_retryable e
      then health_state AuthHealthTransient ''refresh_failed'' (clock s + minute) False (re_status e) []
      else health_state AuthHealthCredentialInvalid ''credential_invalid'' 0 False (re_status e) [])"
  define st where "st = incoming_state lib a hs (clock s)"
  have pos: "clock s + minute \<noteq> 0" using assms(5) by (simp add: go_time)
  have mark: "markAuthFailure lib a model (preparationFailure (Some e) (clock s)) (r, s) = MarkUnavailable lib a hs (r, s)"
    using assms(6) pos empty
    by (simp add: markAuthFailure_def preparationFailure_def hs_def no_failure_def Let_def defaultTransientCooldown_def)
  have st: "\<not> persist_state st" "RetryAt st = (if re_retryable e then clock s + minute else 0)"
    by (simp_all add: st_def hs_def health_state_def incoming_state_def Let_def persist_state_def kind_defs)
  define r' where "r' = r\<lparr>states := AList.update (auth_ID a) st (states r)\<rparr>"
  have "MarkUnavailable lib a hs (r, s) = (None, r', update_health (AList.delete (auth_ID a)) s)"
    using assms(1-3) st(1) healthy_Delete [OF assms(1,2)]
    by (simp add: MarkUnavailable_def Let_def st_def [symmetric] r'_def)
  moreover have "State r' (auth_ID a) m = Some st" for m
    using assms(2,4) by (simp add: State_def Let_def r'_def update_conv exclusions_of_def split: option.split)
  then have "Blocked r' t a m \<noteq> None \<longleftrightarrow> re_retryable e \<longrightarrow> t < clock s + minute" for t m
    using st(2) pos by (auto simp: Blocked_def)
  ultimately show ?thesis unfolding mark by auto
qed

text \<open>
  A token endpoint that is overloaded and says so with a \<open>Retry-After\<close> of 30 seconds or more costs
  the credential for good: the pause outlives the refresh's own deadline, the error of the pause
  replaces the retryable one, and recording it blocks the credential at every later instant, whereas
  a refresh that fails with the reply's own error blocks it for one minute.
\<close>

theorem long_token_pause_blocks_forever:
  assumes reply: "length body \<le> maxOAuthRefreshBodyBytes" "oauthRefreshStatusRetryable status"
      "safeOAuthErrorCode (decode_token_error tk body) = []"
      "parse_uint64 (trim_space header) = Some n" "30 \<le> n" "int n \<le> max_int64 div second"
    and sent: "trim_space (RefreshToken a) \<noteq> []" "0 \<le> took" "took < DefaultOAuthRefreshTimeout"
    and auth: "plain_id (auth_ID a)" "map_of (states r) (auth_ID a) = None" "exclusions_of r (auth_ID a) = []"
    and store: "healthy_store s" "0 < clock s"
  shows "(\<exists>e r' s'. Refresh lib tk save_ok now ((TokenResponse status header body, took) # rest) a
             = (Inl e, now + DefaultOAuthRefreshTimeout, rest) \<and>
           markAuthFailure lib a model (preparationFailure (Some (rf_error e)) (clock s)) (r, s) = (None, r', s') \<and>
           (\<forall>t m. Blocked r' t a m \<noteq> None)) \<and>
    (\<exists>e r' s'. fst (refreshCodexTokenAttempt lib tk (TokenResponse status header body) (now + took)) = Inl e \<and>
           markAuthFailure lib a model (preparationFailure (Some (rf_error e)) (clock s)) (r, s) = (None, r', s') \<and>
           (\<forall>t m. Blocked r' t a m \<noteq> None \<longleftrightarrow> t < clock s + minute))"
proof -
  define e where "e = refresh_error status (decode_token_error tk body) True False"
  have header: "trim_space header \<noteq> []" using reply(4) by (auto simp: parse_uint64_def)
  then have pause: "parseOAuthRetryAfter lib header (now + took) = int n * second"
    using reply(4,6) by (simp add: parseOAuthRetryAfter_def Let_def seconds_fit)
  have status: "\<not> (200 \<le> status \<and> status < 300)"
    using reply(2) by (auto simp: oauthRefreshStatusRetryable_def)
  have at: "refreshCodexTokenAttempt lib tk (TokenResponse status header body) (now + took) = (Inl e, int n * second)"
    using reply(1-3) status pause by (auto simp: refreshCodexTokenAttempt_def e_def)
  have "30 * second \<le> int n * second" using reply(5) by (simp add: second_def)
  then have delay: "DefaultOAuthRefreshTimeout \<le> took + refresh_delay (int n * second) 1"
    using sent(2) by (simp add: refresh_delay_def DefaultOAuthRefreshTimeout_def second_def)
  have retry: "oauthRefreshRetryable e" by (simp add: e_def oauthRefreshRetryable_def refresh_error_def)
  have run: "Refresh lib tk save_ok now ((TokenResponse status header body, took) # rest) a
      = (Inl (refresh_error 0 [] False True), now + DefaultOAuthRefreshTimeout, rest)"
    using refresh_first_reply [OF sent(1,3) at] delay retry by simp
  have codes: "re_code (rf_error e) = []" "re_retryable (rf_error e)"
      "re_code (rf_error (refresh_error 0 [] False True)) = []" "\<not> re_retryable (rf_error (refresh_error 0 [] False True))"
    using reply(3) by (simp_all add: e_def refresh_error_def safeOAuthErrorCode_def)
  note mark = mark_refresh_failure [OF store(1) auth store(2)]
  from mark [OF codes(1), of lib model] mark [OF codes(3), of lib model] run at codes(2,4)
  show ?thesis by fastforce
qed

theorem long_token_pause_blocks_forever_witness:
  "\<exists>e r' s'. Refresh demo_lib demo_token_lib True 0 [(TokenResponse 503 ''60'' [], 5)] demo_id
             = (Inl e, 30 * second, []) \<and>
     markAuthFailure demo_lib demo_id [] (preparationFailure (Some (rf_error e)) 7) (newAuthHealthRegistry, new_store 7)
       = (None, r', s') \<and> (\<forall>t m. Blocked r' t demo_id m \<noteq> None)"
proof -
  have clock: "clock (new_store 7) = 7" by (simp add: new_store_def)
  have p: "parse_uint64 (trim_space ''60'') = Some 60" by (simp add: parse_uint64_def digits_value_def is_digit_def)
  have "(\<exists>e r' s'. Refresh demo_lib demo_token_lib True 0 [(TokenResponse 503 ''60'' [], 5)] demo_id
             = (Inl e, 0 + DefaultOAuthRefreshTimeout, []) \<and>
           markAuthFailure demo_lib demo_id [] (preparationFailure (Some (rf_error e)) (clock (new_store 7)))
             (newAuthHealthRegistry, new_store 7) = (None, r', s') \<and>
           (\<forall>t m. Blocked r' t demo_id m \<noteq> None))"
    by (rule long_token_pause_blocks_forever [THEN conjunct1, OF _ _ _ p])
      (simp_all add: demo_token_lib_def demo_id_def demo_auth_def go_time oauthRefreshStatusRetryable_def trim_rt
        safeOAuthErrorCode_def newAuthHealthRegistry_def exclusions_of_def DefaultOAuthRefreshTimeout_def
        maxOAuthRefreshBodyBytes_def clock)
  then show ?thesis by (simp add: DefaultOAuthRefreshTimeout_def clock)
qed

subsection \<open>A refresh that succeeds\<close>

lemma accepted_reply:
  assumes "next_reply now deadline replies = (reply, t, left)"
    and "refreshCodexTokenAttempt lib tk reply t' = (Inr p, ra)"
  shows "\<exists>status header body took. reply = TokenResponse status header body \<and> (reply, took) \<in> set replies"
  using assms by (cases replies; auto simp: refreshCodexTokenAttempt_def split: token_reply.splits if_splits)

lemma next_reply_rest:
  "next_reply now deadline replies = (reply, t, left) \<Longrightarrow> set left \<subseteq> set replies"
  by (cases replies) (auto split: if_splits)

lemma accepted_response:
  assumes "fst (refreshCodexTokenAttempt lib tk (TokenResponse status header body) t) = Inr p"
  shows "\<exists>p0. 200 \<le> status \<and> status < 300 \<and> decode_token_response tk body = Some p0 \<and>
      p = p0\<lparr>tr_AccessToken := trim_space (tr_AccessToken p0), tr_RefreshToken := trim_space (tr_RefreshToken p0),
              tr_IDToken := trim_space (tr_IDToken p0)\<rparr> \<and> tr_AccessToken p \<noteq> [] \<and>
      0 \<le> tr_ExpiresIn p \<and> tr_ExpiresIn p \<le> max_int64 div second"
  using assms by (auto simp: refreshCodexTokenAttempt_def Let_def split: if_splits option.splits)

lemma attempts_accept:
  assumes "refresh_attempts lib tk deadline attempt k now replies = (Inr p, t, left)"
  shows "\<exists>status header body took. (TokenResponse status header body, took) \<in> set replies \<and>
    fst (refreshCodexTokenAttempt lib tk (TokenResponse status header body) t) = Inr p"
  using assms
proof (induction k arbitrary: attempt now replies)
  case 0
  obtain reply t1 l1 where nx: "next_reply now deadline replies = (reply, t1, l1)" by (metis surj_pair)
  obtain e ra where at: "refreshCodexTokenAttempt lib tk reply t1 = (e, ra)" by (metis surj_pair)
  with 0 nx have r: "e = Inr p" "t1 = t" by (auto simp: refresh_attempts.simps split: sum.splits)
  then show ?case using at accepted_reply [OF nx] by fastforce
next
  case (Suc k)
  obtain reply t1 l1 where nx: "next_reply now deadline replies = (reply, t1, l1)" by (metis surj_pair)
  obtain e ra where at: "refreshCodexTokenAttempt lib tk reply t1 = (e, ra)" by (metis surj_pair)
  show ?case
  proof (cases e)
    case (Inr q)
    with Suc.prems nx at have "e = Inr p" "t1 = t" by (auto simp: refresh_attempts.simps)
    then show ?thesis using at accepted_reply [OF nx] by fastforce
  next
    case (Inl x)
    then have "refresh_attempts lib tk deadline (Suc attempt) k (t1 + refresh_delay ra attempt) l1 = (Inr p, t, left)"
      using Suc.prems nx at by (auto simp: refresh_attempts.simps [of lib tk deadline attempt] Let_def split: if_splits)
    from Suc.IH [OF this] next_reply_rest [OF nx] show ?thesis by blast
  qed
qed

lemma ReparseIdentity_keeps [simp]:
  "AccessToken (ReparseIdentity lib a) = AccessToken a" "RefreshToken (ReparseIdentity lib a) = RefreshToken a"
  "IDToken (ReparseIdentity lib a) = IDToken a" "ExpiresAt (ReparseIdentity lib a) = ExpiresAt a"
  "Path (ReparseIdentity lib a) = Path a" "Disabled (ReparseIdentity lib a) = Disabled a"
  by (simp_all add: ReparseIdentity_def Let_def)

text \<open>
  A refresh that succeeds returns the credential with the trimmed, non-empty access token of one of
  the endpoint's replies; a refresh token only changes to a non-empty one, so the credential can be
  refreshed again; an announced lifetime ends that many seconds after the reply, without wrapping;
  and the file, the disabled flag and the other tokens are kept. A refresh that fails returns no
  credential.
\<close>

theorem refresh_success:
  assumes "Refresh lib tk save_ok now replies a = (Inr c, t, left)"
  shows "\<exists>status header body took p.
    (TokenResponse status header body, took) \<in> set replies \<and> 200 \<le> status \<and> status < 300 \<and>
    decode_token_response tk body = Some p \<and> save_ok \<and>
    AccessToken c = trim_space (tr_AccessToken p) \<and> AccessToken c \<noteq> [] \<and>
    RefreshToken c = (if trim_space (tr_RefreshToken p) = [] then RefreshToken a else trim_space (tr_RefreshToken p)) \<and>
    trim_space (RefreshToken c) \<noteq> [] \<and>
    IDToken c = (if trim_space (tr_IDToken p) = [] then IDToken a else trim_space (tr_IDToken p)) \<and>
    (0 < tr_ExpiresIn p \<longrightarrow> ExpiresAt c = t + tr_ExpiresIn p * second \<and> t < ExpiresAt c) \<and>
    Path c = Path a \<and> Disabled c = Disabled a"
proof -
  have rt: "trim_space (RefreshToken a) \<noteq> []" using assms by (auto simp: Refresh_def)
  obtain p left' where run: "refresh_attempts lib tk (now + DefaultOAuthRefreshTimeout) 1 (maxOAuthRefreshAttempts - 1) now replies
      = (Inr p, t, left')" and c: "c = saved_auth (refreshed_candidate lib t p a)" and save_ok
    using assms rt by (auto simp: Refresh_def Let_def split: prod.splits sum.splits if_splits)
  from attempts_accept [OF run] obtain status header body took where
    reply: "(TokenResponse status header body, took) \<in> set replies"
      "fst (refreshCodexTokenAttempt lib tk (TokenResponse status header body) t) = Inr p" by auto
  from accepted_response [OF reply(2)] obtain p0 where
    p0: "200 \<le> status" "status < 300" "decode_token_response tk body = Some p0"
      "p = p0\<lparr>tr_AccessToken := trim_space (tr_AccessToken p0), tr_RefreshToken := trim_space (tr_RefreshToken p0),
              tr_IDToken := trim_space (tr_IDToken p0)\<rparr>" "tr_AccessToken p \<noteq> []"
      "0 \<le> tr_ExpiresIn p" "tr_ExpiresIn p \<le> max_int64 div second" by blast
  have no_wrap: "wrap64 (tr_ExpiresIn p * second) = tr_ExpiresIn p * second"
    using p0(6,7) seconds_fit [of "nat (tr_ExpiresIn p)"] by simp
  have c_fields: "AccessToken c = tr_AccessToken p" "Path c = Path a" "Disabled c = Disabled a"
      "RefreshToken c = (if tr_RefreshToken p = [] then RefreshToken a else tr_RefreshToken p)"
      "IDToken c = (if tr_IDToken p = [] then IDToken a else tr_IDToken p)"
      "0 < tr_ExpiresIn p \<Longrightarrow> ExpiresAt c = t + wrap64 (tr_ExpiresIn p * second)"
    by (simp_all add: c saved_auth_def refreshed_candidate_def Let_def)
  have "trim_space (RefreshToken c) \<noteq> []" using rt c_fields(4) p0(4) by auto
  then show ?thesis
    using reply(1) p0 \<open>save_ok\<close> c_fields no_wrap time_pos
    by (intro exI [of _ status] exI [of _ header] exI [of _ body] exI [of _ took] exI [of _ p0]) auto
qed

lemma demo_path: "Path demo_id = ''f.json''" "trim_space ''f.json'' = ''f.json''"
  by (simp_all add: demo_id_def demo_auth_def trim_space_plain plain_char_def)

lemma demo_rt: "RefreshToken demo_id = ''rt''"
  by (simp add: demo_id_def demo_auth_def)

theorem refresh_success_witness:
  "\<exists>c. Refresh demo_lib demo_token_lib True 0 [(TokenRequestFailed True False, 5), (TokenResponse 200 [] ''ok'', 5)] demo_id
         = (Inr c, 100000010, []) \<and>
       AccessToken c = ''new'' \<and> RefreshToken c = ''rt'' \<and> ExpiresAt c = 100000010 + 3600 * second"
proof -
  let ?replies = "[(TokenRequestFailed True False, 5 :: int), (TokenResponse 200 [] ''ok'', 5)]"
  have new: "trim_space ''new'' = ''new''" by (rule trim_space_plain; simp add: plain_char_def)
  let ?p = "\<lparr>tr_AccessToken = ''new'', tr_RefreshToken = [], tr_IDToken = [], tr_ExpiresIn = 3600\<rparr>"
  have second_try: "refresh_attempts demo_lib demo_token_lib (30 * second) 2 1 100000005 [(TokenResponse 200 [] ''ok'', 5)]
      = (Inr ?p, 100000010, [])"
    by (subst refresh_attempts.simps)
      (simp add: refreshCodexTokenAttempt_def demo_token_lib_def new go_time maxOAuthRefreshBodyBytes_def)
  have "refresh_attempts demo_lib demo_token_lib (30 * second) 1 2 0 ?replies = (Inr ?p, 100000010, [])"
    using second_try
    by (subst refresh_attempts.simps)
      (simp add: refreshCodexTokenAttempt_def refresh_error_def oauthRefreshRetryable_def refresh_delay_def
        millisecond_def go_time numeral_2_eq_2)
  then have "\<exists>c. Refresh demo_lib demo_token_lib True 0 ?replies demo_id = (Inr c, 100000010, [])"
    by (simp add: Refresh_def DefaultOAuthRefreshTimeout_def maxOAuthRefreshAttempts_def trim_rt Let_def
        refreshed_candidate_def demo_path demo_rt)
  then obtain c where run: "Refresh demo_lib demo_token_lib True 0 ?replies demo_id = (Inr c, 100000010, [])" by blast
  from refresh_success [OF run] run show ?thesis
    by (auto simp: demo_token_lib_def new demo_id_def demo_auth_def)
qed

end
