(* ===== verification/Proxy_Server.thy ===== *)
theory Proxy_Server
  imports Oauth_Refresh Session_Affinity Model_Catalog
begin

text \<open>
  One upstream request as the server runs it: reconciling the credential directory with every part that
  keeps state about credentials, choosing a credential (\<open>server.go\<close>), preparing it, and the retry loop
  of \<open>failover.go\<close>.

  The code runs many requests at once. Here one request runs, and what the others (and the operator) do
  between two of its steps is a function on the server's state, taken from the script of the
  environment at exactly the points where the request waits for something: an upstream attempt, a refresh, a
  pause, and the gaps between the transactions of one selection. Steps between two such points hold
  the lock of the part they touch and are atomic here.
\<close>

section \<open>The server\<close>

record server =
  auth_files :: FileAuthStore
  disk :: "walk_entry list"
  disk_end :: walk_end
  next_turn :: "64 word"
  registry :: authHealthRegistry
  models :: runtimeModelCatalog
  store :: user_store

record retry_config =
  RequestRetry :: int
  MaxRetryCredentials :: int
  MaxRetryInterval :: int

definition now_of :: "server \<Rightarrow> time" where "now_of s = clock (store s)"

definition store_reconcile :: "go_lib \<Rightarrow> server \<Rightarrow> (go_err + AuthReconcileResult) \<times> server" where
  "store_reconcile lib s =
     (case reconcile lib (now_of s) 0 (disk s) (disk_end s) (auth_files s) of
        (r, fs) \<Rightarrow> (r, s\<lparr>auth_files := fs\<rparr>))"

text \<open>Running an operation on the store, or on the health registry and the store.\<close>

definition on_store :: "(user_store \<Rightarrow> 'a outcome) \<Rightarrow> server \<Rightarrow> (go_err + 'a) \<times> server" where
  "on_store f s = (case f (store s) of (r, st) \<Rightarrow> (r, s\<lparr>store := st\<rparr>))"

definition on_health :: "(health_sys \<Rightarrow> go_err option \<times> health_sys) \<Rightarrow> server \<Rightarrow> go_err option \<times> server" where
  "on_health f s = (case f (registry s, store s) of (e, r, st) \<Rightarrow> (e, s\<lparr>registry := r, store := st\<rparr>))"

definition reconcileAuths :: "go_lib \<Rightarrow> server \<Rightarrow> (go_err + AuthReconcileResult) \<times> server" where
  "reconcileAuths lib s =
     (case store_reconcile lib s of
        (Inl e, s1) \<Rightarrow> (Inl e, s1)
      | (Inr result, s1) \<Rightarrow>
          let removed = map change_ID (filter (\<lambda>c. change_Kind c = AuthRemoved) (Changes result)) in
          (case (if removed \<noteq> [] then on_store (DeleteSessionAffinityByAuthIDs removed) s1 else (Inr 0, s1)) of
             (Inl e, s2) \<Rightarrow> (Inl e, s2)
           | (Inr _, s2) \<Rightarrow>
               (case on_health (Reconcile lib result) s2 of
                  (Some e, s3) \<Rightarrow> (Inl e, s3)
                | (None, s3) \<Rightarrow> (Inr result, s3\<lparr>models := catalog_Reconcile result (models s3)\<rparr>))))"

section \<open>The environment's script\<close>

datatype attempt_turn = AttemptFailed bool | AttemptResponse upstream_response

datatype refresh_turn =
    RefreshJoined "oauthRefreshError + Auth"
  | RefreshOwn "(token_reply \<times> duration) list" bool

datatype proxy_event =
    EvSelected string
  | EvAttempt string
  | EvPause duration

text \<open>
  \<open>turns\<close> are the outcomes of upstream attempts (a failed one carries whether the request's own context
  is done), \<open>refreshes\<close> what happens to each refresh and whether the context is done after it,
  \<open>pauses\<close> the outcomes of the pauses between rounds, \<open>races\<close> what others do inside a selection;
  each with the effect others have on the server meanwhile. Scripts that are used up stand for
  connections that fail, refreshes that get no reply, pauses that end well, and nobody else.
\<close>

type_synonym effect = "server \<Rightarrow> server"

record proxy =
  srv :: server
  turns :: "(attempt_turn \<times> effect) list"
  refreshes :: "(refresh_turn \<times> bool \<times> effect) list"
  pauses :: "(go_err option \<times> effect) list"
  races :: "effect list"
  trace :: "proxy_event list"

definition on_srv :: "(server \<Rightarrow> 'a \<times> server) \<Rightarrow> proxy \<Rightarrow> 'a \<times> proxy" where
  "on_srv f p = (case f (srv p) of (x, s) \<Rightarrow> (x, p\<lparr>srv := s\<rparr>))"

definition emit :: "proxy_event \<Rightarrow> proxy \<Rightarrow> proxy" where
  "emit ev p = p\<lparr>trace := trace p @ [ev]\<rparr>"

definition race :: "proxy \<Rightarrow> proxy" where
  "race p = (case races p of [] \<Rightarrow> p | f # fs \<Rightarrow> p\<lparr>srv := f (srv p), races := fs\<rparr>)"

definition attempt :: "Auth \<Rightarrow> proxy \<Rightarrow> attempt_turn \<times> proxy" where
  "attempt a p0 =
     (let p = emit (EvAttempt (auth_ID a)) p0 in
      case turns p of
        [] \<Rightarrow> (AttemptFailed False, p)
      | (t, f) # ts \<Rightarrow> (t, p\<lparr>srv := f (srv p), turns := ts\<rparr>))"

section \<open>Preparing a credential\<close>

definition go_rem :: "int \<Rightarrow> int \<Rightarrow> int" where
  "go_rem a b = (if a < 0 then - ((- a) mod b) else a mod b)"

text \<open>\<open>nextAuth\<close>: \<open>None\<close> is the panic of an index below zero.\<close>

definition nextAuth :: "Auth list \<Rightarrow> server \<Rightarrow> Auth option \<times> server" where
  "nextAuth auths s =
     (let idx = go_rem (sint (next_turn s)) (int (length auths))
      in (if idx < 0 then None else Some (auths ! nat idx), s\<lparr>next_turn := next_turn s + 1\<rparr>))"

definition matchingAuth :: "Auth list \<Rightarrow> Auth \<Rightarrow> Auth option" where
  "matchingAuth auths target = find (\<lambda>a. auth_ID a = auth_ID target) auths"

definition plain_refresh_error :: oauthRefreshError where
  "plain_refresh_error = rf_error (refresh_error 0 [] False False)"

definition set_clock :: "time \<Rightarrow> server \<Rightarrow> server" where
  "set_clock t s = s\<lparr>store := (store s)\<lparr>clock := t\<rparr>\<rparr>"

definition write_disk :: "string \<Rightarrow> string \<Rightarrow> server \<Rightarrow> server" where
  "write_disk path bytes s =
     s\<lparr>disk := map (\<lambda>w. if we_path w = path then w\<lparr>we_content := Inr bytes\<rparr> else w) (disk s)\<rparr>"

definition refreshCurrentAuth ::
  "go_lib \<Rightarrow> token_lib \<Rightarrow> (token_reply \<times> duration) list \<Rightarrow> bool \<Rightarrow> Auth \<Rightarrow> string \<Rightarrow> bool \<Rightarrow> bool \<Rightarrow> server
     \<Rightarrow> (oauthRefreshError + Auth) \<times> server" where
  "refreshCurrentAuth lib tk replies save_ok a failedAccessToken reuseChangedToken force s =
     (case store_reconcile lib s of
        (Inl e, s1) \<Rightarrow> (Inl plain_refresh_error, s1)
      | (Inr result, s1) \<Rightarrow>
          (case matchingAuth (if force then Auths result else Active result) a of
             None \<Rightarrow> (Inl plain_refresh_error, s1)
           | Some current \<Rightarrow>
               if \<not> force \<and> AccessToken current \<noteq> [] \<and> AccessToken current \<noteq> failedAccessToken \<and>
                  (reuseChangedToken \<or> \<not> Expired current (now_of s1))
               then (Inr current, s1)
               else
                 (case Refresh lib tk save_ok (now_of s1) replies current of
                    (Inl e, t, _) \<Rightarrow> (Inl (rf_error e), set_clock t s1)
                  | (Inr c, t, _) \<Rightarrow>
                      (Inr c, write_disk (Path c) (marshal_object lib (saved_metadata c)) (set_clock t s1)))))"

text \<open>
  \<open>refresh\<close>: a call that finds another one running for the same credential waits for its result. The
  boolean is whether the request's context is done afterwards.
\<close>

definition refresh ::
  "go_lib \<Rightarrow> token_lib \<Rightarrow> Auth \<Rightarrow> string \<Rightarrow> bool \<Rightarrow> bool \<Rightarrow> proxy \<Rightarrow> ((oauthRefreshError + Auth) \<times> bool) \<times> proxy" where
  "refresh lib tk a failedAccessToken reuseChangedToken force p =
     (case (case refreshes p of [] \<Rightarrow> ((RefreshOwn [] False, False, \<lambda>s. s), []) | t # ts \<Rightarrow> (t, ts)) of
        ((RefreshJoined r, ctx_done, f), ts) \<Rightarrow> ((r, ctx_done), p\<lparr>srv := f (srv p), refreshes := ts\<rparr>)
      | ((RefreshOwn replies save_ok, ctx_done, f), ts) \<Rightarrow>
          (case refreshCurrentAuth lib tk replies save_ok a failedAccessToken reuseChangedToken force (srv p) of
             (r, s) \<Rightarrow> ((r, ctx_done), p\<lparr>srv := f s, refreshes := ts\<rparr>)))"

datatype prepared = Prepared Auth | PrepareFailed "oauthRefreshError option" bool

definition prepareAuth :: "go_lib \<Rightarrow> token_lib \<Rightarrow> Auth \<Rightarrow> proxy \<Rightarrow> prepared \<times> proxy" where
  "prepareAuth lib tk a p =
     (case (if Expired a (now_of (srv p)) then refresh lib tk a (AccessToken a) False False p else ((Inr a, False), p)) of
        ((Inl e, ctx_done), p1) \<Rightarrow> (PrepareFailed (Some e) ctx_done, p1)
      | ((Inr a', ctx_done), p1) \<Rightarrow>
          if trim_space (AccessToken a') = [] then (PrepareFailed None ctx_done, p1) else (Prepared a', p1))"

definition RefreshAfterUnauthorized ::
  "go_lib \<Rightarrow> token_lib \<Rightarrow> Auth \<Rightarrow> string \<Rightarrow> proxy \<Rightarrow> ((oauthRefreshError + Auth) \<times> bool) \<times> proxy" where
  "RefreshAfterUnauthorized lib tk a failedAccessToken p =
     refresh lib tk a (if trim_space failedAccessToken = [] then AccessToken a else failedAccessToken) True False p"

definition ForceRefresh :: "go_lib \<Rightarrow> token_lib \<Rightarrow> Auth \<Rightarrow> proxy \<Rightarrow> ((oauthRefreshError + Auth) \<times> bool) \<times> proxy" where
  "ForceRefresh lib tk a p = refresh lib tk a [] False True p"

section \<open>Choosing a credential\<close>

record proxyAuthorization =
  pa_UserID :: "string option"
  CompatibilityAuthID :: string

definition sessionAffinityTenantScope :: "proxyAuthorization \<Rightarrow> string" where
  "sessionAffinityTenantScope auth =
     (case pa_UserID auth of
        Some user \<Rightarrow> ''user:'' @ user
      | None \<Rightarrow> if CompatibilityAuthID auth \<noteq> [] then ''auth:'' @ CompatibilityAuthID auth else [])"

definition sessionAffinityDigestsForRequest ::
  "go_lib \<Rightarrow> proxyAuthorization \<Rightarrow> sessionAffinitySignal list \<Rightarrow> string list" where
  "sessionAffinityDigestsForRequest lib auth sigs =
     digestSessionAffinitySignals lib (sessionAffinityTenantScope auth) sigs"

text \<open>What a request fixes: the digests and the scope of its session, its model, and the interfaces.\<close>

record upstream_request =
  r_lib :: go_lib
  r_tokens :: token_lib
  r_authorization :: proxyAuthorization
  r_signals :: "sessionAffinitySignal list"
  r_model :: string
  r_replayable :: bool
  r_config :: retry_config

definition no_binding :: SessionAffinityBinding where
  "no_binding = \<lparr>b_Digests = [], b_BindingDigest = [], b_TenantScopeDigest = [], b_AuthID = []\<rparr>"

record AuthSelection =
  sel_Auth :: Auth
  sel_Binding :: SessionAffinityBinding

datatype select_failure = NoEligible | SelectFailed go_err | BoundAuthGone | SelectPanic

definition eligible_auths ::
  "server \<Rightarrow> string \<Rightarrow> string list \<Rightarrow> string list option \<Rightarrow> Auth list \<Rightarrow> Auth list" where
  "eligible_auths s model tried allowed active =
     filter (\<lambda>a. (case allowed of None \<Rightarrow> True | Some ids \<Rightarrow> auth_ID a \<in> set ids) \<and>
                 auth_ID a \<notin> set tried \<and> Blocked (registry s) (now_of s) a model = None) active"

text \<open>The second half of \<open>selectProxyAuthCandidate\<close>, from the binding found (or not) to the selection.\<close>

definition bound_auth ::
  "Auth list \<Rightarrow> SessionAffinityBinding \<Rightarrow> proxy \<Rightarrow> (select_failure + AuthSelection) \<times> proxy" where
  "bound_auth active b p =
     (case map_of (authsByStableID active) (b_AuthID b) of
        None \<Rightarrow> (Inl BoundAuthGone, p)
      | Some a \<Rightarrow> (Inr \<lparr>sel_Auth = a, sel_Binding = b\<rparr>, p))"

definition rebind_again ::
  "Auth list \<Rightarrow> Auth list \<Rightarrow> SessionAffinityBinding \<Rightarrow> proxy \<Rightarrow> (select_failure + AuthSelection) \<times> proxy" where
  "rebind_again active eligible b p =
     (let filtered = filter (\<lambda>a. auth_ID a \<noteq> b_AuthID b) eligible in
      if filtered = [] then (Inl NoEligible, p)
      else (case on_srv (nextAuth filtered) p of
              (None, p1) \<Rightarrow> (Inl SelectPanic, p1)
            | (Some candidate, p1) \<Rightarrow>
                (case on_srv (on_store (RebindSessionAffinity b (auth_ID candidate))) (race p1) of
                   (Inl e, p2) \<Rightarrow> (Inl (SelectFailed e), p2)
                 | (Inr b2, p2) \<Rightarrow> bound_auth active b2 p2)))"

definition pick_auth ::
  "go_lib \<Rightarrow> string \<Rightarrow> string list \<Rightarrow> Auth list \<Rightarrow> Auth list \<Rightarrow> SessionAffinityBinding \<Rightarrow> proxy
     \<Rightarrow> (select_failure + AuthSelection) \<times> proxy" where
  "pick_auth lib scope digests active eligible held p =
     (case (if binding_valid held then (Inr (Some held), p)
            else on_srv (on_store (lookupSessionAffinity (sessionAffinityTenantScopeDigest lib scope) digests)) p) of
        (Inl e, p1) \<Rightarrow> (Inl (SelectFailed e), p1)
      | (Inr found, p1) \<Rightarrow>
          (case (case found of None \<Rightarrow> None | Some b \<Rightarrow> map_of (authsByStableID eligible) (b_AuthID b)) of
             Some a \<Rightarrow> (Inr \<lparr>sel_Auth = a, sel_Binding = the found\<rparr>, p1)
           | None \<Rightarrow>
               (case on_srv (nextAuth eligible) p1 of
                  (None, p2) \<Rightarrow> (Inl SelectPanic, p2)
                | (Some candidate, p2) \<Rightarrow>
                    (case on_srv (on_store (case found of
                             Some b \<Rightarrow> RebindSessionAffinity b (auth_ID candidate)
                           | None \<Rightarrow> bindSessionAffinity (sessionAffinityTenantScopeDigest lib scope) digests
                                      (auth_ID candidate))) (race p2) of
                       (Inl e, p3) \<Rightarrow> (Inl (SelectFailed e), p3)
                     | (Inr b1, p3) \<Rightarrow>
                         if map_of (authsByStableID active) (b_AuthID b1) = None \<or>
                            map_of (authsByStableID eligible) (b_AuthID b1) = None
                         then rebind_again active eligible b1 p3
                         else bound_auth active b1 p3))))"

definition selectProxyAuthCandidate ::
  "upstream_request \<Rightarrow> string \<Rightarrow> string list \<Rightarrow> string list option \<Rightarrow> SessionAffinityBinding \<Rightarrow> proxy
     \<Rightarrow> (select_failure + AuthSelection) \<times> proxy" where
  "selectProxyAuthCandidate r model tried allowed held p =
     (case on_srv (reconcileAuths (r_lib r)) p of
        (Inl e, p1) \<Rightarrow> (Inl (SelectFailed e), p1)
      | (Inr result, p1) \<Rightarrow>
          (case on_srv (on_health PruneExpired) p1 of
             (Some e, p2) \<Rightarrow> (Inl (SelectFailed e), p2)
           | (None, p2) \<Rightarrow>
               (case on_srv (on_store maybeCleanupExpiredSessionAffinity) p2 of
                  (Inl e, p3) \<Rightarrow> (Inl (SelectFailed e), p3)
                | (Inr _, p3) \<Rightarrow>
                    let eligible = eligible_auths (srv p3) model tried allowed (Active result);
                        digests = sessionAffinityDigestsForRequest (r_lib r) (r_authorization r) (r_signals r)
                    in if eligible = [] then (Inl NoEligible, p3)
                       else if digests = [] then
                         (case on_srv (nextAuth eligible) p3 of
                            (None, p4) \<Rightarrow> (Inl SelectPanic, p4)
                          | (Some a, p4) \<Rightarrow> (Inr \<lparr>sel_Auth = a, sel_Binding = no_binding\<rparr>, p4))
                       else pick_auth (r_lib r) (sessionAffinityTenantScope (r_authorization r)) digests
                              (Active result) eligible held p3)))"

datatype selection_failure =
    SelectionInvalid
  | SelectionUnavailable
  | SelectionFailed select_failure
  | SelectionUnprepared "oauthRefreshError option"

definition prepare_selection ::
  "go_lib \<Rightarrow> token_lib \<Rightarrow> AuthSelection \<Rightarrow> proxy \<Rightarrow> (selection_failure + AuthSelection) \<times> proxy" where
  "prepare_selection lib tk sel p =
     (case prepareAuth lib tk (sel_Auth sel) p of
        (PrepareFailed e ctx_done, p1) \<Rightarrow> (Inl (SelectionUnprepared e), p1)
      | (Prepared a, p1) \<Rightarrow> (Inr (sel\<lparr>sel_Auth := a\<rparr>), p1))"

definition selectProxyAuth :: "upstream_request \<Rightarrow> proxy \<Rightarrow> (selection_failure + AuthSelection) \<times> proxy" where
  "selectProxyAuth r p =
     (case selectProxyAuthCandidate r [] [] None no_binding p of
        (Inl e, p1) \<Rightarrow> (Inl (SelectionFailed e), p1)
      | (Inr sel, p1) \<Rightarrow> prepare_selection (r_lib r) (r_tokens r) sel p1)"

definition RebindAuthSelection ::
  "go_lib \<Rightarrow> token_lib \<Rightarrow> AuthSelection \<Rightarrow> string \<Rightarrow> proxy \<Rightarrow> (selection_failure + AuthSelection) \<times> proxy" where
  "RebindAuthSelection lib tk sel candidateAuthID0 p =
     (let candidateAuthID = trim_space candidateAuthID0 in
      if candidateAuthID = [] then (Inl SelectionInvalid, p)
      else (case on_srv (reconcileAuths lib) p of
              (Inl e, p1) \<Rightarrow> (Inl (SelectionFailed (SelectFailed e)), p1)
            | (Inr result, p1) \<Rightarrow>
                let activeByID = authsByStableID (Active result) in
                (case map_of activeByID candidateAuthID of
                   None \<Rightarrow> (Inl SelectionUnavailable, p1)
                 | Some candidate \<Rightarrow>
                     if \<not> binding_valid (sel_Binding sel)
                     then prepare_selection lib tk \<lparr>sel_Auth = candidate, sel_Binding = no_binding\<rparr> p1
                     else (case on_srv (on_store (RebindSessionAffinity (sel_Binding sel) candidateAuthID)) (race p1) of
                             (Inl e, p2) \<Rightarrow> (Inl (SelectionFailed (SelectFailed e)), p2)
                           | (Inr b, p2) \<Rightarrow>
                               (case map_of activeByID (b_AuthID b) of
                                  None \<Rightarrow> (Inl SelectionUnavailable, p2)
                                | Some a \<Rightarrow> prepare_selection lib tk \<lparr>sel_Auth = a, sel_Binding = b\<rparr> p2)))))"

text \<open>\<open>AuthManager.Select\<close>, which only looks at the directory.\<close>

definition Select :: "go_lib \<Rightarrow> token_lib \<Rightarrow> proxy \<Rightarrow> (selection_failure + Auth) \<times> proxy" where
  "Select lib tk p =
     (case on_srv (store_reconcile lib) p of
        (Inl e, p1) \<Rightarrow> (Inl (SelectionFailed (SelectFailed e)), p1)
      | (Inr result, p1) \<Rightarrow>
          if Active result = [] then (Inl SelectionUnavailable, p1)
          else (case on_srv (nextAuth (Active result)) p1 of
                  (None, p2) \<Rightarrow> (Inl (SelectionFailed SelectPanic), p2)
                | (Some a, p2) \<Rightarrow>
                    (case prepareAuth lib tk a p2 of
                       (PrepareFailed e ctx_done, p3) \<Rightarrow> (Inl (SelectionUnprepared e), p3)
                     | (Prepared a', p3) \<Rightarrow> (Inr a', p3))))"

end
