(* ===== verification/Retry_Loop.thy ===== *)
theory Retry_Loop
  imports Proxy_Server
begin

text \<open>
  The retry loop of \<open>failover.go\<close> over the server of Proxy_Server: credential after credential within a round,
  a repair by refresh after a 401, and rounds separated by pauses for the nearest cooldown.
\<close>

section \<open>Results\<close>

text \<open>
  \<open>ExecResponse\<close> hands a response on; \<open>ExecNetwork\<close> is the final error of a request that must not be
  replayed. \<open>OutOfFuel\<close> is not an outcome of the code: it would show that the bound on the number of
  selections in a round is too small.
\<close>

datatype execution =
    ExecResponse upstream_response Auth AuthSelection
  | ExecFinal proxyFinalError
  | ExecNetwork proxyFinalError Auth
  | ExecError go_err
  | ExecSelect select_failure
  | ExecCanceled
  | OutOfFuel

definition network_failure :: "time \<Rightarrow> upstreamFailure" where
  "network_failure now =
     no_failure\<lparr>f_Kind := upstreamFailureTransient, f_StatusCode := 502, f_Reason := ''network'',
       f_RetryAt := now + defaultTransientCooldown\<rparr>"

definition mark :: "upstream_request \<Rightarrow> Auth \<Rightarrow> upstreamFailure \<Rightarrow> proxy \<Rightarrow> go_err option \<times> proxy" where
  "mark r a f = on_srv (on_health (markAuthFailure (r_lib r) a (r_model r) f))"

definition final_error_of ::
  "upstream_request \<Rightarrow> failureAggregate \<Rightarrow> string list \<Rightarrow> proxy \<Rightarrow> (go_err + proxyFinalError) \<times> proxy" where
  "final_error_of r agg allowed p =
     (case on_srv (reconcileAuths (r_lib r)) p of
        (Inl e, p1) \<Rightarrow> (Inl e, p1)
      | (Inr result, p1) \<Rightarrow>
          (Inr (finalProxyError (registry (srv p1)) (now_of (srv p1)) (MaxRetryInterval (r_config r))
                  (Auths result) (r_model r) agg (set allowed)), p1))"

section \<open>After a 401\<close>

datatype repair = Repaired upstream_response Auth | NotRepaired failureAggregate | RepairFailed execution

definition repair_attempt ::
  "upstream_request \<Rightarrow> Auth \<Rightarrow> failureAggregate \<Rightarrow> proxy \<Rightarrow> repair \<times> proxy" where
  "repair_attempt r a agg p =
     (case attempt a p of
        (AttemptFailed ctx_done, p1) \<Rightarrow>
          if ctx_done then (RepairFailed ExecCanceled, p1)
          else
            let f = network_failure (now_of (srv p1)) in
            (case mark r a f p1 of
               (Some e, p2) \<Rightarrow> (RepairFailed (ExecError e), p2)
             | (None, p2) \<Rightarrow> (NotRepaired (aggregate_record a f agg), p2))
      | (AttemptResponse resp, p1) \<Rightarrow>
          let f = fst (classifyUpstreamResponse (r_lib r) (Some resp) (r_model r) (now_of (srv p1))) in
          if f_Kind f = upstreamFailureNone then
            (case on_srv (on_health (MarkHealthy a (r_model r))) p1 of
               (Some e, p2) \<Rightarrow> (RepairFailed (ExecError e), p2)
             | (None, p2) \<Rightarrow> (Repaired resp a, p2))
          else if f_Kind f = upstreamFailureRequestScoped then (Repaired resp a, p1)
          else
            let f' = (if f_Kind f = upstreamFailureUnauthorized
                      then no_failure\<lparr>f_Kind := upstreamFailureUnauthorized, f_StatusCode := 401,
                             f_ErrorCode := firstNonEmptyString [f_ErrorCode f, ''unauthorized''],
                             f_Reason := ''unauthorized''\<rparr>
                      else f) in
            (case mark r a f' p1 of
               (Some e, p2) \<Rightarrow> (RepairFailed (ExecError e), p2)
             | (None, p2) \<Rightarrow> (NotRepaired (aggregate_record a f' agg), p2)))"

text \<open>\<open>repairUnauthorized\<close>, which the loop only calls for a request that may be replayed.\<close>

definition repairUnauthorized ::
  "upstream_request \<Rightarrow> Auth \<Rightarrow> failureAggregate \<Rightarrow> proxy \<Rightarrow> repair \<times> proxy" where
  "repairUnauthorized r a agg p =
     (case RefreshAfterUnauthorized (r_lib r) (r_tokens r) a (AccessToken a) p of
        ((Inl e, ctx_done), p1) \<Rightarrow>
          if ctx_done then (RepairFailed ExecCanceled, p1)
          else
            let f0 = preparationFailure (Some e) (now_of (srv p1));
                f = (if f_Kind f0 = upstreamFailureCredential \<and> f_ErrorCode f0 = []
                     then f0\<lparr>f_ErrorCode := ''unauthorized''\<rparr> else f0) in
            (case mark r a f p1 of
               (Some e', p2) \<Rightarrow> (RepairFailed (ExecError e'), p2)
             | (None, p2) \<Rightarrow> (NotRepaired (aggregate_record a f agg), p2))
      | ((Inr fixed, _), p1) \<Rightarrow>
          (case on_srv (on_health (MarkCredentialHealthy fixed)) p1 of
             (Some e, p2) \<Rightarrow> (RepairFailed (ExecError e), p2)
           | (None, p2) \<Rightarrow> repair_attempt r fixed agg p2))"

section \<open>One credential\<close>

text \<open>What becomes of the loop after one credential: it stops, or goes on with the aggregate.\<close>

datatype turn = Stop execution | GoOn failureAggregate

definition after_response ::
  "upstream_request \<Rightarrow> Auth \<Rightarrow> AuthSelection \<Rightarrow> upstream_response \<Rightarrow> failureAggregate \<Rightarrow> proxy \<Rightarrow> turn \<times> proxy" where
  "after_response r a sel resp agg p =
     (let f = fst (classifyUpstreamResponse (r_lib r) (Some resp) (r_model r) (now_of (srv p))) in
      if f_Kind f = upstreamFailureUnauthorized then
        if \<not> r_replayable r then
          (case mark r a (no_failure\<lparr>f_Kind := upstreamFailureCredential, f_StatusCode := 401,
                    f_ErrorCode := firstNonEmptyString [f_ErrorCode f, ''unauthorized''],
                    f_Reason := ''unauthorized''\<rparr>) p of
             (Some e, p1) \<Rightarrow> (Stop (ExecError e), p1)
           | (None, p1) \<Rightarrow> (Stop (ExecResponse resp a sel), p1))
        else
          (case repairUnauthorized r a agg p of
             (Repaired resp' a', p1) \<Rightarrow> (Stop (ExecResponse resp' a' (sel\<lparr>sel_Auth := a'\<rparr>)), p1)
           | (NotRepaired agg', p1) \<Rightarrow> (GoOn agg', p1)
           | (RepairFailed x, p1) \<Rightarrow> (Stop x, p1))
      else if f_Kind f = upstreamFailureNone then
        (case on_srv (on_health (MarkHealthy a (r_model r))) p of
           (Some e, p1) \<Rightarrow> (Stop (ExecError e), p1)
         | (None, p1) \<Rightarrow> (Stop (ExecResponse resp a sel), p1))
      else if f_Kind f = upstreamFailureRequestScoped then (Stop (ExecResponse resp a sel), p)
      else
        (case mark r a f p of
           (Some e, p1) \<Rightarrow> (Stop (ExecError e), p1)
         | (None, p1) \<Rightarrow>
             if \<not> r_replayable r then (Stop (ExecResponse resp a sel), p1)
             else (GoOn (aggregate_record a f agg), p1)))"

definition try_auth ::
  "upstream_request \<Rightarrow> string list \<Rightarrow> AuthSelection \<Rightarrow> failureAggregate \<Rightarrow> proxy \<Rightarrow> turn \<times> proxy" where
  "try_auth r allowed sel0 agg p =
     (case prepareAuth (r_lib r) (r_tokens r) (sel_Auth sel0) p of
        (PrepareFailed err ctx_done, p1) \<Rightarrow>
          if ctx_done then (Stop ExecCanceled, p1)
          else
            let f = preparationFailure err (now_of (srv p1)) in
            (case mark r (sel_Auth sel0) f p1 of
               (Some e, p2) \<Rightarrow> (Stop (ExecError e), p2)
             | (None, p2) \<Rightarrow> (GoOn (aggregate_record (sel_Auth sel0) f agg), p2))
      | (Prepared a, p1) \<Rightarrow>
          let sel = sel0\<lparr>sel_Auth := a\<rparr> in
          (case attempt a p1 of
             (AttemptFailed ctx_done, p2) \<Rightarrow>
               if ctx_done then (Stop ExecCanceled, p2)
               else
                 let f = network_failure (now_of (srv p2)) in
                 (case mark r a f p2 of
                    (Some e, p3) \<Rightarrow> (Stop (ExecError e), p3)
                  | (None, p3) \<Rightarrow>
                      let agg' = aggregate_record a f agg in
                      if \<not> r_replayable r then
                        (case final_error_of r agg' allowed p3 of
                           (Inl e, p4) \<Rightarrow> (Stop (ExecError e), p4)
                         | (Inr fe, p4) \<Rightarrow> (Stop (ExecNetwork fe a), p4))
                      else (GoOn agg', p3))
           | (AttemptResponse resp, p2) \<Rightarrow> after_response r a sel resp agg p2))"

section \<open>The loops\<close>

text \<open>
  The inner loop, with fuel for the selections of one round. \<open>tried\<close> has one entry per selection, so
  its length is \<open>attempted\<close>.
\<close>

datatype round = RoundStop execution | RoundOver failureAggregate SessionAffinityBinding

fun round_loop ::
  "nat \<Rightarrow> upstream_request \<Rightarrow> string list \<Rightarrow> string list \<Rightarrow> SessionAffinityBinding \<Rightarrow> failureAggregate \<Rightarrow> proxy
     \<Rightarrow> round \<times> proxy" where
  "round_loop 0 r allowed tried held agg p = (RoundStop OutOfFuel, p)"
| "round_loop (Suc fuel) r allowed tried held agg p =
     (let maxCredentials = MaxRetryCredentials (r_config r) in
      if maxCredentials > 0 \<and> int (length tried) \<ge> maxCredentials then (RoundOver agg held, p)
      else
        (case selectProxyAuthCandidate r (r_model r) tried (Some allowed) held p of
           (Inl NoEligible, p1) \<Rightarrow> (RoundOver agg held, p1)
         | (Inl e, p1) \<Rightarrow> (RoundStop (ExecSelect e), p1)
         | (Inr sel, p1) \<Rightarrow>
             (case try_auth r allowed sel agg (emit (EvSelected (auth_ID (sel_Auth sel))) p1) of
                (Stop x, p2) \<Rightarrow> (RoundStop x, p2)
              | (GoOn agg', p2) \<Rightarrow>
                  round_loop fuel r allowed (auth_ID (sel_Auth sel) # tried) (sel_Binding sel) agg' p2)))"

text \<open>The pause before the next round: its length, if there is one.\<close>

definition retry_pause ::
  "upstream_request \<Rightarrow> string list \<Rightarrow> failureAggregate \<Rightarrow> proxy \<Rightarrow> (go_err + duration option) \<times> proxy" where
  "retry_pause r allowed agg p =
     (case on_srv (reconcileAuths (r_lib r)) p of
        (Inl e, p1) \<Rightarrow> (Inl e, p1)
      | (Inr result, p1) \<Rightarrow>
          (case nearestCooldown (registry (srv p1)) (now_of (srv p1)) (Active result) (r_model r) agg (set allowed) of
             (deadline, ok) \<Rightarrow>
               let delay = max 0 (time_sub deadline (now_of (srv p1)));
                   maxWait = wrap64 (MaxRetryInterval (r_config r) * second)
               in (Inr (if \<not> ok \<or> delay > maxWait then None else Some delay), p1)))"

definition wait_retry :: "duration \<Rightarrow> proxy \<Rightarrow> go_err option \<times> proxy" where
  "wait_retry d p0 =
     (let p = emit (EvPause d) p0 in
      case pauses p of
        [] \<Rightarrow> (None, p\<lparr>srv := set_clock (now_of (srv p) + d) (srv p)\<rparr>)
      | (e, f) # ps \<Rightarrow> (e, p\<lparr>srv := f (set_clock (now_of (srv p) + d) (srv p)), pauses := ps\<rparr>))"

text \<open>\<open>left\<close> is how many more rounds \<open>RequestRetry\<close> allows after this one.\<close>

fun retry_rounds ::
  "nat \<Rightarrow> nat \<Rightarrow> upstream_request \<Rightarrow> string list \<Rightarrow> SessionAffinityBinding \<Rightarrow> failureAggregate \<Rightarrow> proxy
     \<Rightarrow> execution \<times> proxy" where
  "retry_rounds left fuel r allowed held agg p =
     (case round_loop fuel r allowed [] held agg p of
        (RoundStop x, p1) \<Rightarrow> (x, p1)
      | (RoundOver agg' held', p1) \<Rightarrow>
          let give_up = (\<lambda>p. case final_error_of r agg' allowed p of
                                (Inl e, p') \<Rightarrow> (ExecError e, p')
                              | (Inr fe, p') \<Rightarrow> (ExecFinal fe, p'))
          in case left of
               0 \<Rightarrow> give_up p1
             | Suc left' \<Rightarrow>
                 if \<not> r_replayable r \<or> MaxRetryInterval (r_config r) \<le> 0 then give_up p1
                 else
                   (case retry_pause r allowed agg' p1 of
                      (Inl e, p2) \<Rightarrow> (ExecError e, p2)
                    | (Inr None, p2) \<Rightarrow> give_up p2
                    | (Inr (Some d), p2) \<Rightarrow>
                        (case wait_retry d p2 of
                           (Some e, p3) \<Rightarrow> (ExecError e, p3)
                         | (None, p3) \<Rightarrow> retry_rounds left' fuel r allowed held' agg' p3)))"

declare retry_rounds.simps [simp del]

definition rounds_left :: "int \<Rightarrow> nat" where
  "rounds_left requestRetry = nat requestRetry"

section \<open>The request\<close>

text \<open>
  The allowed credentials: all of the directory, unless the catalogue knows what the credentials
  support. \<open>marshal\<close> and \<open>embedded\<close> are those of the catalogue.
\<close>

definition allowed_auths ::
  "(json_map \<Rightarrow> string) \<Rightarrow> json_map list \<Rightarrow> string \<Rightarrow> upstream_request \<Rightarrow> AuthReconcileResult \<Rightarrow> proxy
     \<Rightarrow> string list option \<times> proxy" where
  "allowed_auths marshal embedded clientVersion r result p =
     (if normalizeModelIdentifier (r_model r) = None then (Some (map auth_ID (Auths result)), p)
      else
        (case CachedCatalog marshal embedded clientVersion (Active result) (models (srv p)) of
           (view, c) \<Rightarrow>
             let p1 = p\<lparr>srv := (srv p)\<lparr>models := c\<rparr>\<rparr> in
             if \<not> CapabilityKnown view then (Some (map auth_ID (Auths result)), p1)
             else if SupportingAuthIDs view (r_model r) = [] then (None, p1)
             else (Some (SupportingAuthIDs view (r_model r)), p1)))"

text \<open>
  Within a round no credential is selected twice and at most \<open>MaxRetryCredentials\<close> are when that is set,
  so this fuel is enough for the request without a session, and for any request when the limit is set.
\<close>

definition round_fuel :: "upstream_request \<Rightarrow> string list \<Rightarrow> nat" where
  "round_fuel r allowed = Suc (max (length allowed) (nat (MaxRetryCredentials (r_config r))))"

definition executeUpstream ::
  "(json_map \<Rightarrow> string) \<Rightarrow> json_map list \<Rightarrow> string \<Rightarrow> upstream_request \<Rightarrow> proxy \<Rightarrow> execution \<times> proxy" where
  "executeUpstream marshal embedded clientVersion r p =
     (case on_srv (reconcileAuths (r_lib r)) p of
        (Inl e, p1) \<Rightarrow> (ExecError e, p1)
      | (Inr initial, p1) \<Rightarrow>
          (case allowed_auths marshal embedded clientVersion r initial p1 of
             (None, p2) \<Rightarrow> (ExecFinal (final_error 404 ''model_not_found'' 0), p2)
           | (Some allowed, p2) \<Rightarrow>
               retry_rounds (rounds_left (RequestRetry (r_config r))) (round_fuel r allowed) r allowed no_binding [] p2))"

end
