(* ===== verification/Retry_Properties.thy ===== *)
theory Retry_Properties
  imports Retry_Loop
begin

text \<open>
  What one request does to the outside: which credentials it selects, how often it reaches the upstream, how
  long it pauses, and that it ends. The trace of events carries these facts; every operation appends to
  it.
\<close>

section \<open>Traces\<close>

definition selected_ids :: "proxy_event list \<Rightarrow> string list" where
  "selected_ids evs = concat (map (\<lambda>ev. case ev of EvSelected i \<Rightarrow> [i] | _ \<Rightarrow> []) evs)"

definition attempt_ids :: "proxy_event list \<Rightarrow> string list" where
  "attempt_ids evs = concat (map (\<lambda>ev. case ev of EvAttempt i \<Rightarrow> [i] | _ \<Rightarrow> []) evs)"

definition pause_lengths :: "proxy_event list \<Rightarrow> duration list" where
  "pause_lengths evs = concat (map (\<lambda>ev. case ev of EvPause d \<Rightarrow> [d] | _ \<Rightarrow> []) evs)"

named_theorems trace_simps

lemma event_lists [simp]:
  "selected_ids [] = []" "selected_ids (EvSelected i # evs) = i # selected_ids evs"
  "selected_ids (EvAttempt i # evs) = selected_ids evs" "selected_ids (EvPause d # evs) = selected_ids evs"
  "attempt_ids [] = []" "attempt_ids (EvSelected i # evs) = attempt_ids evs"
  "attempt_ids (EvAttempt i # evs) = i # attempt_ids evs" "attempt_ids (EvPause d # evs) = attempt_ids evs"
  "pause_lengths [] = []" "pause_lengths (EvSelected i # evs) = pause_lengths evs"
  "pause_lengths (EvAttempt i # evs) = pause_lengths evs" "pause_lengths (EvPause d # evs) = d # pause_lengths evs"
  "selected_ids (evs @ evs') = selected_ids evs @ selected_ids evs'"
  "attempt_ids (evs @ evs') = attempt_ids evs @ attempt_ids evs'"
  "pause_lengths (evs @ evs') = pause_lengths evs @ pause_lengths evs'"
  by (simp_all add: selected_ids_def attempt_ids_def pause_lengths_def)

lemma on_srv_trace [trace_simps]: "trace (snd (on_srv f p)) = trace p"
  by (simp add: on_srv_def split: prod.split)

lemma on_srv_traceD: "on_srv f p = (x, p') \<Longrightarrow> trace p' = trace p"
  using on_srv_trace [of f p] by simp

lemma race_trace [simp]: "trace (race p) = trace p"
  by (simp add: race_def split: list.split)

lemma bound_auth_trace [simp]: "bound_auth active b p = (x, p') \<Longrightarrow> trace p' = trace p"
  by (auto simp: bound_auth_def split: option.splits)

lemma rebind_again_trace: "rebind_again active eligible b p = (x, p') \<Longrightarrow> trace p' = trace p"
  by (auto simp: rebind_again_def Let_def dest!: on_srv_traceD bound_auth_trace
      split: if_splits prod.splits sum.splits option.splits)

lemma pick_auth_trace:
  assumes "pick_auth lib scope digests active eligible held p = (x, p')"
  shows "trace p' = trace p"
proof -
  define found where "found = (if binding_valid held then (Inr (Some held), p)
      else on_srv (on_store (lookupSessionAffinity (sessionAffinityTenantScopeDigest lib scope) digests)) p)"
  obtain y p1 where y: "found = (y, p1)" by (metis surj_pair)
  then have t1: "trace p1 = trace p" by (auto simp: found_def dest!: on_srv_traceD split: if_splits)
  show ?thesis
    using assms t1 y
    by (auto simp: pick_auth_def found_def [symmetric]
        dest!: on_srv_traceD bound_auth_trace rebind_again_trace
        split: sum.splits option.splits prod.splits if_splits)
qed

lemma select_trace:
  assumes "selectProxyAuthCandidate r model tried allowed held p = (x, p')"
  shows "trace p' = trace p"
  using assms
  by (auto simp: selectProxyAuthCandidate_def Let_def dest!: on_srv_traceD pick_auth_trace
      split: sum.splits option.splits prod.splits if_splits)

lemma refresh_trace: "refresh lib tk a failed reuse force p = (x, p') \<Longrightarrow> trace p' = trace p"
  by (auto simp: refresh_def split: list.splits refresh_turn.splits prod.splits)

lemma prepare_trace: "prepareAuth lib tk a p = (x, p') \<Longrightarrow> trace p' = trace p"
  by (auto simp: prepareAuth_def dest!: refresh_trace split: prod.splits sum.splits if_splits)

lemma attempt_trace: "attempt a p = (x, p') \<Longrightarrow> trace p' = trace p @ [EvAttempt (auth_ID a)]"
  by (auto simp: attempt_def emit_def Let_def split: list.splits prod.splits)

lemma mark_trace: "mark r a f p = (x, p') \<Longrightarrow> trace p' = trace p"
  unfolding mark_def by (rule on_srv_traceD)

lemma final_trace: "final_error_of r agg allowed p = (x, p') \<Longrightarrow> trace p' = trace p"
  by (auto simp: final_error_of_def dest!: on_srv_traceD split: prod.splits sum.splits)

text \<open>The events of one credential.\<close>

lemma repair_attempt_trace:
  "repair_attempt r a agg p = (x, p') \<Longrightarrow> trace p' = trace p @ [EvAttempt (auth_ID a)]"
  by (auto simp: repair_attempt_def Let_def dest!: attempt_trace mark_trace on_srv_traceD
      split: prod.splits attempt_turn.splits option.splits if_splits)

lemma repair_trace:
  assumes "repairUnauthorized r a agg p = (x, p')"
  shows "\<exists>i. trace p' = trace p \<or> trace p' = trace p @ [EvAttempt i]"
  using assms
  by (auto simp: repairUnauthorized_def RefreshAfterUnauthorized_def Let_def
      dest!: refresh_trace mark_trace on_srv_traceD repair_attempt_trace
      split: prod.splits sum.splits option.splits if_splits)

definition one_turn :: "upstream_request \<Rightarrow> turn \<Rightarrow> proxy_event list \<Rightarrow> bool" where
  "one_turn r x evs \<longleftrightarrow> selected_ids evs = [] \<and> pause_lengths evs = [] \<and> length (attempt_ids evs) \<le> 2 \<and>
     (\<not> r_replayable r \<longrightarrow> length (attempt_ids evs) \<le> 1 \<and> (attempt_ids evs \<noteq> [] \<longrightarrow> (\<exists>y. x = Stop y)))"

lemma after_response_trace:
  assumes "after_response r a sel resp agg p = (x, p')"
  shows "\<exists>i. trace p' = trace p \<or> r_replayable r \<and> trace p' = trace p @ [EvAttempt i]"
    and "\<not> r_replayable r \<Longrightarrow> \<exists>y. x = Stop y"
proof -
  show "\<not> r_replayable r \<Longrightarrow> \<exists>y. x = Stop y"
    using assms by (auto simp: after_response_def Let_def split: prod.splits option.splits if_splits)
  show "\<exists>i. trace p' = trace p \<or> r_replayable r \<and> trace p' = trace p @ [EvAttempt i]"
  proof (cases "r_replayable r")
    case False
    then show ?thesis
      using assms by (auto simp: after_response_def Let_def dest!: mark_trace on_srv_traceD
          split: prod.splits option.splits if_splits)
  next
    case True
    obtain y p1 where rep: "repairUnauthorized r a agg p = (y, p1)" by (metis surj_pair)
    from repair_trace [OF rep] show ?thesis
      using assms True rep
      by (auto simp: after_response_def Let_def dest!: mark_trace on_srv_traceD
          split: prod.splits option.splits if_splits repair.splits)
  qed
qed

lemma try_auth_trace:
  assumes "try_auth r allowed sel agg p = (x, p')"
  shows "\<exists>evs. trace p' = trace p @ evs \<and> one_turn r x evs"
proof -
  obtain y p1 where prep: "prepareAuth (r_lib r) (r_tokens r) (sel_Auth sel) p = (y, p1)" by (metis surj_pair)
  note t1 = prepare_trace [OF prep]
  show ?thesis
  proof (cases y)
    case (PrepareFailed e d)
    then have "trace p' = trace p"
      using assms prep t1
      by (auto simp: try_auth_def Let_def dest!: mark_trace split: prod.splits option.splits if_splits)
    then show ?thesis by (intro exI [of _ "[]"]) (simp add: one_turn_def)
  next
    case (Prepared a)
    obtain z p2 where at: "attempt a p1 = (z, p2)" by (metis surj_pair)
    note t2 = attempt_trace [OF at]
    show ?thesis
    proof (cases z)
      case (AttemptFailed d)
      then have "trace p' = trace p2" "\<not> r_replayable r \<Longrightarrow> \<exists>w. x = Stop w"
        using assms prep Prepared at
        by (auto simp: try_auth_def Let_def dest!: mark_trace final_trace
            split: prod.splits option.splits if_splits sum.splits)
      then show ?thesis using t1 t2 by (intro exI [of _ "[EvAttempt (auth_ID a)]"]) (simp add: one_turn_def)
    next
      case (AttemptResponse resp)
      then have "after_response r a (sel\<lparr>sel_Auth := a\<rparr>) resp agg p2 = (x, p')"
        using assms prep Prepared at by (simp add: try_auth_def Let_def)
      from after_response_trace [OF this] obtain i where
        "trace p' = trace p2 \<or> r_replayable r \<and> trace p' = trace p2 @ [EvAttempt i]"
        "\<not> r_replayable r \<Longrightarrow> \<exists>w. x = Stop w" by blast
      then show ?thesis
        using t1 t2
        by (elim disjE; intro exI [of _ "drop (length (trace p)) (trace p')"]) (simp_all add: one_turn_def)
    qed
  qed
qed


section \<open>One round\<close>

definition sessionless :: "upstream_request \<Rightarrow> bool" where
  "sessionless r \<longleftrightarrow> sessionAffinityDigestsForRequest (r_lib r) (r_authorization r) (r_signals r) = []"

lemma go_rem_range: 
  assumes "0 < b" "0 \<le> go_rem a b"
  shows "go_rem a b < b"
proof -
  define x where "x = (- a) mod b"
  have "0 \<le> x" "a mod b < b" using assms(1) by (simp_all add: x_def)
  with assms show ?thesis unfolding go_rem_def x_def [symmetric] by (auto split: if_splits)
qed

lemma nextAuth_mem: "nextAuth auths s = (Some a, s') \<Longrightarrow> auths \<noteq> [] \<Longrightarrow> a \<in> set auths"
proof -
  assume "nextAuth auths s = (Some a, s')" and ne: "auths \<noteq> []"
  then have idx: "0 \<le> go_rem (sint (next_turn s)) (int (length auths))"
    and a: "a = auths ! nat (go_rem (sint (next_turn s)) (int (length auths)))"
    by (auto simp: nextAuth_def Let_def split: if_splits)
  have "0 < int (length auths)" using ne by simp
  from go_rem_range [OF this idx] idx have "nat (go_rem (sint (next_turn s)) (int (length auths))) < length auths"
    by linarith
  then show "a \<in> set auths" unfolding a by (rule nth_mem)
qed

lemma on_srv_next_mem: "on_srv (nextAuth auths) p = (Some a, p') \<Longrightarrow> auths \<noteq> [] \<Longrightarrow> a \<in> set auths"
  by (auto simp: on_srv_def dest: nextAuth_mem split: prod.splits)

lemma eligible_mem:
  "a \<in> set (eligible_auths s model tried (Some allowed) active) \<longleftrightarrow>
     a \<in> set active \<and> auth_ID a \<in> set allowed \<and> auth_ID a \<notin> set tried \<and> Blocked (registry s) (now_of s) a model = None"
  by (auto simp: eligible_auths_def)

lemma select_sessionless:
  assumes "selectProxyAuthCandidate r model tried (Some allowed) held p = (Inr sel, p')" "sessionless r"
  shows "auth_ID (sel_Auth sel) \<in> set allowed - set tried"
  using assms
  by (auto simp: selectProxyAuthCandidate_def sessionless_def Let_def eligible_mem
      dest!: on_srv_next_mem split: prod.splits sum.splits option.splits if_splits)

lemma repair_attempt_fuel: "repair_attempt r a agg p = (x, p') \<Longrightarrow> x \<noteq> RepairFailed OutOfFuel"
  by (auto simp: repair_attempt_def Let_def split: prod.splits attempt_turn.splits option.splits if_splits)

lemma repair_fuel: "repairUnauthorized r a agg p = (x, p') \<Longrightarrow> x \<noteq> RepairFailed OutOfFuel"
  by (auto simp: repairUnauthorized_def Let_def dest: repair_attempt_fuel
      split: prod.splits sum.splits option.splits if_splits)

lemma after_response_fuel: "after_response r a sel resp agg p = (x, p') \<Longrightarrow> x \<noteq> Stop OutOfFuel"
  by (auto simp: after_response_def Let_def dest: repair_fuel
      split: prod.splits repair.splits option.splits if_splits)

lemma try_auth_fuel:
  assumes "try_auth r allowed sel agg p = (x, p')"
  shows "x \<noteq> Stop OutOfFuel"
proof -
  obtain y p1 where prep: "prepareAuth (r_lib r) (r_tokens r) (sel_Auth sel) p = (y, p1)" by (metis surj_pair)
  show ?thesis
  proof (cases y)
    case (PrepareFailed e d)
    with assms prep show ?thesis by (auto simp: try_auth_def Let_def split: prod.splits option.splits if_splits)
  next
    case (Prepared a)
    obtain z p2 where at: "attempt a p1 = (z, p2)" by (metis surj_pair)
    show ?thesis
    proof (cases z)
      case (AttemptFailed d)
      with assms prep Prepared at show ?thesis
        by (auto simp: try_auth_def Let_def split: prod.splits option.splits if_splits sum.splits)
    next
      case (AttemptResponse resp)
      with assms prep Prepared at show ?thesis
        by (auto simp: try_auth_def Let_def dest: after_response_fuel)
    qed
  qed
qed

definition round_events :: "upstream_request \<Rightarrow> string list \<Rightarrow> string list \<Rightarrow> proxy_event list \<Rightarrow> bool" where
  "round_events r allowed tried evs \<longleftrightarrow>
     pause_lengths evs = [] \<and> length (attempt_ids evs) \<le> 2 * length (selected_ids evs) \<and>
     (\<not> r_replayable r \<longrightarrow> length (attempt_ids evs) \<le> 1) \<and>
     (0 < MaxRetryCredentials (r_config r) \<longrightarrow>
        int (length tried + length (selected_ids evs)) \<le> max (int (length tried)) (MaxRetryCredentials (r_config r))) \<and>
     (sessionless r \<longrightarrow> distinct (selected_ids evs) \<and> set (selected_ids evs) \<subseteq> set allowed - set tried)"

definition enough_fuel :: "nat \<Rightarrow> upstream_request \<Rightarrow> string list \<Rightarrow> string list \<Rightarrow> bool" where
  "enough_fuel fuel r allowed tried \<longleftrightarrow>
     sessionless r \<and> card (set allowed - set tried) < fuel \<or>
     0 < MaxRetryCredentials (r_config r) \<and> nat (MaxRetryCredentials (r_config r)) - length tried < fuel"

lemma round_nil: "round_events r allowed tried []"
  by (simp add: round_events_def)

lemma round_cons:
  assumes "one_turn r (GoOn agg) evs" "round_events r allowed (i # tried) evs'"
    and "0 < MaxRetryCredentials (r_config r) \<longrightarrow> int (length tried) < MaxRetryCredentials (r_config r)"
    and "sessionless r \<longrightarrow> i \<in> set allowed - set tried"
  shows "round_events r allowed tried (EvSelected i # evs @ evs')"
  using assms unfolding round_events_def one_turn_def
  by (intro conjI impI) auto

lemma round_last:
  assumes "one_turn r x evs"
    and "0 < MaxRetryCredentials (r_config r) \<longrightarrow> int (length tried) < MaxRetryCredentials (r_config r)"
    and "sessionless r \<longrightarrow> i \<in> set allowed - set tried"
  shows "round_events r allowed tried (EvSelected i # evs)"
  using assms unfolding round_events_def one_turn_def by auto

lemma less_fuel:
  assumes "enough_fuel (Suc fuel) r allowed tried" "sessionless r \<longrightarrow> i \<in> set allowed - set tried"
    and "0 < MaxRetryCredentials (r_config r) \<longrightarrow> int (length tried) < MaxRetryCredentials (r_config r)"
  shows "enough_fuel fuel r allowed (i # tried)"
proof (cases "sessionless r \<and> card (set allowed - set tried) < Suc fuel")
  case True
  then have "card ((set allowed - set tried) - {i}) < card (set allowed - set tried)"
    using assms(2) by (intro card_Diff1_less) auto
  then have "card ((set allowed - set tried) - {i}) < fuel" using True by linarith
  moreover have "set allowed - set (i # tried) = (set allowed - set tried) - {i}" by auto
  ultimately have "card (set allowed - set (i # tried)) < fuel" by (simp only:)
  with True show ?thesis by (simp add: enough_fuel_def)
next
  case False
  with assms(1) have "0 < MaxRetryCredentials (r_config r)"
    and "nat (MaxRetryCredentials (r_config r)) - length tried < Suc fuel"
    unfolding enough_fuel_def by blast+
  with assms(3) have "nat (MaxRetryCredentials (r_config r)) - length (i # tried) < fuel" by simp
  with \<open>0 < MaxRetryCredentials (r_config r)\<close> show ?thesis unfolding enough_fuel_def by blast
qed

lemma round_loop_events:
  assumes "round_loop fuel r allowed tried held agg p = (x, p')"
  shows "(\<exists>evs. trace p' = trace p @ evs \<and> round_events r allowed tried evs \<and>
            (\<not> r_replayable r \<longrightarrow> attempt_ids evs \<noteq> [] \<longrightarrow> (\<exists>y. x = RoundStop y))) \<and>
         (enough_fuel fuel r allowed tried \<longrightarrow> x \<noteq> RoundStop OutOfFuel)"
  using assms
proof (induction fuel arbitrary: tried held agg p)
  case 0
  then show ?case using round_nil [of r allowed tried] by (auto simp: enough_fuel_def intro!: exI [of _ "[]"])
next
  case (Suc fuel)
  let ?M = "MaxRetryCredentials (r_config r)"
  show ?case
  proof (cases "?M > 0 \<and> int (length tried) \<ge> ?M")
    case True
    with Suc.prems round_nil show ?thesis by (auto intro!: exI [of _ "[]"])
  next
    case False
    obtain y p1 where sel: "selectProxyAuthCandidate r (r_model r) tried (Some allowed) held p = (y, p1)"
      by (metis surj_pair)
    note t1 = select_trace [OF sel]
    show ?thesis
    proof (cases y)
      case (Inl e)
      with Suc.prems False sel t1 round_nil show ?thesis
        by (cases e) (auto simp: Let_def intro!: exI [of _ "[]"])
    next
      case (Inr s)
      let ?i = "auth_ID (sel_Auth s)"
      obtain z p2 where turn: "try_auth r allowed s agg (emit (EvSelected ?i) p1) = (z, p2)" by (metis surj_pair)
      from try_auth_trace [OF turn] t1 obtain evs where
        evs: "trace p2 = trace p @ EvSelected ?i # evs" "one_turn r z evs" by (auto simp: emit_def)
      have M: "0 < ?M \<longrightarrow> int (length tried) < ?M" using False by auto
      have i: "sessionless r \<longrightarrow> ?i \<in> set allowed - set tried"
        using select_sessionless [OF sel [unfolded Inr]] by blast
      show ?thesis
      proof (cases z)
        case (Stop w)
        have "w \<noteq> OutOfFuel" using try_auth_fuel [OF turn] Stop by simp
        moreover have "x = RoundStop w" "p' = p2" using Suc.prems False sel Inr turn Stop by (auto simp: Let_def)
        ultimately show ?thesis using evs round_last [OF evs(2) M i] by auto
      next
        case (GoOn agg')
        have rest: "round_loop fuel r allowed (?i # tried) (sel_Binding s) agg' p2 = (x, p')"
          using Suc.prems False sel Inr turn GoOn by (auto simp: Let_def)
        have ih: "(\<exists>evs'. trace p' = trace p2 @ evs' \<and> round_events r allowed (?i # tried) evs' \<and>
            (\<not> r_replayable r \<longrightarrow> attempt_ids evs' \<noteq> [] \<longrightarrow> (\<exists>y. x = RoundStop y))) \<and>
            (enough_fuel fuel r allowed (?i # tried) \<longrightarrow> x \<noteq> RoundStop OutOfFuel)"
          by (rule Suc.IH [OF rest])
        then obtain evs' where evs': "trace p' = trace p2 @ evs'" "round_events r allowed (?i # tried) evs'"
          "\<not> r_replayable r \<Longrightarrow> attempt_ids evs' \<noteq> [] \<Longrightarrow> \<exists>y. x = RoundStop y" by blast
        have "attempt_ids evs = []" if "\<not> r_replayable r" using evs(2) GoOn that by (auto simp: one_turn_def)
        then show ?thesis
          using evs evs' ih less_fuel [OF _ i M] round_cons [OF evs(2) [unfolded GoOn] evs'(2) M i]
          by (intro conjI exI [of _ "EvSelected ?i # evs @ evs'"]) auto
      qed
    qed
  qed
qed


section \<open>All rounds\<close>

definition max_wait :: "upstream_request \<Rightarrow> duration" where
  "max_wait r = wrap64 (MaxRetryInterval (r_config r) * second)"

definition request_events :: "upstream_request \<Rightarrow> nat \<Rightarrow> string list \<Rightarrow> proxy_event list \<Rightarrow> bool" where
  "request_events r left allowed evs \<longleftrightarrow>
     length (pause_lengths evs) \<le> left \<and> (\<forall>d\<in>set (pause_lengths evs). 0 \<le> d \<and> d \<le> max_wait r) \<and>
     length (attempt_ids evs) \<le> 2 * length (selected_ids evs) \<and>
     (\<not> r_replayable r \<longrightarrow> pause_lengths evs = [] \<and> length (attempt_ids evs) \<le> 1) \<and>
     (0 < MaxRetryCredentials (r_config r) \<longrightarrow>
        length (selected_ids evs) \<le> Suc left * nat (MaxRetryCredentials (r_config r))) \<and>
     (sessionless r \<longrightarrow>
        length (selected_ids evs) \<le> Suc left * card (set allowed) \<and> set (selected_ids evs) \<subseteq> set allowed)"

lemma request_one_round:
  assumes "round_events r allowed [] evs"
  shows "request_events r left allowed evs"
proof -
  have "length (selected_ids evs) \<le> card (set allowed)" if "sessionless r"
    using assms that card_mono [of "set allowed" "set (selected_ids evs)"]
    by (auto simp: round_events_def distinct_card)
  moreover have "length (selected_ids evs) \<le> nat (MaxRetryCredentials (r_config r))" if "0 < MaxRetryCredentials (r_config r)"
    using assms that by (simp add: round_events_def le_nat_iff)
  moreover have "n \<le> Suc left * m" if "n \<le> m" for n m :: nat using that by (simp add: trans_le_add1)
  ultimately show ?thesis using assms
    by (simp add: request_events_def round_events_def trans_le_add1)
qed

lemma request_more_rounds:
  assumes "round_events r allowed [] evs" "request_events r left allowed evs'" "0 \<le> d" "d \<le> max_wait r" "r_replayable r"
  shows "request_events r (Suc left) allowed (evs @ EvPause d # evs')"
proof -
  have "request_events r 0 allowed evs" by (rule request_one_round [OF assms(1)])
  with assms show ?thesis
    by (auto simp: request_events_def round_events_def)
qed

lemma wait_trace: "wait_retry d p = (x, p') \<Longrightarrow> trace p' = trace p @ [EvPause d]"
  by (auto simp: wait_retry_def emit_def Let_def split: list.splits prod.splits)

lemma pause_trace:
  assumes "retry_pause r allowed agg p = (x, p')"
  shows "trace p' = trace p" "x = Inr (Some d) \<Longrightarrow> 0 \<le> d \<and> d \<le> max_wait r"
  using assms
  by (auto simp: retry_pause_def max_wait_def Let_def dest!: on_srv_traceD split: prod.splits sum.splits if_splits)

lemma retry_rounds_events:
  assumes "retry_rounds left fuel r allowed held agg p = (x, p')"
  shows "(\<exists>evs. trace p' = trace p @ evs \<and> request_events r left allowed evs) \<and>
    (enough_fuel fuel r allowed [] \<longrightarrow> x \<noteq> OutOfFuel)"
  using assms
proof (induction left arbitrary: held agg p)
  case 0
  obtain y p1 where rl: "round_loop fuel r allowed [] held agg p = (y, p1)" by (metis surj_pair)
  from round_loop_events [OF rl] obtain evs where
    evs: "trace p1 = trace p @ evs" "round_events r allowed [] evs"
    and fuel: "enough_fuel fuel r allowed [] \<longrightarrow> y \<noteq> RoundStop OutOfFuel" by blast
  have "trace p' = trace p1" "x = OutOfFuel \<longrightarrow> y = RoundStop OutOfFuel"
    using 0 rl by (auto simp: retry_rounds.simps Let_def dest!: final_trace split: round.splits prod.splits sum.splits)
  with evs fuel request_one_round [OF evs(2)] show ?case by auto
next
  case (Suc left)
  obtain y p1 where rl: "round_loop fuel r allowed [] held agg p = (y, p1)" by (metis surj_pair)
  from round_loop_events [OF rl] obtain evs where
    evs: "trace p1 = trace p @ evs" "round_events r allowed [] evs"
    and fuel: "enough_fuel fuel r allowed [] \<longrightarrow> y \<noteq> RoundStop OutOfFuel" by blast
  show ?case
  proof (cases "trace p' = trace p1 \<and> (x = OutOfFuel \<longrightarrow> y = RoundStop OutOfFuel)")
    case True
    with evs fuel request_one_round [OF evs(2)] show ?thesis by auto
  next
    case more: False
    obtain agg' held' where y: "y = RoundOver agg' held'"
      using more Suc.prems rl by (cases y) (auto simp: retry_rounds.simps)
    obtain z p2 where rp: "retry_pause r allowed agg' p1 = (z, p2)" by (metis surj_pair)
    note t2 = pause_trace [OF rp]
    obtain d where d: "z = Inr (Some d)" "r_replayable r"
      using more Suc.prems rl y rp t2(1)
      by (auto simp: retry_rounds.simps Let_def dest!: final_trace
          split: sum.splits option.splits prod.splits if_splits)
    obtain w p3 where wr: "wait_retry d p2 = (w, p3)" by (metis surj_pair)
    note t3 = wait_trace [OF wr]
    note bound = t2(2) [OF d(1)]
    show ?thesis
    proof (cases w)
      case (Some e)
      then have "p' = p3" "x \<noteq> OutOfFuel" using more Suc.prems rl y rp d wr
        by (auto simp: retry_rounds.simps Let_def dest!: final_trace split: if_splits sum.splits prod.splits)
      moreover have "request_events r left allowed []" by (simp add: request_events_def)
      ultimately show ?thesis
        using evs t2(1) t3 request_more_rounds [OF evs(2) _ conjunct1 [OF bound] conjunct2 [OF bound] d(2)]
        by (intro conjI exI [of _ "evs @ [EvPause d]"]) auto
    next
      case None
      then have rest: "retry_rounds left fuel r allowed held' agg' p3 = (x, p')"
        using more Suc.prems rl y rp d wr
        by (auto simp: retry_rounds.simps [of "Suc left"] Let_def dest!: final_trace split: if_splits sum.splits prod.splits)
      from Suc.IH [OF rest] obtain evs' where
        evs': "trace p' = trace p3 @ evs'" "request_events r left allowed evs'"
        "enough_fuel fuel r allowed [] \<longrightarrow> x \<noteq> OutOfFuel" by blast
      then show ?thesis
        using evs t2(1) t3 request_more_rounds [OF evs(2) evs'(2) conjunct1 [OF bound] conjunct2 [OF bound] d(2)]
        by (intro conjI exI [of _ "evs @ EvPause d # evs'"]) auto
    qed
  qed
qed

end
