(* ===== verification/Server_Properties.thy ===== *)
theory Server_Properties
  imports Retry_Properties Affinity_Properties Catalog_Properties
begin

text \<open>
  What the server promises of one upstream request: it ends, within a budget of attempts and pauses, it
  only selects credentials that may serve it, and what it hands on; and two places where one part
  does not tell the others what it saw.
\<close>

section \<open>The whole request\<close>

lemma allowed_trace: "allowed_auths marshal embedded v r result p = (x, p') \<Longrightarrow> trace p' = trace p"
  by (auto simp: allowed_auths_def Let_def split: if_splits prod.splits)

lemma round_fuel_enough:
  assumes "sessionless r \<or> 0 < MaxRetryCredentials (r_config r)"
  shows "enough_fuel (round_fuel r allowed) r allowed []"
  using assms card_length [of allowed] by (auto simp: enough_fuel_def round_fuel_def)

lemma execute_obtain:
  assumes "executeUpstream marshal embedded v r p = (x, p')"
  obtains (early) "trace p' = trace p" "x \<noteq> OutOfFuel"
  | (rounds) allowed p1 where "trace p1 = trace p"
      "retry_rounds (rounds_left (RequestRetry (r_config r))) (round_fuel r allowed) r allowed no_binding [] p1 = (x, p')"
  using assms
  by (auto simp: executeUpstream_def dest!: on_srv_traceD allowed_trace split: prod.splits sum.splits option.splits)



text \<open>
  Within one round a request without a session never comes back to a credential: the credentials it
  selects are distinct, were not tried before, and are among the allowed ones, whatever happens between
  the selections.
\<close>

theorem round_selects_once:
  assumes "round_loop fuel r allowed tried held agg p = (x, p')" "sessionless r"
  shows "\<exists>evs. trace p' = trace p @ evs \<and> distinct (selected_ids evs) \<and>
    set (selected_ids evs) \<subseteq> set allowed - set tried"
  using round_loop_events [OF assms(1)] assms(2) by (auto simp: round_events_def)

section \<open>A server with two accounts\<close>

text \<open>A directory whose files hold an account and an access token of the same name.\<close>

definition dir_lib :: go_lib where
  "dir_lib = demo_lib\<lparr>unmarshal_object := (\<lambda>raw. Some [(''type'', JStr ''codex''), (''access_token'', JStr raw),
     (''account_id'', JStr raw)]),
     marshal_object := (\<lambda>m. case map_of m ''access_token'' of Some (JStr tok) \<Rightarrow> tok | _ \<Rightarrow> [])\<rparr>"

definition dir_file :: "string \<Rightarrow> walk_entry" where
  "dir_file x = \<lparr>we_path = x @ ''.json'', we_relative = x @ ''.json'', we_is_dir = False, we_content = Inr x\<rparr>"

definition demo_server :: "string list \<Rightarrow> server" where
  "demo_server xs = \<lparr>auth_files = NewFileAuthStore, disk = map dir_file xs, disk_end = WalkDone, next_turn = 0,
     registry = newAuthHealthRegistry, models = newRuntimeModelCatalog, store = (new_store (40 * second))\<lparr>nextAffinityCleanupAt := hour\<rparr>\<rparr>"

definition demo_proxy :: "string list \<Rightarrow> proxy" where
  "demo_proxy xs = \<lparr>srv = demo_server xs, turns = [], refreshes = [], pauses = [], races = [], trace = []\<rparr>"

definition demo_request :: "bool \<Rightarrow> upstream_request" where
  "demo_request replayable = \<lparr>r_lib = dir_lib, r_tokens = demo_token_lib,
     r_authorization = \<lparr>pa_UserID = Some ''u'', CompatibilityAuthID = []\<rparr>, r_signals = [], r_model = [],
     r_replayable = replayable, r_config = \<lparr>RequestRetry = 3, MaxRetryCredentials = 0, MaxRetryInterval = 30\<rparr>\<rparr>"

lemma demo_sessionless: "sessionless (demo_request b)"
  by (simp add: sessionless_def demo_request_def sessionAffinityDigestsForRequest_def digestSessionAffinitySignals_def)



theorem round_selects_once_witness:
  "\<exists>x p'. round_loop 3 (demo_request True) [''account:a'', ''account:x''] [''account:x''] no_binding []
      (demo_proxy [''a'', ''x'']) = (x, p') \<and>
    set (selected_ids (trace p')) \<subseteq> {''account:a''} \<and> distinct (selected_ids (trace p'))"
proof -
  obtain x p' where run: "round_loop 3 (demo_request True) [''account:a'', ''account:x''] [''account:x''] no_binding []
      (demo_proxy [''a'', ''x'']) = (x, p')" by (metis surj_pair)
  from round_selects_once [OF run demo_sessionless] run show ?thesis by (auto simp: demo_proxy_def)
qed


section \<open>What is selected\<close>

lemma byID_mem: "map_of (authsByStableID as) i = Some a \<Longrightarrow> a \<in> set as"
proof (induction as rule: rev_induct)
  case (snoc b as)
  then show ?case by (auto simp: authsByStableID_def update_conv split: if_splits)
qed (simp add: authsByStableID_def)

lemma bound_mem: "bound_auth active b p = (Inr sel, p') \<Longrightarrow> sel_Auth sel \<in> set active"
  by (auto simp: bound_auth_def dest: byID_mem split: option.splits)

lemma rebind_again_mem: "rebind_again active eligible b p = (Inr sel, p') \<Longrightarrow> sel_Auth sel \<in> set active"
  by (auto simp: rebind_again_def Let_def dest: bound_mem split: if_splits prod.splits sum.splits option.splits)

lemma pick_mem:
  assumes "pick_auth lib scope digests active eligible held p = (Inr sel, p')" "set eligible \<subseteq> set active"
  shows "sel_Auth sel \<in> set active"
proof -
  define found where "found = (if binding_valid held then (Inr (Some held), p)
      else on_srv (on_store (lookupSessionAffinity (sessionAffinityTenantScopeDigest lib scope) digests)) p)"
  obtain y p1 where y: "found = (y, p1)" by (metis surj_pair)
  show ?thesis
    using assms y
    by (auto simp: pick_auth_def found_def [symmetric] dest: bound_mem rebind_again_mem byID_mem
        split: sum.splits option.splits prod.splits if_splits)
qed

lemma reconcile_active:
  "reconcile lib now g walked ending s = (Inr result, fs) \<Longrightarrow> Active result = filter (\<lambda>a. \<not> Disabled a) (Auths result)"
  by (auto simp: reconcile_def Let_def split: walk_end.splits prod.splits)

lemma reconcileAuths_scan:
  assumes "on_srv (reconcileAuths lib) p = (Inr result, p')"
  shows "\<exists>fs. reconcile lib (now_of (srv p)) 0 (disk (srv p)) (disk_end (srv p)) (auth_files (srv p)) = (Inr result, fs)"
  using assms
  by (auto simp: on_srv_def reconcileAuths_def store_reconcile_def Let_def
      split: prod.splits sum.splits option.splits if_splits)

lemma next_keeps:
  assumes "on_srv (nextAuth auths) p = (x, p')"
  shows "registry (srv p') = registry (srv p) \<and> store (srv p') = store (srv p)"
  using assms by (auto simp: on_srv_def nextAuth_def Let_def)


section \<open>What is handed on\<close>

lemma class_none: "f_Kind (fst (classifyUpstreamResponse lib (Some resp) model now)) = upstreamFailureNone \<longleftrightarrow>
    resp_StatusCode resp < 400"
  by (auto simp: classifyUpstreamResponse_def Let_def no_failure_def split: prod.split if_splits)

lemma class_scoped: "f_Kind (fst (classifyUpstreamResponse lib (Some resp) model now)) = upstreamFailureRequestScoped \<Longrightarrow>
    400 \<le> resp_StatusCode resp \<and> resp_StatusCode resp < 500 \<and> resp_StatusCode resp \<notin> {401, 408, 429} \<and>
    (\<exists>body. body = fst (inspectResponseBody resp) \<and>
       \<not> isModelUnsupportedFailure (resp_StatusCode resp) model (parseUpstreamErrorInfo lib body) body)"
  by (auto simp: classifyUpstreamResponse_def Let_def no_failure_def split: prod.splits if_splits)

text \<open>An execution may hand on a response only when \<open>final_response\<close> holds of it.\<close>

definition final_response :: "upstream_request \<Rightarrow> execution \<Rightarrow> bool" where
  "final_response r x \<longleftrightarrow>
     (\<forall>resp a sel. x = ExecResponse resp a sel \<longrightarrow>
        resp_StatusCode resp < 400 \<or>
        resp_StatusCode resp < 500 \<and> resp_StatusCode resp \<notin> {401, 408, 429} \<and>
        \<not> isModelUnsupportedFailure (resp_StatusCode resp) (r_model r)
            (parseUpstreamErrorInfo (r_lib r) (fst (inspectResponseBody resp))) (fst (inspectResponseBody resp)))"

lemma final_response_simps [simp]:
  "final_response r (ExecFinal fe)" "final_response r (ExecNetwork fe a)" "final_response r (ExecError e)"
  "final_response r (ExecSelect s)" "final_response r ExecCanceled" "final_response r OutOfFuel"
  by (simp_all add: final_response_def)

lemma final_of_class:
  assumes "f_Kind (fst (classifyUpstreamResponse (r_lib r) (Some resp) (r_model r) now)) \<in>
      {upstreamFailureNone, upstreamFailureRequestScoped}"
  shows "final_response r (ExecResponse resp a sel)"
  using assms class_none [of "r_lib r" resp "r_model r" now] class_scoped [of "r_lib r" resp "r_model r" now]
  by (auto simp: final_response_def)

lemma repair_attempt_final:
  "repair_attempt r a agg p = (Repaired resp b, p') \<Longrightarrow> final_response r (ExecResponse resp c sel)"
  by (auto simp: repair_attempt_def Let_def intro: final_of_class
      split: prod.splits attempt_turn.splits option.splits if_splits)

lemma repair_attempt_failed:
  "repair_attempt r a agg p = (RepairFailed x, p') \<Longrightarrow> final_response r x"
  by (auto simp: repair_attempt_def Let_def split: prod.splits attempt_turn.splits option.splits if_splits)

lemma repair_final:
  assumes "repairUnauthorized r a agg p = (y, p')"
  shows "y = Repaired resp b \<Longrightarrow> final_response r (ExecResponse resp c sel)" "y = RepairFailed x \<Longrightarrow> final_response r x"
  using assms
  by (auto simp: repairUnauthorized_def Let_def dest: repair_attempt_final repair_attempt_failed
      split: prod.splits sum.splits option.splits if_splits)

lemma after_response_final:
  assumes "after_response r a sel resp agg p = (Stop x, p')" "r_replayable r"
  shows "final_response r x"
proof -
  define f where "f = fst (classifyUpstreamResponse (r_lib r) (Some resp) (r_model r) (now_of (srv p)))"
  note run = assms(1) [unfolded after_response_def Let_def f_def [symmetric]]
  have pass: "final_response r (ExecResponse resp a sel)"
    if "f_Kind f = upstreamFailureNone \<or> f_Kind f = upstreamFailureRequestScoped"
    using that final_of_class [of r resp "now_of (srv p)"] by (auto simp: f_def)
  show ?thesis
  proof (cases "f_Kind f = upstreamFailureUnauthorized")
    case True
    with run assms(2) show ?thesis
      by (auto dest: repair_final split: prod.splits repair.splits)
  next
    case False
    with run assms(2) pass show ?thesis
      by (auto split: prod.splits option.splits if_splits)
  qed
qed

lemma try_auth_final:
  assumes "try_auth r allowed sel agg p = (Stop x, p')" "r_replayable r"
  shows "final_response r x"
proof -
  obtain y p1 where prep: "prepareAuth (r_lib r) (r_tokens r) (sel_Auth sel) p = (y, p1)" by (metis surj_pair)
  show ?thesis
  proof (cases y)
    case (PrepareFailed e d)
    with assms prep show ?thesis by (auto simp: try_auth_def Let_def split: prod.splits option.splits if_splits)
  next
    case (Prepared a)
    obtain z p2 where at: "attempt a p1 = (z, p2)" by (metis surj_pair)
    show ?thesis
    proof (cases z)
      case (AttemptFailed d)
      with assms prep Prepared at show ?thesis
        by (auto simp: try_auth_def Let_def split: prod.splits option.splits if_splits sum.splits)
    next
      case (AttemptResponse resp)
      with assms prep Prepared at show ?thesis
        by (auto simp: try_auth_def Let_def dest: after_response_final)
    qed
  qed
qed

lemma round_loop_final:
  "round_loop fuel r allowed tried held agg p = (RoundStop x, p') \<Longrightarrow> r_replayable r \<Longrightarrow> final_response r x"
proof (induction fuel arbitrary: tried held agg p)
  case (Suc fuel)
  then show ?case
    by (auto simp: Let_def dest: try_auth_final split: if_splits prod.splits sum.splits select_failure.splits turn.splits)
qed auto

lemma retry_rounds_final:
  "r_replayable r \<Longrightarrow> final_response r (fst (retry_rounds left fuel r allowed held agg p))"
proof (induction left arbitrary: held agg p)
  case 0
  then show ?case
    by (auto simp: retry_rounds.simps Let_def dest: round_loop_final split: prod.split round.split sum.split)
next
  case (Suc left)
  then show ?case
    by (auto simp: retry_rounds.simps [of "Suc left"] Let_def dest: round_loop_final
        split: prod.split round.split sum.split option.split)
qed

text \<open>
  C4: A request that may be replayed is never answered with a response another credential might have
  avoided: whatever is handed on is a success, or a client error that is not 401, 408 or 429 and does
  not say that the model is unsupported.
\<close>

theorem handed_on_response:
  assumes "executeUpstream marshal embedded v r p = (ExecResponse resp a sel, p')" "r_replayable r"
  shows "resp_StatusCode resp < 400 \<or>
    resp_StatusCode resp < 500 \<and> resp_StatusCode resp \<notin> {401, 408, 429} \<and>
    \<not> isModelUnsupportedFailure (resp_StatusCode resp) (r_model r)
        (parseUpstreamErrorInfo (r_lib r) (fst (inspectResponseBody resp))) (fst (inspectResponseBody resp))"
proof -
  have "final_response r (ExecResponse resp a sel)"
    using assms(1) retry_rounds_final [OF assms(2)]
    by (auto simp: executeUpstream_def split: prod.splits sum.splits option.splits) (metis fst_conv)+
  then show ?thesis by (simp add: final_response_def)
qed


section \<open>Concrete runs\<close>

definition dir_auth :: Auth where
  "dir_auth = \<lparr>auth_ID = ''account:a'', Path = ''a.json'', Email = [], AccountID = ''a'', AccessToken = ''a'',
     RefreshToken = [], IDToken = [], ExpiresAt = 0,
     Metadata = [(''type'', JStr ''codex''), (''access_token'', JStr ''a''), (''account_id'', JStr ''a'')],
     Disabled = False, SourcePaths = [''a.json''], codexCLI = False, relativePath = ''a.json'', sourceIDs = [''a.json'']\<rparr>"

definition dir_store :: FileAuthStore where
  "dir_store = \<lparr>store_files = [(''a.json'', \<lparr>state_auth = dir_auth, parseErrorSince = 0\<rparr>)],
     store_auths = [(''account:a'', dir_auth)], initialized = True\<rparr>"

lemma dir_claims [simp]: "tokenIdentityClaims dir_lib tok = \<lparr>claim_AccountID = [], claim_Email = []\<rparr>" "tokenExpiry dir_lib tok = 0"
  by (simp_all add: tokenIdentityClaims_def tokenExpiry_def decodeJWTClaims_def dir_lib_def demo_lib_def split: list.split)

lemma dir_read: "readAuthFile dir_lib ''a.json'' ''a.json'' (Inr ''a'') = ReadAuth dir_auth"
proof -
  have "unmarshal_object dir_lib ''a'' = Some [(''type'', JStr ''codex''), (''access_token'', JStr ''a''), (''account_id'', JStr ''a'')]"
    by (simp add: dir_lib_def)
  then show ?thesis
    by (simp add: readAuthFile_def auth_of_meta_def parsed_auth_def Let_def dir_auth_def token_field_def mapField_def
        stringField.simps timeField.simps boolField_def access_keys_def account_keys_def refresh_keys_def id_keys_def
        expiry_keys_def stableAuthID_def equal_fold_def)
qed

lemma dir_scan:
  "reconcile dir_lib t 0 [dir_file ''a''] WalkDone NewFileAuthStore
   = (Inr \<lparr>Auths = [dir_auth], Active = [dir_auth], Changes = [], FileProblems = []\<rparr>, dir_store)"
proof -
  have json: "is_auth_file (dir_file ''a'')" by (simp add: is_auth_file_def dir_file_def ascii_lower_def is_upper_def suffix_def)
  have walk: "walk_file dir_lib t (parse_error_grace 0) [] (dir_file ''a'') ([], [], [])
      = ([(''a.json'', \<lparr>state_auth = dir_auth, parseErrorSince = 0\<rparr>)], [(''a.json'', dir_auth)], [])"
    using json dir_read by (simp add: walk_file_def dir_file_def Let_def) (simp add: dir_auth_def)
  have grp: "groupAuthFiles [(''a.json'', dir_auth)] = [dir_auth]"
    by (simp add: groupAuthFiles_def group_auth_def Let_def) (simp add: dir_auth_def)
  show ?thesis
    by (simp add: reconcile_def NewFileAuthStore_def walk grp dir_store_def reconcileAuthChanges_def auth_change_def Let_def)
      (simp add: dir_auth_def)
qed


lemma dir_rescan:
  "reconcile dir_lib t 0 [dir_file ''a''] WalkDone dir_store
   = (Inr \<lparr>Auths = [dir_auth], Active = [dir_auth], Changes = [], FileProblems = []\<rparr>, dir_store)"
proof -
  have json: "is_auth_file (dir_file ''a'')" by (simp add: is_auth_file_def dir_file_def ascii_lower_def is_upper_def suffix_def)
  have walk: "walk_file dir_lib t (parse_error_grace 0) [(''a.json'', \<lparr>state_auth = dir_auth, parseErrorSince = 0\<rparr>)]
        (dir_file ''a'') ([], [], [])
      = ([(''a.json'', \<lparr>state_auth = dir_auth, parseErrorSince = 0\<rparr>)], [(''a.json'', dir_auth)], [])"
    using json dir_read by (simp add: walk_file_def dir_file_def Let_def) (simp add: dir_auth_def)
  have grp: "groupAuthFiles [(''a.json'', dir_auth)] = [dir_auth]"
    by (simp add: groupAuthFiles_def group_auth_def Let_def) (simp add: dir_auth_def)
  have id: "auth_ID dir_auth = ''account:a''" "\<not> Disabled dir_auth" by (simp_all add: dir_auth_def)
  show ?thesis
    by (simp add: reconcile_def dir_store_def walk grp reconcileAuthChanges_def id Let_def)
qed

definition one_server :: "FileAuthStore \<Rightarrow> server" where
  "one_server fs = (demo_server [''a''])\<lparr>auth_files := fs\<rparr>"

definition demo_result :: AuthReconcileResult where
  "demo_result = \<lparr>Auths = [dir_auth], Active = [dir_auth], Changes = [], FileProblems = []\<rparr>"

lemma one_reconcile:
  assumes "fs = NewFileAuthStore \<or> fs = dir_store"
  shows "reconcileAuths dir_lib (one_server fs) = (Inr demo_result, one_server dir_store)"
  using assms dir_scan dir_rescan
  by (auto simp: reconcileAuths_def store_reconcile_def one_server_def demo_server_def on_health_def Reconcile_def
      PruneExpired_def newAuthHealthRegistry_def catalog_Reconcile_def newRuntimeModelCatalog_def demo_result_def)

lemma one_select:
  "selectProxyAuthCandidate (demo_request b) [] tried (Some [''account:a'']) held
      ((demo_proxy [])\<lparr>srv := one_server dir_store, turns := ts\<rparr>)
   = (if ''account:a'' \<in> set tried then (Inl NoEligible, (demo_proxy [])\<lparr>srv := one_server dir_store,
        turns := ts\<rparr>)
      else (Inr \<lparr>sel_Auth = dir_auth, sel_Binding = no_binding\<rparr>, (demo_proxy [])\<lparr>srv := (one_server dir_store)\<lparr>next_turn := 1\<rparr>, turns := ts\<rparr>))"
proof -
  have rec: "reconcileAuths dir_lib (one_server dir_store) = (Inr demo_result, one_server dir_store)"
    by (rule one_reconcile) simp
  have prune: "on_health PruneExpired (one_server dir_store) = (None, one_server dir_store)"
    by (simp add: on_health_def PruneExpired_def one_server_def demo_server_def newAuthHealthRegistry_def)
  have clean: "on_store maybeCleanupExpiredSessionAffinity (one_server dir_store) = (Inr (), one_server dir_store)"
    by (simp add: on_store_def maybeCleanupExpiredSessionAffinity_def one_server_def demo_server_def new_store_def go_time)
  have id: "auth_ID dir_auth = ''account:a''" by (simp add: dir_auth_def)
  have s: "registry (one_server dir_store) = newAuthHealthRegistry" "next_turn (one_server dir_store) = 0"
    by (simp_all add: one_server_def demo_server_def)
  have open_auth: "Blocked newAuthHealthRegistry t dir_auth [] = None" for t
    by (simp add: Blocked_def State_def newAuthHealthRegistry_def exclusions_of_def normalizeModelIdentifier_def trim_blanks_def)
  have "digestSessionAffinitySignals dir_lib x [] = []" for x by (simp add: digestSessionAffinitySignals_def)
  then show ?thesis
    by (simp add: selectProxyAuthCandidate_def demo_request_def on_srv_def rec prune clean demo_proxy_def
      demo_result_def eligible_auths_def id s open_auth sessionAffinityDigestsForRequest_def nextAuth_def go_rem_def)
qed


lemma demo_no_limit: "MaxRetryCredentials (r_config (demo_request b)) = 0" "r_model (demo_request b) = []"
  by (simp_all add: demo_request_def)

lemma demo_proxy_turns: "turns (emit ev ((demo_proxy [])\<lparr>srv := s, turns := ts\<rparr>)) = ts"
  by (simp add: emit_def)

theorem handed_on_response_witness:
  "\<exists>p'. executeUpstream (\<lambda>m. []) [] [] (demo_request True)
         ((demo_proxy [])\<lparr>srv := one_server NewFileAuthStore,
             turns := [(AttemptResponse \<lparr>resp_StatusCode = 404, resp_RetryAfter = [], resp_Body = None\<rparr>, \<lambda>s. s)]\<rparr>)
       = (ExecResponse \<lparr>resp_StatusCode = 404, resp_RetryAfter = [], resp_Body = None\<rparr> dir_auth
            \<lparr>sel_Auth = dir_auth, sel_Binding = no_binding\<rparr>, p') \<and>
     \<not> isModelUnsupportedFailure 404 [] (parseUpstreamErrorInfo dir_lib []) []"
proof -
  let ?resp = "\<lparr>resp_StatusCode = 404, resp_RetryAfter = [], resp_Body = None\<rparr>"
  let ?p = "(demo_proxy [])\<lparr>srv := one_server dir_store, turns := [(AttemptResponse ?resp, \<lambda>s. s)]\<rparr>"
  let ?sel = "\<lparr>sel_Auth = dir_auth, sel_Binding = no_binding\<rparr>"
  have model: "normalizeModelIdentifier [] = None" by (simp add: normalizeModelIdentifier_def trim_blanks_def)
  have id: "auth_ID dir_auth = ''account:a''" by (simp add: dir_auth_def)
  have start: "executeUpstream (\<lambda>m. []) [] [] (demo_request True)
         ((demo_proxy [])\<lparr>srv := one_server NewFileAuthStore, turns := [(AttemptResponse ?resp, \<lambda>s. s)]\<rparr>)
      = retry_rounds 3 2 (demo_request True) [''account:a''] no_binding [] ?p"
    using one_reconcile [of NewFileAuthStore]
    by (simp add: executeUpstream_def on_srv_def demo_request_def demo_proxy_def allowed_auths_def model demo_result_def
        id rounds_left_def round_fuel_def numeral_2_eq_2)
  have err: "f_Kind (fst (classifyUpstreamResponse dir_lib (Some ?resp) [] t)) = upstreamFailureRequestScoped" for t
    by (simp add: classifyUpstreamResponse_def inspectResponseBody_def Let_def isModelUnsupportedFailure_def model no_failure_def)
  have a: "\<not> Expired dir_auth t" "AccessToken dir_auth = ''a''" for t by (simp_all add: Expired_def dir_auth_def)
  have one: "try_auth (demo_request True) [''account:a''] ?sel [] p = (Stop (ExecResponse ?resp dir_auth ?sel), p')"
    if "turns p = (AttemptResponse ?resp, \<lambda>s. s) # ts"
      "p' = (emit (EvAttempt (auth_ID dir_auth)) p)\<lparr>turns := ts\<rparr>" for p p' ts
    using that a err
    by (simp add: try_auth_def prepareAuth_def attempt_def after_response_def emit_def Let_def demo_request_def)
  have "\<exists>p'. round_loop 2 (demo_request True) [''account:a''] [] no_binding [] ?p = (RoundStop (ExecResponse ?resp dir_auth ?sel), p')"
    using one_select [of True "[]" no_binding "[(AttemptResponse ?resp, \<lambda>s. s)]"]
    by (simp add: numeral_2_eq_2 Let_def one demo_no_limit demo_proxy_turns)
  then have "\<exists>p'. retry_rounds 3 2 (demo_request True) [''account:a''] no_binding [] ?p
      = (ExecResponse ?resp dir_auth ?sel, p')"
    by (subst retry_rounds.simps) auto
  with start obtain p' where run: "executeUpstream (\<lambda>m. []) [] [] (demo_request True)
         ((demo_proxy [])\<lparr>srv := one_server NewFileAuthStore, turns := [(AttemptResponse ?resp, \<lambda>s. s)]\<rparr>)
      = (ExecResponse ?resp dir_auth ?sel, p')" by auto
  have "r_replayable (demo_request True)" by (simp add: demo_request_def)
  from handed_on_response [OF run this] run show ?thesis by (auto simp: demo_request_def inspectResponseBody_def)
qed

end
