(* ===== verification/Account_Disable.thy ===== *)
theory Account_Disable
  imports Server_Properties
begin

text \<open>
  Enabling and disabling an account (\<open>SetAccountDisabled\<close> in \<open>auth.go\<close>): every file of the account is
  rewritten, or the ones already written are put back. The files are those of the server's directory;
  whether the next \<open>Save\<close> succeeds is taken from a script, and a failed \<open>Save\<close> leaves its file as it
  was, since it renames a finished temporary file.
\<close>

datatype disable_error =
    DisableInvalidInput
  | DisableScanFailed go_err
  | DisableUnidentified
  | DisableNotFound
  | DisableFilesInvalid
  | DisableSaveFailed "bool list"

definition authByManageableAccountID :: "Auth list \<Rightarrow> string \<Rightarrow> Auth option" where
  "authByManageableAccountID auths accountID0 =
     (let accountID = trim_space accountID0 in find (\<lambda>a. Identified a \<and> AccountID a = accountID) auths)"

definition read_path :: "go_lib \<Rightarrow> walk_entry list \<Rightarrow> string \<Rightarrow> auth_read" where
  "read_path lib ws path =
     (case find (\<lambda>w. we_path w = path) ws of
        None \<Rightarrow> ReadFailed
      | Some w \<Rightarrow> readAuthFile lib path (we_relative w) (we_content w))"

fun read_sources :: "go_lib \<Rightarrow> walk_entry list \<Rightarrow> string \<Rightarrow> string list \<Rightarrow> Auth list option" where
  "read_sources lib ws accountID [] = Some []"
| "read_sources lib ws accountID (path # paths) =
     (case read_path lib ws path of
        ReadAuth source \<Rightarrow>
          if AccountID source \<noteq> accountID then None
          else map_option (\<lambda>sources. source # sources) (read_sources lib ws accountID paths)
      | _ \<Rightarrow> None)"

definition disabled_update :: "bool \<Rightarrow> Auth \<Rightarrow> Auth" where
  "disabled_update d source =
     source\<lparr>Disabled := d, Metadata := AList.update ''disabled'' (JBool d) (Metadata source)\<rparr>"

text \<open>One \<open>Save\<close>, and the saves of a list in order; the second gives how many were written.\<close>

definition save_auth :: "go_lib \<Rightarrow> bool \<Rightarrow> Auth \<Rightarrow> server \<Rightarrow> server" where
  "save_auth lib ok a s = (if ok then write_disk (Path a) (marshal_object lib (saved_metadata a)) s else s)"

fun save_all :: "go_lib \<Rightarrow> Auth list \<Rightarrow> bool list \<Rightarrow> server \<Rightarrow> nat \<times> bool list \<times> server" where
  "save_all lib [] oks s = (0, oks, s)"
| "save_all lib (a # as) oks s =
     (case oks of
        False # rest \<Rightarrow> (0, rest, s)
      | _ \<Rightarrow> (case save_all lib as (drop 1 oks) (save_auth lib True a s) of (n, rest, s') \<Rightarrow> (Suc n, rest, s')))"

text \<open>The rollback tries every file, the last written first, and reports which saves failed.\<close>

fun roll_back :: "go_lib \<Rightarrow> Auth list \<Rightarrow> bool list \<Rightarrow> server \<Rightarrow> bool list \<times> server" where
  "roll_back lib [] oks s = ([], s)"
| "roll_back lib (a # as) oks s =
     (let ok = (oks = [] \<or> hd oks) in
      case roll_back lib as (drop 1 oks) (save_auth lib ok a s) of (rs, s') \<Rightarrow> (ok # rs, s'))"

definition SetAccountDisabled ::
  "go_lib \<Rightarrow> bool list \<Rightarrow> string \<Rightarrow> bool \<Rightarrow> server \<Rightarrow> (disable_error + Auth) \<times> server" where
  "SetAccountDisabled lib oks accountID0 d s =
     (let accountID = trim_space accountID0 in
      if accountID = [] then (Inl DisableInvalidInput, s)
      else (case store_reconcile lib s of
              (Inl e, s1) \<Rightarrow> (Inl (DisableScanFailed e), s1)
            | (Inr result, s1) \<Rightarrow>
                (case authByManageableAccountID (Auths result) accountID of
                   None \<Rightarrow>
                     (Inl (if list_ex (\<lambda>a. \<not> Identified a \<and> auth_ID a = accountID) (Auths result)
                           then DisableUnidentified else DisableNotFound), s1)
                 | Some target \<Rightarrow>
                     (case read_sources lib (disk s1) accountID (SourcePaths target) of
                        None \<Rightarrow> (Inl DisableFilesInvalid, s1)
                      | Some originals \<Rightarrow>
                          let updates = map (disabled_update d) originals in
                          (case save_all lib updates oks s1 of
                             (n, rest, s2) \<Rightarrow>
                               if n < length updates then
                                 (case roll_back lib (rev (take n originals)) rest s2 of
                                    (rs, s3) \<Rightarrow> (Inl (DisableSaveFailed rs), s3))
                               else
                                 (case store_reconcile lib s2 of
                                    (Inl e, s3) \<Rightarrow> (Inl (DisableScanFailed e), s3)
                                  | (Inr result', s3) \<Rightarrow>
                                      (case authByManageableAccountID (Auths result') accountID of
                                         None \<Rightarrow> (Inl DisableNotFound, s3)
                                       | Some updated \<Rightarrow> (Inr updated, s3))))))))"

section \<open>All files or none\<close>

definition content_of :: "walk_entry list \<Rightarrow> string \<Rightarrow> (go_err + string) option" where
  "content_of ws path = map_option we_content (find (\<lambda>w. we_path w = path) ws)"

definition rewritten :: "go_lib \<Rightarrow> Auth \<Rightarrow> string" where
  "rewritten lib a = marshal_object lib (saved_metadata a)"

lemma find_map_same: "find P (map f ws) = map_option f (find P ws)" if "\<And>w. P (f w) = P w"
  using that by (induction ws) auto

lemma write_content:
  "content_of (disk (write_disk p bytes s)) q =
     (if q = p then map_option (\<lambda>_. Inr bytes) (content_of (disk s) q) else content_of (disk s) q)"
proof -
  let ?f = "\<lambda>w. if we_path w = p then w\<lparr>we_content := Inr bytes\<rparr> else w"
  have "find (\<lambda>w. we_path w = q) (map ?f (disk s)) = map_option ?f (find (\<lambda>w. we_path w = q) (disk s))"
    by (rule find_map_same) simp
  then show ?thesis
    by (auto simp: content_of_def write_disk_def option.map_comp comp_def
        dest!: find_mem split: option.split intro!: option.map_cong)
qed

lemma parsed_path [simp]: "Path (parsed_auth lib p rel meta) = p"
  by (simp add: parsed_auth_def Let_def)

lemma read_path_auth: "read_path lib ws p = ReadAuth a \<Longrightarrow> Path a = p \<and> content_of ws p \<noteq> None"
  by (auto simp: read_path_def readAuthFile_def auth_of_meta_iff content_of_def split: option.splits sum.splits if_splits)

lemma read_sources_paths:
  "read_sources lib ws accountID paths = Some sources \<Longrightarrow>
     map Path sources = paths \<and> (\<forall>p\<in>set paths. content_of ws p \<noteq> None)"
proof (induction paths arbitrary: sources)
  case (Cons p paths)
  then show ?case
    by (auto dest: read_path_auth split: auth_read.splits if_splits)
qed simp

text \<open>What a list of saves leaves in the directory.\<close>

definition overwritten :: "go_lib \<Rightarrow> Auth list \<Rightarrow> server \<Rightarrow> server \<Rightarrow> bool" where
  "overwritten lib as s s' \<longleftrightarrow>
     (\<forall>q. content_of (disk s') q =
        (case find (\<lambda>a. Path a = q) as of
           None \<Rightarrow> content_of (disk s) q
         | Some a \<Rightarrow> map_option (\<lambda>_. Inr (rewritten lib a)) (content_of (disk s) q)))"

lemma overwritten_Nil [simp]: "overwritten lib [] s s"
  by (simp add: overwritten_def)

lemma find_none: "q \<notin> Path ` set as \<Longrightarrow> find (\<lambda>a. Path a = q) as = None"
  by (auto simp: find_None_iff)

lemma overwritten_Cons:
  assumes "overwritten lib as (save_auth lib True a s) s'" "Path a \<notin> Path ` set as"
  shows "overwritten lib (a # as) s s'"
  using assms find_none [OF assms(2)]
  by (auto simp: overwritten_def save_auth_def write_content rewritten_def option.map_comp comp_def split: option.split)

lemma save_all_overwrites:
  assumes "save_all lib as oks s = (n, rest, s')" "distinct (map Path as)"
  shows "n \<le> length as \<and> overwritten lib (take n as) s s'"
  using assms
proof (induction as arbitrary: oks s n rest s')
  case (Cons a as)
  show ?case
  proof (cases "\<exists>r. oks = False # r")
    case True
    with Cons.prems show ?thesis by auto
  next
    case False
    obtain m r1 s1 where more: "save_all lib as (drop 1 oks) (save_auth lib True a s) = (m, r1, s1)" by (metis surj_pair)
    with Cons.prems False have "n = Suc m" "s' = s1" by (auto split: list.splits bool.splits)
    moreover from Cons.IH [OF more] Cons.prems(2) have "m \<le> length as" "overwritten lib (take m as) (save_auth lib True a s) s1"
      by simp_all
    moreover have "Path a \<notin> Path ` set (take m as)" using Cons.prems(2) by (auto dest: in_set_takeD)
    ultimately show ?thesis by (auto intro: overwritten_Cons)
  qed
qed simp

lemma roll_back_overwrites:
  assumes "roll_back lib as oks s = (rs, s')" "distinct (map Path as)" "\<forall>ok\<in>set rs. ok"
  shows "overwritten lib as s s'"
  using assms
proof (induction as arbitrary: oks s rs s')
  case (Cons a as)
  obtain rs1 s1 where more: "roll_back lib as (drop 1 oks) (save_auth lib (oks = [] \<or> hd oks) a s) = (rs1, s1)" by (metis surj_pair)
  with Cons.prems have "rs = (oks = [] \<or> hd oks) # rs1" "s' = s1" by auto
  with Cons.prems(3) have ok: "oks = [] \<or> hd oks" "\<forall>ok\<in>set rs1. ok" by auto
  then have "overwritten lib as (save_auth lib True a s) s1"
    using Cons.IH [OF more _ ok(2)] Cons.prems(2) by simp
  with Cons.prems(2) \<open>s' = s1\<close> show ?case by (auto intro: overwritten_Cons)
qed simp

lemma roll_back_others:
  assumes "roll_back lib as oks s = (rs, s')" "q \<notin> Path ` set as"
  shows "content_of (disk s') q = content_of (disk s) q"
  using assms
proof (induction as arbitrary: oks s rs s')
  case (Cons a as)
  obtain rs1 s1 where more: "roll_back lib as (drop 1 oks) (save_auth lib (oks = [] \<or> hd oks) a s) = (rs1, s1)" by (metis surj_pair)
  with Cons.IH [OF more] Cons.prems show ?case
    by (auto simp: save_auth_def write_content split: if_splits)
qed simp

lemma overwritten_others: "overwritten lib as s s' \<Longrightarrow> q \<notin> Path ` set as \<Longrightarrow> content_of (disk s') q = content_of (disk s) q"
  using find_none [of q as] by (simp add: overwritten_def)

lemma store_reconcile_keeps: "store_reconcile lib s = (x, s') \<Longrightarrow> disk s' = disk s \<and> registry s' = registry s \<and> store s' = store s"
  by (auto simp: store_reconcile_def split: prod.splits)

lemma overwritten_twice:
  assumes "overwritten lib (map (disabled_update d) (take n os)) s s1" "overwritten lib (rev (take n os)) s1 s2"
    and "distinct (map Path os)" "a \<in> set os" "content_of (disk s) (Path a) \<noteq> None"
  shows "content_of (disk s2) (Path a) \<in> {content_of (disk s) (Path a), Some (Inr (rewritten lib a))}"
proof (cases "a \<in> set (take n os)")
  case True
  have inj: "inj_on Path (set os)" using assms(3) by (simp add: distinct_map)
  obtain b where b: "find (\<lambda>x. Path x = Path a) (rev (take n os)) = Some b"
    using True by (cases "find (\<lambda>x. Path x = Path a) (rev (take n os))") (auto simp: find_None_iff)
  then have "b \<in> set os" "Path b = Path a" by (auto dest!: find_mem in_set_takeD)
  then have "b = a" using inj assms(4) by (auto dest: inj_onD)
  with b assms(2) have "content_of (disk s2) (Path a) = map_option (\<lambda>_. Inr (rewritten lib a)) (content_of (disk s1) (Path a))"
    by (simp add: overwritten_def)
  moreover have "content_of (disk s1) (Path a) \<noteq> None"
    using assms(1,5) by (auto simp: overwritten_def split: option.splits)
  ultimately show ?thesis by auto
next
  case False
  have inj: "inj_on Path (set os)" using assms(3) by (simp add: distinct_map)
  have no: "Path a \<notin> Path ` set (take n os)"
    using False assms(4) inj by (auto dest: inj_onD in_set_takeD)
  then have "find (\<lambda>x. Path x = Path a) (rev (take n os)) = None"
    and "find (\<lambda>x. Path x = Path a) (map (disabled_update d) (take n os)) = None"
    by (auto simp: find_None_iff disabled_update_def image_iff)
  with assms(1,2) show ?thesis by (simp add: overwritten_def)
qed


lemma one_store_reconcile: "store_reconcile dir_lib (one_server dir_store) = (Inr demo_result, one_server dir_store)"
  using dir_rescan by (simp add: store_reconcile_def one_server_def demo_server_def demo_result_def)

lemma dir_account:
  "authByManageableAccountID [dir_auth] ''a'' = Some dir_auth" "SourcePaths dir_auth = [''a.json'']" "Path dir_auth = ''a.json''"
  by (simp_all add: authByManageableAccountID_def Identified_def dir_auth_def Let_def)

lemma dir_sources: "read_sources dir_lib (disk (one_server dir_store)) ''a'' [''a.json''] = Some [dir_auth]"
  using dir_read by (simp add: read_path_def one_server_def demo_server_def dir_file_def) (simp add: dir_auth_def)


section \<open>Changes that are noticed and not told\<close>

lemma prune_keeps_lasting:
  assumes "prune_states sts (r, s) = (e, r', s')" "map_of (states r) i = Some st" "RetryAt st = 0" 
    and "\<forall>st'. (i, st') \<in> set sts \<longrightarrow> RetryAt st' = 0"
  shows "map_of (states r') i = Some st"
  using assms
proof (induction sts arbitrary: r s)
  case (Cons p sts)
  obtain j x where p: "p = (j, x)" by (cases p)
  have rest: "\<forall>st'. (i, st') \<in> set sts \<longrightarrow> RetryAt st' = 0" using Cons.prems(4) by simp
  show ?case
  proof (cases "is_zero_time (RetryAt x) \<or> RetryAt x > clock s")
    case True
    then have "prune_states sts (r, s) = (e, r', s')" using Cons.prems(1) p by simp
    from Cons.IH [OF this Cons.prems(2,3) rest] show ?thesis .
  next
    case False
    with Cons.prems(4) p have ij: "i \<noteq> j" by (metis is_zero_time_def list.set_intros(1))
    obtain f s1 where fr: "forget_row x j s = (f, s1)" by (metis surj_pair)
    show ?thesis
    proof (cases f)
      case None
      have "map_of (states (delete_state j r)) i = Some st"
        using Cons.prems(2) ij by (simp add: delete_state_def delete_conv)
      moreover have "prune_states sts (delete_state j r, s1) = (e, r', s')"
        using Cons.prems(1) False p fr None by simp
      ultimately show ?thesis using Cons.IH Cons.prems(3) rest by blast
    next
      case (Some g)
      with Cons.prems(1,2) False p fr show ?thesis by simp
    qed
  qed
qed simp

lemma other_change_keeps:
  assumes "reconcile_change lib byID c (r, s) = (e, r', s')" "change_ID c \<noteq> i \<or> change_Kind c = AuthAdded"
  shows "map_of (states r') i = map_of (states r) i"
proof (cases "change_Kind c")
  case AuthAdded
  with assms(1) show ?thesis by (simp add: reconcile_change_def Let_def)
next
  case AuthRemoved
  with assms show ?thesis
    by (auto simp: reconcile_change_def Let_def delete_auth_def delete_conv split: option.splits prod.splits)
next
  case AuthUpdated
  have drop: "states (drop_stale_exclusions j fp q) = states q" for j fp q
    by (auto simp: drop_stale_exclusions_def Let_def split: option.split)
  have bump: "states (bump_epoch j q) = states q" for j q by (simp add: bump_epoch_def)
  show ?thesis
  proof (cases "map_of byID (change_ID c)")
    case None
    with AuthUpdated assms(1) show ?thesis by (simp add: reconcile_change_def Let_def)
  next
    case (Some a)
    from AuthUpdated assms(2) have ne: "change_ID c \<noteq> i" by auto
    show ?thesis
      using assms(1) AuthUpdated Some ne
      by (auto simp: reconcile_change_def Let_def drop bump delete_state_def delete_conv
          split: if_splits option.splits prod.splits)
  qed
qed


lemma set_delete: "set (AList.delete k al) \<subseteq> set al"
  by (auto simp: AList.delete_eq)

lemma change_subset:
  assumes "reconcile_change lib byID c (r, s) = (e, r', s')"
  shows "set (states r') \<subseteq> set (states r)"
proof -
  have drop: "states (drop_stale_exclusions j fp q) = states q" for j fp q
    by (auto simp: drop_stale_exclusions_def Let_def split: option.split)
  have bump: "states (bump_epoch j q) = states q" for j q by (simp add: bump_epoch_def)
  show ?thesis
    using assms set_delete [of "change_ID c" "states r"]
    by (cases "change_Kind c")
      (auto simp: reconcile_change_def Let_def drop bump delete_state_def delete_auth_def
        split: option.splits prod.splits if_splits)
qed

lemma prune_subset: "prune_states sts (r, s) = (e, r', s') \<Longrightarrow> set (states r') \<subseteq> set (states r)"
proof (induction sts arbitrary: r s)
  case (Cons p sts)
  obtain j x where p: "p = (j, x)" by (cases p)
  obtain f s1 where fr: "forget_row x j s = (f, s1)" by (metis surj_pair)
  have del: "set (states (delete_state j r)) \<subseteq> set (states r)"
    using set_delete [of j "states r"] by (simp add: delete_state_def)
  show ?case
  proof (cases "is_zero_time (RetryAt x) \<or> RetryAt x > clock s")
    case True
    with Cons show ?thesis by (simp add: p)
  next
    case False
    with Cons.prems p fr consider "f = None" "prune_states sts (delete_state j r, s1) = (e, r', s')" | "r' = r"
      by (cases f) auto
    then show ?thesis using Cons.IH [of "delete_state j r" s1] del by cases auto
  qed
qed simp

lemma changes_keep_lasting:
  assumes "reconcile_changes lib byID cs (r, s) = (e, r', s')" "map_of (states r) i = Some st"
    and "\<forall>st'. (i, st') \<in> set (states r) \<longrightarrow> RetryAt st' = 0"
    and "\<forall>c\<in>set cs. change_ID c \<noteq> i \<or> change_Kind c = AuthAdded"
  shows "map_of (states r') i = Some st"
  using assms
proof (induction cs arbitrary: r s)
  case Nil
  then show ?case
    using prune_keeps_lasting [of "states r" r s e r' s' i st] map_of_SomeD [OF Nil.prems(2)]
    by (simp add: PruneExpired_def)
next
  case (Cons c cs)
  obtain f r1 s1 where ch: "reconcile_change lib byID c (r, s) = (f, r1, s1)" by (metis surj_pair)
  have keep: "map_of (states r1) i = Some st" using other_change_keeps [OF ch, of i] Cons.prems(2,4) by simp
  show ?case
  proof (cases f)
    case (Some g)
    with Cons.prems(1) ch keep show ?thesis by simp
  next
    case None
    with Cons.prems(1) ch have rest: "reconcile_changes lib byID cs (r1, s1) = (e, r', s')" by simp
    have "\<forall>st'. (i, st') \<in> set (states r1) \<longrightarrow> RetryAt st' = 0" using change_subset [OF ch] Cons.prems(3) by blast
    from Cons.IH [OF rest keep this] Cons.prems(4) show ?thesis by simp
  qed
qed

lemma changes_remove:
  assumes "reconcile_changes lib byID cs (r, s) = (None, r', s')"
    and "(\<exists>c\<in>set cs. change_ID c = i \<and> change_Kind c = AuthRemoved) \<or> i \<notin> fst ` set (states r)"
  shows "i \<notin> fst ` set (states r')"
  using assms
proof (induction cs arbitrary: r s)
  case Nil
  then show ?case using prune_subset [of "states r" r s None r' s'] by (auto simp: PruneExpired_def)
next
  case (Cons c cs)
  obtain f r1 s1 where ch: "reconcile_change lib byID c (r, s) = (f, r1, s1)" by (metis surj_pair)
  with Cons.prems(1) have f: "f = None" and rest: "reconcile_changes lib byID cs (r1, s1) = (None, r', s')"
    by (auto split: option.splits)
  show ?case
  proof (cases "change_ID c = i \<and> change_Kind c = AuthRemoved")
    case True
    with ch f have "i \<notin> fst ` set (states r1)"
      by (auto simp: reconcile_change_def Let_def delete_auth_def AList.delete_eq split: option.splits prod.splits)
    with Cons.IH [OF rest] show ?thesis by blast
  next
    case False
    with Cons.IH [OF rest] Cons.prems(2) change_subset [OF ch] show ?thesis by fastforce
  qed
qed

definition keyed_auths :: "(string \<times> Auth) list \<Rightarrow> bool" where
  "keyed_auths m \<longleftrightarrow> (\<forall>(j, a)\<in>set m. auth_ID a = j)"

lemma keyed_map [simp]: "keyed_auths (map (\<lambda>a. (auth_ID a, a)) as)"
  by (auto simp: keyed_auths_def)

lemma keyed_of: "keyed_auths m \<Longrightarrow> map_of m j = Some a \<Longrightarrow> auth_ID a = j"
  by (auto simp: keyed_auths_def dest: map_of_SomeD)

lemma unknown_is_added:
  assumes "c \<in> set (reconcileAuthChanges prev cur ini)" "map_of prev i = None" "keyed_auths prev" "keyed_auths cur"
  shows "change_ID c \<noteq> i \<or> change_Kind c = AuthAdded"
proof -
  from assms(1) obtain j where j: "c \<in> set (auth_change ini (map_of prev j) (map_of cur j))"
    by (auto simp: reconcileAuthChanges_def Let_def)
  have new [simp]: "change_ID (newAuthChange k a) = auth_ID a" "change_Kind (newAuthChange k a) = k" for k a
    by (simp_all add: newAuthChange_def)
  show ?thesis
  proof (cases "map_of prev j")
    case None
    then show ?thesis using j by (cases "map_of cur j") (auto simp: auth_change_def split: if_splits)
  next
    case (Some a)
    then have "j \<noteq> i" using assms(2) by auto
    moreover have "change_ID c = j"
      using j Some keyed_of [OF assms(3) Some] keyed_of [OF assms(4), of j]
      by (cases "map_of cur j") (auto simp: auth_change_def Let_def split: if_splits)
    ultimately show ?thesis by simp
  qed
qed

lemma removal_is_reported:
  assumes "map_of prev i = Some a" "auth_ID a = i" "map_of cur i = None"
  shows "\<exists>c\<in>set (reconcileAuthChanges prev cur ini). change_ID c = i \<and> change_Kind c = AuthRemoved"
proof -
  have "i \<in> fst ` set prev" using map_of_SomeD [OF assms(1)] by force
  moreover have "newAuthChange AuthRemoved a \<in> set (auth_change ini (map_of prev i) (map_of cur i))"
    using assms by (simp add: auth_change_def)
  ultimately have "newAuthChange AuthRemoved a \<in> set (reconcileAuthChanges prev cur ini)"
    unfolding reconcileAuthChanges_def Let_def by auto
  then show ?thesis using assms(2) by (intro bexI) (auto simp: newAuthChange_def)
qed

lemma scan_result:
  assumes "store_reconcile lib s = (Inr result, s')"
  shows "Changes result = reconcileAuthChanges (store_auths (auth_files s)) (map (\<lambda>a. (auth_ID a, a)) (Auths result))
      (initialized (auth_files s)) \<and> store_auths (auth_files s') = map (\<lambda>a. (auth_ID a, a)) (Auths result)"
  using assms by (auto simp: store_reconcile_def reconcile_def Let_def split: walk_end.splits prod.splits)

lemma reconcileAuths_health:
  assumes "reconcileAuths lib s = (Inr result, s')"
  shows "\<exists>s1 r st. store_reconcile lib s = (Inr result, s1) \<and>
     reconcile_changes lib (authsByStableID (Auths result)) (Changes result) (registry s, st) = (None, registry s', store s')"
proof -
  obtain y s1 where scan: "store_reconcile lib s = (y, s1)" by (metis surj_pair)
  with assms obtain res where y: "y = Inr res" by (cases y) (auto simp: reconcileAuths_def)
  define removed where "removed = map change_ID (filter (\<lambda>c. change_Kind c = AuthRemoved) (Changes res))"
  obtain z s2 where del: "(if removed \<noteq> [] then on_store (DeleteSessionAffinityByAuthIDs removed) s1 else (Inr 0, s1)) = (z, s2)"
    by (metis surj_pair)
  have reg: "registry s2 = registry s"
    using del store_reconcile_keeps [OF scan] by (auto simp: on_store_def split: if_splits prod.splits)
  obtain e s3 where h: "on_health (Reconcile lib res) s2 = (e, s3)" by (metis surj_pair)
  have eq: "reconcileAuths lib s = (case z of Inl e \<Rightarrow> (Inl e, s2) | Inr _ \<Rightarrow>
      (case on_health (Reconcile lib res) s2 of
         (Some e, s3) \<Rightarrow> (Inl e, s3)
       | (None, s3) \<Rightarrow> (Inr res, s3\<lparr>models := catalog_Reconcile res (models s3)\<rparr>)))"
    unfolding reconcileAuths_def Let_def scan y using del [unfolded removed_def] by simp
  then obtain n where z: "z = Inr n" using assms by (cases z) auto
  have fin: "e = None" "res = result" "s' = s3\<lparr>models := catalog_Reconcile result (models s3)\<rparr>"
    using assms z h unfolding eq by (auto split: option.splits)
  from h fin(1) have "reconcile_changes lib (authsByStableID (Auths res)) (Changes res) (registry s2, store s2)
      = (None, registry s3, store s3)"
    by (auto simp: on_health_def Reconcile_def split: prod.splits)
  with scan y reg fin show ?thesis by auto
qed

text \<open>
  A removal that a refresh is the first to notice is never reported: the scan inside
  \<open>refreshCurrentAuth\<close> brings the list of known credentials up to date and drops the changes it found. The
  lasting block of the removed account (a rejected refresh token, say) then survives every later
  reconciliation, also when the account comes back with new credentials; noticed by \<open>reconcileAuths\<close>,
  the same removal clears it.
\<close>

theorem refresh_swallows_removal:
  assumes known: "map_of (store_auths (auth_files s)) i = Some b" "auth_ID b = i"
    and gone: "store_reconcile lib s = (Inr result, s0)" "i \<notin> auth_ID ` set (Auths result)"
    and blocked: "map_of (states (registry s)) i = Some st" "\<forall>st'. (i, st') \<in> set (states (registry s)) \<longrightarrow> RetryAt st' = 0"
    and refresh: "refreshCurrentAuth lib tk replies save_ok a tok reuse force s = (x, s1)"
  shows "(\<forall>ws en result' s2. reconcileAuths lib (s1\<lparr>disk := ws, disk_end := en\<rparr>) = (Inr result', s2) \<longrightarrow>
             map_of (states (registry s2)) i = Some st) \<and>
         (\<forall>result' s2. reconcileAuths lib s = (Inr result', s2) \<longrightarrow> map_of (states (registry s2)) i = None)"
proof (intro conjI allI impI)
  fix ws en result' s2
  assume later: "reconcileAuths lib (s1\<lparr>disk := ws, disk_end := en\<rparr>) = (Inr result', s2)"
  have s1: "registry s1 = registry s" "auth_files s1 = auth_files s0"
    using refresh gone(1) store_reconcile_keeps [OF gone(1)]
    by (auto simp: refreshCurrentAuth_def set_clock_def write_disk_def split: option.splits prod.splits sum.splits if_splits)
  from reconcileAuths_health [OF later] obtain s3 sto where
    scan: "store_reconcile lib (s1\<lparr>disk := ws, disk_end := en\<rparr>) = (Inr result', s3)"
    and run: "reconcile_changes lib (authsByStableID (Auths result')) (Changes result') (registry s, sto)
      = (None, registry s2, store s2)" using s1 by auto
  have prev: "store_auths (auth_files s1) = map (\<lambda>a. (auth_ID a, a)) (Auths result)"
    using scan_result [OF gone(1)] s1(2) by simp
  have "map_of (map (\<lambda>a. (auth_ID a, a)) (Auths result)) i = None"
    using gone(2) by (auto simp: map_of_eq_None_iff)
  then have "\<forall>c\<in>set (Changes result'). change_ID c \<noteq> i \<or> change_Kind c = AuthAdded"
    using scan_result [OF scan] prev unknown_is_added [OF _ _ keyed_map keyed_map] by auto
  from changes_keep_lasting [OF run blocked this] show "map_of (states (registry s2)) i = Some st" .
next
  fix result' s2
  assume now: "reconcileAuths lib s = (Inr result', s2)"
  from reconcileAuths_health [OF now] gone(1) obtain sto where
    run: "reconcile_changes lib (authsByStableID (Auths result)) (Changes result) (registry s, sto)
      = (None, registry s2, store s2)" by auto
  have "map_of (map (\<lambda>a. (auth_ID a, a)) (Auths result)) i = None"
    using gone(2) by (auto simp: map_of_eq_None_iff)
  from removal_is_reported [OF known this] scan_result [OF gone(1)]
  have "\<exists>c\<in>set (Changes result). change_ID c = i \<and> change_Kind c = AuthRemoved" by simp
  with changes_remove [OF run, of i] show "map_of (states (registry s2)) i = None"
    by (auto simp: map_of_eq_None_iff)
qed


definition blocked_state :: AuthHealthState where
  "blocked_state = health_state AuthHealthInvalidGrant ''invalid_grant'' 0 False 400 ''invalid_grant''"

text \<open>The account's file was deleted, the account is blocked, and a refresh of it runs; then the file comes back.\<close>

theorem refresh_swallows_removal_witness:
  "let s = (one_server dir_store)\<lparr>disk := [], registry := newAuthHealthRegistry\<lparr>states := [(''account:a'', blocked_state)]\<rparr>\<rparr>;
       s1 = snd (refreshCurrentAuth dir_lib demo_token_lib [] True dir_auth [] True False s)
   in \<forall>result s2. reconcileAuths dir_lib (s1\<lparr>disk := [dir_file ''a''], disk_end := WalkDone\<rparr>) = (Inr result, s2) \<longrightarrow>
        map_of (states (registry s2)) ''account:a'' = Some blocked_state"
proof -
  define s where "s = (one_server dir_store)\<lparr>disk := [],
    registry := newAuthHealthRegistry\<lparr>states := [(''account:a'', blocked_state)]\<rparr>\<rparr>"
  obtain x s1 where run: "refreshCurrentAuth dir_lib demo_token_lib [] True dir_auth [] True False s = (x, s1)" by (metis surj_pair)
  have fields: "auth_files s = dir_store" "registry s = newAuthHealthRegistry\<lparr>states := [(''account:a'', blocked_state)]\<rparr>"
    "disk s = []" "disk_end s = WalkDone"
    by (simp_all add: s_def one_server_def demo_server_def)
  obtain y s0 where scan: "store_reconcile dir_lib s = (y, s0)" by (metis surj_pair)
  have "\<exists>result. y = Inr result \<and> Auths result = []"
    using scan by (auto simp: store_reconcile_def fields reconcile_def groupAuthFiles_def split: prod.splits)
  then obtain result where y: "y = Inr result" "Auths result = []" by blast
  have known: "map_of (store_auths (auth_files s)) ''account:a'' = Some dir_auth" "auth_ID dir_auth = ''account:a''"
    by (simp_all add: fields dir_store_def) (simp add: dir_auth_def)
  have st: "map_of (states (registry s)) ''account:a'' = Some blocked_state"
    "\<forall>st'. (''account:a'', st') \<in> set (states (registry s)) \<longrightarrow> RetryAt st' = 0"
    by (simp_all add: fields blocked_state_def health_state_def)
  have "''account:a'' \<notin> auth_ID ` set (Auths result)" using y(2) by simp
  from refresh_swallows_removal [OF known scan [unfolded y(1)] this st run] run
  show ?thesis unfolding Let_def s_def [symmetric] by auto
qed

end
