(* ===== verification/Request_Routing.thy ===== *)
theory Request_Routing
  imports User_Properties Chat_Request Server_Properties
begin

text \<open>
  The front door of the server (\<open>server.go\<close>): which requests reach which handler, what proves that a
  request may be served, which upstream path a proxied request gets, and the headers it leaves with.

  A request is what the code reads of an \<open>http.Request\<close>: method, path, remote address, headers and
  query values (association lists from canonical names to the values in order) and the body. \<open>serveHTTP\<close>
  is a function to the handler it calls; the handlers are modelled in other theories.
\<close>

section \<open>Requests and headers\<close>

type_synonym http_header = "(string \<times> string list) list"

record http_request =
  h_Method :: string
  h_Path :: string
  h_RemoteAddr :: string
  h_Header :: http_header
  h_Query :: http_header
  h_Body :: request_body

definition header_values :: "http_header \<Rightarrow> string \<Rightarrow> string list" where
  "header_values h k = (case map_of h k of Some vs \<Rightarrow> vs | None \<Rightarrow> [])"

definition header_get :: "http_header \<Rightarrow> string \<Rightarrow> string" where
  "header_get h k = (case header_values h k of v # vs \<Rightarrow> v | [] \<Rightarrow> [])"

definition header_set :: "string \<Rightarrow> string \<Rightarrow> http_header \<Rightarrow> http_header" where
  "header_set k v h = AList.update k [v] h"

definition header_del :: "string \<Rightarrow> http_header \<Rightarrow> http_header" where
  "header_del k h = AList.delete k h"

lemma header_set_values [simp]:
  "header_values (header_set k v h) k' = (if k' = k then [v] else header_values h k')"
  by (simp add: header_values_def header_set_def update_conv)

lemma header_del_values [simp]:
  "header_values (header_del k h) k' = (if k' = k then [] else header_values h k')"
  by (simp add: header_values_def header_del_def delete_conv)

lemma header_get_values: "header_values h k = header_values h' k' \<Longrightarrow> header_get h k = header_get h' k'"
  by (simp add: header_get_def)

definition trim_prefix :: "string \<Rightarrow> string \<Rightarrow> string" where
  "trim_prefix s p = (if prefix p s then drop (length p) s else s)"

definition trim_suffix :: "string \<Rightarrow> string \<Rightarrow> string" where
  "trim_suffix s e = (if suffix e s then take (length s - length e) s else s)"

definition lower_trim :: "string \<Rightarrow> string" where
  "lower_trim s = lower_ascii_view (trim_space s)"

section \<open>The route of a proxied request\<close>

definition stripPathPrefix :: "string \<Rightarrow> string \<Rightarrow> string option" where
  "stripPathPrefix path p =
     (if p = [] then (if prefix ''/'' path then Some path else None)
      else if path = p then Some ''/''
      else if prefix (p @ ''/'') path then Some (trim_prefix path p)
      else None)"

definition isCodexEndpointSuffix :: "string \<Rightarrow> bool" where
  "isCodexEndpointSuffix rest \<longleftrightarrow>
     rest \<in> {''/responses'', ''/responses/compact'', ''/alpha/search'', ''/images/generations'', ''/images/edits'',
       ''/memories/trace_summarize'', ''/realtime/calls'', ''/realtime''}"

definition codexEndpointSuffix :: "string \<Rightarrow> string option" where
  "codexEndpointSuffix path =
     (case (case stripPathPrefix path ''/backend-api/codex'' of
              Some rest \<Rightarrow> Some rest
            | None \<Rightarrow> stripPathPrefix path ''/v1'') of
        Some rest \<Rightarrow> if isCodexEndpointSuffix rest then Some rest else None
      | None \<Rightarrow> None)"

definition isChatGPTFileEndpointSuffix :: "string \<Rightarrow> bool" where
  "isChatGPTFileEndpointSuffix rest \<longleftrightarrow>
     (if rest = ''/files'' then True
      else if \<not> prefix ''/files/'' rest \<or> \<not> suffix ''/uploaded'' rest then False
      else let fileID = trim_suffix (trim_prefix rest ''/files/'') ''/uploaded''
           in fileID \<noteq> [] \<and> CHR ''/'' \<notin> set fileID)"

definition chatGPTFileEndpointSuffix :: "string \<Rightarrow> string option" where
  "chatGPTFileEndpointSuffix path =
     (case (case stripPathPrefix path ''/backend-api'' of
              Some rest \<Rightarrow> Some rest
            | None \<Rightarrow> stripPathPrefix path []) of
        Some rest \<Rightarrow> if isChatGPTFileEndpointSuffix rest then Some rest else None
      | None \<Rightarrow> None)"

definition isChatGPTWhamEndpointSuffix :: "string \<Rightarrow> bool" where
  "isChatGPTWhamEndpointSuffix rest \<longleftrightarrow>
     rest \<in> {''/wham/usage'', ''/wham/profiles/me'', ''/wham/accounts/check'',
       ''/wham/accounts/send_add_credits_nudge_email''}"

definition chatGPTWhamEndpointSuffix :: "string \<Rightarrow> string option" where
  "chatGPTWhamEndpointSuffix path =
     (case stripPathPrefix path ''/backend-api'' of
        Some rest \<Rightarrow> if isChatGPTWhamEndpointSuffix rest then Some rest else None
      | None \<Rightarrow> None)"

definition isChatGPTHostedMCPEndpointSuffix :: "string \<Rightarrow> bool" where
  "isChatGPTHostedMCPEndpointSuffix rest \<longleftrightarrow> rest \<in> {''/wham/apps'', ''/ps/mcp''}"

definition chatGPTHostedMCPEndpointSuffix :: "string \<Rightarrow> string option" where
  "chatGPTHostedMCPEndpointSuffix path =
     (case stripPathPrefix path ''/backend-api'' of
        Some rest \<Rightarrow> if isChatGPTHostedMCPEndpointSuffix rest then Some rest else None
      | None \<Rightarrow> None)"

text \<open>A base URL: scheme, host and its path as \<open>EscapedPath\<close> gives it.\<close>

record base_url =
  url_Scheme :: string
  url_Host :: string
  url_Path :: string

definition trim_right_slashes :: "string \<Rightarrow> string" where
  "trim_right_slashes s = rev (dropWhile (\<lambda>c. c = CHR ''/'') (rev s))"

definition targetPath :: "base_url \<Rightarrow> string \<Rightarrow> string \<Rightarrow> string" where
  "targetPath base defaultBasePath rest0 =
     (let path0 = trim_right_slashes (url_Path base);
          basePath = (if path0 = [] then defaultBasePath else path0);
          rest = (if prefix ''/'' rest0 then rest0 else ''/'' @ rest0)
      in basePath @ rest)"

record upstreamRoute =
  baseURL :: base_url
  route_targetPath :: string
  responsesWebsocket :: bool
  allowUpstreamAuth :: bool

record gateway =
  AdminAPIKey :: string
  AllowFastMode :: bool
  CodexUserAgent :: string
  CodexBetaFeatures :: string
  codexURL :: base_url
  chatGPTURL :: base_url

definition chatGPT_route :: "gateway \<Rightarrow> string \<Rightarrow> upstreamRoute" where
  "chatGPT_route g rest =
     \<lparr>baseURL = chatGPTURL g, route_targetPath = targetPath (chatGPTURL g) ''/backend-api'' rest,
      responsesWebsocket = False, allowUpstreamAuth = True\<rparr>"

definition proxyRoute :: "gateway \<Rightarrow> string \<Rightarrow> upstreamRoute option" where
  "proxyRoute g path =
     (case codexEndpointSuffix path of
        Some rest \<Rightarrow> Some \<lparr>baseURL = codexURL g, route_targetPath = targetPath (codexURL g) ''/backend-api/codex'' rest,
                     responsesWebsocket = (rest = ''/responses''), allowUpstreamAuth = False\<rparr>
      | None \<Rightarrow>
          (case chatGPTFileEndpointSuffix path of
             Some rest \<Rightarrow> Some (chatGPT_route g rest)
           | None \<Rightarrow>
               (case chatGPTWhamEndpointSuffix path of
                  Some rest \<Rightarrow> Some (chatGPT_route g rest)
                | None \<Rightarrow> map_option (chatGPT_route g) (chatGPTHostedMCPEndpointSuffix path))))"

section \<open>Who may do what\<close>

definition request_tokens :: "http_request \<Rightarrow> string list" where
  "request_tokens r = candidateProxyTokens (header_get (h_Header r) ''Authorization'') (header_get (h_Header r) ''X-Api-Key'')"

definition managementAPIEnabled :: "gateway \<Rightarrow> bool" where
  "managementAPIEnabled g \<longleftrightarrow> trim_space (AdminAPIKey g) \<noteq> []"

definition authorizedAdmin :: "gateway \<Rightarrow> http_request \<Rightarrow> bool" where
  "authorizedAdmin g r \<longleftrightarrow>
     (if \<not> managementAPIEnabled g then False
      else list_ex (\<lambda>token. token = trim_space (AdminAPIKey g)) (request_tokens r))"

text \<open>\<open>net.SplitHostPort\<close> (the host), and whether \<open>net.ParseIP\<close> gives a loopback address.\<close>

record net_lib =
  split_host_port :: "string \<Rightarrow> string option"
  parse_loopback :: "string \<Rightarrow> bool"

definition trim_brackets :: "string \<Rightarrow> string" where
  "trim_brackets s =
     (let bracket = (\<lambda>c. c = CHR ''['' \<or> c = CHR '']'')
      in rev (dropWhile bracket (rev (dropWhile bracket s))))"

definition isLoopbackRemoteAddr :: "net_lib \<Rightarrow> string \<Rightarrow> bool" where
  "isLoopbackRemoteAddr net remoteAddr =
     (let host0 = trim_space remoteAddr in
      if host0 = [] then False
      else let host = (case split_host_port net host0 of Some h \<Rightarrow> h | None \<Rightarrow> host0)
           in parse_loopback net (trim_brackets host))"

definition current_token :: "string list \<Rightarrow> Auth \<Rightarrow> bool" where
  "current_token tokens a \<longleftrightarrow>
     (let accessToken = trim_space (AccessToken a) in accessToken \<noteq> [] \<and> accessToken \<in> set tokens)"

definition matchCurrentCodexAccessToken ::
  "go_lib \<Rightarrow> string list \<Rightarrow> server \<Rightarrow> (go_err + Auth option) \<times> server" where
  "matchCurrentCodexAccessToken lib tokens s =
     (if tokens = [] then (Inr None, s)
      else (case reconcileAuths lib s of
              (Inl e, s1) \<Rightarrow> (Inl e, s1)
            | (Inr result, s1) \<Rightarrow> (Inr (find (current_token tokens) (Active result)), s1)))"

definition authorizeProxy :: "go_lib \<Rightarrow> http_request \<Rightarrow> bool \<Rightarrow> server \<Rightarrow> (go_err + proxyAuthorization) \<times> server" where
  "authorizeProxy lib r allow s =
     (case on_store (authenticateUserAPIKeyFromTokens lib (request_tokens r)) s of
        (Inr (u, k), s1) \<Rightarrow> (Inr \<lparr>pa_UserID = Some (u_ID u), CompatibilityAuthID = []\<rparr>, s1)
      | (Inl e, s1) \<Rightarrow>
          if err_is e ErrDisabledCredential then (Inl e, s1)
          else if \<not> err_is e ErrInvalidAPIKey then (Inl e, s1)
          else if allow then
            (case matchCurrentCodexAccessToken lib (request_tokens r) s1 of
               (Inl e', s2) \<Rightarrow> (Inl e', s2)
             | (Inr (Some a), s2) \<Rightarrow> (Inr \<lparr>pa_UserID = None, CompatibilityAuthID = auth_ID a\<rparr>, s2)
             | (Inr None, s2) \<Rightarrow> (Inl ErrInvalidAPIKey, s2))
          else (Inl ErrInvalidAPIKey, s1))"

section \<open>Errors for the client\<close>

text \<open>The status and the message of \<open>writeError\<close>.\<close>

definition writeStoreError :: "go_err \<Rightarrow> int \<times> string" where
  "writeStoreError e =
     (if err_is e ErrInvalidInput then (400, ''invalid request'')
      else if err_is e ErrDuplicateUserName then (409, ''duplicate user name'')
      else if err_is e ErrUserNotFound then (404, ''user not found'')
      else if err_is e ErrDisabledCredential then (403, ''disabled credential'')
      else if err_is e ErrInvalidAPIKey then (401, ''invalid API key'')
      else (500, ''internal server error''))"

definition writeAuthError :: "go_err \<Rightarrow> int \<times> string" where
  "writeAuthError e =
     (if err_is e ErrStorageFailure then writeStoreError e
      else if err_is e ErrDisabledCredential then (403, ''disabled credential'')
      else (401, ''invalid API key''))"

section \<open>The service tier of a request\<close>

definition isFastServiceTier :: "string \<Rightarrow> bool" where
  "isFastServiceTier v \<longleftrightarrow> normalizeServiceTier v = ''fast''"

definition queryHasFastServiceTier :: "http_header \<Rightarrow> bool" where
  "queryHasFastServiceTier q =
     list_ex isFastServiceTier (header_values q ''service_tier'' @ header_values q ''service-tier'')"

definition payloadHasFastServiceTier :: "chat_lib \<Rightarrow> string \<Rightarrow> bool" where
  "payloadHasFastServiceTier clib payload =
     (case decode_first clib payload of
        None \<Rightarrow> False
      | Some m \<Rightarrow> (case member m ''service_tier'' of JStr tier \<Rightarrow> isFastServiceTier tier | _ \<Rightarrow> False))"

definition content_type :: "http_request \<Rightarrow> string" where
  "content_type r = lower_trim (header_get (h_Header r) ''Content-Type'')"

text \<open>The body is read and put back; one that cannot be read to its end is replaced by an empty one.\<close>

definition requestHasFastServiceTier :: "chat_lib \<Rightarrow> http_request \<Rightarrow> bool \<times> http_request" where
  "requestHasFastServiceTier clib r =
     (if queryHasFastServiceTier (h_Query r) then (True, r)
      else (case rq_Body (h_Body r) of
              None \<Rightarrow> (False, r)
            | Some body \<Rightarrow>
                if \<not> (contains ''json'' (content_type r) \<or> (content_type r = [] \<and> h_Method r \<noteq> ''GET''))
                then (False, r)
                else if b_end body \<noteq> None then (False, r\<lparr>h_Body := resetRequestBody [] (h_Body r)\<rparr>)
                else (payloadHasFastServiceTier clib (b_bytes body),
                      r\<lparr>h_Body := resetRequestBody (b_bytes body) (h_Body r)\<rparr>)))"

text \<open>
  What an ASCII word sees of a string under \<open>strings.EqualFold\<close>: ASCII letters fold, and so do the Kelvin
  sign and the long s.
\<close>

fun fold_ascii_view :: "string \<Rightarrow> string" where
  "fold_ascii_view [] = []"
| "fold_ascii_view (c # cs) =
     (if prefix [char_of (0xC5::nat), char_of (0xBF::nat)] (c # cs) then CHR ''s'' # fold_ascii_view (drop 1 cs)
      else if prefix [char_of (0xE2::nat), char_of (0x84::nat), char_of (0xAA::nat)] (c # cs)
      then CHR ''k'' # fold_ascii_view (drop 2 cs)
      else ascii_lower c # fold_ascii_view cs)"

definition websocketRequested :: "http_request \<Rightarrow> bool" where
  "websocketRequested r \<longleftrightarrow>
     fold_ascii_view (header_get (h_Header r) ''Upgrade'') = ''websocket'' \<or>
     contains ''upgrade'' (lower_ascii_view (header_get (h_Header r) ''Connection''))"

section \<open>Dispatch\<close>

text \<open>
  \<open>ServeError\<close> is an error answer with an \<open>Allow\<close> header or without; the other cases name the handler
  that runs and what it is given.
\<close>

datatype served =
    ServeHealth
  | ServeRoot
  | ServeError int string "string option"
  | ServeManagement string
  | ServeUser UserRecord APIKeyRecord
  | ServeModels
  | ServeZed proxyAuthorization
  | ServeChat proxyAuthorization
  | ServeResponses proxyAuthorization
  | ServeProxy upstreamRoute proxyAuthorization

definition serve_error :: "int \<times> string \<Rightarrow> served" where
  "serve_error e = ServeError (fst e) (snd e) None"

definition method_not_allowed :: served where
  "method_not_allowed = ServeError 405 ''method not allowed'' (Some ''POST'')"

definition not_found :: served where
  "not_found = ServeError 404 ''not found'' None"

text \<open>
  A handler behind \<open>authorizeProxy\<close>, and behind the check of the service tier when \<open>tiers\<close> holds. The handlers
  that go upstream are also given the session signals and \<open>requestReplayCandidate\<close> of the same request; reading
  the signals leaves the body as it was (theory \<open>Signal_Properties\<close>), so it is not threaded through here.
\<close>

definition proxied ::
  "gateway \<Rightarrow> go_lib \<Rightarrow> chat_lib \<Rightarrow> bool \<Rightarrow> bool \<Rightarrow> (proxyAuthorization \<Rightarrow> served) \<Rightarrow> http_request \<Rightarrow> server
     \<Rightarrow> (served \<times> http_request) \<times> server" where
  "proxied g lib clib allow tiers handler r s =
     (case authorizeProxy lib r allow s of
        (Inl e, s1) \<Rightarrow> ((serve_error (writeAuthError e), r), s1)
      | (Inr a, s1) \<Rightarrow>
          if tiers \<and> \<not> AllowFastMode g then
            (case requestHasFastServiceTier clib r of
               (True, r1) \<Rightarrow> ((ServeError 400 ''fast mode is disabled'' None, r1), s1)
             | (False, r1) \<Rightarrow> ((handler a, r1), s1))
          else ((handler a, r), s1))"

definition zedEditPredictionsPath :: string where
  "zedEditPredictionsPath = ''/v1/zed/edit-predictions''"

definition serveHTTP ::
  "gateway \<Rightarrow> net_lib \<Rightarrow> go_lib \<Rightarrow> chat_lib \<Rightarrow> http_request \<Rightarrow> server \<Rightarrow> (served \<times> http_request) \<times> server" where
  "serveHTTP g net lib clib r s =
     (if h_Path r = ''/healthz'' then ((ServeHealth, r), s)
      else if h_Path r = ''/'' then ((ServeRoot, r), s)
      else if prefix ''/v0/local-admin/'' (h_Path r) then
        (if \<not> isLoopbackRemoteAddr net (h_RemoteAddr r) then ((not_found, r), s)
         else ((ServeManagement (trim_prefix (h_Path r) ''/v0/local-admin''), r), s))
      else if prefix ''/v0/management/'' (h_Path r) then
        (if \<not> managementAPIEnabled g then ((not_found, r), s)
         else if \<not> authorizedAdmin g r then ((ServeError 401 ''invalid admin API key'' None, r), s)
         else ((ServeManagement (trim_prefix (h_Path r) ''/v0/management''), r), s))
      else if prefix ''/v0/user/'' (h_Path r) then
        (case on_store (authenticateUserAPIKeyFromTokens lib (request_tokens r)) s of
           (Inl e, s1) \<Rightarrow> ((serve_error (writeAuthError e), r), s1)
         | (Inr (u, k), s1) \<Rightarrow> ((ServeUser u k, r), s1))
      else if h_Method r = ''GET'' \<and> h_Path r = ''/v1/models''
      then proxied g lib clib False False (\<lambda>_. ServeModels) r s
      else if h_Path r = zedEditPredictionsPath then
        (if h_Method r \<noteq> ''POST'' then ((method_not_allowed, r), s)
         else proxied g lib clib False False ServeZed r s)
      else if h_Path r = ''/v1/chat/completions'' then
        (if h_Method r \<noteq> ''POST'' then ((method_not_allowed, r), s)
         else proxied g lib clib False True ServeChat r s)
      else if h_Method r = ''POST'' \<and> h_Path r = ''/v1/responses'' \<and> \<not> websocketRequested r
      then proxied g lib clib False True ServeResponses r s
      else (case proxyRoute g (h_Path r) of
              Some route \<Rightarrow> proxied g lib clib (allowUpstreamAuth route) True (ServeProxy route) r s
            | None \<Rightarrow> ((not_found, r), s)))"

text \<open>\<open>ServeHTTP\<close>: a server that is shutting down only answers with its storage failure, or 503.\<close>

definition ServeHTTP ::
  "bool \<Rightarrow> gateway \<Rightarrow> net_lib \<Rightarrow> go_lib \<Rightarrow> chat_lib \<Rightarrow> http_request \<Rightarrow> server \<Rightarrow> (served \<times> http_request) \<times> server" where
  "ServeHTTP stopping g net lib clib r s =
     (if stopping then
        (case failure_current (failures (store s)) of
           Some e \<Rightarrow> ((serve_error (writeStoreError e), r), s)
         | None \<Rightarrow> ((ServeError 503 ''server is shutting down'' None, r), s))
      else serveHTTP g net lib clib r s)"

section \<open>May a request be sent again\<close>

definition upper_ascii_view :: "string \<Rightarrow> string" where
  "upper_ascii_view s = map (\<lambda>c. if is_lower c then char_of (of_char c - 32 :: nat) else c) s"

definition requestReplayCandidate :: "http_request \<Rightarrow> bool" where
  "requestReplayCandidate r =
     (let path = h_Path r; httpMethod = upper_ascii_view (trim_space (h_Method r)) in
      if websocketRequested r then
        path \<in> {''/v1/responses'', ''/backend-api/codex/responses''} \<and> requestBodyWithinReplayLimit (h_Body r)
      else if httpMethod = ''GET'' \<or> httpMethod = ''HEAD'' then requestBodyWithinReplayLimit (h_Body r)
      else if httpMethod \<noteq> ''POST'' then False
      else
        let allowed0 = (path = ''/v1/chat/completions'' \<or> path = zedEditPredictionsPath);
            allowed = (case codexEndpointSuffix path of
                None \<Rightarrow> allowed0
              | Some rest \<Rightarrow>
                  if rest \<in> {''/responses'', ''/responses/compact'', ''/alpha/search'', ''/memories/trace_summarize''} then True
                  else if rest = ''/images/generations'' then content_type r = [] \<or> contains ''json'' (content_type r)
                  else allowed0)
        in allowed \<and> requestBodyWithinReplayLimit (h_Body r))"

section \<open>The headers of upstream requests\<close>

definition DefaultCodexUA :: string where "DefaultCodexUA = ''codex_cli_rs/0.156.1''"
definition websocketBetaHeader :: string where "websocketBetaHeader = ''responses_websockets=2026-02-06''"

definition blank :: "http_header \<Rightarrow> string \<Rightarrow> bool" where
  "blank h k \<longleftrightarrow> trim_space (header_get h k) = []"

definition upstream_user_agent :: "gateway \<Rightarrow> http_request \<Rightarrow> string" where
  "upstream_user_agent g r =
     (let ua0 = trim_space (CodexUserAgent g);
          ua1 = (if ua0 = [] then trim_space (header_get (h_Header r) ''User-Agent'') else ua0)
      in if ua1 = [] \<or> prefix ''Go-http-client/'' ua1 then DefaultCodexUA else ua1)"

text \<open>A header that is only set when it is blank and \<open>c\<close> holds, and the two with a condition of their own.\<close>

definition set_blank :: "bool \<Rightarrow> string \<Rightarrow> string \<Rightarrow> http_header \<Rightarrow> http_header" where
  "set_blank c k v h = (if c \<and> blank h k then header_set k v h else h)"

definition set_content_type :: "http_request \<Rightarrow> http_header \<Rightarrow> http_header" where
  "set_content_type r h =
     (if header_get h ''Content-Type'' = [] \<and> h_Method r \<noteq> ''GET'' then header_set ''Content-Type'' ''application/json'' h else h)"

definition set_account :: "Auth \<Rightarrow> http_header \<Rightarrow> http_header" where
  "set_account a h =
     (if trim_space (AccountID a) \<noteq> [] then header_set ''Chatgpt-Account-Id'' (AccountID a) (header_del ''Chatgpt-Account-Id'' h)
      else header_del ''Chatgpt-Account-Id'' h)"

definition set_websocket_beta :: "bool \<Rightarrow> http_request \<Rightarrow> http_header \<Rightarrow> http_header" where
  "set_websocket_beta websockets r h =
     (if websockets \<and> websocketRequested r then
        let beta = trim_space (header_get h ''Openai-Beta'')
        in if beta = [] \<or> \<not> contains ''responses_websockets='' beta then header_set ''Openai-Beta'' websocketBetaHeader h else h
      else h)"

text \<open>\<open>sessionID\<close> is the random identifier \<open>newSessionID\<close> gives.\<close>

definition applyCodexProxyHeaders ::
  "gateway \<Rightarrow> string \<Rightarrow> http_request \<Rightarrow> Auth \<Rightarrow> bool \<Rightarrow> http_header \<Rightarrow> http_header" where
  "applyCodexProxyHeaders g sessionID r a websockets out =
     (let h1 = header_set ''Authorization'' (''Bearer '' @ AccessToken a) (header_del ''Authorization'' out);
          h2 = set_content_type r h1;
          h3 = set_account a h2;
          h4 = set_blank True ''Originator'' ''codex-tui'' h3;
          ua = upstream_user_agent g r;
          h5 = header_set ''User-Agent'' ua h4;
          h6 = set_blank (contains ''Mac OS'' ua) ''Session_id'' sessionID h5;
          h7 = set_blank (trim_space (CodexBetaFeatures g) \<noteq> []) ''X-Codex-Beta-Features'' (CodexBetaFeatures g) h6
      in set_websocket_beta websockets r h7)"

text \<open>\<open>http.CanonicalHeaderKey\<close>: a key with a byte that no header name has is kept as it is.\<close>

definition token_char :: "char \<Rightarrow> bool" where
  "token_char c \<longleftrightarrow> is_alnum c \<or> c \<in> set ''!#$%&*+-.^_|~'' \<or> c = CHR 0x27 \<or> c = CHR 0x60"

fun canonical_from :: "bool \<Rightarrow> string \<Rightarrow> string" where
  "canonical_from upper [] = []"
| "canonical_from upper (c # cs) =
     (if upper then upper_ascii_view [c] else [ascii_lower c]) @ canonical_from (c = CHR ''-'') cs"

definition canonicalHeaderKey :: "string \<Rightarrow> string" where
  "canonicalHeaderKey k = (if list_all token_char k then canonical_from True k else k)"

definition connection_tokens :: "http_header \<Rightarrow> string list" where
  "connection_tokens h =
     filter (\<lambda>t. t \<noteq> [])
       (concat (map (\<lambda>v. map (\<lambda>t. canonicalHeaderKey (trim_space t)) (split_char CHR '','' v)) (header_values h ''Connection'')))"

definition hop_by_hop :: "string list" where
  "hop_by_hop = [''Connection'', ''Keep-Alive'', ''Proxy-Authenticate'', ''Proxy-Authorization'', ''Proxy-Connection'',
     ''Te'', ''Trailer'', ''Transfer-Encoding'', ''Upgrade'']"

definition removeHopByHopHeaders :: "http_header \<Rightarrow> http_header" where
  "removeHopByHopHeaders h = fold header_del hop_by_hop (fold header_del (connection_tokens h) h)"

text \<open>
  The three places that build an upstream header: a chat completion starts from an empty one, a
  Responses request and a WebSocket handshake from the client's. A request that goes through
  \<open>httputil.ReverseProxy\<close> gets \<open>applyCodexProxyHeaders\<close> on what the library left of the client's header.
\<close>

definition newChatCompletionUpstreamHeader :: "gateway \<Rightarrow> string \<Rightarrow> http_request \<Rightarrow> Auth \<Rightarrow> http_header" where
  "newChatCompletionUpstreamHeader g sessionID r a =
     applyCodexProxyHeaders g sessionID r a False (header_set ''Accept'' ''text/event-stream'' [])"

definition newResponsesCreateUpstreamHeader :: "gateway \<Rightarrow> string \<Rightarrow> http_request \<Rightarrow> Auth \<Rightarrow> http_header" where
  "newResponsesCreateUpstreamHeader g sessionID r a =
     applyCodexProxyHeaders g sessionID r a False
       (header_set ''Accept'' ''text/event-stream'' (removeHopByHopHeaders (h_Header r)))"

definition outboundWebSocketHeader :: "gateway \<Rightarrow> string \<Rightarrow> http_request \<Rightarrow> Auth \<Rightarrow> bool \<Rightarrow> http_header" where
  "outboundWebSocketHeader g sessionID r a websockets =
     applyCodexProxyHeaders g sessionID r a websockets
       (fold header_del [''Connection'', ''Upgrade'', ''Sec-Websocket-Key'', ''Sec-Websocket-Version'',
          ''Sec-Websocket-Extensions'', ''Sec-Websocket-Protocol''] (h_Header r))"

end
