(* ===== verification/Routing_Properties.thy ===== *)
theory Routing_Properties
  imports Request_Routing Chat_Properties
begin

text \<open>
  What the front door guarantees: nothing runs for a request that does not prove that it may, upstream paths
  come from a fixed set, and upstream requests carry the selected credential and none of the client's
  \<open>Authorization\<close>. The key a client sends in \<open>X-Api-Key\<close> does leave the server.
\<close>

section \<open>Keys and credentials that count\<close>

text \<open>The token is an enabled key of the user, who is enabled; and the credentials a scan finds enabled.\<close>

definition holds_key :: "go_lib \<Rightarrow> tables \<Rightarrow> string \<Rightarrow> string \<Rightarrow> bool" where
  "holds_key lib t user token \<longleftrightarrow>
     (case find_hash t (hashAPIKey lib (trim_space token)) of
        None \<Rightarrow> False
      | Some kr \<Rightarrow> kr_enabled (snd kr) \<and> kr_user_id (snd kr) = user \<and>
          (case map_of (users t) user of None \<Rightarrow> False | Some ur \<Rightarrow> ur_enabled ur))"

definition scanned_auths :: "go_lib \<Rightarrow> server \<Rightarrow> Auth list" where
  "scanned_auths lib s =
     (case reconcile lib (now_of s) 0 (disk s) (disk_end s) (auth_files s) of
        (Inl e, fs) \<Rightarrow> []
      | (Inr result, fs) \<Rightarrow> filter (\<lambda>a. \<not> Disabled a) (Auths result))"

definition holds_credential :: "go_lib \<Rightarrow> server \<Rightarrow> string \<Rightarrow> string \<Rightarrow> bool" where
  "holds_credential lib s authID token \<longleftrightarrow>
     token \<noteq> [] \<and> list_ex (\<lambda>a. auth_ID a = authID \<and> trim_space (AccessToken a) = token) (scanned_auths lib s)"

definition by_key :: "go_lib \<Rightarrow> http_request \<Rightarrow> server \<Rightarrow> proxyAuthorization \<Rightarrow> bool" where
  "by_key lib r s a \<longleftrightarrow>
     CompatibilityAuthID a = [] \<and>
     (case pa_UserID a of
        None \<Rightarrow> False
      | Some user \<Rightarrow> list_ex (holds_key lib (db (store s)) user) (request_tokens r))"

definition by_credential :: "go_lib \<Rightarrow> http_request \<Rightarrow> server \<Rightarrow> proxyAuthorization \<Rightarrow> bool" where
  "by_credential lib r s a \<longleftrightarrow>
     pa_UserID a = None \<and> list_ex (holds_credential lib s (CompatibilityAuthID a)) (request_tokens r)"

section \<open>Authentication\<close>

lemma store_error_keeps:
  assumes "store_error op e s = (x, s')" shows "(\<exists>e'. x = Inl e') \<and> db s' = db s \<and> clock s' = clock s"
proof -
  have "clock (snd (x, s')) = clock s" unfolding assms [symmetric] by (rule store_error_simps)
  with store_error_result [OF assms] show ?thesis by simp
qed

lemma sql_keeps:
  assumes "sql base op s k = (x, s')"
  obtains (failed) e where "x = Inl e" "db s' = base" "clock s' = clock s"
  | (passed) s1 where "db s1 = db s" "clock s1 = clock s" "k s1 = (x, s')"
proof -
  obtain r s1 where f: "next_fault s = (r, s1)" by (metis surj_pair)
  show thesis
  proof (cases r)
    case None
    with next_fault_keeps [OF f] assms f show ?thesis by (intro passed) (simp_all add: sql_def)
  next
    case (Some e)
    with assms f have "store_error op e (s1\<lparr>db := base\<rparr>) = (x, s')" by (simp add: sql_def)
    from store_error_keeps [OF this] next_fault_keeps [OF f] failed show ?thesis by auto
  qed
qed

lemma authenticated:
  assumes "AuthenticateAPIKey lib token s = (x, s')"
  shows "clock s' = clock s \<and>
    (case x of Inl e \<Rightarrow> db s' = db s | Inr (u, k) \<Rightarrow> holds_key lib (db s) (u_ID u) token)"
  using assms unfolding AuthenticateAPIKey_def
proof (cases rule: ready_elim)
  case running
  show ?thesis
  proof (cases "trim_space token = []")
    case True
    with running show ?thesis by auto
  next
    case False
    with running have "sql (db s) ''authenticate API key'' s (\<lambda>s.
       case find_hash (db s) (hashAPIKey lib (trim_space token)) of
         None \<Rightarrow> (Inl ErrInvalidAPIKey, s)
       | Some kr \<Rightarrow>
           (case map_of (users (db s)) (kr_user_id (snd kr)) of
              None \<Rightarrow> (Inl ErrInvalidAPIKey, s)
            | Some ur \<Rightarrow>
                (case scan_joined ((kr_user_id (snd kr), ur), Some kr) of
                   None \<Rightarrow> store_error ''authenticate API key'' bad_time s
                 | Some (u, None) \<Rightarrow> (Inl ErrInvalidAPIKey, s)
                 | Some (u, Some k) \<Rightarrow>
                     if \<not> k_Enabled k then (Inl ErrInvalidAPIKey, s)
                     else if \<not> u_Enabled u then (Inl ErrDisabledCredential, s)
                     else sql (db s) ''update API key last used'' s (\<lambda>s.
                       (Inr (u, k\<lparr>LastUsedAt := Some (clock s)\<rparr>),
                        update_keys (map (\<lambda>r. if fst r = k_ID k
                          then (fst r, (snd r)\<lparr>kr_last_used_at := Some (formatDBTime (clock s))\<rparr>) else r)) s))))) = (x, s')"
      by (simp add: Let_def)
    then show ?thesis
    proof (cases rule: sql_keeps)
      case (passed s1)
      from passed(3) show ?thesis
        using passed(1,2)
        by (auto simp: holds_key_def update_keys_def scan_joined_def elim!: sql_keeps
            dest!: store_error_keeps scan_fields split: option.splits prod.splits if_splits)
    qed auto
  qed
qed auto

lemma authenticated_tokens:
  "authenticate_tokens lib tokens d s = (x, s') \<Longrightarrow>
   clock s' = clock s \<and>
   (case x of Inl e \<Rightarrow> db s' = db s | Inr (u, k) \<Rightarrow> list_ex (holds_key lib (db s) (u_ID u)) tokens)"
proof (induction tokens arbitrary: d s)
  case (Cons token tokens)
  obtain y s1 where y: "AuthenticateAPIKey lib token s = (y, s1)" by (metis surj_pair)
  show ?case
  proof (cases y)
    case (Inr c)
    with y Cons.prems authenticated [OF y] show ?thesis by (cases c) auto
  next
    case (Inl e)
    then have s1: "db s1 = db s" "clock s1 = clock s" using authenticated [OF y] by simp_all
    show ?thesis
    proof (cases "err_is e ErrDisabledCredential")
      case True
      with Inl y Cons.prems have "authenticate_tokens lib tokens (Some e) s1 = (x, s')" by simp
      from Cons.IH [OF this] s1 show ?thesis by (auto split: sum.splits)
    next
      case False
      show ?thesis
      proof (cases "err_is e ErrInvalidAPIKey")
        case True
        with False Inl y Cons.prems have "authenticate_tokens lib tokens d s1 = (x, s')" by simp
        from Cons.IH [OF this] s1 show ?thesis by (auto split: sum.splits)
      next
        case False
        with \<open>\<not> err_is e ErrDisabledCredential\<close> Inl y Cons.prems s1 show ?thesis by auto
      qed
    qed
  qed
qed auto

lemma authenticated_request:
  assumes "on_store (authenticateUserAPIKeyFromTokens lib tokens) s = (x, s')"
  shows "disk s' = disk s \<and> disk_end s' = disk_end s \<and> auth_files s' = auth_files s \<and> now_of s' = now_of s \<and>
    (case x of Inl e \<Rightarrow> True | Inr (u, k) \<Rightarrow> list_ex (holds_key lib (db (store s)) (u_ID u)) tokens)"
proof -
  obtain st where st: "authenticateUserAPIKeyFromTokens lib tokens (store s) = (x, st)" and s': "s' = s\<lparr>store := st\<rparr>"
    using assms by (auto simp: on_store_def split: prod.splits)
  from st have "clock st = clock (store s) \<and>
      (case x of Inl e \<Rightarrow> True | Inr (u, k) \<Rightarrow> list_ex (holds_key lib (db (store s)) (u_ID u)) tokens)"
    unfolding authenticateUserAPIKeyFromTokens_def
    by (cases rule: ready_elim) (auto dest: authenticated_tokens split: sum.splits)
  with s' show ?thesis by (simp add: now_of_def)
qed

lemma matched_token:
  assumes "matchCurrentCodexAccessToken lib tokens s = (Inr (Some a), s')"
  shows "list_ex (holds_credential lib s (auth_ID a)) tokens"
proof -
  obtain result where rec: "reconcileAuths lib s = (Inr result, s')" and
    a: "find (current_token tokens) (Active result) = Some a"
    using assms by (auto simp: matchCurrentCodexAccessToken_def split: if_splits sum.splits prod.splits)
  have "on_srv (reconcileAuths lib) (p\<lparr>srv := s\<rparr>) = (Inr result, p\<lparr>srv := s'\<rparr>)" for p
    by (simp add: on_srv_def rec)
  from reconcileAuths_scan [OF this] obtain fs where
    fs: "reconcile lib (now_of s) 0 (disk s) (disk_end s) (auth_files s) = (Inr result, fs)" by auto
  then have "scanned_auths lib s = Active result" by (simp add: scanned_auths_def reconcile_active [OF fs])
  with find_mem [OF a] show ?thesis
    by (auto simp: list_ex_iff holds_credential_def current_token_def Let_def)
qed

lemma authorized:
  assumes "authorizeProxy lib r allow s = (Inr a, s')"
  shows "by_key lib r s a \<or> allow \<and> by_credential lib r s a"
proof -
  obtain x s1 where x: "on_store (authenticateUserAPIKeyFromTokens lib (request_tokens r)) s = (x, s1)" by (metis surj_pair)
  note keeps = authenticated_request [OF x]
  show ?thesis
  proof (cases x)
    case (Inr c)
    with x assms keeps show ?thesis by (cases c) (auto simp: authorizeProxy_def by_key_def)
  next
    case (Inl e)
    with x assms obtain c where allow: allow and c: "matchCurrentCodexAccessToken lib (request_tokens r) s1 = (Inr (Some c), s')"
      and a: "a = \<lparr>pa_UserID = None, CompatibilityAuthID = auth_ID c\<rparr>"
      by (auto simp: authorizeProxy_def split: if_splits prod.splits sum.splits option.splits)
    have "scanned_auths lib s1 = scanned_auths lib s" using keeps by (simp add: scanned_auths_def)
    then have "holds_credential lib s1 = holds_credential lib s" by (simp add: holds_credential_def fun_eq_iff)
    with matched_token [OF c] allow a show ?thesis by (simp add: by_credential_def)
  qed
qed

section \<open>Nothing runs unproved\<close>

definition chatGPT_endpoint :: "string \<Rightarrow> bool" where
  "chatGPT_endpoint rest \<longleftrightarrow>
     isChatGPTFileEndpointSuffix rest \<or> isChatGPTWhamEndpointSuffix rest \<or> isChatGPTHostedMCPEndpointSuffix rest"

definition route_of :: "gateway \<Rightarrow> upstreamRoute \<Rightarrow> bool \<Rightarrow> string \<Rightarrow> bool" where
  "route_of g route compatible rest \<longleftrightarrow>
     (if compatible
      then chatGPT_endpoint rest \<and> baseURL route = chatGPTURL g \<and>
           route_targetPath route = targetPath (chatGPTURL g) ''/backend-api'' rest
      else isCodexEndpointSuffix rest \<and> baseURL route = codexURL g \<and>
           route_targetPath route = targetPath (codexURL g) ''/backend-api/codex'' rest)"

lemma endpoints:
  "codexEndpointSuffix path = Some rest \<Longrightarrow> isCodexEndpointSuffix rest"
  "chatGPTFileEndpointSuffix path = Some rest \<Longrightarrow> isChatGPTFileEndpointSuffix rest"
  "chatGPTWhamEndpointSuffix path = Some rest \<Longrightarrow> isChatGPTWhamEndpointSuffix rest"
  "chatGPTHostedMCPEndpointSuffix path = Some rest \<Longrightarrow> isChatGPTHostedMCPEndpointSuffix rest"
  by (simp_all only: codexEndpointSuffix_def chatGPTFileEndpointSuffix_def chatGPTWhamEndpointSuffix_def
      chatGPTHostedMCPEndpointSuffix_def option.inject option.distinct split: option.splits if_splits)

lemma proxyRoute_fixed:
  "proxyRoute g path = Some route \<Longrightarrow> \<exists>rest. route_of g route (allowUpstreamAuth route) rest"
  by (auto simp: proxyRoute_def chatGPT_route_def route_of_def chatGPT_endpoint_def dest: endpoints split: option.splits)

text \<open>What a request must have shown for each handler.\<close>

fun proved :: "gateway \<Rightarrow> net_lib \<Rightarrow> go_lib \<Rightarrow> http_request \<Rightarrow> server \<Rightarrow> served \<Rightarrow> bool" where
  "proved g net lib r s (ServeManagement p) \<longleftrightarrow>
     h_Path r = ''/v0/local-admin'' @ p \<and> isLoopbackRemoteAddr net (h_RemoteAddr r) \<or>
     h_Path r = ''/v0/management'' @ p \<and> trim_space (AdminAPIKey g) \<noteq> [] \<and>
       trim_space (AdminAPIKey g) \<in> set (request_tokens r)"
| "proved g net lib r s (ServeUser u k) \<longleftrightarrow> list_ex (holds_key lib (db (store s)) (u_ID u)) (request_tokens r)"
| "proved g net lib r s ServeModels \<longleftrightarrow> (\<exists>user. list_ex (holds_key lib (db (store s)) user) (request_tokens r))"
| "proved g net lib r s (ServeZed a) \<longleftrightarrow> h_Method r = ''POST'' \<and> by_key lib r s a"
| "proved g net lib r s (ServeChat a) \<longleftrightarrow>
     h_Method r = ''POST'' \<and> by_key lib r s a \<and> (AllowFastMode g \<or> \<not> queryHasFastServiceTier (h_Query r))"
| "proved g net lib r s (ServeResponses a) \<longleftrightarrow>
     h_Method r = ''POST'' \<and> by_key lib r s a \<and> (AllowFastMode g \<or> \<not> queryHasFastServiceTier (h_Query r))"
| "proved g net lib r s (ServeProxy route a) \<longleftrightarrow>
     (\<exists>compatible rest. route_of g route compatible rest \<and>
        (by_key lib r s a \<or> compatible \<and> by_credential lib r s a)) \<and>
     (AllowFastMode g \<or> \<not> queryHasFastServiceTier (h_Query r))"
| "proved g net lib r s _ \<longleftrightarrow> True"

lemma trim_prefix_append: "prefix p s \<Longrightarrow> p @ trim_prefix s p = s"
  by (auto simp: trim_prefix_def prefix_def)

lemma slow_query: "requestHasFastServiceTier clib r = (fast, r1) \<Longrightarrow> \<not> fast \<Longrightarrow> \<not> queryHasFastServiceTier (h_Query r)"
  by (cases "queryHasFastServiceTier (h_Query r)") (simp_all add: requestHasFastServiceTier_def)

lemma proxied_proved:
  assumes "proxied g lib clib allow tiers handler r s = ((sv, r'), s')"
    and "\<And>a. by_key lib r s a \<or> allow \<and> by_credential lib r s a \<Longrightarrow>
      \<not> tiers \<or> AllowFastMode g \<or> \<not> queryHasFastServiceTier (h_Query r) \<Longrightarrow> proved g net lib r s (handler a)"
  shows "proved g net lib r s sv"
proof -
  obtain x s1 where x: "authorizeProxy lib r allow s = (x, s1)" by (metis surj_pair)
  show ?thesis
  proof (cases x)
    case (Inl e)
    with assms x show ?thesis by (auto simp: proxied_def serve_error_def)
  next
    case (Inr a)
    note who = authorized [OF x [unfolded Inr]]
    obtain fast r1 where fast: "requestHasFastServiceTier clib r = (fast, r1)" by (metis surj_pair)
    have "sv = handler a \<Longrightarrow> \<not> (tiers \<and> \<not> AllowFastMode g) \<or> \<not> fast \<Longrightarrow> ?thesis"
      using assms(2) [OF who] slow_query fast by blast
    with assms(1) x Inr fast show ?thesis
      by (cases fast) (auto simp: proxied_def split: if_splits)
  qed
qed

lemma by_key_user: "by_key lib r s a \<Longrightarrow> \<exists>user. list_ex (holds_key lib (db (store s)) user) (request_tokens r)"
  by (auto simp: by_key_def split: option.splits)

lemma surjective_served: "x = ((fst (fst x), snd (fst x)), snd x)"
  by simp

text \<open>
  C5: A request reaches a handler only with the proof that handler asks for. Management runs for a loopback peer
  or a request with the configured, non-empty admin key; everything else but the health page needs a
  token that is the stored, enabled key of an enabled user, and the user named in the authorization is the
  owner of that key. Only on routes to the ChatGPT backend may a token instead be the access token of a
  credential that a scan made for this request finds enabled. A proxied path is one of the fixed
  endpoints behind the configured base, and no request for the fast tier passes when it is switched off.
\<close>

theorem served_is_proved:
  assumes "ServeHTTP stopping g net lib clib r s = ((sv, r'), s')"
  shows "proved g net lib r s sv"
proof (cases stopping)
  case True
  with assms show ?thesis by (auto simp: ServeHTTP_def serve_error_def split: option.splits)
next
  case False
  define P where "P = proved g net lib r s"
  let ?served = "\<lambda>x :: (served \<times> http_request) \<times> server. fst (fst x)"
  have errors: "P not_found" "P method_not_allowed" "\<And>e. P (serve_error e)" "\<And>i m w. P (ServeError i m w)"
    "P ServeHealth" "P ServeRoot"
    by (simp_all add: P_def not_found_def method_not_allowed_def serve_error_def)
  have local: "P (ServeManagement (trim_prefix (h_Path r) ''/v0/local-admin''))"
    if "prefix ''/v0/local-admin/'' (h_Path r)" "isLoopbackRemoteAddr net (h_RemoteAddr r)"
    using that trim_prefix_append [of "''/v0/local-admin''" "h_Path r"] by (auto simp: P_def prefix_def)
  have admin: "P (ServeManagement (trim_prefix (h_Path r) ''/v0/management''))"
    if "prefix ''/v0/management/'' (h_Path r)" "authorizedAdmin g r"
    using that trim_prefix_append [of "''/v0/management''" "h_Path r"]
    by (auto simp: P_def prefix_def authorizedAdmin_def managementAPIEnabled_def list_ex_iff split: if_splits)
  have user: "P (?served (case on_store (authenticateUserAPIKeyFromTokens lib (request_tokens r)) s of
           (Inl e, s1) \<Rightarrow> ((serve_error (writeAuthError e), r), s1)
         | (Inr (u, k), s1) \<Rightarrow> ((ServeUser u k, r), s1)))"
    by (auto simp: P_def serve_error_def split: prod.splits sum.splits dest: authenticated_request)
  have passes: "P (?served (proxied g lib clib allow tiers handler r s))"
    if "\<And>a. by_key lib r s a \<or> allow \<and> by_credential lib r s a \<Longrightarrow>
      \<not> tiers \<or> AllowFastMode g \<or> \<not> queryHasFastServiceTier (h_Query r) \<Longrightarrow> P (handler a)" for allow tiers handler
    using that unfolding P_def by (rule proxied_proved [OF surjective_served])
  have models: "P (?served (proxied g lib clib False False (\<lambda>_. ServeModels) r s))"
    by (rule passes) (auto simp: P_def dest: by_key_user)
  have zed: "P (?served (proxied g lib clib False False ServeZed r s))" if "h_Method r = ''POST''"
    by (rule passes) (use that in \<open>auto simp: P_def\<close>)
  have chat: "P (?served (proxied g lib clib False True ServeChat r s))" if "h_Method r = ''POST''"
    by (rule passes) (use that in \<open>auto simp: P_def\<close>)
  have responses: "P (?served (proxied g lib clib False True ServeResponses r s))" if "h_Method r = ''POST''"
    by (rule passes) (use that in \<open>auto simp: P_def\<close>)
  have proxy: "P (?served (proxied g lib clib (allowUpstreamAuth route) True (ServeProxy route) r s))"
    if "proxyRoute g (h_Path r) = Some route" for route
    by (rule passes) (use proxyRoute_fixed [OF that] in \<open>auto simp: P_def\<close>)
  have choose: "P (?served (if c then a else b))" if "c \<Longrightarrow> P (?served a)" "\<not> c \<Longrightarrow> P (?served b)" for c a b
    using that by simp
  have "P (?served (serveHTTP g net lib clib r s))"
    unfolding serveHTTP_def
    apply (intro choose)
    subgoal by (simp only: fst_conv errors)
    subgoal by (simp only: fst_conv errors)
    subgoal by (simp only: fst_conv errors)
    subgoal by (simp only: fst_conv not_not local)
    subgoal by (simp only: fst_conv errors)
    subgoal by (simp only: fst_conv errors)
    subgoal by (simp only: fst_conv not_not admin)
    subgoal by (rule user)
    subgoal by (rule models)
    subgoal by (simp only: fst_conv errors)
    subgoal by (rule zed) (simp only: not_not)
    subgoal by (simp only: fst_conv errors)
    subgoal by (rule chat) (simp only: not_not)
    subgoal by (rule responses) (simp only: simp_thms)
    subgoal by (cases "proxyRoute g (h_Path r)") (simp_all only: option.case fst_conv errors proxy)
    done
  with False assms show ?thesis by (simp add: ServeHTTP_def P_def)
qed

section \<open>Credentials stay on their side\<close>

lemma header_steps [simp]:
  "k' \<noteq> k \<Longrightarrow> header_values (set_blank c k v h) k' = header_values h k'"
  "k' \<noteq> ''Content-Type'' \<Longrightarrow> header_values (set_content_type r h) k' = header_values h k'"
  "k' \<noteq> ''Chatgpt-Account-Id'' \<Longrightarrow> header_values (set_account a h) k' = header_values h k'"
  "header_values (set_account a h) ''Chatgpt-Account-Id'' = (if trim_space (AccountID a) \<noteq> [] then [AccountID a] else [])"
  "k' \<noteq> ''Openai-Beta'' \<Longrightarrow> header_values (set_websocket_beta ws r h) k' = header_values h k'"
  by (simp_all add: set_blank_def set_content_type_def set_account_def set_websocket_beta_def Let_def)

lemma proxy_headers_identity:
  "header_values (applyCodexProxyHeaders g sid r a ws out) ''Authorization'' = [''Bearer '' @ AccessToken a]"
  "header_values (applyCodexProxyHeaders g sid r a ws out) ''Chatgpt-Account-Id''
     = (if trim_space (AccountID a) \<noteq> [] then [AccountID a] else [])"
  by (simp_all add: applyCodexProxyHeaders_def Let_def)

lemma proxy_headers_keep:
  assumes "k \<notin> {''Authorization'', ''Chatgpt-Account-Id'', ''Content-Type'', ''Originator'', ''User-Agent'', ''Session_id'',
    ''X-Codex-Beta-Features'', ''Openai-Beta''}"
  shows "header_values (applyCodexProxyHeaders g sid r a ws out) k = header_values out k"
  using assms by (simp add: applyCodexProxyHeaders_def Let_def)

lemma fold_del_values: "header_values (fold header_del ks h) k = (if k \<in> set ks then [] else header_values h k)"
  by (induction ks arbitrary: h) auto

lemma upstream_identity:
  "header_values (newChatCompletionUpstreamHeader g sid r a) ''Authorization'' = [''Bearer '' @ AccessToken a]"
  "header_values (newResponsesCreateUpstreamHeader g sid r a) ''Authorization'' = [''Bearer '' @ AccessToken a]"
  "header_values (outboundWebSocketHeader g sid r a ws) ''Authorization'' = [''Bearer '' @ AccessToken a]"
  by (simp_all add: newChatCompletionUpstreamHeader_def newResponsesCreateUpstreamHeader_def
      outboundWebSocketHeader_def proxy_headers_identity)

text \<open>
  The key a client sends in \<open>X-Api-Key\<close> reaches the upstream on a Responses request, unless the client itself
  lists it as a connection header, and on every WebSocket handshake.
\<close>

lemma user_key_leaves_server:
  assumes "''X-Api-Key'' \<notin> set (connection_tokens (h_Header r))"
  shows "header_values (newResponsesCreateUpstreamHeader g sid r a) ''X-Api-Key'' = header_values (h_Header r) ''X-Api-Key''"
    "header_values (outboundWebSocketHeader g sid r a ws) ''X-Api-Key'' = header_values (h_Header r) ''X-Api-Key''"
    "header_values (newChatCompletionUpstreamHeader g sid r a) ''X-Api-Key'' = []"
  using assms
  by (simp_all add: newResponsesCreateUpstreamHeader_def outboundWebSocketHeader_def newChatCompletionUpstreamHeader_def
      proxy_headers_keep removeHopByHopHeaders_def fold_del_values hop_by_hop_def header_values_def [of "[]"])

text \<open>A body that cannot be read to its end is replaced by an empty one when the tier is checked.\<close>

lemma unreadable_body_is_emptied:
  assumes "rq_Body (h_Body r) = Some body" "b_end body = Some e" "contains ''json'' (content_type r)"
    "\<not> queryHasFastServiceTier (h_Query r)"
  shows "requestHasFastServiceTier clib r = (False, r\<lparr>h_Body := resetRequestBody [] (h_Body r)\<rparr>)"
  using assms by (simp add: requestHasFastServiceTier_def)

section \<open>Concrete runs\<close>

definition demo_gateway :: gateway where
  "demo_gateway = \<lparr>AdminAPIKey = [], AllowFastMode = True, CodexUserAgent = [], CodexBetaFeatures = [],
     codexURL = \<lparr>url_Scheme = ''https'', url_Host = ''codex'', url_Path = ''/base/''\<rparr>,
     chatGPTURL = \<lparr>url_Scheme = ''https'', url_Host = ''chat'', url_Path = []\<rparr>\<rparr>"

definition no_net :: net_lib where "no_net = \<lparr>split_host_port = (\<lambda>a. None), parse_loopback = (\<lambda>h. False)\<rparr>"

definition demo_http :: "string \<Rightarrow> http_request" where
  "demo_http path = \<lparr>h_Method = ''POST'', h_Path = path, h_RemoteAddr = [],
     h_Header = [(''Authorization'', [''Bearer cop_k''])], h_Query = [],
     h_Body = \<lparr>rq_Body = None, rq_ContentLength = 0, rq_GetBody = None\<rparr>\<rparr>"

lemma demo_tokens: "request_tokens (demo_http path) = [''cop_k'']"
proof -
  have "candidateProxyTokens ''Bearer cop_k'' [] = [''cop_k'']" by code_simp
  then show ?thesis
    by (simp add: request_tokens_def demo_http_def header_get_def header_values_def)
qed

definition demo_route :: upstreamRoute where
  "demo_route = \<lparr>baseURL = codexURL demo_gateway, route_targetPath = ''/base/realtime'', responsesWebsocket = False,
     allowUpstreamAuth = False\<rparr>"

lemma demo_routed: "proxyRoute demo_gateway ''/v1/realtime'' = Some demo_route"
  by (simp add: proxyRoute_def codexEndpointSuffix_def stripPathPrefix_def isCodexEndpointSuffix_def trim_prefix_def
      targetPath_def trim_right_slashes_def Let_def demo_route_def demo_gateway_def)

theorem served_is_proved_witness:
  "\<exists>r' s'. ServeHTTP False demo_gateway no_net key_lib demo_lib (demo_http ''/v1/realtime'')
       ((demo_server [])\<lparr>store := demo_users\<rparr>)
     = ((ServeProxy demo_route \<lparr>pa_UserID = Some ''usr_u'', CompatibilityAuthID = []\<rparr>, r'), s') \<and>
     proved demo_gateway no_net key_lib (demo_http ''/v1/realtime'') ((demo_server [])\<lparr>store := demo_users\<rparr>)
       (ServeProxy demo_route \<lparr>pa_UserID = Some ''usr_u'', CompatibilityAuthID = []\<rparr>)"
proof -
  obtain k where "fst (AuthenticateAPIKey key_lib ''cop_k'' demo_users) = Inr (Ann, k)" using demo_authenticates by blast
  then obtain st where "AuthenticateAPIKey key_lib ''cop_k'' demo_users = (Inr (Ann, k), st)" by (metis fst_conv surj_pair)
  then have "authenticateUserAPIKeyFromTokens key_lib [''cop_k''] demo_users = (Inr (Ann, k), st)"
    by (simp add: authenticateUserAPIKeyFromTokens_def)
  then obtain s' where auth: "authorizeProxy key_lib (demo_http ''/v1/realtime'') False ((demo_server [])\<lparr>store := demo_users\<rparr>)
      = (Inr \<lparr>pa_UserID = Some ''usr_u'', CompatibilityAuthID = []\<rparr>, s')"
    by (auto simp: authorizeProxy_def demo_tokens on_store_def Ann_def)
  have path: "h_Path (demo_http ''/v1/realtime'') = ''/v1/realtime''" "h_Method (demo_http ''/v1/realtime'') = ''POST''"
    by (simp_all add: demo_http_def)
  have allowed: "allowUpstreamAuth demo_route = False" "AllowFastMode demo_gateway"
    by (simp_all add: demo_route_def demo_gateway_def)
  have "\<exists>r'. ServeHTTP False demo_gateway no_net key_lib demo_lib (demo_http ''/v1/realtime'')
       ((demo_server [])\<lparr>store := demo_users\<rparr>)
     = ((ServeProxy demo_route \<lparr>pa_UserID = Some ''usr_u'', CompatibilityAuthID = []\<rparr>, r'), s')"
    by (simp add: ServeHTTP_def serveHTTP_def path demo_routed zedEditPredictionsPath_def proxied_def auth allowed)
  then show ?thesis using served_is_proved by blast
qed

end
