(* ===== verification/Signal_Extraction.thy ===== *)
theory Signal_Extraction
  imports Routing_Properties Session_Affinity
begin

text \<open>
  How the session signals of a request are read (\<open>session_affinity.go\<close>): from its headers and, token by
  token, from its JSON body, which is copied while it is read so that it can be handed on.

  The body is the list of the results of the reads of \<open>r.Body\<close>: data, and the error that comes with it;
  after the last one every read gives \<open>io.EOF\<close>. A read that returns data together with \<open>io.EOF\<close> is one
  with the data alone. The environment further chooses the sizes of the reads, whether the temporary
  file can be created, and how much each write to it writes.
\<close>

section \<open>Candidates and conflicts\<close>

record accumulator =
  candidates :: "(string \<times> string) list"
  conflicts :: "string list"

definition newSessionAffinitySignalAccumulator :: accumulator where
  "newSessionAffinitySignalAccumulator = \<lparr>candidates = [], conflicts = []\<rparr>"

definition mark_conflict :: "string \<Rightarrow> accumulator \<Rightarrow> accumulator" where
  "mark_conflict kind a = a\<lparr>candidates := AList.delete kind (candidates a), conflicts := List.insert kind (conflicts a)\<rparr>"

definition add_signal :: "string \<Rightarrow> string \<Rightarrow> accumulator \<Rightarrow> accumulator" where
  "add_signal kind raw a =
     (case normalizeSessionAffinitySignal raw of
        None \<Rightarrow> a
      | Some value \<Rightarrow>
          if kind \<in> set (conflicts a) then a
          else (case map_of (candidates a) kind of
                  Some current \<Rightarrow> if current \<noteq> value then mark_conflict kind a else a\<lparr>candidates := AList.update kind value (candidates a)\<rparr>
                | None \<Rightarrow> a\<lparr>candidates := AList.update kind value (candidates a)\<rparr>))"

definition merge_signals :: "accumulator \<Rightarrow> accumulator \<Rightarrow> accumulator" where
  "merge_signals other a =
     fold (\<lambda>p. add_signal (fst p) (snd p)) (candidates other) (fold mark_conflict (conflicts other) a)"

definition accumulated :: "accumulator \<Rightarrow> sessionAffinitySignal list" where
  "accumulated a =
     concat (map (\<lambda>kind. case map_of (candidates a) kind of
         Some value \<Rightarrow> if value \<noteq> [] \<and> kind \<notin> set (conflicts a) then [\<lparr>signal_Kind = kind, signal_Value = value\<rparr>] else []
       | None \<Rightarrow> []) affinity_kinds)"

section \<open>The token stream\<close>

text \<open>
  What \<open>decoder.Token\<close> gives: a delimiter, a string, or another scalar. The stream ends at the end of the
  input or in an error. \<open>decoder.More\<close> says that the next token is there and closes nothing.
\<close>

datatype jtoken = TokDelim char | TokStr string | TokScalar

definition opens :: "char \<Rightarrow> bool" where "opens c \<longleftrightarrow> c = CHR ''{'' \<or> c = CHR ''[''"
definition closes :: "char \<Rightarrow> bool" where "closes c \<longleftrightarrow> c = CHR ''}'' \<or> c = CHR '']''"

definition has_more :: "jtoken list \<Rightarrow> bool" where
  "has_more ts = (case ts of [] \<Rightarrow> False | TokDelim c # rest \<Rightarrow> \<not> closes c | _ \<Rightarrow> True)"

fun skip_depth :: "nat \<Rightarrow> jtoken list \<Rightarrow> jtoken list option" where
  "skip_depth 0 ts = Some ts"
| "skip_depth (Suc d) [] = None"
| "skip_depth (Suc d) (t # ts) =
     (case t of
        TokDelim c \<Rightarrow> if opens c then skip_depth (Suc (Suc d)) ts else if closes c then skip_depth d ts else skip_depth (Suc d) ts
      | _ \<Rightarrow> skip_depth (Suc d) ts)"

definition skipOpenedSessionAffinityJSONValue :: "char \<Rightarrow> jtoken list \<Rightarrow> jtoken list option" where
  "skipOpenedSessionAffinityJSONValue c ts = (if \<not> opens c then Some ts else skip_depth 1 ts)"

definition skipSessionAffinityJSONValue :: "jtoken list \<Rightarrow> jtoken list option" where
  "skipSessionAffinityJSONValue ts =
     (case ts of
        [] \<Rightarrow> None
      | TokDelim c # rest \<Rightarrow> skipOpenedSessionAffinityJSONValue c rest
      | _ # rest \<Rightarrow> Some rest)"

definition readSessionAffinityString :: "string \<Rightarrow> accumulator \<Rightarrow> jtoken list \<Rightarrow> (accumulator \<times> jtoken list) option" where
  "readSessionAffinityString kind a ts =
     (case ts of
        [] \<Rightarrow> None
      | TokStr v # rest \<Rightarrow> Some (add_signal kind v a, rest)
      | TokDelim c # rest \<Rightarrow> map_option (Pair a) (skipOpenedSessionAffinityJSONValue c rest)
      | TokScalar # rest \<Rightarrow> Some (a, rest))"

lemma skip_depth_length: "skip_depth d ts = Some rest \<Longrightarrow> length rest \<le> length ts"
  by (induction d ts rule: skip_depth.induct) (auto split: jtoken.splits if_splits)

lemma skip_value_length: "skipSessionAffinityJSONValue ts = Some rest \<Longrightarrow> length rest \<le> length ts"
  by (auto simp: skipSessionAffinityJSONValue_def skipOpenedSessionAffinityJSONValue_def
      split: list.splits jtoken.splits if_splits dest: skip_depth_length)

lemma read_string_length: "readSessionAffinityString kind a ts = Some (a', rest) \<Longrightarrow> length rest \<le> length ts"
  by (auto simp: readSessionAffinityString_def skipOpenedSessionAffinityJSONValue_def
      split: list.splits jtoken.splits if_splits dest: skip_depth_length)

text \<open>The members of an opened object, up to and with its closing brace; \<open>member_step\<close> reads one value.\<close>

function members ::
  "(string \<Rightarrow> accumulator \<Rightarrow> jtoken list \<Rightarrow> (accumulator \<times> jtoken list) option) \<Rightarrow> accumulator \<Rightarrow> jtoken list
     \<Rightarrow> (accumulator \<times> jtoken list) option" where
  "members member_step a ts =
     (if \<not> has_more ts then
        (case ts of TokDelim c # rest \<Rightarrow> if c = CHR ''}'' then Some (a, rest) else None | _ \<Rightarrow> None)
      else (case ts of
              TokStr key # rest \<Rightarrow>
                (case member_step key a rest of
                   None \<Rightarrow> None
                 | Some (a', rest') \<Rightarrow> if length rest' \<le> length rest then members member_step a' rest' else None)
            | _ \<Rightarrow> None))"
  by pat_completeness auto
termination by (relation "measure (\<lambda>(f, a, ts). length ts)") auto

declare members.simps [simp del]

definition skip_member :: "accumulator \<Rightarrow> jtoken list \<Rightarrow> (accumulator \<times> jtoken list) option" where
  "skip_member a ts = map_option (Pair a) (skipSessionAffinityJSONValue ts)"

definition conversation_member :: "string \<Rightarrow> accumulator \<Rightarrow> jtoken list \<Rightarrow> (accumulator \<times> jtoken list) option" where
  "conversation_member key a ts =
     (if key = ''id'' then readSessionAffinityString ''conversation_id'' a ts else skip_member a ts)"

definition readSessionAffinityConversation :: "accumulator \<Rightarrow> jtoken list \<Rightarrow> (accumulator \<times> jtoken list) option" where
  "readSessionAffinityConversation a ts =
     (case ts of
        [] \<Rightarrow> None
      | TokDelim c # rest \<Rightarrow>
          if c \<noteq> CHR ''{'' then map_option (Pair a) (skipOpenedSessionAffinityJSONValue c rest)
          else members conversation_member a rest
      | _ # rest \<Rightarrow> Some (a, rest))"

definition object_member :: "string \<Rightarrow> accumulator \<Rightarrow> jtoken list \<Rightarrow> (accumulator \<times> jtoken list) option" where
  "object_member key a ts =
     (if key = ''session_id'' \<or> key = ''sessionId'' then readSessionAffinityString ''session_id'' a ts
      else if key = ''prompt_cache_key'' then readSessionAffinityString ''prompt_cache_key'' a ts
      else if key = ''conversation_id'' then readSessionAffinityString ''conversation_id'' a ts
      else if key = ''conversation'' then readSessionAffinityConversation a ts
      else skip_member a ts)"

datatype tok_end = TokEof | TokFails

definition parseSessionAffinityJSONObject :: "jtoken list \<Rightarrow> tok_end \<Rightarrow> accumulator option" where
  "parseSessionAffinityJSONObject ts fin =
     (case ts of
        TokDelim c # rest \<Rightarrow>
          if c \<noteq> CHR ''{'' then None
          else (case members object_member newSessionAffinitySignalAccumulator rest of
                  Some (a, []) \<Rightarrow> if fin = TokEof then Some a else None
                | _ \<Rightarrow> None)
      | _ \<Rightarrow> None)"

section \<open>The encoding check\<close>

text \<open>\<open>utf8.FullRune\<close>, and the size \<open>utf8.DecodeRune\<close> gives; an invalid encoding has size 1.\<close>

definition rune_size :: "nat \<Rightarrow> nat" where
  "rune_size b0 =
     (if 0xC2 \<le> b0 \<and> b0 \<le> 0xDF then 2 else if 0xE0 \<le> b0 \<and> b0 \<le> 0xEF then 3
      else if 0xF0 \<le> b0 \<and> b0 \<le> 0xF4 then 4 else 1)"

definition full_rune :: "nat list \<Rightarrow> bool" where
  "full_rune bs =
     (case bs of
        [] \<Rightarrow> False
      | b0 # rest \<Rightarrow>
          let low = (if b0 = 0xE0 then 0xA0 else if b0 = 0xF0 then 0x90 else 0x80);
              high = (if b0 = 0xED then 0x9F else if b0 = 0xF4 then 0x8F else 0xBF)
          in length bs \<ge> rune_size b0 \<or>
             (rest \<noteq> [] \<and> \<not> (low \<le> rest ! 0 \<and> rest ! 0 \<le> high)) \<or>
             (length rest > 1 \<and> \<not> (0x80 \<le> rest ! 1 \<and> rest ! 1 \<le> 0xBF)))"

record unicode_validator =
  utf8Pending :: "nat list"
  inString :: bool
  escaped :: bool
  unicodeDigits :: nat
  unicodeValue :: "16 word"
  pendingHigh :: bool
  invalidEncoding :: bool

definition new_validator :: unicode_validator where
  "new_validator = \<lparr>utf8Pending = [], inString = False, escaped = False, unicodeDigits = 0, unicodeValue = 0,
     pendingHigh = False, invalidEncoding = False\<rparr>"

fun fill_pending :: "nat list \<Rightarrow> nat list \<Rightarrow> nat list \<times> nat list" where
  "fill_pending held [] = (held, [])"
| "fill_pending held (b # bs) =
     (if full_rune held then (held, b # bs) else fill_pending (held @ [b]) bs)"

text \<open>The loop over whole runes; \<open>skip\<close> counts the bytes of the current one that are left.\<close>

declare decode_rune.simps [simp del]

fun validate_runes :: "nat \<Rightarrow> nat list \<Rightarrow> unicode_validator \<Rightarrow> unicode_validator" where
  "validate_runes skip [] v = v"
| "validate_runes (Suc skip) (b # bs) v = validate_runes skip bs v"
| "validate_runes 0 (b # bs) v =
     (if b < 0x80 then validate_runes 0 bs v
      else if \<not> full_rune (b # bs) then v\<lparr>utf8Pending := b # bs\<rparr>
      else (case decode_rune (b # bs) of
              None \<Rightarrow> validate_runes 0 bs (v\<lparr>invalidEncoding := True\<rparr>)
            | Some (r, n) \<Rightarrow> validate_runes n bs v))"

definition validateUTF8 :: "nat list \<Rightarrow> unicode_validator \<Rightarrow> unicode_validator" where
  "validateUTF8 bs v =
     (if utf8Pending v = [] then validate_runes 0 bs v
      else (case fill_pending (utf8Pending v) bs of
              (held, rest) \<Rightarrow>
                if \<not> full_rune held then v\<lparr>utf8Pending := held\<rparr>
                else validate_runes 0 rest
                       (v\<lparr>utf8Pending := [], invalidEncoding := invalidEncoding v \<or> decode_rune held = None\<rparr>)))"

definition sessionAffinityHexDigit :: "nat \<Rightarrow> nat option" where
  "sessionAffinityHexDigit b =
     (if 0x30 \<le> b \<and> b \<le> 0x39 then Some (b - 0x30)
      else if 0x61 \<le> b \<and> b \<le> 0x66 then Some (b - 0x61 + 10)
      else if 0x41 \<le> b \<and> b \<le> 0x46 then Some (b - 0x41 + 10)
      else None)"

definition finishUnicodeEscape :: "unicode_validator \<Rightarrow> unicode_validator" where
  "finishUnicodeEscape v =
     (let u = unicodeValue v;
          v1 = (if 0xD800 \<le> u \<and> u \<le> 0xDBFF then
                  v\<lparr>invalidEncoding := invalidEncoding v \<or> pendingHigh v, pendingHigh := True\<rparr>
                else if 0xDC00 \<le> u \<and> u \<le> 0xDFFF then
                  v\<lparr>invalidEncoding := invalidEncoding v \<or> \<not> pendingHigh v, pendingHigh := False\<rparr>
                else v\<lparr>invalidEncoding := invalidEncoding v \<or> pendingHigh v, pendingHigh := False\<rparr>)
      in v1\<lparr>unicodeValue := 0\<rparr>)"

definition validateJSONStringByte :: "nat \<Rightarrow> unicode_validator \<Rightarrow> unicode_validator" where
  "validateJSONStringByte b v =
     (if \<not> inString v then (if b = 0x22 then v\<lparr>inString := True\<rparr> else v)
      else if unicodeDigits v > 0 then
        (case sessionAffinityHexDigit b of
           None \<Rightarrow> v\<lparr>invalidEncoding := True, unicodeDigits := 0, unicodeValue := 0\<rparr>
         | Some digit \<Rightarrow>
             let v1 = v\<lparr>unicodeValue := or (push_bit 4 (unicodeValue v)) (word_of_nat digit), unicodeDigits := unicodeDigits v - 1\<rparr>
             in if unicodeDigits v1 = 0 then finishUnicodeEscape v1 else v1)
      else if escaped v then
        (let v1 = v\<lparr>escaped := False\<rparr>
         in if b = 0x75 then v1\<lparr>unicodeDigits := 4, unicodeValue := 0\<rparr>
            else if pendingHigh v1 then v1\<lparr>invalidEncoding := True, pendingHigh := False\<rparr> else v1)
      else if pendingHigh v \<and> b = 0x5C then v\<lparr>escaped := True\<rparr>
      else
        (let v1 = (if pendingHigh v then v\<lparr>invalidEncoding := True, pendingHigh := False\<rparr> else v)
         in if b = 0x5C then v1\<lparr>escaped := True\<rparr> else if b = 0x22 then v1\<lparr>inString := False\<rparr> else v1))"

definition validator_write :: "string \<Rightarrow> unicode_validator \<Rightarrow> unicode_validator" where
  "validator_write p v =
     (let bs = map of_char p in if bs = [] then v else fold validateJSONStringByte bs (validateUTF8 bs v))"

definition validator_valid :: "unicode_validator \<Rightarrow> bool" where
  "validator_valid v \<longleftrightarrow> \<not> invalidEncoding v \<and> utf8Pending v = [] \<and> unicodeDigits v = 0 \<and> \<not> pendingHigh v"

section \<open>The copy of the body\<close>

definition sessionAffinityReplayMemoryBytes :: nat where "sessionAffinityReplayMemoryBytes = 65536"
definition sessionAffinityReplayReadBytes :: nat where "sessionAffinityReplayReadBytes = 32768"

text \<open>\<open>rp_writes\<close> and \<open>rp_create\<close> are the environment's: what each write writes and how it ends, and why no file can be made.\<close>

record replay_store =
  rp_memory :: string
  rp_file :: "string option"
  rp_fileBytes :: nat
  rp_tail :: string
  rp_spillErr :: "go_err option"
  rp_writes :: "(nat \<times> go_err option) list"
  rp_create :: "go_err option"

definition short_write :: go_err where "short_write = PlainError ''short write''"

definition next_write :: "string \<Rightarrow> replay_store \<Rightarrow> nat \<times> go_err option" where
  "next_write p st = (case rp_writes st of [] \<Rightarrow> (length p, None) | (n, e) # ws \<Rightarrow> (min n (length p), e))"

definition spillToFile :: "replay_store \<Rightarrow> go_err option \<times> replay_store" where
  "spillToFile st =
     (case rp_create st of
        Some e \<Rightarrow> (Some e, st)
      | None \<Rightarrow>
          (case next_write (rp_memory st) st of
             (n, e0) \<Rightarrow>
               let e = (if e0 = None \<and> n \<noteq> length (rp_memory st) then Some short_write else e0);
                   st1 = st\<lparr>rp_writes := tl (rp_writes st)\<rparr>
               in if e \<noteq> None then (e, st1)
                  else (None, st1\<lparr>rp_file := Some (take n (rp_memory st)), rp_fileBytes := n, rp_memory := []\<rparr>)))"

definition prepareRead :: "nat \<Rightarrow> replay_store \<Rightarrow> go_err option \<times> replay_store" where
  "prepareRead want st =
     (if rp_file st \<noteq> None \<or> length (rp_memory st) + want \<le> sessionAffinityReplayMemoryBytes then (None, st)
      else spillToFile st)"

definition replay_append :: "string \<Rightarrow> replay_store \<Rightarrow> go_err option \<times> replay_store" where
  "replay_append p st =
     (if p = [] then (None, st)
      else (case rp_file st of
              None \<Rightarrow> (None, st\<lparr>rp_memory := rp_memory st @ p\<rparr>)
            | Some f \<Rightarrow>
                (case next_write p st of
                   (n, e0) \<Rightarrow>
                     let e = (if n < length p \<and> e0 = None then Some short_write else e0)
                     in (e, st\<lparr>rp_file := Some (f @ take n p), rp_fileBytes := rp_fileBytes st + n,
                              rp_tail := rp_tail st @ drop n p, rp_writes := tl (rp_writes st),
                              rp_spillErr := (if e \<noteq> None then e else rp_spillErr st)\<rparr>))))"

record inspection =
  in_source :: "(string \<times> go_err option) list"
  src_err :: "go_err option"
  src_bytesRead :: nat
  src_errorOffset :: nat
  in_unicode :: unicode_validator
  in_replay :: replay_store

datatype read_end = ReadOk | ReadEof | ReadErr go_err

definition source_read :: "inspection \<Rightarrow> (string \<times> read_end) \<times> inspection" where
  "source_read st =
     (case in_source st of
        [] \<Rightarrow> (([], ReadEof), st)
      | (d, e) # rs \<Rightarrow>
          let st1 = st\<lparr>in_source := rs, src_bytesRead := src_bytesRead st + length d,
                       in_unicode := validator_write d (in_unicode st)\<rparr>
          in (case e of
                None \<Rightarrow> ((d, ReadOk), st1)
              | Some err \<Rightarrow>
                  ((d, ReadErr err),
                   if src_err st1 = None then st1\<lparr>src_err := Some err, src_errorOffset := src_bytesRead st1\<rparr> else st1)))"

definition set_replay :: "replay_store \<Rightarrow> inspection \<Rightarrow> inspection" where
  "set_replay rp st = st\<lparr>in_replay := rp\<rparr>"

definition replay_read :: "nat \<Rightarrow> inspection \<Rightarrow> read_end \<times> inspection" where
  "replay_read want st =
     (case rp_spillErr (in_replay st) of
        Some e \<Rightarrow> (ReadErr e, st)
      | None \<Rightarrow>
          (case prepareRead (min want sessionAffinityReplayReadBytes) (in_replay st) of
             (Some e, rp) \<Rightarrow> (ReadErr e, set_replay (rp\<lparr>rp_spillErr := Some e\<rparr>) st)
           | (None, rp) \<Rightarrow>
               (case source_read (set_replay rp st) of
                  ((d, fin), st1) \<Rightarrow>
                    if d = [] then (fin, st1)
                    else (case replay_append d (in_replay st1) of
                            (Some e, rp1) \<Rightarrow> (ReadErr e, set_replay rp1 st1)
                          | (None, rp1) \<Rightarrow> (fin, set_replay rp1 st1)))))"

text \<open>The reads of the decoder, and \<open>io.Copy\<close> to \<open>io.Discard\<close>, which reads in pieces of 8192 bytes.\<close>

definition decoder_reads :: "nat list \<Rightarrow> inspection \<Rightarrow> inspection" where
  "decoder_reads sizes st = fold (\<lambda>want st. snd (replay_read want st)) sizes st"

fun drain :: "nat \<Rightarrow> inspection \<Rightarrow> inspection" where
  "drain 0 st = st"
| "drain (Suc n) st =
     (case replay_read 8192 st of
        (ReadOk, st1) \<Rightarrow> drain n st1
      | (_, st1) \<Rightarrow> st1)"

definition finish_reads :: "inspection \<Rightarrow> inspection" where
  "finish_reads st =
     (if src_err st = None \<and> rp_spillErr (in_replay st) = None then drain (Suc (length (in_source st))) st else st)"

fun source_stream :: "(string \<times> go_err option) list \<Rightarrow> body_stream" where
  "source_stream [] = bytes_reader []"
| "source_stream ((d, e) # rs) =
     (case e of
        Some err \<Rightarrow> \<lparr>b_bytes = d, b_end = Some err\<rparr>
      | None \<Rightarrow> (source_stream rs)\<lparr>b_bytes := d @ b_bytes (source_stream rs)\<rparr>)"

definition replayReader :: "replay_store \<Rightarrow> body_stream" where
  "replayReader st =
     multi_reader
       ((case rp_file st of
           Some f \<Rightarrow> if rp_fileBytes st > 0 then [bytes_reader (take (rp_fileBytes st) f)]
                     else if rp_memory st \<noteq> [] then [bytes_reader (rp_memory st)] else []
         | None \<Rightarrow> if rp_memory st \<noteq> [] then [bytes_reader (rp_memory st)] else []) @
        (if rp_tail st \<noteq> [] then [bytes_reader (rp_tail st)] else []))"

definition limit_reader :: "nat \<Rightarrow> body_stream \<Rightarrow> body_stream" where
  "limit_reader n b = (if n \<le> length (b_bytes b) then bytes_reader (take n (b_bytes b)) else b)"

definition replay_body :: "inspection \<Rightarrow> body_stream" where
  "replay_body st =
     (let reader = replayReader (in_replay st) in
      case src_err st of
        Some e \<Rightarrow> multi_reader [limit_reader (src_errorOffset st) reader, replayErrorReader e]
      | None \<Rightarrow>
          if rp_spillErr (in_replay st) \<noteq> None then multi_reader [reader, source_stream (in_source st)]
          else multi_reader [reader])"

definition start_inspection :: "(string \<times> go_err option) list \<Rightarrow> (nat \<times> go_err option) list \<Rightarrow> go_err option \<Rightarrow> inspection" where
  "start_inspection src writes create =
     \<lparr>in_source = src, src_err = None, src_bytesRead = 0, src_errorOffset = 0, in_unicode = new_validator,
      in_replay = \<lparr>rp_memory = [], rp_file = None, rp_fileBytes = 0, rp_tail = [], rp_spillErr = None,
        rp_writes = writes, rp_create = create\<rparr>\<rparr>"

section \<open>The signals of a request\<close>

text \<open>\<open>tokens\<close> is the JSON decoder: the tokens of the bytes and how their stream ends.\<close>

definition extractSessionAffinityJSONSignals ::
  "(string \<Rightarrow> jtoken list \<times> tok_end) \<Rightarrow> nat list \<Rightarrow> inspection \<Rightarrow> accumulator option \<times> inspection" where
  "extractSessionAffinityJSONSignals tokens sizes st =
     (let st1 = finish_reads (decoder_reads sizes st)
      in (if src_err st1 = None \<and> rp_spillErr (in_replay st1) = None \<and> validator_valid (in_unicode st1)
          then (case tokens (b_bytes (replayReader (in_replay st1))) of (ts, fin) \<Rightarrow> parseSessionAffinityJSONObject ts fin)
          else None, st1))"

definition requestMayContainSessionAffinityJSON :: "http_request \<Rightarrow> bool" where
  "requestMayContainSessionAffinityJSON r \<longleftrightarrow>
     (if rq_Body (h_Body r) = None then False
      else if contains ''json'' (content_type r) then True
      else content_type r = [] \<and> h_Method r \<noteq> ''GET'' \<and> h_Method r \<noteq> ''HEAD'')"

definition header_signals :: "http_header \<Rightarrow> accumulator" where
  "header_signals h =
     fold (\<lambda>name a. fold (add_signal ''session_id'') (take 4 (header_values h name)) a)
       [''Session-Id'', ''Session_id''] newSessionAffinitySignalAccumulator"

text \<open>The signals, and the body that is handed on; \<open>st\<close> starts with the reads of the body, if there is one.\<close>

definition extractSessionAffinitySignals ::
  "(string \<Rightarrow> jtoken list \<times> tok_end) \<Rightarrow> nat list \<Rightarrow> http_request \<Rightarrow> inspection \<Rightarrow> sessionAffinitySignal list \<times> body_stream" where
  "extractSessionAffinitySignals tokens sizes r st =
     (let a = header_signals (h_Header r)
      in if requestMayContainSessionAffinityJSON r then
           (case extractSessionAffinityJSONSignals tokens sizes st of
              (None, st1) \<Rightarrow> (accumulated a, replay_body st1)
            | (Some body, st1) \<Rightarrow> (accumulated (merge_signals body a), replay_body st1))
         else (accumulated a, source_stream (in_source st)))"

end
