(* ===== verification/Signal_Properties.thy ===== *)
theory Signal_Properties
  imports Signal_Extraction
begin

text \<open>
  Reading the signals of a request does not change the request, whatever the environment does to the copy of
  its body; and the streaming reader finds exactly the signals the JSON value has.
\<close>

section \<open>The copy\<close>

definition copied :: "replay_store \<Rightarrow> string" where
  "copied st = (case rp_file st of None \<Rightarrow> rp_memory st | Some f \<Rightarrow> f) @ rp_tail st"

definition replay_ok :: "replay_store \<Rightarrow> bool" where
  "replay_ok st \<longleftrightarrow>
     (case rp_file st of None \<Rightarrow> rp_tail st = [] | Some f \<Rightarrow> rp_memory st = [] \<and> rp_fileBytes st = length f) \<and>
     (rp_spillErr st = None \<longrightarrow> rp_tail st = [])"

lemma multi_bytes [simp]:
  "multi_reader (bytes_reader s # bs) = (multi_reader bs)\<lparr>b_bytes := s @ b_bytes (multi_reader bs)\<rparr>"
  by (simp add: bytes_reader_def)

lemma multi_one [simp]: "multi_reader [b] = b"
  by (cases b) (auto split: option.split)

lemma multi_nil [simp]: "multi_reader [] = bytes_reader []"
  by (simp add: bytes_reader_def)

lemma error_reader [simp]: "b_bytes (replayErrorReader e) = []" "b_end (replayErrorReader e) = Some e"
  by (simp_all add: replayErrorReader_def)

declare multi_reader.simps [simp del] drain.simps [simp del]

lemma bytes_reader_fields [simp]: "b_bytes (bytes_reader s) = s" "b_end (bytes_reader s) = None"
  by (simp_all add: bytes_reader_def)

lemma bytes_reader_update [simp]: "(bytes_reader s)\<lparr>b_bytes := t\<rparr> = bytes_reader t"
  by (simp add: bytes_reader_def)

lemma replayReader_copied: "replay_ok st \<Longrightarrow> replayReader st = bytes_reader (copied st)"
  by (auto simp: replayReader_def replay_ok_def copied_def split: option.splits)

lemma next_write_le: "next_write p st = (n, e) \<Longrightarrow> n \<le> length p"
  by (auto simp: next_write_def split: list.splits)

lemma spill_ok:
  assumes "spillToFile st = (e, st')" "replay_ok st" "rp_file st = None"
  shows "replay_ok st' \<and> copied st' = copied st \<and> rp_spillErr st' = rp_spillErr st"
  using assms
  by (auto simp: spillToFile_def Let_def replay_ok_def copied_def split: option.splits prod.splits if_splits)

lemma prepare_ok:
  assumes "prepareRead n st = (e, st')" "replay_ok st"
  shows "replay_ok st' \<and> copied st' = copied st \<and> rp_spillErr st' = rp_spillErr st"
  using assms spill_ok [of st e st'] by (auto simp: prepareRead_def split: if_splits)

lemma append_ok:
  assumes "replay_append p st = (e, st')" "replay_ok st" "rp_spillErr st = None"
  shows "replay_ok st' \<and> copied st' = copied st @ p"
proof -
  obtain n e0 where w: "next_write p st = (n, e0)" by (metis surj_pair)
  have "n \<le> length p" by (rule next_write_le [OF w])
  then show ?thesis
    using assms w
    by (auto simp: replay_append_def Let_def replay_ok_def copied_def min_def split: option.splits if_splits)
qed

section \<open>Reading\<close>

lemma source_stream_append:
  assumes "\<forall>r\<in>set seen. snd r = None"
  shows "source_stream (seen @ rs) =
    (source_stream rs)\<lparr>b_bytes := concat (map fst seen) @ b_bytes (source_stream rs)\<rparr>"
  using assms by (induction seen) auto

lemma source_stream_failed:
  assumes "\<forall>r\<in>set seen. snd r = None"
  shows "source_stream (seen @ (d, Some e) # rs) = \<lparr>b_bytes = concat (map fst seen) @ d, b_end = Some e\<rparr>"
  using source_stream_append [OF assms, of "(d, Some e) # rs"] by simp

text \<open>Where an inspection stands: what was read, that it was copied, and where the first error was.\<close>

definition stands :: "(string \<times> go_err option) list \<Rightarrow> inspection \<Rightarrow> bool" where
  "stands src st \<longleftrightarrow>
     (\<exists>seen. src = seen @ in_source st \<and> copied (in_replay st) = concat (map fst seen) \<and>
        src_bytesRead st = length (concat (map fst seen)) \<and> replay_ok (in_replay st) \<and>
        (case src_err st of
           None \<Rightarrow> \<forall>r\<in>set seen. snd r = None
         | Some e \<Rightarrow> src_errorOffset st \<le> length (concat (map fst seen)) \<and>
             source_stream src = \<lparr>b_bytes = take (src_errorOffset st) (concat (map fst seen)), b_end = Some e\<rparr>))"

lemma stands_start: "stands src (start_inspection src writes create)"
  by (auto simp: stands_def start_inspection_def copied_def replay_ok_def intro!: exI [of _ "[]"])

lemma stands_cong:
  assumes "stands src st" "in_source st' = in_source st" "src_err st' = src_err st" "src_bytesRead st' = src_bytesRead st"
    "src_errorOffset st' = src_errorOffset st" "replay_ok (in_replay st')" "copied (in_replay st') = copied (in_replay st)"
  shows "stands src st'"
  using assms by (cases "src_err st") (auto simp: stands_def)

lemma stands_replay:
  "stands src st \<Longrightarrow> replay_ok rp \<Longrightarrow> copied rp = copied (in_replay st) \<Longrightarrow> stands src (set_replay rp st)"
  by (rule stands_cong) (simp_all add: set_replay_def)

text \<open>One read of the source, whose data is not copied yet.\<close>

lemma source_step:
  assumes st: "stands src st" and run: "source_read st = ((d, fin), st1)" and rp: "in_replay st2 = rp"
    and same: "in_source st2 = in_source st1" "src_err st2 = src_err st1" "src_bytesRead st2 = src_bytesRead st1"
      "src_errorOffset st2 = src_errorOffset st1"
    and rp_ok: "replay_ok rp" "copied rp = copied (in_replay st) @ d"
  shows "stands src st2"
proof -
  obtain seen where seen: "src = seen @ in_source st" "copied (in_replay st) = concat (map fst seen)"
    "src_bytesRead st = length (concat (map fst seen))"
    and err: "case src_err st of None \<Rightarrow> \<forall>r\<in>set seen. snd r = None
         | Some e \<Rightarrow> src_errorOffset st \<le> length (concat (map fst seen)) \<and>
             source_stream src = \<lparr>b_bytes = take (src_errorOffset st) (concat (map fst seen)), b_end = Some e\<rparr>"
    using st by (auto simp: stands_def)
  show ?thesis
  proof (cases "in_source st")
    case Nil
    with run have "d = []" "st1 = st" by (auto simp: source_read_def)
    with same rp rp_ok show ?thesis by (intro stands_cong [OF st]) simp_all
  next
    case (Cons r rs)
    obtain e where r: "r = (d, e)"
      using run Cons by (cases r) (auto simp: source_read_def Let_def split: option.splits)
    have fields: "in_source st1 = rs" "src_bytesRead st1 = src_bytesRead st + length d"
      using run Cons r by (auto simp: source_read_def Let_def split: option.splits if_splits)
    have errs: "src_err st1 = (if e \<noteq> None \<and> src_err st = None then e else src_err st)"
      "src_errorOffset st1 = (if e \<noteq> None \<and> src_err st = None then src_bytesRead st + length d else src_errorOffset st)"
      using run Cons r by (auto simp: source_read_def Let_def split: option.splits if_splits)
    have tl: "src = (seen @ [(d, e)]) @ rs" using seen(1) Cons r by simp
    have here: "case src_err st2 of None \<Rightarrow> \<forall>r\<in>set (seen @ [(d, e)]). snd r = None
         | Some e' \<Rightarrow> src_errorOffset st2 \<le> length (concat (map fst (seen @ [(d, e)]))) \<and>
             source_stream src = \<lparr>b_bytes = take (src_errorOffset st2) (concat (map fst (seen @ [(d, e)]))), b_end = Some e'\<rparr>"
    proof (cases "src_err st")
      case None
      with err have clean: "\<forall>r\<in>set seen. snd r = None" by simp
      show ?thesis
      proof (cases e)
        case None
        with \<open>src_err st = None\<close> clean errs same show ?thesis by simp
      next
        case (Some e')
        with tl source_stream_failed [OF clean, of d e' rs] \<open>src_err st = None\<close> errs same seen(3) show ?thesis by simp
      qed
    next
      case (Some e')
      with err errs same show ?thesis by simp
    qed
    with tl fields same rp rp_ok seen show ?thesis
      unfolding stands_def by (intro exI [of _ "seen @ [(d, e)]"]) simp
  qed
qed

lemma set_replay_simps [simp]:
  "in_replay (set_replay rp st) = rp" "in_source (set_replay rp st) = in_source st"
  "src_err (set_replay rp st) = src_err st" "src_bytesRead (set_replay rp st) = src_bytesRead st"
  "src_errorOffset (set_replay rp st) = src_errorOffset st"
  by (simp_all add: set_replay_def)

lemma source_read_replay: "source_read st = (x, st1) \<Longrightarrow> in_replay st1 = in_replay st"
  by (auto simp: source_read_def Let_def split: list.splits prod.splits option.splits if_splits)

lemma stands_read:
  assumes st: "stands src st" and run: "replay_read n st = (fin, st')"
  shows "stands src st'"
proof (cases "rp_spillErr (in_replay st)")
  case (Some e)
  with assms show ?thesis by (simp add: replay_read_def)
next
  case None
  have ok: "replay_ok (in_replay st)" using st by (auto simp: stands_def)
  obtain e rp where prep: "prepareRead (min n sessionAffinityReplayReadBytes) (in_replay st) = (e, rp)" by (metis surj_pair)
  note p = prepare_ok [OF prep ok]
  show ?thesis
  proof (cases e)
    case (Some err)
    have "replay_ok (rp\<lparr>rp_spillErr := Some err\<rparr>)" "copied (rp\<lparr>rp_spillErr := Some err\<rparr>) = copied (in_replay st)"
      using p by (auto simp: replay_ok_def copied_def split: option.splits)
    from stands_replay [OF st this] Some None prep run show ?thesis by (simp add: replay_read_def)
  next
    case None
    obtain d end1 st1 where read: "source_read (set_replay rp st) = ((d, end1), st1)" by (metis surj_pair)
    have st0: "stands src (set_replay rp st)" by (rule stands_replay [OF st]) (use p in auto)
    have rp1: "in_replay st1 = rp" using source_read_replay [OF read] by simp
    note go = run [unfolded replay_read_def] \<open>rp_spillErr (in_replay st) = None\<close> None prep read
    show ?thesis
    proof (cases "d = []")
      case True
      with go have "st' = st1" by simp
      moreover have "stands src st1" by (rule source_step [OF st0 read rp1]) (use p True in auto)
      ultimately show ?thesis by simp
    next
      case False
      obtain e2 rp2 where app: "replay_append d rp = (e2, rp2)" by (metis surj_pair)
      note a = append_ok [OF app]
      have "st' = set_replay rp2 st1" using go False app rp1 by (cases e2) simp_all
      moreover have "stands src (set_replay rp2 st1)"
        by (rule source_step [OF st0 read, of _ rp2]) (use p a \<open>rp_spillErr (in_replay st) = None\<close> in auto)
      ultimately show ?thesis by simp
    qed
  qed
qed

lemma stands_reads: "stands src st \<Longrightarrow> stands src (decoder_reads ns st)"
  unfolding decoder_reads_def
proof (induction ns arbitrary: st)
  case (Cons n ns)
  obtain fin st1 where "replay_read n st = (fin, st1)" by (metis surj_pair)
  with Cons.IH [OF stands_read [OF Cons.prems this]] show ?case by simp
qed simp

text \<open>A drain that meets no error reads everything.\<close>

lemma read_ok_shorter:
  assumes "replay_read n st = (fin, st')"
  shows "(fin = ReadOk \<longrightarrow> length (in_source st') < length (in_source st)) \<and>
    (fin = ReadEof \<longrightarrow> in_source st' = []) \<and>
    (\<forall>e. fin = ReadErr e \<longrightarrow> src_err st' \<noteq> None \<or> rp_spillErr (in_replay st') \<noteq> None)"
  using assms
  by (auto simp: replay_read_def source_read_def replay_append_def Let_def set_replay_def
      split: option.splits prod.splits list.splits if_splits)

lemma drained:
  assumes "stands src st" "length (in_source st) < n"
  shows "stands src (drain n st) \<and>
    (src_err (drain n st) = None \<and> rp_spillErr (in_replay (drain n st)) = None \<longrightarrow> in_source (drain n st) = [])"
  using assms
proof (induction n arbitrary: st)
  case (Suc n)
  obtain fin st1 where read: "replay_read 8192 st = (fin, st1)" by (metis surj_pair)
  note s = stands_read [OF Suc.prems(1) read] and r = read_ok_shorter [OF read]
  show ?case
  proof (cases fin)
    case ReadOk
    then have "length (in_source st1) < n" using r Suc.prems(2) by simp
    from Suc.IH [OF s this] ReadOk read show ?thesis by (simp add: drain.simps)
  next
    case ReadEof
    with r s read show ?thesis by (simp add: drain.simps)
  next
    case (ReadErr e)
    with r s read show ?thesis by (auto simp: drain.simps)
  qed
qed simp

lemma finished:
  assumes "stands src st"
  shows "stands src (finish_reads st) \<and>
    (src_err (finish_reads st) = None \<and> rp_spillErr (in_replay (finish_reads st)) = None \<longrightarrow> in_source (finish_reads st) = [])"
  using drained [OF assms, of "Suc (length (in_source st))"] assms by (auto simp: finish_reads_def)

lemma body_faithful:
  assumes "stands src st" "src_err st = None \<and> rp_spillErr (in_replay st) = None \<longrightarrow> in_source st = []"
  shows "replay_body st = source_stream src"
proof -
  obtain seen where seen: "src = seen @ in_source st" "copied (in_replay st) = concat (map fst seen)"
    "replay_ok (in_replay st)"
    and err: "case src_err st of None \<Rightarrow> \<forall>r\<in>set seen. snd r = None
         | Some e \<Rightarrow> src_errorOffset st \<le> length (concat (map fst seen)) \<and>
             source_stream src = \<lparr>b_bytes = take (src_errorOffset st) (concat (map fst seen)), b_end = Some e\<rparr>"
    using assms(1) by (auto simp: stands_def)
  note reader = replayReader_copied [OF seen(3), unfolded seen(2)]
  show ?thesis
  proof (cases "src_err st")
    case (Some e)
    with err reader show ?thesis by (simp add: replay_body_def limit_reader_def)
  next
    case None
    with err have clean: "\<forall>r\<in>set seen. snd r = None" by simp
    show ?thesis
    proof (cases "rp_spillErr (in_replay st)")
      case None
      with assms(2) \<open>src_err st = None\<close> have "in_source st = []" by simp
      with None \<open>src_err st = None\<close> reader seen(1) source_stream_append [OF clean, of "[]"] show ?thesis
        by (simp add: replay_body_def)
    next
      case (Some e)
      with \<open>src_err st = None\<close> reader seen(1) source_stream_append [OF clean, of "in_source st"] show ?thesis
        by (cases "source_stream (in_source st)") (simp add: replay_body_def)
    qed
  qed
qed

section \<open>The streaming reader reads the value\<close>

fun tokens_of :: "json \<Rightarrow> jtoken list" where
  "tokens_of (JStr s) = [TokStr s]"
| "tokens_of (JArr vs) = TokDelim CHR ''['' # concat (map tokens_of vs) @ [TokDelim CHR '']'']"
| "tokens_of (JObj m) =
     TokDelim CHR ''{'' # concat (map (\<lambda>(k, v). TokStr k # tokens_of v) m) @ [TokDelim CHR ''}'']"
| "tokens_of v = [TokScalar]"

abbreviation member_tokens :: "json_map \<Rightarrow> jtoken list" where
  "member_tokens m \<equiv> concat (map (\<lambda>(k, v). TokStr k # tokens_of v) m)"

definition string_signal :: "string \<Rightarrow> json \<Rightarrow> (string \<times> string) list" where
  "string_signal kind v = (case v of JStr s \<Rightarrow> [(kind, s)] | _ \<Rightarrow> [])"

definition conversation_signals :: "json \<Rightarrow> (string \<times> string) list" where
  "conversation_signals v =
     (case v of
        JObj m \<Rightarrow> concat (map (\<lambda>(k, w). if k = ''id'' then string_signal ''conversation_id'' w else []) m)
      | _ \<Rightarrow> [])"

definition object_signals :: "string \<Rightarrow> json \<Rightarrow> (string \<times> string) list" where
  "object_signals k v =
     (if k = ''session_id'' \<or> k = ''sessionId'' then string_signal ''session_id'' v
      else if k = ''prompt_cache_key'' then string_signal ''prompt_cache_key'' v
      else if k = ''conversation_id'' then string_signal ''conversation_id'' v
      else if k = ''conversation'' then conversation_signals v
      else [])"

definition json_signals :: "json_map \<Rightarrow> (string \<times> string) list" where
  "json_signals m = concat (map (\<lambda>(k, v). object_signals k v) m)"

definition accumulate :: "(string \<times> string) list \<Rightarrow> accumulator \<Rightarrow> accumulator" where
  "accumulate ps a = fold (\<lambda>p. add_signal (fst p) (snd p)) ps a"

lemma accumulate_simps [simp]:
  "accumulate [] a = a" "accumulate (p # ps) a = accumulate ps (add_signal (fst p) (snd p) a)"
  "accumulate (ps @ qs) a = accumulate qs (accumulate ps a)"
  by (simp_all add: accumulate_def)

lemma bracket_kinds [simp]:
  "opens CHR ''{''" "opens CHR ''[''" "closes CHR ''}''" "closes CHR '']''" "\<not> opens CHR ''}''" "\<not> opens CHR '']''"
  by (simp_all add: opens_def closes_def)

lemma skip_tokens: "skip_depth (Suc d) (tokens_of v @ ts) = skip_depth (Suc d) ts"
proof (induction v arbitrary: d ts rule: tokens_of.induct)
  case (2 vs)
  have "skip_depth (Suc d') (concat (map tokens_of us) @ ts') = skip_depth (Suc d') ts'" if "set us \<subseteq> set vs" for d' us ts'
    using that by (induction us arbitrary: d') (use 2 in auto)
  from this [of vs "Suc d" "TokDelim CHR '']'' # ts"] show ?case by simp
next
  case (3 m)
  have "skip_depth (Suc d') (member_tokens us @ ts') = skip_depth (Suc d') ts'" if "set us \<subseteq> set m" for d' us ts'
    using that by (induction us arbitrary: d') (use 3 in auto)
  from this [of m "Suc d" "TokDelim CHR ''}'' # ts"] show ?case by simp
qed simp_all

lemma skip_many: "skip_depth (Suc d) (concat (map tokens_of vs) @ ts) = skip_depth (Suc d) ts"
  by (induction vs) (simp_all add: skip_tokens)

lemma skip_members: "skip_depth (Suc d) (member_tokens m @ ts) = skip_depth (Suc d) ts"
  by (induction m) (auto simp: skip_tokens)

lemma skip_value: "skipSessionAffinityJSONValue (tokens_of v @ ts) = Some ts"
  using skip_many [of 0 _ "TokDelim CHR '']'' # ts"] skip_members [of 0 _ "TokDelim CHR ''}'' # ts"]
  by (cases v) (simp_all add: skipSessionAffinityJSONValue_def skipOpenedSessionAffinityJSONValue_def)

lemma read_string: "readSessionAffinityString kind a (tokens_of v @ ts) = Some (accumulate (string_signal kind v) a, ts)"
  using skip_many [of 0 _ "TokDelim CHR '']'' # ts"] skip_members [of 0 _ "TokDelim CHR ''}'' # ts"]
  by (cases v) (simp_all add: readSessionAffinityString_def skipOpenedSessionAffinityJSONValue_def string_signal_def)

lemma members_read:
  assumes "\<And>k v a ts. step k a (tokens_of v @ ts) = Some (accumulate (f k v) a, ts)"
  shows "members step a (member_tokens m @ TokDelim CHR ''}'' # ts) = Some (accumulate (concat (map (\<lambda>(k, v). f k v) m)) a, ts)"
proof (induction m arbitrary: a)
  case Nil
  show ?case by (subst members.simps) (simp add: has_more_def)
next
  case (Cons p m)
  obtain k v where p: "p = (k, v)" by (metis surj_pair)
  have "members step a (TokStr k # tokens_of v @ member_tokens m @ TokDelim CHR ''}'' # ts)
      = members step (accumulate (f k v) a) (member_tokens m @ TokDelim CHR ''}'' # ts)"
    by (subst members.simps) (simp add: has_more_def assms)
  with Cons.IH p show ?case by simp
qed

lemma conversation_step:
  "conversation_member k a (tokens_of v @ ts)
     = Some (accumulate (if k = ''id'' then string_signal ''conversation_id'' v else []) a, ts)"
  by (simp add: conversation_member_def read_string skip_member_def skip_value)

lemma read_conversation:
  "readSessionAffinityConversation a (tokens_of v @ ts) = Some (accumulate (conversation_signals v) a, ts)"
  using skip_many [of 0 _ "TokDelim CHR '']'' # ts"]
  by (cases v)
    (simp_all add: readSessionAffinityConversation_def conversation_signals_def skipOpenedSessionAffinityJSONValue_def
      members_read [of conversation_member, OF conversation_step])

lemma object_step: "object_member k a (tokens_of v @ ts) = Some (accumulate (object_signals k v) a, ts)"
  by (simp add: object_member_def object_signals_def read_string read_conversation skip_member_def skip_value)

lemma parsed_object:
  "parseSessionAffinityJSONObject (tokens_of (JObj m)) TokEof
     = Some (accumulate (json_signals m) newSessionAffinitySignalAccumulator)"
  using members_read [of object_member object_signals _ m "[]", OF object_step]
  by (simp add: parseSessionAffinityJSONObject_def json_signals_def)

section \<open>Signals that agree\<close>

text \<open>The usable values of a kind, and the signals: the kinds for which there is exactly one.\<close>

definition kind_values :: "(string \<times> string) list \<Rightarrow> string \<Rightarrow> string list" where
  "kind_values ps kind = remdups (List.map_filter (\<lambda>p. if fst p = kind then normalizeSessionAffinitySignal (snd p) else None) ps)"

definition agreed :: "(string \<times> string) list \<Rightarrow> sessionAffinitySignal list" where
  "agreed ps =
     concat (map (\<lambda>kind. case kind_values ps kind of [v] \<Rightarrow> [\<lparr>signal_Kind = kind, signal_Value = v\<rparr>] | _ \<Rightarrow> []) affinity_kinds)"

text \<open>What an accumulator holds of a set of values.\<close>

definition holds_values :: "(string \<Rightarrow> string set) \<Rightarrow> accumulator \<Rightarrow> bool" where
  "holds_values V a \<longleftrightarrow>
     (\<forall>kind. (kind \<in> set (conflicts a) \<longleftrightarrow> (\<exists>v\<in>V kind. \<exists>w\<in>V kind. v \<noteq> w)) \<and>
        (\<forall>v. map_of (candidates a) kind = Some v \<longleftrightarrow> V kind = {v}))"

lemma holds_new: "holds_values (\<lambda>k. {}) newSessionAffinitySignalAccumulator"
  by (simp add: holds_values_def newSessionAffinitySignalAccumulator_def)

lemma holds_conflict:
  assumes "holds_values V a" "\<exists>v\<in>W. \<exists>w\<in>W. v \<noteq> w" "V kind \<subseteq> W"
  shows "holds_values (V(kind := W)) (mark_conflict kind a)"
  using assms by (auto simp: holds_values_def mark_conflict_def delete_conv)

lemma two_values: "u \<in> S \<Longrightarrow> w \<in> S \<Longrightarrow> u \<noteq> w \<Longrightarrow> S \<noteq> {x}"
  by auto

lemma holds_update:
  assumes "holds_values V a" "kind \<notin> set (conflicts a)" "V kind \<subseteq> {v}"
  shows "holds_values (V(kind := {v})) (a\<lparr>candidates := AList.update kind v (candidates a)\<rparr>)"
  unfolding holds_values_def
proof (intro allI)
  fix k
  let ?a = "a\<lparr>candidates := AList.update kind v (candidates a)\<rparr>" and ?V = "V(kind := {v})"
  show "(k \<in> set (conflicts ?a) \<longleftrightarrow> (\<exists>x\<in>?V k. \<exists>y\<in>?V k. x \<noteq> y)) \<and> (\<forall>x. map_of (candidates ?a) k = Some x \<longleftrightarrow> ?V k = {x})"
  proof (cases "k = kind")
    case True
    with assms(2) show ?thesis by (simp add: update_conv eq_commute)
  next
    case False
    with assms(1) show ?thesis by (simp add: holds_values_def update_conv)
  qed
qed

lemma holds_add:
  assumes a: "holds_values V a"
  shows "holds_values (V(kind := V kind \<union> set_option (normalizeSessionAffinitySignal raw))) (add_signal kind raw a)"
proof (cases "normalizeSessionAffinitySignal raw")
  case None
  with a show ?thesis by (simp add: add_signal_def)
next
  case (Some v)
  let ?V = "V(kind := insert v (V kind))"
  have conflict: "kind \<in> set (conflicts a) \<longleftrightarrow> (\<exists>u\<in>V kind. \<exists>w\<in>V kind. u \<noteq> w)"
    and current: "\<And>u. map_of (candidates a) kind = Some u \<longleftrightarrow> V kind = {u}"
    using a by (simp_all add: holds_values_def)
  show ?thesis
  proof (cases "kind \<in> set (conflicts a)")
    case True
    then obtain u w where two: "u \<in> V kind" "w \<in> V kind" "u \<noteq> w" using conflict by blast
    have "holds_values ?V a"
      unfolding holds_values_def
    proof (intro allI)
      fix k
      show "(k \<in> set (conflicts a) \<longleftrightarrow> (\<exists>x\<in>?V k. \<exists>y\<in>?V k. x \<noteq> y)) \<and> (\<forall>x. map_of (candidates a) k = Some x \<longleftrightarrow> ?V k = {x})"
      proof (cases "k = kind")
        case k: True
        have "insert v (V kind) \<noteq> {x}" "V kind \<noteq> {x}" for x
          by (rule two_values [OF _ _ two(3)]; simp add: two)+
        then have "\<forall>x. map_of (candidates a) kind = Some x \<longleftrightarrow> insert v (V kind) = {x}" using current by simp
        moreover have "\<exists>x\<in>insert v (V kind). \<exists>y\<in>insert v (V kind). x \<noteq> y" using two by blast
        ultimately show ?thesis using k True by simp
      next
        case False
        with a show ?thesis by (simp add: holds_values_def)
      qed
    qed
    with True Some show ?thesis by (simp add: add_signal_def)
  next
    case False
    show ?thesis
    proof (cases "map_of (candidates a) kind")
      case (Some u)
      with current have u: "V kind = {u}" by blast
      show ?thesis
      proof (cases "u = v")
        case True
        have "holds_values ?V (a\<lparr>candidates := AList.update kind v (candidates a)\<rparr>)"
          using holds_update [OF a False, of v] u True by simp
        with Some True False \<open>normalizeSessionAffinitySignal raw = Some v\<close> show ?thesis by (simp add: add_signal_def)
      next
        case ne: False
        have "holds_values (V(kind := insert v (V kind))) (mark_conflict kind a)"
          by (rule holds_conflict [OF a]) (use u ne in auto)
        with Some u False ne \<open>normalizeSessionAffinitySignal raw = Some v\<close> show ?thesis by (simp add: add_signal_def)
      qed
    next
      case None
      have "V kind = {}"
      proof (rule ccontr)
        assume "V kind \<noteq> {}"
        then obtain u where "u \<in> V kind" by blast
        with False conflict have "V kind = {u}" by auto
        with current [of u] None show False by simp
      qed
      then have "holds_values ?V (a\<lparr>candidates := AList.update kind v (candidates a)\<rparr>)"
        using holds_update [OF a False, of v] by simp
      with None False \<open>normalizeSessionAffinitySignal raw = Some v\<close> show ?thesis by (simp add: add_signal_def)
    qed
  qed
qed

definition value_set :: "(string \<times> string) list \<Rightarrow> string \<Rightarrow> string set" where
  "value_set ps kind = set (kind_values ps kind)"

lemma value_set_mem:
  "v \<in> value_set ps kind \<longleftrightarrow> (\<exists>p\<in>set ps. fst p = kind \<and> normalizeSessionAffinitySignal (snd p) = Some v)"
  by (force simp: value_set_def kind_values_def List.map_filter_def image_iff)

lemma value_set_simps [simp]:
  "value_set [] = (\<lambda>k. {})"
  "value_set (ps @ qs) = (\<lambda>k. value_set ps k \<union> value_set qs k)"
  by (auto simp: value_set_mem fun_eq_iff)

lemma value_set_single: "value_set [p] k = (if k = fst p then set_option (normalizeSessionAffinitySignal (snd p)) else {})"
  by (auto simp: value_set_mem)

lemma holds_accumulate: "holds_values V a \<Longrightarrow> holds_values (\<lambda>k. V k \<union> value_set ps k) (accumulate ps a)"
proof (induction ps arbitrary: V a)
  case (Cons p ps)
  have "(\<lambda>k. V k \<union> value_set (p # ps) k)
      = (\<lambda>k. (V(fst p := V (fst p) \<union> set_option (normalizeSessionAffinitySignal (snd p)))) k \<union> value_set ps k)"
    using value_set_simps(2) [of "[p]" ps] by (auto simp: fun_eq_iff value_set_single)
  with Cons.IH [OF holds_add [OF Cons.prems]] show ?case by simp
qed simp

text \<open>Merging what two accumulators hold.\<close>

lemma holds_conflicts:
  "holds_values V a \<Longrightarrow> \<forall>k\<in>set ks. \<exists>v\<in>W k. \<exists>w\<in>W k. v \<noteq> w \<Longrightarrow>
   holds_values (\<lambda>k. if k \<in> set ks then V k \<union> W k else V k) (fold mark_conflict ks a)"
proof (induction ks arbitrary: V a)
  case (Cons k ks)
  have "holds_values (V(k := V k \<union> W k)) (mark_conflict k a)"
    by (rule holds_conflict [OF Cons.prems(1)]) (use Cons.prems(2) in auto)
  from Cons.IH [OF this] Cons.prems(2)
  have h: "holds_values (\<lambda>i. if i \<in> set ks then (V(k := V k \<union> W k)) i \<union> W i else (V(k := V k \<union> W k)) i)
      (fold mark_conflict ks (mark_conflict k a))" by simp
  have "(\<lambda>i. if i \<in> set ks then (V(k := V k \<union> W k)) i \<union> W i else (V(k := V k \<union> W k)) i)
      = (\<lambda>i. if i \<in> set (k # ks) then V i \<union> W i else V i)"
    by (auto simp: fun_eq_iff)
  with h show ?case by simp
qed simp

lemma single_list: "set xs = {v} \<Longrightarrow> distinct xs \<Longrightarrow> xs = [v]"
  by (cases xs) (auto simp: subset_singleton_iff distinct_length_2_or_more)

lemma agreed_signals: "holds_values (value_set ps) a \<Longrightarrow> accumulated a = agreed ps"
proof -
  assume a: "holds_values (value_set ps) a"
  have "(case map_of (candidates a) kind of
         Some value \<Rightarrow> if value \<noteq> [] \<and> kind \<notin> set (conflicts a) then [\<lparr>signal_Kind = kind, signal_Value = value\<rparr>] else []
       | None \<Rightarrow> []) = (case kind_values ps kind of [v] \<Rightarrow> [\<lparr>signal_Kind = kind, signal_Value = v\<rparr>] | _ \<Rightarrow> [])" for kind
  proof (cases "map_of (candidates a) kind")
    case (Some v)
    with a have v: "value_set ps kind = {v}" by (auto simp: holds_values_def)
    then have "kind \<notin> set (conflicts a)" using a by (auto simp: holds_values_def)
    moreover have "kind_values ps kind = [v]"
      using v by (intro single_list) (simp add: value_set_def, simp add: kind_values_def)
    moreover have "v \<noteq> []"
      using v value_set_mem [of v ps kind]
      by (auto simp: normalizeSessionAffinitySignal_def Let_def split: if_splits option.splits)
    ultimately show ?thesis using Some by simp
  next
    case None
    have "map_of (candidates a) kind = Some v \<longleftrightarrow> value_set ps kind = {v}" for v using a by (simp add: holds_values_def)
    with None have "value_set ps kind \<noteq> {v}" for v by simp
    moreover have "value_set ps kind = {v}" if "kind_values ps kind = [v]" for v using that by (simp add: value_set_def)
    ultimately have "kind_values ps kind \<noteq> [v]" for v by blast
    with None show ?thesis by (auto split: list.split)
  qed
  then show ?thesis by (simp add: accumulated_def agreed_def)
qed

lemma normalize_again:
  "normalizeSessionAffinitySignal raw = Some v \<Longrightarrow> normalizeSessionAffinitySignal v = Some v"
  by (auto simp: normalizeSessionAffinitySignal_def Let_def split: if_splits option.splits)

lemma distinct_accumulate:
  "keys_distinct (candidates a) \<Longrightarrow> keys_distinct (candidates (accumulate ps a))"
proof (induction ps arbitrary: a)
  case (Cons p ps)
  have "keys_distinct (candidates (add_signal (fst p) (snd p) a))"
    using Cons.prems by (simp add: add_signal_def mark_conflict_def distinct_update distinct_delete split: option.split)
  from Cons.IH [OF this] show ?case by simp
qed simp

text \<open>Merging the accumulator of one set of values into that of another.\<close>

lemma merged:
  assumes a: "holds_values (value_set ps) a" and b: "holds_values (value_set qs) b" and d: "keys_distinct (candidates b)"
  shows "holds_values (value_set (ps @ qs)) (merge_signals b a)"
proof -
  let ?V = "\<lambda>k. if k \<in> set (conflicts b) then value_set ps k \<union> value_set qs k else value_set ps k"
  have conf: "k \<in> set (conflicts b) \<longleftrightarrow> (\<exists>v\<in>value_set qs k. \<exists>w\<in>value_set qs k. v \<noteq> w)" for k
    using b by (simp add: holds_values_def)
  have cand: "map_of (candidates b) k = Some v \<longleftrightarrow> value_set qs k = {v}" for k v
    using b by (simp add: holds_values_def)
  have normal: "normalizeSessionAffinitySignal v = Some v" if "v \<in> value_set qs k" for v k
    using that by (auto simp: value_set_mem intro: normalize_again)
  have pairs: "value_set (candidates b) k = (case map_of (candidates b) k of None \<Rightarrow> {} | Some v \<Rightarrow> {v})" for k
  proof -
    have "v \<in> value_set (candidates b) k \<longleftrightarrow> map_of (candidates b) k = Some v" for v
    proof
      assume "v \<in> value_set (candidates b) k"
      then obtain raw where raw: "(k, raw) \<in> set (candidates b)" "normalizeSessionAffinitySignal raw = Some v"
        by (auto simp: value_set_mem)
      then have "map_of (candidates b) k = Some raw" using d by simp
      with normal [of raw k] raw(2) cand show "map_of (candidates b) k = Some v" by simp
    next
      assume v: "map_of (candidates b) k = Some v"
      then have "v \<in> value_set qs k" using cand by simp
      from normal [OF this] v show "v \<in> value_set (candidates b) k"
        by (auto simp: value_set_mem intro!: bexI [of _ "(k, v)"] map_of_SomeD)
    qed
    then show ?thesis by (auto split: option.split)
  qed
  have "\<forall>k\<in>set (conflicts b). \<exists>v\<in>value_set qs k. \<exists>w\<in>value_set qs k. v \<noteq> w" using conf by simp
  from holds_accumulate [OF holds_conflicts [OF a this], of "candidates b"]
  have h: "holds_values (\<lambda>k. ?V k \<union> value_set (candidates b) k) (merge_signals b a)"
    by (simp add: merge_signals_def accumulate_def)
  have "?V k \<union> value_set (candidates b) k = value_set ps k \<union> value_set qs k" for k
  proof (cases "k \<in> set (conflicts b)")
    case True
    then have "map_of (candidates b) k = None" using conf cand by (cases "map_of (candidates b) k") auto
    with True pairs show ?thesis by simp
  next
    case False
    show ?thesis
    proof (cases "map_of (candidates b) k")
      case (Some v)
      with cand [of k v] pairs [of k] False show ?thesis by simp
    next
      case None
      have "value_set qs k = {}"
      proof (rule ccontr)
        assume "value_set qs k \<noteq> {}"
        then obtain u where "u \<in> value_set qs k" by blast
        with False conf have "value_set qs k = {u}" by auto
        with cand [of k u] None show False by simp
      qed
      with None pairs False show ?thesis by simp
    qed
  qed
  with h show ?thesis by simp
qed

definition header_pairs :: "http_header \<Rightarrow> (string \<times> string) list" where
  "header_pairs h =
     map (Pair ''session_id'') (take 4 (header_values h ''Session-Id'') @ take 4 (header_values h ''Session_id''))"

lemma holds_pairs: "holds_values (value_set ps) (accumulate ps newSessionAffinitySignalAccumulator)"
  using holds_accumulate [OF holds_new, of ps] by simp

lemma header_held: "holds_values (value_set (header_pairs h)) (header_signals h)"
proof -
  have "fold (add_signal kind) vs a = accumulate (map (Pair kind) vs) a" for kind vs a
    by (simp add: accumulate_def fold_map comp_def)
  then have "header_signals h = accumulate (header_pairs h) newSessionAffinitySignalAccumulator"
    by (simp add: header_signals_def header_pairs_def)
  with holds_pairs show ?thesis by simp
qed

definition whole :: "inspection \<Rightarrow> bool" where
  "whole st \<longleftrightarrow> src_err st = None \<and> rp_spillErr (in_replay st) = None \<and> validator_valid (in_unicode st)"

text \<open>
  C14: Looking for the session of a request does not change it: whatever the sizes of the reads, whether a temporary
  file can be made and how its writes end, the body that is handed on has exactly the bytes the client
  sent, and the same error at the same place. When the whole body could be copied, is properly encoded and
  is an object, the signals are the kinds for which the headers and the members of the object give exactly one
  usable value; otherwise they are those of the headers.
\<close>

theorem inspection_is_transparent:
  assumes "extractSessionAffinitySignals tokens sizes r (start_inspection src writes create) = (signals, body)"
    and "st = finish_reads (decoder_reads sizes (start_inspection src writes create))"
  shows "body = source_stream src \<and>
    (requestMayContainSessionAffinityJSON r \<and> whole st \<and> tokens (b_bytes body) = (tokens_of (JObj m), TokEof) \<longrightarrow>
       signals = agreed (header_pairs (h_Header r) @ json_signals m)) \<and>
    (\<not> (requestMayContainSessionAffinityJSON r \<and> whole st) \<longrightarrow> signals = agreed (header_pairs (h_Header r)))"
proof -
  let ?a = "header_signals (h_Header r)"
  have st: "stands src st" and left: "src_err st = None \<and> rp_spillErr (in_replay st) = None \<longrightarrow> in_source st = []"
    using finished [OF stands_reads [OF stands_start]] assms(2) by simp_all
  note body = body_faithful [OF st left]
  have headers: "accumulated ?a = agreed (header_pairs (h_Header r))" by (rule agreed_signals [OF header_held])
  show ?thesis
  proof (cases "requestMayContainSessionAffinityJSON r")
    case False
    with assms(1) headers show ?thesis
      by (auto simp: extractSessionAffinitySignals_def start_inspection_def)
  next
    case may: True
    obtain found where found: "extractSessionAffinityJSONSignals tokens sizes (start_inspection src writes create) = (found, st)"
      using assms(2) by (simp add: extractSessionAffinityJSONSignals_def Let_def)
    have same: "body = source_stream src"
      using assms(1) may found body by (auto simp: extractSessionAffinitySignals_def Let_def split: option.splits)
    have none: "signals = agreed (header_pairs (h_Header r))" if "\<not> whole st"
    proof -
      have "found = None" using found that assms(2) by (auto simp: extractSessionAffinityJSONSignals_def whole_def Let_def split: if_splits)
      with assms(1) may found headers show ?thesis by (simp add: extractSessionAffinitySignals_def Let_def)
    qed
    have all: "signals = agreed (header_pairs (h_Header r) @ json_signals m)"
      if "whole st" "tokens (b_bytes body) = (tokens_of (JObj m), TokEof)"
    proof -
      have "replay_body st = replayReader (in_replay st)"
        using that(1) by (simp add: replay_body_def whole_def)
      then have "tokens (b_bytes (replayReader (in_replay st))) = (tokens_of (JObj m), TokEof)"
        using that(2) same body by simp
      then have "found = Some (accumulate (json_signals m) newSessionAffinitySignalAccumulator)"
        using found that(1) assms(2) parsed_object [of m]
        by (auto simp: extractSessionAffinityJSONSignals_def whole_def Let_def simp del: tokens_of.simps)
      then have "signals = accumulated (merge_signals (accumulate (json_signals m) newSessionAffinitySignalAccumulator) ?a)"
        using assms(1) may found by (simp add: extractSessionAffinitySignals_def Let_def)
      moreover have "keys_distinct (candidates (accumulate (json_signals m) newSessionAffinitySignalAccumulator))"
        by (rule distinct_accumulate) (simp add: newSessionAffinitySignalAccumulator_def)
      ultimately show ?thesis using agreed_signals [OF merged [OF header_held holds_pairs]] by simp
    qed
    from may same none all show ?thesis by blast
  qed
qed

section \<open>A concrete request\<close>

text \<open>A request whose header and body name the same session, and whose body names a conversation twice.\<close>

definition demo_members :: json_map where
  "demo_members = [(''sessionId'', JStr ''a''), (''conversation_id'', JStr ''c''), (''conversation'', JObj [(''id'', JStr ''d'')])]"

definition demo_tokenizer :: "string \<Rightarrow> jtoken list \<times> tok_end" where
  "demo_tokenizer s = (tokens_of (JObj demo_members), TokEof)"

definition demo_post :: http_request where
  "demo_post = \<lparr>h_Method = ''POST'', h_Path = ''/v1/responses'', h_RemoteAddr = [],
     h_Header = [(''Content-Type'', [''json'']), (''Session-Id'', [''a''])], h_Query = [],
     h_Body = \<lparr>rq_Body = Some (bytes_reader ''x''), rq_ContentLength = 1, rq_GetBody = None\<rparr>\<rparr>"

lemma demo_agreed:
  "agreed (header_pairs (h_Header demo_post) @ json_signals demo_members) = [\<lparr>signal_Kind = ''session_id'', signal_Value = ''a''\<rparr>]"
  by code_simp

lemma demo_may: "requestMayContainSessionAffinityJSON demo_post"
proof -
  have "contains ''json'' (lower_trim ''json'')" by code_simp
  then show ?thesis
    by (simp add: requestMayContainSessionAffinityJSON_def demo_post_def content_type_def header_get_def header_values_def)
qed

lemma demo_copied: "whole (finish_reads (decoder_reads [70000] (start_inspection [(''x'', None)] [] None)))"
  by (simp add: whole_def finish_reads_def decoder_reads_def start_inspection_def replay_read_def prepareRead_def
      sessionAffinityReplayReadBytes_def sessionAffinityReplayMemoryBytes_def source_read_def replay_append_def set_replay_def
      drain.simps validator_write_def validateUTF8_def new_validator_def validateJSONStringByte_def validator_valid_def)

theorem inspection_is_transparent_witness:
  "extractSessionAffinitySignals demo_tokenizer [70000] demo_post (start_inspection [(''x'', None)] [] None)
     = ([\<lparr>signal_Kind = ''session_id'', signal_Value = ''a''\<rparr>], bytes_reader ''x'')"
proof -
  obtain signals body where run: "extractSessionAffinitySignals demo_tokenizer [70000] demo_post
      (start_inspection [(''x'', None)] [] None) = (signals, body)" by (metis surj_pair)
  from inspection_is_transparent [OF run refl, of demo_members] demo_may demo_copied demo_agreed run show ?thesis
    by (simp add: demo_tokenizer_def del: tokens_of.simps)
qed

end
