(* ===== verification/Responses_Create.thy ===== *)
theory Responses_Create
  imports Routing_Properties Chat_Answers
begin

text \<open>
  The Responses handler (\<open>responses.go\<close>) and what a request says of itself for the usage table
  (\<open>usage_proxy.go\<close>): the checked and rewritten request, the answer for a client that waits, which is
  collected from the upstream's stream, the error answers, and what is accounted.
\<close>

section \<open>What a request says of itself\<close>

definition trimmed_member :: "json_map \<Rightarrow> string \<Rightarrow> string" where
  "trimmed_member m k = trim_space (rawStringFromMap m k)"

definition usageMetadataFromMap :: "json_map \<Rightarrow> proxyRequestUsageMetadata \<times> bool" where
  "usageMetadataFromMap payload =
     (let effort1 = (case mapValue (member payload ''reasoning'') of Some m \<Rightarrow> trimmed_member m ''effort'' | None \<Rightarrow> []);
          effort2 = (let e = trimmed_member payload ''reasoning_effort'' in if e \<noteq> [] then e else effort1);
          effort3 = (let e = trimmed_member payload ''model_reasoning_effort'' in if e \<noteq> [] then e else effort2);
          tier = (if trimmed_member payload ''service_tier'' \<noteq> []
                  then normalizeServiceTier (rawStringFromMap payload ''service_tier'') else []);
          metadata = \<lparr>um_Model = trimmed_member payload ''model'', um_ReasoningEffort = effort3, um_ServiceTier = tier,
            um_SkipUsage = (member payload ''generate'' = JBool False)\<rparr>
      in (metadata, um_Model metadata \<noteq> [] \<or> um_ReasoningEffort metadata \<noteq> [] \<or> um_ServiceTier metadata \<noteq> [] \<or>
            um_SkipUsage metadata))"

definition usageMetadataFromJSON :: "chat_lib \<Rightarrow> string \<Rightarrow> (proxyRequestUsageMetadata \<times> bool)" where
  "usageMetadataFromJSON lib payload =
     (case decode_first lib payload of
        None \<Rightarrow> (\<lparr>um_Model = [], um_ReasoningEffort = [], um_ServiceTier = [], um_SkipUsage = False\<rparr>, False)
      | Some m \<Rightarrow> usageMetadataFromMap m)"

definition mergeUsageMetadata :: "proxyRequestUsageMetadata \<Rightarrow> proxyRequestUsageMetadata \<Rightarrow> proxyRequestUsageMetadata" where
  "mergeUsageMetadata current new =
     \<lparr>um_Model = (if trim_space (um_Model new) \<noteq> [] then trim_space (um_Model new) else um_Model current),
      um_ReasoningEffort = (if trim_space (um_ReasoningEffort new) \<noteq> [] then trim_space (um_ReasoningEffort new)
                            else um_ReasoningEffort current),
      um_ServiceTier = (if trim_space (um_ServiceTier new) \<noteq> [] then normalizeServiceTier (um_ServiceTier new)
                        else um_ServiceTier current),
      um_SkipUsage = um_SkipUsage new\<rparr>"

definition requestServiceTierFromQuery :: "http_header \<Rightarrow> string" where
  "requestServiceTierFromQuery q =
     (case find (\<lambda>v. trim_space v \<noteq> []) (header_values q ''service_tier'' @ header_values q ''service-tier'') of
        Some v \<Rightarrow> trim_space v | None \<Rightarrow> [])"

definition query_metadata :: "http_request \<Rightarrow> proxyRequestUsageMetadata" where
  "query_metadata r =
     (let tier = requestServiceTierFromQuery (h_Query r)
      in \<lparr>um_Model = trim_space (header_get (h_Query r) ''model''),
          um_ReasoningEffort = trim_space (header_get (h_Query r) ''reasoning_effort''),
          um_ServiceTier = (if tier \<noteq> [] then normalizeServiceTier tier else []), um_SkipUsage = False\<rparr>)"

text \<open>The body is read and put back; one that cannot be read to its end is replaced by an empty one.\<close>

definition captureProxyRequestUsageMetadata :: "chat_lib \<Rightarrow> http_request \<Rightarrow> proxyRequestUsageMetadata \<times> http_request" where
  "captureProxyRequestUsageMetadata lib r =
     (case rq_Body (h_Body r) of
        None \<Rightarrow> (query_metadata r, r)
      | Some body \<Rightarrow>
          if \<not> (contains ''json'' (content_type r) \<or>
                (content_type r = [] \<and> (contains ''/responses'' (h_Path r) \<or> contains ''/alpha/search'' (h_Path r))))
          then (query_metadata r, r)
          else if b_end body \<noteq> None then (query_metadata r, r\<lparr>h_Body := resetRequestBody [] (h_Body r)\<rparr>)
          else (case usageMetadataFromJSON lib (b_bytes body) of
                  (new, found) \<Rightarrow>
                    (if found then mergeUsageMetadata (query_metadata r) new else query_metadata r,
                     r\<lparr>h_Body := resetRequestBody (b_bytes body) (h_Body r)\<rparr>)))"

text \<open>\<open>newID\<close> is the identifier \<open>newUsageRequestID\<close> gives.\<close>

fun first_header :: "http_header \<Rightarrow> string list \<Rightarrow> string \<Rightarrow> string" where
  "first_header h [] newID = newID"
| "first_header h (k # ks) newID =
     (if trim_space (header_get h k) \<noteq> [] then trim_space (header_get h k) else first_header h ks newID)"

definition requestIDFromRequest :: "http_header \<Rightarrow> string \<Rightarrow> string" where
  "requestIDFromRequest h newID = first_header h [''X-Request-Id'', ''Request-Id''] newID"

definition usageRequestID :: "http_header \<Rightarrow> http_header option \<Rightarrow> string \<Rightarrow> string" where
  "usageRequestID incoming response newID =
     (case response of
        None \<Rightarrow> requestIDFromRequest incoming newID
      | Some h \<Rightarrow> first_header h [''Openai-Request-Id'', ''X-Request-Id'', ''Request-Id'', ''Cf-Ray'']
                  (requestIDFromRequest incoming newID))"

section \<open>Checking a request\<close>

record responsesValidationError =
  ve_message :: string
  ve_code :: string
  ve_param :: string

record responsesCreateRequest =
  rr_payload :: string
  rr_metadata :: proxyRequestUsageMetadata
  rr_stream :: bool

definition invalidResponsesJSONError :: responsesValidationError where
  "invalidResponsesJSONError = \<lparr>ve_message = ''Invalid JSON request body.'', ve_code = ''invalid_json'', ve_param = []\<rparr>"

definition quoted :: "string \<Rightarrow> string" where
  "quoted s = [CHR 0x27] @ s @ [CHR 0x27]"

definition invalidResponsesParamError :: "string \<Rightarrow> string \<Rightarrow> responsesValidationError" where
  "invalidResponsesParamError param reason =
     \<lparr>ve_message = ''Invalid value for '' @ quoted param @ '': '' @ reason @ ''.'', ve_code = ''invalid_value'', ve_param = param\<rparr>"

definition stateful_error :: "string \<Rightarrow> responsesValidationError" where
  "stateful_error param =
     \<lparr>ve_message = ''Unsupported value for '' @ quoted param @ '': this proxy only supports stateless Responses requests.'',
      ve_code = ''unsupported_value'', ve_param = param\<rparr>"

text \<open>The text of a JSON \<open>null\<close>, which decodes to a map that is \<open>nil\<close>.\<close>

definition json_space :: "char \<Rightarrow> bool" where
  "json_space c \<longleftrightarrow> c \<in> {CHR 0x20, CHR 0x09, CHR 0x0A, CHR 0x0D}"

definition null_text :: "string \<Rightarrow> bool" where
  "null_text s \<longleftrightarrow> rev (dropWhile json_space (rev (dropWhile json_space s))) = ''null''"

fun check_flags :: "json_map \<Rightarrow> string list \<Rightarrow> responsesValidationError option" where
  "check_flags raw [] = None"
| "check_flags raw (param # params) =
     (case map_of raw param of
        None \<Rightarrow> check_flags raw params
      | Some (JBool enabled) \<Rightarrow> if enabled then Some (stateful_error param) else check_flags raw params
      | Some _ \<Rightarrow> Some (invalidResponsesParamError param ''must be a boolean''))"

definition token_limit_ok :: "json \<Rightarrow> bool" where
  "token_limit_ok v = (case v of JNumber s \<Rightarrow> (case parse_int64_strict s of Some limit \<Rightarrow> 0 < limit | None \<Rightarrow> False) | _ \<Rightarrow> False)"

text \<open>What is sent when the request was changed, and the request.\<close>

definition finish_request ::
  "chat_lib \<Rightarrow> string \<Rightarrow> json_map \<Rightarrow> bool \<Rightarrow> bool \<Rightarrow> responsesValidationError + responsesCreateRequest" where
  "finish_request lib body raw stream changed =
     (case (if changed then marshal_value lib (JObj raw) else Some body) of
        None \<Rightarrow> Inl invalidResponsesJSONError
      | Some payload \<Rightarrow> Inr \<lparr>rr_payload = payload, rr_metadata = fst (usageMetadataFromMap raw), rr_stream = stream\<rparr>)"

definition decodeResponsesCreateRequest ::
  "chat_lib \<Rightarrow> body_stream option \<Rightarrow> responsesValidationError + responsesCreateRequest" where
  "decodeResponsesCreateRequest lib incoming =
     (case incoming of
        None \<Rightarrow> Inl invalidResponsesJSONError
      | Some body \<Rightarrow>
          if b_end body \<noteq> None then Inl invalidResponsesJSONError
          else (case decode_single lib (b_bytes body) of
                  None \<Rightarrow> Inl invalidResponsesJSONError
                | Some raw0 \<Rightarrow>
                    if null_text (b_bytes body) then Inl invalidResponsesJSONError
                    else
                      let limit = map_of raw0 ''max_output_tokens'' in
                      if \<not> (case limit of None \<Rightarrow> True | Some v \<Rightarrow> token_limit_ok v)
                      then Inl (invalidResponsesParamError ''max_output_tokens'' ''must be a positive integer'')
                      else
                        let raw = AList.delete ''max_output_tokens'' raw0 in
                        (case check_flags raw [''background'', ''store''] of
                           Some e \<Rightarrow> Inl e
                         | None \<Rightarrow>
                             (case map_of raw ''stream'' of
                                Some (JBool True) \<Rightarrow> finish_request lib (b_bytes body) raw True (limit \<noteq> None)
                              | None \<Rightarrow>
                                  finish_request lib (b_bytes body)
                                    (AList.update ''store'' (JBool False) (AList.update ''stream'' (JBool True) raw)) False True
                              | Some (JBool False) \<Rightarrow>
                                  finish_request lib (b_bytes body)
                                    (AList.update ''store'' (JBool False) (AList.update ''stream'' (JBool True) raw)) False True
                              | Some _ \<Rightarrow> Inl (invalidResponsesParamError ''stream'' ''must be a boolean'')))))"

section \<open>Collecting the answer\<close>

text \<open>
  \<open>raw_member\<close> is \<open>json.Unmarshal\<close> into a map of raw messages, read at one key: \<open>None\<close> when the text is no object,
  the raw text of the member (empty when it is missing) otherwise.
\<close>

record responses_env =
  re_chat :: chat_lib
  re_go :: go_lib
  raw_member :: "string \<Rightarrow> string \<Rightarrow> string option"
  re_model :: string
  re_now :: time

definition collector_apply :: "responses_env \<Rightarrow> sseEvent \<Rightarrow> string option \<Rightarrow> chat_error + string option" where
  "collector_apply env ev collected =
     (let lib = re_chat env; malformed_event = Inl (protocol lib ''malformed_event'') in
      case decodeChatResponsesEvent lib ev of
        Inl e \<Rightarrow> Inl e
      | Inr (payload, eventType) \<Rightarrow>
          if collected \<noteq> None then Inl (protocol lib ''data_after_terminal'')
          else if eventType = ''response.completed'' \<or> eventType = ''response.incomplete'' then
            (case raw_member env (ev_Data ev) ''response'' of
               None \<Rightarrow> malformed_event
             | Some raw \<Rightarrow>
                 let response = trim_space raw in
                 if response = [] \<or> hd response \<noteq> CHR ''{'' then malformed_event
                 else (case unmarshal_object (re_go env) response of
                         None \<Rightarrow> malformed_event
                       | Some object \<Rightarrow> Inr (Some response)))
          else if eventType = ''response.failed'' \<or> eventType = ''error''
          then Inl (StreamFailed (chatFailureFromEvent lib payload eventType))
          else Inr collected)"

fun collect_events :: "responses_env \<Rightarrow> sseEvent list \<Rightarrow> sse_end \<Rightarrow> string option \<Rightarrow> chat_error option \<times> string option" where
  "collect_events env [] fin collected =
     ((case fin of SseEof \<Rightarrow> None | SseReadError \<Rightarrow> Some PlainReadError
       | SseTooLarge \<Rightarrow> Some (protocol (re_chat env) ''event_too_large'')), collected)"
| "collect_events env (ev # evs) fin collected =
     (case collector_apply env ev collected of
        Inl e \<Rightarrow> (Some e, collected)
      | Inr collected' \<Rightarrow> collect_events env evs fin collected')"

text \<open>
  \<open>RpUntouched\<close> hands the upstream's response on, \<open>RpAnswer\<close> is the body for a client that waits, \<open>RpReplaced\<close> the
  failure that takes the response's place, \<open>RpGone\<close> a client that has hung up.
\<close>

datatype responses_prepared = RpUntouched | RpAnswer string | RpReplaced chatStreamFailure | RpGone

definition prepareResponsesCreateUpstreamResponse ::
  "responses_env \<Rightarrow> bool \<Rightarrow> bool \<Rightarrow> int \<Rightarrow> (sseEvent list \<times> sse_end) option \<Rightarrow> responses_prepared" where
  "prepareResponsesCreateUpstreamResponse env gone streaming status body =
     (if streaming \<or> status < 200 \<or> 300 \<le> status then RpUntouched
      else (case body of
              None \<Rightarrow> RpReplaced (newChatProtocolFailure (re_chat env) ''incomplete_stream'')
            | Some (evs, fin) \<Rightarrow>
                (case collect_events env evs fin None of
                   (readErr0, collected) \<Rightarrow>
                     let readErr1 = (case readErr0 of
                             Some e \<Rightarrow> if collected \<noteq> None \<and> \<not> isChatStreamFailure e then None else Some e
                           | None \<Rightarrow> None);
                         readErr = (if readErr1 = None \<and> collected = None
                                    then Some (protocol (re_chat env) ''incomplete_stream'') else readErr1)
                     in (case readErr of
                           Some e \<Rightarrow> if gone then RpGone else RpReplaced (chatStreamFailureFromError (re_chat env) e)
                         | None \<Rightarrow> RpAnswer (the collected)))))"

section \<open>The handler\<close>

record responsesUpstreamError =
  ue_Message :: string
  ue_Type :: string
  ue_Code :: string
  ue_Param :: string

definition parseResponsesUpstreamError :: "go_lib \<Rightarrow> string \<Rightarrow> responsesUpstreamError" where
  "parseResponsesUpstreamError lib body =
     (case decode_error_object lib body of
        None \<Rightarrow> \<lparr>ue_Message = [], ue_Type = [], ue_Code = [], ue_Param = []\<rparr>
      | Some payload \<Rightarrow>
          let source = (case mapValue (member payload ''error'') of Some m \<Rightarrow> m | None \<Rightarrow> payload)
          in \<lparr>ue_Message = firstNonEmptyString [rawStringFromMap source ''message'', rawStringFromMap payload ''detail'',
                             rawStringFromMap payload ''message''],
              ue_Type = rawStringFromMap source ''type'', ue_Code = rawStringFromMap source ''code'',
              ue_Param = rawStringFromMap source ''param''\<rparr>)"

definition writeResponsesError :: "int \<Rightarrow> string \<Rightarrow> string \<Rightarrow> string \<Rightarrow> string \<Rightarrow> int \<times> json" where
  "writeResponsesError status0 message errorType code param =
     (if status0 < 400 \<or> status0 > 599 then 502 else status0,
      JObj [(''error'', JObj ([(''message'', JStr message), (''type'', JStr errorType)] @
        (if trim_space code \<noteq> [] then [(''code'', JStr code)] else []) @
        (if trim_space param \<noteq> [] then [(''param'', JStr param)] else [])))])"

definition writeResponsesUpstreamError :: "go_lib \<Rightarrow> int \<Rightarrow> string \<Rightarrow> int \<times> json" where
  "writeResponsesUpstreamError lib status body =
     (let info = parseResponsesUpstreamError lib body;
          message = (if ue_Message info = [] then ''Upstream Codex request failed.'' else ue_Message info);
          errorType = (if ue_Type info \<noteq> [] then ue_Type info
                       else if 500 \<le> status then ''upstream_error'' else ''invalid_request_error'')
      in writeResponsesError status message errorType (ue_Code info) (ue_Param info))"

text \<open>What \<open>executeUpstream\<close> gives back; \<open>RxResponse\<close> carries whether the response has the header of a replaced one.\<close>

datatype responses_exec =
    RxCanceled
  | RxStorageFailure
  | RxFinal chatFinalError
  | RxOther
  | RxResponse upstream_response bool

datatype responses_reply =
    RsJson "int \<times> json"
  | RsProxyError chatFinalError
  | RsStorageError
  | RsNothing
  | RsPassed int body_stream

text \<open>What is accounted: the status, the outcome, and the body the counters are taken from.\<close>

type_synonym responses_report = "(int \<times> string \<times> string) option"

definition handleResponsesCreate ::
  "responses_env \<Rightarrow> responsesValidationError + responsesCreateRequest \<Rightarrow> responses_exec \<Rightarrow> responses_reply \<times> responses_report" where
  "handleResponsesCreate env request exec =
     (case request of
        Inl e \<Rightarrow> (RsJson (writeResponsesError 400 (ve_message e) ''invalid_request_error'' (ve_code e) (ve_param e)), None)
      | Inr q \<Rightarrow>
          (case exec of
             RxCanceled \<Rightarrow> (RsNothing, Some (statusClientClosedRequest, ''client_canceled'', []))
           | RxStorageFailure \<Rightarrow> (RsStorageError, None)
           | RxFinal e \<Rightarrow> (RsProxyError e, Some (pe_StatusCode e, ''upstream_failure'', []))
           | RxOther \<Rightarrow> (RsProxyError upstream_unavailable, Some (502, ''upstream_failure'', []))
           | RxResponse resp replaced \<Rightarrow>
               if resp_StatusCode resp < 200 \<or> 300 \<le> resp_StatusCode resp then
                 (case inspectResponseBody resp of
                    (body, resp1) \<Rightarrow>
                      (if replaced
                       then RsProxyError (chatProxyErrorFromFailure
                              (fst (classifyUpstreamResponse (re_go env) (Some resp1) (re_model env) (re_now env))))
                       else RsJson (writeResponsesUpstreamError (re_go env) (resp_StatusCode resp) body),
                       Some (resp_StatusCode resp, ''upstream_failure'', body)))
               else
                 let body = (case resp_Body resp of Some b \<Rightarrow> b | None \<Rightarrow> bytes_reader [])
                 in (RsPassed (resp_StatusCode resp) body, Some (resp_StatusCode resp, ''success'', b_bytes body))))"

end
