(* ===== verification/Responses_Properties.thy ===== *)
theory Responses_Properties
  imports Responses_Create
begin

text \<open>
  What a Responses request becomes, and what a client that waits is answered.
\<close>

section \<open>The request\<close>

lemma flags_checked:
  "check_flags raw params = None \<Longrightarrow> \<forall>param\<in>set params. map_of raw param \<in> {None, Some (JBool False)}"
  by (induction raw params rule: check_flags.induct) (auto split: option.splits json.splits if_splits)

text \<open>The object that is sent: unchanged members, except for the three the proxy decides about.\<close>

definition stateless_of :: "json_map \<Rightarrow> json_map \<Rightarrow> bool" where
  "stateless_of raw0 raw \<longleftrightarrow>
     map_of raw ''stream'' = Some (JBool True) \<and> map_of raw ''max_output_tokens'' = None \<and>
     map_of raw ''background'' \<in> {None, Some (JBool False)} \<and> map_of raw ''store'' \<in> {None, Some (JBool False)} \<and>
     (\<forall>k. k \<notin> {''stream'', ''store'', ''max_output_tokens''} \<longrightarrow> map_of raw k = map_of raw0 k)"

definition sends :: "chat_lib \<Rightarrow> string \<Rightarrow> json_map \<Rightarrow> string \<Rightarrow> json_map \<Rightarrow> bool" where
  "sends lib body raw0 payload raw \<longleftrightarrow>
     (payload = body \<and> raw = raw0 \<or> marshal_value lib (JObj raw) = Some payload)"

lemma delete_absent: "map_of m k = None \<Longrightarrow> AList.delete k m = m"
  by (induction m) (auto split: if_splits)

lemma finished_request:
  assumes "finish_request lib body raw stream changed = Inr q"
  shows "rr_stream q = stream \<and> (if changed then marshal_value lib (JObj raw) = Some (rr_payload q) else rr_payload q = body)"
  using assms by (auto simp: finish_request_def split: option.splits if_splits)

lemma accepted_request:
  assumes "decodeResponsesCreateRequest lib incoming = Inr q"
  shows "\<exists>body raw0 raw. incoming = Some body \<and> b_end body = None \<and> decode_single lib (b_bytes body) = Some raw0 \<and>
    sends lib (b_bytes body) raw0 (rr_payload q) raw \<and> stateless_of raw0 raw \<and>
    (rr_stream q \<longleftrightarrow> map_of raw0 ''stream'' = Some (JBool True))"
proof -
  obtain body where body: "incoming = Some body" "b_end body = None"
    using assms by (auto simp: decodeResponsesCreateRequest_def split: option.splits if_splits)
  obtain raw0 where raw0: "decode_single lib (b_bytes body) = Some raw0"
    using assms body by (auto simp: decodeResponsesCreateRequest_def split: option.splits)
  define raw where "raw = AList.delete ''max_output_tokens'' raw0"
  define rest where "rest = (case map_of raw ''stream'' of
      Some (JBool True) \<Rightarrow> finish_request lib (b_bytes body) raw True (map_of raw0 ''max_output_tokens'' \<noteq> None)
    | None \<Rightarrow> finish_request lib (b_bytes body)
        (AList.update ''store'' (JBool False) (AList.update ''stream'' (JBool True) raw)) False True
    | Some (JBool False) \<Rightarrow> finish_request lib (b_bytes body)
        (AList.update ''store'' (JBool False) (AList.update ''stream'' (JBool True) raw)) False True
    | Some _ \<Rightarrow> Inl (invalidResponsesParamError ''stream'' ''must be a boolean''))"
  have flags: "check_flags raw [''background'', ''store''] = None" and rest: "rest = Inr q"
    using assms body raw0 unfolding rest_def raw_def
    by (auto simp: decodeResponsesCreateRequest_def Let_def split: if_splits option.splits)
  note ok = flags_checked [OF flags]
  have other: "map_of raw k = map_of raw0 k" if "k \<noteq> ''max_output_tokens''" for k
    using that by (simp add: raw_def delete_conv)
  have limit: "map_of raw ''max_output_tokens'' = None" by (simp add: raw_def delete_conv)
  have stream0: "map_of raw ''stream'' = map_of raw0 ''stream''" by (rule other) simp
  consider (stream) "map_of raw ''stream'' = Some (JBool True)" "finish_request lib (b_bytes body) raw True (map_of raw0 ''max_output_tokens'' \<noteq> None) = Inr q"
    | (wait) "map_of raw ''stream'' \<noteq> Some (JBool True)" "finish_request lib (b_bytes body)
        (AList.update ''store'' (JBool False) (AList.update ''stream'' (JBool True) raw)) False True = Inr q"
    using rest unfolding rest_def by (auto split: option.splits json.splits bool.splits)
  then show ?thesis
  proof cases
    case stream
    from finished_request [OF stream(2)] have
      "sends lib (b_bytes body) raw0 (rr_payload q) raw" "rr_stream q"
      using delete_absent [of raw0 "''max_output_tokens''"] by (auto simp: sends_def raw_def split: if_splits)
    moreover have "stateless_of raw0 raw" using stream(1) ok limit other by (simp add: stateless_of_def)
    ultimately show ?thesis using body raw0 stream(1) stream0 by auto
  next
    case wait
    let ?raw = "AList.update ''store'' (JBool False) (AList.update ''stream'' (JBool True) raw)"
    from finished_request [OF wait(2)] have "sends lib (b_bytes body) raw0 (rr_payload q) ?raw" "\<not> rr_stream q"
      by (auto simp: sends_def)
    moreover have "stateless_of raw0 ?raw" using ok limit other by (simp add: stateless_of_def update_conv)
    ultimately show ?thesis using body raw0 wait(1) stream0 by auto
  qed
qed

section \<open>The answer\<close>

text \<open>An event that says nothing final, and the answer a final one carries.\<close>

definition interim :: "responses_env \<Rightarrow> sseEvent \<Rightarrow> bool" where
  "interim env ev \<longleftrightarrow> collector_apply env ev None = Inr None"

definition final_answer :: "responses_env \<Rightarrow> sseEvent \<Rightarrow> string option" where
  "final_answer env ev = (case collector_apply env ev None of Inr (Some response) \<Rightarrow> Some response | _ \<Rightarrow> None)"

lemma after_final: "\<exists>e. collector_apply env ev (Some r) = Inl e \<and> isChatStreamFailure e"
  by (auto simp: collector_apply_def Let_def decodeChatResponsesEvent_def protocol_def isChatStreamFailure_def
      split: option.splits sum.splits prod.splits)

lemma collect_after:
  "collect_events env evs fin (Some r) = (e, c) \<Longrightarrow>
   c = Some r \<and> (case e of None \<Rightarrow> evs = [] \<and> fin = SseEof | Some x \<Rightarrow> isChatStreamFailure x \<or> evs = [] \<and> fin = SseReadError)"
proof (cases evs)
  case (Cons ev rest)
  assume "collect_events env evs fin (Some r) = (e, c)"
  with Cons after_final [of env ev r] show ?thesis by auto
qed (cases fin; auto simp: protocol_def isChatStreamFailure_def)

lemma collected:
  "(\<exists>e. collect_events env evs fin None = (e, Some r) \<and> (case e of None \<Rightarrow> True | Some x \<Rightarrow> \<not> isChatStreamFailure x)) \<longleftrightarrow>
   (\<exists>pre ev. evs = pre @ [ev] \<and> (\<forall>p\<in>set pre. interim env p) \<and> final_answer env ev = Some r \<and> fin \<noteq> SseTooLarge)"
proof (induction evs)
  case (Cons ev evs)
  show ?case
  proof (cases "collector_apply env ev None")
    case (Inl e)
    then show ?thesis by (auto simp: interim_def final_answer_def Cons_eq_append_conv)
  next
    case (Inr c)
    show ?thesis
    proof (cases c)
      case None
      with Inr have int: "interim env ev" "final_answer env ev = None" by (simp_all add: interim_def final_answer_def)
      have "(\<exists>pre l. ev # evs = pre @ [l] \<and> (\<forall>p\<in>set pre. interim env p) \<and> final_answer env l = Some r \<and> fin \<noteq> SseTooLarge)
          \<longleftrightarrow> (\<exists>pre l. evs = pre @ [l] \<and> (\<forall>p\<in>set pre. interim env p) \<and> final_answer env l = Some r \<and> fin \<noteq> SseTooLarge)"
        using int by (auto simp: Cons_eq_append_conv)
      with Cons.IH Inr None show ?thesis by simp
    next
      case (Some r')
      with Inr have fin: "final_answer env ev = Some r'" "\<not> interim env ev" by (simp_all add: interim_def final_answer_def)
      obtain e c' where run: "collect_events env evs fin (Some r') = (e, c')" by (metis surj_pair)
      have "(\<exists>pre l. ev # evs = pre @ [l] \<and> (\<forall>p\<in>set pre. interim env p) \<and> final_answer env l = Some r \<and> fin \<noteq> SseTooLarge)
          \<longleftrightarrow> evs = [] \<and> r' = r \<and> fin \<noteq> SseTooLarge"
        using fin by (auto simp: Cons_eq_append_conv)
      moreover have "evs = [] \<Longrightarrow> fin \<noteq> SseTooLarge \<Longrightarrow> (case e of None \<Rightarrow> True | Some x \<Rightarrow> \<not> isChatStreamFailure x)"
        using run by (cases fin) (auto simp: isChatStreamFailure_def)
      ultimately show ?thesis using collect_after [OF run] run Inr Some
        by (cases fin) (auto simp: protocol_def isChatStreamFailure_def split: option.splits)
    qed
  qed
qed simp

lemma waiting_answer:
  assumes "200 \<le> status" "status < 300"
  shows "prepareResponsesCreateUpstreamResponse env gone False status (Some (evs, fin)) = RpAnswer r \<longleftrightarrow>
    (\<exists>pre ev. evs = pre @ [ev] \<and> (\<forall>p\<in>set pre. interim env p) \<and> final_answer env ev = Some r \<and> fin \<noteq> SseTooLarge)"
proof -
  obtain e c where run: "collect_events env evs fin None = (e, c)" by (metis surj_pair)
  have "prepareResponsesCreateUpstreamResponse env gone False status (Some (evs, fin)) = RpAnswer r \<longleftrightarrow>
      c = Some r \<and> (case e of None \<Rightarrow> True | Some x \<Rightarrow> \<not> isChatStreamFailure x)"
    using assms run
    by (auto simp: prepareResponsesCreateUpstreamResponse_def Let_def protocol_def isChatStreamFailure_def
        split: option.splits if_splits)
  then show ?thesis using run collected [of env evs fin r] by auto
qed


text \<open>A success is accounted exactly when the upstream's body is passed on.\<close>

lemma responses_accounting:
  "(\<exists>status body. fst (handleResponsesCreate env request exec) = RsPassed status body) \<longleftrightarrow>
   (\<exists>status payload. snd (handleResponsesCreate env request exec) = Some (status, ''success'', payload))"
  by (auto simp: handleResponsesCreate_def Let_def split: sum.split responses_exec.split prod.split)

section \<open>A concrete request\<close>

definition demo_env :: responses_env where
  "demo_env = \<lparr>re_chat = demo_lib\<lparr>decode_single := map_of [(''r'', [(''model'', JStr ''m''), (''max_output_tokens'', JNumber ''5'')]),
       (''e'', [(''type'', JStr ''response.completed'')])]\<rparr>,
     re_go = key_lib\<lparr>unmarshal_object := (\<lambda>s. Some [])\<rparr>, raw_member = (\<lambda>s k. Some ''{}''), re_model = [], re_now = 0\<rparr>"

lemma demo_accepted:
  "\<exists>q. decodeResponsesCreateRequest (re_chat demo_env) (Some (bytes_reader ''r'')) = Inr q"
proof -
  have limit: "token_limit_ok (JNumber ''5'')" by code_simp
  have given: "\<not> null_text ''r''" by code_simp
  show ?thesis
    using limit given
    by (simp add: decodeResponsesCreateRequest_def demo_env_def bytes_reader_def finish_request_def demo_lib_def)
qed

lemma demo_final: "final_answer demo_env \<lparr>ev_Event = [], ev_Data = ''e''\<rparr> = Some ''{}''"
proof -
  have trims: "trim_space ''{}'' = ''{}''" "trim_space ''response.completed'' = ''response.completed''" by code_simp+
  then show ?thesis
    by (simp add: final_answer_def collector_apply_def decodeChatResponsesEvent_def demo_env_def stringFromMap_def
        rawStringFromMap_def member_def Let_def)
qed


end
