(* ===== verification/Websocket_Usage.thy ===== *)
theory Websocket_Usage
  imports Responses_Create
begin

text \<open>
  What a proxied WebSocket accounts (\<open>proxyCodexWebSocket\<close> in \<open>usage_proxy.go\<close>): the messages of both
  directions in the order in which they are inspected. The upstream reports the usage of a response more
  than once, each time as a total, and only the difference is accounted.
\<close>

section \<open>Usage reports\<close>

definition stringValue :: "json \<Rightarrow> string" where
  "stringValue v = (case v of JStr s \<Rightarrow> trim_space s | _ \<Rightarrow> [])"

text \<open>The identifier of the response a report belongs to; the members of an object are searched in the order of its list.\<close>

fun usageResponseIDFromValue :: "json \<Rightarrow> string" where
  "usageResponseIDFromValue (JObj m) =
     (let ids = map (\<lambda>(k, v). (k, usageResponseIDFromValue v)) m;
          has_usage = (\<lambda>x. map_of x ''usage'' \<noteq> None)
      in firstNonEmptyString
           ((case mapValue (member m ''response'') of
               Some response \<Rightarrow>
                 [if has_usage response then stringValue (member response ''id'') else [],
                  case map_of ids ''response'' of Some i \<Rightarrow> i | None \<Rightarrow> []]
             | None \<Rightarrow> []) @
            [if has_usage m then stringValue (member m ''id'') else [],
             stringValue (member m ''response_id'')] @
            map snd ids))"
| "usageResponseIDFromValue (JArr vs) = firstNonEmptyString (map usageResponseIDFromValue vs)"
| "usageResponseIDFromValue v = []"

record webSocketUsageEvent =
  we_ResponseID :: string
  we_Counters :: usage_counters

definition webSocketUsageEventFromJSON :: "usage_lib \<Rightarrow> string \<Rightarrow> webSocketUsageEvent option" where
  "webSocketUsageEventFromJSON lib payload =
     (case extractUsageCounters lib payload of
        None \<Rightarrow> None
      | Some counters \<Rightarrow>
          Some \<lparr>we_ResponseID = (case decode_usage lib payload of Some v \<Rightarrow> usageResponseIDFromValue v | None \<Rightarrow> []),
                we_Counters = counters\<rparr>)"

section \<open>The connection\<close>

text \<open>\<open>wl\<close>: one call of \<open>recordProxyUsage\<close>, on a connection whose usage is recorded at all.\<close>

record usage_log =
  wl_Metadata :: proxyRequestUsageMetadata
  wl_Counters :: usage_counters
  wl_HasUsage :: bool
  wl_DeltaOnly :: bool

record websocket_usage =
  recordedUsage :: bool
  recordedResponses :: "(string \<times> usage_counters) list"
  ws_metadata :: proxyRequestUsageMetadata
  ws_log :: "usage_log list"

definition websocket_metadata :: "http_request \<Rightarrow> proxyRequestUsageMetadata" where
  "websocket_metadata r =
     \<lparr>um_Model = trim_space (header_get (h_Query r) ''model''),
      um_ReasoningEffort = trim_space (header_get (h_Query r) ''reasoning_effort''),
      um_ServiceTier = normalizeServiceTier (requestServiceTierFromQuery (h_Query r)), um_SkipUsage = False\<rparr>"

definition start_websocket :: "http_request \<Rightarrow> websocket_usage" where
  "start_websocket r =
     \<lparr>recordedUsage = False, recordedResponses = [], ws_metadata = websocket_metadata r, ws_log = []\<rparr>"

text \<open>A message of the client is passed on, or the connection ends when it asks for the fast tier.\<close>

definition client_message :: "chat_lib \<Rightarrow> bool \<Rightarrow> bool \<Rightarrow> string \<Rightarrow> websocket_usage \<Rightarrow> bool \<times> websocket_usage" where
  "client_message lib fastAllowed is_text payload st =
     (if \<not> is_text then (True, st)
      else if \<not> fastAllowed \<and> payloadHasFastServiceTier lib payload then (False, st)
      else (case usageMetadataFromJSON lib payload of
              (new, found) \<Rightarrow> (True, if found then st\<lparr>ws_metadata := mergeUsageMetadata (ws_metadata st) new\<rparr> else st)))"

definition recordWebSocketUsage :: "webSocketUsageEvent \<Rightarrow> websocket_usage \<Rightarrow> websocket_usage" where
  "recordWebSocketUsage ev st0 =
     (let st = st0\<lparr>recordedUsage := True\<rparr> in
      if um_SkipUsage (ws_metadata st) then st
      else
        let previous = (if we_ResponseID ev \<noteq> [] then map_of (recordedResponses st) (we_ResponseID ev) else None);
            counters = (case previous of Some p \<Rightarrow> counters_subtract (we_Counters ev) p | None \<Rightarrow> we_Counters ev);
            st1 = (if we_ResponseID ev \<noteq> []
                   then st\<lparr>recordedResponses := AList.update (we_ResponseID ev) (we_Counters ev) (recordedResponses st)\<rparr> else st)
        in if counters_isZero counters then st1
           else st1\<lparr>ws_log := ws_log st1 @ [\<lparr>wl_Metadata = ws_metadata st1, wl_Counters = counters, wl_HasUsage = True,
                      wl_DeltaOnly = (previous \<noteq> None)\<rparr>]\<rparr>)"

definition upstream_message :: "usage_lib \<Rightarrow> bool \<Rightarrow> string \<Rightarrow> websocket_usage \<Rightarrow> websocket_usage" where
  "upstream_message lib is_text payload st =
     (if \<not> is_text then st
      else (case webSocketUsageEventFromJSON lib payload of Some ev \<Rightarrow> recordWebSocketUsage ev st | None \<Rightarrow> st))"

definition finish_websocket :: "websocket_usage \<Rightarrow> websocket_usage" where
  "finish_websocket st =
     (if recordedUsage st then st
      else st\<lparr>ws_log := ws_log st @ [\<lparr>wl_Metadata = ws_metadata st, wl_Counters = zero_counters, wl_HasUsage = False,
                wl_DeltaOnly = False\<rparr>]\<rparr>)"

section \<open>Totals\<close>

text \<open>
  The counters accounted for one response. \<open>logged i st\<close> runs over the reports of a connection and adds
  up what each of them accounts for the response \<open>i\<close>.
\<close>

fun logged :: "string \<Rightarrow> webSocketUsageEvent list \<Rightarrow> websocket_usage \<Rightarrow> usage_counters" where
  "logged i [] st = zero_counters"
| "logged i (ev # evs) st =
     (let st1 = recordWebSocketUsage ev st;
          new = (if we_ResponseID ev = i \<and> length (ws_log st) < length (ws_log st1) then wl_Counters (last (ws_log st1)) else zero_counters)
      in counters_add new (logged i evs st1))"

definition counters_ok :: "usage_counters \<Rightarrow> bool" where
  "counters_ok c \<longleftrightarrow> counters_add c zero_counters = c"

lemma wrap_mod: "wrap64 a = wrap64 b \<longleftrightarrow> a mod 2 ^ 64 = b mod 2 ^ 64"
proof -
  have "(a + 2 ^ 63) mod 2 ^ 64 = (b + 2 ^ 63) mod 2 ^ 64 \<longleftrightarrow> a mod 2 ^ 64 = b mod (2 ^ 64 :: int)"
    by (simp only: mod_eq_dvd_iff) simp
  then show ?thesis by (simp add: wrap64_def)
qed

lemma wrap_same: "wrap64 a mod 2 ^ 64 = a mod 2 ^ 64"
  by (simp add: wrap64_def mod_diff_left_eq)

lemma wrap_add: "wrap64 (wrap64 a + b) = wrap64 (a + b)" "wrap64 (a + wrap64 b) = wrap64 (a + b)"
  unfolding wrap_mod using wrap_same [of a] wrap_same [of b] mod_add_cong by blast+

lemma wrap_simps [simp]: "wrap64 (wrap64 a) = wrap64 a" "wrap64 0 = 0"
  using wrap_add(1) [of a 0] by (simp_all add: wrap64_def)

lemma counters_add_zero: "counters_ok c \<Longrightarrow> counters_add zero_counters c = c"
  by (cases c) (simp add: counters_ok_def counters_add_def map_counters2_def zero_counters_def)

lemma counters_ok_zero [simp]: "counters_ok zero_counters"
  by (simp add: counters_ok_def counters_add_def map_counters2_def zero_counters_def)

lemma counters_ok_subtract [simp]: "counters_ok (counters_subtract c d)"
  by (simp add: counters_ok_def counters_add_def counters_subtract_def map_counters2_def zero_counters_def)

lemma telescope:
  assumes "counters_ok c"
  shows "counters_add (counters_subtract d p) (counters_subtract c d) = counters_subtract c p"
  using assms
  by (simp add: counters_ok_def counters_add_def counters_subtract_def map_counters2_def wrap_add)

text \<open>
  On a connection that skips no usage, what is accounted for a response that was reported is its last
  report, however often it was reported and however the reports of other responses lie between.
\<close>

lemma step_records:
  assumes "\<not> um_SkipUsage (ws_metadata st)" "we_ResponseID ev \<noteq> []"
  shows "map_of (recordedResponses (recordWebSocketUsage ev st)) i
      = (if i = we_ResponseID ev then Some (we_Counters ev) else map_of (recordedResponses st) i)"
    "ws_metadata (recordWebSocketUsage ev st) = ws_metadata st"
  using assms by (simp_all add: recordWebSocketUsage_def Let_def update_conv)

lemma step_logs:
  assumes "\<not> um_SkipUsage (ws_metadata st)" "we_ResponseID ev \<noteq> []"
  shows "(if length (ws_log st) < length (ws_log (recordWebSocketUsage ev st))
      then wl_Counters (last (ws_log (recordWebSocketUsage ev st))) else zero_counters)
    = (case map_of (recordedResponses st) (we_ResponseID ev) of
         Some p \<Rightarrow> counters_subtract (we_Counters ev) p | None \<Rightarrow> we_Counters ev)"
  using assms by (simp add: recordWebSocketUsage_def Let_def counters_isZero_def split: option.split)

definition reported :: "string \<Rightarrow> webSocketUsageEvent list \<Rightarrow> usage_counters list" where
  "reported i evs = map we_Counters (filter (\<lambda>ev. we_ResponseID ev = i) evs)"

lemma subtract_self: "counters_subtract c c = zero_counters"
  by (simp add: counters_subtract_def map_counters2_def zero_counters_def)

lemma logged_total:
  assumes "\<not> um_SkipUsage (ws_metadata st)" "\<forall>ev\<in>set evs. we_ResponseID ev \<noteq> [] \<and> counters_ok (we_Counters ev)"
  shows "logged i evs st =
    (if reported i evs = [] then zero_counters
     else case map_of (recordedResponses st) i of
            Some p \<Rightarrow> counters_subtract (last (reported i evs)) p | None \<Rightarrow> last (reported i evs))"
  using assms
proof (induction evs arbitrary: st)
  case Nil
  show ?case by (simp add: reported_def)
next
  case (Cons ev evs)
  let ?st = "recordWebSocketUsage ev st"
  have ev: "\<not> um_SkipUsage (ws_metadata st)" "we_ResponseID ev \<noteq> []" "counters_ok (we_Counters ev)" using Cons.prems by auto
  note recs = step_records [OF ev(1,2)] and logs = step_logs [OF ev(1,2)]
  have IH: "logged i evs ?st =
      (if reported i evs = [] then zero_counters
       else case map_of (recordedResponses ?st) i of
            Some p \<Rightarrow> counters_subtract (last (reported i evs)) p | None \<Rightarrow> last (reported i evs))"
    using Cons.IH [of ?st] Cons.prems recs(2) by simp
  have ok: "reported i evs \<noteq> [] \<Longrightarrow> counters_ok (last (reported i evs))"
    using Cons.prems(2) last_in_set [of "reported i evs"] by (auto simp: reported_def)
  show ?case
  proof (cases "we_ResponseID ev = i")
    case False
    then have same: "reported i (ev # evs) = reported i evs" "map_of (recordedResponses ?st) i = map_of (recordedResponses st) i"
      using recs(1) [of i] by (simp_all add: reported_def)
    have zero: "counters_add zero_counters (logged i evs ?st) = logged i evs ?st"
    proof (rule counters_add_zero, cases "reported i evs = []")
      case True
      then show "counters_ok (logged i evs ?st)" using IH by simp
    next
      case False
      then show "counters_ok (logged i evs ?st)" using IH ok by (cases "map_of (recordedResponses ?st) i") simp_all
    qed
    have "logged i (ev # evs) st = logged i evs ?st" using False zero by (simp add: Let_def)
    then show ?thesis unfolding same IH same(2) by simp
  next
    case True
    then have rep: "reported i (ev # evs) = we_Counters ev # reported i evs" and
      now: "map_of (recordedResponses ?st) i = Some (we_Counters ev)"
      using recs(1) [of i] by (simp_all add: reported_def)
    let ?new = "case map_of (recordedResponses st) i of
         Some p \<Rightarrow> counters_subtract (we_Counters ev) p | None \<Rightarrow> we_Counters ev"
    have "logged i (ev # evs) st = counters_add ?new (logged i evs ?st)"
      using logs True by (simp add: Let_def)
    moreover have "counters_add (counters_subtract c p) zero_counters = counters_subtract c p" for c p
      using counters_ok_subtract by (simp only: counters_ok_def)
    moreover have "counters_add d (counters_subtract c d) = c" if "counters_ok c" for c d
      using that by (simp add: counters_ok_def counters_add_def counters_subtract_def map_counters2_def wrap_add zero_counters_def)
    ultimately show ?thesis using IH rep now ok ev(3) telescope
      by (simp add: counters_ok_def split: option.split)
  qed
qed

text \<open>
  A response whose first report has no tokens yet is never counted as a request: that report accounts nothing, and
  the next one only the difference.
\<close>

lemma zero_report_hides_request:
  assumes "\<not> um_SkipUsage (ws_metadata st)" "i \<noteq> []" "map_of (recordedResponses st) i = None" "ws_log st = []"
    "c \<noteq> zero_counters" "counters_ok c"
  shows "map wl_DeltaOnly (ws_log (finish_websocket
      (recordWebSocketUsage \<lparr>we_ResponseID = i, we_Counters = c\<rparr>
        (recordWebSocketUsage \<lparr>we_ResponseID = i, we_Counters = zero_counters\<rparr> st)))) = [True]"
proof -
  have "counters_subtract c zero_counters = c"
    using assms(6) by (cases c) (simp add: counters_ok_def counters_add_def counters_subtract_def map_counters2_def zero_counters_def)
  with assms show ?thesis
    by (simp add: recordWebSocketUsage_def finish_websocket_def Let_def counters_isZero_def update_conv)
qed

end
