(* ===== verification/Edit_Predictions.thy ===== *)
theory Edit_Predictions
  imports Websocket_Usage
begin

text \<open>
  Edit predictions (\<open>zed_edit_predictions.go\<close>): a fill-in-the-middle prompt becomes a Responses request,
  and the text of its answer is cut at the stop sequences and at the requested number of characters.
  The upstream's side and the accounting are those of a chat completion that is not streamed, so the
  types of its replies and reports are used here too.
\<close>

section \<open>The prompt\<close>

definition qwenFIMPrefixMarker :: string where "qwenFIMPrefixMarker = ''<|fim_prefix|>''"
definition qwenFIMSuffixMarker :: string where "qwenFIMSuffixMarker = ''<|fim_suffix|>''"
definition qwenFIMMiddleMarker :: string where "qwenFIMMiddleMarker = ''<|fim_middle|>''"

text \<open>\<open>strings.Count\<close> of a text that is not empty; \<open>k\<close> bytes of the last occurrence are still to be skipped.\<close>

fun count_from :: "string \<Rightarrow> nat \<Rightarrow> string \<Rightarrow> nat" where
  "count_from sub k [] = 0"
| "count_from sub (Suc k) (c # s) = count_from sub k s"
| "count_from sub 0 (c # s) =
     (if prefix sub (c # s) then Suc (count_from sub (length sub - 1) s) else count_from sub 0 s)"

definition str_count :: "string \<Rightarrow> string \<Rightarrow> nat" where
  "str_count s sub = count_from sub 0 s"

definition bad_prompt :: string where
  "bad_prompt = ''prompt must contain exactly one ordered Qwen FIM sequence''"

definition parseQwenFIMPrompt :: "string \<Rightarrow> string + string \<times> string" where
  "parseQwenFIMPrompt prompt =
     (if str_count prompt qwenFIMPrefixMarker \<noteq> 1 \<or> str_count prompt qwenFIMSuffixMarker \<noteq> 1 \<or>
         str_count prompt qwenFIMMiddleMarker \<noteq> 1 \<or> \<not> prefix qwenFIMPrefixMarker prompt \<or>
         \<not> suffix qwenFIMMiddleMarker prompt
      then Inl bad_prompt
      else (case (str_index prompt qwenFIMSuffixMarker, str_index prompt qwenFIMMiddleMarker) of
              (Some suffixIndex, Some middleIndex) \<Rightarrow>
                if suffixIndex < length qwenFIMPrefixMarker \<or>
                   middleIndex < suffixIndex + length qwenFIMSuffixMarker
                then Inl bad_prompt
                else
                  let start = suffixIndex + length qwenFIMSuffixMarker
                  in Inr (drop (length qwenFIMPrefixMarker) (take suffixIndex prompt), drop start (take middleIndex prompt))
            | _ \<Rightarrow> Inl bad_prompt))"

section \<open>The request\<close>

definition defaultZedEditPredictionLimit :: int where "defaultZedEditPredictionLimit = 256"
definition maxZedEditPredictionLimit :: int where "maxZedEditPredictionLimit = 4096"

definition zedEditPredictionInstructions :: string where
  "zedEditPredictionInstructions =
     ''Complete the code between the provided prefix and suffix. Return only the missing text, with no Markdown fences, explanation, or repetition of the prefix or suffix.''"

definition zedEditPredictionMaxTokens :: "json option \<Rightarrow> string + int" where
  "zedEditPredictionMaxTokens v =
     (case v of
        None \<Rightarrow> Inr defaultZedEditPredictionLimit
      | Some (JNumber s) \<Rightarrow>
          (case parse_int64_strict s of
             Some n \<Rightarrow> if n \<le> 0 \<or> maxZedEditPredictionLimit < n
                       then Inl ''max_tokens must be an integer between 1 and 4096'' else Inr n
           | None \<Rightarrow> Inl ''max_tokens must be an integer between 1 and 4096'')
      | Some _ \<Rightarrow> Inl ''invalid field: max_tokens'')"

fun stop_entries :: "json list \<Rightarrow> string list option" where
  "stop_entries [] = Some []"
| "stop_entries (v # vs) =
     (case v of JStr s \<Rightarrow> if s = [] then None else map_option ((#) s) (stop_entries vs) | _ \<Rightarrow> None)"

definition zedEditPredictionStopSequences :: "json option \<Rightarrow> string + string list" where
  "zedEditPredictionStopSequences v =
     (case v of
        None \<Rightarrow> Inr []
      | Some (JStr s) \<Rightarrow> if s = [] then Inl ''invalid field: stop'' else Inr [s]
      | Some (JArr vs) \<Rightarrow> (case stop_entries vs of Some out \<Rightarrow> Inr out | None \<Rightarrow> Inl ''invalid field: stop'')
      | Some _ \<Rightarrow> Inl ''invalid field: stop'')"

record zedEditPredictionConversion =
  zc_responses :: json_map
  zc_metadata :: proxyRequestUsageMetadata
  zc_stopSequences :: "string list"
  zc_maxTokens :: int

definition input_text :: "string \<Rightarrow> json" where
  "input_text s = JObj [(''type'', JStr ''input_text''), (''text'', JStr s)]"

definition prediction_request :: "string \<Rightarrow> string \<Rightarrow> string \<Rightarrow> json_map" where
  "prediction_request model p s =
     [(''model'', JStr model), (''stream'', JBool True), (''store'', JBool False),
      (''instructions'', JStr zedEditPredictionInstructions),
      (''reasoning'', JObj [(''effort'', JStr ''low'')]),
      (''input'', JArr [JObj [(''type'', JStr ''message''), (''role'', JStr ''user''),
         (''content'', JArr [input_text (''Prefix:'' @ [CHR 0x0A] @ p), input_text (''Suffix:'' @ [CHR 0x0A] @ s)])]])]"

text \<open>
  \<open>mime.ParseMediaType\<close> with the type \<open>application/json\<close>: the type before the first semicolon is lowered and
  trimmed, and \<open>params_ok\<close> says whether the parameters from there on are well-formed.
\<close>

definition json_media_type :: "(string \<Rightarrow> bool) \<Rightarrow> string \<Rightarrow> bool" where
  "json_media_type params_ok v0 \<longleftrightarrow>
     (let v = trim_space v0 in
      trim_space (lower_ascii_view (takeWhile (\<lambda>c. c \<noteq> CHR '';'') v)) = ''application/json'' \<and>
      params_ok (dropWhile (\<lambda>c. c \<noteq> CHR '';'') v))"

definition required_string :: "json_map \<Rightarrow> string \<Rightarrow> string + string" where
  "required_string raw k =
     (case member raw k of JStr s \<Rightarrow> Inr s | _ \<Rightarrow> Inl (''missing or invalid required field: '' @ k))"

text \<open>The checks after the prompt: the numbers and the stop sequences.\<close>

definition prediction_options :: "json_map \<Rightarrow> string + int \<times> string list" where
  "prediction_options raw =
     (case zedEditPredictionMaxTokens (map_of raw ''max_tokens'') of
        Inl e \<Rightarrow> Inl e
      | Inr maxTokens \<Rightarrow>
          if \<not> (case map_of raw ''temperature'' of None \<Rightarrow> True | Some (JNumber s) \<Rightarrow> True | Some _ \<Rightarrow> False)
          then Inl ''invalid field: temperature''
          else (case zedEditPredictionStopSequences (map_of raw ''stop'') of
                  Inl e \<Rightarrow> Inl e
                | Inr stops \<Rightarrow> Inr (maxTokens, stops)))"

definition convert_prediction :: "json_map \<Rightarrow> string + zedEditPredictionConversion" where
  "convert_prediction raw =
     (case required_string raw ''model'' of
        Inl e \<Rightarrow> Inl e
      | Inr modelValue \<Rightarrow>
          (case normalizeModelIdentifier modelValue of
             None \<Rightarrow> Inl ''missing or invalid required field: model''
           | Some model \<Rightarrow>
               (case required_string raw ''prompt'' of
                  Inl e \<Rightarrow> Inl e
                | Inr prompt \<Rightarrow>
                    (case parseQwenFIMPrompt prompt of
                       Inl e \<Rightarrow> Inl e
                     | Inr (p, s) \<Rightarrow>
                         (case prediction_options raw of
                            Inl e \<Rightarrow> Inl e
                          | Inr (maxTokens, stops) \<Rightarrow>
                              Inr \<lparr>zc_responses = prediction_request model p s,
                                   zc_metadata = \<lparr>um_Model = model, um_ReasoningEffort = ''low'', um_ServiceTier = [],
                                     um_SkipUsage = False\<rparr>,
                                   zc_stopSequences = stops, zc_maxTokens = maxTokens\<rparr>)))))"

definition decodeZedEditPredictionRequest ::
  "chat_lib \<Rightarrow> (string \<Rightarrow> bool) \<Rightarrow> http_request \<Rightarrow> string + zedEditPredictionConversion" where
  "decodeZedEditPredictionRequest lib params_ok r =
     (case rq_Body (h_Body r) of
        None \<Rightarrow> Inl ''invalid JSON request body''
      | Some body \<Rightarrow>
          if \<not> json_media_type params_ok (header_get (h_Header r) ''Content-Type'')
          then Inl ''content type must be application/json''
          else if b_end body \<noteq> None then Inl ''invalid JSON request body''
          else (case decode_single lib (b_bytes body) of
                  None \<Rightarrow> Inl ''invalid JSON request body''
                | Some raw \<Rightarrow> convert_prediction raw))"

section \<open>The answer\<close>

definition truncateZedEditPrediction :: "string \<Rightarrow> int \<Rightarrow> string \<times> bool" where
  "truncateZedEditPrediction s maxRunes =
     (if maxRunes \<le> 0 then ([], s \<noteq> [])
      else if int (length (runes s)) \<le> maxRunes then (s, False)
      else (concat (take (nat maxRunes) (runes s)), True))"

text \<open>The loop over the events; what an update would send is not used.\<close>

fun prediction_events :: "chat_lib \<Rightarrow> sseEvent list \<Rightarrow> sse_end \<Rightarrow> chatCompletionState \<Rightarrow> chat_error option \<times> chatCompletionState" where
  "prediction_events lib [] fin st =
     ((case fin of SseEof \<Rightarrow> None | _ \<Rightarrow> Some (sse_error lib fin)), st)"
| "prediction_events lib (ev # evs) fin st =
     (case applyResponsesEvent lib False ev st of
        (Inl e, st1) \<Rightarrow> (Some e, st1)
      | (Inr u, st1) \<Rightarrow> prediction_events lib evs fin st1)"

definition prediction_verdict :: "chat_lib \<Rightarrow> chat_error option \<Rightarrow> chatCompletionState \<Rightarrow> chat_error option" where
  "prediction_verdict lib e st =
     (case read_verdict lib e st of
        None \<Rightarrow> if cs_toolCalls st \<noteq> [] then Some (protocol lib ''unexpected_tool_output'') else None
      | Some x \<Rightarrow> Some x)"

definition prediction_text :: "zedEditPredictionConversion \<Rightarrow> chatCompletionState \<Rightarrow> string \<times> string" where
  "prediction_text c st =
     (let (text1, finish1) = (case truncateAtStopSequence (cs_content st) (zc_stopSequences c) of
             (stopped, True) \<Rightarrow> (stopped, ''stop'') | (_, False) \<Rightarrow> (cs_content st, finalFinishReason st))
      in case truncateZedEditPrediction text1 (zc_maxTokens c) of
           (limited, True) \<Rightarrow> (limited, ''length'') | (_, False) \<Rightarrow> (text1, finish1))"

definition prediction_json :: "string \<Rightarrow> int \<Rightarrow> string \<Rightarrow> string \<times> string \<Rightarrow> chatCompletionState \<Rightarrow> json" where
  "prediction_json responseID created model answer st =
     JObj [(''id'', JStr responseID), (''object'', JStr ''text_completion''), (''created'', JNum (of_int created)),
       (''model'', JStr model),
       (''choices'', JArr [JObj [(''index'', JNum 0), (''text'', JStr (fst answer)), (''finish_reason'', JStr (snd answer))]]),
       (''usage'', JObj (chatUsage st))]"

definition finish_prediction ::
  "chat_env \<Rightarrow> string \<Rightarrow> int \<Rightarrow> zedEditPredictionConversion \<Rightarrow> int \<Rightarrow> chat_error option \<times> chatCompletionState
     \<Rightarrow> chat_reply \<times> chat_report option" where
  "finish_prediction env responseID created c status result =
     (case result of (e, st) \<Rightarrow>
        if e = Some ChatPanic then (NoReply, None)
        else
          (case prediction_verdict (env_chat env) e st of
             Some x \<Rightarrow>
               (case chatProxyErrorFromStreamError env x of (final, code) \<Rightarrow>
                  (ReplyError final, report st code ''upstream_failure''))
           | None \<Rightarrow>
               (ReplyJson (prediction_json responseID created (um_Model (zc_metadata c)) (prediction_text c st) st),
                report st status ''success'')))"

definition handleZedEditPredictions ::
  "chat_env \<Rightarrow> string \<Rightarrow> int \<Rightarrow> string + zedEditPredictionConversion \<Rightarrow> chat_exec \<Rightarrow> chat_reply \<times> chat_report option" where
  "handleZedEditPredictions env0 responseID created request exec =
     (case request of
        Inl message \<Rightarrow> (ReplyBadRequest message, None)
      | Inr c \<Rightarrow>
          if marshal_value (env_chat env0) (JObj (zc_responses c)) = None
          then (ReplyBadRequest ''invalid edit prediction request'', None)
          else
            let model = um_Model (zc_metadata c); env = env0\<lparr>env_model := model\<rparr>;
                st0 = newChatCompletionState created model
            in (case exec of
                  ExecCanceled \<Rightarrow> (NoReply, no_usage_report statusClientClosedRequest ''client_canceled'')
                | ExecStorageFailure \<Rightarrow> (ReplyStorageError, None)
                | ExecFinal e \<Rightarrow> (ReplyError e, no_usage_report (pe_StatusCode e) ''upstream_failure'')
                | ExecOther \<Rightarrow> (ReplyError upstream_unavailable, no_usage_report 502 ''upstream_failure'')
                | ExecRejected resp \<Rightarrow>
                    let e = chatProxyErrorFromFailure (fst (classifyUpstreamResponse (env_go env) (Some resp) model (env_now env)))
                    in (ReplyError e, no_usage_report (pe_StatusCode e) ''upstream_failure'')
                | ExecStream status ev evs fin \<Rightarrow>
                    finish_prediction env responseID created c status (prediction_events (env_chat env) (ev # evs) fin st0)
                | ExecReplay status evs \<Rightarrow>
                    finish_prediction env responseID created c status (prediction_events (env_chat env) evs SseEof st0)))"

section \<open>Where the markers are\<close>

lemma count_skip: "count_from sub k s = count_from sub 0 (drop k s)"
proof (induction k arbitrary: s)
  case (Suc k)
  then show ?case by (cases s) simp_all
qed simp

lemma count_index:
  assumes "sub \<noteq> []"
  shows "count_from sub 0 s
    = (case str_index s sub of None \<Rightarrow> 0 | Some i \<Rightarrow> Suc (count_from sub 0 (drop (i + length sub) s)))"
proof (induction s)
  case Nil
  with assms show ?case by (simp add: str_index.simps)
next
  case (Cons c s)
  show ?case
  proof (cases "prefix sub (c # s)")
    case True
    moreover have "count_from sub (length sub - 1) s = count_from sub 0 (drop (length sub) (c # s))"
      using assms count_skip [of sub "length sub - 1" s] by (cases sub) simp_all
    ultimately show ?thesis by (simp add: str_index.simps [of "c # s"])
  next
    case False
    with Cons show ?thesis by (simp add: str_index.simps [of "c # s"] split: option.split)
  qed
qed

text \<open>A text whose first character does not come again in it.\<close>

definition marker :: "string \<Rightarrow> bool" where
  "marker m \<longleftrightarrow> m \<noteq> [] \<and> hd m \<notin> set (tl m)"

lemma markers [simp]: "marker qwenFIMPrefixMarker" "marker qwenFIMSuffixMarker" "marker qwenFIMMiddleMarker"
  by (simp_all add: marker_def qwenFIMPrefixMarker_def qwenFIMSuffixMarker_def qwenFIMMiddleMarker_def)

lemma once_found:
  assumes "marker m" "str_count s m = 1" "prefix m (drop i s)"
  shows "str_index s m = Some i"
proof -
  have m: "m \<noteq> []" using assms(1) by (simp add: marker_def)
  from assms(2) count_index [OF m, of s] obtain j where j: "str_index s m = Some j"
    and rest: "count_from m 0 (drop (j + length m) s) = 0"
    by (auto simp: str_count_def split: option.splits)
  note at_j = str_index_Some [OF j]
  have "j \<le> i" using at_j assms(3) by (meson not_le)
  moreover have "i < j + length m"
  proof (rule ccontr)
    assume "\<not> i < j + length m"
    then have "drop i s = drop (i - (j + length m)) (drop (j + length m) s)" by simp
    moreover have "str_index (drop (j + length m) s) m = None"
      using rest count_index [OF m, of "drop (j + length m) s"] by (simp split: option.splits)
    ultimately show False using assms(3) str_index_None [OF _ m] by metis
  qed
  moreover have "i \<noteq> j \<Longrightarrow> j \<le> i \<Longrightarrow> i < j + length m \<Longrightarrow> False"
  proof -
    assume less: "i \<noteq> j" "j \<le> i" "i < j + length m"
    obtain u v where u: "drop j s = m @ u" and v: "drop i s = m @ v"
      using at_j assms(3) by (auto elim!: prefixE)
    have "drop i s ! 0 = hd m" using v m by (simp add: nth_append hd_conv_nth)
    moreover have "drop i s ! 0 = m ! (i - j)"
    proof -
      have "drop i s = drop (i - j) (drop j s)" using less by simp
      then show ?thesis using u less by (simp add: nth_append)
    qed
    moreover have "m ! (i - j) = tl m ! (i - j - 1)" "i - j - 1 < length (tl m)" using less m by (cases m; simp add: nth_Cons')+
    ultimately show False using assms(1) nth_mem [of "i - j - 1" "tl m"] by (simp add: marker_def)
  qed
  ultimately show ?thesis using j by fastforce
qed

text \<open>Exactly the prompts of the three markers in order, each of which occurs once, are taken apart.\<close>

lemma fim_prompt_parsed:
  "parseQwenFIMPrompt prompt = Inr (p, s) \<longleftrightarrow>
     prompt = qwenFIMPrefixMarker @ p @ qwenFIMSuffixMarker @ s @ qwenFIMMiddleMarker \<and>
     (\<forall>m\<in>{qwenFIMPrefixMarker, qwenFIMSuffixMarker, qwenFIMMiddleMarker}. str_count prompt m = 1)"
  (is "?parsed \<longleftrightarrow> ?prompt \<and> ?once")
proof
  assume parsed: ?parsed
  let ?P = qwenFIMPrefixMarker and ?S = qwenFIMSuffixMarker and ?M = qwenFIMMiddleMarker
  from parsed obtain i j where counts: "str_count prompt ?P = 1" "str_count prompt ?S = 1" "str_count prompt ?M = 1"
    and ends: "prefix ?P prompt" "suffix ?M prompt"
    and i: "str_index prompt ?S = Some i" and j: "str_index prompt ?M = Some j"
    and order: "length ?P \<le> i" "i + length ?S \<le> j"
    and parts: "p = drop (length ?P) (take i prompt)" "s = drop (i + length ?S) (take j prompt)"
    unfolding parseQwenFIMPrompt_def Let_def by (auto split: if_splits option.splits)
  from ends(2) obtain u where u: "prompt = u @ ?M" by (auto elim: suffixE)
  have "str_index prompt ?M = Some (length u)"
    by (rule once_found) (use counts u in simp_all)
  with j have len: "j = length u" by simp
  from ends(1) obtain w where w: "prompt = ?P @ w" by (auto elim: prefixE)
  from str_index_Some [OF i] obtain v where v: "drop i prompt = ?S @ v" by (auto elim: prefixE)
  have "take j prompt = u" using u len by simp
  moreover have "take i prompt = ?P @ p" using w order(1) parts(1) by (simp add: take_append)
  moreover have "take j prompt = take i prompt @ ?S @ s"
  proof -
    have "take j prompt = take i prompt @ drop i (take j prompt)" using order by (metis append_take_drop_id min.absorb1 le_add1 le_trans take_take)
    moreover have "drop i (take j prompt) = ?S @ drop (length ?S) (drop i (take j prompt))"
    proof -
      have "drop i (take j prompt) = take (j - i) (?S @ v)" using v by (simp add: drop_take)
      then show ?thesis using order by simp
    qed
    ultimately show ?thesis using parts(2) by (simp add: add.commute)
  qed
  ultimately have ?prompt using u by simp
  with counts show "?prompt \<and> ?once" by simp
next
  let ?P = qwenFIMPrefixMarker and ?S = qwenFIMSuffixMarker and ?M = qwenFIMMiddleMarker
  assume a: "?prompt \<and> ?once"
  then have prompt: "prompt = ?P @ p @ ?S @ s @ ?M" by simp
  have counts: "str_count prompt ?P = 1" "str_count prompt ?S = 1" "str_count prompt ?M = 1" using a by blast+
  have "prefix ?S (drop (length ?P + length p) prompt)" "prefix ?M (drop (length ?P + length p + length ?S + length s) prompt)"
    unfolding prompt by simp_all
  then have S: "str_index prompt ?S = Some (length ?P + length p)"
    and M: "str_index prompt ?M = Some (length ?P + length p + length ?S + length s)"
    using once_found counts markers by blast+
  have "suffix ?M prompt" "prefix ?P prompt" unfolding prompt by (simp_all add: suffix_def)
  moreover have "drop (length ?P) (take (length ?P + length p) prompt) = p"
    "drop (length ?P + length p + length ?S) (take (length ?P + length p + length ?S + length s) prompt) = s"
    unfolding prompt by simp_all
  ultimately show ?parsed
    unfolding parseQwenFIMPrompt_def S M counts Let_def by simp
qed

section \<open>What a client gets\<close>

lemma rune_start_take: "rune_start s \<Longrightarrow> rune_start (concat (take n (runes s)))"
  by (cases s; cases n) (simp_all add: rune_start_def)

lemma runes_take: "runes (concat (take n (runes s))) = take n (runes s)"
proof (induction s arbitrary: n rule: runes.induct)
  case (2 c s)
  show ?case
  proof (cases n)
    case (Suc m)
    let ?rest = "concat (take m (runes (dropWhile continuation s)))"
    have "runes ((c # takeWhile continuation s) @ ?rest) = runes (c # takeWhile continuation s) @ runes ?rest"
      by (rule runes_append [OF rune_start_take [OF rune_start_drop]])
    moreover have "runes (c # takeWhile continuation s) = [c # takeWhile continuation s]"
    proof -
      have "takeWhile continuation (takeWhile continuation s) = takeWhile continuation s"
        "dropWhile continuation (takeWhile continuation s) = []"
        by (simp_all add: takeWhile_eq_all_conv dropWhile_eq_Nil_conv) (auto dest: set_takeWhileD)
      then show ?thesis by simp
    qed
    ultimately show ?thesis using 2 [of m] Suc by simp
  qed simp
qed simp

lemma truncated_prediction:
  assumes "truncateZedEditPrediction s n = (limited, b)"
  shows "prefix limited s \<and> int (length (runes limited)) \<le> max 0 n \<and> (\<not> b \<longrightarrow> limited = s)"
proof (cases "n \<le> 0 \<or> int (length (runes s)) \<le> n")
  case True
  with assms show ?thesis by (auto simp: truncateZedEditPrediction_def split: if_splits)
next
  case False
  then have "limited = concat (take (nat n) (runes s))" "b" using assms by (auto simp: truncateZedEditPrediction_def)
  moreover have "prefix (concat (take (nat n) (runes s))) (concat (take (nat n) (runes s)) @ concat (drop (nat n) (runes s)))" by simp
  moreover have "concat (take (nat n) (runes s)) @ concat (drop (nat n) (runes s)) = s"
    by (simp flip: concat_append)
  ultimately show ?thesis using False by (simp add: runes_take of_nat_min)
qed

lemma complete_mono: "prefix u s \<Longrightarrow> complete stops u \<Longrightarrow> complete stops s"
  unfolding complete_iff using stop_at_mono by blast

lemma cut_content_prefix:
  assumes "truncateAtStopSequence s stops = (c, b)"
  shows "prefix c s \<and> \<not> complete stops c \<and> (\<not> b \<longrightarrow> c = s)"
proof (cases rule: truncate_cases [of s stops])
  case whole
  with assms show ?thesis by (auto simp: complete_iff)
next
  case (cut i)
  have "\<not> stop_at stops (take i s) j" for j
  proof
    assume j: "stop_at stops (take i s) j"
    then have "stop_at stops s j" by (rule stop_at_mono [OF take_is_prefix])
    moreover have "j < i" using stop_at_less [OF j] by simp
    ultimately show False using cut(3) by blast
  qed
  with cut assms show ?thesis by (auto simp: complete_iff take_is_prefix)
qed

definition fair_prediction :: "zedEditPredictionConversion \<Rightarrow> chatCompletionState \<Rightarrow> string \<times> string \<Rightarrow> bool" where
  "fair_prediction c st answer \<longleftrightarrow>
     prefix (fst answer) (cs_content st) \<and> int (length (runes (fst answer))) \<le> zc_maxTokens c \<and>
     \<not> complete (zc_stopSequences c) (fst answer) \<and>
     (fst answer \<noteq> cs_content st \<longrightarrow> snd answer = ''stop'' \<or> snd answer = ''length'')"

lemma prediction_text_fair:
  assumes "0 < zc_maxTokens c"
  shows "fair_prediction c st (prediction_text c st)"
proof -
  obtain s1 b1 where s1: "truncateAtStopSequence (cs_content st) (zc_stopSequences c) = (s1, b1)" by fastforce
  obtain s2 b2 where s2: "truncateZedEditPrediction s1 (zc_maxTokens c) = (s2, b2)" by fastforce
  note c1 = cut_content_prefix [OF s1] and c2 = truncated_prediction [OF s2]
  have out: "prediction_text c st = (s2, if b2 then ''length'' else if b1 then ''stop'' else finalFinishReason st)"
    using s1 s2 c1 c2 by (auto simp: prediction_text_def split: bool.splits)
  have "prefix s2 (cs_content st)" using c1 c2 prefix_order.trans by blast
  moreover have "\<not> complete (zc_stopSequences c) s2" using c1 c2 complete_mono by blast
  ultimately show ?thesis using c1 c2 assms by (auto simp: fair_prediction_def out)
qed

lemma max_tokens_bounds: "zedEditPredictionMaxTokens v = Inr n \<Longrightarrow> 1 \<le> n \<and> n \<le> 4096"
  by (auto simp: zedEditPredictionMaxTokens_def defaultZedEditPredictionLimit_def maxZedEditPredictionLimit_def
      split: option.splits json.splits if_splits)

definition predicts_from :: "json_map \<Rightarrow> zedEditPredictionConversion \<Rightarrow> bool" where
  "predicts_from raw c \<longleftrightarrow>
     (\<exists>p s. map_of raw ''prompt'' = Some (JStr (qwenFIMPrefixMarker @ p @ qwenFIMSuffixMarker @ s @ qwenFIMMiddleMarker)) \<and>
        zc_responses c = prediction_request (um_Model (zc_metadata c)) p s)"

lemma converted:
  assumes "convert_prediction raw = Inr c"
  shows "predicts_from raw c" "1 \<le> zc_maxTokens c" "zc_maxTokens c \<le> 4096"
proof -
  from assms obtain prompt p s maxTokens stops where
    prompt: "required_string raw ''prompt'' = Inr prompt" "parseQwenFIMPrompt prompt = Inr (p, s)" and
    opts: "prediction_options raw = Inr (maxTokens, stops)" and
    c: "zc_responses c = prediction_request (um_Model (zc_metadata c)) p s" "zc_maxTokens c = maxTokens"
    unfolding convert_prediction_def by (auto split: sum.splits option.splits prod.splits)
  have "map_of raw ''prompt'' = Some (JStr prompt)"
    using prompt(1) by (auto simp: required_string_def member_def split: option.splits json.splits)
  with prompt(2) c(1) show "predicts_from raw c" by (auto simp: predicts_from_def fim_prompt_parsed)
  have "zedEditPredictionMaxTokens (map_of raw ''max_tokens'') = Inr maxTokens"
    using opts by (auto simp: prediction_options_def split: sum.splits if_splits)
  from max_tokens_bounds [OF this] c(2) show "1 \<le> zc_maxTokens c" "zc_maxTokens c \<le> 4096" by simp_all
qed


section \<open>A concrete prediction\<close>

definition demo_body :: string where
  "demo_body = qwenFIMPrefixMarker @ ''a'' @ qwenFIMSuffixMarker @ ''b'' @ qwenFIMMiddleMarker"

definition prediction_lib :: chat_lib where
  "prediction_lib = demo_lib\<lparr>
     decode_first := map_of ((''fin'', demo_completed [demo_message ''Hi'']) # demo_payloads),
     decode_single := map_of ((''fin'', demo_completed [demo_message ''Hi'']) #
       (''ask'', [(''model'', JStr ''m''), (''prompt'', JStr demo_body), (''max_tokens'', JNumber ''1'')]) # demo_payloads)\<rparr>"

definition demo_prediction :: http_request where
  "demo_prediction =
     \<lparr>h_Method = ''POST'', h_Path = zedEditPredictionsPath, h_RemoteAddr = [],
      h_Header = [(''Content-Type'', [''application/json''])], h_Query = [],
      h_Body = \<lparr>rq_Body = Some (bytes_reader ''ask''), rq_ContentLength = 3, rq_GetBody = None\<rparr>\<rparr>"

definition demo_reply :: "chat_reply \<times> chat_report option" where
  "demo_reply =
     handleZedEditPredictions (Chat_Answers.demo_env\<lparr>env_chat := prediction_lib\<rparr>) ''cmpl_1'' 7
       (decodeZedEditPredictionRequest prediction_lib (\<lambda>s. s = []) demo_prediction)
       (ExecReplay 200 (demo_events [''delta'', ''fin'']))"

lemma demo_asked:
  "(case decodeZedEditPredictionRequest prediction_lib (\<lambda>s. s = []) demo_prediction of
      Inl e \<Rightarrow> ([], 0, [[]]) | Inr c \<Rightarrow> (um_Model (zc_metadata c), zc_maxTokens c, zc_stopSequences c)) = (''m'', 1, [])"
  by code_simp

lemma demo_events_run:
  "(case prediction_events prediction_lib (demo_events [''delta'', ''fin'']) SseEof (newChatCompletionState 7 ''m'') of
      (e, st) \<Rightarrow> (e = None, cs_content st, cs_terminal st, cs_toolCalls st)) = (True, ''Hi'', True, [])"
  by code_simp

lemma demo_cut:
  "truncateAtStopSequence ''Hi'' [] = (''Hi'', False)" "truncateZedEditPrediction ''Hi'' 1 = (''H'', True)"
  by code_simp+


end
