(* ===== verification/Management.thy ===== *)
theory Management
  imports Edit_Predictions Account_Disable Usage_Store
begin

text \<open>
  The management interface (\<open>auth_management.go\<close> and the management part of \<open>server.go\<close>): the status
  page of the credentials, the actions on a credential, the clearing of session bindings, users and usage,
  and the interface a user has to the own key. The handlers are functions on the state of \<open>Proxy_Server\<close>;
  a reply is the value that is encoded, with its status.
\<close>

section \<open>Connections that are open\<close>

text \<open>
  \<open>Begin\<close> returns a function that ends the connection once; here it is the number of an entry of
  \<open>ac_handles\<close>, which says whether the function has been called.
\<close>

record activeAuthConnections =
  ac_counts :: "(string \<times> int) list"
  ac_handles :: "(string \<times> bool) list"

definition newActiveAuthConnections :: activeAuthConnections where
  "newActiveAuthConnections = \<lparr>ac_counts = [], ac_handles = []\<rparr>"

definition counted :: "activeAuthConnections \<Rightarrow> string \<Rightarrow> int" where
  "counted r authID = (case map_of (ac_counts r) authID of Some n \<Rightarrow> n | None \<Rightarrow> 0)"

definition Begin :: "string \<Rightarrow> activeAuthConnections \<Rightarrow> nat option \<times> activeAuthConnections" where
  "Begin authID0 r =
     (let authID = trim_space authID0 in
      if authID = [] then (None, r)
      else (Some (length (ac_handles r)),
            r\<lparr>ac_counts := AList.update authID (wrap64 (counted r authID + 1)) (ac_counts r),
              ac_handles := ac_handles r @ [(authID, False)]\<rparr>))"

definition end_connection :: "nat option \<Rightarrow> activeAuthConnections \<Rightarrow> activeAuthConnections" where
  "end_connection handle r =
     (case handle of
        None \<Rightarrow> r
      | Some i \<Rightarrow>
          (case ac_handles r ! i of (authID, ended) \<Rightarrow>
             if ended then r
             else r\<lparr>ac_counts := (if counted r authID \<le> 1 then AList.delete authID (ac_counts r)
                                  else AList.update authID (wrap64 (counted r authID - 1)) (ac_counts r)),
                    ac_handles := (ac_handles r)[i := (authID, True)]\<rparr>))"

definition Count :: "activeAuthConnections \<Rightarrow> string \<Rightarrow> int" where
  "Count r authID = counted r (trim_space authID)"

section \<open>Request bodies\<close>

text \<open>
  \<open>decode_value bytes ended\<close> is the first value a JSON decoder reads, its members in their order and with
  repetitions; \<open>ended\<close> says whether the body ends there without an error. What is left of the body is not
  looked at.
\<close>

record management_env =
  me_lib :: go_lib
  me_tokens :: token_lib
  decode_value :: "string \<Rightarrow> bool \<Rightarrow> json option"
  me_marshal :: "json_map \<Rightarrow> string"
  me_embedded :: "json_map list"
  me_clientVersion :: string
  me_connections :: activeAuthConnections
  me_saves :: "bool list"
  me_keyToken :: "string option"
  me_userToken :: "string option"
  me_idToken :: "string option"

definition decodeJSONRequest :: "management_env \<Rightarrow> http_request \<Rightarrow> json_map option" where
  "decodeJSONRequest env r =
     (case rq_Body (h_Body r) of
        None \<Rightarrow> None
      | Some body \<Rightarrow>
          (case decode_value env (b_bytes body) (b_end body = None) of
             Some (JObj m) \<Rightarrow> Some m
           | Some JNull \<Rightarrow> Some []
           | _ \<Rightarrow> None))"

text \<open>
  How \<open>encoding/json\<close> fills a field: keys are compared as \<open>EqualFold\<close> does, a later member replaces an
  earlier one, and \<open>null\<close> leaves a value alone and clears a pointer.
\<close>

fun string_field :: "string \<Rightarrow> json_map \<Rightarrow> string \<Rightarrow> string option" where
  "string_field name [] current = Some current"
| "string_field name ((k, v) # m) current =
     (if fold_ascii_view k = name
      then (case v of JStr s \<Rightarrow> string_field name m s | JNull \<Rightarrow> string_field name m current | _ \<Rightarrow> None)
      else string_field name m current)"

fun pointer_field :: "(json \<Rightarrow> 'a option) \<Rightarrow> string \<Rightarrow> json_map \<Rightarrow> 'a option \<Rightarrow> 'a option option" where
  "pointer_field decode name [] current = Some current"
| "pointer_field decode name ((k, v) # m) current =
     (if fold_ascii_view k = name
      then (if v = JNull then pointer_field decode name m None
            else (case decode v of Some x \<Rightarrow> pointer_field decode name m (Some x) | None \<Rightarrow> None))
      else pointer_field decode name m current)"

definition json_string :: "json \<Rightarrow> string option" where
  "json_string v = (case v of JStr s \<Rightarrow> Some s | _ \<Rightarrow> None)"

definition json_bool :: "json \<Rightarrow> bool option" where
  "json_bool v = (case v of JBool b \<Rightarrow> Some b | _ \<Rightarrow> None)"

text \<open>A field of type \<open>optionalString\<close>: whether it was there, and its value.\<close>

record optionalString =
  os_Value :: string
  os_Present :: bool

fun optional_field :: "string \<Rightarrow> json_map \<Rightarrow> optionalString \<Rightarrow> optionalString option" where
  "optional_field name [] current = Some current"
| "optional_field name ((k, v) # m) current =
     (if fold_ascii_view k = name
      then (case v of
              JStr s \<Rightarrow> optional_field name m \<lparr>os_Value = s, os_Present = True\<rparr>
            | JNull \<Rightarrow> optional_field name m (current\<lparr>os_Present := True\<rparr>)
            | _ \<Rightarrow> None)
      else optional_field name m current)"

definition decode_authManagementRequest :: "management_env \<Rightarrow> http_request \<Rightarrow> string option" where
  "decode_authManagementRequest env r =
     Option.bind (decodeJSONRequest env r) (\<lambda>m. string_field ''account_id'' m [])"

record clearSessionBindingsRequest =
  cb_UserID :: string
  cb_SessionKey :: optionalString
  cb_AccountID :: string

definition decode_clearSessionBindingsRequest :: "management_env \<Rightarrow> http_request \<Rightarrow> clearSessionBindingsRequest option" where
  "decode_clearSessionBindingsRequest env r =
     Option.bind (decodeJSONRequest env r) (\<lambda>m.
       (case (string_field ''user_id'' m [], optional_field ''session_key'' m \<lparr>os_Value = [], os_Present = False\<rparr>,
              string_field ''account_id'' m []) of
          (Some user, Some session, Some account) \<Rightarrow>
            Some \<lparr>cb_UserID = user, cb_SessionKey = session, cb_AccountID = account\<rparr>
        | _ \<Rightarrow> None))"

definition decode_createUserRequest :: "management_env \<Rightarrow> http_request \<Rightarrow> (string \<times> bool option) option" where
  "decode_createUserRequest env r =
     Option.bind (decodeJSONRequest env r) (\<lambda>m.
       (case (string_field ''name'' m [], pointer_field json_bool ''enabled'' m None) of
          (Some name, Some enabled) \<Rightarrow> Some (name, enabled) | _ \<Rightarrow> None))"

definition decode_updateUserRequest :: "management_env \<Rightarrow> http_request \<Rightarrow> (string option \<times> bool option) option" where
  "decode_updateUserRequest env r =
     Option.bind (decodeJSONRequest env r) (\<lambda>m.
       (case (pointer_field json_string ''name'' m None, pointer_field json_bool ''enabled'' m None) of
          (Some name, Some enabled) \<Rightarrow> Some (name, enabled) | _ \<Rightarrow> None))"

section \<open>Errors\<close>

datatype management_error =
    ManagementError go_err
  | AuthNotFound
  | UnidentifiedAuth
  | AuthFilesInvalid
  | OtherError

definition writeAuthManagementError :: "management_error \<Rightarrow> int \<times> string" where
  "writeAuthManagementError err =
     (case err of
        ManagementError e \<Rightarrow>
          if err_is e ErrStorageFailure then writeStoreError e
          else if err_is e ErrInvalidInput then (400, ''invalid request'')
          else (500, ''internal server error'')
      | AuthNotFound \<Rightarrow> (404, ''auth not found'')
      | UnidentifiedAuth \<Rightarrow> (409, ''unidentified auth is read-only'')
      | AuthFilesInvalid \<Rightarrow> (409, ''auth files failed local validation'')
      | OtherError \<Rightarrow> (500, ''internal server error''))"

definition disable_management_error :: "disable_error \<Rightarrow> management_error" where
  "disable_management_error e =
     (case e of
        DisableInvalidInput \<Rightarrow> ManagementError ErrInvalidInput
      | DisableScanFailed e' \<Rightarrow> ManagementError e'
      | DisableUnidentified \<Rightarrow> UnidentifiedAuth
      | DisableNotFound \<Rightarrow> AuthNotFound
      | DisableFilesInvalid \<Rightarrow> AuthFilesInvalid
      | DisableSaveFailed rs \<Rightarrow> OtherError)"

section \<open>The status of the credentials\<close>

record authManagementStatus =
  ms_AccountID :: string
  ms_IdentityState :: string
  ms_Manageable :: bool
  ms_Email :: string
  ms_SourceFileCount :: int
  ms_Enabled :: bool
  ms_RuntimeState :: string
  ms_RuntimeReason :: string
  ms_TokenExpiresAt :: "time option"
  ms_LastRefreshAt :: "time option"
  ms_CooldownUntil :: "time option"
  ms_CooldownReason :: string
  ms_ModelCapabilityKnown :: bool
  ms_KnownSupportedModels :: "string list"
  ms_ModelExclusions :: "authModelHealthState list"
  ms_SessionBindingCount :: int
  ms_ActiveConnectionCount :: int
  ms_LastError :: "(string \<times> int) option"

definition managementTimePointer :: "time \<Rightarrow> time option" where
  "managementTimePointer t = (if is_zero_time t then None else Some t)"

definition authManagementRuntimeState :: "Auth \<Rightarrow> AuthHealthState option \<Rightarrow> time \<Rightarrow> string \<times> string" where
  "authManagementRuntimeState a state now =
     (if Disabled a then (''unavailable'', ''disabled'')
      else (case state of
              None \<Rightarrow> (''active'', [])
            | Some st \<Rightarrow>
                if Kind st = AuthHealthQuota \<or> Kind st = AuthHealthTransient
                then (if RetryAt st > now then (''cooling'', Reason st) else (''active'', []))
                else if Kind st = AuthHealthInvalidGrant \<or> Kind st = AuthHealthUnauthorized \<or>
                        Kind st = AuthHealthCredentialInvalid
                then (''unavailable'', Reason st)
                else (''active'', [])))"

definition maskEmail :: "string \<Rightarrow> string" where
  "maskEmail email0 =
     (let email = trim_space email0;
          local = takeWhile (\<lambda>c. c \<noteq> CHR ''@'') email;
          domain = drop (Suc (length local)) email
      in if CHR ''@'' \<notin> set email \<or> local = [] \<or> domain = [] then []
         else hd (runes local) @ ''***'' @ ''@'' @ domain)"

definition maxManagementAccountIDBytes :: nat where "maxManagementAccountIDBytes = 512"

definition normalizeManagementAccountID :: "string \<Rightarrow> string option" where
  "normalizeManagementAccountID accountID0 =
     (let accountID = trim_space accountID0 in
      if accountID = [] \<or> length accountID > maxManagementAccountIDBytes then None
      else (case runes_of accountID of
              None \<Rightarrow> None
            | Some rs \<Rightarrow> if list_ex is_control rs then None else Some accountID))"

definition health_part :: "AuthHealthState option \<Rightarrow> time \<Rightarrow> authManagementStatus \<Rightarrow> authManagementStatus" where
  "health_part state now m =
     (case state of
        None \<Rightarrow> m
      | Some st \<Rightarrow>
          (if RetryAt st > now then m\<lparr>ms_CooldownUntil := managementTimePointer (RetryAt st), ms_CooldownReason := Reason st\<rparr> else m)
            \<lparr>ms_LastError := Some (ErrorCode st, StatusCode st)\<rparr>)"

definition auth_status ::
  "management_env \<Rightarrow> server \<Rightarrow> (string \<times> int) list \<Rightarrow> string list option \<Rightarrow> Auth \<Rightarrow> authManagementStatus" where
  "auth_status env s binding_counts known a =
     (case Snapshot (registry s) (auth_ID a) of (state, excluded) \<Rightarrow>
        case authManagementRuntimeState a state (now_of s) of (runtimeState, runtimeReason) \<Rightarrow>
          health_part state (now_of s)
            \<lparr>ms_AccountID = (if Identified a then AccountID a else []),
             ms_IdentityState = (if Identified a then ''identified'' else ''unidentified''),
             ms_Manageable = Identified a, ms_Email = maskEmail (Email a), ms_SourceFileCount = SourceCount a,
             ms_Enabled = (\<not> Disabled a), ms_RuntimeState = runtimeState, ms_RuntimeReason = runtimeReason,
             ms_TokenExpiresAt = managementTimePointer (ExpiresAt a),
             ms_LastRefreshAt = managementTimePointer (LastRefreshAt (me_lib env) a),
             ms_CooldownUntil = None, ms_CooldownReason = [],
             ms_ModelCapabilityKnown = (known \<noteq> None),
             ms_KnownSupportedModels = (case known of Some ms \<Rightarrow> ms | None \<Rightarrow> []),
             ms_ModelExclusions = excluded,
             ms_SessionBindingCount = (case map_of binding_counts (auth_ID a) of Some n \<Rightarrow> n | None \<Rightarrow> 0),
             ms_ActiveConnectionCount = Count (me_connections env) (auth_ID a), ms_LastError = None\<rparr>)"

text \<open>The loop over the credentials; asking the catalogue moves the version to the front of its list.\<close>

fun auth_statuses ::
  "management_env \<Rightarrow> (string \<times> int) list \<Rightarrow> Auth list \<Rightarrow> Auth list \<Rightarrow> server \<Rightarrow> authManagementStatus list \<times> server" where
  "auth_statuses env binding_counts auths [] s = ([], s)"
| "auth_statuses env binding_counts auths (a # as) s =
     (case KnownModelsForAuth (me_marshal env) (me_embedded env) (me_clientVersion env) auths (auth_ID a) (models s) of
        (known, catalog) \<Rightarrow>
          let s1 = s\<lparr>models := catalog\<rparr> in
          (case auth_statuses env binding_counts auths as s1 of
             (rest, s2) \<Rightarrow> (auth_status env s1 binding_counts known a # rest, s2)))"

definition managementAuthStatuses ::
  "management_env \<Rightarrow> server \<Rightarrow> (management_error + authManagementStatus list) \<times> server" where
  "managementAuthStatuses env s =
     (case on_store CheckHealth s of
        (Inl e, s1) \<Rightarrow> (Inl (ManagementError e), s1)
      | (Inr _, s1) \<Rightarrow>
          (case reconcileAuths (me_lib env) s1 of
             (Inl e, s2) \<Rightarrow> (Inl (ManagementError e), s2)
           | (Inr result, s2) \<Rightarrow>
               (case on_store (CountSessionAffinityBindingsByAuthIDs (stableAuthIDs (Auths result))) s2 of
                  (Inl e, s3) \<Rightarrow> (Inl (ManagementError e), s3)
                | (Inr binding_counts, s3) \<Rightarrow>
                    (case auth_statuses env binding_counts (Auths result) (Auths result) s3 of
                       (sts, s4) \<Rightarrow> (Inr sts, s4)))))"

definition managementAuthStatusByAccountID ::
  "management_env \<Rightarrow> string \<Rightarrow> server \<Rightarrow> (management_error + authManagementStatus) \<times> server" where
  "managementAuthStatusByAccountID env accountID s =
     (case managementAuthStatuses env s of
        (Inl e, s1) \<Rightarrow> (Inl e, s1)
      | (Inr sts, s1) \<Rightarrow>
          (case find (\<lambda>m. ms_AccountID m = accountID) sts of
             Some m \<Rightarrow> (Inr m, s1) | None \<Rightarrow> (Inl AuthNotFound, s1)))"

definition managementAuthByAccountID :: "go_lib \<Rightarrow> string \<Rightarrow> server \<Rightarrow> (management_error + Auth) \<times> server" where
  "managementAuthByAccountID lib accountID s =
     (case reconcileAuths lib s of
        (Inl e, s1) \<Rightarrow> (Inl (ManagementError e), s1)
      | (Inr result, s1) \<Rightarrow>
          (case authByManageableAccountID (Auths result) accountID of
             Some a \<Rightarrow> (Inr a, s1)
           | None \<Rightarrow>
               (Inl (if list_ex (\<lambda>a. \<not> Identified a \<and> auth_ID a = accountID) (Auths result)
                     then UnidentifiedAuth else AuthNotFound), s1)))"

section \<open>Replies\<close>

datatype management_reply =
    MgError int string
  | MgStatuses "authManagementStatus list"
  | MgStatus authManagementStatus
  | MgCleared bool authManagementStatus
  | MgDeleted int
  | MgTimeseries UsageTimeseries
  | MgUsage "ManagementUsageEntry list"
  | MgCreated int CreatedUserAPIKey
  | MgUsers "UserWithAPIKey list"
  | MgUser UserWithAPIKey
  | MgToday UserUsageToday

definition mg_error :: "int \<times> string \<Rightarrow> management_reply" where
  "mg_error e = MgError (fst e) (snd e)"

definition mg_invalid_body :: management_reply where
  "mg_invalid_body = MgError 400 ''invalid JSON request body''"

definition mg_not_found :: management_reply where
  "mg_not_found = MgError 404 ''not found''"

text \<open>A result of the store, and the status of one credential, as replies.\<close>

definition store_reply :: "('a \<Rightarrow> management_reply) \<Rightarrow> (go_err + 'a) \<times> server \<Rightarrow> management_reply \<times> server" where
  "store_reply f result =
     (case result of (Inl e, s) \<Rightarrow> (mg_error (writeStoreError e), s) | (Inr x, s) \<Rightarrow> (f x, s))"

definition status_reply ::
  "(authManagementStatus \<Rightarrow> management_reply) \<Rightarrow> management_env \<Rightarrow> string \<Rightarrow> server \<Rightarrow> management_reply \<times> server" where
  "status_reply f env accountID s =
     (case managementAuthStatusByAccountID env accountID s of
        (Inl e, s1) \<Rightarrow> (mg_error (writeAuthManagementError e), s1)
      | (Inr m, s1) \<Rightarrow> (f m, s1))"

definition handleManagementAuthStatus :: "management_env \<Rightarrow> server \<Rightarrow> management_reply \<times> server" where
  "handleManagementAuthStatus env s =
     (case managementAuthStatuses env s of
        (Inl e, s1) \<Rightarrow> (mg_error (writeAuthManagementError e), s1)
      | (Inr sts, s1) \<Rightarrow> (MgStatuses sts, s1))"

section \<open>Actions on a credential\<close>

text \<open>The credential a forced refresh is asked for: only the identifiers are filled in.\<close>

definition refresh_target :: "string \<Rightarrow> Auth" where
  "refresh_target accountID =
     \<lparr>auth_ID = stableAuthID accountID [], Path = [], Email = [], AccountID = accountID, AccessToken = [], RefreshToken = [],
      IDToken = [], ExpiresAt = 0, Metadata = [], Disabled = False, SourcePaths = [], codexCLI = False, relativePath = [],
      sourceIDs = []\<rparr>"

definition handleManagementAuthRefresh :: "management_env \<Rightarrow> string \<Rightarrow> proxy \<Rightarrow> management_reply \<times> proxy" where
  "handleManagementAuthRefresh env accountID p =
     (case ForceRefresh (me_lib env) (me_tokens env) (refresh_target accountID) p of
        ((Inl e, ctx_done), p1) \<Rightarrow>
          (case on_srv (managementAuthByAccountID (me_lib env) accountID) p1 of
             (Inl e', p2) \<Rightarrow> (mg_error (writeAuthManagementError e'), p2)
           | (Inr target, p2) \<Rightarrow>
               (case on_srv (on_health (markAuthFailure (me_lib env) target [] (preparationFailure (Some e) (now_of (srv p2))))) p2 of
                  (Some e', p3) \<Rightarrow> (mg_error (writeStoreError e'), p3)
                | (None, p3) \<Rightarrow> (MgError 502 ''Codex OAuth refresh failed'', p3)))
      | ((Inr renewed, ctx_done), p1) \<Rightarrow>
          (case on_srv (on_health (MarkCredentialHealthy renewed)) p1 of
             (Some e, p2) \<Rightarrow> (mg_error (writeStoreError e), p2)
           | (None, p2) \<Rightarrow>
               (case on_srv (reconcileAuths (me_lib env)) p2 of
                  (Inl e, p3) \<Rightarrow> (mg_error (writeAuthManagementError (ManagementError e)), p3)
                | (Inr _, p3) \<Rightarrow> on_srv (status_reply MgStatus env accountID) p3)))"

definition set_disabled_action :: "management_env \<Rightarrow> string \<Rightarrow> bool \<Rightarrow> server \<Rightarrow> management_reply \<times> server" where
  "set_disabled_action env accountID d s =
     (case SetAccountDisabled (me_lib env) (me_saves env) accountID d s of
        (Inl e, s1) \<Rightarrow> (mg_error (writeAuthManagementError (disable_management_error e)), s1)
      | (Inr _, s1) \<Rightarrow>
          (case reconcileAuths (me_lib env) s1 of
             (Inl e, s2) \<Rightarrow> (mg_error (writeAuthManagementError (ManagementError e)), s2)
           | (Inr _, s2) \<Rightarrow> status_reply MgStatus env accountID s2))"

definition clear_cooldown_action :: "management_env \<Rightarrow> string \<Rightarrow> Auth \<Rightarrow> server \<Rightarrow> management_reply \<times> server" where
  "clear_cooldown_action env accountID target s =
     (case ClearCooldown target (registry s, store s) of
        (Inl e, r, st) \<Rightarrow> (mg_error (writeAuthManagementError (ManagementError e)), s\<lparr>registry := r, store := st\<rparr>)
      | (Inr cleared, r, st) \<Rightarrow> status_reply (MgCleared cleared) env accountID (s\<lparr>registry := r, store := st\<rparr>))"

definition handleManagementAuthAction :: "management_env \<Rightarrow> http_request \<Rightarrow> string \<Rightarrow> proxy \<Rightarrow> management_reply \<times> proxy" where
  "handleManagementAuthAction env r action p =
     (if action \<notin> {''refresh'', ''enable'', ''disable'', ''cooldown/clear''} then (mg_not_found, p)
      else (case decode_authManagementRequest env r of
              None \<Rightarrow> (mg_invalid_body, p)
            | Some rawID \<Rightarrow>
                (case normalizeManagementAccountID rawID of
                   None \<Rightarrow> (MgError 400 ''invalid account_id'', p)
                 | Some accountID \<Rightarrow>
                     (case on_srv (on_store CheckHealth) p of
                        (Inl e, p1) \<Rightarrow> (mg_error (writeStoreError e), p1)
                      | (Inr _, p1) \<Rightarrow>
                          if action = ''refresh'' then handleManagementAuthRefresh env accountID p1
                          else (case on_srv (managementAuthByAccountID (me_lib env) accountID) p1 of
                                  (Inl e, p2) \<Rightarrow> (mg_error (writeAuthManagementError e), p2)
                                | (Inr target, p2) \<Rightarrow>
                                    if action = ''cooldown/clear''
                                    then on_srv (clear_cooldown_action env accountID target) p2
                                    else on_srv (set_disabled_action env accountID (action = ''disable'')) p2)))))"

section \<open>Clearing session bindings\<close>

definition deleted_reply :: "(go_err + int) \<times> server \<Rightarrow> management_reply \<times> server" where
  "deleted_reply result =
     (case result of
        (Inl e, s) \<Rightarrow> (mg_error (writeAuthManagementError (ManagementError e)), s)
      | (Inr n, s) \<Rightarrow> (MgDeleted n, s))"

definition clear_bindings :: "management_env \<Rightarrow> clearSessionBindingsRequest \<Rightarrow> server \<Rightarrow> management_reply \<times> server" where
  "clear_bindings env req s =
     (let user = trim_space (cb_UserID req); account = trim_space (cb_AccountID req); session = cb_SessionKey req in
      if os_Present session \<and> trim_space (os_Value session) = [] then (MgError 400 ''invalid session_key'', s)
      else if \<not> (user \<noteq> [] \<and> account = []) \<and> \<not> (user = [] \<and> \<not> os_Present session \<and> account \<noteq> [])
      then (MgError 400 ''exactly one binding clear scope is required'', s)
      else (case on_store CheckHealth s of
              (Inl e, s1) \<Rightarrow> (mg_error (writeStoreError e), s1)
            | (Inr _, s1) \<Rightarrow>
                if user \<noteq> [] then
                  (case on_store (GetUser user) s1 of
                     (Inl e, s2) \<Rightarrow> (mg_error (writeStoreError e), s2)
                   | (Inr _, s2) \<Rightarrow>
                       deleted_reply (on_store
                         (if os_Present session
                          then DeleteSessionAffinityByTenantSession (me_lib env) (''user:'' @ user) (os_Value session)
                          else DeleteSessionAffinityByTenantScope (me_lib env) (''user:'' @ user)) s2))
                else
                  (case normalizeManagementAccountID account of
                     None \<Rightarrow> (MgError 400 ''invalid account_id'', s1)
                   | Some accountID \<Rightarrow>
                       (case managementAuthByAccountID (me_lib env) accountID s1 of
                          (Inl e, s2) \<Rightarrow> (mg_error (writeAuthManagementError e), s2)
                        | (Inr target, s2) \<Rightarrow>
                            deleted_reply (on_store (DeleteSessionAffinityByAccountID (auth_ID target)) s2)))))"

definition handleManagementSessionBindingClear :: "management_env \<Rightarrow> http_request \<Rightarrow> server \<Rightarrow> management_reply \<times> server" where
  "handleManagementSessionBindingClear env r s =
     (case decode_clearSessionBindingsRequest env r of
        None \<Rightarrow> (mg_invalid_body, s)
      | Some req \<Rightarrow> clear_bindings env req s)"

section \<open>Users and usage\<close>

definition parse_bool :: "string \<Rightarrow> bool option" where
  "parse_bool s =
     (if s \<in> {''1'', ''t'', ''T'', ''TRUE'', ''true'', ''True''} then Some True
      else if s \<in> {''0'', ''f'', ''F'', ''FALSE'', ''false'', ''False''} then Some False
      else None)"

definition enabledFilter :: "http_request \<Rightarrow> bool option option" where
  "enabledFilter r =
     (let raw = trim_space (header_get (h_Query r) ''enabled'') in
      if raw = [] then Some None else map_option Some (parse_bool raw))"

definition query_value :: "http_request \<Rightarrow> string \<Rightarrow> string" where
  "query_value r k = trim_space (header_get (h_Query r) k)"

definition reset_key :: "management_env \<Rightarrow> string \<Rightarrow> server \<Rightarrow> management_reply \<times> server" where
  "reset_key env userID s =
     store_reply (MgCreated 200) (on_store (ResetUserAPIKey (me_lib env) (me_keyToken env) (me_idToken env) userID) s)"

definition handleManagementUser :: "management_env \<Rightarrow> http_request \<Rightarrow> string \<Rightarrow> server \<Rightarrow> management_reply \<times> server" where
  "handleManagementUser env r rest s =
     (if suffix ''/api-key/reset'' rest then
        let userID = trim_suffix rest ''/api-key/reset'' in
        if userID = [] \<or> CHR ''/'' \<in> set userID then (mg_not_found, s)
        else if h_Method r \<noteq> ''POST'' then (mg_not_found, s)
        else reset_key env userID s
      else if rest = [] \<or> CHR ''/'' \<in> set rest then (mg_not_found, s)
      else if h_Method r = ''GET'' then store_reply MgUser (on_store (GetUser rest) s)
      else if h_Method r = ''PATCH'' then
        (case decode_updateUserRequest env r of
           None \<Rightarrow> (mg_invalid_body, s)
         | Some (name, enabled) \<Rightarrow> store_reply MgUser (on_store (UpdateUser rest name enabled) s))
      else (mg_not_found, s))"

definition handleManagementPath :: "management_env \<Rightarrow> http_request \<Rightarrow> string \<Rightarrow> proxy \<Rightarrow> management_reply \<times> proxy" where
  "handleManagementPath env r path p =
     (if path = ''/auths'' \<and> h_Method r = ''GET'' then on_srv (handleManagementAuthStatus env) p
      else if prefix ''/auths/'' path \<and> h_Method r = ''POST''
      then handleManagementAuthAction env r (trim_prefix path ''/auths/'') p
      else if path = ''/session-bindings/clear'' \<and> h_Method r = ''POST''
      then on_srv (handleManagementSessionBindingClear env r) p
      else if path = ''/usage/timeseries'' \<and> h_Method r = ''GET'' then
        on_srv (\<lambda>s. store_reply MgTimeseries (on_store (GetUsageTimeseries (query_value r ''window'') (query_value r ''step'')
          (header_values (h_Query r) ''group_by'') (query_value r ''fill'') (query_value r ''user_id'')
          (query_value r ''api_key_id'') 0) s)) p
      else if path = ''/usage'' \<and> h_Method r = ''GET'' then
        on_srv (\<lambda>s. store_reply MgUsage (on_store (GetUsageSnapshot (query_value r ''user_id'') (query_value r ''api_key_id'')
          (now_of s)) s)) p
      else if path = ''/users'' \<and> h_Method r = ''POST'' then
        (case decode_createUserRequest env r of
           None \<Rightarrow> (mg_invalid_body, p)
         | Some (name, enabled) \<Rightarrow>
             on_srv (\<lambda>s. store_reply (MgCreated 201) (on_store (CreateUser (me_lib env) (me_keyToken env) (me_userToken env)
               (me_idToken env) name enabled) s)) p)
      else if path = ''/users'' \<and> h_Method r = ''GET'' then
        (case enabledFilter r of
           None \<Rightarrow> (MgError 400 ''invalid enabled filter'', p)
         | Some enabled \<Rightarrow> on_srv (\<lambda>s. store_reply MgUsers (on_store (ListUsers enabled) s)) p)
      else if prefix ''/users/'' path then on_srv (handleManagementUser env r (trim_prefix path ''/users/'')) p
      else (mg_not_found, p))"

definition handleUserAPI :: "management_env \<Rightarrow> http_request \<Rightarrow> UserRecord \<Rightarrow> APIKeyRecord \<Rightarrow> server \<Rightarrow> management_reply \<times> server" where
  "handleUserAPI env r user key s =
     (if h_Path r = ''/v0/user/api-key'' \<and> h_Method r = ''GET''
      then (MgUser \<lparr>uw_User = user, uw_APIKey = Some key\<rparr>, s)
      else if h_Path r = ''/v0/user/api-key/reset'' \<and> h_Method r = ''POST'' then reset_key env (u_ID user) s
      else if h_Path r = ''/v0/user/usage/today'' \<and> h_Method r = ''GET''
      then store_reply MgToday (on_store (GetTodayUsage (u_ID user) (k_ID key) (now_of s)) s)
      else (mg_not_found, s))"

end
