(* ===== verification/Management_Properties.thy ===== *)
theory Management_Properties
  imports Management Server_Properties Health_Properties
begin

text \<open>
  What the management interface promises: the status page tells of every credential what the selection
  of a request will find, open connections are counted, a clearing of bindings stays within its scope, and
  a refresh is only reported as done when it was.
\<close>

section \<open>Open connections\<close>

datatype connection_op = OpBegin string | OpEnd "nat option"

fun connection_step :: "connection_op \<Rightarrow> activeAuthConnections \<Rightarrow> activeAuthConnections" where
  "connection_step (OpBegin authID) r = snd (Begin authID r)"
| "connection_step (OpEnd handle) r =
     (if (\<exists>i. handle = Some i \<and> length (ac_handles r) \<le> i) then r else end_connection handle r)"

definition open_handles :: "activeAuthConnections \<Rightarrow> string \<Rightarrow> (string \<times> bool) list" where
  "open_handles r authID = filter (\<lambda>h. h = (authID, False)) (ac_handles r)"

definition connections_ok :: "activeAuthConnections \<Rightarrow> bool" where
  "connections_ok r \<longleftrightarrow> (\<forall>authID. counted r authID = int (length (open_handles r authID)))"

lemma open_bound: "length (open_handles r authID) \<le> length (ac_handles r)"
  by (simp add: open_handles_def)

lemma filter_update:
  assumes "i < length xs" "P (xs ! i)" "\<not> P y"
  shows "length (filter P xs) = Suc (length (filter P (xs[i := y])))"
proof -
  have "filter P xs = filter P (take i xs) @ xs ! i # filter P (drop (Suc i) xs)"
    using id_take_nth_drop [OF assms(1)] assms(2) by (metis filter.simps(2) filter_append)
  moreover have "filter P (xs[i := y]) = filter P (take i xs) @ filter P (drop (Suc i) xs)"
    using assms by (simp add: upd_conv_take_nth_drop)
  ultimately show ?thesis by simp
qed

lemma filter_update_same:
  assumes "i < length xs" "\<not> P (xs ! i)" "\<not> P y"
  shows "filter P (xs[i := y]) = filter P xs"
proof -
  have "filter P xs = filter P (take i xs) @ filter P (drop (Suc i) xs)"
    using id_take_nth_drop [OF assms(1)] assms(2) by (metis filter.simps(2) filter_append)
  then show ?thesis using assms by (simp add: upd_conv_take_nth_drop)
qed

lemma connection_step_ok:
  assumes "connections_ok r" "length (ac_handles r) < 2 ^ 63 - 1"
  shows "connections_ok (connection_step c r)"
proof (cases c)
  case (OpBegin authID0)
  let ?a = "trim_space authID0"
  have n: "counted r ?a = int (length (open_handles r ?a))" using assms(1) by (simp add: connections_ok_def)
  have "wrap64 (counted r ?a + 1) = counted r ?a + 1"
    by (rule wrap64_id) (use n assms(2) open_bound [of r ?a] in \<open>simp_all add: go_time\<close>)
  with assms(1) n show ?thesis
    by (simp add: OpBegin Begin_def Let_def connections_ok_def open_handles_def counted_def update_conv)
next
  case (OpEnd handle)
  show ?thesis
  proof (cases "\<exists>i. handle = Some i \<and> i < length (ac_handles r) \<and> \<not> snd (ac_handles r ! i)")
    case False
    then show ?thesis using assms(1) by (auto simp: OpEnd end_connection_def split: option.split prod.split)
  next
    case True
    then obtain i authID where i: "handle = Some i" "i < length (ac_handles r)" "ac_handles r ! i = (authID, False)"
      by (metis eq_snd_iff)
    let ?r = "end_connection handle r"
    have handles: "ac_handles ?r = (ac_handles r)[i := (authID, True)]" using i by (simp add: end_connection_def)
    have n: "counted r a = int (length (open_handles r a))" for a using assms(1) by (simp add: connections_ok_def)
    have this_one: "length (open_handles r authID) = Suc (length (open_handles ?r authID))"
      unfolding open_handles_def handles by (rule filter_update) (use i in simp_all)
    have others: "open_handles ?r a = open_handles r a" if "a \<noteq> authID" for a
      unfolding open_handles_def handles by (rule filter_update_same) (use i that in simp_all)
    have w: "wrap64 (counted r authID - 1) = counted r authID - 1"
      by (rule wrap64_id) (use n [of authID] assms(2) open_bound [of r authID] in \<open>simp_all add: go_time\<close>)
    have "counted ?r a = int (length (open_handles ?r a))" for a
    proof (cases "a = authID")
      case True
      then show ?thesis using i this_one n [of authID] w
        by (auto simp: end_connection_def counted_def update_conv delete_conv)
    next
      case False
      then have "counted ?r a = counted r a" using i by (auto simp: end_connection_def counted_def update_conv delete_conv)
      with others [OF False] n show ?thesis by simp
    qed
    then show ?thesis using i(1,2) by (auto simp: OpEnd connections_ok_def)
  qed
qed

text \<open>
  Whatever connections begin and end, each of them any number of times, the count of a credential is the
  number of connections to it that have begun and not ended.
\<close>

lemma handles_bound: "length (ac_handles (fold connection_step ops r)) \<le> length (ac_handles r) + length ops"
proof (induction ops arbitrary: r)
  case (Cons c ops)
  have "length (ac_handles (connection_step c r)) \<le> Suc (length (ac_handles r))"
    by (cases c) (auto simp: Begin_def end_connection_def Let_def split: option.split prod.split)
  with Cons [of "connection_step c r"] show ?case by simp
qed simp

theorem connections_counted:
  assumes "length ops < 2 ^ 63 - 1"
  shows "connections_ok (fold connection_step ops newActiveAuthConnections)"
proof -
  have "connections_ok (fold connection_step ops r)"
    if "connections_ok r" "length (ac_handles r) + length ops < 2 ^ 63 - 1" for ops r
    using that
  proof (induction ops arbitrary: r)
    case (Cons c ops)
    have "connections_ok (connection_step c r)" by (rule connection_step_ok) (use Cons.prems in simp_all)
    moreover have "length (ac_handles (connection_step c r)) \<le> Suc (length (ac_handles r))"
      using handles_bound [of "[c]" r] by simp
    ultimately show ?case using Cons.IH [of "connection_step c r"] Cons.prems by simp
  qed simp
  moreover have "connections_ok newActiveAuthConnections"
    by (simp add: connections_ok_def newActiveAuthConnections_def counted_def open_handles_def)
  ultimately show ?thesis using assms by (simp add: newActiveAuthConnections_def)
qed

section \<open>The shape of health states\<close>

text \<open>
  A state in the registry either cools down until an instant, or holds until the credential changes. The
  operations of a running server keep this shape.
\<close>

definition shaped_state :: "AuthHealthState \<Rightarrow> bool" where
  "shaped_state st \<longleftrightarrow>
     (Kind st = AuthHealthQuota \<or> Kind st = AuthHealthTransient) \<and> RetryAt st \<noteq> 0 \<or>
     (Kind st = AuthHealthInvalidGrant \<or> Kind st = AuthHealthUnauthorized \<or> Kind st = AuthHealthCredentialInvalid) \<and>
       RetryAt st = 0"

definition shaped :: "authHealthRegistry \<Rightarrow> bool" where
  "shaped r \<longleftrightarrow> (\<forall>i st. map_of (states r) i = Some st \<longrightarrow> shaped_state st)"

lemma shaped_new [simp]: "shaped newAuthHealthRegistry"
  by (simp add: shaped_def newAuthHealthRegistry_def)

definition smaller :: "authHealthRegistry \<Rightarrow> authHealthRegistry \<Rightarrow> bool" where
  "smaller r' r \<longleftrightarrow> map_of (states r') \<subseteq>\<^sub>m map_of (states r)"

lemma smaller_refl [simp]: "smaller r r"
  by (simp add: smaller_def)

lemma smaller_trans: "smaller r1 r2 \<Longrightarrow> smaller r2 r3 \<Longrightarrow> smaller r1 r3"
  unfolding smaller_def by (rule map_le_trans)

lemma smaller_shaped: "smaller r' r \<Longrightarrow> shaped r \<Longrightarrow> shaped r'"
  unfolding smaller_def shaped_def map_le_def by (metis domI)

lemma smaller_cong: "states r' = states r \<Longrightarrow> smaller r' r"
  by (simp add: smaller_def)

lemma smaller_delete: "states r' = AList.delete i (states r) \<Longrightarrow> smaller r' r"
  by (auto simp: smaller_def map_le_def delete_conv)

lemma markHealthy_smaller: "markHealthyLocked a model (r, s) = (res, r', s') \<Longrightarrow> smaller r' r"
  unfolding markHealthyLocked_def
  by (auto simp: Let_def intro: smaller_cong smaller_delete [of _ "auth_ID a"] split: option.splits if_splits prod.splits)

lemma MarkCredentialHealthy_smaller: "MarkCredentialHealthy a (r, s) = (e, r', s') \<Longrightarrow> smaller r' r"
  by (auto simp: MarkCredentialHealthy_def bump_epoch_def delete_state_def intro: smaller_delete [of _ "auth_ID a"]
      split: if_splits option.splits prod.splits)

lemma ClearCooldown_smaller: "ClearCooldown a (r, s) = (e, r', s') \<Longrightarrow> smaller r' r"
  by (auto simp: ClearCooldown_def bump_epoch_def delete_state_def intro: smaller_delete [of _ "auth_ID a"]
      split: if_splits option.splits prod.splits)

lemma prune_smaller: "prune_states sts (r, s) = (e, r', s') \<Longrightarrow> smaller r' r"
proof (induction sts "(r, s)" arbitrary: r s rule: prune_states.induct)
  case (2 i st rest r s)
  have "smaller (delete_state i r) r" by (rule smaller_delete [of _ i]) (simp add: delete_state_def)
  with 2 show ?case by (auto split: if_splits prod.splits option.splits intro: smaller_trans)
qed simp

lemma states_stale [simp]: "states (drop_stale_exclusions i fp r) = states r"
  by (simp add: drop_stale_exclusions_def Let_def split: option.split)

lemma reconcile_change_smaller:
  assumes "reconcile_change lib byID c (r, s) = (e, r', s')"
  shows "smaller r' r"
proof -
  have "states r' = states r \<or> states r' = AList.delete (change_ID c) (states r)"
    using assms
    by (auto simp: reconcile_change_def Let_def delete_auth_def delete_state_def bump_epoch_def
        split: AuthChangeKind.splits option.splits prod.splits if_splits)
  then show ?thesis using smaller_cong smaller_delete by blast
qed

lemma Reconcile_smaller: "Reconcile lib result (r, s) = (e, r', s') \<Longrightarrow> smaller r' r"
proof -
  have "reconcile_changes lib byID cs (r, s) = (e, r', s') \<Longrightarrow> smaller r' r" for byID cs
  proof (induction cs arbitrary: r s)
    case Nil
    then show ?case using prune_smaller by (simp add: PruneExpired_def)
  next
    case (Cons c cs)
    obtain e1 r1 s1 where step: "reconcile_change lib byID c (r, s) = (e1, r1, s1)" by (metis surj_pair)
    with Cons show ?case using reconcile_change_smaller [OF step]
      by (cases e1) (auto intro: smaller_trans)
  qed
  then show "Reconcile lib result (r, s) = (e, r', s') \<Longrightarrow> smaller r' r" by (simp add: Reconcile_def)
qed

lemma MarkUnavailable_shaped:
  assumes "MarkUnavailable lib a st (r, s) = (e, r', s')" "shaped r" "shaped_state st"
  shows "shaped r'"
proof -
  have "shaped_state (incoming_state lib a st now)" for now
    using assms(3) by (simp add: shaped_state_def incoming_state_def Let_def)
  then show ?thesis
    using assms(1,2) unfolding MarkUnavailable_def
    by (auto simp: Let_def shaped_def update_conv split: if_splits prod.splits sum.splits option.splits)
qed

lemma markAuthFailure_shaped:
  assumes "markAuthFailure lib a model f (r, s) = (e, r', s')" "shaped r" "clock s + defaultTransientCooldown \<noteq> 0"
  shows "shaped r'"
proof -
  let ?retry = "if is_zero_time (f_RetryAt f) then clock s + defaultTransientCooldown else f_RetryAt f"
  have retry: "?retry \<noteq> 0" using assms(3) by simp
  have mark: "shaped r'" if "MarkUnavailable lib a st (r, s) = (e, r', s')" "shaped_state st" for st
    using MarkUnavailable_shaped [OF that(1) assms(2) that(2)] .
  have unsupported: "shaped r'" if "MarkModelUnsupported lib a model c ec (r, s) = (e, r', s')" for c ec
  proof -
    have "\<exists>res r1 s1. markHealthyLocked a [] (r, s) = (res, r1, s1) \<and> states r' = states r1 \<or> r' = r"
      using that unfolding MarkModelUnsupported_def
      by (auto simp: Let_def split: if_splits option.splits prod.splits sum.splits)
    then show ?thesis using markHealthy_smaller smaller_cong smaller_trans smaller_shaped assms(2) by metis
  qed
  show ?thesis
  proof (cases "f_Kind f")
    case upstreamFailureModelUnsupported
    with assms(1) unsupported show ?thesis by (simp add: markAuthFailure_def Let_def)
  next
    case upstreamFailureQuota
    show ?thesis by (rule mark [of "health_state AuthHealthQuota ''quota'' ?retry (f_Explicit f) (f_StatusCode f) (f_ErrorCode f)"])
        (use upstreamFailureQuota assms(1) retry in \<open>auto simp: markAuthFailure_def Let_def shaped_state_def health_state_def split: if_splits\<close>)
  next
    case upstreamFailureTransient
    show ?thesis by (rule mark [of "health_state AuthHealthTransient (f_Reason f) ?retry False (f_StatusCode f) (f_ErrorCode f)"])
        (use upstreamFailureTransient assms(1) retry in \<open>auto simp: markAuthFailure_def Let_def shaped_state_def health_state_def split: if_splits\<close>)
  next
    case upstreamFailureUnauthorized
    show ?thesis by (rule mark [of "health_state AuthHealthUnauthorized ''unauthorized'' 0 False 401
                  (firstNonEmptyString [f_ErrorCode f, ''unauthorized''])"])
        (use upstreamFailureUnauthorized assms(1) in \<open>simp_all add: markAuthFailure_def Let_def shaped_state_def health_state_def\<close>)
  next
    case upstreamFailureCredential
    show ?thesis by (rule mark [of "health_state
                  (if f_ErrorCode f = ''invalid_grant'' then AuthHealthInvalidGrant else AuthHealthCredentialInvalid)
                  (f_Reason f) 0 False (f_StatusCode f) (f_ErrorCode f)"])
        (use upstreamFailureCredential assms(1) in \<open>simp_all add: markAuthFailure_def Let_def shaped_state_def health_state_def\<close>)
  qed (use assms in \<open>simp_all add: markAuthFailure_def Let_def\<close>)
qed

section \<open>The status page\<close>

lemma kinds_differ: "AuthHealthQuota \<notin> {AuthHealthInvalidGrant, AuthHealthUnauthorized, AuthHealthCredentialInvalid}"
  "AuthHealthTransient \<notin> {AuthHealthInvalidGrant, AuthHealthUnauthorized, AuthHealthCredentialInvalid}"
  by (simp_all add: AuthHealthQuota_def AuthHealthTransient_def AuthHealthInvalidGrant_def AuthHealthUnauthorized_def
      AuthHealthCredentialInvalid_def)

lemma Blocked_any_model:
  "Blocked r now a [] = (case map_of (states r) (trim_space (auth_ID a)) of
     None \<Rightarrow> None | Some st \<Rightarrow> if RetryAt st \<noteq> 0 \<and> \<not> RetryAt st > now then None else Some st)"
proof -
  have "normalizeModelIdentifier [] = None" by (simp add: normalizeModelIdentifier_def trim_blanks_def)
  then show ?thesis by (simp add: Blocked_def State_def split: option.split)
qed

lemma runtime_active:
  assumes "shaped r"
  shows "fst (authManagementRuntimeState a (fst (Snapshot r (auth_ID a))) now) = ''active'' \<longleftrightarrow>
     \<not> Disabled a \<and> Blocked r now a [] = None"
proof (cases "map_of (states r) (trim_space (auth_ID a))")
  case None
  then show ?thesis by (simp add: authManagementRuntimeState_def Snapshot_def Blocked_any_model)
next
  case (Some st)
  then have shape: "shaped_state st" using assms by (simp add: shaped_def)
  have snap: "fst (Snapshot r (auth_ID a)) = Some st" using Some by (simp add: Snapshot_def)
  show ?thesis
  proof (cases "Kind st = AuthHealthQuota \<or> Kind st = AuthHealthTransient")
    case True
    then have "RetryAt st \<noteq> 0" using shape kinds_differ by (fastforce simp: shaped_state_def)
    with True show ?thesis by (simp add: authManagementRuntimeState_def snap Blocked_any_model Some)
  next
    case False
    then have "Kind st = AuthHealthInvalidGrant \<or> Kind st = AuthHealthUnauthorized \<or> Kind st = AuthHealthCredentialInvalid"
      "RetryAt st = 0" using shape by (auto simp: shaped_state_def)
    with False show ?thesis by (simp add: authManagementRuntimeState_def snap Blocked_any_model Some)
  qed
qed

lemma cooldown_blocks:
  assumes "ms_CooldownUntil (auth_status env s binding_counts known a) = Some t"
  shows "now_of s < t \<and> Blocked (registry s) (now_of s) a [] \<noteq> None"
  using assms
  by (auto simp: auth_status_def Let_def health_part_def Snapshot_def Blocked_any_model managementTimePointer_def
      split: prod.splits option.splits if_splits)

lemma auth_statuses_nth:
  assumes "auth_statuses env binding_counts auths as s = (sts, s')"
  shows "registry s' = registry s \<and> store s' = store s \<and> length sts = length as \<and>
    (\<forall>i<length as. \<exists>known s1. sts ! i = auth_status env s1 binding_counts known (as ! i) \<and>
       registry s1 = registry s \<and> store s1 = store s)"
  using assms
proof (induction as arbitrary: s sts)
  case (Cons a as)
  obtain known catalog where known: "KnownModelsForAuth (me_marshal env) (me_embedded env) (me_clientVersion env) auths (auth_ID a)
      (models s) = (known, catalog)" by fastforce
  let ?s = "s\<lparr>models := catalog\<rparr>"
  obtain rest s2 where rest: "auth_statuses env binding_counts auths as ?s = (rest, s2)" by fastforce
  have sts: "sts = auth_status env ?s binding_counts known a # rest" "s2 = s'"
    using Cons.prems known rest by (simp_all add: Let_def)
  have first: "\<exists>known' s1. auth_status env ?s binding_counts known a = auth_status env s1 binding_counts known' a \<and>
      registry s1 = registry s \<and> store s1 = store s"
    by (rule exI [of _ known], rule exI [of _ ?s]) simp
  from Cons.IH [OF rest [unfolded sts(2)]] first show ?case
    unfolding sts(1) by (auto simp: less_Suc_eq_0_disj)
qed simp

text \<open>The live bindings of a credential.\<close>

definition live_bindings :: "server \<Rightarrow> string \<Rightarrow> int" where
  "live_bindings s i =
     count_bindings (filter (\<lambda>r. ar_auth_id (snd r) = i \<and> ar_expires_at (snd r) > formatDBTime (now_of s)) (affinity (db (store s))))"

lemma binding_counts:
  assumes "on_store (CountSessionAffinityBindingsByAuthIDs ids) s = (Inr binding_counts, s')" "i \<in> set (normalizeStrings ids)"
  shows "(case map_of binding_counts i of Some n \<Rightarrow> n | None \<Rightarrow> 0) = live_bindings s' i"
proof -
  let ?ids = "normalizeStrings ids"
  let ?live = "\<lambda>s. filter (\<lambda>r. ar_auth_id (snd r) \<in> set ?ids \<and> ar_expires_at (snd r) > formatDBTime (now_of s)) (affinity (db (store s)))"
  from assms have same: "db (store s') = db (store s)" "clock (store s') = clock (store s)" and
    cs: "binding_counts = map (\<lambda>i. (i, count_bindings (filter (\<lambda>r. ar_auth_id (snd r) = i) (?live s'))))
           (remdups (map (\<lambda>r. ar_auth_id (snd r)) (?live s')))"
    by (auto simp: on_store_def CountSessionAffinityBindingsByAuthIDs_def ready_def sql_def store_error_def next_fault_def
        Let_def now_of_def split: prod.splits option.splits list.splits if_splits)
  have keyed: "map_of (map (\<lambda>i. (i, f i)) (remdups xs)) i = (if i \<in> set xs then Some (f i) else None)"
    for f :: "string \<Rightarrow> int" and xs by (auto simp: map_of_map_restrict restrict_map_def)
  have mine: "filter (\<lambda>r. ar_auth_id (snd r) = i) (?live s')
      = filter (\<lambda>r. ar_auth_id (snd r) = i \<and> ar_expires_at (snd r) > formatDBTime (now_of s')) (affinity (db (store s')))"
    using assms(2) by (auto intro: filter_cong)
  have "i \<notin> set (map (\<lambda>r. ar_auth_id (snd r)) (?live s')) \<Longrightarrow> filter (\<lambda>r. ar_auth_id (snd r) = i) (?live s') = []"
    by (auto simp: filter_empty_conv)
  then show ?thesis unfolding cs keyed live_bindings_def mine [symmetric] by (auto simp: count_bindings_def)
qed

definition status_true :: "management_env \<Rightarrow> server \<Rightarrow> AuthReconcileResult \<Rightarrow> Auth \<Rightarrow> authManagementStatus \<Rightarrow> bool" where
  "status_true env s result a m \<longleftrightarrow>
     (ms_RuntimeState m = ''active'' \<longleftrightarrow> a \<in> set (eligible_auths s [] [] None (Active result))) \<and>
     (\<forall>t. ms_CooldownUntil m = Some t \<longrightarrow> now_of s < t \<and> Blocked (registry s) (now_of s) a [] \<noteq> None) \<and>
     ms_Enabled m = (\<not> Disabled a) \<and> ms_Manageable m = Identified a \<and>
     ms_AccountID m = (if Identified a then AccountID a else []) \<and>
     (plain_id (auth_ID a) \<longrightarrow> ms_SessionBindingCount m = live_bindings s (auth_ID a)) \<and>
     ms_ActiveConnectionCount m = Count (me_connections env) (auth_ID a)"

lemma reconcileAuths_active:
  "reconcileAuths lib s = (Inr result, s') \<Longrightarrow> Active result = filter (\<lambda>a. \<not> Disabled a) (Auths result)"
  by (auto simp: reconcileAuths_def store_reconcile_def Let_def dest!: reconcile_active
      split: prod.splits sum.splits option.splits if_splits)

lemma auth_status_fields:
  "ms_RuntimeState (auth_status env s cs known a) = fst (authManagementRuntimeState a (fst (Snapshot (registry s) (auth_ID a))) (now_of s))"
  "ms_Enabled (auth_status env s cs known a) = (\<not> Disabled a)" "ms_Manageable (auth_status env s cs known a) = Identified a"
  "ms_AccountID (auth_status env s cs known a) = (if Identified a then AccountID a else [])"
  "ms_SessionBindingCount (auth_status env s cs known a) = (case map_of cs (auth_ID a) of Some n \<Rightarrow> n | None \<Rightarrow> 0)"
  "ms_ActiveConnectionCount (auth_status env s cs known a) = Count (me_connections env) (auth_ID a)"
  by (auto simp: auth_status_def health_part_def split: prod.split option.split)

lemma status_of_auth_true:
  assumes "shaped (registry s)" "a \<in> set (Auths result)" "Active result = filter (\<lambda>a. \<not> Disabled a) (Auths result)"
    "\<And>i. i \<in> set (normalizeStrings (stableAuthIDs (Auths result))) \<Longrightarrow>
        (case map_of cs i of Some n \<Rightarrow> n | None \<Rightarrow> 0) = live_bindings s i"
  shows "status_true env s result a (auth_status env s cs known a)"
proof -
  have el: "a \<in> set (eligible_auths s [] [] None (Active result)) \<longleftrightarrow> \<not> Disabled a \<and> Blocked (registry s) (now_of s) a [] = None"
    using assms(2,3) by (auto simp: eligible_auths_def)
  have cnt: "(case map_of cs (auth_ID a) of Some n \<Rightarrow> n | None \<Rightarrow> 0) = live_bindings s (auth_ID a)" if plain: "plain_id (auth_ID a)"
  proof (rule assms(4), subst plain_normalize [OF plain])
    have "trim_space (auth_ID a) = auth_ID a" using plain by simp
    then show "auth_ID a \<in> trim_space ` set (stableAuthIDs (Auths result))"
      using assms(2) unfolding stableAuthIDs_def by (metis image_eqI image_set)
  qed
  show ?thesis
    unfolding status_true_def auth_status_fields el runtime_active [OF assms(1)]
    using cnt cooldown_blocks [of env s cs known a] by blast
qed


definition demo_management :: management_env where
  "demo_management =
     \<lparr>me_lib = dir_lib, me_tokens = demo_token_lib, decode_value = (\<lambda>s b. None), me_marshal = (\<lambda>m. []), me_embedded = [],
      me_clientVersion = [], me_connections = newActiveAuthConnections, me_saves = [], me_keyToken = None,
      me_userToken = None, me_idToken = None\<rparr>"

lemma demo_statuses:
  "\<exists>s'. managementAuthStatuses demo_management (one_server dir_store) =
      (Inr [auth_status demo_management (one_server dir_store) [] None dir_auth], s') \<and> registry s' = newAuthHealthRegistry"
proof -
  have healthy: "healthy_store (store (one_server dir_store))"
    by (simp add: one_server_def demo_server_def healthy_store_def new_store_def)
  have rec: "reconcileAuths dir_lib (one_server dir_store) = (Inr demo_result, one_server dir_store)"
    by (rule one_reconcile) simp
  have empty: "affinity (db (store (one_server dir_store))) = []" "models (one_server dir_store) = newRuntimeModelCatalog"
    "registry (one_server dir_store) = newAuthHealthRegistry"
    by (simp_all add: one_server_def demo_server_def new_store_def empty_tables_def)
  have check: "on_store CheckHealth (one_server dir_store) = (Inr (), one_server dir_store)"
    using healthy by (simp add: on_store_def CheckHealth_def)
  have counts: "on_store (CountSessionAffinityBindingsByAuthIDs ids) (one_server dir_store) = (Inr [], one_server dir_store)" for ids
    using healthy empty(1) by (simp add: on_store_def CountSessionAffinityBindingsByAuthIDs_def Let_def)
  have known: "KnownModelsForAuth (\<lambda>m. []) [] [] auths i newRuntimeModelCatalog = (None, newRuntimeModelCatalog)" for auths i
    by (simp add: KnownModelsForAuth_def CachedCatalog_def embeddedModelCatalogView_def find_version_def
        newRuntimeModelCatalog_def normalizeClientVersion_def)
  have same: "(one_server dir_store)\<lparr>models := newRuntimeModelCatalog\<rparr> = one_server dir_store"
    by (simp add: one_server_def demo_server_def)
  show ?thesis
    by (simp add: managementAuthStatuses_def demo_management_def rec check counts demo_result_def empty known same Let_def)
qed


section \<open>Clearing bindings and refreshing\<close>

lemma sql_Inr: "sql base op s k = (Inr x, s') \<Longrightarrow> \<exists>s1. k s1 = (Inr x, s') \<and> db s1 = db s \<and> clock s1 = clock s"
  by (auto simp: sql_def next_fault_def store_error_def split: list.splits option.splits prod.splits)

lemma ready_Inr: "ready s k = (Inr x, s') \<Longrightarrow> k s = (Inr x, s')"
  by (simp add: ready_def split: option.splits)

lemma GetUser_db: "GetUser i s = (Inr u, s') \<Longrightarrow> db s' = db s"
  unfolding GetUser_def
  by (drule ready_Inr, drule sql_Inr) (auto simp: store_error_def split: option.splits prod.splits)

lemma CheckHealth_db: "CheckHealth s = (Inr u, s') \<Longrightarrow> db s' = db s"
  unfolding CheckHealth_def by (drule ready_Inr, drule sql_Inr) auto

lemma cleared_bindings:
  assumes "deleteSessionAffinityBindingsWithArgs cw dw s = (Inr n, s')"
  shows "affinity (db s') = filter (\<lambda>r. \<not> dw (db s) r) (affinity (db s)) \<and> n = count_bindings (filter cw (affinity (db s)))"
  using assms unfolding deleteSessionAffinityBindingsWithArgs_def Let_def
  by (auto dest!: ready_Inr sql_Inr simp: update_affinity_def)

text \<open>
  Clearing the bindings of a user, or of one of the user's sessions, touches no binding of another user or
  of an upstream token, and clearing all of them leaves none.
\<close>

lemma binding_clear_scoped:
  assumes "clear_bindings env req s = (MgDeleted n, s')" "trim_space (cb_UserID req) \<noteq> []"
  defines "d \<equiv> sessionAffinityTenantScopeDigest (me_lib env) (''user:'' @ trim_space (cb_UserID req))"
  shows "filter (\<lambda>r. ar_tenant_scope (snd r) \<noteq> d) (affinity (db (store s')))
      = filter (\<lambda>r. ar_tenant_scope (snd r) \<noteq> d) (affinity (db (store s)))"
    "\<not> os_Present (cb_SessionKey req) \<Longrightarrow> \<forall>r\<in>set (affinity (db (store s'))). ar_tenant_scope (snd r) \<noteq> d"
proof -
  let ?u = "''user:'' @ trim_space (cb_UserID req)"
  let ?del = "if os_Present (cb_SessionKey req)
      then DeleteSessionAffinityByTenantSession (me_lib env) ?u (os_Value (cb_SessionKey req))
      else DeleteSessionAffinityByTenantScope (me_lib env) ?u"
  obtain x s1 y s2 where steps: "on_store CheckHealth s = (Inr x, s1)" "on_store (GetUser (trim_space (cb_UserID req))) s1 = (Inr y, s2)"
    and del: "deleted_reply (on_store ?del s2) = (MgDeleted n, s')"
    using assms(1,2) by (auto simp: clear_bindings_def Let_def mg_error_def split: if_splits prod.splits sum.splits)
  have same: "db (store s2) = db (store s)"
    using steps CheckHealth_db GetUser_db by (auto simp: on_store_def split: prod.splits)
  have run: "?del (store s2) = (Inr n, store s')"
    using del by (auto simp: deleted_reply_def on_store_def mg_error_def split: prod.splits sum.splits)
  show "filter (\<lambda>r. ar_tenant_scope (snd r) \<noteq> d) (affinity (db (store s')))
      = filter (\<lambda>r. ar_tenant_scope (snd r) \<noteq> d) (affinity (db (store s)))"
  proof (cases "os_Present (cb_SessionKey req)")
    case True
    with run have "DeleteSessionAffinityByTenantSession (me_lib env) ?u (os_Value (cb_SessionKey req)) (store s2) = (Inr n, store s')"
      by simp
    then show ?thesis unfolding DeleteSessionAffinityByTenantSession_def Let_def d_def same [symmetric]
      by (auto dest!: cleared_bindings intro: filter_cong split: option.splits if_splits)
  next
    case False
    with run have "DeleteSessionAffinityByTenantScope (me_lib env) ?u (store s2) = (Inr n, store s')" by simp
    then show ?thesis unfolding DeleteSessionAffinityByTenantScope_def Let_def d_def same [symmetric]
      by (auto dest!: cleared_bindings split: if_splits)
  qed
  assume "\<not> os_Present (cb_SessionKey req)"
  with run have "DeleteSessionAffinityByTenantScope (me_lib env) ?u (store s2) = (Inr n, store s')" by simp
  then show "\<forall>r\<in>set (affinity (db (store s'))). ar_tenant_scope (snd r) \<noteq> d"
    unfolding DeleteSessionAffinityByTenantScope_def Let_def d_def
    by (auto dest!: cleared_bindings split: if_splits)
qed

text \<open>A refresh is only reported as done when the token endpoint gave new tokens.\<close>

lemma refresh_reported:
  assumes "handleManagementAuthRefresh env accountID p = (reply, p')" "\<forall>code msg. reply \<noteq> MgError code msg"
  shows "\<exists>renewed ctx_done p1. ForceRefresh (me_lib env) (me_tokens env) (refresh_target accountID) p = ((Inr renewed, ctx_done), p1)"
proof -
  obtain result ctx_done p1 where run: "ForceRefresh (me_lib env) (me_tokens env) (refresh_target accountID) p = ((result, ctx_done), p1)"
    by (metis surj_pair)
  show ?thesis
  proof (cases result)
    case (Inl e)
    with assms run show ?thesis
      by (auto simp: handleManagementAuthRefresh_def mg_error_def split: prod.splits sum.splits option.splits)
  next
    case (Inr a)
    with run show ?thesis by blast
  qed
qed

end
