(* ===== verification/Proxy_Handlers.thy ===== *)
theory Proxy_Handlers
  imports Management
begin

text \<open>
  What is left of the handlers: the start of the server and its configuration (\<open>config.go\<close>,
  \<open>NewHandler\<close>), how usage is recorded (\<open>usage_proxy.go\<close>), the answers of a proxied request and of a
  WebSocket handshake, the messages of a WebSocket, and the model list with the fetch behind it
  (\<open>server.go\<close>, \<open>models.go\<close>).
\<close>

section \<open>Configuration\<close>

definition DefaultAuthDir :: string where "DefaultAuthDir = ''~/.codex''"
definition DefaultPort :: int where "DefaultPort = 8317"
definition DefaultCodexBaseURL :: string where "DefaultCodexBaseURL = ''https://chatgpt.com/backend-api/codex''"
definition DefaultChatGPTBaseURL :: string where "DefaultChatGPTBaseURL = ''https://chatgpt.com/backend-api''"

record Config =
  cfg_Host :: string
  cfg_Port :: int
  cfg_AuthDir :: string
  cfg_DatabasePath :: string
  cfg_CodexBaseURL :: string
  cfg_ChatGPTBaseURL :: string
  cfg_RequestRetry :: int
  cfg_MaxRetryCredentials :: int
  cfg_MaxRetryInterval :: int
  cfg_requestRetrySet :: bool
  cfg_maxRetryIntervalSet :: bool

text \<open>A retry setting: its default when it was not given, and never negative.\<close>

definition retry_setting :: "bool \<Rightarrow> int \<Rightarrow> int \<Rightarrow> int" where
  "retry_setting given usual n0 = (let n = (if \<not> given \<and> n0 = 0 then usual else n0) in if n < 0 then 0 else n)"

definition default_text :: "string \<Rightarrow> string \<Rightarrow> string" where
  "default_text usual s = (if trim_space s = [] then usual else s)"

definition ApplyDefaults :: "Config \<Rightarrow> Config" where
  "ApplyDefaults c =
     c\<lparr>cfg_Port := (if cfg_Port c = 0 then DefaultPort else cfg_Port c),
       cfg_AuthDir := default_text DefaultAuthDir (cfg_AuthDir c),
       cfg_CodexBaseURL := default_text DefaultCodexBaseURL (cfg_CodexBaseURL c),
       cfg_ChatGPTBaseURL := default_text DefaultChatGPTBaseURL (cfg_ChatGPTBaseURL c),
       cfg_RequestRetry := retry_setting (cfg_requestRetrySet c) 3 (cfg_RequestRetry c),
       cfg_MaxRetryCredentials := retry_setting True 0 (cfg_MaxRetryCredentials c),
       cfg_MaxRetryInterval := retry_setting (cfg_maxRetryIntervalSet c) 30 (cfg_MaxRetryInterval c)\<rparr>"

text \<open>The home directory is the environment's; \<open>None\<close> when it has none.\<close>

definition join_path :: "string \<Rightarrow> string \<Rightarrow> string" where
  "join_path a b = (if a = [] then (if b = [] then [] else clean_path b) else if b = [] then clean_path a else clean_path (a @ ''/'' @ b))"

definition expandHome :: "string option \<Rightarrow> string \<Rightarrow> string option" where
  "expandHome home path0 =
     (let path = trim_space path0 in
      if path = ''~'' then home
      else if prefix ''~/'' path then map_option (\<lambda>h. join_path h (drop 2 path)) home
      else Some path)"

definition ResolveAuthDir :: "string option \<Rightarrow> string \<Rightarrow> string option" where
  "ResolveAuthDir home path0 =
     (let path = (if trim_space path0 = [] then DefaultAuthDir else trim_space path0) in
      if path = ''~'' then home
      else if prefix ''~/'' path then map_option (\<lambda>h. join_path h (drop 2 path)) home
      else Some path)"

definition ResolveDatabasePath :: "string option \<Rightarrow> string \<Rightarrow> string \<Rightarrow> string option" where
  "ResolveDatabasePath home path authDir =
     (if trim_space path \<noteq> [] then expandHome home path
      else map_option (\<lambda>d. join_path d ''codex-oauth-proxy.db'') (ResolveAuthDir home authDir))"

section \<open>The start of the server\<close>

text \<open>
  \<open>NewHandler\<close> from the first scan on: the directory is scanned, bindings of credentials that are gone
  are dropped, and the health states are restored. \<open>s\<close> has the directory, the clock and the opened
  database.
\<close>

definition start_server :: "go_lib \<Rightarrow> server \<Rightarrow> (go_err + AuthReconcileResult) \<times> server" where
  "start_server lib s =
     (case store_reconcile lib (s\<lparr>auth_files := NewFileAuthStore, next_turn := 0\<rparr>) of
        (Inl e, s1) \<Rightarrow> (Inl e, s1)
      | (Inr result, s1) \<Rightarrow>
          (case on_store (DeleteSessionAffinityExceptAuthIDs (stableAuthIDs (Auths result))) s1 of
             (Inl e, s2) \<Rightarrow> (Inl e, s2)
           | (Inr _, s2) \<Rightarrow>
               (case on_health (Restore lib (Auths result)) (s2\<lparr>registry := newAuthHealthRegistry\<rparr>) of
                  (Some e, s3) \<Rightarrow> (Inl e, s3)
                | (None, s3) \<Rightarrow> (Inr result, s3\<lparr>models := newRuntimeModelCatalog\<rparr>))))"

section \<open>Recording usage\<close>

text \<open>\<open>ctx_Credential\<close> is the user and the key a request was authorized by, if any.\<close>

record usageCaptureContext =
  ctx_Credential :: "(UserRecord \<times> APIKeyRecord) option"
  ctx_AuthID :: string
  ctx_Metadata :: proxyRequestUsageMetadata
  ctx_StatusCode :: int
  ctx_RequestID :: string
  ctx_Payload :: string
  ctx_Counters :: usage_counters
  ctx_HasUsage :: bool
  ctx_DeltaOnly :: bool

text \<open>\<open>stopping\<close>: the context of the server is done; \<open>tracking\<close>: the setting \<open>usage.enabled\<close>.\<close>

definition shouldRecordUsage :: "bool \<Rightarrow> bool option \<Rightarrow> (UserRecord \<times> APIKeyRecord) option \<Rightarrow> bool" where
  "shouldRecordUsage stopping tracking credential \<longleftrightarrow>
     \<not> stopping \<and> credential \<noteq> None \<and> usageConfigTrackingEnabled tracking"

definition usage_params :: "string \<Rightarrow> time \<Rightarrow> UserRecord \<times> APIKeyRecord \<Rightarrow> usageCaptureContext \<Rightarrow> UsageRecordParams" where
  "usage_params newID now credential c =
     \<lparr>up_Timestamp = now, up_User = fst credential, up_APIKey = snd credential,
      up_Model = um_Model (ctx_Metadata c), up_ReasoningEffort = um_ReasoningEffort (ctx_Metadata c),
      up_ServiceTier = um_ServiceTier (ctx_Metadata c), up_AuthID = ctx_AuthID c,
      up_RequestID = (if ctx_RequestID c = [] then newID else ctx_RequestID c),
      up_StatusCode = ctx_StatusCode c, up_Counters = ctx_Counters c, up_DeltaOnly = ctx_DeltaOnly c\<rparr>"

text \<open>A failed record is only logged.\<close>

definition recordProxyUsage ::
  "bool \<Rightarrow> bool option \<Rightarrow> string option \<Rightarrow> string \<Rightarrow> usageCaptureContext \<Rightarrow> server \<Rightarrow> server" where
  "recordProxyUsage stopping tracking id_token newID c s =
     (case ctx_Credential c of
        None \<Rightarrow> s
      | Some credential \<Rightarrow>
          if \<not> shouldRecordUsage stopping tracking (ctx_Credential c) then s
          else snd (on_store (RecordUsage tracking id_token (usage_params newID (now_of s) credential c)) s))"

definition with_payload_usage :: "usage_lib \<Rightarrow> usageCaptureContext \<Rightarrow> usageCaptureContext" where
  "with_payload_usage lib c =
     (if ctx_HasUsage c then c
      else (case extractUsageCounters lib (ctx_Payload c) of
              Some n \<Rightarrow> c\<lparr>ctx_Counters := n, ctx_HasUsage := True\<rparr>
            | None \<Rightarrow> c\<lparr>ctx_Counters := zero_counters, ctx_HasUsage := False\<rparr>))"

definition recordProxyUsageFromPayload ::
  "usage_lib \<Rightarrow> bool \<Rightarrow> bool option \<Rightarrow> string option \<Rightarrow> string \<Rightarrow> usageCaptureContext \<Rightarrow> server \<Rightarrow> server" where
  "recordProxyUsageFromPayload lib stopping tracking id_token newID c s =
     (if \<not> shouldRecordUsage stopping tracking (ctx_Credential c) then s
      else recordProxyUsage stopping tracking id_token newID (with_payload_usage lib c) s)"

section \<open>Answers of a proxied request\<close>

text \<open>
  \<open>writeProxyError\<close>: status, \<open>Retry-After\<close> and body. The seconds are rounded up; the float the code
  computes them with is exact for waits below 48 days.
\<close>

definition ceil_seconds :: "duration \<Rightarrow> int" where
  "ceil_seconds d = - ((- d) div second)"

definition writeProxyError :: "time \<Rightarrow> chatFinalError option \<Rightarrow> int \<times> int option \<times> json" where
  "writeProxyError now err =
     (let e = (case err of Some e \<Rightarrow> e | None \<Rightarrow> upstream_unavailable)
      in (if pe_StatusCode e = 0 then 502 else pe_StatusCode e,
          if is_zero_time (pe_RetryAt e) then None else Some (max 0 (ceil_seconds (time_sub (pe_RetryAt e) now))),
          chatErrorEnvelope e))"

datatype proxy_failure = ProxyStorageFailure go_err | ProxyFinal chatFinalError | ProxyOther

datatype proxy_reply =
    ProxyError "int \<times> int option \<times> json"
  | ProxyStoreError "int \<times> string"
  | ProxyHandshake int
  | ProxyRejected
  | ProxyConnected
  | ProxyNothing

definition failure_status :: "proxy_failure \<Rightarrow> int" where
  "failure_status f = (case f of ProxyFinal e \<Rightarrow> pe_StatusCode e | _ \<Rightarrow> 502)"

definition failure_reply :: "time \<Rightarrow> proxy_failure \<Rightarrow> proxy_reply" where
  "failure_reply now f =
     (case f of
        ProxyStorageFailure e \<Rightarrow> ProxyStoreError (writeStoreError e)
      | ProxyFinal e \<Rightarrow> ProxyError (writeProxyError now (Some e))
      | ProxyOther \<Rightarrow> ProxyError (writeProxyError now (Some upstream_unavailable)))"

text \<open>The error handler of the reverse proxy: the reply, and the status that is accounted.\<close>

definition proxy_error_handler :: "time \<Rightarrow> bool \<Rightarrow> proxy_failure \<Rightarrow> proxy_reply \<times> int option" where
  "proxy_error_handler now gone f =
     (if gone then (ProxyNothing, None) else (failure_reply now f, Some (failure_status f)))"

text \<open>The usage of a proxied response, when its capturing reader reports.\<close>

definition proxy_usage_context ::
  "(UserRecord \<times> APIKeyRecord) option \<Rightarrow> string \<Rightarrow> proxyRequestUsageMetadata \<Rightarrow> int \<Rightarrow> string \<Rightarrow>
     string \<times> bool \<times> usage_counters \<times> bool \<Rightarrow> usageCaptureContext" where
  "proxy_usage_context credential authID metadata status requestID capture_report =
     (case capture_report of (payload, truncated, counters, has_usage) \<Rightarrow>
        \<lparr>ctx_Credential = credential, ctx_AuthID = authID, ctx_Metadata = metadata, ctx_StatusCode = status,
         ctx_RequestID = requestID, ctx_Payload = payload, ctx_Counters = counters, ctx_HasUsage = has_usage,
         ctx_DeltaOnly = False\<rparr>)"

section \<open>WebSockets\<close>

definition websocketURL :: "base_url \<Rightarrow> string \<Rightarrow> string \<Rightarrow> base_url \<times> string" where
  "websocketURL base path rawQuery =
     (base\<lparr>url_Scheme := (if url_Scheme base = ''https'' then ''wss'' else ''ws''), url_Path := path\<rparr>, rawQuery)"

text \<open>
  What comes before the messages: the handshake failed, the upstream answered it with an HTTP response,
  or there is a connection and the client's upgrade fails or succeeds.
\<close>

datatype handshake = HandshakeFailed proxy_failure | HandshakeRefused "int option" | HandshakeDone bool

definition websocket_handshake ::
  "time \<Rightarrow> bool \<Rightarrow> http_request \<Rightarrow> bool \<Rightarrow> handshake \<Rightarrow> proxy_reply \<times> int option" where
  "websocket_handshake now fastAllowed r gone h =
     (if \<not> fastAllowed \<and> queryHasFastServiceTier (h_Query r) then (ProxyRejected, None)
      else (case h of
              HandshakeFailed f \<Rightarrow> if gone then (ProxyNothing, None) else (failure_reply now f, Some (failure_status f))
            | HandshakeRefused None \<Rightarrow> (ProxyError (writeProxyError now (Some upstream_unavailable)), None)
            | HandshakeRefused (Some status) \<Rightarrow> (ProxyHandshake status, Some status)
            | HandshakeDone upgraded \<Rightarrow> if upgraded then (ProxyConnected, None) else (ProxyNothing, Some 502)))"

definition handshake_excluded :: "http_header \<Rightarrow> string list" where
  "handshake_excluded h =
     [''Connection'', ''Content-Length'', ''Keep-Alive'', ''Proxy-Authenticate'', ''Proxy-Authorization'', ''Te'',
      ''Trailer'', ''Transfer-Encoding'', ''Upgrade''] @ connection_tokens h"

definition writeWebSocketHandshakeHeader :: "http_header \<Rightarrow> http_header" where
  "writeWebSocketHandshakeHeader h = filter (\<lambda>p. canonicalHeaderKey (fst p) \<notin> set (handshake_excluded h)) h"

text \<open>
  Copying in one direction: the messages read before the source fails, what is done with each, and
  which writes succeed. The result are the messages written and the state.
\<close>

fun copyWebSocketMessages ::
  "(bool \<Rightarrow> string \<Rightarrow> 's \<Rightarrow> bool \<times> 's) \<Rightarrow> (bool \<times> string) list \<Rightarrow> (nat \<Rightarrow> bool) \<Rightarrow> 's \<Rightarrow> (bool \<times> string) list \<times> 's" where
  "copyWebSocketMessages inspect [] ok s = ([], s)"
| "copyWebSocketMessages inspect ((is_text, payload) # ms) ok s =
     (case inspect is_text payload s of
        (False, s1) \<Rightarrow> ([], s1)
      | (True, s1) \<Rightarrow>
          if ok 0 then (case copyWebSocketMessages inspect ms (ok \<circ> Suc) s1 of (out, s2) \<Rightarrow> ((is_text, payload) # out, s2))
          else ([], s1))"

section \<open>Client versions\<close>

text \<open>\<open>strings.Fields\<close>; \<open>k\<close> bytes of the last space are still to be skipped.\<close>

fun fields_from :: "nat \<Rightarrow> string \<Rightarrow> string \<Rightarrow> string list" where
  "fields_from k acc [] = (if acc = [] then [] else [rev acc])"
| "fields_from (Suc k) acc (c # s) = fields_from k acc s"
| "fields_from 0 acc (c # s) =
     (case find (\<lambda>e. prefix e (c # s)) space_runes of
        Some e \<Rightarrow> (if acc = [] then [] else [rev acc]) @ fields_from (length e - 1) [] s
      | None \<Rightarrow> fields_from 0 (c # acc) s)"

definition fields :: "string \<Rightarrow> string list" where
  "fields s = fields_from 0 [] s"

definition trim_right_set :: "string \<Rightarrow> string \<Rightarrow> string" where
  "trim_right_set cs s = rev (dropWhile (\<lambda>c. c \<in> set cs) (rev s))"

definition field_version :: "bool \<Rightarrow> string \<Rightarrow> string option" where
  "field_version requireCodexProduct raw =
     (let field = trim_right_set ''()'' (dropWhile (\<lambda>c. c \<in> set ''()'') raw);
          product = takeWhile (\<lambda>c. c \<noteq> CHR ''/'') field;
          version = drop (Suc (length product)) field
      in if CHR ''/'' \<notin> set field \<or> product = [] \<or> version = [] then None
         else if requireCodexProduct \<and> \<not> contains ''codex'' (lower_ascii_view product) then None
         else normalizeClientVersion (trim_right_set '');,'' version))"

definition clientVersionFromUserAgent :: "string \<Rightarrow> bool \<Rightarrow> string option" where
  "clientVersionFromUserAgent userAgent requireCodexProduct =
     (case List.map_filter (field_version requireCodexProduct) (fields (trim_space userAgent)) of
        v # vs \<Rightarrow> Some v | [] \<Rightarrow> None)"

definition configuredClientVersion :: "gateway \<Rightarrow> string" where
  "configuredClientVersion g =
     (case clientVersionFromUserAgent (if trim_space (CodexUserAgent g) \<noteq> [] then CodexUserAgent g else DefaultCodexUA) False of
        Some v \<Rightarrow> v
      | None \<Rightarrow> (case clientVersionFromUserAgent DefaultCodexUA False of Some v \<Rightarrow> v | None \<Rightarrow> []))"

definition requestClientVersion :: "http_request \<Rightarrow> gateway \<Rightarrow> string" where
  "requestClientVersion r g =
     (if trim_space (CodexUserAgent g) \<noteq> [] then configuredClientVersion g
      else (case clientVersionFromUserAgent (header_get (h_Header r) ''User-Agent'') True of
              Some v \<Rightarrow> v | None \<Rightarrow> configuredClientVersion g))"

definition modelsClientVersion :: "http_request \<Rightarrow> gateway \<Rightarrow> string option" where
  "modelsClientVersion r g =
     (case header_values (h_Query r) ''client_version'' of
        [] \<Rightarrow> Some (configuredClientVersion g)
      | v # vs \<Rightarrow> if trim_space v = [] then Some (configuredClientVersion g) else normalizeClientVersion v)"

section \<open>Fetching the models\<close>

definition maxModelCatalogBodyBytes :: nat where "maxModelCatalogBodyBytes = 4194304"

text \<open>
  The reply to the request for the models: none, or the response. \<open>decode_document\<close> is the only value of a
  text, with its members in order.
\<close>

datatype models_reply = ModelsNetworkError | ModelsResponse upstream_response

fun json_objects :: "json list \<Rightarrow> json_map list option" where
  "json_objects [] = Some []"
| "json_objects (v # vs) =
     (case v of
        JObj m \<Rightarrow> map_option ((#) m) (json_objects vs)
      | JNull \<Rightarrow> map_option ((#) []) (json_objects vs)
      | _ \<Rightarrow> None)"

definition json_models :: "json \<Rightarrow> json_map list option" where
  "json_models v = (case v of JArr vs \<Rightarrow> json_objects vs | _ \<Rightarrow> None)"

definition decode_models :: "(string \<Rightarrow> json option) \<Rightarrow> string \<Rightarrow> json_map list option" where
  "decode_models decode_document body =
     (case decode_document body of
        Some (JObj m) \<Rightarrow> (case pointer_field json_models ''models'' m None of Some ms \<Rightarrow> ms | None \<Rightarrow> None)
      | _ \<Rightarrow> None)"

text \<open>The result of an attempt: the models, or when to retry and what failed.\<close>

record models_failure =
  mf_RetryAt :: time
  mf_Failure :: upstreamFailure

definition plain_models_failure :: models_failure where
  "plain_models_failure = \<lparr>mf_RetryAt = 0, mf_Failure = no_failure\<rparr>"

definition fetchModelCatalogAttempt ::
  "go_lib \<Rightarrow> (string \<Rightarrow> json option) \<Rightarrow> time \<Rightarrow> models_reply \<Rightarrow> models_failure + json_map list" where
  "fetchModelCatalogAttempt lib decode_document now reply =
     (case reply of
        ModelsNetworkError \<Rightarrow>
          Inl \<lparr>mf_RetryAt = 0, mf_Failure = no_failure\<lparr>f_Kind := upstreamFailureTransient, f_Reason := ''network''\<rparr>\<rparr>
      | ModelsResponse resp \<Rightarrow>
          if resp_StatusCode resp < 200 \<or> 300 \<le> resp_StatusCode resp then
            let failure = fst (classifyUpstreamResponse lib (Some resp) [] now);
                retryAt = (if is_zero_time (f_RetryAt failure) \<and> f_Kind failure = upstreamFailureTransient
                           then parseRetryAfterDeadline lib (resp_RetryAfter resp) now else f_RetryAt failure)
            in Inl \<lparr>mf_RetryAt = retryAt, mf_Failure = failure\<rparr>
          else
            (case resp_Body resp of
               None \<Rightarrow> Inl plain_models_failure
             | Some body \<Rightarrow>
                 if length (b_bytes body) \<le> maxModelCatalogBodyBytes \<and> b_end body \<noteq> None then Inl plain_models_failure
                 else if length (b_bytes body) > maxModelCatalogBodyBytes then Inl plain_models_failure
                 else (case decode_models decode_document (b_bytes body) of
                         Some ms \<Rightarrow> Inr ms | None \<Rightarrow> Inl plain_models_failure)))"

text \<open>\<open>FetchBroken\<close> is an error of the store, \<open>FetchFailed\<close> one the catalogue retries, not before the time given.\<close>

datatype fetch_outcome = Fetched "json_map list" | FetchFailed time | FetchBroken go_err

definition mark_fetch :: "go_lib \<Rightarrow> Auth \<Rightarrow> upstreamFailure \<Rightarrow> fetch_outcome \<Rightarrow> proxy \<Rightarrow> fetch_outcome \<times> proxy" where
  "mark_fetch lib a f outcome p =
     (case on_srv (on_health (markAuthFailure lib a [] f)) p of
        (Some e, p1) \<Rightarrow> (FetchBroken e, p1) | (None, p1) \<Rightarrow> (outcome, p1))"

definition fetched :: "Auth \<Rightarrow> json_map list \<Rightarrow> proxy \<Rightarrow> fetch_outcome \<times> proxy" where
  "fetched a ms p =
     (case on_srv (on_health (MarkHealthy a [])) p of
        (Some e, p1) \<Rightarrow> (FetchBroken e, p1) | (None, p1) \<Rightarrow> (Fetched ms, p1))"

definition unauthorized_failure :: "upstreamFailure \<Rightarrow> upstreamFailure" where
  "unauthorized_failure f =
     no_failure\<lparr>f_Kind := upstreamFailureUnauthorized, f_StatusCode := 401,
       f_ErrorCode := firstNonEmptyString [f_ErrorCode f, ''unauthorized''], f_Reason := ''unauthorized''\<rparr>"

text \<open>The second attempt, after the credential was refreshed.\<close>

definition fetch_again :: "go_lib \<Rightarrow> (string \<Rightarrow> json option) \<Rightarrow> Auth \<Rightarrow> models_reply \<Rightarrow> proxy \<Rightarrow> fetch_outcome \<times> proxy" where
  "fetch_again lib decode_document a reply p =
     (case fetchModelCatalogAttempt lib decode_document (now_of (srv p)) reply of
        Inr ms \<Rightarrow> fetched a ms p
      | Inl e \<Rightarrow>
          (case f_Kind (mf_Failure e) of
             upstreamFailureUnauthorized \<Rightarrow> mark_fetch lib a (unauthorized_failure (mf_Failure e)) (FetchFailed (mf_RetryAt e)) p
           | upstreamFailureQuota \<Rightarrow> mark_fetch lib a (mf_Failure e) (FetchFailed (mf_RetryAt e)) p
           | _ \<Rightarrow> (FetchFailed (mf_RetryAt e), p)))"

definition fetchModelCatalog ::
  "go_lib \<Rightarrow> token_lib \<Rightarrow> (string \<Rightarrow> json option) \<Rightarrow> Auth \<Rightarrow> models_reply \<Rightarrow> models_reply \<Rightarrow> proxy \<Rightarrow> fetch_outcome \<times> proxy" where
  "fetchModelCatalog lib tk decode_document a reply1 reply2 p =
     (case prepareAuth lib tk a p of
        (PrepareFailed e ctx_done, p1) \<Rightarrow>
          let failure = preparationFailure e (now_of (srv p1))
          in mark_fetch lib a failure (FetchFailed (f_RetryAt failure)) p1
      | (Prepared prepared, p1) \<Rightarrow>
          (case fetchModelCatalogAttempt lib decode_document (now_of (srv p1)) reply1 of
             Inr ms \<Rightarrow> fetched prepared ms p1
           | Inl e \<Rightarrow>
               if f_Kind (mf_Failure e) \<noteq> upstreamFailureUnauthorized then
                 (if f_Kind (mf_Failure e) = upstreamFailureQuota
                  then mark_fetch lib prepared (mf_Failure e) (FetchFailed (mf_RetryAt e)) p1
                  else (FetchFailed (mf_RetryAt e), p1))
               else
                 (case RefreshAfterUnauthorized lib tk prepared (AccessToken prepared) p1 of
                    ((Inl err, ctx_done), p2) \<Rightarrow>
                      let f0 = preparationFailure (Some err) (now_of (srv p2));
                          f = (if f_Kind f0 = upstreamFailureCredential \<and> f_ErrorCode f0 = []
                               then f0\<lparr>f_ErrorCode := ''unauthorized''\<rparr> else f0)
                      in mark_fetch lib prepared f (FetchFailed (f_RetryAt f)) p2
                  | ((Inr renewed, ctx_done), p2) \<Rightarrow>
                      (case on_srv (on_health (MarkCredentialHealthy renewed)) p2 of
                         (Some err, p3) \<Rightarrow> (FetchBroken err, p3)
                       | (None, p3) \<Rightarrow> fetch_again lib decode_document renewed reply2 p3))))"

section \<open>The list of models\<close>

definition codexModelIDs :: "string list" where
  "codexModelIDs = [''gpt-6-astra'', ''gpt-6-sol'', ''gpt-6-luna'', ''gpt-5.6-sol'', ''gpt-5.6'', ''gpt-5.6-terra'',
     ''gpt-5.6-luna'', ''gpt-daybreak-blue-latest'', ''gpt-daybreak-red-latest'', ''gpt-5.5'', ''gpt-5.4'', ''gpt-5.4-mini'',
     ''gpt-5.3-codex'', ''gpt-5.2'', ''codex-auto-review'']"

definition fallbackCodexClientModels :: "json_map list" where
  "fallbackCodexClientModels =
     map (\<lambda>i. [(''slug'', JStr i), (''display_name'', JStr i), (''supported_in_api'', JBool True),
       (''prefer_websockets'', JBool True), (''supports_parallel_tool_calls'', JBool True)]) codexModelIDs"

text \<open>\<open>embedded\<close> is the list in the embedded file, when it can be decoded.\<close>

definition codexClientModels :: "json_map list option \<Rightarrow> bool \<Rightarrow> json_map list" where
  "codexClientModels embedded allowFastMode =
     (case embedded of None \<Rightarrow> fallbackCodexClientModels | Some ms \<Rightarrow> filterCodexClientModels ms allowFastMode)"

definition listed_model :: "json_map \<Rightarrow> json_map option" where
  "listed_model m =
     (let i = rawStringFromMap m ''slug'' in
      if trim_space i = [] then None
      else Some (AList.update ''owned_by'' (JStr ''openai'') (AList.update ''created'' (JNum 0)
             (AList.update ''object'' (JStr ''model'') (AList.update ''id'' (JStr i) m)))))"

datatype models_answer = ModelsError "int \<times> string" | ModelsRaw "json_map list" | ModelsListed "json_map list" | ModelsNoAnswer

text \<open>What waiting for the catalogue gives: the view, a canceled request, or an error.\<close>

datatype catalog_wait = CatalogView modelCatalogView | CatalogCanceled | CatalogError

definition handleModels :: "go_lib \<Rightarrow> gateway \<Rightarrow> http_request \<Rightarrow> catalog_wait \<Rightarrow> server \<Rightarrow> models_answer \<times> server" where
  "handleModels lib g r waited s =
     (case modelsClientVersion r g of
        None \<Rightarrow> (ModelsError (400, ''invalid client_version''), s)
      | Some v \<Rightarrow>
          (case reconcileAuths lib s of
             (Inl e, s1) \<Rightarrow> (ModelsError (writeStoreError e), s1)
           | (Inr result, s1) \<Rightarrow>
               (case waited of
                  CatalogCanceled \<Rightarrow>
                    ((case failure_current (failures (store s1)) of Some e \<Rightarrow> ModelsError (writeStoreError e) | None \<Rightarrow> ModelsNoAnswer), s1)
                | CatalogError \<Rightarrow> (ModelsError (502, ''model catalog unavailable''), s1)
                | CatalogView view \<Rightarrow>
                    let ms = filterCodexClientModels (view_Models view) (AllowFastMode g)
                    in (if map_of (h_Query r) ''client_version'' \<noteq> None then ModelsRaw ms
                        else ModelsListed (List.map_filter listed_model ms), s1))))"

section \<open>Facts\<close>

lemma defaults_in_range:
  "0 \<le> cfg_RequestRetry (ApplyDefaults c) \<and> 0 \<le> cfg_MaxRetryCredentials (ApplyDefaults c) \<and>
   0 \<le> cfg_MaxRetryInterval (ApplyDefaults c) \<and> cfg_Port (ApplyDefaults c) \<noteq> 0 \<and>
   trim_space (cfg_AuthDir (ApplyDefaults c)) \<noteq> []"
proof -
  have "trim_space DefaultAuthDir = DefaultAuthDir" by code_simp
  then have "trim_space (default_text DefaultAuthDir s) \<noteq> []" for s by (simp add: default_text_def DefaultAuthDir_def)
  moreover have "0 \<le> retry_setting given 3 n" "0 \<le> retry_setting given 0 n" "0 \<le> retry_setting given 30 n" for given n
    by (simp_all add: retry_setting_def)
  ultimately show ?thesis by (simp add: ApplyDefaults_def DefaultPort_def)
qed

text \<open>A client that waits as long as \<open>Retry-After\<close> says comes back when the credential is free.\<close>

lemma retry_after_suffices:
  assumes "pe_RetryAt e \<noteq> 0" "writeProxyError now (Some e) = (status, Some n, body)"
    "pe_RetryAt e - now \<le> max_int64"
  shows "pe_RetryAt e \<le> now + n * second"
proof -
  have "d \<le> ceil_seconds d * second" for d
  proof -
    have "0 \<le> (- d) mod second" by (simp add: second_def)
    then have "(- d) div second * second \<le> - d"
      using div_mult_mod_eq [of "- d" second] by linarith
    then show ?thesis by (simp add: ceil_seconds_def)
  qed
  moreover have "pe_RetryAt e - now \<le> time_sub (pe_RetryAt e) now"
    using assms(3) by (simp add: time_sub_def)
  moreover have "n = max 0 (ceil_seconds (time_sub (pe_RetryAt e) now))"
    using assms(1,2) by (simp add: writeProxyError_def)
  ultimately have "pe_RetryAt e - now \<le> ceil_seconds (time_sub (pe_RetryAt e) now) * second"
    and n: "ceil_seconds (time_sub (pe_RetryAt e) now) \<le> n" by (auto intro: order_trans)
  moreover have "ceil_seconds (time_sub (pe_RetryAt e) now) * second \<le> n * second"
    using n by (intro mult_right_mono) (simp_all add: second_def)
  ultimately show ?thesis by linarith
qed

text \<open>Nothing of a client that asks for the fast tier passes when it is not allowed.\<close>

lemma no_fast_tier_passes:
  assumes "copyWebSocketMessages (client_message lib False) ms ok st = (out, st')"
  shows "prefix out ms \<and> (\<forall>(is_text, payload)\<in>set out. is_text \<longrightarrow> \<not> payloadHasFastServiceTier lib payload)"
  using assms
proof (induction ms arbitrary: ok st out st')
  case (Cons m ms)
  obtain is_text payload where m: "m = (is_text, payload)" by fastforce
  obtain b st1 where step: "client_message lib False is_text payload st = (b, st1)" by fastforce
  then have fast: "b \<Longrightarrow> is_text \<Longrightarrow> \<not> payloadHasFastServiceTier lib payload"
    by (auto simp: client_message_def split: if_splits prod.splits)
  show ?case
  proof (cases "b \<and> ok 0")
    case False
    with Cons.prems m step have "out = []" by (auto split: bool.splits if_splits)
    then show ?thesis by simp
  next
    case True
    obtain out2 st2 where rest: "copyWebSocketMessages (client_message lib False) ms (ok \<circ> Suc) st1 = (out2, st2)" by fastforce
    with Cons.prems m step True have "out = m # out2" by simp
    with Cons.IH [OF rest] m fast True show ?thesis by auto
  qed
qed simp

end
