(* ===== verification/Proxied_Requests.thy ===== *)
theory Proxied_Requests
  imports Proxy_Handlers
begin

text \<open>
  The request a reverse-proxied request becomes (\<open>proxyCodex\<close> in \<open>server.go\<close>, \<open>proxyAttemptTransport\<close> in
  \<open>failover.go\<close>): what happens to the body before the first attempt, the URL, and the header and body of
  each attempt of the retry loop. \<open>httputil.ReverseProxy\<close> stands between them: it takes the body away when
  its announced length is 0, and leaves some headers of the client, which are the argument \<open>left\<close>.
\<close>

section \<open>Before the first attempt\<close>

datatype proxied_start =
    ProxiedWebSocket http_request bool
  | ProxiedRequest proxyRequestUsageMetadata http_request bool

definition start_proxied :: "chat_lib \<Rightarrow> bool \<Rightarrow> http_request \<Rightarrow> bool \<Rightarrow> proxied_start" where
  "start_proxied lib websockets r candidate =
     (case prepareReplayBody (h_Body r) candidate of
        (replayable, body) \<Rightarrow>
          if websockets \<and> websocketRequested r then ProxiedWebSocket (r\<lparr>h_Body := body\<rparr>) replayable
          else (case captureProxyRequestUsageMetadata lib (r\<lparr>h_Body := body\<rparr>) of
                  (metadata, r') \<Rightarrow> ProxiedRequest metadata r' replayable))"

text \<open>Scheme, host and path of the upstream request, and its raw query, which is the client's.\<close>

definition director :: "upstreamRoute \<Rightarrow> string \<Rightarrow> base_url \<times> string" where
  "director route rawQuery = ((baseURL route)\<lparr>url_Path := route_targetPath route\<rparr>, rawQuery)"

definition forwarded_body :: "request_body \<Rightarrow> request_body" where
  "forwarded_body b = (if rq_ContentLength b = 0 then b\<lparr>rq_Body := None\<rparr> else b)"

section \<open>The attempts\<close>

text \<open>Attempt number \<open>n\<close>, from 0, with the credential \<open>a\<close>: the error, or the header and the body that are sent.\<close>

definition roundTrip ::
  "gateway \<Rightarrow> string \<Rightarrow> http_request \<Rightarrow> bool \<Rightarrow> http_header \<Rightarrow> request_body \<Rightarrow> nat \<Rightarrow> Auth \<Rightarrow> go_err + http_header \<times> body_stream option" where
  "roundTrip g sessionID r websockets left base n a =
     (let header = applyCodexProxyHeaders g sessionID r a websockets left in
      if n = 0 then Inr (header, rq_Body base)
      else if rq_Body base = None then Inr (header, None)
      else (case rq_GetBody base of
              None \<Rightarrow> Inl (PlainError ''upstream request body is not replayable'')
            | Some body \<Rightarrow> Inr (header, Some body)))"

section \<open>Every attempt sends what the client sent\<close>

definition sent :: "body_stream option \<Rightarrow> body_stream" where
  "sent b = (case b of None \<Rightarrow> bytes_reader [] | Some x \<Rightarrow> x)"

lemma delivered_sent: "delivered b = sent (rq_Body b)"
  by (simp add: delivered_def sent_def)

definition replayed :: "body_stream \<Rightarrow> request_body \<Rightarrow> bool" where
  "replayed body b \<longleftrightarrow>
     b_end body = None \<and> sent (rq_Body b) = body \<and> rq_GetBody b = Some body \<and> rq_ContentLength b = int (length (b_bytes body))"

lemma replayed_capture:
  assumes "captureProxyRequestUsageMetadata lib r = (m, r')" "replayed body (h_Body r)"
  shows "replayed body (h_Body r')"
proof -
  have reset: "replayed body (resetRequestBody (b_bytes body) b)" if "b_end body = None" for b
    using that by (simp add: replayed_def resetRequestBody_def sent_def bytes_reader_def)
  show ?thesis
  proof (cases "rq_Body (h_Body r)")
    case None
    with assms show ?thesis by (simp add: captureProxyRequestUsageMetadata_def)
  next
    case (Some x)
    with assms(2) have x: "x = body" and b: "b_end body = None" by (simp_all add: replayed_def sent_def)
    then have "h_Body r' = h_Body r \<or> h_Body r' = resetRequestBody (b_bytes body) (h_Body r)"
      using assms(1) Some by (auto simp: captureProxyRequestUsageMetadata_def split: if_splits prod.splits)
    with assms(2) reset [OF b] show ?thesis by metis
  qed
qed

lemma replayed_forwarded: "replayed body b \<Longrightarrow> replayed body (forwarded_body b)"
  by (cases body) (auto simp: replayed_def forwarded_body_def sent_def bytes_reader_def)

text \<open>
  When the retry loop may repeat a request, every attempt succeeds in building its request, which has the bytes
  of the client's body in full, the credential of the attempt, and otherwise the headers that were left.
\<close>

theorem proxied_attempts_alike:
  assumes start: "start_proxied lib websockets r candidate = ProxiedRequest metadata r' True"
    and empty: "rq_ContentLength (h_Body r) = 0 \<Longrightarrow> delivered (h_Body r) = bytes_reader []"
  shows "\<exists>h body. roundTrip g sessionID r websockets left (forwarded_body (h_Body r')) n a = Inr (h, body) \<and>
    sent body = delivered (h_Body r) \<and>
    header_values h ''Authorization'' = [''Bearer '' @ AccessToken a] \<and>
    header_values h ''X-Api-Key'' = header_values left ''X-Api-Key''"
proof -
  from start obtain b m where prep: "prepareReplayBody (h_Body r) candidate = (True, b)"
    and cap: "captureProxyRequestUsageMetadata lib (r\<lparr>h_Body := b\<rparr>) = (m, r')"
    by (auto simp: start_proxied_def split: prod.splits if_splits)
  have "replayed (delivered (h_Body r)) b"
    using replay_body_facts [OF prep empty] by (simp add: replayed_def delivered_sent)
  with replayed_capture [OF cap] have "replayed (delivered (h_Body r)) (forwarded_body (h_Body r'))"
    by (simp add: replayed_forwarded)
  then show ?thesis
    by (cases "rq_Body (forwarded_body (h_Body r'))")
      (auto simp: roundTrip_def Let_def replayed_def sent_def proxy_headers_identity proxy_headers_keep split: option.splits)
qed

end
