(* ===== verification/Store_Migration.thy ===== *)
theory Store_Migration
  imports Usage_Properties
begin

text \<open>
  Opening the database (\<open>openUserStore\<close>, \<open>migrate\<close> of \<open>user_store.go\<close>): older databases lack columns of
  \<open>usage_buckets\<close> and \<open>session_affinity_bindings\<close>, and the buckets that differ only in what a new column
  will tell apart are added up. A file is its tables and which of the columns they have; a column it does not
  have reads as some text nobody looks at. Every call of the database takes one entry of the fault script.
  The statements that create what exists already change nothing, so only their failures are kept.
\<close>

section \<open>Calls\<close>

record db_file =
  fl_tables :: tables
  fl_effort :: bool
  fl_tier :: bool
  fl_scope :: bool
  fl_faults :: "go_err option list"

type_synonym file_step = "db_file \<Rightarrow> go_err option \<times> db_file"

text \<open>One call, and \<open>n\<close> of them; after a failure the file is \<open>base\<close> again, where the transaction started.\<close>

definition file_call :: "db_file \<Rightarrow> file_step \<Rightarrow> file_step" where
  "file_call base k d =
     (case fl_faults d of
        [] \<Rightarrow> k d
      | Some e # rest \<Rightarrow> (Some e, base\<lparr>fl_faults := rest\<rparr>)
      | None # rest \<Rightarrow> k (d\<lparr>fl_faults := rest\<rparr>))"

fun file_calls :: "nat \<Rightarrow> db_file \<Rightarrow> file_step \<Rightarrow> file_step" where
  "file_calls 0 base k = k"
| "file_calls (Suc n) base k = file_call base (file_calls n base k)"

definition and_then :: "file_step \<Rightarrow> file_step \<Rightarrow> file_step" where
  "and_then m k d = (case m d of (Some e, d1) \<Rightarrow> (Some e, d1) | (None, d1) \<Rightarrow> k d1)"

text \<open>\<open>k\<close> runs when the column is missing; a column that is found ends the reading of the rows early.\<close>

definition tableColumnExists :: "bool \<Rightarrow> file_step \<Rightarrow> file_step" where
  "tableColumnExists found k d = file_call d (\<lambda>d1. if found then (None, d1) else file_call d k d1) d"

section \<open>Adding up buckets\<close>

text \<open>
  SQLite's \<open>SUM\<close> of a group: it fails when an integer total overflows, and goes on in floating point after a
  value that is one already.
\<close>

fun sql_total :: "bool \<Rightarrow> int \<Rightarrow> int list \<Rightarrow> int option" where
  "sql_total inexact a [] = Some a"
| "sql_total inexact a (x # xs) =
     (if inexact \<or> \<not> in_int64 x then sql_total True (a + x) xs
      else if in_int64 (a + x) then sql_total False (a + x) xs
      else None)"

definition total_counters :: "usage_counters list \<Rightarrow> usage_counters option" where
  "total_counters cs = do {
     a \<leftarrow> sql_total False 0 (map RequestCount cs); b \<leftarrow> sql_total False 0 (map FailedRequestCount cs);
     c \<leftarrow> sql_total False 0 (map InputTokens cs); d \<leftarrow> sql_total False 0 (map OutputTokens cs);
     e \<leftarrow> sql_total False 0 (map ReasoningTokens cs); f \<leftarrow> sql_total False 0 (map CachedInputTokens cs);
     g \<leftarrow> sql_total False 0 (map CacheReadTokens cs); h \<leftarrow> sql_total False 0 (map CacheCreationTokens cs);
     i \<leftarrow> sql_total False 0 (map TotalTokens cs);
     Some \<lparr>RequestCount = a, FailedRequestCount = b, InputTokens = c, OutputTokens = d, ReasoningTokens = e,
           CachedInputTokens = f, CacheReadTokens = g, CacheCreationTokens = h, TotalTokens = i\<rparr> }"

definition max_text :: "string list \<Rightarrow> string" where
  "max_text xs = fold max xs []"

definition merged_row :: "(bucket_key \<times> bucket_row) list \<Rightarrow> usage_counters \<Rightarrow> bucket_row" where
  "merged_row rs c =
     \<lparr>br_key_hash = max_text (map (br_key_hash \<circ> snd) rs), br_masked_key = max_text (map (br_masked_key \<circ> snd) rs),
      br_counters = c, br_updated_at = max_text (map (br_updated_at \<circ> snd) rs)\<rparr>"

fun merge_groups ::
  "(bucket_key \<Rightarrow> (bucket_key \<times> bucket_row) list) \<Rightarrow> bucket_key list \<Rightarrow> (bucket_key \<times> bucket_row) list option" where
  "merge_groups rows [] = Some []"
| "merge_groups rows (k # ks) = do {
     c \<leftarrow> total_counters (counters_of (rows k));
     rest \<leftarrow> merge_groups rows ks;
     Some ((k, merged_row (rows k) c) # rest) }"

definition regroup :: "(bucket_key \<Rightarrow> bucket_key) \<Rightarrow> (bucket_key \<times> bucket_row) list \<Rightarrow> (bucket_key \<times> bucket_row) list option" where
  "regroup g rs = merge_groups (\<lambda>k. filter (\<lambda>r. g (fst r) = k) rs) (remdups (map (g \<circ> fst) rs))"

section \<open>The migration\<close>

text \<open>
  The transaction both bucket migrations are: begin, drop, rename and create, then the statement that copies the
  groups, then drop and commit. The new table has both columns.
\<close>

definition migrateUsageBuckets :: "bool \<Rightarrow> (bucket_key \<Rightarrow> bucket_key) \<Rightarrow> file_step" where
  "migrateUsageBuckets found g d =
     tableColumnExists found
       (file_calls 4 d (file_call d (\<lambda>d1.
          case regroup g (usage_buckets (fl_tables d1)) of
            None \<Rightarrow> (Some overflow, d\<lparr>fl_faults := fl_faults d1\<rparr>)
          | Some rows \<Rightarrow>
              file_calls 2 d (\<lambda>d2. (None, d2\<lparr>fl_tables := (fl_tables d)\<lparr>usage_buckets := rows\<rparr>,
                fl_effort := True, fl_tier := True\<rparr>)) d1))) d"

definition migrateUsageBucketsReasoningEffort :: file_step where
  "migrateUsageBucketsReasoningEffort d =
     migrateUsageBuckets (fl_effort d) (\<lambda>k. k\<lparr>bk_effort := ''unknown'', bk_tier := ''standard''\<rparr>) d"

definition migrateUsageBucketsServiceTier :: file_step where
  "migrateUsageBucketsServiceTier d = migrateUsageBuckets (fl_tier d) (\<lambda>k. k\<lparr>bk_tier := ''standard''\<rparr>) d"

definition migrateSessionAffinityTenantScopeDigest :: file_step where
  "migrateSessionAffinityTenantScopeDigest d =
     tableColumnExists (fl_scope d)
       (file_call d (\<lambda>d1. (None, d1\<lparr>fl_scope := True,
          fl_tables := (fl_tables d1)\<lparr>affinity := map (\<lambda>(k, r). (k, r\<lparr>ar_tenant_scope := []\<rparr>)) (affinity (fl_tables d1))\<rparr>\<rparr>))) d"

definition one_active :: "tables \<Rightarrow> bool" where
  "one_active t \<longleftrightarrow> distinct (map (kr_user_id \<circ> snd) (filter (kr_enabled \<circ> snd) (api_keys t)))"

text \<open>The nine indexes; the first one is unique and cannot be made over two enabled keys of one user.\<close>

definition create_indexes :: file_step where
  "create_indexes d =
     file_call d (\<lambda>d1. if one_active (fl_tables d1) then file_calls 8 d (\<lambda>d2. (None, d2)) d1
                       else (Some (unique_failed ''api_keys.user_id''), d1)) d"

definition migrate :: file_step where
  "migrate d =
     and_then (\<lambda>d. file_calls 7 d (\<lambda>d. (None, d)) d)
       (and_then migrateUsageBucketsReasoningEffort
         (and_then migrateUsageBucketsServiceTier
           (and_then migrateSessionAffinityTenantScopeDigest create_indexes))) d"

text \<open>\<open>mkdir\<close> and \<open>opened\<close> are how the directory and the file could be opened.\<close>

definition openUserStore :: "string \<Rightarrow> go_err option \<Rightarrow> go_err option \<Rightarrow> time \<Rightarrow> db_file \<Rightarrow> (go_err + user_store) \<times> db_file" where
  "openUserStore path mkdir opened now d =
     (if trim_space path = [] then (Inl ErrInvalidInput, d)
      else case mkdir of Some e \<Rightarrow> (Inl e, d) | None \<Rightarrow>
      (case opened of Some e \<Rightarrow> (Inl e, d) | None \<Rightarrow>
      (case migrate d of
         (Some e, d1) \<Rightarrow> (Inl e, d1)
       | (None, d1) \<Rightarrow>
           (case ListUsers None ((new_store now)\<lparr>db := fl_tables d1, faults := fl_faults d1\<rparr>) of
              (Inl e, s) \<Rightarrow> (Inl e, d1\<lparr>fl_faults := faults s\<rparr>)
            | (Inr _, s) \<Rightarrow> (Inr s, d1\<lparr>fl_faults := faults s\<rparr>)))))"

section \<open>Adding up loses nothing\<close>

lemma sql_total_value: "sql_total inexact a xs = Some v \<Longrightarrow> v = a + sum_list xs"
  by (induction inexact a xs rule: sql_total.induct) (auto split: if_splits)

lemma total_column:
  assumes "total_counters cs = Some c" "f \<in> set columns"
  shows "f c = sum_list (map f cs)"
  using assms sql_total_value [of False 0]
  by (fastforce simp: total_counters_def columns_def bind_eq_Some_conv)

lemma merge_groups_sum:
  assumes "merge_groups rows ks = Some gs" "f \<in> set columns"
  shows "map fst gs = ks \<and> column_sum f gs = sum_list (map (\<lambda>k. column_sum f (rows k)) ks)"
  using assms(1)
proof (induction ks arbitrary: gs)
  case (Cons k ks)
  then show ?case
    using total_column [OF _ assms(2)]
    by (auto simp: bind_eq_Some_conv merged_row_def column_sum_def counters_of_def comp_def)
qed simp

lemma regroup_distinct: "regroup g rs = Some rs' \<Longrightarrow> distinct (map fst rs')"
  using merge_groups_sum [of _ _ rs' TotalTokens] by (simp add: regroup_def columns_def)

lemma regroup_sum:
  assumes "regroup g rs = Some rs'" "f \<in> set columns"
  shows "column_sum f rs' = column_sum f rs"
proof -
  note m = merge_groups_sum [OF assms(1) [unfolded regroup_def] assms(2)]
  have "column_sum f rs' = sum_list (map (\<lambda>k. sum_list (map (\<lambda>r. f (br_counters (snd r))) (filter (\<lambda>r. (g \<circ> fst) r = k) rs)))
      (remdups (map (g \<circ> fst) rs)))"
    using m by (simp add: column_sum_def)
  also have "\<dots> = column_sum f rs"
    by (subst sum_list_groups) (auto simp: column_sum_def)
  finally show "column_sum f rs' = column_sum f rs" .
qed

section \<open>Whatever fails, nothing is lost\<close>

definition intact :: "db_file \<Rightarrow> db_file \<Rightarrow> bool" where
  "intact d d' \<longleftrightarrow>
     (\<forall>f\<in>set columns. column_sum f (usage_buckets (fl_tables d')) = column_sum f (usage_buckets (fl_tables d))) \<and>
     (distinct (map fst (usage_buckets (fl_tables d))) \<longrightarrow> distinct (map fst (usage_buckets (fl_tables d')))) \<and>
     users (fl_tables d') = users (fl_tables d) \<and> api_keys (fl_tables d') = api_keys (fl_tables d) \<and>
     health (fl_tables d') = health (fl_tables d) \<and> map fst (affinity (fl_tables d')) = map fst (affinity (fl_tables d)) \<and>
     (fl_effort d \<longrightarrow> fl_effort d') \<and> (fl_tier d \<longrightarrow> fl_tier d') \<and> (fl_scope d \<longrightarrow> fl_scope d') \<and>
     (fl_effort d \<and> fl_tier d \<and> fl_scope d \<longrightarrow> fl_tables d' = fl_tables d)"

lemma intact_refl [simp]: "intact d d"
  by (simp add: intact_def)

lemma intact_faults [simp]: "intact (d\<lparr>fl_faults := x\<rparr>) d' = intact d d'" "intact d (d'\<lparr>fl_faults := x\<rparr>) = intact d d'"
  by (simp_all add: intact_def)

lemma intact_trans: "intact a b \<Longrightarrow> intact b c \<Longrightarrow> intact a c"
  by (simp add: intact_def)

text \<open>What a step with its calls does: a failure leaves \<open>base\<close>, and the rest runs on a file with fewer faults.\<close>

definition same_file :: "db_file \<Rightarrow> db_file \<Rightarrow> bool" where
  "same_file d d' \<longleftrightarrow> (\<exists>x. d' = d\<lparr>fl_faults := x\<rparr>)"

lemma same_file_refl [simp]: "same_file d d"
  unfolding same_file_def by (rule exI [of _ "fl_faults d"]) simp

lemma same_file_intact: "same_file d d' \<Longrightarrow> intact d d'"
  by (auto simp: same_file_def)

lemma same_file_faults [simp]: "same_file d (d\<lparr>fl_faults := x\<rparr>)"
  by (auto simp: same_file_def)

lemma same_file_trans: "same_file a b \<Longrightarrow> same_file b c \<Longrightarrow> same_file a c"
  by (auto simp: same_file_def)

lemma file_calls_cases:
  assumes "file_calls n base k d = (e, d')" "same_file base d"
  shows "e \<noteq> None \<and> same_file base d' \<or> (\<exists>d1. same_file base d1 \<and> k d1 = (e, d'))"
  using assms
proof (induction n arbitrary: d)
  case (Suc n)
  from Suc.prems(2) obtain x where d: "d = base\<lparr>fl_faults := x\<rparr>" by (auto simp: same_file_def)
  show ?case
  proof (cases x)
    case Nil
    with Suc.prems d have "file_calls n base k d = (e, d')" by (simp add: file_call_def)
    with Suc.IH Suc.prems(2) show ?thesis by blast
  next
    case (Cons r rest)
    show ?thesis
    proof (cases r)
      case None
      with Suc.prems d Cons have "file_calls n base k (base\<lparr>fl_faults := rest\<rparr>) = (e, d')" by (simp add: file_call_def)
      with Suc.IH show ?thesis by simp
    next
      case (Some x)
      with Suc.prems d Cons show ?thesis by (auto simp: file_call_def)
    qed
  qed
qed auto

lemmas file_call_cases = file_calls_cases [of "Suc 0", simplified]

lemma tableColumnExists_cases:
  assumes "tableColumnExists found k d = (e, d')"
  shows "same_file d d' \<and> (e = None \<longrightarrow> found) \<or> (\<not> found \<and> (\<exists>d1. same_file d d1 \<and> k d1 = (e, d')))"
proof -
  from file_call_cases [OF assms [unfolded tableColumnExists_def] same_file_refl]
  consider "e \<noteq> None" "same_file d d'" | d1 where "same_file d d1" "(if found then (None, d1) else file_call d k d1) = (e, d')"
    by blast
  then show ?thesis
  proof cases
    case 2
    then show ?thesis using file_call_cases [of d k d1 e d'] by (cases found) auto
  qed auto
qed

lemma intact_regrouped:
  assumes "regroup g (usage_buckets (fl_tables d)) = Some rows" "same_file d d2" "\<not> fl_effort d \<or> \<not> fl_tier d"
  shows "intact d (d2\<lparr>fl_tables := (fl_tables d)\<lparr>usage_buckets := rows\<rparr>, fl_effort := True, fl_tier := True\<rparr>)"
proof -
  from assms(2) obtain x where "d2 = d\<lparr>fl_faults := x\<rparr>" by (auto simp: same_file_def)
  with regroup_sum [OF assms(1)] regroup_distinct [OF assms(1)] assms(3) show ?thesis by (auto simp: intact_def)
qed

lemma migrateUsageBuckets_intact:
  assumes run: "migrateUsageBuckets found g d = (e, d')"
    and missing: "\<not> found \<Longrightarrow> \<not> fl_effort d \<or> \<not> fl_tier d"
  shows "intact d d' \<and> (e = None \<longrightarrow> found \<and> same_file d d' \<or> fl_effort d' \<and> fl_tier d')"
proof -
  from tableColumnExists_cases [OF run [unfolded migrateUsageBuckets_def]]
  show ?thesis
  proof
    assume "same_file d d' \<and> (e = None \<longrightarrow> found)"
    then show ?thesis by (auto dest: same_file_intact)
  next
    let ?copy = "\<lambda>d1. case regroup g (usage_buckets (fl_tables d1)) of
            None \<Rightarrow> (Some overflow, d\<lparr>fl_faults := fl_faults d1\<rparr>)
          | Some rows \<Rightarrow>
              file_calls 2 d (\<lambda>d2. (None, d2\<lparr>fl_tables := (fl_tables d)\<lparr>usage_buckets := rows\<rparr>,
                fl_effort := True, fl_tier := True\<rparr>)) d1"
    assume "\<not> found \<and> (\<exists>d1. same_file d d1 \<and> file_calls 4 d (file_call d ?copy) d1 = (e, d'))"
    then obtain d1 where d1: "same_file d d1" "file_calls 4 d (file_call d ?copy) d1 = (e, d')" and nf: "\<not> found" by blast
    from file_calls_cases [OF d1(2,1)] show ?thesis
    proof
      assume "\<exists>d1. same_file d d1 \<and> file_call d ?copy d1 = (e, d')"
      then obtain d2 where d2: "same_file d d2" "file_call d ?copy d2 = (e, d')" by blast
      from file_call_cases [OF d2(2,1)] show ?thesis
      proof
        assume "\<exists>d1. same_file d d1 \<and> ?copy d1 = (e, d')"
        then obtain d3 where d3: "same_file d d3" "?copy d3 = (e, d')" by blast
        then have b: "usage_buckets (fl_tables d3) = usage_buckets (fl_tables d)" by (auto simp: same_file_def)
        show ?thesis
        proof (cases "regroup g (usage_buckets (fl_tables d))")
          case None
          with d3 b show ?thesis by auto
        next
          case (Some rows)
          with d3 b have "file_calls 2 d (\<lambda>d2. (None, d2\<lparr>fl_tables := (fl_tables d)\<lparr>usage_buckets := rows\<rparr>,
                fl_effort := True, fl_tier := True\<rparr>)) d3 = (e, d')" by simp
          from file_calls_cases [OF this d3(1)] show ?thesis
          proof
            assume "\<exists>d1. same_file d d1 \<and> (None, d1\<lparr>fl_tables := (fl_tables d)\<lparr>usage_buckets := rows\<rparr>,
                fl_effort := True, fl_tier := True\<rparr>) = (e, d')"
            then obtain d4 where "same_file d d4" "d' = d4\<lparr>fl_tables := (fl_tables d)\<lparr>usage_buckets := rows\<rparr>,
                fl_effort := True, fl_tier := True\<rparr>" by auto
            with intact_regrouped [OF Some _ missing [OF nf]] show ?thesis by simp
          qed (auto dest: same_file_intact)
        qed
      qed (auto dest: same_file_intact)
    qed (auto dest: same_file_intact)
  qed
qed

lemma and_then_cases:
  assumes "and_then m k d = (e, d')"
  obtains "e \<noteq> None" "m d = (e, d')" | d1 where "m d = (None, d1)" "k d1 = (e, d')"
  using assms by (auto simp: and_then_def split: prod.splits option.splits)

lemma scope_intact:
  assumes "migrateSessionAffinityTenantScopeDigest d = (e, d')"
  shows "intact d d' \<and> (e = None \<longrightarrow> fl_scope d')"
proof -
  let ?alter = "\<lambda>d1. (None, d1\<lparr>fl_scope := True,
    fl_tables := (fl_tables d1)\<lparr>affinity := map (\<lambda>(k, r). (k, r\<lparr>ar_tenant_scope := []\<rparr>)) (affinity (fl_tables d1))\<rparr>\<rparr>)"
  from tableColumnExists_cases [OF assms [unfolded migrateSessionAffinityTenantScopeDigest_def]]
  show ?thesis
  proof
    assume "same_file d d' \<and> (e = None \<longrightarrow> fl_scope d)"
    then show ?thesis by (auto simp: same_file_def)
  next
    assume "\<not> fl_scope d \<and> (\<exists>d1. same_file d d1 \<and> file_call d ?alter d1 = (e, d'))"
    then obtain d1 where d1: "same_file d d1" "file_call d ?alter d1 = (e, d')" "\<not> fl_scope d" by blast
    from file_call_cases [OF d1(2,1)] d1(3) show ?thesis
      by (auto simp: same_file_def intact_def comp_def case_prod_beta)
  qed
qed

lemma indexes_intact:
  assumes "create_indexes d = (e, d')"
  shows "same_file d d' \<and> (e = None \<longrightarrow> one_active (fl_tables d'))"
proof -
  let ?unique = "\<lambda>d1. if one_active (fl_tables d1) then file_calls 8 d (\<lambda>d2. (None, d2)) d1
    else (Some (unique_failed ''api_keys.user_id''), d1)"
  from file_call_cases [OF assms [unfolded create_indexes_def] same_file_refl] show ?thesis
  proof
    assume "\<exists>d1. same_file d d1 \<and> ?unique d1 = (e, d')"
    then obtain d1 where d1: "same_file d d1" "?unique d1 = (e, d')" by blast
    show ?thesis
    proof (cases "one_active (fl_tables d1)")
      case True
      with d1(2) have "file_calls 8 d (\<lambda>d2. (None, d2)) d1 = (e, d')" by simp
      from file_calls_cases [OF this d1(1)] True d1(1) show ?thesis by (auto simp: same_file_def)
    qed (use d1 in auto)
  qed auto
qed

text \<open>
  Opening an old database, whichever of its statements fail, keeps users, keys, health states and bindings, and keeps
  every counter's total over all buckets. When it succeeds every column is there and no user has two enabled
  keys; when nothing was missing, nothing is changed.
\<close>

theorem migration_conserves:
  assumes "migrate d = (e, d')"
  shows "intact d d' \<and>
    (e = None \<longrightarrow> fl_effort d' \<and> fl_tier d' \<and> fl_scope d' \<and> one_active (fl_tables d'))"
proof -
  from assms [unfolded migrate_def] show ?thesis
  proof (cases rule: and_then_cases)
    case 1
    with file_calls_cases [OF 1(2) same_file_refl] show ?thesis by (auto dest: same_file_intact)
  next
    case (2 d1)
    have d1: "intact d d1" using file_calls_cases [OF 2(1) same_file_refl] by (auto dest: same_file_intact)
    from 2(2) have "intact d1 d' \<and> (e = None \<longrightarrow> fl_effort d' \<and> fl_tier d' \<and> fl_scope d' \<and> one_active (fl_tables d'))"
    proof (cases rule: and_then_cases)
      case 1
      with migrateUsageBuckets_intact [OF 1(2) [unfolded migrateUsageBucketsReasoningEffort_def]] show ?thesis by auto
    next
      case (2 d2)
      have d2: "intact d1 d2" "fl_effort d2"
        using migrateUsageBuckets_intact [OF 2(1) [unfolded migrateUsageBucketsReasoningEffort_def]]
        by (auto simp: same_file_def)
      from 2(2) have "intact d2 d' \<and> (e = None \<longrightarrow> fl_tier d' \<and> fl_scope d' \<and> one_active (fl_tables d'))"
      proof (cases rule: and_then_cases)
        case 1
        with migrateUsageBuckets_intact [OF 1(2) [unfolded migrateUsageBucketsServiceTier_def]] show ?thesis by auto
      next
        case (2 d3)
        have d3: "intact d2 d3" "fl_tier d3"
          using migrateUsageBuckets_intact [OF 2(1) [unfolded migrateUsageBucketsServiceTier_def]]
          by (auto simp: same_file_def)
        from 2(2) have "intact d3 d' \<and> (e = None \<longrightarrow> fl_scope d' \<and> one_active (fl_tables d'))"
        proof (cases rule: and_then_cases)
          case 1
          with scope_intact [OF 1(2)] show ?thesis by auto
        next
          case (2 d4)
          from scope_intact [OF 2(1)] indexes_intact [OF 2(2)] show ?thesis by (auto simp: same_file_def)
        qed
        with d3 show ?thesis using intact_trans [OF d3(1)] by (auto simp: intact_def)
      qed
      with d2 show ?thesis using intact_trans [OF d2(1)] by (auto simp: intact_def)
    qed
    with d1 intact_trans [OF d1] show ?thesis by blast
  qed
qed

end
